(* ===== verification/Prelude.thy ===== *)
theory Prelude
  imports "HOL-Library.Word" "HOL-Library.Monad_Syntax"
begin

text \<open>
  Shared vocabulary of the development: the C integer types of the firmware, conversions
  between them, arrays as byte lists with bounds-checked access, and the generic facts the
  component theories use.

  A C access outside an array has no defined result, so the operations on arrays return an
  option: \<open>None\<close> is the out-of-range access, and memory safety of a routine is the theorem
  that it returns \<open>Some\<close>. Indices and lengths are natural numbers; where the code keeps
  them in a field of a fixed width, the reduction \<open>mod 2 ^ w\<close> is written out.
\<close>

unbundle bit_operations_syntax

section \<open>Machine integers\<close>

type_synonym u8 = "8 word"
type_synonym u16 = "16 word"
type_synonym u32 = "32 word"

text \<open>The kernel tick of both boards.\<close>

definition RT_TICK_PER_SECOND :: nat where "RT_TICK_PER_SECOND = 1000"

text \<open>The value a C cast to \<open>int16_t\<close> or \<open>uint16_t\<close> gives.\<close>

definition to_s16 :: "int \<Rightarrow> int" where
  "to_s16 x = (let y = x mod 65536 in if y < 32768 then y else y - 65536)"

definition to_u16 :: "int \<Rightarrow> nat" where
  "to_u16 x = nat (x mod 65536)"

lemma to_s16_small [simp]: "0 \<le> x \<Longrightarrow> x < 32768 \<Longrightarrow> to_s16 x = x"
  by (simp add: to_s16_def)

lemma to_u16_small [simp]: "0 \<le> x \<Longrightarrow> x < 65536 \<Longrightarrow> to_u16 x = nat x"
  by (simp add: to_u16_def)

lemma to_s16_range: "- 32768 \<le> to_s16 x \<and> to_s16 x < 32768"
  using pos_mod_bound [of 65536 x] pos_mod_sign [of 65536 x] unfolding to_s16_def Let_def by auto

lemma to_s16_uint [simp]: "to_s16 (uint (w :: u16)) = sint w"
proof -
  have u: "0 \<le> uint w" "uint w < 65536" using uint_lt2p [of w] by simp_all
  have "sint w = take_bit 16 (uint w + 32768) - 32768"
    by (simp add: sint_uint signed_take_bit_eq_take_bit_shift)
  then have s: "sint w = (uint w + 32768) mod 65536 - 32768"
    by (simp add: take_bit_eq_mod)
  show ?thesis
  proof (cases "uint w < 32768")
    case True
    then show ?thesis using u s by simp
  next
    case False
    have e: "uint w + 32768 = uint w - 32768 + 65536" by simp
    have "(uint w + 32768) mod 65536 = uint w - 32768"
      unfolding e mod_add_self2 using u False by (intro mod_pos_pos_trivial) simp_all
    then show ?thesis using u s False by (simp add: to_s16_def)
  qed
qed

lemma to_s16_id:
  assumes "- 32768 \<le> x" and "x < 32768"
  shows "to_s16 x = x"
proof (cases "x < 0")
  case True
  have "x mod 65536 = (x + 65536) mod 65536" by simp
  also have "\<dots> = x + 65536" using True assms by (intro mod_pos_pos_trivial) simp_all
  finally show ?thesis using True assms by (simp add: to_s16_def Let_def)
qed (use assms in simp)

lemma to_s16_mod32: "to_s16 (x mod 4294967296) = to_s16 x"
  using mod_mod_cancel [of 65536 4294967296 x] by (simp add: to_s16_def)

lemma to_u16_range: "to_u16 x < 65536"
  by (simp add: to_u16_def nat_less_iff)

text \<open>The C division on \<open>int\<close> truncates; a division by zero has no result.\<close>

definition c_div :: "int \<Rightarrow> int \<Rightarrow> int option" where
  "c_div a b = (if b = 0 then None else Some (sgn a * sgn b * (\<bar>a\<bar> div \<bar>b\<bar>)))"

lemma c_div_pos [simp]: "0 \<le> a \<Longrightarrow> 0 < b \<Longrightarrow> c_div a b = Some (a div b)"
  by (cases "a = 0") (simp_all add: c_div_def)

lemma c_div_0 [simp]: "c_div a 0 = None"
  by (simp add: c_div_def)

section \<open>Checked array access\<close>

text \<open>The C expressions \<open>a[i]\<close> and \<open>a[i] = v\<close>.\<close>

definition arr_get :: "'a list \<Rightarrow> nat \<Rightarrow> 'a option" where
  "arr_get xs i = (if i < length xs then Some (xs ! i) else None)"

definition arr_set :: "'a list \<Rightarrow> nat \<Rightarrow> 'a \<Rightarrow> 'a list option" where
  "arr_set xs i v = (if i < length xs then Some (xs[i := v]) else None)"

lemma arr_get_Some [simp]: "i < length xs \<Longrightarrow> arr_get xs i = Some (xs ! i)"
  by (simp add: arr_get_def)

lemma arr_set_Some [simp]: "i < length xs \<Longrightarrow> arr_set xs i v = Some (xs[i := v])"
  by (simp add: arr_set_def)

lemma arr_get_None [simp]: "length xs \<le> i \<Longrightarrow> arr_get xs i = None"
  by (simp add: arr_get_def)

lemma arr_set_None [simp]: "length xs \<le> i \<Longrightarrow> arr_set xs i v = None"
  by (simp add: arr_set_def)

lemma arr_set_None_iff [simp]: "arr_set xs i v = None \<longleftrightarrow> length xs \<le> i"
  by (auto simp: arr_set_def)

lemma arr_set_length: "arr_set xs i v = Some ys \<Longrightarrow> length ys = length xs"
  by (auto simp: arr_set_def split: if_splits)

text \<open>
  \<open>memcpy (&dst[d], &src[s], n)\<close>; source and destination are different arrays everywhere
  in the code modelled here.
\<close>

definition copy_to :: "'a list \<Rightarrow> nat \<Rightarrow> 'a list \<Rightarrow> nat \<Rightarrow> nat \<Rightarrow> 'a list option" where
  "copy_to dst d src s n =
     (if d + n \<le> length dst \<and> s + n \<le> length src
      then Some (take d dst @ take n (drop s src) @ drop (d + n) dst) else None)"

lemma copy_to_Some [simp]:
  "d + n \<le> length dst \<Longrightarrow> s + n \<le> length src \<Longrightarrow>
   copy_to dst d src s n = Some (take d dst @ take n (drop s src) @ drop (d + n) dst)"
  by (simp add: copy_to_def)

lemma copy_to_length: "copy_to dst d src s n = Some r \<Longrightarrow> length r = length dst"
  by (auto simp: copy_to_def split: if_splits)

lemma nth_copied:
  assumes "d + n \<le> length dst" and "s + n \<le> length src" and "i < length dst"
  shows "(take d dst @ take n (drop s src) @ drop (d + n) dst) ! i =
    (if d \<le> i \<and> i < d + n then src ! (s + (i - d)) else dst ! i)"
proof -
  have len: "length (take n (drop s src)) = n" and "length (take d dst) = d"
    using assms by auto
  then show ?thesis using assms by (auto simp: nth_append)
qed

text \<open>The first \<open>n\<close> elements from a pointer.\<close>

definition read_bytes :: "'a list \<Rightarrow> nat \<Rightarrow> 'a list option" where
  "read_bytes xs n = (if n \<le> length xs then Some (take n xs) else None)"

lemma read_bytes_Some [simp]: "n \<le> length xs \<Longrightarrow> read_bytes xs n = Some (take n xs)"
  by (simp add: read_bytes_def)

text \<open>A counted \<open>for\<close> loop over the given values, whose body can fail.\<close>

fun for_loop :: "('i \<Rightarrow> 's \<Rightarrow> 's option) \<Rightarrow> 'i list \<Rightarrow> 's \<Rightarrow> 's option" where
  "for_loop f [] s = Some s"
| "for_loop f (i # is) s = Option.bind (f i s) (for_loop f is)"

lemma for_loop_append:
  "for_loop f (is @ js) s = Option.bind (for_loop f is s) (for_loop f js)"
  by (induction "is" arbitrary: s) (auto intro!: Option.bind_cong)

text \<open>The invariant rule: \<open>P k\<close> holds when the first \<open>k\<close> values are done.\<close>

lemma for_loop_upt:
  assumes "P 0 s" and "\<And>k s. k < n \<Longrightarrow> P k s \<Longrightarrow> \<exists>s'. f k s = Some s' \<and> P (Suc k) s'"
  shows "\<exists>s'. for_loop f [0..<n] s = Some s' \<and> P n s'"
  using assms
proof (induction n)
  case (Suc n)
  have "\<exists>s'. for_loop f [0..<n] s = Some s' \<and> P n s'" by (intro Suc.IH) (auto intro: Suc.prems)
  then obtain s1 where s1: "for_loop f [0..<n] s = Some s1" "P n s1" by blast
  then show ?case using Suc.prems(2) [of n s1] by (auto simp: for_loop_append)
qed simp

text \<open>
  A difference of two sizes that the code passes on as a length: a negative one would reach
  \<open>memcpy\<close> as a huge \<open>size_t\<close>.
\<close>

definition size_diff :: "nat \<Rightarrow> nat \<Rightarrow> nat option" where
  "size_diff a b = (if b \<le> a then Some (a - b) else None)"

lemma size_diff_Some [simp]: "b \<le> a \<Longrightarrow> size_diff a b = Some (a - b)"
  by (simp add: size_diff_def)

text \<open>Splitting off the first index of a counted loop.\<close>

lemma all_from_Suc:
  "(\<forall>j. i \<le> j \<and> j < i + Suc n \<longrightarrow> P j) \<longleftrightarrow> P i \<and> (\<forall>j. Suc i \<le> j \<and> j < Suc i + n \<longrightarrow> P j)"
  by (auto simp: Suc_le_eq) (metis le_neq_implies_less)

section \<open>Memory images\<close>

definition u16_bytes :: "u16 \<Rightarrow> u8 list" where
  "u16_bytes x = [ucast x, ucast (drop_bit 8 x)]"

definition u16_of :: "u8 \<Rightarrow> u8 \<Rightarrow> u16" where
  "u16_of lo hi = ucast lo OR push_bit 8 (ucast hi)"

definition u32_bytes :: "u32 \<Rightarrow> u8 list" where
  "u32_bytes x = [ucast x, ucast (drop_bit 8 x), ucast (drop_bit 16 x), ucast (drop_bit 24 x)]"

definition u32_of :: "u8 \<Rightarrow> u8 \<Rightarrow> u8 \<Rightarrow> u8 \<Rightarrow> u32" where
  "u32_of a b c d = ucast a OR push_bit 8 (ucast b) OR push_bit 16 (ucast c) OR push_bit 24 (ucast d)"

fun u16s_of :: "u8 list \<Rightarrow> u16 list" where
  "u16s_of (a # b # xs) = u16_of a b # u16s_of xs"
| "u16s_of _ = []"

definition u16s_bytes :: "u16 list \<Rightarrow> u8 list" where
  "u16s_bytes xs = concat (map u16_bytes xs)"

lemma bit_u8_lt: "bit (x :: u8) k \<Longrightarrow> k < 8"
  using bit_imp_le_length [of x k] by simp

lemma u16_of_bytes [simp]: "u16_of (ucast x) (ucast (drop_bit 8 x)) = x"
  by (rule bit_word_eqI) (auto simp: u16_of_def bit_simps)

lemma u16_bytes_of [simp]:
  "ucast (u16_of a b) = a" "ucast (drop_bit 8 (u16_of a b)) = b"
  by (rule bit_word_eqI; auto simp: u16_of_def bit_simps dest: bit_u8_lt)+

lemma u32_of_bytes [simp]:
  "u32_of (ucast x) (ucast (drop_bit 8 x)) (ucast (drop_bit 16 x)) (ucast (drop_bit 24 x)) = x"
proof (rule bit_word_eqI)
  fix n assume "n < LENGTH(32)"
  then consider "n < 8" | "8 \<le> n" "n < 16" | "16 \<le> n" "n < 24" | "24 \<le> n" "n < 32"
    by fastforce
  then show "bit (u32_of (ucast x) (ucast (drop_bit 8 x)) (ucast (drop_bit 16 x))
      (ucast (drop_bit 24 x))) n = bit x n"
    by cases (auto simp: u32_of_def bit_simps)
qed

lemma u32_bytes_of [simp]:
  "ucast (u32_of a b c d) = a" "ucast (drop_bit 8 (u32_of a b c d)) = b"
  "ucast (drop_bit 16 (u32_of a b c d)) = c" "ucast (drop_bit 24 (u32_of a b c d)) = d"
  by (rule bit_word_eqI; auto simp: u32_of_def bit_simps dest: bit_u8_lt)+

lemma u16s_of_bytes [simp]: "u16s_of (u16s_bytes xs) = xs"
  by (induction xs) (simp_all add: u16s_bytes_def u16_bytes_def)

lemma length_u16s_bytes [simp]: "length (u16s_bytes xs) = 2 * length xs"
  by (induction xs) (simp_all add: u16s_bytes_def u16_bytes_def)

lemma length_u16s_of: "length (u16s_of bs) = length bs div 2"
  by (induction bs rule: u16s_of.induct) auto

lemma u16s_bytes_of: "even (length bs) \<Longrightarrow> u16s_bytes (u16s_of bs) = bs"
  by (induction bs rule: u16s_of.induct) (auto simp: u16s_bytes_def u16_bytes_def)

section \<open>Deterministic machines\<close>

text \<open>
  Several components are a step function over an event alphabet. The contract they share is an
  invariant that every step keeps; every run then keeps it.
\<close>

locale machine =
  fixes step :: "'s \<Rightarrow> 'e \<Rightarrow> 's"
    and invar :: "'s \<Rightarrow> bool"
  assumes step_invar: "invar s \<Longrightarrow> invar (step s e)"
begin

lemma run_invar: "invar s \<Longrightarrow> invar (foldl step s es)"
  by (induction es arbitrary: s) (simp_all add: step_invar)

lemma run_prefix_invar: "invar s \<Longrightarrow> invar (foldl step s (take n es))"
  by (rule run_invar)

end

text \<open>
  A machine whose steps can fail, and that is only given the events its guard allows: it never fails
  if every allowed step succeeds and keeps the invariant.
\<close>

fun run_steps :: "('e \<Rightarrow> 's \<Rightarrow> 's option) \<Rightarrow> 'e list \<Rightarrow> 's \<Rightarrow> 's option" where
  "run_steps step [] s = Some s"
| "run_steps step (e # es) s = Option.bind (step e s) (run_steps step es)"

fun guarded_run :: "('e \<Rightarrow> 's \<Rightarrow> 's option) \<Rightarrow> ('e \<Rightarrow> 's \<Rightarrow> bool) \<Rightarrow> 'e list \<Rightarrow> 's \<Rightarrow> bool" where
  "guarded_run step guard [] s = True"
| "guarded_run step guard (e # es) s =
     (guard e s \<and> (case step e s of None \<Rightarrow> True | Some t \<Rightarrow> guarded_run step guard es t))"

lemma run_steps_append: "run_steps step (es @ fs) s = Option.bind (run_steps step es s) (run_steps step fs)"
proof (induction es arbitrary: s)
  case (Cons e es)
  then show ?case by (cases "step e s") simp_all
qed simp

locale guarded_machine =
  fixes step :: "'e \<Rightarrow> 's \<Rightarrow> 's option"
    and guard :: "'e \<Rightarrow> 's \<Rightarrow> bool"
    and invar :: "'s \<Rightarrow> bool"
  assumes step_safe: "invar s \<Longrightarrow> guard e s \<Longrightarrow> \<exists>t. step e s = Some t \<and> invar t"
begin

lemma never_stuck: "invar s \<Longrightarrow> guarded_run step guard es s \<Longrightarrow> \<exists>t. run_steps step es s = Some t \<and> invar t"
proof (induction es arbitrary: s)
  case (Cons e es)
  then obtain t where "step e s = Some t" "invar t" using step_safe by fastforce
  then show ?case using Cons by auto
qed simp

end

end
