(* ===== verification/Ringbuffer.thy ===== *)
theory Ringbuffer
  imports Prelude
begin

text \<open>
  The byte ring buffer of RT-Thread (\<open>components/drivers/ipc/ringbuffer.c\<close>) through which
  the firmware moves every UART and USB byte. Read and write position are an index into the
  pool plus a mirror bit; equal indices mean empty in the same mirror and full in opposite
  mirrors. The abstraction \<open>rb_contents\<close> reads the bytes in the buffer, oldest first, and
  every operation is shown to be the corresponding operation on that list.
\<close>

section \<open>State\<close>

record rt_ringbuffer =
  buffer_ptr :: "u8 list"
  read_mirror :: bool
  read_index :: nat
  write_mirror :: bool
  write_index :: nat
  buffer_size :: nat

datatype rt_ringbuffer_state =
  RT_RINGBUFFER_EMPTY | RT_RINGBUFFER_FULL | RT_RINGBUFFER_HALFFULL

text \<open>The indices are 15-bit fields.\<close>

abbreviation idx15 :: "nat \<Rightarrow> nat" where
  "idx15 n \<equiv> n mod 32768"

section \<open>Operations\<close>

definition rt_ringbuffer_status :: "rt_ringbuffer \<Rightarrow> rt_ringbuffer_state" where
  "rt_ringbuffer_status rb =
     (if read_index rb = write_index rb
      then (if read_mirror rb = write_mirror rb then RT_RINGBUFFER_EMPTY else RT_RINGBUFFER_FULL)
      else RT_RINGBUFFER_HALFFULL)"

definition rt_ringbuffer_init :: "u8 list \<Rightarrow> nat \<Rightarrow> rt_ringbuffer" where
  "rt_ringbuffer_init pool sz =
     \<lparr>buffer_ptr = pool, read_mirror = False, read_index = 0,
      write_mirror = False, write_index = 0, buffer_size = sz - sz mod 8\<rparr>"

definition rt_ringbuffer_data_len :: "rt_ringbuffer \<Rightarrow> nat" where
  "rt_ringbuffer_data_len rb =
     (case rt_ringbuffer_status rb of
        RT_RINGBUFFER_EMPTY \<Rightarrow> 0
      | RT_RINGBUFFER_FULL \<Rightarrow> buffer_size rb
      | RT_RINGBUFFER_HALFFULL \<Rightarrow>
          (let wi = write_index rb; ri = read_index rb
           in if wi > ri then wi - ri else buffer_size rb - (ri - wi)))"

text \<open>The macro \<open>rt_ringbuffer_space_len\<close>, an \<open>int\<close> in C.\<close>

definition rt_ringbuffer_space_len :: "rt_ringbuffer \<Rightarrow> int" where
  "rt_ringbuffer_space_len rb =
     int (buffer_size rb) - to_s16 (int (rt_ringbuffer_data_len rb))"

definition rt_ringbuffer_put :: "rt_ringbuffer \<Rightarrow> u8 list \<Rightarrow> nat \<Rightarrow> (nat \<times> rt_ringbuffer) option" where
  "rt_ringbuffer_put rb ptr len0 =
     (let sz = to_u16 (rt_ringbuffer_space_len rb) in
      if sz = 0 then Some (0, rb)
      else
        let len = (if sz < len0 then sz else len0) in
        if int (buffer_size rb) - int (write_index rb) > int len
        then do {
          b \<leftarrow> copy_to (buffer_ptr rb) (write_index rb) ptr 0 len;
          Some (len, rb\<lparr>buffer_ptr := b, write_index := idx15 (write_index rb + len)\<rparr>)
        }
        else do {
          n \<leftarrow> size_diff (buffer_size rb) (write_index rb);
          b \<leftarrow> copy_to (buffer_ptr rb) (write_index rb) ptr 0 n;
          m \<leftarrow> size_diff len n;
          b' \<leftarrow> copy_to b 0 ptr n m;
          Some (len, rb\<lparr>buffer_ptr := b', write_mirror := \<not> write_mirror rb,
                           write_index := idx15 m\<rparr>)
        })"

definition rt_ringbuffer_put_force :: "rt_ringbuffer \<Rightarrow> u8 list \<Rightarrow> nat \<Rightarrow> (nat \<times> rt_ringbuffer) option" where
  "rt_ringbuffer_put_force rb ptr0 len0 =
     (let space_length = to_u16 (rt_ringbuffer_space_len rb);
          ptr = (if len0 > buffer_size rb then drop (len0 - buffer_size rb) ptr0 else ptr0);
          len = (if len0 > buffer_size rb then buffer_size rb else len0)
      in if int (buffer_size rb) - int (write_index rb) > int len
         then do {
           b \<leftarrow> copy_to (buffer_ptr rb) (write_index rb) ptr 0 len;
           let rb' = rb\<lparr>buffer_ptr := b, write_index := idx15 (write_index rb + len)\<rparr>;
           Some (len,
             if len > space_length then rb'\<lparr>read_index := write_index rb'\<rparr> else rb')
         }
         else do {
           n \<leftarrow> size_diff (buffer_size rb) (write_index rb);
           b \<leftarrow> copy_to (buffer_ptr rb) (write_index rb) ptr 0 n;
           m \<leftarrow> size_diff len n;
           b' \<leftarrow> copy_to b 0 ptr n m;
           let rb' = rb\<lparr>buffer_ptr := b', write_mirror := \<not> write_mirror rb, write_index := idx15 m\<rparr>;
           Some (len,
             if len > space_length
             then rb'\<lparr>read_mirror := (if write_index rb' \<le> read_index rb' then \<not> read_mirror rb'
                                     else read_mirror rb'),
                      read_index := write_index rb'\<rparr>
             else rb')
         })"

definition rt_ringbuffer_get :: "rt_ringbuffer \<Rightarrow> u8 list \<Rightarrow> nat \<Rightarrow> (nat \<times> u8 list \<times> rt_ringbuffer) option" where
  "rt_ringbuffer_get rb ptr len0 =
     (let sz = rt_ringbuffer_data_len rb in
      if sz = 0 then Some (0, ptr, rb)
      else
        let len = (if sz < len0 then sz mod 65536 else len0) in
        if int (buffer_size rb) - int (read_index rb) > int len
        then do {
          p \<leftarrow> copy_to ptr 0 (buffer_ptr rb) (read_index rb) len;
          Some (len, p, rb\<lparr>read_index := idx15 (read_index rb + len)\<rparr>)
        }
        else do {
          n \<leftarrow> size_diff (buffer_size rb) (read_index rb);
          p \<leftarrow> copy_to ptr 0 (buffer_ptr rb) (read_index rb) n;
          m \<leftarrow> size_diff len n;
          p' \<leftarrow> copy_to p n (buffer_ptr rb) 0 m;
          Some (len, p', rb\<lparr>read_mirror := \<not> read_mirror rb, read_index := idx15 m\<rparr>)
        })"

text \<open>\<open>peek\<close> returns where the first readable run starts, as an index into the pool.\<close>

definition rt_ringbuffer_peek :: "rt_ringbuffer \<Rightarrow> nat \<times> nat option \<times> rt_ringbuffer" where
  "rt_ringbuffer_peek rb =
     (let sz = rt_ringbuffer_data_len rb in
      if sz = 0 then (0, None, rb)
      else if buffer_size rb - read_index rb > sz
      then (sz, Some (read_index rb), rb\<lparr>read_index := idx15 (read_index rb + sz mod 65536)\<rparr>)
      else (buffer_size rb - read_index rb, Some (read_index rb),
            rb\<lparr>read_mirror := \<not> read_mirror rb, read_index := 0\<rparr>))"

definition rt_ringbuffer_putchar :: "rt_ringbuffer \<Rightarrow> u8 \<Rightarrow> (nat \<times> rt_ringbuffer) option" where
  "rt_ringbuffer_putchar rb ch =
     (if rt_ringbuffer_space_len rb = 0 then Some (0, rb)
      else do {
        b \<leftarrow> arr_set (buffer_ptr rb) (write_index rb) ch;
        let rb' = rb\<lparr>buffer_ptr := b\<rparr>;
        Some (1, if int (write_index rb) = int (buffer_size rb) - 1
                 then rb'\<lparr>write_mirror := \<not> write_mirror rb, write_index := 0\<rparr>
                 else rb'\<lparr>write_index := idx15 (write_index rb + 1)\<rparr>)
      })"

definition rt_ringbuffer_putchar_force :: "rt_ringbuffer \<Rightarrow> u8 \<Rightarrow> (nat \<times> rt_ringbuffer) option" where
  "rt_ringbuffer_putchar_force rb ch =
     (let old_state = rt_ringbuffer_status rb in do {
        b \<leftarrow> arr_set (buffer_ptr rb) (write_index rb) ch;
        let rb' = rb\<lparr>buffer_ptr := b\<rparr>;
        Some (1,
          if int (write_index rb) = int (buffer_size rb) - 1
          then let rb2 = rb'\<lparr>write_mirror := \<not> write_mirror rb, write_index := 0\<rparr>
               in if old_state = RT_RINGBUFFER_FULL
                  then rb2\<lparr>read_mirror := \<not> read_mirror rb, read_index := write_index rb2\<rparr> else rb2
          else let rb2 = rb'\<lparr>write_index := idx15 (write_index rb + 1)\<rparr>
               in if old_state = RT_RINGBUFFER_FULL
                  then rb2\<lparr>read_index := write_index rb2\<rparr> else rb2)
      })"

definition rt_ringbuffer_getchar :: "rt_ringbuffer \<Rightarrow> (nat \<times> u8 option \<times> rt_ringbuffer) option" where
  "rt_ringbuffer_getchar rb =
     (if rt_ringbuffer_data_len rb = 0 then Some (0, None, rb)
      else do {
        ch \<leftarrow> arr_get (buffer_ptr rb) (read_index rb);
        Some (1, Some ch,
          if int (read_index rb) = int (buffer_size rb) - 1
          then rb\<lparr>read_mirror := \<not> read_mirror rb, read_index := 0\<rparr>
          else rb\<lparr>read_index := idx15 (read_index rb + 1)\<rparr>)
      })"

definition rt_ringbuffer_reset :: "rt_ringbuffer \<Rightarrow> rt_ringbuffer" where
  "rt_ringbuffer_reset rb =
     rb\<lparr>read_mirror := False, read_index := 0, write_mirror := False, write_index := 0\<rparr>"

definition rt_ringbuffer_get_size :: "rt_ringbuffer \<Rightarrow> nat" where
  "rt_ringbuffer_get_size rb = buffer_size rb"

section \<open>Invariant and abstraction\<close>

definition rb_wf :: "rt_ringbuffer \<Rightarrow> bool" where
  "rb_wf rb \<longleftrightarrow>
     0 < buffer_size rb \<and> buffer_size rb < 32768 \<and> buffer_size rb \<le> length (buffer_ptr rb) \<and>
     read_index rb < buffer_size rb \<and> write_index rb < buffer_size rb \<and>
     (if read_mirror rb = write_mirror rb then read_index rb \<le> write_index rb
      else write_index rb \<le> read_index rb)"

text \<open>The pool position of the \<open>k\<close>-th byte, and the bytes in the buffer.\<close>

definition rb_slot :: "rt_ringbuffer \<Rightarrow> nat \<Rightarrow> nat" where
  "rb_slot rb k = (let j = read_index rb + k in if j < buffer_size rb then j else j - buffer_size rb)"

definition rb_contents :: "rt_ringbuffer \<Rightarrow> u8 list" where
  "rb_contents rb =
     map (\<lambda>k. buffer_ptr rb ! rb_slot rb k) [0..<rt_ringbuffer_data_len rb]"

lemma data_len_wf:
  "rb_wf rb \<Longrightarrow> rt_ringbuffer_data_len rb =
     (if read_mirror rb = write_mirror rb then write_index rb - read_index rb
      else buffer_size rb - (read_index rb - write_index rb))"
  by (auto simp: rt_ringbuffer_data_len_def rt_ringbuffer_status_def rb_wf_def Let_def
      split: if_splits)

lemma data_len_le: "rb_wf rb \<Longrightarrow> rt_ringbuffer_data_len rb \<le> buffer_size rb"
  by (auto simp: data_len_wf rb_wf_def split: if_splits)

lemma data_len_lt: "rb_wf rb \<Longrightarrow> rt_ringbuffer_data_len rb < 32768"
  by (rule le_less_trans [OF data_len_le]) (simp_all add: rb_wf_def)

lemma length_contents [simp]: "length (rb_contents rb) = rt_ringbuffer_data_len rb"
  by (simp add: rb_contents_def)

lemma nth_contents:
  "k < rt_ringbuffer_data_len rb \<Longrightarrow> rb_contents rb ! k = buffer_ptr rb ! rb_slot rb k"
  by (simp add: rb_contents_def)

lemma space_len_wf:
  "rb_wf rb \<Longrightarrow> rt_ringbuffer_space_len rb = int (buffer_size rb - rt_ringbuffer_data_len rb)"
  using data_len_le [of rb] data_len_lt [of rb]
  by (simp add: rt_ringbuffer_space_len_def of_nat_diff)

lemma space_len_u16_wf:
  "rb_wf rb \<Longrightarrow>
   to_u16 (rt_ringbuffer_space_len rb) = buffer_size rb - rt_ringbuffer_data_len rb"
  by (subst space_len_wf) (auto simp: rb_wf_def)

lemma init_wf:
  assumes "8 \<le> n" and "n < 32768" and "n \<le> length pool"
  shows "rb_wf (rt_ringbuffer_init pool n)"
proof -
  have "n mod 8 < 8" by simp
  then have "n mod 8 < n" using assms(1) by linarith
  moreover have "n - n mod 8 \<le> n" by simp
  ultimately have "0 < n - n mod 8" "n - n mod 8 < 32768" "n - n mod 8 \<le> length pool"
    using assms(2,3) by linarith+
  then show ?thesis by (simp add: rb_wf_def rt_ringbuffer_init_def)
qed

lemma init_contents [simp]: "rb_contents (rt_ringbuffer_init pool n) = []"
  by (simp add: rb_contents_def rt_ringbuffer_init_def rt_ringbuffer_data_len_def
      rt_ringbuffer_status_def)

lemma init_size [simp]: "buffer_size (rt_ringbuffer_init pool n) = n - n mod 8"
  by (simp add: rt_ringbuffer_init_def)

lemma init_data_len [simp]: "rt_ringbuffer_data_len (rt_ringbuffer_init pool n) = 0"
  by (simp add: rt_ringbuffer_init_def rt_ringbuffer_data_len_def rt_ringbuffer_status_def)

section \<open>Moving the two positions\<close>

text \<open>
  Every operation moves the write position forward by some \<open>n\<close>, the read position, or
  both; crossing the end of the pool flips the mirror bit.
\<close>

definition rb_adv_write :: "rt_ringbuffer \<Rightarrow> nat \<Rightarrow> rt_ringbuffer" where
  "rb_adv_write rb n =
     (if write_index rb + n < buffer_size rb then rb\<lparr>write_index := write_index rb + n\<rparr>
      else rb\<lparr>write_mirror := \<not> write_mirror rb, write_index := write_index rb + n - buffer_size rb\<rparr>)"

definition rb_adv_read :: "rt_ringbuffer \<Rightarrow> nat \<Rightarrow> rt_ringbuffer" where
  "rb_adv_read rb n =
     (if read_index rb + n < buffer_size rb then rb\<lparr>read_index := read_index rb + n\<rparr>
      else rb\<lparr>read_mirror := \<not> read_mirror rb, read_index := read_index rb + n - buffer_size rb\<rparr>)"

lemma adv_fields [simp]:
  "buffer_size (rb_adv_write rb n) = buffer_size rb"
  "buffer_size (rb_adv_read rb n) = buffer_size rb"
  "buffer_ptr (rb_adv_write rb n) = buffer_ptr rb"
  "buffer_ptr (rb_adv_read rb n) = buffer_ptr rb"
  "read_index (rb_adv_write rb n) = read_index rb"
  "read_mirror (rb_adv_write rb n) = read_mirror rb"
  "write_index (rb_adv_read rb n) = write_index rb"
  "write_mirror (rb_adv_read rb n) = write_mirror rb"
  by (simp_all add: rb_adv_write_def rb_adv_read_def)

lemma adv_read_0 [simp]: "rb_wf rb \<Longrightarrow> rb_adv_read rb 0 = rb"
  by (simp add: rb_adv_read_def rb_wf_def)

lemma slot_lt: "rb_wf rb \<Longrightarrow> k \<le> buffer_size rb \<Longrightarrow> rb_slot rb k < buffer_size rb"
  by (auto simp: rb_slot_def rb_wf_def Let_def)

lemma slot_end:
  "rb_wf rb \<Longrightarrow> n < buffer_size rb - rt_ringbuffer_data_len rb \<Longrightarrow>
   rb_slot rb (rt_ringbuffer_data_len rb + n) =
     (if write_index rb + n < buffer_size rb then write_index rb + n
      else write_index rb + n - buffer_size rb)"
  by (auto simp: rb_slot_def rb_wf_def data_len_wf Let_def split: if_splits)

lemma adv_write_wf:
  assumes "rb_wf rb" and "n \<le> buffer_size rb - rt_ringbuffer_data_len rb"
  shows "rb_wf (rb_adv_write rb n)"
    and "rt_ringbuffer_data_len (rb_adv_write rb n) = rt_ringbuffer_data_len rb + n"
proof -
  show wf: "rb_wf (rb_adv_write rb n)"
  proof (cases "read_mirror rb = write_mirror rb")
    case True
    then show ?thesis using assms by (auto simp: rb_adv_write_def data_len_wf rb_wf_def)
  next
    case False
    then show ?thesis using assms by (auto simp: rb_adv_write_def data_len_wf rb_wf_def)
  qed
  show "rt_ringbuffer_data_len (rb_adv_write rb n) = rt_ringbuffer_data_len rb + n"
  proof (cases "read_mirror rb = write_mirror rb")
    case True
    then show ?thesis using assms data_len_wf [OF wf]
      by (auto simp: rb_adv_write_def rb_wf_def data_len_wf)
  next
    case False
    then show ?thesis using assms data_len_wf [OF wf]
      by (auto simp: rb_adv_write_def rb_wf_def data_len_wf)
  qed
qed

lemma adv_read_wf:
  assumes "rb_wf rb" and "n \<le> rt_ringbuffer_data_len rb"
  shows "rb_wf (rb_adv_read rb n)"
    and "rt_ringbuffer_data_len (rb_adv_read rb n) = rt_ringbuffer_data_len rb - n"
proof -
  show wf: "rb_wf (rb_adv_read rb n)"
    using assms by (auto simp: rb_adv_read_def data_len_wf rb_wf_def split: if_splits)
  show "rt_ringbuffer_data_len (rb_adv_read rb n) = rt_ringbuffer_data_len rb - n"
    using assms data_len_wf [OF wf] data_len_wf [OF assms(1)]
    by (auto simp: rb_adv_read_def rb_wf_def split: if_splits)
qed

lemma slot_adv_read:
  "rb_wf rb \<Longrightarrow> n \<le> rt_ringbuffer_data_len rb \<Longrightarrow> k < rt_ringbuffer_data_len rb - n \<Longrightarrow>
   rb_slot (rb_adv_read rb n) k = rb_slot rb (n + k)"
  using data_len_le [of rb]
  by (auto simp: rb_slot_def rb_adv_read_def rb_wf_def Let_def split: if_splits)

lemma contents_adv_read:
  assumes "rb_wf rb" and "n \<le> rt_ringbuffer_data_len rb"
  shows "rb_contents (rb_adv_read rb n) = drop n (rb_contents rb)"
  using assms
  by (intro nth_equalityI) (auto simp: adv_read_wf nth_contents slot_adv_read add.commute)

text \<open>Rewriting the free part of the pool, then moving the write position, appends.\<close>

lemma slot_other_buffer [simp]: "rb_slot (rb\<lparr>buffer_ptr := b\<rparr>) k = rb_slot rb k"
  by (simp add: rb_slot_def Let_def)

lemma data_len_other_buffer [simp]:
  "rt_ringbuffer_data_len (rb\<lparr>buffer_ptr := b\<rparr>) = rt_ringbuffer_data_len rb"
  by (simp add: rt_ringbuffer_data_len_def rt_ringbuffer_status_def Let_def)

lemma wf_other_buffer:
  "rb_wf rb \<Longrightarrow> length b = length (buffer_ptr rb) \<Longrightarrow> rb_wf (rb\<lparr>buffer_ptr := b\<rparr>)"
  by (simp add: rb_wf_def)

lemma contents_append:
  assumes wf: "rb_wf rb" and n: "n \<le> buffer_size rb - rt_ringbuffer_data_len rb"
    and len: "length b = length (buffer_ptr rb)" and src: "n \<le> length src"
    and old: "\<And>k. k < rt_ringbuffer_data_len rb \<Longrightarrow> b ! rb_slot rb k = buffer_ptr rb ! rb_slot rb k"
    and new: "\<And>k. k < n \<Longrightarrow> b ! rb_slot rb (rt_ringbuffer_data_len rb + k) = src ! k"
  shows "rb_wf (rb_adv_write (rb\<lparr>buffer_ptr := b\<rparr>) n)"
    and "rb_contents (rb_adv_write (rb\<lparr>buffer_ptr := b\<rparr>) n) = rb_contents rb @ take n src"
proof -
  let ?rb = "rb\<lparr>buffer_ptr := b\<rparr>"
  have wf': "rb_wf ?rb" using wf len by (rule wf_other_buffer)
  have n': "n \<le> buffer_size ?rb - rt_ringbuffer_data_len ?rb" using n by simp
  show "rb_wf (rb_adv_write ?rb n)" by (rule adv_write_wf [OF wf' n'])
  have dl: "rt_ringbuffer_data_len (rb_adv_write ?rb n) = rt_ringbuffer_data_len rb + n"
    using adv_write_wf(2) [OF wf' n'] by simp
  have slot: "rb_slot (rb_adv_write ?rb n) k = rb_slot rb k" for k
    by (simp add: rb_slot_def Let_def)
  show "rb_contents (rb_adv_write ?rb n) = rb_contents rb @ take n src"
  proof (rule nth_equalityI)
    show "length (rb_contents (rb_adv_write ?rb n)) = length (rb_contents rb @ take n src)"
      using dl src by simp
  next
    fix i assume "i < length (rb_contents (rb_adv_write ?rb n))"
    then have i: "i < rt_ringbuffer_data_len rb + n" using dl by simp
    then have "rb_contents (rb_adv_write ?rb n) ! i = b ! rb_slot rb i"
      using dl by (simp add: nth_contents slot)
    then show "rb_contents (rb_adv_write ?rb n) ! i = (rb_contents rb @ take n src) ! i"
      using i old [of i] new [of "i - rt_ringbuffer_data_len rb"]
      by (auto simp: nth_append nth_contents)
  qed
qed

section \<open>Correctness of the operations\<close>

text \<open>
  Writing \<open>n\<close> bytes of \<open>src\<close> at the write position, over the end of the pool when
  needed; \<open>put\<close> and \<open>put_force\<close> share it.
\<close>

definition rb_blit :: "rt_ringbuffer \<Rightarrow> u8 list \<Rightarrow> nat \<Rightarrow> u8 list option" where
  "rb_blit rb src n =
     (if int (buffer_size rb) - int (write_index rb) > int n
      then copy_to (buffer_ptr rb) (write_index rb) src 0 n
      else do {
        k \<leftarrow> size_diff (buffer_size rb) (write_index rb);
        b \<leftarrow> copy_to (buffer_ptr rb) (write_index rb) src 0 k;
        m \<leftarrow> size_diff n k;
        copy_to b 0 src k m
      })"

lemma blit_nth:
  assumes wf: "rb_wf rb" and n: "n \<le> buffer_size rb" and src: "n \<le> length src"
  shows "\<exists>b. rb_blit rb src n = Some b \<and> length b = length (buffer_ptr rb) \<and>
    (\<forall>j < buffer_size rb. b ! j =
      (if write_index rb \<le> j \<and> j < write_index rb + n then src ! (j - write_index rb)
       else if j + buffer_size rb < write_index rb + n
       then src ! (j + buffer_size rb - write_index rb) else buffer_ptr rb ! j))"
proof (cases "int (buffer_size rb) - int (write_index rb) > int n")
  case True
  then have lt: "write_index rb + n < buffer_size rb" by simp
  with wf src show ?thesis
    using nth_copied [of "write_index rb" n "buffer_ptr rb" 0 src]
    by (auto simp: rb_blit_def rb_wf_def True)
next
  case False
  define k where "k = buffer_size rb - write_index rb"
  have le: "buffer_size rb \<le> write_index rb + n" using False by simp
  have k: "k \<le> n" "k \<le> length src" "write_index rb + k = buffer_size rb"
    using le src wf by (auto simp: k_def rb_wf_def)
  define b where "b = take (write_index rb) (buffer_ptr rb) @ take k (drop 0 src) @
    drop (write_index rb + k) (buffer_ptr rb)"
  have bl: "length b = length (buffer_ptr rb)"
    using wf k by (auto simp: b_def rb_wf_def)
  have b: "b ! j = (if write_index rb \<le> j then src ! (j - write_index rb) else buffer_ptr rb ! j)"
    if "j < buffer_size rb" for j
    unfolding b_def
    by (subst nth_copied) (use wf k that in \<open>auto simp: rb_wf_def\<close>)
  define b' where "b' = take 0 b @ take (n - k) (drop k src) @ drop (0 + (n - k)) b"
  have b': "b' ! j = (if j < n - k then src ! (k + j) else b ! j)" if "j < buffer_size rb" for j
    unfolding b'_def
    by (subst nth_copied) (use wf k n src that bl in \<open>auto simp: rb_wf_def\<close>)
  have c1: "copy_to (buffer_ptr rb) (write_index rb) src 0 k = Some b"
    unfolding b_def by (rule copy_to_Some) (use wf k in \<open>auto simp: rb_wf_def\<close>)
  have c2: "copy_to b 0 src k (n - k) = Some b'"
    unfolding b'_def by (rule copy_to_Some) (use wf k n src bl in \<open>auto simp: rb_wf_def\<close>)
  have "rb_blit rb src n = Some b'"
    using c1 c2 k(1) size_diff_Some [of "write_index rb" "buffer_size rb"] wf
    unfolding rb_blit_def if_not_P [OF False] k_def [symmetric]
    by (simp add: rb_wf_def k_def [symmetric] del: copy_to_Some)
  moreover have "length b' = length (buffer_ptr rb)"
    using copy_to_length [OF c2] bl by simp
  moreover have "b' ! j = (if write_index rb \<le> j \<and> j < write_index rb + n then src ! (j - write_index rb)
       else if j + buffer_size rb < write_index rb + n
       then src ! (j + buffer_size rb - write_index rb) else buffer_ptr rb ! j)"
    if j: "j < buffer_size rb" for j
  proof -
    have "j < n - k \<longleftrightarrow> j + buffer_size rb < write_index rb + n" and
      "k + j = j + buffer_size rb - write_index rb"
      using k wf by (auto simp: rb_wf_def)
    moreover have "write_index rb \<le> j \<Longrightarrow> j < write_index rb + n \<and> \<not> j + buffer_size rb < write_index rb + n"
      using j n le by linarith
    ultimately show ?thesis using b [OF j] b' [OF j] by auto
  qed
  ultimately show ?thesis by blast
qed

text \<open>Writing no more than the free space appends to the contents.\<close>

lemma blit_append:
  assumes wf: "rb_wf rb" and n: "n \<le> buffer_size rb - rt_ringbuffer_data_len rb"
    and src: "n \<le> length src"
  shows "\<exists>b. rb_blit rb src n = Some b \<and>
    rb_wf (rb_adv_write (rb\<lparr>buffer_ptr := b\<rparr>) n) \<and>
    rb_contents (rb_adv_write (rb\<lparr>buffer_ptr := b\<rparr>) n) = rb_contents rb @ take n src"
proof -
  from n have n': "n \<le> buffer_size rb" by simp
  from blit_nth [OF wf n' src] obtain b where b: "rb_blit rb src n = Some b"
    and len: "length b = length (buffer_ptr rb)"
    and nth: "\<And>j. j < buffer_size rb \<Longrightarrow> b ! j =
      (if write_index rb \<le> j \<and> j < write_index rb + n then src ! (j - write_index rb)
       else if j + buffer_size rb < write_index rb + n
       then src ! (j + buffer_size rb - write_index rb) else buffer_ptr rb ! j)"
    by blast
  have old: "b ! rb_slot rb k = buffer_ptr rb ! rb_slot rb k"
    if k: "k < rt_ringbuffer_data_len rb" for k
  proof -
    have s: "rb_slot rb k < buffer_size rb"
      using slot_lt [OF wf] k data_len_le [OF wf] by simp
    have "\<not> (write_index rb \<le> rb_slot rb k \<and> rb_slot rb k < write_index rb + n)"
      and "\<not> rb_slot rb k + buffer_size rb < write_index rb + n"
      using k n wf by (auto simp: rb_slot_def data_len_wf rb_wf_def Let_def split: if_splits)
    then show ?thesis using nth [OF s] by auto
  qed
  have new: "b ! rb_slot rb (rt_ringbuffer_data_len rb + k) = src ! k" if k: "k < n" for k
  proof -
    have kk: "k < buffer_size rb - rt_ringbuffer_data_len rb" using k n by simp
    have s: "rb_slot rb (rt_ringbuffer_data_len rb + k) < buffer_size rb"
      using slot_lt [OF wf, of "rt_ringbuffer_data_len rb + k"] kk by simp
    have "write_index rb < buffer_size rb" using wf by (simp add: rb_wf_def)
    then show ?thesis
      using nth [OF s] kk k n' slot_end [OF wf kk] by (auto split: if_splits)
  qed
  show ?thesis
    using b contents_append [OF wf n len src old new] by blast
qed

text \<open>\<open>put\<close> and \<open>put_force\<close> in terms of the two movements.\<close>

lemma put_blit:
  assumes wf: "rb_wf rb" and src: "len \<le> length src"
    and n: "n = min len (buffer_size rb - rt_ringbuffer_data_len rb)"
    and b: "rb_blit rb src n = Some b"
  shows "rt_ringbuffer_put rb src len =
    (if buffer_size rb - rt_ringbuffer_data_len rb = 0 then Some (0, rb)
     else Some (n, rb_adv_write (rb\<lparr>buffer_ptr := b\<rparr>) n))"
proof -
  have w: "write_index rb < buffer_size rb" and s: "buffer_size rb < 32768"
    using wf by (simp_all add: rb_wf_def)
  have mn: "(if buffer_size rb - rt_ringbuffer_data_len rb < len
             then buffer_size rb - rt_ringbuffer_data_len rb else len) = n"
    using n by auto
  have n2: "n \<le> buffer_size rb" using n by simp
  show ?thesis
    unfolding rt_ringbuffer_put_def space_len_u16_wf [OF wf] Let_def mn
    using b w s n2
    by (auto simp: rb_blit_def rb_adv_write_def bind_eq_Some_conv size_diff_def split: if_splits)
qed


theorem put_spec:
  assumes wf: "rb_wf rb" and src: "len \<le> length src"
    and n: "n = min len (buffer_size rb - rt_ringbuffer_data_len rb)"
  shows "\<exists>rb'. rt_ringbuffer_put rb src len = Some (n, rb') \<and> rb_wf rb' \<and>
    buffer_size rb' = buffer_size rb \<and> rb_contents rb' = rb_contents rb @ take n src"
proof -
  have "n \<le> buffer_size rb - rt_ringbuffer_data_len rb" and "n \<le> length src"
    using n src by auto
  from blit_append [OF wf this] obtain b where b: "rb_blit rb src n = Some b"
    and "rb_wf (rb_adv_write (rb\<lparr>buffer_ptr := b\<rparr>) n)"
    and "rb_contents (rb_adv_write (rb\<lparr>buffer_ptr := b\<rparr>) n) = rb_contents rb @ take n src"
    by blast
  then show ?thesis
    using put_blit [OF wf src n b] wf n by auto
qed

lemma blit_adv_read [simp]: "rb_blit (rb_adv_read rb k) src n = rb_blit rb src n"
  by (simp add: rb_blit_def)

text \<open>\<open>put_force\<close> drops the oldest bytes that are in the way and then appends.\<close>

lemma put_force_blit:
  assumes wf: "rb_wf rb" and n: "n = min len (buffer_size rb)"
    and b: "rb_blit rb (drop (len - n) src) n = Some b"
    and d: "d = n - (buffer_size rb - rt_ringbuffer_data_len rb)"
  shows "rt_ringbuffer_put_force rb src len =
    Some (n, rb_adv_write (rb_adv_read (rb\<lparr>buffer_ptr := b\<rparr>) d) n)"
proof -
  have wf': "0 < buffer_size rb" "buffer_size rb < 32768" "write_index rb < buffer_size rb"
    "read_index rb < buffer_size rb"
    "if read_mirror rb = write_mirror rb then read_index rb \<le> write_index rb
     else write_index rb \<le> read_index rb"
    using wf by (simp_all add: rb_wf_def)
  have len: "(if len > buffer_size rb then buffer_size rb else len) = n"
    and ptr: "(if len > buffer_size rb then drop (len - buffer_size rb) src else src) =
      drop (len - n) src"
    using n by auto
  have n2: "n \<le> buffer_size rb" using n by simp
  show ?thesis
  proof (cases "int (buffer_size rb) - int (write_index rb) > int n")
    case True
    then have c: "copy_to (buffer_ptr rb) (write_index rb) (drop (len - n) src) 0 n = Some b"
      using b by (simp add: rb_blit_def)
    have lt: "write_index rb + n < buffer_size rb" using True by simp
    have rd: "rb_adv_read (rb\<lparr>buffer_ptr := b\<rparr>) d = (rb\<lparr>buffer_ptr := b,
        read_index := (if n > buffer_size rb - rt_ringbuffer_data_len rb then write_index rb + n
                       else read_index rb)\<rparr>)"
    proof (cases "read_mirror rb = write_mirror rb")
      case True
      then have "d = 0" and "\<not> n > buffer_size rb - rt_ringbuffer_data_len rb"
        using wf' lt d data_len_wf [OF wf] by simp_all
      then show ?thesis using wf' by (simp add: rb_adv_read_def)
    next
      case False
      then have "write_index rb \<le> read_index rb"
        and "buffer_size rb - rt_ringbuffer_data_len rb = read_index rb - write_index rb"
        using wf' data_len_wf [OF wf] by simp_all
      then show ?thesis using wf' lt d by (simp add: rb_adv_read_def)
    qed
    show ?thesis
      unfolding rt_ringbuffer_put_force_def space_len_u16_wf [OF wf] Let_def len ptr
        if_P [OF True] c rd
      using lt wf' by (simp add: rb_adv_write_def)
  next
    case False
    then have ge: "buffer_size rb \<le> write_index rb + n" by simp
    define k where "k = buffer_size rb - write_index rb"
    obtain b1 where c1: "copy_to (buffer_ptr rb) (write_index rb) (drop (len - n) src) 0 k = Some b1"
      and c2: "copy_to b1 0 (drop (len - n) src) k (n - k) = Some b"
      using b wf' ge unfolding rb_blit_def if_not_P [OF False]
      by (auto simp: bind_eq_Some_conv size_diff_def k_def split: if_splits)
    have sd: "size_diff (buffer_size rb) (write_index rb) = Some k" "size_diff n k = Some (n - k)"
      using wf' ge by (simp_all add: k_def)
    have wi: "write_index rb + n - buffer_size rb = n - k"
      and small: "idx15 (n - k) = n - k" "\<not> write_index rb + n < buffer_size rb"
      using wf' ge n2 by (simp_all add: k_def)
    have rd: "rb_adv_read (rb\<lparr>buffer_ptr := b\<rparr>) d =
      (if n > buffer_size rb - rt_ringbuffer_data_len rb
       then rb\<lparr>buffer_ptr := b, read_mirror := (if n - k \<le> read_index rb then \<not> read_mirror rb
                else read_mirror rb), read_index := n - k\<rparr>
       else rb\<lparr>buffer_ptr := b\<rparr>)"
    proof (cases "read_mirror rb = write_mirror rb")
      case True
      then have sp: "buffer_size rb - rt_ringbuffer_data_len rb =
          buffer_size rb - (write_index rb - read_index rb)"
        and le: "read_index rb \<le> write_index rb"
        using wf' data_len_wf [OF wf] by simp_all
      show ?thesis
      proof (cases "n \<le> buffer_size rb - rt_ringbuffer_data_len rb")
        case True
        then show ?thesis using wf' d by (simp add: rb_adv_read_def)
      next
        case False
        define S where "S = buffer_size rb - rt_ringbuffer_data_len rb"
        define m where "m = n - k"
        have "d + S = n" using False d by (simp add: S_def)
        moreover have "S + write_index rb = buffer_size rb + read_index rb"
          using sp le wf'(3) by (simp add: S_def)
        moreover have "k + write_index rb = buffer_size rb" using wf'(3) by (simp add: k_def)
        moreover have "m + k = n" using ge by (simp add: k_def m_def)
        moreover have "S < n" using False by (simp add: S_def)
        ultimately have "read_index rb + d = m" and "m < buffer_size rb"
          and "\<not> m \<le> read_index rb"
          using n2 wf'(3) by linarith+
        then show ?thesis using False by (simp add: rb_adv_read_def m_def)
      qed
    next
      case False
      then have "write_index rb \<le> read_index rb"
        and "buffer_size rb - rt_ringbuffer_data_len rb = read_index rb - write_index rb"
        using wf' data_len_wf [OF wf] by simp_all
      then show ?thesis using wf' ge n2 d by (simp add: rb_adv_read_def k_def)
    qed
    show ?thesis
      unfolding rt_ringbuffer_put_force_def space_len_u16_wf [OF wf] Let_def len ptr
        if_not_P [OF False] sd Option.bind.bind_lunit c1 c2 rd
      using ge wi small by (simp add: rb_adv_write_def)
  qed
qed

theorem put_force_spec:
  assumes wf: "rb_wf rb" and src: "len \<le> length src" and n: "n = min len (buffer_size rb)"
  shows "\<exists>rb'. rt_ringbuffer_put_force rb src len = Some (n, rb') \<and> rb_wf rb' \<and>
    buffer_size rb' = buffer_size rb \<and>
    rb_contents rb' = drop (rt_ringbuffer_data_len rb + n - buffer_size rb)
      (rb_contents rb @ take n (drop (len - n) src))"
proof -
  define d where "d = n - (buffer_size rb - rt_ringbuffer_data_len rb)"
  have n2: "n \<le> buffer_size rb" using n by simp
  have dl: "d \<le> rt_ringbuffer_data_len rb"
    and dd: "d = rt_ringbuffer_data_len rb + n - buffer_size rb"
    using n data_len_le [OF wf] by (auto simp: d_def)
  let ?r = "rb_adv_read rb d"
  have wf': "rb_wf ?r" and len': "rt_ringbuffer_data_len ?r = rt_ringbuffer_data_len rb - d"
    using adv_read_wf [OF wf dl] by auto
  have "n \<le> buffer_size ?r - rt_ringbuffer_data_len ?r"
    using n2 len' data_len_le [OF wf] by (simp add: d_def)
  moreover have "n \<le> length (drop (len - n) src)" using n src by auto
  ultimately obtain b where b: "rb_blit ?r (drop (len - n) src) n = Some b"
    and wf2: "rb_wf (rb_adv_write (?r\<lparr>buffer_ptr := b\<rparr>) n)"
    and c: "rb_contents (rb_adv_write (?r\<lparr>buffer_ptr := b\<rparr>) n) =
      rb_contents ?r @ take n (drop (len - n) src)"
    using blit_append [OF wf'] by blast
  have eq: "?r\<lparr>buffer_ptr := b\<rparr> = rb_adv_read (rb\<lparr>buffer_ptr := b\<rparr>) d"
    by (simp add: rb_adv_read_def)
  have "rt_ringbuffer_put_force rb src len =
    Some (n, rb_adv_write (rb_adv_read (rb\<lparr>buffer_ptr := b\<rparr>) d) n)"
    using b by (intro put_force_blit [OF wf n _ d_def]) simp
  moreover have "drop d (rb_contents rb) @ take n (drop (len - n) src) =
      drop d (rb_contents rb @ take n (drop (len - n) src))"
    using dl by simp
  ultimately show ?thesis
    using wf2 [unfolded eq] c [unfolded eq contents_adv_read [OF wf dl]]
    unfolding dd [symmetric] by simp
qed

text \<open>Reading.\<close>

lemma getchar_spec:
  assumes wf: "rb_wf rb"
  shows "rt_ringbuffer_getchar rb =
    (case rb_contents rb of [] \<Rightarrow> Some (0, None, rb) | c # _ \<Rightarrow> Some (1, Some c, rb_adv_read rb 1))"
proof (cases "rt_ringbuffer_data_len rb = 0")
  case True
  then have "rb_contents rb = []" by (simp add: rb_contents_def)
  with True show ?thesis by (simp add: rt_ringbuffer_getchar_def)
next
  case False
  then have "rb_contents rb \<noteq> []" by (metis length_contents list.size(3))
  moreover have "rb_contents rb ! 0 = buffer_ptr rb ! read_index rb"
    using False wf by (simp add: nth_contents rb_slot_def rb_wf_def)
  ultimately have c: "rb_contents rb = (buffer_ptr rb ! read_index rb) # tl (rb_contents rb)"
    by (cases "rb_contents rb") auto
  show ?thesis
    using False wf
    by (subst c) (auto simp: rt_ringbuffer_getchar_def rb_adv_read_def rb_wf_def)
qed

lemma contents_first:
  assumes wf: "rb_wf rb" and n: "n \<le> rt_ringbuffer_data_len rb"
    and k: "k = buffer_size rb - read_index rb"
  shows "take n (rb_contents rb) =
    (if n < k then take n (drop (read_index rb) (buffer_ptr rb))
     else take k (drop (read_index rb) (buffer_ptr rb)) @ take (n - k) (buffer_ptr rb))"
  (is "?l = ?r")
proof (rule nth_equalityI)
  have w: "read_index rb < buffer_size rb" "buffer_size rb \<le> length (buffer_ptr rb)"
    using wf by (simp_all add: rb_wf_def)
  have n2: "n \<le> buffer_size rb" using n data_len_le [OF wf] by simp
  have lk: "length (take k (drop (read_index rb) (buffer_ptr rb))) = k" using w k by simp
  show "length ?l = length ?r" using w n n2 k by auto
  fix i assume "i < length ?l"
  then have i: "i < n" "i < rt_ringbuffer_data_len rb" using n by auto
  then have "?l ! i = buffer_ptr rb ! rb_slot rb i" by (simp add: nth_contents)
  also have "\<dots> = ?r ! i"
    using w n2 k i lk by (auto simp: rb_slot_def Let_def nth_append add.commute simp del: length_take)
  finally show "?l ! i = ?r ! i" .
qed

theorem get_spec:
  assumes wf: "rb_wf rb" and dst: "len \<le> length ptr"
    and n: "n = min len (rt_ringbuffer_data_len rb)"
  shows "rt_ringbuffer_get rb ptr len =
    Some (n, take n (rb_contents rb) @ drop n ptr, rb_adv_read rb n)"
proof (cases "rt_ringbuffer_data_len rb = 0")
  case True
  then show ?thesis using wf n by (simp add: rt_ringbuffer_get_def)
next
  case False
  define k where "k = buffer_size rb - read_index rb"
  have w: "read_index rb < buffer_size rb" "buffer_size rb < 32768"
    "buffer_size rb \<le> length (buffer_ptr rb)"
    using wf by (simp_all add: rb_wf_def)
  have nl: "n \<le> rt_ringbuffer_data_len rb" "n \<le> length ptr" "n \<le> buffer_size rb"
    using n dst data_len_le [OF wf] by auto
  have mn: "(if rt_ringbuffer_data_len rb < len then rt_ringbuffer_data_len rb mod 65536
             else len) = n"
    using n data_len_lt [OF wf] by auto
  have guard: "int (buffer_size rb) - int (read_index rb) > int n \<longleftrightarrow> n < k"
    using w by (auto simp: k_def)
  have first: "take n (rb_contents rb) =
    (if n < k then take n (drop (read_index rb) (buffer_ptr rb))
     else take k (drop (read_index rb) (buffer_ptr rb)) @ take (n - k) (buffer_ptr rb))"
    by (rule contents_first [OF wf nl(1) k_def])
  show ?thesis
  proof (cases "n < k")
    case True
    then show ?thesis
      unfolding rt_ringbuffer_get_def Let_def mn guard
      using False w nl first by (simp add: rb_adv_read_def k_def)
  next
    case ge: False
    have le: "read_index rb + k = buffer_size rb" "k \<le> n" using w ge by (simp_all add: k_def)
    have k1: "size_diff (buffer_size rb) (read_index rb) = Some k" "size_diff n k = Some (n - k)"
      using w ge by (simp_all add: k_def)
    have ri: "\<not> read_index rb + n < buffer_size rb"
      "read_index rb + n - buffer_size rb = n - k" "idx15 (n - k) = n - k"
      using w ge nl by (simp_all add: k_def)
    show ?thesis
      unfolding rt_ringbuffer_get_def Let_def mn guard k1 first
      using False w nl le ge k1 ri by (simp add: rb_adv_read_def)
  qed
qed

lemma peek_spec:
  assumes wf: "rb_wf rb" and ne: "rt_ringbuffer_data_len rb \<noteq> 0"
    and n: "n = min (rt_ringbuffer_data_len rb) (buffer_size rb - read_index rb)"
  shows "rt_ringbuffer_peek rb = (n, Some (read_index rb), rb_adv_read rb n)"
    and "take n (drop (read_index rb) (buffer_ptr rb)) = take n (rb_contents rb)"
proof -
  have w: "read_index rb < buffer_size rb" "buffer_size rb < 32768"
    "buffer_size rb \<le> length (buffer_ptr rb)"
    using wf by (simp_all add: rb_wf_def)
  show "rt_ringbuffer_peek rb = (n, Some (read_index rb), rb_adv_read rb n)"
    using w ne n data_len_lt [OF wf]
    by (auto simp: rt_ringbuffer_peek_def rb_adv_read_def Let_def min_def)
  have "n \<le> rt_ringbuffer_data_len rb" using n by simp
  from contents_first [OF wf this refl]
  show "take n (drop (read_index rb) (buffer_ptr rb)) = take n (rb_contents rb)"
    using n by (auto simp: min_def split: if_splits)
qed


text \<open>Single bytes.\<close>

lemma nth_after_write:
  assumes wf: "rb_wf rb" and free: "rt_ringbuffer_data_len rb < buffer_size rb"
    and b: "b = (buffer_ptr rb)[write_index rb := ch]"
  shows "rb_wf (rb_adv_write (rb\<lparr>buffer_ptr := b\<rparr>) 1)"
    and "rb_contents (rb_adv_write (rb\<lparr>buffer_ptr := b\<rparr>) 1) = rb_contents rb @ [ch]"
proof -
  have w: "write_index rb < buffer_size rb" "buffer_size rb \<le> length (buffer_ptr rb)"
    using wf by (simp_all add: rb_wf_def)
  have n: "1 \<le> buffer_size rb - rt_ringbuffer_data_len rb" using free by simp
  have old: "b ! rb_slot rb k = buffer_ptr rb ! rb_slot rb k"
    if "k < rt_ringbuffer_data_len rb" for k
  proof -
    have "rb_slot rb k \<noteq> write_index rb"
      using that wf free by (auto simp: rb_slot_def data_len_wf rb_wf_def Let_def split: if_splits)
    then show ?thesis by (simp add: b)
  qed
  have new: "b ! rb_slot rb (rt_ringbuffer_data_len rb + k) = [ch] ! k" if "k < 1" for k
    using that slot_end [OF wf, of 0] free w by (simp add: b)
  have len: "length b = length (buffer_ptr rb)" by (simp add: b)
  have src: "1 \<le> length [ch]" by simp
  note * = contents_append [OF wf n len src old new]
  show "rb_wf (rb_adv_write (rb\<lparr>buffer_ptr := b\<rparr>) 1)"
    and "rb_contents (rb_adv_write (rb\<lparr>buffer_ptr := b\<rparr>) 1) = rb_contents rb @ [ch]"
    using * by simp_all
qed

lemma adv_write_1:
  "rb_wf rb \<Longrightarrow> rb_adv_write (rb\<lparr>buffer_ptr := b\<rparr>) 1 =
     (if int (write_index rb) = int (buffer_size rb) - 1
      then rb\<lparr>buffer_ptr := b, write_mirror := \<not> write_mirror rb, write_index := 0\<rparr>
      else rb\<lparr>buffer_ptr := b, write_index := idx15 (write_index rb + 1)\<rparr>)"
  by (auto simp: rb_adv_write_def rb_wf_def)

theorem putchar_spec:
  assumes wf: "rb_wf rb"
  shows "\<exists>rb'. rt_ringbuffer_putchar rb ch =
      Some (if length (rb_contents rb) < buffer_size rb then 1 else 0, rb') \<and>
    rb_wf rb' \<and> buffer_size rb' = buffer_size rb \<and>
    rb_contents rb' = take (buffer_size rb) (rb_contents rb @ [ch])"
proof (cases "rt_ringbuffer_data_len rb < buffer_size rb")
  case True
  define b where "b = (buffer_ptr rb)[write_index rb := ch]"
  have "rt_ringbuffer_putchar rb ch = Some (1, rb_adv_write (rb\<lparr>buffer_ptr := b\<rparr>) 1)"
    unfolding adv_write_1 [OF wf] using wf True
    by (auto simp: rt_ringbuffer_putchar_def space_len_wf b_def rb_wf_def)
  then show ?thesis
    using nth_after_write [OF wf True b_def] True by auto
next
  case False
  then show ?thesis
    using wf data_len_le [OF wf] by (auto simp: rt_ringbuffer_putchar_def space_len_wf)
qed

theorem putchar_force_spec:
  assumes wf: "rb_wf rb"
  shows "\<exists>rb'. rt_ringbuffer_putchar_force rb ch = Some (1, rb') \<and>
    rb_wf rb' \<and> buffer_size rb' = buffer_size rb \<and>
    rb_contents rb' = drop (length (rb_contents rb) + 1 - buffer_size rb) (rb_contents rb @ [ch])"
proof -
  define b where "b = (buffer_ptr rb)[write_index rb := ch]"
  have w: "write_index rb < buffer_size rb" "buffer_size rb \<le> length (buffer_ptr rb)"
    "buffer_size rb < 32768" "0 < buffer_size rb"
    using wf by (simp_all add: rb_wf_def)
  show ?thesis
  proof (cases "rt_ringbuffer_status rb = RT_RINGBUFFER_FULL")
    case False
    then have free: "rt_ringbuffer_data_len rb < buffer_size rb"
      using wf by (auto simp: data_len_wf rt_ringbuffer_status_def rb_wf_def split: if_splits)
    have "rt_ringbuffer_putchar_force rb ch = Some (1, rb_adv_write (rb\<lparr>buffer_ptr := b\<rparr>) 1)"
      unfolding adv_write_1 [OF wf] using w False
      by (auto simp: rt_ringbuffer_putchar_force_def b_def)
    then show ?thesis
      using nth_after_write [OF wf free b_def] free by auto
  next
    case True
    then have full: "rt_ringbuffer_data_len rb = buffer_size rb"
      and eq: "read_index rb = write_index rb" "read_mirror rb \<noteq> write_mirror rb"
      by (auto simp: rt_ringbuffer_data_len_def rt_ringbuffer_status_def split: if_splits)
    have one: "1 \<le> rt_ringbuffer_data_len rb" using full w by simp
    let ?r = "rb_adv_read rb 1"
    have wf': "rb_wf ?r" and free: "rt_ringbuffer_data_len ?r < buffer_size ?r"
      using adv_read_wf [OF wf one] full w by auto
    have "rt_ringbuffer_putchar_force rb ch = Some (1, rb_adv_write (?r\<lparr>buffer_ptr := b\<rparr>) 1)"
      unfolding adv_write_1 [OF wf'] using w True eq
      by (auto simp: rt_ringbuffer_putchar_force_def b_def rb_adv_read_def)
    moreover have "b = (buffer_ptr ?r)[write_index ?r := ch]" by (simp add: b_def)
    ultimately show ?thesis
      using nth_after_write [OF wf' free] contents_adv_read [OF wf one] full one by auto
  qed
qed

section \<open>The FIFO interface\<close>

text \<open>
  What the drivers rely on: single bytes, and blocks. The drivers' loops over single bytes are
  \<open>push_each\<close> and \<open>pop_while\<close> below; their effect is proved once from the laws.
\<close>

fun push_each :: "('q \<Rightarrow> u8 \<Rightarrow> (nat \<times> 'q) option) \<Rightarrow> 'q \<Rightarrow> u8 list \<Rightarrow> 'q option" where
  "push_each put q [] = Some q"
| "push_each put q (c # cs) = do { (_, q') \<leftarrow> put q c; push_each put q' cs }"

locale byte_fifo =
  fixes invar :: "'q \<Rightarrow> bool"
    and contents :: "'q \<Rightarrow> u8 list"
    and capacity :: "'q \<Rightarrow> nat"
    and put1 :: "'q \<Rightarrow> u8 \<Rightarrow> (nat \<times> 'q) option"
    and get1 :: "'q \<Rightarrow> (nat \<times> u8 option \<times> 'q) option"
  assumes bounded: "invar q \<Longrightarrow> length (contents q) \<le> capacity q"
    and put1_law: "invar q \<Longrightarrow> \<exists>q'.
      put1 q c = Some (if length (contents q) < capacity q then 1 else 0, q') \<and>
      invar q' \<and> capacity q' = capacity q \<and> contents q' = take (capacity q) (contents q @ [c])"
    and get1_empty: "invar q \<Longrightarrow> contents q = [] \<Longrightarrow> get1 q = Some (0, None, q)"
    and get1_cons: "invar q \<Longrightarrow> contents q = c # cs \<Longrightarrow> \<exists>q'.
      get1 q = Some (1, Some c, q') \<and> invar q' \<and> capacity q' = capacity q \<and> contents q' = cs"
begin

lemma push_each_law:
  "invar q \<Longrightarrow> \<exists>q'. push_each put1 q cs = Some q' \<and> invar q' \<and> capacity q' = capacity q \<and>
     contents q' = take (capacity q) (contents q @ cs)"
proof (induction cs arbitrary: q)
  case Nil
  then show ?case by (simp add: bounded)
next
  case (Cons c cs)
  obtain q1 where q1: "put1 q c = Some (if length (contents q) < capacity q then 1 else 0, q1)"
    "invar q1" "capacity q1 = capacity q" "contents q1 = take (capacity q) (contents q @ [c])"
    using put1_law [OF Cons.prems] by blast
  obtain q' where "push_each put1 q1 cs = Some q'" "invar q'" "capacity q' = capacity q1"
    "contents q' = take (capacity q1) (contents q1 @ cs)"
    using Cons.IH [OF q1(2)] by blast
  moreover have "take (capacity q) (contents q1 @ cs) = take (capacity q) (contents q @ c # cs)"
  proof (cases "length (contents q) < capacity q")
    case True
    then have "contents q1 = contents q @ [c]" using q1(4) by simp
    then show ?thesis by (simp only: append_assoc append_Cons append_Nil)
  next
    case False
    then show ?thesis using q1(4) bounded [OF Cons.prems] by simp
  qed
  ultimately show ?case using q1 by simp
qed

lemma push_each_fits:
  assumes "invar q" and "length (contents q) + length cs \<le> capacity q"
  shows "\<exists>q'. push_each put1 q cs = Some q' \<and> invar q' \<and> contents q' = contents q @ cs"
  using push_each_law [OF assms(1), of cs] assms(2) by auto

lemma put_then_get:
  assumes "invar q" and "contents q = []" and "0 < capacity q"
  shows "\<exists>q' q''. put1 q c = Some (1, q') \<and> get1 q' = Some (1, Some c, q'') \<and> contents q'' = []"
proof -
  obtain q' where "put1 q c = Some (1, q')" "invar q'" "contents q' = [c]"
    using put1_law [OF assms(1), of c] assms(2,3) by auto
  then show ?thesis using get1_cons [of q' c "[]"] by blast
qed

end

locale byte_fifo_blocks = byte_fifo invar contents capacity put1 get1
  for invar :: "'q \<Rightarrow> bool" and contents capacity put1 get1 +
  fixes put :: "'q \<Rightarrow> u8 list \<Rightarrow> nat \<Rightarrow> (nat \<times> 'q) option"
    and get :: "'q \<Rightarrow> u8 list \<Rightarrow> nat \<Rightarrow> (nat \<times> u8 list \<times> 'q) option"
  assumes put_law: "invar q \<Longrightarrow> n \<le> length src \<Longrightarrow> \<exists>q'.
      put q src n = Some (min n (capacity q - length (contents q)), q') \<and> invar q' \<and>
      capacity q' = capacity q \<and>
      contents q' = contents q @ take (min n (capacity q - length (contents q))) src"
    and get_law: "invar q \<Longrightarrow> n \<le> length dst \<Longrightarrow> \<exists>q'.
      get q dst n = Some (min n (length (contents q)),
        take n (contents q) @ drop (min n (length (contents q))) dst, q') \<and> invar q' \<and>
      capacity q' = capacity q \<and> contents q' = drop n (contents q)"
begin

text \<open>A block written into an empty buffer that has room for it is read back unchanged.\<close>

lemma block_roundtrip:
  assumes "invar q" and "contents q = []" and "length bs \<le> capacity q"
    and "length bs \<le> length dst"
  shows "\<exists>q' q''. put q bs (length bs) = Some (length bs, q') \<and>
    get q' dst (length bs) = Some (length bs, bs @ drop (length bs) dst, q'') \<and>
    invar q'' \<and> contents q'' = []"
proof -
  obtain q' where q': "put q bs (length bs) = Some (length bs, q')" "invar q'"
    "capacity q' = capacity q" "contents q' = bs"
    using put_law [OF assms(1), of "length bs" bs] assms(2,3) by (auto simp: min_def)
  then show ?thesis
    using get_law [OF q'(2) assms(4)] by auto
qed

end

interpretation rb: byte_fifo_blocks rb_wf rb_contents buffer_size
  rt_ringbuffer_putchar rt_ringbuffer_getchar rt_ringbuffer_put rt_ringbuffer_get
proof
  fix q :: rt_ringbuffer assume wf: "rb_wf q"
  show "length (rb_contents q) \<le> buffer_size q" using data_len_le [OF wf] by simp
  show "\<exists>q'. rt_ringbuffer_putchar q c =
      Some (if length (rb_contents q) < buffer_size q then 1 else 0, q') \<and>
    rb_wf q' \<and> buffer_size q' = buffer_size q \<and>
    rb_contents q' = take (buffer_size q) (rb_contents q @ [c])" for c
    by (rule putchar_spec [OF wf])
  show "rt_ringbuffer_getchar q = Some (0, None, q)" if "rb_contents q = []"
    using that by (simp add: getchar_spec [OF wf])
  show "\<exists>q'. rt_ringbuffer_getchar q = Some (1, Some c, q') \<and> rb_wf q' \<and>
    buffer_size q' = buffer_size q \<and> rb_contents q' = cs" if c: "rb_contents q = c # cs" for c cs
  proof -
    have "1 \<le> rt_ringbuffer_data_len q" using c length_contents [of q] by simp
    then show ?thesis
      using c getchar_spec [OF wf] adv_read_wf [OF wf] contents_adv_read [OF wf] by simp
  qed
  show "\<exists>q'. rt_ringbuffer_put q src n =
      Some (min n (buffer_size q - length (rb_contents q)), q') \<and> rb_wf q' \<and>
    buffer_size q' = buffer_size q \<and>
    rb_contents q' = rb_contents q @ take (min n (buffer_size q - length (rb_contents q))) src"
    if "n \<le> length src" for src n
    using put_spec [OF wf that refl] by auto
  show "\<exists>q'. rt_ringbuffer_get q dst n = Some (min n (length (rb_contents q)),
      take n (rb_contents q) @ drop (min n (length (rb_contents q))) dst, q') \<and> rb_wf q' \<and>
    buffer_size q' = buffer_size q \<and> rb_contents q' = drop n (rb_contents q)"
    if "n \<le> length dst" for dst n
    using get_spec [OF wf that refl] adv_read_wf(1) [OF wf, of "min n (rt_ringbuffer_data_len q)"]
      contents_adv_read [OF wf, of "min n (rt_ringbuffer_data_len q)"]
    by (auto simp: min_def split: if_splits)
qed

end
