(* ===== verification/RingbufferSpec.thy ===== *)
theory RingbufferSpec
  imports Ringbuffer
begin

text \<open>
  The contract of the ring buffer: whatever sequence of operations a client makes, the results it
  gets are those of a bounded byte queue. An operation names its data; its result is the count
  the C function returns and the bytes it delivers.
\<close>

section \<open>Operations of a client and the abstract queue\<close>

datatype rb_op =
  Put "u8 list" | PutForce "u8 list" | Get nat | PutChar u8 | PutCharForce u8 | GetChar | Reset

type_synonym rb_result = "nat \<times> u8 list"

fun rb_exec :: "rt_ringbuffer \<Rightarrow> rb_op \<Rightarrow> (rb_result \<times> rt_ringbuffer) option" where
  "rb_exec rb (Put bs) =
     do { (n, rb') \<leftarrow> rt_ringbuffer_put rb bs (length bs); Some ((n, []), rb') }"
| "rb_exec rb (PutForce bs) =
     do { (n, rb') \<leftarrow> rt_ringbuffer_put_force rb bs (length bs); Some ((n, []), rb') }"
| "rb_exec rb (Get k) =
     do { (n, p, rb') \<leftarrow> rt_ringbuffer_get rb (replicate k 0) k; Some ((n, take n p), rb') }"
| "rb_exec rb (PutChar c) =
     do { (n, rb') \<leftarrow> rt_ringbuffer_putchar rb c; Some ((n, []), rb') }"
| "rb_exec rb (PutCharForce c) =
     do { (n, rb') \<leftarrow> rt_ringbuffer_putchar_force rb c; Some ((n, []), rb') }"
| "rb_exec rb GetChar =
     do { (n, c, rb') \<leftarrow> rt_ringbuffer_getchar rb;
          Some ((n, case c of None \<Rightarrow> [] | Some x \<Rightarrow> [x]), rb') }"
| "rb_exec rb Reset = Some ((0, []), rt_ringbuffer_reset rb)"

fun q_exec :: "nat \<Rightarrow> u8 list \<Rightarrow> rb_op \<Rightarrow> rb_result \<times> u8 list" where
  "q_exec cap q (Put bs) =
     (let n = min (length bs) (cap - length q) in ((n, []), q @ take n bs))"
| "q_exec cap q (PutForce bs) =
     (let new = drop (length bs - cap) bs; all = q @ new
      in ((length new, []), drop (length all - cap) all))"
| "q_exec cap q (Get k) = (let n = min k (length q) in ((n, take n q), drop n q))"
| "q_exec cap q (PutChar c) =
     (if length q < cap then ((1, []), q @ [c]) else ((0, []), q))"
| "q_exec cap q (PutCharForce c) = ((1, []), drop (length q + 1 - cap) (q @ [c]))"
| "q_exec cap q GetChar = (case q of [] \<Rightarrow> ((0, []), []) | c # q' \<Rightarrow> ((1, [c]), q'))"
| "q_exec cap q Reset = ((0, []), [])"

fun rb_run :: "rt_ringbuffer \<Rightarrow> rb_op list \<Rightarrow> (rb_result list \<times> rt_ringbuffer) option" where
  "rb_run rb [] = Some ([], rb)"
| "rb_run rb (op # ops) = do {
     (r, rb1) \<leftarrow> rb_exec rb op;
     (rs, rb2) \<leftarrow> rb_run rb1 ops;
     Some (r # rs, rb2)
   }"

fun q_run :: "nat \<Rightarrow> u8 list \<Rightarrow> rb_op list \<Rightarrow> rb_result list \<times> u8 list" where
  "q_run cap q [] = ([], q)"
| "q_run cap q (op # ops) =
     (let (r, q1) = q_exec cap q op; (rs, q2) = q_run cap q1 ops in (r # rs, q2))"

section \<open>Simulation\<close>

definition simulated :: "rt_ringbuffer \<Rightarrow> rb_op \<Rightarrow> bool" where
  "simulated rb op \<longleftrightarrow> (\<exists>rb'. rb_exec rb op = Some (fst (q_exec (buffer_size rb) (rb_contents rb) op), rb') \<and>
     rb_wf rb' \<and> buffer_size rb' = buffer_size rb \<and>
     rb_contents rb' = snd (q_exec (buffer_size rb) (rb_contents rb) op))"

lemma sim_put: "rb_wf rb \<Longrightarrow> simulated rb (Put bs)"
  using put_spec [OF _ order_refl refl, of rb bs] by (auto simp: simulated_def Let_def)

lemma sim_put_force:
  assumes "rb_wf rb"
  shows "simulated rb (PutForce bs)"
proof -
  define n where "n = min (length bs) (buffer_size rb)"
  obtain rb' where r: "rt_ringbuffer_put_force rb bs (length bs) = Some (n, rb')" "rb_wf rb'"
    "buffer_size rb' = buffer_size rb"
    "rb_contents rb' = drop (rt_ringbuffer_data_len rb + n - buffer_size rb)
       (rb_contents rb @ take n (drop (length bs - n) bs))"
    using put_force_spec [OF assms order_refl n_def] by blast
  have "length bs - n = length bs - buffer_size rb" and "length bs - (length bs - n) \<le> n"
    by (auto simp: n_def)
  then have "take n (drop (length bs - n) bs) = drop (length bs - buffer_size rb) bs" by simp
  moreover have "length (drop (length bs - buffer_size rb) bs) = n" by (simp add: n_def)
  ultimately show ?thesis using r by (simp add: simulated_def Let_def)
qed

lemma sim_get:
  assumes "rb_wf rb"
  shows "simulated rb (Get k)"
proof -
  define n where "n = min k (rt_ringbuffer_data_len rb)"
  have "rt_ringbuffer_get rb (replicate k 0) k =
    Some (n, take n (rb_contents rb) @ drop n (replicate k 0), rb_adv_read rb n)"
    by (rule get_spec [OF assms _ n_def]) simp
  moreover have "n \<le> rt_ringbuffer_data_len rb" by (simp add: n_def)
  ultimately show ?thesis
    using adv_read_wf [OF assms, of n] contents_adv_read [OF assms, of n]
    by (simp add: simulated_def Let_def flip: n_def)
qed

lemma sim_putchar: "rb_wf rb \<Longrightarrow> simulated rb (PutChar c)"
  using putchar_spec [of rb c] data_len_le [of rb] by (auto simp: simulated_def)

lemma sim_putchar_force: "rb_wf rb \<Longrightarrow> simulated rb (PutCharForce c)"
  using putchar_force_spec [of rb c] by (auto simp: simulated_def)

lemma sim_getchar:
  assumes wf: "rb_wf rb"
  shows "simulated rb GetChar"
proof (cases "rb_contents rb")
  case Nil
  then show ?thesis using getchar_spec [OF wf] wf by (simp add: simulated_def)
next
  case (Cons c cs)
  then have "1 \<le> rt_ringbuffer_data_len rb" using length_contents [of rb] by simp
  then show ?thesis
    using Cons getchar_spec [OF wf] adv_read_wf [OF wf] contents_adv_read [OF wf]
    by (simp add: simulated_def)
qed

lemma sim_reset: "rb_wf rb \<Longrightarrow> simulated rb Reset"
  by (simp add: simulated_def rt_ringbuffer_reset_def rb_wf_def rb_contents_def
      rt_ringbuffer_data_len_def rt_ringbuffer_status_def)

lemma every_op_simulated: "rb_wf rb \<Longrightarrow> simulated rb op"
  by (cases op) (simp_all add: sim_put sim_put_force sim_get sim_putchar sim_putchar_force
      sim_getchar sim_reset)

lemma run_refines:
  "rb_wf rb \<Longrightarrow> \<exists>rb'. rb_run rb ops = Some (fst (q_run (buffer_size rb) (rb_contents rb) ops), rb') \<and>
     rb_wf rb' \<and> rb_contents rb' = snd (q_run (buffer_size rb) (rb_contents rb) ops)"
proof (induction ops arbitrary: rb)
  case Nil
  then show ?case by simp
next
  case (Cons op ops)
  obtain rb1 where 1: "rb_exec rb op = Some (fst (q_exec (buffer_size rb) (rb_contents rb) op), rb1)"
    "rb_wf rb1" "buffer_size rb1 = buffer_size rb"
    "rb_contents rb1 = snd (q_exec (buffer_size rb) (rb_contents rb) op)"
    using every_op_simulated [OF Cons.prems] unfolding simulated_def by blast
  then show ?case using Cons.IH [OF 1(2)] by (auto simp: Let_def split_beta)
qed

section \<open>Properties\<close>

text \<open>
  C1: Refinement. From a freshly initialised buffer, every sequence of operations runs without an
  out-of-range access and returns exactly the counts and bytes of a bounded queue whose capacity
  is the pool size rounded down to a multiple of eight.
\<close>

theorem ringbuffer_refines_queue:
  assumes "8 \<le> n" and "n < 32768" and "n \<le> length pool"
  shows "\<exists>rb'. rb_run (rt_ringbuffer_init pool n) ops =
      Some (fst (q_run (n - n mod 8) [] ops), rb') \<and>
    rb_wf rb' \<and> rb_contents rb' = snd (q_run (n - n mod 8) [] ops)"
  using run_refines [OF init_wf [OF assms], of ops] by simp

theorem ringbuffer_refines_queue_witness:
  "\<exists>rb'. rb_run (rt_ringbuffer_init (replicate 8 0) 8)
      [Put [1, 2, 3], GetChar, PutForce [4, 5, 6, 7, 8, 9, 10], PutChar 11, Get 5] =
      Some ([(3, []), (1, [1]), (7, []), (0, []), (5, [3, 4, 5, 6, 7])], rb') \<and>
    rb_contents rb' = [8, 9, 10]"
  using ringbuffer_refines_queue [of 8 "replicate 8 0"
      "[Put [1, 2, 3], GetChar, PutForce [4, 5, 6, 7, 8, 9, 10], PutChar 11, Get 5]"]
  by auto

text \<open>
  No loss, no reordering. Whatever is in the buffer, bytes offered one at a time are
  appended in order until it is full; those that do not fit are refused and nothing already
  stored is disturbed.
\<close>

theorem ringbuffer_putchar_stream:
  assumes "rb_wf rb"
  shows "\<exists>rb'. push_each rt_ringbuffer_putchar rb cs = Some rb' \<and> rb_wf rb' \<and>
    buffer_size rb' = buffer_size rb \<and>
    rb_contents rb' = take (buffer_size rb) (rb_contents rb @ cs)"
  by (rule rb.push_each_law [OF assms])

theorem ringbuffer_putchar_stream_witness:
  "\<exists>rb'. push_each rt_ringbuffer_putchar (rt_ringbuffer_init (replicate 8 0) 8)
      [1, 2, 3, 4, 5, 6, 7, 8, 9] = Some rb' \<and> rb_contents rb' = [1, 2, 3, 4, 5, 6, 7, 8]"
  using ringbuffer_putchar_stream [OF init_wf, of 8 "replicate 8 0" "[1, 2, 3, 4, 5, 6, 7, 8, 9]"]
  by auto

text \<open>
  The forced write keeps the newest bytes: it never fails, drops the oldest bytes of the old
  contents that no longer fit, and of its own argument keeps the last \<open>buffer_size\<close> bytes.
\<close>

theorem ringbuffer_put_force_newest:
  assumes "rb_wf rb" and "len \<le> length src"
  shows "\<exists>rb' n. rt_ringbuffer_put_force rb src len = Some (n, rb') \<and> n = min len (buffer_size rb) \<and>
    rb_wf rb' \<and> rb_contents rb' = drop (rt_ringbuffer_data_len rb + n - buffer_size rb)
      (rb_contents rb @ take n (drop (len - n) src))"
  using put_force_spec [OF assms refl] by blast

theorem ringbuffer_put_force_newest_witness:
  "\<exists>rb' n. rt_ringbuffer_put_force (rt_ringbuffer_init (replicate 8 0) 8)
      [1, 2, 3, 4, 5, 6, 7, 8, 9, 10] 10 = Some (n, rb') \<and> n = 8 \<and>
      rb_contents rb' = [3, 4, 5, 6, 7, 8, 9, 10]"
  using ringbuffer_put_force_newest [OF init_wf, of 8 "replicate 8 0" 10
      "[1, 2, 3, 4, 5, 6, 7, 8, 9, 10]"]
  by auto

end
