(* ===== verification/Datalink.thy ===== *)
theory Datalink
  imports Prelude
begin

text \<open>
  The serial framing of the receiver (\<open>Receiver/applications/datalink.c\<close>): a frame is a
  magic byte, an 8-bit sum, the signal strength, the payload length and the payload, whose first
  byte is the type. The parser is a byte-driven state machine over static variables, which are the
  record \<open>parse_state_t\<close>; the packet it fills is the caller's \<open>DataLinkUARTPacket_t\<close>.
  A write past the 31 data bytes of the packet is \<open>None\<close>.
\<close>

section \<open>Packets and the checksum\<close>

definition DATALINK_MAGIC :: u8 where "DATALINK_MAGIC = 0xaa"
definition DATALINK_MAX_PAYLOAD_SIZE :: nat where "DATALINK_MAX_PAYLOAD_SIZE = 32"

definition DATA_TYPE_HEARTBEAT :: u8 where "DATA_TYPE_HEARTBEAT = 0x00"
definition DATA_TYPE_BIND :: u8 where "DATA_TYPE_BIND = 0x01"
definition DATA_TYPE_RC :: u8 where "DATA_TYPE_RC = 0x02"
definition DATA_TYPE_ANOLINK :: u8 where "DATA_TYPE_ANOLINK = 0x03"
definition DATA_TYPE_MAVLINK :: u8 where "DATA_TYPE_MAVLINK = 0x04"
definition DATA_TYPE_DAPLINK :: u8 where "DATA_TYPE_DAPLINK = 0x05"
definition DATA_TYPE_UNDEFINE :: u8 where "DATA_TYPE_UNDEFINE = 0xff"

record payload_t =
  pl_type :: u8
  pl_data :: "u8 list" \<comment> \<open>31 bytes\<close>

record DataLinkUARTPacket_t =
  pk_magic :: u8
  pk_checksum :: u8
  pk_rssi :: u8
  pk_len :: u8
  pk_payload :: payload_t

record parse_state_t =
  ps_state :: u8
  ps_checksum :: u8
  ps_index :: u8
  ps_error_count :: u32

definition STAT_SYNC :: u8 where "STAT_SYNC = 0x00"
definition STAT_CHECKSUM :: u8 where "STAT_CHECKSUM = 0x01"
definition STAT_RSSI :: u8 where "STAT_RSSI = 0x02"
definition STAT_LEN :: u8 where "STAT_LEN = 0x03"
definition STAT_TYPE :: u8 where "STAT_TYPE = 0x04"
definition STAT_DATA :: u8 where "STAT_DATA = 0x05"

lemmas stat_defs = STAT_SYNC_def STAT_CHECKSUM_def STAT_RSSI_def STAT_LEN_def STAT_TYPE_def
  STAT_DATA_def

definition parser_init :: parse_state_t where
  "parser_init = \<lparr>ps_state = 0, ps_checksum = 0, ps_index = 0, ps_error_count = 0\<rparr>"

fun datalink_checksum :: "u8 list \<Rightarrow> nat \<Rightarrow> u8 option" where
  "datalink_checksum xs 0 = Some 0"
| "datalink_checksum [] (Suc n) = None"
| "datalink_checksum (x # xs) (Suc n) = map_option (\<lambda>c. x + c) (datalink_checksum xs n)"

lemma datalink_checksum_sum:
  "n \<le> length xs \<Longrightarrow> datalink_checksum xs n = Some (sum_list (take n xs))"
  by (induction xs n rule: datalink_checksum.induct) auto

section \<open>The parser\<close>

text \<open>One received byte: the return value, the parser state and the packet.\<close>

definition datalink_parse_char ::
    "parse_state_t \<Rightarrow> DataLinkUARTPacket_t \<Rightarrow> u8 \<Rightarrow>
     (u8 \<times> parse_state_t \<times> DataLinkUARTPacket_t) option" where
  "datalink_parse_char p pkg ch =
     (if ps_state p = STAT_SYNC then
        (if ch = DATALINK_MAGIC
         then Some (0, p\<lparr>ps_state := STAT_CHECKSUM, ps_index := 0, ps_checksum := 0\<rparr>,
                    pkg\<lparr>pk_magic := ch\<rparr>)
         else Some (0, p, pkg))
      else if ps_state p = STAT_CHECKSUM then
        Some (0, p\<lparr>ps_state := STAT_RSSI\<rparr>, pkg\<lparr>pk_checksum := ch\<rparr>)
      else if ps_state p = STAT_RSSI then
        Some (0, p\<lparr>ps_state := STAT_LEN\<rparr>, pkg\<lparr>pk_rssi := ch\<rparr>)
      else if ps_state p = STAT_LEN then
        Some (0, p\<lparr>ps_state := STAT_TYPE\<rparr>, pkg\<lparr>pk_len := ch\<rparr>)
      else if ps_state p = STAT_TYPE then
        Some (0, p\<lparr>ps_checksum := ps_checksum p + ch, ps_state := STAT_DATA\<rparr>,
              pkg\<lparr>pk_payload := (pk_payload pkg)\<lparr>pl_type := ch\<rparr>\<rparr>)
      else if ps_state p = STAT_DATA then do {
        d \<leftarrow> arr_set (pl_data (pk_payload pkg)) (unat (ps_index p)) ch;
        let p1 = p\<lparr>ps_index := ps_index p + 1, ps_checksum := ps_checksum p + ch\<rparr>;
        let pkg1 = pkg\<lparr>pk_payload := (pk_payload pkg)\<lparr>pl_data := d\<rparr>\<rparr>;
        if unat (ps_index p1) + 1 \<ge> unat (pk_len pkg1)
        then (if ps_checksum p1 \<noteq> pk_checksum pkg1
              then Some (0, p1\<lparr>ps_state := STAT_SYNC, ps_error_count := ps_error_count p1 + 1\<rparr>, pkg1)
              else Some (1, p1\<lparr>ps_state := STAT_SYNC, ps_checksum := 0\<rparr>, pkg1))
        else Some (0, p1, pkg1)
      }
      else Some (0, p\<lparr>ps_state := STAT_SYNC\<rparr>, pkg))"

text \<open>
  The callers feed bytes until a packet is complete (see \<open>RF_ProcessEvent\<close> in the radio
  theory); the result also holds the bytes not yet consumed.
\<close>

fun datalink_feed ::
    "parse_state_t \<Rightarrow> DataLinkUARTPacket_t \<Rightarrow> u8 list \<Rightarrow>
     (bool \<times> parse_state_t \<times> DataLinkUARTPacket_t \<times> u8 list) option" where
  "datalink_feed p pkg [] = Some (False, p, pkg, [])"
| "datalink_feed p pkg (c # cs) =
     (case datalink_parse_char p pkg c of
        None \<Rightarrow> None
      | Some (r, p', pkg') \<Rightarrow>
          if r \<noteq> 0 then Some (True, p', pkg', cs) else datalink_feed p' pkg' cs)"

section \<open>Frames\<close>

text \<open>The wire format: \<open>body\<close> is the type byte followed by the data bytes.\<close>

definition datalink_frame :: "u8 \<Rightarrow> u8 list \<Rightarrow> u8 list" where
  "datalink_frame rs body =
     [DATALINK_MAGIC, sum_list body, rs, of_nat (length body)] @ body"

definition pkt_wf :: "DataLinkUARTPacket_t \<Rightarrow> bool" where
  "pkt_wf pkg \<longleftrightarrow> length (pl_data (pk_payload pkg)) = DATALINK_MAX_PAYLOAD_SIZE - 1"

lemma unat_Suc_index:
  "unat (i :: u8) < 255 \<Longrightarrow> unat (i + 1) = Suc (unat i)"
  by (simp add: unat_word_ariths)

lemma pkt_set_data_twice [simp]:
  "pk_payload_update (pl_data_update f) (pk_payload_update (pl_data_update g) pkg) =
   pk_payload_update (pl_data_update (f \<circ> g)) pkg"
  by (cases pkg; cases "pk_payload pkg") (simp add: comp_def)

text \<open>The data bytes of a frame, from any position on.\<close>

lemma feed_data:
  assumes "ps_state p = STAT_DATA" and "pkt_wf pkg" and "ds \<noteq> []"
    and "unat (ps_index p) + length ds \<le> 31"
    and "unat (pk_len pkg) = unat (ps_index p) + length ds + 1"
    and "pk_checksum pkg = ps_checksum p + sum_list ds"
  shows "datalink_feed p pkg (ds @ rest) =
    Some (True, p\<lparr>ps_state := STAT_SYNC, ps_checksum := 0, ps_index := ps_index p + of_nat (length ds)\<rparr>,
      pkg\<lparr>pk_payload := (pk_payload pkg)\<lparr>pl_data :=
        take (unat (ps_index p)) (pl_data (pk_payload pkg)) @ ds @
        drop (unat (ps_index p) + length ds) (pl_data (pk_payload pkg))\<rparr>\<rparr>, rest)"
  using assms
proof (induction ds arbitrary: p pkg)
  case Nil
  then show ?case by simp
next
  case (Cons d ds)
  let ?i = "unat (ps_index p)" and ?D = "pl_data (pk_payload pkg)"
  define p1 where "p1 = p\<lparr>ps_index := ps_index p + 1, ps_checksum := ps_checksum p + d\<rparr>"
  define pkg1 where "pkg1 = pkg\<lparr>pk_payload := (pk_payload pkg)\<lparr>pl_data := ?D[?i := d]\<rparr>\<rparr>"
  have len: "length ?D = 31"
    using Cons.prems(2) by (simp add: pkt_wf_def DATALINK_MAX_PAYLOAD_SIZE_def)
  have i: "?i < 31" using Cons.prems(4) by simp
  have i1: "unat (ps_index p1) = Suc ?i" using i by (simp add: p1_def unat_Suc_index)
  have upd: "take (Suc ?i) (?D[?i := d]) = take ?i ?D @ [d]"
    using i len by (simp add: take_Suc_conv_app_nth)
  have step: "datalink_parse_char p pkg d =
    (if ds = [] then Some (1, p1\<lparr>ps_state := STAT_SYNC, ps_checksum := 0\<rparr>, pkg1)
     else Some (0, p1, pkg1))"
    using Cons.prems i i1 len
    by (auto simp: datalink_parse_char_def stat_defs p1_def pkg1_def Let_def)
  show ?case
  proof (cases "ds = []")
    case True
    have "drop (Suc ?i) (?D[?i := d]) = drop (Suc ?i) ?D" by simp
    then have "?D[?i := d] = take ?i ?D @ d # drop (Suc ?i) ?D"
      using i len by (simp add: upd_conv_take_nth_drop)
    with True step show ?thesis
      by (simp add: p1_def pkg1_def)
  next
    case False
    have "datalink_feed p1 pkg1 (ds @ rest) =
      Some (True, p1\<lparr>ps_state := STAT_SYNC, ps_checksum := 0, ps_index := ps_index p1 + of_nat (length ds)\<rparr>,
        pkg1\<lparr>pk_payload := (pk_payload pkg1)\<lparr>pl_data :=
          take (unat (ps_index p1)) (pl_data (pk_payload pkg1)) @ ds @
          drop (unat (ps_index p1) + length ds) (pl_data (pk_payload pkg1))\<rparr>\<rparr>, rest)"
      using False Cons.prems i1 len
      by (intro Cons.IH) (auto simp: p1_def pkg1_def pkt_wf_def add.assoc)
    with False step i1 upd show ?thesis
      by (simp add: p1_def pkg1_def add.assoc add.commute add.left_commute)
  qed
qed

text \<open>The same with a wrong sum: the frame is dropped and counted.\<close>

lemma feed_data_bad:
  assumes "ps_state p = STAT_DATA" and "pkt_wf pkg" and "ds \<noteq> []"
    and "unat (ps_index p) + length ds \<le> 31"
    and "unat (pk_len pkg) = unat (ps_index p) + length ds + 1"
    and "pk_checksum pkg \<noteq> ps_checksum p + sum_list ds"
  shows "\<exists>p' pkg'. datalink_feed p pkg ds = Some (False, p', pkg', []) \<and>
    ps_state p' = STAT_SYNC \<and> ps_error_count p' = ps_error_count p + 1 \<and> pkt_wf pkg'"
  using assms
proof (induction ds arbitrary: p pkg)
  case Nil
  then show ?case by simp
next
  case (Cons d ds)
  let ?i = "unat (ps_index p)"
  define p1 where "p1 = p\<lparr>ps_index := ps_index p + 1, ps_checksum := ps_checksum p + d\<rparr>"
  define pkg1 where "pkg1 = pkg\<lparr>pk_payload := (pk_payload pkg)\<lparr>pl_data :=
    (pl_data (pk_payload pkg))[?i := d]\<rparr>\<rparr>"
  have len: "length (pl_data (pk_payload pkg)) = 31"
    using Cons.prems(2) by (simp add: pkt_wf_def DATALINK_MAX_PAYLOAD_SIZE_def)
  have i: "?i < 31" using Cons.prems(4) by simp
  have i1: "unat (ps_index p1) = Suc ?i" using i by (simp add: p1_def unat_Suc_index)
  have step: "datalink_parse_char p pkg d =
    (if ds = [] then Some (0, p1\<lparr>ps_state := STAT_SYNC, ps_error_count := ps_error_count p + 1\<rparr>, pkg1)
     else Some (0, p1, pkg1))"
    using Cons.prems i i1 len
    by (auto simp: datalink_parse_char_def stat_defs p1_def pkg1_def Let_def)
  show ?case
  proof (cases "ds = []")
    case True
    with step show ?thesis using Cons.prems(2) by (simp add: p1_def pkg1_def pkt_wf_def)
  next
    case False
    have "\<exists>p' pkg'. datalink_feed p1 pkg1 ds = Some (False, p', pkg', []) \<and>
      ps_state p' = STAT_SYNC \<and> ps_error_count p' = ps_error_count p1 + 1 \<and> pkt_wf pkg'"
      using False Cons.prems i1
      by (intro Cons.IH) (auto simp: p1_def pkg1_def pkt_wf_def add.assoc)
    with False step show ?thesis by (simp add: p1_def)
  qed
qed

text \<open>The five header bytes, from the synchronising state.\<close>

lemma feed_header:
  assumes "ps_state p = STAT_SYNC"
  shows "datalink_feed p pkg (DATALINK_MAGIC # ck # rs # n # ty # cs) =
    datalink_feed (p\<lparr>ps_index := 0, ps_checksum := ty, ps_state := STAT_DATA\<rparr>)
      (pkg\<lparr>pk_magic := DATALINK_MAGIC, pk_checksum := ck, pk_rssi := rs, pk_len := n,
        pk_payload := (pk_payload pkg)\<lparr>pl_type := ty\<rparr>\<rparr>) cs"
  using assms by (simp add: datalink_parse_char_def stat_defs)

lemma feed_noise:
  "ps_state p = STAT_SYNC \<Longrightarrow> DATALINK_MAGIC \<notin> set noise \<Longrightarrow>
   datalink_feed p pkg (noise @ cs) = datalink_feed p pkg cs"
  by (induction noise) (auto simp: datalink_parse_char_def)

lemma small_len: "n \<le> 32 \<Longrightarrow> unat (of_nat n :: u8) = n"
  by (simp add: unat_of_nat)

lemma frame_recovered:
  assumes sync: "ps_state p = STAT_SYNC" and wf: "pkt_wf pkg"
    and noise: "DATALINK_MAGIC \<notin> set noise"
    and len: "2 \<le> length body" "length body \<le> DATALINK_MAX_PAYLOAD_SIZE"
  shows "\<exists>p' pkg'. datalink_feed p pkg (noise @ datalink_frame rs body @ rest) =
      Some (True, p', pkg', rest) \<and>
    ps_state p' = STAT_SYNC \<and> ps_error_count p' = ps_error_count p \<and> pkt_wf pkg' \<and>
    pk_rssi pkg' = rs \<and> unat (pk_len pkg') = length body \<and>
    pl_type (pk_payload pkg') # take (length body - 1) (pl_data (pk_payload pkg')) = body"
proof -
  obtain ty ds where body: "body = ty # ds" using len(1) by (cases body) auto
  have ds: "ds \<noteq> []" using len(1) body by auto
  have l: "length ds \<le> 31" using len(2) body by (simp add: DATALINK_MAX_PAYLOAD_SIZE_def)
  let ?p = "p\<lparr>ps_index := 0, ps_checksum := ty, ps_state := STAT_DATA\<rparr>"
  let ?pkg = "pkg\<lparr>pk_magic := DATALINK_MAGIC, pk_checksum := ty + sum_list ds, pk_rssi := rs,
    pk_len := of_nat (length ds + 1), pk_payload := (pk_payload pkg)\<lparr>pl_type := ty\<rparr>\<rparr>"
  have ln: "unat (pk_len ?pkg) = length ds + 1" using l by (simp add: small_len del: of_nat_Suc of_nat_add)
  have "datalink_feed p pkg (noise @ datalink_frame rs body @ rest) =
      datalink_feed ?p ?pkg (ds @ rest)"
    using feed_header [OF sync] feed_noise [OF sync noise]
    by (simp add: datalink_frame_def body add.commute)
  also have "\<dots> = Some (True, ?p\<lparr>ps_state := STAT_SYNC, ps_checksum := 0,
        ps_index := ps_index ?p + of_nat (length ds)\<rparr>,
      ?pkg\<lparr>pk_payload := (pk_payload ?pkg)\<lparr>pl_data :=
        take (unat (ps_index ?p)) (pl_data (pk_payload ?pkg)) @ ds @
        drop (unat (ps_index ?p) + length ds) (pl_data (pk_payload ?pkg))\<rparr>\<rparr>, rest)"
    by (rule feed_data) (use wf ds l ln in \<open>simp_all add: pkt_wf_def\<close>)
  finally show ?thesis
    using wf l ln by (simp add: body pkt_wf_def DATALINK_MAX_PAYLOAD_SIZE_def)
qed

text \<open>
  C2: Round trip: whatever bytes without a magic byte come first, the frame of a payload of 2 to 32
  bytes is recovered, and the bytes after it are left for the next call.
\<close>

theorem frame_roundtrip:
  assumes sync: "ps_state p = STAT_SYNC" and wf: "pkt_wf pkg"
    and noise: "DATALINK_MAGIC \<notin> set noise"
    and len: "2 \<le> length body" "length body \<le> DATALINK_MAX_PAYLOAD_SIZE"
  shows "\<exists>p' pkg'. datalink_feed p pkg (noise @ datalink_frame rs body @ rest) =
      Some (True, p', pkg', rest) \<and>
    ps_state p' = STAT_SYNC \<and> ps_error_count p' = ps_error_count p \<and> pkt_wf pkg' \<and>
    pk_rssi pkg' = rs \<and> unat (pk_len pkg') = length body \<and>
    pl_type (pk_payload pkg') # take (length body - 1) (pl_data (pk_payload pkg')) = body"
  by (rule frame_recovered [OF assms])

definition sample_pkt :: DataLinkUARTPacket_t where
  "sample_pkt = \<lparr>pk_magic = 0, pk_checksum = 0, pk_rssi = 0, pk_len = 0,
     pk_payload = \<lparr>pl_type = 0, pl_data = replicate 31 0\<rparr>\<rparr>"

lemma sample_pkt_wf: "pkt_wf sample_pkt" "ps_state parser_init = STAT_SYNC"
  by (simp_all add: sample_pkt_def pkt_wf_def DATALINK_MAX_PAYLOAD_SIZE_def parser_init_def
      STAT_SYNC_def)

theorem frame_roundtrip_witness:
  "\<exists>p' pkg'. datalink_feed parser_init sample_pkt ([1, 2] @ datalink_frame 60 [2, 7, 8] @ [9]) =
      Some (True, p', pkg', [9]) \<and> pk_rssi pkg' = 60 \<and>
    pl_type (pk_payload pkg') # take 2 (pl_data (pk_payload pkg')) = [2, 7, 8]"
proof -
  have "DATALINK_MAGIC \<notin> set [1, 2]" by (simp add: DATALINK_MAGIC_def)
  from frame_roundtrip [OF sample_pkt_wf(2,1) this, of "[2, 7, 8]" 60 "[9]"]
  show ?thesis by (auto simp: DATALINK_MAX_PAYLOAD_SIZE_def numeral_2_eq_2)
qed

text \<open>
  C24: Error detection: a complete frame whose sum field is not the sum of its payload is dropped:
  no packet is reported, the error counter goes up by one and the parser is synchronising again.
\<close>

theorem corrupt_frame_rejected:
  assumes sync: "ps_state p = STAT_SYNC" and wf: "pkt_wf pkg"
    and len: "2 \<le> length body" "length body \<le> DATALINK_MAX_PAYLOAD_SIZE"
    and bad: "ck \<noteq> sum_list body"
  shows "\<exists>p' pkg'. datalink_feed p pkg
      ([DATALINK_MAGIC, ck, rs, of_nat (length body)] @ body) = Some (False, p', pkg', []) \<and>
    ps_state p' = STAT_SYNC \<and> ps_error_count p' = ps_error_count p + 1 \<and> pkt_wf pkg'"
proof -
  obtain ty ds where body: "body = ty # ds" using len(1) by (cases body) auto
  have ds: "ds \<noteq> []" using len(1) body by auto
  have l: "length ds \<le> 31" using len(2) body by (simp add: DATALINK_MAX_PAYLOAD_SIZE_def)
  let ?p = "p\<lparr>ps_index := 0, ps_checksum := ty, ps_state := STAT_DATA\<rparr>"
  let ?pkg = "pkg\<lparr>pk_magic := DATALINK_MAGIC, pk_checksum := ck, pk_rssi := rs,
    pk_len := of_nat (length ds + 1), pk_payload := (pk_payload pkg)\<lparr>pl_type := ty\<rparr>\<rparr>"
  have ln: "unat (pk_len ?pkg) = length ds + 1" using l by (simp add: small_len del: of_nat_Suc of_nat_add)
  have "\<exists>p' pkg'. datalink_feed ?p ?pkg ds = Some (False, p', pkg', []) \<and>
    ps_state p' = STAT_SYNC \<and> ps_error_count p' = ps_error_count ?p + 1 \<and> pkt_wf pkg'"
    by (rule feed_data_bad) (use wf ds l ln bad in \<open>simp_all add: pkt_wf_def body\<close>)
  then show ?thesis
    using feed_header [OF sync] by (simp add: body add.commute)
qed

theorem corrupt_frame_rejected_witness:
  "\<exists>p' pkg'. datalink_feed parser_init sample_pkt
      ([DATALINK_MAGIC, 16, 60, of_nat (length [2, 7, 8 :: u8])] @ [2, 7, 8]) = Some (False, p', pkg', []) \<and>
    ps_state p' = STAT_SYNC \<and> ps_error_count p' = 1"
  using corrupt_frame_rejected [OF sample_pkt_wf(2,1), of "[2, 7, 8]" 16 60]
  by (auto simp: DATALINK_MAX_PAYLOAD_SIZE_def parser_init_def)

section \<open>Memory safety and its limit\<close>

definition parser_inv :: "parse_state_t \<Rightarrow> DataLinkUARTPacket_t \<Rightarrow> bool" where
  "parser_inv p pkg \<longleftrightarrow> pkt_wf pkg \<and>
     (ps_state p \<in> {STAT_CHECKSUM, STAT_RSSI, STAT_LEN, STAT_TYPE} \<longrightarrow> ps_index p = 0) \<and>
     (ps_state p \<in> {STAT_TYPE, STAT_DATA} \<longrightarrow> unat (pk_len pkg) \<le> DATALINK_MAX_PAYLOAD_SIZE) \<and>
     (ps_state p = STAT_DATA \<longrightarrow> ps_index p = 0 \<or> unat (ps_index p) + 1 < unat (pk_len pkg))"

lemma parser_inv_init: "pkt_wf pkg \<Longrightarrow> ps_state p = STAT_SYNC \<Longrightarrow> parser_inv p pkg"
  by (simp add: parser_inv_def stat_defs)

lemma parse_char_inv:
  assumes inv: "parser_inv p pkg" and len: "ps_state p = STAT_LEN \<Longrightarrow> unat ch \<le> DATALINK_MAX_PAYLOAD_SIZE"
  shows "\<exists>r p' pkg'. datalink_parse_char p pkg ch = Some (r, p', pkg') \<and> parser_inv p' pkg'"
proof (cases "ps_state p = STAT_DATA")
  case False
  then show ?thesis
    using inv len by (auto simp: datalink_parse_char_def parser_inv_def pkt_wf_def stat_defs)
next
  case True
  have l: "unat (pk_len pkg) \<le> 32" and d: "length (pl_data (pk_payload pkg)) = 31"
    using inv True by (simp_all add: parser_inv_def pkt_wf_def DATALINK_MAX_PAYLOAD_SIZE_def)
  have i: "unat (ps_index p) < 31"
    using inv True l by (auto simp: parser_inv_def)
  then have i1: "unat (ps_index p + 1) = Suc (unat (ps_index p))"
    by (simp add: unat_Suc_index)
  show ?thesis
    using True i d i1 l
    by (auto simp: datalink_parse_char_def parser_inv_def pkt_wf_def stat_defs Let_def
        DATALINK_MAX_PAYLOAD_SIZE_def)
qed

text \<open>Every byte that the parser takes as a length is at most 32.\<close>

fun len_bytes_ok :: "parse_state_t \<Rightarrow> DataLinkUARTPacket_t \<Rightarrow> u8 list \<Rightarrow> bool" where
  "len_bytes_ok p pkg [] = True"
| "len_bytes_ok p pkg (c # cs) =
     ((ps_state p = STAT_LEN \<longrightarrow> unat c \<le> DATALINK_MAX_PAYLOAD_SIZE) \<and>
      (case datalink_parse_char p pkg c of None \<Rightarrow> True
       | Some (r, p', pkg') \<Rightarrow> len_bytes_ok p' pkg' cs))"

text \<open>
  C33: Memory safety under that bound: from any state the parser can be in, any byte stream whose
  length bytes are at most 32 is consumed without a write outside the packet.
\<close>

theorem parser_memory_safe:
  assumes "parser_inv p pkg" and "len_bytes_ok p pkg cs"
  shows "\<exists>r p' pkg' rest. datalink_feed p pkg cs = Some (r, p', pkg', rest) \<and> parser_inv p' pkg'"
  using assms
proof (induction cs arbitrary: p pkg)
  case Nil
  then show ?case by auto
next
  case (Cons c cs)
  have "ps_state p = STAT_LEN \<Longrightarrow> unat c \<le> DATALINK_MAX_PAYLOAD_SIZE"
    using Cons.prems(2) by simp
  then obtain r p' pkg' where st: "datalink_parse_char p pkg c = Some (r, p', pkg')"
    and inv: "parser_inv p' pkg'"
    using parse_char_inv [OF Cons.prems(1)] by blast
  then show ?case using Cons.IH [OF inv] Cons.prems(2) by auto
qed

theorem parser_memory_safe_witness:
  "\<exists>r p' pkg' rest. datalink_feed parser_init sample_pkt
      [170, 1, 2, 32, 4, 5, 6, 7] = Some (r, p', pkg', rest) \<and> parser_inv p' pkg'"
  by (rule parser_memory_safe [OF parser_inv_init [OF sample_pkt_wf]])
     (simp add: datalink_parse_char_def parser_init_def stat_defs DATALINK_MAGIC_def
       sample_pkt_def DATALINK_MAX_PAYLOAD_SIZE_def)

text \<open>Without that bound the packet is overrun: nothing in the code checks the length byte.\<close>

lemma feed_overrun:
  assumes "ps_state p = STAT_DATA" and "pkt_wf pkg" and "32 < unat (pk_len pkg)"
    and "unat (ps_index p) \<le> 31" and "31 < unat (ps_index p) + length ds"
  shows "datalink_feed p pkg ds = None"
  using assms
proof (induction ds arbitrary: p pkg)
  case Nil
  then show ?case by simp
next
  case (Cons d ds)
  have len: "length (pl_data (pk_payload pkg)) = 31"
    using Cons.prems(2) by (simp add: pkt_wf_def DATALINK_MAX_PAYLOAD_SIZE_def)
  show ?case
  proof (cases "unat (ps_index p) = 31")
    case True
    then show ?thesis
      using Cons.prems(1) len by (simp add: datalink_parse_char_def stat_defs)
  next
    case False
    then have i: "unat (ps_index p) < 31" using Cons.prems(4) by simp
    define p1 where "p1 = p\<lparr>ps_index := ps_index p + 1, ps_checksum := ps_checksum p + d\<rparr>"
    define pkg1 where "pkg1 = pkg\<lparr>pk_payload := (pk_payload pkg)\<lparr>pl_data :=
      (pl_data (pk_payload pkg))[unat (ps_index p) := d]\<rparr>\<rparr>"
    have i1: "unat (ps_index p1) = Suc (unat (ps_index p))" using i by (simp add: p1_def unat_Suc_index)
    have "datalink_parse_char p pkg d = Some (0, p1, pkg1)"
      using Cons.prems i i1 len
      by (auto simp: datalink_parse_char_def stat_defs p1_def pkg1_def Let_def)
    moreover have "datalink_feed p1 pkg1 ds = None"
      using Cons.prems i1 i by (intro Cons.IH) (auto simp: p1_def pkg1_def pkt_wf_def)
    ultimately show ?thesis by simp
  qed
qed

text \<open>
  The bound is necessary and not checked: a frame that announces more than 32 bytes makes the
  parser write past the packet as soon as 32 of its data bytes have come.
\<close>

theorem long_frame_overruns_packet:
  assumes "ps_state p = STAT_SYNC" and "pkt_wf pkg" and "32 < unat n" and "32 \<le> length ds"
  shows "datalink_feed p pkg ([DATALINK_MAGIC, ck, rs, n, ty] @ ds) = None"
proof -
  have "datalink_feed (p\<lparr>ps_index := 0, ps_checksum := ty, ps_state := STAT_DATA\<rparr>)
      (pkg\<lparr>pk_magic := DATALINK_MAGIC, pk_checksum := ck, pk_rssi := rs, pk_len := n,
        pk_payload := (pk_payload pkg)\<lparr>pl_type := ty\<rparr>\<rparr>) ds = None"
    using assms by (intro feed_overrun) (simp_all add: pkt_wf_def)
  then show ?thesis using feed_header [OF assms(1)] by simp
qed

theorem long_frame_overruns_packet_witness:
  "datalink_feed parser_init sample_pkt ([DATALINK_MAGIC, 0, 0, 200, 2] @ replicate 40 1) = None"
  by (rule long_frame_overruns_packet [OF sample_pkt_wf(2,1)]) simp_all

text \<open>
  A payload of one byte, the type alone, is a frame the parser cannot end: it waits for one data
  byte more, so it takes the magic byte of the next frame for it.
\<close>

theorem one_byte_frame_loses_sync:
  assumes "ps_state p = STAT_SYNC" and "pkt_wf pkg"
  shows "\<exists>p' pkg'. datalink_feed p pkg (datalink_frame rs [ty]) = Some (False, p', pkg', []) \<and>
    ps_state p' = STAT_DATA \<and>
    (\<exists>p'' pkg''. datalink_parse_char p' pkg' DATALINK_MAGIC = Some (0, p'', pkg'') \<and>
       ps_state p'' = STAT_SYNC \<and> ps_error_count p'' = ps_error_count p + 1)"
  using assms feed_header [OF assms(1), of pkg ty rs 1 ty "[]"]
  by (simp add: datalink_frame_def datalink_parse_char_def stat_defs pkt_wf_def
      DATALINK_MAX_PAYLOAD_SIZE_def DATALINK_MAGIC_def)

theorem one_byte_frame_loses_sync_witness:
  "\<exists>p' pkg'. datalink_feed parser_init sample_pkt (datalink_frame 60 [0]) = Some (False, p', pkg', []) \<and>
    ps_state p' = STAT_DATA \<and>
    (\<exists>p'' pkg''. datalink_parse_char p' pkg' DATALINK_MAGIC = Some (0, p'', pkg'') \<and>
       ps_state p'' = STAT_SYNC \<and> ps_error_count p'' = ps_error_count parser_init + 1)"
  by (rule one_byte_frame_loses_sync [OF sample_pkt_wf(2,1)])

end
