(* ===== verification/Button.thy ===== *)
theory Button
  imports Prelude
begin

text \<open>
  The push-button driver (\<open>Firmware/applications/button.c\<close>): debouncing, the click and
  long-press state machine, and the linked list of started buttons. Bit fields keep their width.
  A callback is a value of the type \<open>'c\<close>; calling it is recorded in a log together with the
  button as it was at the call. The list is a chain of \<open>next\<close> pointers in a heap of buttons.
\<close>

section \<open>Buttons\<close>

definition DEBOUNCE_TICKS :: nat where "DEBOUNCE_TICKS = 2"
definition SHORT_TICKS :: nat where "SHORT_TICKS = 300 div 20"
definition LONG_TICKS :: nat where "LONG_TICKS = 1500 div 20"

lemmas tick_defs = DEBOUNCE_TICKS_def SHORT_TICKS_def LONG_TICKS_def

datatype PressEvent =
  NONE_PRESS | PRESS_DOWN | PRESS_UP | PRESS_REPEAT | SINGLE_CLICK | DOUBLE_CLICK
  | LONG_RRESS_START | LONG_PRESS_HOLD

text \<open>The two enumerators that are also stored as key levels.\<close>

abbreviation KEY_DOWN :: "2 word" where "KEY_DOWN \<equiv> 1"
abbreviation KEY_UP :: "2 word" where "KEY_UP \<equiv> 2"

record 'c button_t =
  ticks :: u16
  repeat :: "4 word"
  event :: PressEvent
  state :: "3 word"
  debounce_cnt :: "3 word"
  key_state :: "2 word"
  key_id :: u8
  cb :: "PressEvent \<Rightarrow> 'c option"
  next_btn :: "nat option"

type_synonym 'c call_log = "('c \<times> 'c button_t) list"

text \<open>
  \<open>memset(btn, sizeof(button_t), 0)\<close> fills zero bytes: its size and value arguments are
  exchanged. So initialisation leaves every field but the three assigned ones as it was.
\<close>

definition button_init :: "'c button_t \<Rightarrow> u8 \<Rightarrow> 'c button_t" where
  "button_init btn i = btn\<lparr>event := NONE_PRESS, key_state := 0, key_id := i\<rparr>"

definition button_attach :: "'c button_t \<Rightarrow> PressEvent \<Rightarrow> 'c \<Rightarrow> 'c button_t" where
  "button_attach btn ev f = btn\<lparr>cb := (cb btn)(ev \<mapsto> f)\<rparr>"

definition get_button_event :: "'c button_t \<Rightarrow> PressEvent" where
  "get_button_event btn = event btn"

section \<open>The handler\<close>

text \<open>\<open>btn->event = ev; EVENT_CB(ev);\<close>\<close>

definition fire :: "PressEvent \<Rightarrow> 'c button_t \<times> 'c call_log \<Rightarrow> 'c button_t \<times> 'c call_log" where
  "fire ev bl = (let btn = (fst bl)\<lparr>event := ev\<rparr> in
     (btn, case cb btn ev of None \<Rightarrow> snd bl | Some f \<Rightarrow> snd bl @ [(f, btn)]))"

definition sample_level :: "'c button_t \<Rightarrow> u8 \<Rightarrow> 2 word" where
  "sample_level btn st = (if st AND key_id btn \<noteq> 0 then KEY_DOWN else KEY_UP)"

text \<open>Tick counter and debouncing (lines 53 to 67).\<close>

definition button_debounce :: "'c button_t \<Rightarrow> u8 \<Rightarrow> 'c button_t" where
  "button_debounce btn0 st =
     (let btn = (if state btn0 > 0 then btn0\<lparr>ticks := ticks btn0 + 1\<rparr> else btn0)
      in if sample_level btn st \<noteq> key_state btn
         then let btn1 = btn\<lparr>debounce_cnt := debounce_cnt btn + 1\<rparr>
              in if unat (debounce_cnt btn1) \<ge> DEBOUNCE_TICKS
                 then btn1\<lparr>key_state := sample_level btn st, debounce_cnt := 0\<rparr> else btn1
         else btn\<lparr>debounce_cnt := 0\<rparr>)"

text \<open>The state machine (lines 70 to 153).\<close>

definition button_fsm :: "'c button_t \<Rightarrow> 'c button_t \<times> 'c call_log" where
  "button_fsm btn =
     (if state btn = 0 then
        (if key_state btn = KEY_DOWN then
           let (b, l) = fire PRESS_DOWN (btn, [])
           in (b\<lparr>ticks := 0, repeat := 1, state := 1\<rparr>, l)
         else (btn\<lparr>event := NONE_PRESS\<rparr>, []))
      else if state btn = 1 then
        (if key_state btn \<noteq> KEY_DOWN then
           let (b, l) = fire PRESS_UP (btn, []) in (b\<lparr>ticks := 0, state := 2\<rparr>, l)
         else if unat (ticks btn) > LONG_TICKS then
           let (b, l) = fire LONG_RRESS_START (btn, []) in (b\<lparr>state := 5\<rparr>, l)
         else (btn, []))
      else if state btn = 2 then
        (if key_state btn = KEY_DOWN then
           let (b, l) = fire PRESS_DOWN (btn, [])
           in (b\<lparr>repeat := repeat b + 1, ticks := 0, state := 3\<rparr>, l)
         else if unat (ticks btn) > SHORT_TICKS then
           let bl1 = (if repeat btn = 1 then fire SINGLE_CLICK (btn, [])
                      else if repeat btn = 2 then fire DOUBLE_CLICK (btn, []) else (btn, []));
               (b, l) = (if repeat (fst bl1) > 1 then fire PRESS_REPEAT bl1 else bl1)
           in (b\<lparr>state := 0\<rparr>, l)
         else (btn, []))
      else if state btn = 3 then
        (if key_state btn \<noteq> KEY_DOWN then
           let (b, l) = fire PRESS_UP (btn, [])
           in if unat (ticks b) < SHORT_TICKS then (b\<lparr>ticks := 0, state := 2\<rparr>, l)
              else let b0 = b\<lparr>state := 0\<rparr>
                   in if repeat b0 > 1
                      then fire PRESS_REPEAT
                             (if repeat b0 = 2 then fire DOUBLE_CLICK (b0, l) else (b0, l))
                      else (b0, l)
         else (btn, []))
      else if state btn = 5 then
        (if key_state btn = KEY_DOWN then fire LONG_PRESS_HOLD (btn, [])
         else let (b, l) = fire PRESS_UP (btn, []) in (b\<lparr>state := 0\<rparr>, l))
      else (btn, []))"

definition button_handler :: "'c button_t \<Rightarrow> u8 \<Rightarrow> 'c button_t \<times> 'c call_log" where
  "button_handler btn st = button_fsm (button_debounce btn st)"

section \<open>The list of started buttons\<close>

record 'c btn_mem =
  heap :: "nat \<Rightarrow> 'c button_t"
  btn_list :: "nat option"

text \<open>\<open>while(target) { if(target == btn) return -1; target = target->next; }\<close>\<close>

partial_function (option) find_btn :: "(nat \<Rightarrow> 'c button_t) \<Rightarrow> nat option \<Rightarrow> nat \<Rightarrow> bool option" where
  "find_btn h t btn =
     (case t of None \<Rightarrow> Some False
      | Some a \<Rightarrow> if a = btn then Some True else find_btn h (next_btn (h a)) btn)"

definition button_start :: "'c btn_mem \<Rightarrow> nat \<Rightarrow> (int \<times> 'c btn_mem) option" where
  "button_start m btn = do {
     found \<leftarrow> find_btn (heap m) (btn_list m) btn;
     if found then Some (- 1, m)
     else Some (0, m\<lparr>heap := (heap m)(btn := (heap m btn)\<lparr>next_btn := btn_list m\<rparr>),
                     btn_list := Some btn\<rparr>)
   }"

text \<open>\<open>pcurr\<close> points to the list head or to the \<open>next\<close> field of a button.\<close>

datatype cell = HeadCell | NextCell nat

definition get_cell :: "'c btn_mem \<Rightarrow> cell \<Rightarrow> nat option" where
  "get_cell m c = (case c of HeadCell \<Rightarrow> btn_list m | NextCell a \<Rightarrow> next_btn (heap m a))"

definition set_cell :: "'c btn_mem \<Rightarrow> cell \<Rightarrow> nat option \<Rightarrow> 'c btn_mem" where
  "set_cell m c v = (case c of HeadCell \<Rightarrow> m\<lparr>btn_list := v\<rparr>
     | NextCell a \<Rightarrow> m\<lparr>heap := (heap m)(a := (heap m a)\<lparr>next_btn := v\<rparr>)\<rparr>)"

partial_function (option) stop_loop :: "'c btn_mem \<Rightarrow> cell \<Rightarrow> nat \<Rightarrow> 'c btn_mem option" where
  "stop_loop m pcurr btn =
     (case get_cell m pcurr of None \<Rightarrow> Some m
      | Some entry \<Rightarrow>
          if entry = btn then stop_loop (set_cell m pcurr (next_btn (heap m entry))) pcurr btn
          else stop_loop m (NextCell entry) btn)"

definition button_stop :: "'c btn_mem \<Rightarrow> nat \<Rightarrow> 'c btn_mem option" where
  "button_stop m btn = stop_loop m HeadCell btn"

partial_function (option) process_loop ::
    "(nat \<Rightarrow> 'c button_t) \<Rightarrow> nat option \<Rightarrow> u8 \<Rightarrow> 'c call_log \<Rightarrow> ((nat \<Rightarrow> 'c button_t) \<times> 'c call_log) option" where
  "process_loop h t st log =
     (case t of None \<Rightarrow> Some (h, log)
      | Some a \<Rightarrow>
          process_loop (h(a := fst (button_handler (h a) st)))
            (next_btn (fst (button_handler (h a) st))) st (log @ snd (button_handler (h a) st)))"

definition button_process :: "'c btn_mem \<Rightarrow> u8 \<Rightarrow> ('c btn_mem \<times> 'c call_log) option" where
  "button_process m st = do {
     (h, l) \<leftarrow> process_loop (heap m) (btn_list m) st [];
     Some (m\<lparr>heap := h\<rparr>, l)
   }"

section \<open>Invariant of one button\<close>

definition btn_inv :: "'c button_t \<Rightarrow> bool" where
  "btn_inv b \<longleftrightarrow> state b \<in> {0, 1, 2, 3, 5} \<and> debounce_cnt b \<in> {0, 1} \<and>
     key_state b \<in> {0, KEY_DOWN, KEY_UP} \<and>
     (state b = 1 \<longrightarrow> unat (ticks b) \<le> LONG_TICKS) \<and>
     (state b = 2 \<longrightarrow> unat (ticks b) \<le> SHORT_TICKS)"

lemma fire_fields [simp]:
  "fst (fire ev bl) = (fst bl)\<lparr>event := ev\<rparr>"
  by (simp add: fire_def Let_def)

lemma debounce_inv:
  assumes "btn_inv b"
  shows "state (button_debounce b st) = state b"
    and "debounce_cnt (button_debounce b st) \<in> {0, 1}"
    and "key_state (button_debounce b st) \<in> {0, KEY_DOWN, KEY_UP}"
  using assms by (auto simp: button_debounce_def btn_inv_def tick_defs Let_def sample_level_def)

lemma fsm_inv:
  assumes "state b \<in> {0, 1, 2, 3, 5}" and "debounce_cnt b \<in> {0, 1}"
    and "key_state b \<in> {0, KEY_DOWN, KEY_UP}"
  shows "btn_inv (fst (button_fsm b))"
proof -
  from assms(1) consider "state b = 0" | "state b = 1" | "state b = 2" | "state b = 3" | "state b = 5"
    by blast
  then show ?thesis
    using assms(2,3) by cases (auto simp: button_fsm_def btn_inv_def Let_def split_beta)
qed

lemma handler_inv: "btn_inv b \<Longrightarrow> btn_inv (fst (button_handler b st))"
  unfolding button_handler_def
  by (rule fsm_inv) (auto simp: debounce_inv btn_inv_def simp del: insert_iff)

interpretation btn: machine "\<lambda>b st. fst (button_handler b st)" btn_inv
  by unfold_locales (rule handler_inv)

lemma sample_level_ticks [simp]: "sample_level (b\<lparr>ticks := t\<rparr>) st = sample_level b st"
  by (simp add: sample_level_def)

section \<open>Gestures\<close>

text \<open>A run over samples, and the events whose callbacks it calls.\<close>

fun button_run :: "'c button_t \<Rightarrow> u8 list \<Rightarrow> 'c button_t \<times> 'c call_log" where
  "button_run b [] = (b, [])"
| "button_run b (st # sts) =
     (let (b1, l1) = button_handler b st; (b2, l2) = button_run b1 sts in (b2, l1 @ l2))"

definition events_of :: "'c call_log \<Rightarrow> PressEvent list" where
  "events_of l = map (event \<circ> snd) l"

definition registered :: "'c button_t \<Rightarrow> PressEvent list \<Rightarrow> PressEvent list" where
  "registered b es = filter (\<lambda>e. cb b e \<noteq> None) es"

text \<open>On the samples \<open>sts\<close> the button goes from \<open>b\<close> to \<open>b'\<close> and raises the events \<open>es\<close>.\<close>

definition does :: "'c button_t \<Rightarrow> u8 list \<Rightarrow> PressEvent list \<Rightarrow> 'c button_t \<Rightarrow> bool" where
  "does b sts es b' \<longleftrightarrow> fst (button_run b sts) = b' \<and>
     events_of (snd (button_run b sts)) = registered b es \<and> cb b' = cb b \<and> key_id b' = key_id b"

lemma does_Nil: "does b [] [] b"
  by (simp add: does_def events_of_def registered_def)

lemma button_run_append:
  "button_run b (xs @ ys) =
     (let (b1, l1) = button_run b xs; (b2, l2) = button_run b1 ys in (b2, l1 @ l2))"
  by (induction xs arbitrary: b) (simp_all add: Let_def split_beta)

lemma does_trans:
  "does b xs es b1 \<Longrightarrow> does b1 ys fs b2 \<Longrightarrow> does b (xs @ ys) (es @ fs) b2"
  by (auto simp: does_def button_run_append Let_def split_beta events_of_def registered_def)

lemma does_one:
  "button_handler b st = (b', l) \<Longrightarrow> events_of l = registered b es \<Longrightarrow> cb b' = cb b \<Longrightarrow>
   key_id b' = key_id b \<Longrightarrow> does b [st] es b'"
  by (simp add: does_def)

lemma events_fire [simp]:
  "events_of (snd (fire ev bl)) = events_of (snd bl) @ registered (fst bl) [ev]"
  by (auto simp: fire_def events_of_def registered_def Let_def split: option.splits)

lemma events_append [simp]: "events_of (l @ l') = events_of l @ events_of l'"
  by (simp add: events_of_def)

lemma registered_fields [simp]:
  "registered (b\<lparr>ticks := t\<rparr>) = registered b" "registered (b\<lparr>repeat := r\<rparr>) = registered b"
  "registered (b\<lparr>event := e\<rparr>) = registered b" "registered (b\<lparr>state := s\<rparr>) = registered b"
  "registered (b\<lparr>debounce_cnt := d\<rparr>) = registered b"
  "registered (b\<lparr>key_state := k\<rparr>) = registered b"
  by (simp_all add: registered_def fun_eq_iff)

lemma registered_append [simp]: "registered b (xs @ ys) = registered b xs @ registered b ys"
  by (simp add: registered_def)

lemma registered_two: "registered b [x, y] = registered b [x] @ registered b [y]"
  by (simp add: registered_def)

lemma events_Nil [simp]: "events_of [] = []" "registered b [] = []"
  by (simp_all add: events_of_def registered_def)

text \<open>The button is in state \<open>s\<close> with a settled key level, \<open>t\<close> ticks and repeat count \<open>r\<close>.\<close>

definition btn_at :: "'c button_t \<Rightarrow> 3 word \<Rightarrow> 2 word \<Rightarrow> nat \<Rightarrow> 4 word \<Rightarrow> bool" where
  "btn_at b s k t r \<longleftrightarrow> state b = s \<and> key_state b = k \<and> debounce_cnt b = 0 \<and>
     unat (ticks b) = t \<and> repeat b = r"

definition pressed :: "'c button_t \<Rightarrow> u8 \<Rightarrow> bool" where
  "pressed b st \<longleftrightarrow> st AND key_id b \<noteq> 0"

lemma unat_tick: "unat (t :: u16) < 65535 \<Longrightarrow> unat (t + 1) = Suc (unat t)"
  by (simp add: unat_word_ariths)

lemmas handler_unfold = button_handler_def button_debounce_def button_fsm_def sample_level_def
  btn_at_def pressed_def tick_defs Let_def split_beta

text \<open>Two equal samples make a new level valid; the first one changes nothing but the counters.\<close>

lemma press_from_idle:
  assumes "btn_at b 0 KEY_UP t r" and "pressed b d"
  shows "\<exists>b'. does b [d, d] [PRESS_DOWN] b' \<and> btn_at b' 1 KEY_DOWN 0 1"
  using assms by (simp add: does_def handler_unfold)

lemma press_again:
  assumes "btn_at b 2 KEY_UP t r" and "pressed b d" and "t < SHORT_TICKS"
  shows "\<exists>b'. does b [d, d] [PRESS_DOWN] b' \<and> btn_at b' 3 KEY_DOWN 0 (r + 1)"
  using assms unat_tick [of "ticks b"]
  by (simp add: does_def handler_unfold registered_two)

lemma release_first:
  assumes "btn_at b 1 KEY_DOWN t r" and "\<not> pressed b u" and "t < LONG_TICKS"
  shows "\<exists>b'. does b [u, u] [PRESS_UP] b' \<and> btn_at b' 2 KEY_UP 0 r"
  using assms unat_tick [of "ticks b"]
  by (simp add: does_def handler_unfold registered_two)

lemma release_again:
  assumes "btn_at b 3 KEY_DOWN t r" and "\<not> pressed b u" and "t + 2 < SHORT_TICKS"
  shows "\<exists>b'. does b [u, u] [PRESS_UP] b' \<and> btn_at b' 2 KEY_UP 0 r"
  using assms unat_tick [of "ticks b"] unat_tick [of "ticks b + 1"]
  by (simp add: does_def handler_unfold registered_two)

text \<open>The events that end a series of clicks, by the repeat count.\<close>

definition click_events :: "4 word \<Rightarrow> PressEvent list" where
  "click_events r = (if r = 1 then [SINGLE_CLICK] else if r = 2 then [DOUBLE_CLICK] else []) @
     (if r > 1 then [PRESS_REPEAT] else [])"

lemma click_timeout:
  assumes "btn_at b 2 KEY_UP SHORT_TICKS r" and "\<not> pressed b u"
  shows "\<exists>b'. does b [u] (click_events r) b' \<and> btn_at b' 0 KEY_UP (SHORT_TICKS + 1) r"
  using assms unat_tick [of "ticks b"]
  by (auto simp add: does_def handler_unfold click_events_def)

lemma long_start:
  assumes "btn_at b 1 KEY_DOWN LONG_TICKS r" and "pressed b d"
  shows "\<exists>b'. does b [d] [LONG_RRESS_START] b' \<and> btn_at b' 5 KEY_DOWN (LONG_TICKS + 1) r"
  using assms unat_tick [of "ticks b"]
  by (simp add: does_def handler_unfold)

lemma release_long:
  assumes "btn_at b 5 KEY_DOWN t r" and "\<not> pressed b u"
  shows "\<exists>b' t'. does b [u, u] [LONG_PRESS_HOLD, PRESS_UP] b' \<and> btn_at b' 0 KEY_UP t' r"
  using assms
  by (simp add: does_def handler_unfold registered_two)

text \<open>Phases of unchanged level: one sample, then any number of them.\<close>

lemma does_replicate:
  assumes "\<And>k b. k < n \<Longrightarrow> P k b \<Longrightarrow> cb b = f \<Longrightarrow> key_id b = i \<Longrightarrow> \<exists>b'. does b [st] es b' \<and> P (Suc k) b'"
    and "P 0 b" and "cb b = f" and "key_id b = i"
  shows "\<exists>b'. does b (replicate n st) (concat (replicate n es)) b' \<and> P n b'"
  using assms
proof (induction n arbitrary: b P)
  case 0
  then show ?case using does_Nil by auto
next
  case (Suc n)
  obtain b1 where b1: "does b [st] es b1" "P (Suc 0) b1"
    using Suc.prems by blast
  then have f: "cb b1 = f" "key_id b1 = i" using Suc.prems(3,4) by (auto simp: does_def)
  have "\<exists>b'. does b1 (replicate n st) (concat (replicate n es)) b' \<and> P (Suc n) b'"
    using Suc.IH [of "\<lambda>k. P (Suc k)" b1] Suc.prems(1) b1(2) f by auto
  then show ?case using does_trans [OF b1(1)] by fastforce
qed

lemma hold_first:
  assumes "btn_at b 1 KEY_DOWN 0 r" and "pressed b d" and "m \<le> LONG_TICKS"
  shows "\<exists>b'. does b (replicate m d) [] b' \<and> btn_at b' 1 KEY_DOWN m r"
proof -
  have "\<exists>b'. does b (replicate m d) (concat (replicate m [])) b' \<and> btn_at b' 1 KEY_DOWN m r"
  proof (rule does_replicate [where P = "\<lambda>k b. btn_at b 1 KEY_DOWN k r"])
    fix k and b' :: "'a button_t"
    assume "k < m" "btn_at b' 1 KEY_DOWN k r" "cb b' = cb b" "key_id b' = key_id b"
    then show "\<exists>b''. does b' [d] [] b'' \<and> btn_at b'' 1 KEY_DOWN (Suc k) r"
      using assms unat_tick [of "ticks b'"] by (simp add: does_def handler_unfold)
  qed (use assms in auto)
  then show ?thesis by simp
qed

lemma hold_again:
  assumes "btn_at b 3 KEY_DOWN 0 r" and "pressed b d" and "m < 65535"
  shows "\<exists>b'. does b (replicate m d) [] b' \<and> btn_at b' 3 KEY_DOWN m r"
proof -
  have "\<exists>b'. does b (replicate m d) (concat (replicate m [])) b' \<and> btn_at b' 3 KEY_DOWN m r"
  proof (rule does_replicate [where P = "\<lambda>k b. btn_at b 3 KEY_DOWN k r"])
    fix k and b' :: "'a button_t"
    assume "k < m" "btn_at b' 3 KEY_DOWN k r" "cb b' = cb b" "key_id b' = key_id b"
    then show "\<exists>b''. does b' [d] [] b'' \<and> btn_at b'' 3 KEY_DOWN (Suc k) r"
      using assms unat_tick [of "ticks b'"] by (simp add: does_def handler_unfold)
  qed (use assms in auto)
  then show ?thesis by simp
qed

lemma wait_released:
  assumes "btn_at b 2 KEY_UP 0 r" and "\<not> pressed b u" and "m \<le> SHORT_TICKS"
  shows "\<exists>b'. does b (replicate m u) [] b' \<and> btn_at b' 2 KEY_UP m r"
proof -
  have "\<exists>b'. does b (replicate m u) (concat (replicate m [])) b' \<and> btn_at b' 2 KEY_UP m r"
  proof (rule does_replicate [where P = "\<lambda>k b. btn_at b 2 KEY_UP k r"])
    fix k and b' :: "'a button_t"
    assume "k < m" "btn_at b' 2 KEY_UP k r" "cb b' = cb b" "key_id b' = key_id b"
    then show "\<exists>b''. does b' [u] [] b'' \<and> btn_at b'' 2 KEY_UP (Suc k) r"
      using assms unat_tick [of "ticks b'"] by (simp add: does_def handler_unfold)
  qed (use assms in auto)
  then show ?thesis by simp
qed

lemma stay_idle:
  assumes "btn_at b 0 KEY_UP t r" and "\<not> pressed b u"
  shows "\<exists>b'. does b (replicate m u) [] b' \<and> btn_at b' 0 KEY_UP t r"
proof -
  have "\<exists>b'. does b (replicate m u) (concat (replicate m [])) b' \<and> btn_at b' 0 KEY_UP t r"
  proof (rule does_replicate [where P = "\<lambda>k b. btn_at b 0 KEY_UP t r"])
    fix k and b' :: "'a button_t"
    assume "btn_at b' 0 KEY_UP t r" "cb b' = cb b" "key_id b' = key_id b"
    then show "\<exists>b''. does b' [u] [] b'' \<and> btn_at b'' 0 KEY_UP t r"
      using assms by (simp add: does_def handler_unfold)
  qed (use assms in auto)
  then show ?thesis by simp
qed

lemma hold_long:
  assumes "btn_at b 5 KEY_DOWN t r" and "pressed b d"
  shows "\<exists>b' t'. does b (replicate m d) (replicate m LONG_PRESS_HOLD) b' \<and> btn_at b' 5 KEY_DOWN t' r"
proof -
  have "\<exists>b'. does b (replicate m d) (concat (replicate m [LONG_PRESS_HOLD])) b' \<and>
    (\<exists>t'. btn_at b' 5 KEY_DOWN t' r)"
  proof (rule does_replicate [where P = "\<lambda>k b. \<exists>t'. btn_at b 5 KEY_DOWN t' r"])
    fix k and b' :: "'a button_t"
    assume "\<exists>t'. btn_at b' 5 KEY_DOWN t' r" "cb b' = cb b" "key_id b' = key_id b"
    then show "\<exists>b''. does b' [d] [LONG_PRESS_HOLD] b'' \<and> (\<exists>t'. btn_at b'' 5 KEY_DOWN t' r)"
      using assms by (auto simp add: does_def handler_unfold)
  qed (use assms in auto)
  then show ?thesis by simp
qed

text \<open>The pieces of a click: the first press, a further press, and the time-out.\<close>

lemma pressed_does: "does b sts es b' \<Longrightarrow> pressed b' st = pressed b st"
  by (simp add: pressed_def does_def)

lemma first_press:
  assumes "btn_at b 0 KEY_UP t r" and "pressed b d" and "\<not> pressed b u" and "m < LONG_TICKS"
  shows "\<exists>b'. does b (replicate (2 + m) d @ [u, u]) [PRESS_DOWN, PRESS_UP] b' \<and> btn_at b' 2 KEY_UP 0 1"
proof -
  obtain b1 where 1: "does b [d, d] [PRESS_DOWN] b1" "btn_at b1 1 KEY_DOWN 0 1"
    using press_from_idle [OF assms(1,2)] by blast
  obtain b2 where 2: "does b1 (replicate m d) [] b2" "btn_at b2 1 KEY_DOWN m 1"
    using hold_first [OF 1(2), of d m] assms(2,4) pressed_does [OF 1(1)] by auto
  obtain b3 where 3: "does b2 [u, u] [PRESS_UP] b3" "btn_at b3 2 KEY_UP 0 1"
    using release_first [OF 2(2)] assms(3,4) pressed_does [OF 1(1)] pressed_does [OF 2(1)] by blast
  have "does b (([d, d] @ replicate m d) @ [u, u]) (([PRESS_DOWN] @ []) @ [PRESS_UP]) b3"
    by (rule does_trans [OF does_trans [OF 1(1) 2(1)] 3(1)])
  then show ?thesis using 3(2) by (auto simp: numeral_2_eq_2)
qed

lemma next_press:
  assumes "btn_at b 2 KEY_UP 0 r" and "pressed b d" and "\<not> pressed b u"
    and "g < SHORT_TICKS" and "k + 2 < SHORT_TICKS"
  shows "\<exists>b'. does b (replicate g u @ replicate (2 + k) d @ [u, u]) [PRESS_DOWN, PRESS_UP] b' \<and>
    btn_at b' 2 KEY_UP 0 (r + 1)"
proof -
  obtain b1 where 1: "does b (replicate g u) [] b1" "btn_at b1 2 KEY_UP g r"
    using wait_released [OF assms(1,3), of g] assms(4) by auto
  obtain b2 where 2: "does b1 [d, d] [PRESS_DOWN] b2" "btn_at b2 3 KEY_DOWN 0 (r + 1)"
    using press_again [OF 1(2) _ assms(4)] assms(2) pressed_does [OF 1(1)] by blast
  obtain b3 where 3: "does b2 (replicate k d) [] b3" "btn_at b3 3 KEY_DOWN k (r + 1)"
    using hold_again [OF 2(2), of d k] assms(2,5) pressed_does [OF 1(1)] pressed_does [OF 2(1)]
    by (auto simp: tick_defs)
  obtain b4 where 4: "does b3 [u, u] [PRESS_UP] b4" "btn_at b4 2 KEY_UP 0 (r + 1)"
    using release_again [OF 3(2) _ assms(5)] assms(3) pressed_does [OF 1(1)] pressed_does [OF 2(1)]
      pressed_does [OF 3(1)] by blast
  have "does b (replicate g u @ ([d, d] @ replicate k d) @ [u, u]) ([] @ ([PRESS_DOWN] @ []) @ [PRESS_UP]) b4"
    by (rule does_trans [OF 1(1) does_trans [OF does_trans [OF 2(1) 3(1)] 4(1)]])
  then show ?thesis using 4(2) by (auto simp: numeral_2_eq_2)
qed

lemma series_end:
  assumes "btn_at b 2 KEY_UP 0 r" and "\<not> pressed b u"
  shows "\<exists>b'. does b (replicate (SHORT_TICKS + 1 + n) u) (click_events r) b' \<and>
    btn_at b' 0 KEY_UP (SHORT_TICKS + 1) r"
proof -
  obtain b1 where 1: "does b (replicate SHORT_TICKS u) [] b1" "btn_at b1 2 KEY_UP SHORT_TICKS r"
    using wait_released [OF assms] by fastforce
  obtain b2 where 2: "does b1 [u] (click_events r) b2" "btn_at b2 0 KEY_UP (SHORT_TICKS + 1) r"
    using click_timeout [OF 1(2)] assms(2) pressed_does [OF 1(1)] by blast
  obtain b3 where 3: "does b2 (replicate n u) [] b3" "btn_at b3 0 KEY_UP (SHORT_TICKS + 1) r"
    using stay_idle [OF 2(2)] assms(2) pressed_does [OF 1(1)] pressed_does [OF 2(1)] by blast
  have "does b (replicate SHORT_TICKS u @ [u] @ replicate n u) ([] @ click_events r @ []) b3"
    by (rule does_trans [OF 1(1) does_trans [OF 2(1) 3(1)]])
  moreover have "replicate (SHORT_TICKS + 1 + n) u = replicate SHORT_TICKS u @ [u] @ replicate n u"
    unfolding replicate_add by simp
  ultimately show ?thesis using 3(2) by auto
qed

lemma next_presses:
  assumes "btn_at b 2 KEY_UP 0 r" and "pressed b d" and "\<not> pressed b u"
    and "g < SHORT_TICKS" and "k + 2 < SHORT_TICKS"
  shows "\<exists>b'. does b (concat (replicate n (replicate g u @ replicate (2 + k) d @ [u, u])))
      (concat (replicate n [PRESS_DOWN, PRESS_UP])) b' \<and> btn_at b' 2 KEY_UP 0 (r + of_nat n)"
  using assms(1-3)
proof (induction n arbitrary: b r)
  case 0
  then show ?case using does_Nil by auto
next
  case (Suc n)
  obtain b1 where 1: "does b (replicate g u @ replicate (2 + k) d @ [u, u]) [PRESS_DOWN, PRESS_UP] b1"
    "btn_at b1 2 KEY_UP 0 (r + 1)"
    using next_press [OF Suc.prems(1-3) assms(4,5)] by blast
  obtain b2 where 2: "does b1 (concat (replicate n (replicate g u @ replicate (2 + k) d @ [u, u])))
      (concat (replicate n [PRESS_DOWN, PRESS_UP])) b2" "btn_at b2 2 KEY_UP 0 (r + 1 + of_nat n)"
    using Suc.IH [OF 1(2)] Suc.prems(2,3) pressed_does [OF 1(1)] by blast
  then show ?case using does_trans [OF 1(1) 2(1)] by (auto simp: add.assoc)
qed

text \<open>
  C25: A series of \<open>n + 1\<close> clicks, each press shorter than \<open>SHORT_TICKS\<close> after the first and
  the gaps too: every press and release is reported at once, and the series is classified when it
  times out, by a repeat count that has four bits.
\<close>

theorem click_series:
  assumes "btn_at b 0 KEY_UP t r" and "pressed b d" and "\<not> pressed b u"
    and "m < LONG_TICKS" and "g < SHORT_TICKS" and "k + 2 < SHORT_TICKS"
  shows "\<exists>b'. does b ((replicate (2 + m) d @ [u, u]) @
        concat (replicate n (replicate g u @ replicate (2 + k) d @ [u, u])) @
        replicate (SHORT_TICKS + 1 + i) u)
      ([PRESS_DOWN, PRESS_UP] @ concat (replicate n [PRESS_DOWN, PRESS_UP]) @
        click_events (of_nat (n + 1))) b' \<and>
    btn_at b' 0 KEY_UP (SHORT_TICKS + 1) (of_nat (n + 1))"
proof -
  obtain b1 where 1: "does b (replicate (2 + m) d @ [u, u]) [PRESS_DOWN, PRESS_UP] b1"
    "btn_at b1 2 KEY_UP 0 1"
    using first_press [OF assms(1-4)] by blast
  have p: "pressed b1 d" "\<not> pressed b1 u" using assms(2,3) pressed_does [OF 1(1)] by auto
  obtain b2 where 2: "does b1 (concat (replicate n (replicate g u @ replicate (2 + k) d @ [u, u])))
      (concat (replicate n [PRESS_DOWN, PRESS_UP])) b2" "btn_at b2 2 KEY_UP 0 (of_nat (n + 1))"
    using next_presses [OF 1(2) p assms(5,6), of n] by (auto simp: add.commute)
  obtain b3 where 3: "does b2 (replicate (SHORT_TICKS + 1 + i) u) (click_events (of_nat (n + 1))) b3"
    "btn_at b3 0 KEY_UP (SHORT_TICKS + 1) (of_nat (n + 1))"
    using series_end [OF 2(2)] assms(3) pressed_does [OF 1(1)] pressed_does [OF 2(1)] by blast
  show ?thesis using does_trans [OF 1(1) does_trans [OF 2(1) 3(1)]] 3(2) by blast
qed

definition sample_btn :: "nat button_t" where
  "sample_btn = \<lparr>ticks = 0, repeat = 0, event = NONE_PRESS, state = 0, debounce_cnt = 0,
     key_state = KEY_UP, key_id = 2, cb = Map.empty, next_btn = None\<rparr>"

lemma sample_btn_at: "btn_at sample_btn 0 KEY_UP 0 0" "pressed sample_btn 3" "\<not> pressed sample_btn 1"
  by (simp_all add: sample_btn_def btn_at_def pressed_def)

theorem click_series_witness:
  "\<exists>b'. does sample_btn ((replicate (2 + 5) 3 @ [1, 1]) @
      concat (replicate 1 (replicate 4 1 @ replicate (2 + 3) 3 @ [1, 1])) @
      replicate (SHORT_TICKS + 1 + 2) 1)
    ([PRESS_DOWN, PRESS_UP] @ concat (replicate 1 [PRESS_DOWN, PRESS_UP]) @
      click_events (of_nat (1 + 1))) b' \<and>
    btn_at b' 0 KEY_UP (SHORT_TICKS + 1) (of_nat (1 + 1))"
  by (rule click_series [OF sample_btn_at]) (simp_all add: tick_defs)

lemma click_events_cases:
  "click_events (of_nat (0 + 1)) = [SINGLE_CLICK]"
  "click_events (of_nat (1 + 1)) = [DOUBLE_CLICK, PRESS_REPEAT]"
  "click_events (of_nat (2 + 1)) = [PRESS_REPEAT]"
  "click_events (of_nat (15 + 1)) = []"
proof -
  have z: "(of_nat (15 + 1) :: 4 word) = 0" by code_simp
  show "click_events (of_nat (15 + 1)) = []" unfolding z by (simp add: click_events_def)
qed (simp_all add: click_events_def)

text \<open>
  C26: Held beyond \<open>LONG_TICKS\<close>, a press is long: one start event when the count passes the
  limit, then a hold event per tick until the release has been debounced, and no click event.
\<close>

theorem long_press:
  assumes "btn_at b 0 KEY_UP t r" and "pressed b d" and "\<not> pressed b u"
  shows "\<exists>b' t'. does b (replicate (2 + LONG_TICKS + 1 + n) d @ [u, u])
      ([PRESS_DOWN, LONG_RRESS_START] @ replicate n LONG_PRESS_HOLD @ [LONG_PRESS_HOLD, PRESS_UP]) b' \<and>
    btn_at b' 0 KEY_UP t' 1"
proof -
  obtain b1 where 1: "does b [d, d] [PRESS_DOWN] b1" "btn_at b1 1 KEY_DOWN 0 1"
    using press_from_idle [OF assms(1,2)] by blast
  have d1: "pressed b1 d" using assms(2) 1(1) by (simp add: pressed_def does_def)
  obtain b2 where 2: "does b1 (replicate LONG_TICKS d) [] b2" "btn_at b2 1 KEY_DOWN LONG_TICKS 1"
    using hold_first [OF 1(2) d1] by auto
  have d2: "pressed b2 d" using d1 2(1) by (simp add: pressed_def does_def)
  obtain b3 where 3: "does b2 [d] [LONG_RRESS_START] b3" "btn_at b3 5 KEY_DOWN (LONG_TICKS + 1) 1"
    using long_start [OF 2(2) d2] by blast
  have d3: "pressed b3 d" using d2 3(1) by (simp add: pressed_def does_def)
  obtain b4 t4 where 4: "does b3 (replicate n d) (replicate n LONG_PRESS_HOLD) b4" "btn_at b4 5 KEY_DOWN t4 1"
    using hold_long [OF 3(2) d3] by blast
  have d4: "\<not> pressed b4 u"
    using assms(3) 1(1) 2(1) 3(1) 4(1) by (simp add: pressed_def does_def)
  obtain b5 t5 where 5: "does b4 [u, u] [LONG_PRESS_HOLD, PRESS_UP] b5" "btn_at b5 0 KEY_UP t5 1"
    using release_long [OF 4(2) d4] by blast
  have "does b ((([d, d] @ replicate LONG_TICKS d) @ [d]) @ replicate n d @ [u, u])
      ((([PRESS_DOWN] @ []) @ [LONG_RRESS_START]) @ replicate n LONG_PRESS_HOLD @ [LONG_PRESS_HOLD, PRESS_UP]) b5"
    by (rule does_trans [OF does_trans [OF does_trans [OF 1(1) 2(1)] 3(1)] does_trans [OF 4(1) 5(1)]])
  moreover have "replicate (2 + LONG_TICKS + 1 + n) d = [d, d] @ replicate LONG_TICKS d @ [d] @ replicate n d"
    unfolding replicate_add by (simp add: numeral_2_eq_2)
  ultimately show ?thesis using 5(2) by auto
qed

theorem long_press_witness:
  "\<exists>b' t'. does sample_btn (replicate (2 + LONG_TICKS + 1 + 2) 3 @ [1, 1])
      ([PRESS_DOWN, LONG_RRESS_START] @ replicate 2 LONG_PRESS_HOLD @ [LONG_PRESS_HOLD, PRESS_UP]) b' \<and>
    btn_at b' 0 KEY_UP t' 1"
  by (rule long_press [OF sample_btn_at])

text \<open>
  Debouncing. Whatever the phase of the button, a single deviating sample never changes the
  settled key level.
\<close>

theorem glitch_ignored:
  assumes "btn_inv b" and "debounce_cnt b = 0" and "sample_level b level = key_state b"
  shows "key_state (fst (button_run b [glitch, level])) = key_state b \<and>
    debounce_cnt (fst (button_run b [glitch, level])) = 0"
proof -
  have key: "key_state (fst (button_fsm c)) = key_state c" "key_id (fst (button_fsm c)) = key_id c"
    "debounce_cnt (fst (button_fsm c)) = debounce_cnt c" for c :: "'a button_t"
    by (simp_all add: button_fsm_def Let_def split_beta)
  let ?b1 = "fst (button_handler b glitch)"
  have b1: "key_state ?b1 = key_state b" "key_id ?b1 = key_id b"
    using assms(2) by (simp_all add: button_handler_def key button_debounce_def Let_def tick_defs)
  then have lev: "sample_level ?b1 level = key_state ?b1"
    using assms(3) by (simp add: sample_level_def)
  have "key_state (fst (button_handler ?b1 level)) = key_state b \<and>
    debounce_cnt (fst (button_handler ?b1 level)) = 0"
    unfolding button_handler_def [of ?b1] key
    using b1 lev by (simp add: button_debounce_def Let_def)
  then show ?thesis by (simp add: Let_def split_beta)
qed

theorem glitch_ignored_witness:
  "key_state (fst (button_run sample_btn [2, 0])) = KEY_UP \<and>
    debounce_cnt (fst (button_run sample_btn [2, 0])) = 0"
  using glitch_ignored [of sample_btn 0 2]
  by (simp add: sample_btn_def btn_inv_def sample_level_def)

end
