(* ===== verification/ButtonList.thy ===== *)
theory ButtonList
  imports Button
begin

text \<open>
  The list of started buttons as the client sees it: the chain of \<open>next\<close> pointers from
  \<open>btn_list\<close> is a finite list of distinct addresses, starting a button adds it at the front
  once, stopping it removes it, and a background tick runs every handler exactly once, front to
  back. The loops over the chain are partial functions; that they end is part of each statement.
\<close>

section \<open>Chains\<close>

fun chain :: "(nat \<Rightarrow> 'c button_t) \<Rightarrow> nat option \<Rightarrow> nat list \<Rightarrow> bool" where
  "chain h t [] = (t = None)"
| "chain h t (a # as) = (t = Some a \<and> chain h (next_btn (h a)) as)"

lemma chain_None [simp]: "chain h None as \<longleftrightarrow> as = []"
  by (cases as) auto

lemma chain_unique: "chain h t as \<Longrightarrow> chain h t bs \<Longrightarrow> as = bs"
proof (induction as arbitrary: t bs)
  case Nil
  then show ?case by simp
next
  case (Cons a as)
  then show ?case by (cases bs) auto
qed

lemma chain_suffix: "chain h t (xs @ a # ys) \<Longrightarrow> chain h (next_btn (h a)) ys"
  by (induction xs arbitrary: t) auto

lemma chain_distinct: "chain h t as \<Longrightarrow> distinct as"
proof (induction as arbitrary: t)
  case Nil
  then show ?case by simp
next
  case (Cons a as)
  have "a \<notin> set as"
  proof
    assume "a \<in> set as"
    then obtain xs ys where as: "as = xs @ a # ys" by (auto simp: in_set_conv_decomp)
    then have "chain h (next_btn (h a)) ys" using Cons.prems chain_suffix [of h t "a # xs" a ys] by simp
    then have "as = ys" using Cons.prems chain_unique by auto
    then show False using as by simp
  qed
  with Cons show ?case by auto
qed

lemma chain_cong:
  "(\<And>a. a \<in> set as \<Longrightarrow> next_btn (h' a) = next_btn (h a)) \<Longrightarrow> chain h' t as = chain h t as"
  by (induction as arbitrary: t) auto

lemma find_btn_chain: "chain h t as \<Longrightarrow> find_btn h t b = Some (b \<in> set as)"
  by (induction as arbitrary: t) (subst find_btn.simps; auto)+

section \<open>Starting and stopping\<close>

lemma start_chain:
  assumes "chain (heap m) (btn_list m) as"
  shows "\<exists>m'. button_start m b = Some (if b \<in> set as then - 1 else 0, m') \<and>
    chain (heap m') (btn_list m') (if b \<in> set as then as else b # as)"
proof (cases "b \<in> set as")
  case True
  then show ?thesis using assms find_btn_chain [OF assms, of b] by (auto simp: button_start_def)
next
  case False
  then have "chain ((heap m)(b := (heap m b)\<lparr>next_btn := btn_list m\<rparr>)) (btn_list m) as"
    using assms by (subst chain_cong [where h = "heap m"]) auto
  then show ?thesis
    using False find_btn_chain [OF assms, of b] by (auto simp: button_start_def)
qed

text \<open>What a traversal from the cell \<open>c\<close> may change: only the \<open>next\<close> field of \<open>c\<close> and of the chain.\<close>

definition same_but_links :: "'c btn_mem \<Rightarrow> 'c btn_mem \<Rightarrow> cell \<Rightarrow> nat list \<Rightarrow> bool" where
  "same_but_links m m' c as \<longleftrightarrow>
     (\<forall>x. NextCell x \<noteq> c \<and> x \<notin> set as \<longrightarrow> heap m' x = heap m x) \<and>
     (c \<noteq> HeadCell \<longrightarrow> btn_list m' = btn_list m) \<and>
     (\<forall>x. (heap m' x)\<lparr>next_btn := None\<rparr> = (heap m x)\<lparr>next_btn := None\<rparr>)"

lemma get_set_cell [simp]: "get_cell (set_cell m c v) c = v"
  by (cases c) (simp_all add: get_cell_def set_cell_def)

lemma set_cell_next:
  "c \<noteq> NextCell a \<Longrightarrow> next_btn (heap (set_cell m c v) a) = next_btn (heap m a)"
  by (cases c) (auto simp: set_cell_def)

lemma set_cell_same: "same_but_links m (set_cell m c v) c as"
  by (cases c) (auto simp: same_but_links_def set_cell_def)

lemma same_trans:
  "same_but_links m m1 c as \<Longrightarrow> same_but_links m1 m2 c as \<Longrightarrow> same_but_links m m2 c as"
  by (auto simp: same_but_links_def)

lemma same_cons: "same_but_links m m' c as \<Longrightarrow> same_but_links m m' c (a # as)"
  by (auto simp: same_but_links_def)

lemma stop_loop_chain:
  assumes "chain (heap m) (get_cell m c) as" and "c \<notin> NextCell ` set as"
  shows "\<exists>m'. stop_loop m c b = Some m' \<and> same_but_links m m' c as \<and>
    chain (heap m') (get_cell m' c) (removeAll b as)"
  using assms
proof (induction as arbitrary: m c)
  case Nil
  then show ?case by (subst stop_loop.simps) (auto simp: same_but_links_def)
next
  case (Cons a as)
  have cell: "get_cell m c = Some a" and rest: "chain (heap m) (next_btn (heap m a)) as"
    using Cons.prems(1) by auto
  have nin: "a \<notin> set as" using chain_distinct [OF Cons.prems(1)] by simp
  show ?case
  proof (cases "a = b")
    case True
    let ?m1 = "set_cell m c (next_btn (heap m a))"
    have "next_btn (heap ?m1 x) = next_btn (heap m x)" if "x \<in> set as" for x
      by (rule set_cell_next) (use that Cons.prems(2) in auto)
    then have "chain (heap ?m1) (get_cell ?m1 c) as"
      using rest chain_cong [of as "heap ?m1" "heap m"] by simp
    then obtain m' where "stop_loop ?m1 c b = Some m'" "same_but_links ?m1 m' c as"
      "chain (heap m') (get_cell m' c) (removeAll b as)"
      using Cons.IH [of ?m1 c] Cons.prems(2) by auto
    then show ?thesis
      using True cell same_trans [OF set_cell_same [of m c "next_btn (heap m a)" as]]
      by (subst stop_loop.simps) (auto intro: same_cons)
  next
    case False
    have "chain (heap m) (get_cell m (NextCell a)) as" using rest by (simp add: get_cell_def)
    then obtain m' where m': "stop_loop m (NextCell a) b = Some m'"
      "same_but_links m m' (NextCell a) as"
      "chain (heap m') (get_cell m' (NextCell a)) (removeAll b as)"
      using Cons.IH [of m "NextCell a"] nin by auto
    have "get_cell m' c = Some a"
      using m'(2) cell Cons.prems(2) by (cases c) (auto simp: same_but_links_def get_cell_def)
    then show ?thesis
      using m' False cell
      by (subst stop_loop.simps) (auto simp: get_cell_def same_but_links_def)
  qed
qed

lemma stop_chain:
  assumes "chain (heap m) (btn_list m) as"
  shows "\<exists>m'. button_stop m b = Some m' \<and> chain (heap m') (btn_list m') (removeAll b as)"
  using stop_loop_chain [of m HeadCell as b] assms
  by (auto simp: button_stop_def get_cell_def)

section \<open>A background tick\<close>

lemma handler_next [simp]: "next_btn (fst (button_handler b st)) = next_btn b"
  by (simp add: button_handler_def button_debounce_def button_fsm_def Let_def split_beta)

lemma process_loop_chain:
  assumes "chain h t as"
  shows "\<exists>h'. process_loop h t st log =
      Some (h', log @ concat (map (\<lambda>a. snd (button_handler (h a) st)) as)) \<and>
    (\<forall>a. h' a = (if a \<in> set as then fst (button_handler (h a) st) else h a))"
  using assms
proof (induction as arbitrary: h t log)
  case Nil
  then show ?case by (subst process_loop.simps) auto
next
  case (Cons a as)
  let ?h1 = "h(a := fst (button_handler (h a) st))"
  have nin: "a \<notin> set as" using chain_distinct [OF Cons.prems] by simp
  have "chain ?h1 (next_btn (h a)) as"
    using Cons.prems by (subst chain_cong [where h = h]) auto
  moreover have m: "map (\<lambda>x. snd (button_handler (?h1 x) st)) as =
      map (\<lambda>x. snd (button_handler (h x) st)) as"
    using nin by (intro map_cong refl) auto
  ultimately obtain h' where
    "process_loop ?h1 (next_btn (h a)) st (log @ snd (button_handler (h a) st)) =
      Some (h', (log @ snd (button_handler (h a) st)) @
        concat (map (\<lambda>x. snd (button_handler (h x) st)) as))"
    "\<forall>x. h' x = (if x \<in> set as then fst (button_handler (?h1 x) st) else ?h1 x)"
    using Cons.IH unfolding m [symmetric] by blast
  moreover have "t = Some a" using Cons.prems by simp
  ultimately show ?case
    using nin by (subst process_loop.simps) auto
qed

lemma process_chain:
  assumes "chain (heap m) (btn_list m) as"
  shows "\<exists>m'. button_process m st =
      Some (m', concat (map (\<lambda>a. snd (button_handler (heap m a) st)) as)) \<and>
    btn_list m' = btn_list m \<and> chain (heap m') (btn_list m') as \<and>
    (\<forall>a. heap m' a = (if a \<in> set as then fst (button_handler (heap m a) st) else heap m a))"
proof -
  obtain h' where h': "process_loop (heap m) (btn_list m) st [] =
      Some (h', concat (map (\<lambda>a. snd (button_handler (heap m a) st)) as))"
    "\<forall>a. h' a = (if a \<in> set as then fst (button_handler (heap m a) st) else heap m a)"
    using process_loop_chain [OF assms, of st "[]"] by auto
  then have "chain h' (btn_list m) as"
    using assms by (subst chain_cong [where h = "heap m"]) auto
  then show ?thesis using h' by (simp add: button_process_def)
qed

section \<open>Properties\<close>

text \<open>The list operations of a client, and what they mean on the list of addresses.\<close>

datatype btn_op = Start nat | Stop nat | Tick u8

fun btn_exec :: "'c btn_mem \<Rightarrow> btn_op \<Rightarrow> 'c btn_mem option" where
  "btn_exec m (Start a) = map_option snd (button_start m a)"
| "btn_exec m (Stop a) = button_stop m a"
| "btn_exec m (Tick st) = map_option fst (button_process m st)"

fun btn_exec_all :: "'c btn_mem \<Rightarrow> btn_op list \<Rightarrow> 'c btn_mem option" where
  "btn_exec_all m [] = Some m"
| "btn_exec_all m (op # ops) = do { m1 \<leftarrow> btn_exec m op; btn_exec_all m1 ops }"

fun started :: "nat list \<Rightarrow> btn_op \<Rightarrow> nat list" where
  "started as (Start a) = (if a \<in> set as then as else a # as)"
| "started as (Stop a) = removeAll a as"
| "started as (Tick st) = as"

lemma exec_chain:
  "chain (heap m) (btn_list m) as \<Longrightarrow>
   \<exists>m'. btn_exec m op = Some m' \<and> chain (heap m') (btn_list m') (started as op)"
  using start_chain [of m as] stop_chain [of m as] process_chain [of m as]
  by (cases op) fastforce+

lemma exec_all_chain:
  "chain (heap m) (btn_list m) as \<Longrightarrow>
   \<exists>m'. btn_exec_all m ops = Some m' \<and> chain (heap m') (btn_list m') (foldl started as ops)"
proof (induction ops arbitrary: m as)
  case Nil
  then show ?case by simp
next
  case (Cons op ops)
  obtain m1 where "btn_exec m op = Some m1" "chain (heap m1) (btn_list m1) (started as op)"
    using exec_chain [OF Cons.prems] by blast
  then show ?case using Cons.IH by auto
qed

text \<open>
  C10: Every sequence of button starts, stops and ticks, from the empty list, terminates and
  leaves a well-formed chain without duplicates: each started and not stopped button is on it
  once, the most recently started first.
\<close>

theorem button_list_refines:
  assumes "btn_list m = None"
  shows "\<exists>m'. btn_exec_all m ops = Some m' \<and>
    chain (heap m') (btn_list m') (foldl started [] ops) \<and> distinct (foldl started [] ops)"
  using exec_all_chain [of m "[]" ops] assms chain_distinct by fastforce

theorem button_list_refines_witness:
  "\<exists>m'. btn_exec_all \<lparr>heap = (\<lambda>a. \<lparr>ticks = 0, repeat = 0, event = NONE_PRESS, state = 0,
        debounce_cnt = 0, key_state = 0, key_id = of_nat a, cb = Map.empty, next_btn = None\<rparr>),
      btn_list = None\<rparr> [Start 1, Start 2, Tick 1, Start 1, Start 4, Stop 2] = Some m' \<and>
    chain (heap (m' :: nat btn_mem)) (btn_list m') [4, 1] \<and> distinct [4, 1 :: nat]"
  using button_list_refines [of "\<lparr>heap = (\<lambda>a. \<lparr>ticks = 0, repeat = 0, event = NONE_PRESS, state = 0,
        debounce_cnt = 0, key_state = 0, key_id = of_nat a, cb = Map.empty, next_btn = None\<rparr>),
      btn_list = None\<rparr>" "[Start 1, Start 2, Tick 1, Start 1, Start 4, Stop 2]"]
  by simp

text \<open>
  A tick steps every button on the chain exactly once with the sampled key levels, leaves all
  others and the chain as they are, and makes the callbacks in chain order.
\<close>

theorem tick_steps_every_button:
  assumes "chain (heap m) (btn_list m) as"
  shows "\<exists>m'. button_process m st =
      Some (m', concat (map (\<lambda>a. snd (button_handler (heap m a) st)) as)) \<and>
    chain (heap m') (btn_list m') as \<and>
    (\<forall>a. heap m' a = (if a \<in> set as then fst (button_handler (heap m a) st) else heap m a))"
  using process_chain [OF assms] by blast

theorem tick_steps_every_button_witness:
  "\<exists>m'. button_process \<lparr>heap = (\<lambda>a. \<lparr>ticks = 0, repeat = 0, event = NONE_PRESS, state = 0,
        debounce_cnt = 1, key_state = 0, key_id = of_nat a, cb = [PRESS_DOWN \<mapsto> a],
        next_btn = (if a = 1 then Some 2 else None)\<rparr>), btn_list = Some 1\<rparr> 3 = Some m' \<and>
    map (fst :: nat \<times> nat button_t \<Rightarrow> nat) (snd m') = [1, 2]"
  using tick_steps_every_button [of "\<lparr>heap = (\<lambda>a. \<lparr>ticks = 0, repeat = 0, event = NONE_PRESS, state = 0,
        debounce_cnt = 1, key_state = 0, key_id = of_nat a, cb = [PRESS_DOWN \<mapsto> a],
        next_btn = (if a = 1 then Some 2 else None)\<rparr>), btn_list = Some 1\<rparr>" "[1, 2]" 3]
  by (auto simp: button_handler_def button_debounce_def button_fsm_def sample_level_def fire_def
      Let_def split_beta DEBOUNCE_TICKS_def)

end
