(* ===== verification/Gpio.thy ===== *)
theory Gpio
  imports Prelude
begin

text \<open>
  The GPIO ports of the CH582 and the drivers that use nothing else: the port functions of the
  peripheral library (\<open>StdPeriphDriver/CH58x_gpio.c\<close>), and the keys and LEDs of the
  controller (\<open>Firmware/drivers/drv_key.c\<close>, \<open>drv_led.c\<close>) and of the receiver. A port is
  a record of its registers; writing the clear register clears bits of the output register and
  writing the flag register acknowledges flags, as the register header documents them.
\<close>

section \<open>Registers\<close>

definition BV :: "nat \<Rightarrow> u32" where
  "BV n = push_bit n 1"

abbreviation GPIO_Pin :: "nat \<Rightarrow> u32" where
  "GPIO_Pin n \<equiv> BV n"

record gpio_port =
  P_PIN :: u32
  P_OUT :: u32
  P_PD_DRV :: u32
  P_PU :: u32
  P_DIR :: u32
  P_INT_EN :: u16
  P_INT_MODE :: u16
  P_INT_IF :: u16

record gpio =
  PA :: gpio_port
  PB :: gpio_port

datatype GPIOModeTypeDef =
  GPIO_ModeIN_Floating | GPIO_ModeIN_PU | GPIO_ModeIN_PD
  | GPIO_ModeOut_PP_5mA | GPIO_ModeOut_PP_20mA

datatype GPIOITModeTpDef =
  GPIO_ITMode_LowLevel | GPIO_ITMode_HighLevel | GPIO_ITMode_FallEdge | GPIO_ITMode_RiseEdge

definition GPIO_SetBits :: "gpio_port \<Rightarrow> u32 \<Rightarrow> gpio_port" where
  "GPIO_SetBits p pin = p\<lparr>P_OUT := P_OUT p OR pin\<rparr>"

definition GPIO_ResetBits :: "gpio_port \<Rightarrow> u32 \<Rightarrow> gpio_port" where
  "GPIO_ResetBits p pin = p\<lparr>P_OUT := P_OUT p AND NOT pin\<rparr>"

definition GPIO_ClearITFlagBit :: "gpio_port \<Rightarrow> u16 \<Rightarrow> gpio_port" where
  "GPIO_ClearITFlagBit p fl = p\<lparr>P_INT_IF := P_INT_IF p AND NOT fl\<rparr>"

text \<open>The body that \<open>GPIOA_ModeCfg\<close> and \<open>GPIOB_ModeCfg\<close> have, each on its port.\<close>

definition GPIO_ModeCfg :: "gpio_port \<Rightarrow> u32 \<Rightarrow> GPIOModeTypeDef \<Rightarrow> gpio_port" where
  "GPIO_ModeCfg p pin mode = (case mode of
     GPIO_ModeIN_Floating \<Rightarrow> p\<lparr>P_PD_DRV := P_PD_DRV p AND NOT pin, P_PU := P_PU p AND NOT pin,
                               P_DIR := P_DIR p AND NOT pin\<rparr>
   | GPIO_ModeIN_PU \<Rightarrow> p\<lparr>P_PD_DRV := P_PD_DRV p AND NOT pin, P_PU := P_PU p OR pin,
                         P_DIR := P_DIR p AND NOT pin\<rparr>
   | GPIO_ModeIN_PD \<Rightarrow> p\<lparr>P_PD_DRV := P_PD_DRV p OR pin, P_PU := P_PU p AND NOT pin,
                         P_DIR := P_DIR p AND NOT pin\<rparr>
   | GPIO_ModeOut_PP_5mA \<Rightarrow> p\<lparr>P_PD_DRV := P_PD_DRV p AND NOT pin, P_DIR := P_DIR p OR pin\<rparr>
   | GPIO_ModeOut_PP_20mA \<Rightarrow> p\<lparr>P_PD_DRV := P_PD_DRV p OR pin, P_DIR := P_DIR p OR pin\<rparr>)"

definition GPIOA_ModeCfg :: "gpio \<Rightarrow> u32 \<Rightarrow> GPIOModeTypeDef \<Rightarrow> gpio" where
  "GPIOA_ModeCfg g pin mode = g\<lparr>PA := GPIO_ModeCfg (PA g) pin mode\<rparr>"

definition GPIOB_ModeCfg :: "gpio \<Rightarrow> u32 \<Rightarrow> GPIOModeTypeDef \<Rightarrow> gpio" where
  "GPIOB_ModeCfg g pin mode = g\<lparr>PB := GPIO_ModeCfg (PB g) pin mode\<rparr>"

text \<open>
  Interrupt configuration. The interrupt registers of port B have 16 bits and carry its pins 22
  and 23 on bits 8 and 9, so it takes a second mask for them.
\<close>

definition GPIO_ITModeCfg :: "gpio_port \<Rightarrow> u32 \<Rightarrow> u16 \<Rightarrow> GPIOITModeTpDef \<Rightarrow> gpio_port" where
  "GPIO_ITModeCfg p pin ipin mode =
     (let p1 = (case mode of
          GPIO_ITMode_LowLevel \<Rightarrow> GPIO_ResetBits (p\<lparr>P_INT_MODE := P_INT_MODE p AND NOT ipin\<rparr>) pin
        | GPIO_ITMode_HighLevel \<Rightarrow> GPIO_SetBits (p\<lparr>P_INT_MODE := P_INT_MODE p AND NOT ipin\<rparr>) pin
        | GPIO_ITMode_FallEdge \<Rightarrow> GPIO_ResetBits (p\<lparr>P_INT_MODE := P_INT_MODE p OR ipin\<rparr>) pin
        | GPIO_ITMode_RiseEdge \<Rightarrow> GPIO_SetBits (p\<lparr>P_INT_MODE := P_INT_MODE p OR ipin\<rparr>) pin);
         p2 = GPIO_ClearITFlagBit p1 ipin
     in p2\<lparr>P_INT_EN := P_INT_EN p2 OR ipin\<rparr>)"

definition GPIOA_ITModeCfg :: "gpio \<Rightarrow> u32 \<Rightarrow> GPIOITModeTpDef \<Rightarrow> gpio" where
  "GPIOA_ITModeCfg g pin mode = g\<lparr>PA := GPIO_ITModeCfg (PA g) pin (ucast pin) mode\<rparr>"

text \<open>The registers that move a function to its other pins and that switch inputs to analogue.\<close>

record pin_switches =
  PIN_ALTERNATE :: u16
  PIN_ANALOG_IE :: u16

definition GPIOPinRemap :: "pin_switches \<Rightarrow> bool \<Rightarrow> u16 \<Rightarrow> pin_switches" where
  "GPIOPinRemap r s perph =
     (if s then r\<lparr>PIN_ALTERNATE := PIN_ALTERNATE r OR perph\<rparr>
      else r\<lparr>PIN_ALTERNATE := PIN_ALTERNATE r AND NOT perph\<rparr>)"

definition GPIOAGPPCfg :: "pin_switches \<Rightarrow> bool \<Rightarrow> u16 \<Rightarrow> pin_switches" where
  "GPIOAGPPCfg r s perph =
     (if s then r\<lparr>PIN_ANALOG_IE := PIN_ANALOG_IE r OR perph\<rparr>
      else r\<lparr>PIN_ANALOG_IE := PIN_ANALOG_IE r AND NOT perph\<rparr>)"

text \<open>Each switches exactly the bits of its mask and leaves the other register alone.\<close>

lemma switches_bits:
  "n < 16 \<Longrightarrow> bit (PIN_ALTERNATE (GPIOPinRemap r s m)) n = (if bit m n then s else bit (PIN_ALTERNATE r) n)"
  "n < 16 \<Longrightarrow> bit (PIN_ANALOG_IE (GPIOAGPPCfg r s m)) n = (if bit m n then s else bit (PIN_ANALOG_IE r) n)"
  "PIN_ANALOG_IE (GPIOPinRemap r s m) = PIN_ANALOG_IE r" "PIN_ALTERNATE (GPIOAGPPCfg r s m) = PIN_ALTERNATE r"
  by (simp_all add: GPIOPinRemap_def GPIOAGPPCfg_def bit_simps)

definition pb_int_mask :: "u32 \<Rightarrow> u16" where
  "pb_int_mask pin = ucast (pin OR drop_bit 14 (pin AND (GPIO_Pin 22 OR GPIO_Pin 23)))"

definition GPIOB_ITModeCfg :: "gpio \<Rightarrow> u32 \<Rightarrow> GPIOITModeTpDef \<Rightarrow> gpio" where
  "GPIOB_ITModeCfg g pin mode = g\<lparr>PB := GPIO_ITModeCfg (PB g) pin (pb_int_mask pin) mode\<rparr>"

definition GPIOA_ReadITFlagPort :: "gpio \<Rightarrow> u16" where
  "GPIOA_ReadITFlagPort g = P_INT_IF (PA g)"

definition GPIOB_ReadITFlagPort :: "gpio \<Rightarrow> u32" where
  "GPIOB_ReadITFlagPort g =
     (ucast (P_INT_IF (PB g)) AND NOT (drop_bit 14 (GPIO_Pin 22 OR GPIO_Pin 23))) OR
     (push_bit 14 (ucast (P_INT_IF (PB g))) AND (GPIO_Pin 22 OR GPIO_Pin 23))"

section \<open>Keys\<close>

text \<open>All keys pull their line low: a key is down when its input bit is 0.\<close>

definition ACTIVE_LOW :: "u32 \<Rightarrow> bool" where
  "ACTIVE_LOW x \<longleftrightarrow> x = 0"

definition KEY_SW_HOME :: u8 where "KEY_SW_HOME = 0x01"
definition KEY_SW_LEFT :: u8 where "KEY_SW_LEFT = 0x02"
definition KEY_SW_RIGHT :: u8 where "KEY_SW_RIGHT = 0x04"
definition KEY_SW_POWER :: u8 where "KEY_SW_POWER = 0x08"

definition KEY_HOME_IN :: "gpio \<Rightarrow> bool" where
  "KEY_HOME_IN g = ACTIVE_LOW (P_PIN (PB g) AND BV 22)"
definition KEY_LEFT_IN :: "gpio \<Rightarrow> bool" where
  "KEY_LEFT_IN g = ACTIVE_LOW (P_PIN (PA g) AND BV 5)"
definition KEY_RIGHT_IN :: "gpio \<Rightarrow> bool" where
  "KEY_RIGHT_IN g = ACTIVE_LOW (P_PIN (PB g) AND BV 2)"
definition KEY_POWER_IN :: "gpio \<Rightarrow> bool" where
  "KEY_POWER_IN g = ACTIVE_LOW (P_PIN (PB g) AND BV 6)"

lemmas key_in_defs = KEY_HOME_IN_def KEY_LEFT_IN_def KEY_RIGHT_IN_def KEY_POWER_IN_def
lemmas key_sw_defs = KEY_SW_HOME_def KEY_SW_LEFT_def KEY_SW_RIGHT_def KEY_SW_POWER_def

text \<open>\<open>KEY_x_DIR; KEY_x_PU\<close>: input with pull-up.\<close>

definition key_line :: "gpio_port \<Rightarrow> u32 \<Rightarrow> gpio_port" where
  "key_line p bv = p\<lparr>P_DIR := P_DIR p AND NOT bv, P_PU := P_PU p OR bv\<rparr>"

definition key_hw_init :: "gpio \<Rightarrow> gpio" where
  "key_hw_init g0 =
     (let g1 = g0\<lparr>PB := key_line (PB g0) (BV 22)\<rparr>;
          g2 = g1\<lparr>PA := key_line (PA g1) (BV 5)\<rparr>;
          g3 = g2\<lparr>PB := key_line (PB g2) (BV 2)\<rparr>
      in g3\<lparr>PB := key_line (PB g3) (BV 6)\<rparr>)"

definition key_scan :: "gpio \<Rightarrow> u8" where
  "key_scan g =
     (let k0 = 0;
          k1 = (if KEY_HOME_IN g then k0 OR KEY_SW_HOME else k0);
          k2 = (if KEY_LEFT_IN g then k1 OR KEY_SW_LEFT else k1);
          k3 = (if KEY_RIGHT_IN g then k2 OR KEY_SW_RIGHT else k2)
      in if KEY_POWER_IN g then k3 OR KEY_SW_POWER else k3)"

text \<open>The receiver has one key.\<close>

definition KEY_SW_BIND :: u8 where "KEY_SW_BIND = 0x01"

definition KEY_BIND_IN :: "gpio \<Rightarrow> bool" where
  "KEY_BIND_IN g = ACTIVE_LOW (P_PIN (PB g) AND BV 22)"

definition rx_key_hw_init :: "gpio \<Rightarrow> gpio" where
  "rx_key_hw_init g = g\<lparr>PB := key_line (PB g) (BV 22)\<rparr>"

definition rx_key_scan :: "gpio \<Rightarrow> u8" where
  "rx_key_scan g = (if KEY_BIND_IN g then 0 OR KEY_SW_BIND else 0)"

section \<open>LEDs\<close>

definition LED_1 :: u8 where "LED_1 = 0x01"
definition LED_2 :: u8 where "LED_2 = 0x02"
definition LED_ALL :: u8 where "LED_ALL = LED_1 OR LED_2"

lemmas led_defs = LED_1_def LED_2_def LED_ALL_def

text \<open>
  The two boards have the same driver on different pins of port B: the controller on 8 and 16,
  the receiver on 7 and 4. A LED is lit when its output is low.
\<close>

definition LED1_BV :: u32 where "LED1_BV = BV 8"
definition LED2_BV :: u32 where "LED2_BV = BV 16"
definition rx_LED1_BV :: u32 where "rx_LED1_BV = BV 7"
definition rx_LED2_BV :: u32 where "rx_LED2_BV = BV 4"

definition led_on_at :: "u32 \<Rightarrow> u32 \<Rightarrow> gpio \<Rightarrow> u8 \<Rightarrow> gpio" where
  "led_on_at bv1 bv2 g leds =
     (let g1 = (if leds AND LED_1 \<noteq> 0 then g\<lparr>PB := GPIO_ResetBits (PB g) bv1\<rparr> else g)
      in if leds AND LED_2 \<noteq> 0 then g1\<lparr>PB := GPIO_ResetBits (PB g1) bv2\<rparr> else g1)"

definition led_off_at :: "u32 \<Rightarrow> u32 \<Rightarrow> gpio \<Rightarrow> u8 \<Rightarrow> gpio" where
  "led_off_at bv1 bv2 g leds =
     (let g1 = (if leds AND LED_1 \<noteq> 0 then g\<lparr>PB := GPIO_SetBits (PB g) bv1\<rparr> else g)
      in if leds AND LED_2 \<noteq> 0 then g1\<lparr>PB := GPIO_SetBits (PB g1) bv2\<rparr> else g1)"

definition led_toggle_at :: "u32 \<Rightarrow> u32 \<Rightarrow> gpio \<Rightarrow> u8 \<Rightarrow> gpio" where
  "led_toggle_at bv1 bv2 g leds =
     (let g1 = (if leds AND LED_1 \<noteq> 0 then g\<lparr>PB := (PB g)\<lparr>P_OUT := P_OUT (PB g) XOR bv1\<rparr>\<rparr> else g)
      in if leds AND LED_2 \<noteq> 0 then g1\<lparr>PB := (PB g1)\<lparr>P_OUT := P_OUT (PB g1) XOR bv2\<rparr>\<rparr> else g1)"

definition led_on :: "gpio \<Rightarrow> u8 \<Rightarrow> gpio" where "led_on = led_on_at LED1_BV LED2_BV"
definition led_off :: "gpio \<Rightarrow> u8 \<Rightarrow> gpio" where "led_off = led_off_at LED1_BV LED2_BV"
definition led_toggle :: "gpio \<Rightarrow> u8 \<Rightarrow> gpio" where "led_toggle = led_toggle_at LED1_BV LED2_BV"
definition rx_led_on :: "gpio \<Rightarrow> u8 \<Rightarrow> gpio" where "rx_led_on = led_on_at rx_LED1_BV rx_LED2_BV"
definition rx_led_off :: "gpio \<Rightarrow> u8 \<Rightarrow> gpio" where "rx_led_off = led_off_at rx_LED1_BV rx_LED2_BV"
definition rx_led_toggle :: "gpio \<Rightarrow> u8 \<Rightarrow> gpio" where
  "rx_led_toggle = led_toggle_at rx_LED1_BV rx_LED2_BV"

definition led_hw_init :: "gpio \<Rightarrow> gpio" where
  "led_hw_init g0 =
     (let g1 = g0\<lparr>PB := (PB g0)\<lparr>P_DIR := P_DIR (PB g0) OR LED1_BV\<rparr>\<rparr>;
          g2 = g1\<lparr>PB := (PB g1)\<lparr>P_DIR := P_DIR (PB g1) OR LED2_BV\<rparr>\<rparr>
      in led_off g2 LED_ALL)"

definition rx_led_hw_init :: "gpio \<Rightarrow> gpio" where
  "rx_led_hw_init g0 =
     (let g1 = g0\<lparr>PB := (PB g0)\<lparr>P_DIR := P_DIR (PB g0) OR rx_LED1_BV\<rparr>\<rparr>;
          g2 = g1\<lparr>PB := (PB g1)\<lparr>P_DIR := P_DIR (PB g1) OR rx_LED2_BV\<rparr>\<rparr>
      in rx_led_off g2 LED_ALL)"

section \<open>What they do to single pins\<close>

lemma bit_BV: "bit (BV n) k \<longleftrightarrow> k = n \<and> n < 32"
  by (auto simp: BV_def bit_simps)

lemma and_BV_eq_0: "n < 32 \<Longrightarrow> (x AND BV n = 0) = (\<not> bit x n)"
  using and_exp_eq_0_iff_not_bit [of x n] by (simp add: BV_def push_bit_eq_mult)

lemma and_BV_eq_0': "n < 32 \<Longrightarrow> (BV n AND x = 0) = (\<not> bit x n)"
  by (simp add: and_BV_eq_0 and.commute)

text \<open>Configuring pins leaves every bit outside the mask alone.\<close>

lemma bit_u32_lt: "bit (x :: u32) k \<Longrightarrow> k < 32"
  using bit_imp_le_length [of x k] by simp

lemma mode_cfg_frame:
  assumes "\<not> bit pin k"
  shows "bit (P_PD_DRV (GPIO_ModeCfg p pin m)) k = bit (P_PD_DRV p) k"
    and "bit (P_PU (GPIO_ModeCfg p pin m)) k = bit (P_PU p) k"
    and "bit (P_DIR (GPIO_ModeCfg p pin m)) k = bit (P_DIR p) k"
  using assms by (auto simp: GPIO_ModeCfg_def bit_simps bit_u32_lt split: GPIOModeTypeDef.splits)

lemma mode_cfg_dir:
  "k < 32 \<Longrightarrow> bit pin k \<Longrightarrow>
   bit (P_DIR (GPIO_ModeCfg p pin m)) k = (m = GPIO_ModeOut_PP_5mA \<or> m = GPIO_ModeOut_PP_20mA)"
  by (auto simp: GPIO_ModeCfg_def bit_simps split: GPIOModeTypeDef.splits)

lemma mode_cfg_others [simp]:
  "P_PIN (GPIO_ModeCfg p pin m) = P_PIN p" "P_OUT (GPIO_ModeCfg p pin m) = P_OUT p"
  "P_INT_EN (GPIO_ModeCfg p pin m) = P_INT_EN p" "P_INT_MODE (GPIO_ModeCfg p pin m) = P_INT_MODE p"
  "P_INT_IF (GPIO_ModeCfg p pin m) = P_INT_IF p"
  by (simp_all add: GPIO_ModeCfg_def split: GPIOModeTypeDef.splits)

lemma key_in_bits:
  "KEY_HOME_IN g \<longleftrightarrow> \<not> bit (P_PIN (PB g)) 22" "KEY_LEFT_IN g \<longleftrightarrow> \<not> bit (P_PIN (PA g)) 5"
  "KEY_RIGHT_IN g \<longleftrightarrow> \<not> bit (P_PIN (PB g)) 2" "KEY_POWER_IN g \<longleftrightarrow> \<not> bit (P_PIN (PB g)) 6"
  "KEY_BIND_IN g \<longleftrightarrow> \<not> bit (P_PIN (PB g)) 22"
  by (simp_all add: key_in_defs KEY_BIND_IN_def ACTIVE_LOW_def and_BV_eq_0)

lemma key_scan_bits:
  "key_scan g AND KEY_SW_HOME \<noteq> 0 \<longleftrightarrow> KEY_HOME_IN g"
  "key_scan g AND KEY_SW_LEFT \<noteq> 0 \<longleftrightarrow> KEY_LEFT_IN g"
  "key_scan g AND KEY_SW_RIGHT \<noteq> 0 \<longleftrightarrow> KEY_RIGHT_IN g"
  "key_scan g AND KEY_SW_POWER \<noteq> 0 \<longleftrightarrow> KEY_POWER_IN g"
  by (simp_all add: key_scan_def key_sw_defs Let_def)

end
