(* ===== verification/Encoder.thy ===== *)
theory Encoder
  imports Gpio
begin

text \<open>
  The two rotary encoders (\<open>Firmware/drivers/drv_encoder.c\<close>): the quadrature decoder
  \<open>state_change\<close>, the pin interrupt handlers that feed it, and an environment that turns the
  shaft of encoder A and raises the interrupts the ports are configured for. The decoder is right
  when it sees every transition; the handlers show it only the edges of signal A.
\<close>

section \<open>The decoder\<close>

record encoder_data_t =
  enc_pos :: u16 \<comment> \<open>\<open>int16_t\<close>, read with \<open>sint\<close>\<close>
  enc_state :: u8

definition ROTARY_ENCODER_NUM :: nat where "ROTARY_ENCODER_NUM = 2"

definition state_change :: "encoder_data_t \<Rightarrow> bool \<Rightarrow> bool \<Rightarrow> encoder_data_t" where
  "state_change d astate bstate =
     (let s0 = push_bit 2 (enc_state d);
          s1 = (if astate then s0 OR 0x02 else s0);
          s2 = (if bstate then s1 OR 0x01 else s1);
          d1 = d\<lparr>enc_state := s2\<rparr>
      in if s2 AND 0x0F \<in> {0x01, 0x07, 0x08, 0x0E} then d1\<lparr>enc_pos := enc_pos d1 + 1\<rparr>
         else if s2 AND 0x0F \<in> {0x02, 0x04, 0x0B, 0x0D} then d1\<lparr>enc_pos := enc_pos d1 - 1\<rparr>
         else d1)"

section \<open>Interrupts\<close>

record encoder_sys =
  enc_gpio :: gpio
  encoder_data :: "encoder_data_t list"

abbreviation "ROTARY_ENCODER_A_A_BV \<equiv> GPIO_Pin 4"
abbreviation "ROTARY_ENCODER_A_B_BV \<equiv> GPIO_Pin 6"
abbreviation "ROTARY_ENCODER_B_A_BV \<equiv> GPIO_Pin 3"
abbreviation "ROTARY_ENCODER_B_B_BV \<equiv> GPIO_Pin 1"

definition encoder_hw_init :: "gpio \<Rightarrow> gpio" where
  "encoder_hw_init g0 =
     (let ga = g0\<lparr>PA := key_line (key_line (PA g0) ROTARY_ENCODER_A_A_BV) ROTARY_ENCODER_A_B_BV\<rparr>;
          gb = ga\<lparr>PB := key_line (key_line (PB ga) ROTARY_ENCODER_B_A_BV) ROTARY_ENCODER_B_B_BV\<rparr>
      in GPIOB_ITModeCfg (GPIOA_ITModeCfg gb ROTARY_ENCODER_A_A_BV GPIO_ITMode_FallEdge)
           ROTARY_ENCODER_B_A_BV GPIO_ITMode_FallEdge)"

definition encoder_read_pos :: "encoder_sys \<Rightarrow> u8 \<Rightarrow> int" where
  "encoder_read_pos s i =
     (if unat i \<ge> ROTARY_ENCODER_NUM then 0 else sint (enc_pos (encoder_data s ! unat i)))"

definition GPIOA_IRQHandler :: "encoder_sys \<Rightarrow> encoder_sys" where
  "GPIOA_IRQHandler s =
     (let g = enc_gpio s; flag = GPIOA_ReadITFlagPort g;
          s1 = (if flag AND ucast ROTARY_ENCODER_A_A_BV \<noteq> 0 then
             let astat = (P_PIN (PA g) AND ROTARY_ENCODER_A_A_BV \<noteq> 0);
                 bstat = (P_PIN (PA g) AND ROTARY_ENCODER_A_B_BV \<noteq> 0)
             in s\<lparr>encoder_data := (encoder_data s)[0 := state_change (encoder_data s ! 0) astat bstat],
                  enc_gpio := GPIOA_ITModeCfg g ROTARY_ENCODER_A_A_BV
                    (if astat then GPIO_ITMode_FallEdge else GPIO_ITMode_RiseEdge)\<rparr>
           else s)
      in s1\<lparr>enc_gpio := (enc_gpio s1)\<lparr>PA := GPIO_ClearITFlagBit (PA (enc_gpio s1)) flag\<rparr>\<rparr>)"

definition GPIOB_IRQHandler :: "encoder_sys \<Rightarrow> encoder_sys" where
  "GPIOB_IRQHandler s =
     (let g = enc_gpio s; flag = (ucast (GPIOB_ReadITFlagPort g) :: u16);
          s1 = (if flag AND ucast ROTARY_ENCODER_B_A_BV \<noteq> 0 then
             let astat = (P_PIN (PB g) AND ROTARY_ENCODER_B_A_BV \<noteq> 0);
                 bstat = (P_PIN (PB g) AND ROTARY_ENCODER_B_B_BV \<noteq> 0)
             in s\<lparr>encoder_data := (encoder_data s)[1 := state_change (encoder_data s ! 1) astat bstat],
                  enc_gpio := GPIOB_ITModeCfg g ROTARY_ENCODER_B_A_BV
                    (if astat then GPIO_ITMode_FallEdge else GPIO_ITMode_RiseEdge)\<rparr>
           else s)
      in s1\<lparr>enc_gpio := (enc_gpio s1)\<lparr>PB := GPIO_ClearITFlagBit (PB (enc_gpio s1))
           (pb_int_mask (ucast flag))\<rparr>\<rparr>)"

section \<open>Quadrature signals\<close>

text \<open>
  The four phases of a turn in the clockwise order of the table in the source, and their signals.
\<close>

datatype phase = Ph0 | Ph1 | Ph2 | Ph3

fun cw :: "phase \<Rightarrow> phase" where
  "cw Ph0 = Ph1" | "cw Ph1 = Ph2" | "cw Ph2 = Ph3" | "cw Ph3 = Ph0"

fun ccw :: "phase \<Rightarrow> phase" where
  "ccw Ph0 = Ph3" | "ccw Ph1 = Ph0" | "ccw Ph2 = Ph1" | "ccw Ph3 = Ph2"

fun sigA :: "phase \<Rightarrow> bool" where
  "sigA Ph0 = False" | "sigA Ph1 = False" | "sigA Ph2 = True" | "sigA Ph3 = True"

fun sigB :: "phase \<Rightarrow> bool" where
  "sigB Ph0 = False" | "sigB Ph1 = True" | "sigB Ph2 = True" | "sigB Ph3 = False"

definition turn :: "bool \<Rightarrow> phase \<Rightarrow> phase" where
  "turn right ph = (if right then cw ph else ccw ph)"

definition phase_bits :: "phase \<Rightarrow> u8" where
  "phase_bits ph = (if sigA ph then 0x02 else 0) OR (if sigB ph then 0x01 else 0)"

text \<open>Only the last pair of signals matters for the next step.\<close>

definition synced :: "encoder_data_t \<Rightarrow> phase \<Rightarrow> bool" where
  "synced d ph \<longleftrightarrow> enc_state d AND 0x03 = phase_bits ph"

lemma and_3_mask: "s AND 0x03 = take_bit 2 s" for s :: u8
  by (simp add: take_bit_eq_mask mask_numeral)

lemma and_15_mask: "s AND 0x0F = take_bit 4 s" for s :: u8
  by (simp add: take_bit_eq_mask mask_numeral)

lemma shift_nibble: "push_bit 2 (s :: u8) AND 0x0F = push_bit 2 (s AND 0x03)"
  unfolding and_3_mask and_15_mask take_bit_push_bit by simp

lemma shift_low: "push_bit 2 (s :: u8) AND 0x03 = 0"
  unfolding and_3_mask take_bit_push_bit by simp

lemma nibble:
  "(push_bit 2 s OR x) AND 0x0F = push_bit 2 (s AND 0x03) OR (x AND 0x0F)" for s :: u8
  by (simp only: bit.conj_disj_distrib2 shift_nibble)

lemma low_pair: "(push_bit 2 s OR x) AND 0x03 = x AND 0x03" for s :: u8
  by (simp only: bit.conj_disj_distrib2 shift_low or.left_neutral)

lemma state_change_state:
  "enc_state (state_change d a b) =
     push_bit 2 (enc_state d) OR ((if a then 0x02 else 0) OR (if b then 0x01 else 0))"
  by (simp add: state_change_def Let_def or.assoc)

lemma state_change_synced: "synced (state_change d (sigA ph) (sigB ph)) ph"
  unfolding synced_def state_change_state low_pair by (cases ph) (simp_all add: phase_bits_def)

text \<open>What one observed pair of phases counts.\<close>

definition counts :: "phase \<Rightarrow> phase \<Rightarrow> int" where
  "counts p q = (if q = cw p then 1 else if q = ccw p then - 1 else 0)"

lemma state_change_pos:
  assumes "synced d p"
  shows "enc_pos (state_change d (sigA q) (sigB q)) = enc_pos d + of_int (counts p q)"
proof -
  have n: "enc_state (state_change d (sigA q) (sigB q)) AND 0x0F =
    push_bit 2 (phase_bits p) OR (phase_bits q AND 0x0F)"
    using assms unfolding state_change_state nibble synced_def by (simp add: phase_bits_def)
  have s: "enc_pos (state_change d (sigA q) (sigB q)) =
    (let s2 = enc_state (state_change d (sigA q) (sigB q)) AND 0x0F in
     if s2 \<in> {0x01, 0x07, 0x08, 0x0E} then enc_pos d + 1
     else if s2 \<in> {0x02, 0x04, 0x0B, 0x0D} then enc_pos d - 1 else enc_pos d)"
    by (simp add: state_change_def Let_def)
  show ?thesis
    unfolding s n by (cases p; cases q) (simp_all add: phase_bits_def counts_def)
qed


section \<open>The shaft and its interrupts\<close>

text \<open>The decoder fed with every phase the shaft goes through; \<open>True\<close> is a clockwise step.\<close>

fun observe :: "encoder_data_t \<Rightarrow> phase \<Rightarrow> bool list \<Rightarrow> encoder_data_t" where
  "observe d ph [] = d"
| "observe d ph (r # rs) =
     observe (state_change d (sigA (turn r ph)) (sigB (turn r ph))) (turn r ph) rs"

lemma counts_turn: "counts ph (turn r ph) = (if r then 1 else - 1)"
  by (cases ph; cases r) (simp_all add: counts_def turn_def)

definition set_pin :: "u32 \<Rightarrow> nat \<Rightarrow> bool \<Rightarrow> u32" where
  "set_pin x n b = (if b then x OR BV n else x AND NOT (BV n))"

lemma bit_set_pin: "bit (set_pin x n b) k \<longleftrightarrow> (if k = n \<and> n < 32 then b else bit x k)"
  by (auto simp: set_pin_def bit_simps bit_BV bit_u32_lt)

text \<open>
  The shaft of encoder A moves one phase: its two lines take the new levels, and if the change of
  line A is the edge that pin 4 is armed for, its flag is raised and the handler runs.
\<close>

definition step_shaft :: "bool \<Rightarrow> encoder_sys \<times> phase \<Rightarrow> encoder_sys \<times> phase" where
  "step_shaft r sp =
     (let s = fst sp; p = snd sp; q = turn r p; pa = PA (enc_gpio s);
          pa1 = pa\<lparr>P_PIN := set_pin (set_pin (P_PIN pa) 4 (sigA q)) 6 (sigB q)\<rparr>;
          edge = (bit (P_INT_EN pa) 4 \<and> bit (P_INT_MODE pa) 4 \<and> sigA p \<noteq> sigA q \<and>
                  sigA q = bit (P_OUT pa) 4)
      in if edge
         then (GPIOA_IRQHandler (s\<lparr>enc_gpio := (enc_gpio s)\<lparr>PA := pa1\<lparr>P_INT_IF := P_INT_IF pa OR 0x10\<rparr>\<rparr>\<rparr>), q)
         else (s\<lparr>enc_gpio := (enc_gpio s)\<lparr>PA := pa1\<rparr>\<rparr>, q))"

text \<open>Pin 4 is enabled on the edge \<open>rise\<close>, with no flag pending.\<close>

definition armed :: "bool \<Rightarrow> encoder_sys \<Rightarrow> bool" where
  "armed rise s \<longleftrightarrow> bit (P_INT_EN (PA (enc_gpio s))) 4 \<and> bit (P_INT_MODE (PA (enc_gpio s))) 4 \<and>
     (bit (P_OUT (PA (enc_gpio s))) 4 = rise) \<and> \<not> bit (P_INT_IF (PA (enc_gpio s))) 4 \<and>
     length (encoder_data s) = 2"

lemma ucast_BV4: "(ucast (BV 4) :: u16) = 0x10"
  by (simp add: BV_def)

lemma and_10: "((x :: u16) AND 0x10 \<noteq> 0) = bit x 4"
  using and_exp_eq_0_iff_not_bit [of x 4] by simp

lemma bit_10: "bit (0x10 :: u16) k \<longleftrightarrow> k = 4"
proof -
  have "(0x10 :: u16) = 2 ^ 4" by simp
  then show ?thesis by (simp only: bit_exp_iff) auto
qed

lemma step_shaft_seen:
  assumes "armed e s" and "sigA p \<noteq> sigA (turn r p)" and "sigA (turn r p) = e"
  shows "snd (step_shaft r (s, p)) = turn r p"
    and "armed (\<not> e) (fst (step_shaft r (s, p)))"
    and "encoder_data (fst (step_shaft r (s, p))) ! 0 =
      state_change (encoder_data s ! 0) (sigA (turn r p)) (sigB (turn r p))"
  using assms
  by (auto simp: step_shaft_def armed_def Let_def GPIOA_IRQHandler_def GPIOA_ReadITFlagPort_def
      ucast_BV4 and_10 bit_10 and_BV_eq_0 bit_set_pin GPIOA_ITModeCfg_def GPIO_ITModeCfg_def
      GPIO_SetBits_def GPIO_ResetBits_def GPIO_ClearITFlagBit_def bit_simps bit_BV)

lemma step_shaft_unseen:
  assumes "armed e s" and "sigA p = sigA (turn r p) \<or> sigA (turn r p) \<noteq> e"
  shows "snd (step_shaft r (s, p)) = turn r p"
    and "armed e (fst (step_shaft r (s, p)))"
    and "encoder_data (fst (step_shaft r (s, p))) = encoder_data s"
  using assms by (auto simp: step_shaft_def armed_def Let_def)

section \<open>Steady rotation\<close>

text \<open>
  What a rotation in one direction keeps. Turning right, line A rises in phase 2 and falls in
  phase 0; turning left it falls in phase 1 and rises in phase 3. Two such phases are opposite, and
  the decoder takes a step between opposite phases for an invalid one.
\<close>

definition steady :: "bool \<Rightarrow> encoder_sys \<times> phase \<Rightarrow> bool" where
  "steady r sp \<longleftrightarrow> (let s = fst sp; p = snd sp; d = encoder_data s ! 0 in
     (enc_pos d = 0 \<and> armed False s \<and> synced d Ph0) \<or>
     (enc_pos d = (if r then 0 else 1) \<and> armed (\<not> sigA p) s \<and>
      synced d (if r then (if sigA p then Ph2 else Ph0) else (if sigA p then Ph3 else Ph1))))"

lemma sigA_turn:
  "sigA p \<noteq> sigA (turn r p) \<Longrightarrow>
   turn r p = (if r then (if sigA (turn r p) then Ph2 else Ph0)
               else (if sigA (turn r p) then Ph3 else Ph1))"
  by (cases p; cases r) (simp_all add: turn_def)

lemma steady_step:
  assumes "steady r sp"
  shows "steady r (step_shaft r sp)"
proof -
  obtain s p where sp: "sp = (s, p)" by (cases sp)
  let ?q = "turn r p" and ?s' = "fst (step_shaft r (s, p))"
  define e where "e = bit (P_OUT (PA (enc_gpio s))) 4"
  have armed: "armed e s" using assms by (auto simp: steady_def sp armed_def e_def Let_def)
  show ?thesis
  proof (cases "sigA p \<noteq> sigA ?q \<and> sigA ?q = e")
    case True
    note seen = step_shaft_seen [OF armed conjunct1 [OF True] conjunct2 [OF True]]
    have pos: "enc_pos (encoder_data ?s' ! 0) = enc_pos (encoder_data s ! 0) + of_int (counts x ?q)"
      if "synced (encoder_data s ! 0) x" for x
      unfolding seen(3) by (rule state_change_pos [OF that])
    have "enc_pos (encoder_data ?s' ! 0) = (if r then 0 else 1)"
      using assms True pos sigA_turn [of p r]
      by (cases r; cases p) (auto simp: steady_def sp Let_def turn_def counts_def armed_def e_def)
    moreover have "synced (encoder_data ?s' ! 0) ?q"
      unfolding seen(3) by (rule state_change_synced)
    ultimately show ?thesis
      using True seen sigA_turn [of p r] by (auto simp: steady_def sp Let_def)
  next
    case False
    then show ?thesis
      using assms step_shaft_unseen [OF armed, of p r]
      by (auto simp: steady_def sp Let_def armed_def e_def)
  qed
qed

interpretation right: machine "\<lambda>sp (_ :: unit). step_shaft True sp" "steady True"
  by unfold_locales (rule steady_step)

interpretation left: machine "\<lambda>sp (_ :: unit). step_shaft False sp" "steady False"
  by unfold_locales (rule steady_step)

lemma funpow_foldl: "(f ^^ n) x = foldl (\<lambda>y (_ :: unit). f y) x (replicate n ())"
  by (induction n arbitrary: x) (simp_all add: funpow_Suc_right del: funpow.simps(2))

lemma steady_run: "steady r sp \<Longrightarrow> steady r ((step_shaft r ^^ n) sp)"
  unfolding funpow_foldl by (cases r) (simp_all add: right.run_invar left.run_invar)

definition encoder_start :: "gpio \<Rightarrow> encoder_sys" where
  "encoder_start g = \<lparr>enc_gpio = encoder_hw_init g,
     encoder_data = replicate 2 \<lparr>enc_pos = 0, enc_state = 0\<rparr>\<rparr>"

lemma encoder_start_steady: "\<not> bit (P_INT_IF (PA g)) 4 \<Longrightarrow> steady r (encoder_start g, p)"
  by (simp add: steady_def Let_def encoder_start_def armed_def synced_def phase_bits_def
      encoder_hw_init_def GPIOB_ITModeCfg_def GPIOA_ITModeCfg_def GPIO_ITModeCfg_def
      GPIO_ResetBits_def GPIO_ClearITFlagBit_def key_line_def ucast_BV4 bit_simps bit_10 bit_BV)

section \<open>Properties\<close>

text \<open>
  C29: The decoder counts right: shown every phase, it adds one to the position for each clockwise
  step and subtracts one for each counter-clockwise step, wrapping at 16 bits.
\<close>

theorem decoder_counts_every_step:
  assumes "synced d ph"
  shows "enc_pos (observe d ph rs) =
    enc_pos d + of_int (\<Sum>r\<leftarrow>rs. if r then 1 else - 1)"
  using assms
proof (induction rs arbitrary: d ph)
  case Nil
  then show ?case by simp
next
  case (Cons r rs)
  then show ?case
    using Cons.IH [OF state_change_synced] state_change_pos [OF Cons.prems, of "turn r ph"]
    by (simp add: counts_turn algebra_simps)
qed

theorem decoder_counts_every_step_witness:
  "enc_pos (observe \<lparr>enc_pos = 5, enc_state = 0\<rparr> Ph0 [True, True, True, False, True]) = 8"
  using decoder_counts_every_step [of "\<lparr>enc_pos = 5, enc_state = 0\<rparr>" Ph0
      "[True, True, True, False, True]"]
  by (simp add: synced_def phase_bits_def)

text \<open>
  Fed by its interrupt handler the decoder does not see every phase: from power-up, turning
  the shaft of encoder A any number of steps in one direction leaves the position reported to the
  application at 0 (to the right) or at most 1 (to the left).
\<close>

theorem steady_rotation_not_counted:
  assumes "\<not> bit (P_INT_IF (PA g)) 4"
  shows "encoder_read_pos (fst ((step_shaft True ^^ n) (encoder_start g, p))) 0 = 0 \<and>
    encoder_read_pos (fst ((step_shaft False ^^ n) (encoder_start g, p))) 0 \<in> {0, 1}"
  using steady_run [OF encoder_start_steady [OF assms, where p = p], where r = True and n = n]
    steady_run [OF encoder_start_steady [OF assms, where p = p], where r = False and n = n]
  by (auto simp: steady_def Let_def encoder_read_pos_def ROTARY_ENCODER_NUM_def)

definition reset_port :: gpio_port where
  "reset_port = \<lparr>P_PIN = 0, P_OUT = 0, P_PD_DRV = 0, P_PU = 0, P_DIR = 0, P_INT_EN = 0,
     P_INT_MODE = 0, P_INT_IF = 0\<rparr>"

theorem steady_rotation_not_counted_witness:
  "encoder_read_pos (fst ((step_shaft True ^^ 400)
     (encoder_start \<lparr>PA = reset_port, PB = reset_port\<rparr>, Ph3))) 0 = 0"
  using steady_rotation_not_counted [of "\<lparr>PA = reset_port, PB = reset_port\<rparr>" 400 Ph3]
  by (simp add: reset_port_def)

end
