(* ===== verification/Params.thy ===== *)
theory Params
  imports Prelude
begin

text \<open>
  The persistent parameters (\<open>Firmware/applications/params.c\<close> and
  \<open>Receiver/applications/params.c\<close>): a struct that is saved to the data flash as its memory
  image, with a sum over all but its last four bytes. The flash routine is a binary library, so it
  is a parameter: a record of the three commands the code calls, with the documented behaviour as
  the hypothesis \<open>flash_ok\<close>.
\<close>

section \<open>The data flash\<close>

record 'e flash_ops =
  EEPROM_READ :: "'e \<Rightarrow> nat \<Rightarrow> nat \<Rightarrow> u8 \<times> u8 list"
  EEPROM_ERASE :: "'e \<Rightarrow> nat \<Rightarrow> nat \<Rightarrow> 'e"
  EEPROM_WRITE :: "'e \<Rightarrow> nat \<Rightarrow> u8 list \<Rightarrow> u8 \<times> 'e"

definition EEPROM_BLOCK_SIZE :: nat where "EEPROM_BLOCK_SIZE = 4096"
definition EEPROM_USER_START_ADDR :: nat where "EEPROM_USER_START_ADDR = 0"

text \<open>
  The documented behaviour: a read delivers as many bytes as asked for, and a read of a range that
  was written after its block was erased succeeds and delivers what was written.
\<close>

definition flash_ok :: "'e flash_ops \<Rightarrow> bool" where
  "flash_ok f \<longleftrightarrow>
     (\<forall>e a n. length (snd (EEPROM_READ f e a n)) = n) \<and>
     (\<forall>e a bs. fst (EEPROM_WRITE f (EEPROM_ERASE f e a EEPROM_BLOCK_SIZE) a bs) = 0 \<longrightarrow>
        EEPROM_READ f (snd (EEPROM_WRITE f (EEPROM_ERASE f e a EEPROM_BLOCK_SIZE) a bs)) a (length bs)
        = (0, bs))"

definition RT_EOK :: nat where "RT_EOK = 0"
definition RT_ERROR :: nat where "RT_ERROR = 1"

section \<open>The parameters of the controller\<close>

definition PARAMS_MAGIC :: u16 where "PARAMS_MAGIC = 0x4643"
definition MAX_RC_CHANNELS :: nat where "MAX_RC_CHANNELS = 8"
definition JOYSTICK_ADC_MAX_CHANNELS :: nat where "JOYSTICK_ADC_MAX_CHANNELS = 4"
definition RADIO_RANGE_MAX_VALUE :: u16 where "RADIO_RANGE_MAX_VALUE = 3500"
definition RADIO_RANGE_MID_VALUE :: u16 where "RADIO_RANGE_MID_VALUE = 2500"
definition RADIO_RANGE_MIN_VALUE :: u16 where "RADIO_RANGE_MIN_VALUE = 1500"

lemmas range_defs = RADIO_RANGE_MAX_VALUE_def RADIO_RANGE_MID_VALUE_def RADIO_RANGE_MIN_VALUE_def

record params_t =
  pr_magic :: u16
  pr_mode :: u8
  pr_calibraed :: u8
  pr_product_id :: u16
  pr_min_value :: "u16 list"
  pr_mid_value :: "u16 list"
  pr_max_value :: "u16 list"
  pr_pad :: "u8 list" \<comment> \<open>two bytes that align the next field\<close>
  pr_checksum :: u32

definition params_wf :: "params_t \<Rightarrow> bool" where
  "params_wf p \<longleftrightarrow> length (pr_min_value p) = MAX_RC_CHANNELS \<and>
     length (pr_mid_value p) = MAX_RC_CHANNELS \<and> length (pr_max_value p) = MAX_RC_CHANNELS \<and>
     length (pr_pad p) = 2"

text \<open>
  \<open>(uint8_t * )params\<close>: the little-endian image, 60 bytes, of which the first 56 are summed.
\<close>

definition params_head :: "params_t \<Rightarrow> u8 list" where
  "params_head p = u16_bytes (pr_magic p) @ [pr_mode p, pr_calibraed p] @ u16_bytes (pr_product_id p) @
     u16s_bytes (pr_min_value p) @ u16s_bytes (pr_mid_value p) @ u16s_bytes (pr_max_value p) @ pr_pad p"

definition params_bytes :: "params_t \<Rightarrow> u8 list" where
  "params_bytes p = params_head p @ u32_bytes (pr_checksum p)"

definition params_of_bytes :: "u8 list \<Rightarrow> params_t" where
  "params_of_bytes b =
     \<lparr>pr_magic = u16_of (b ! 0) (b ! 1), pr_mode = b ! 2, pr_calibraed = b ! 3,
      pr_product_id = u16_of (b ! 4) (b ! 5),
      pr_min_value = u16s_of (take 16 (drop 6 b)), pr_mid_value = u16s_of (take 16 (drop 22 b)),
      pr_max_value = u16s_of (take 16 (drop 38 b)), pr_pad = take 2 (drop 54 b),
      pr_checksum = u32_of (b ! 56) (b ! 57) (b ! 58) (b ! 59)\<rparr>"

definition sizeof_params :: nat where "sizeof_params = 60"

fun checksum :: "u8 list \<Rightarrow> nat \<Rightarrow> u32 option" where
  "checksum xs 0 = Some 0"
| "checksum [] (Suc n) = None"
| "checksum (x # xs) (Suc n) = map_option (\<lambda>s. ucast x + s) (checksum xs n)"

definition params_load :: "'e flash_ops \<Rightarrow> 'e \<Rightarrow> nat \<times> params_t" where
  "params_load f e =
     (let (r, bs) = EEPROM_READ f e EEPROM_USER_START_ADDR sizeof_params
      in (if r \<noteq> 0 then RT_ERROR else RT_EOK, params_of_bytes bs))"

definition params_save :: "'e flash_ops \<Rightarrow> 'e \<Rightarrow> params_t \<Rightarrow> (u8 \<times> params_t \<times> 'e) option" where
  "params_save f e p = do {
     c \<leftarrow> checksum (params_bytes p) (sizeof_params - 4);
     let p1 = p\<lparr>pr_checksum := c\<rparr>;
     let e1 = EEPROM_ERASE f e EEPROM_USER_START_ADDR EEPROM_BLOCK_SIZE;
     let (r, e2) = EEPROM_WRITE f e1 EEPROM_USER_START_ADDR (params_bytes p1);
     Some (r, p1, e2)
   }"

text \<open>The loop over the stick channels; the fields are promoted to \<open>int\<close> before the difference.\<close>

fun ranges_valid :: "params_t \<Rightarrow> nat \<Rightarrow> nat \<Rightarrow> bool option" where
  "ranges_valid p i 0 = Some True"
| "ranges_valid p i (Suc n) = do {
     mn \<leftarrow> arr_get (pr_min_value p) i;
     mx \<leftarrow> arr_get (pr_max_value p) i;
     if unat mn < 100 \<or> unat mx > 4095 then Some False
     else if \<bar>int (unat mx) - int (unat mn)\<bar> < 500 then Some False
     else ranges_valid p (i + 1) n
   }"

definition params_is_valid :: "params_t \<Rightarrow> nat option" where
  "params_is_valid p =
     (if pr_magic p \<noteq> PARAMS_MAGIC then Some RT_ERROR
      else do {
        ok \<leftarrow> ranges_valid p 0 JOYSTICK_ADC_MAX_CHANNELS;
        if \<not> ok then Some RT_ERROR
        else do {
          cks \<leftarrow> checksum (params_bytes p) (sizeof_params - 4);
          if pr_checksum p \<noteq> cks then Some RT_ERROR else Some RT_EOK
        }
      })"

text \<open>The loop of \<open>params_load_default\<close>: stick channels first, then the others.\<close>

fun default_ranges :: "params_t \<Rightarrow> nat \<Rightarrow> nat \<Rightarrow> params_t option" where
  "default_ranges p i 0 = Some p"
| "default_ranges p i (Suc n) =
     (if i < JOYSTICK_ADC_MAX_CHANNELS then do {
        mn \<leftarrow> arr_set (pr_min_value p) i RADIO_RANGE_MIN_VALUE;
        md \<leftarrow> arr_set (pr_mid_value p) i RADIO_RANGE_MID_VALUE;
        mx \<leftarrow> arr_set (pr_max_value p) i RADIO_RANGE_MAX_VALUE;
        default_ranges (p\<lparr>pr_min_value := mn, pr_mid_value := md, pr_max_value := mx\<rparr>) (i + 1) n
      } else do {
        mn \<leftarrow> arr_set (pr_min_value p) i 1000;
        mx \<leftarrow> arr_set (pr_max_value p) i 2000;
        default_ranges (p\<lparr>pr_min_value := mn, pr_max_value := mx\<rparr>) (i + 1) n
      })"

definition params_load_default :: "'e flash_ops \<Rightarrow> 'e \<Rightarrow> params_t \<Rightarrow> (params_t \<times> 'e) option" where
  "params_load_default f e p = do {
     p1 \<leftarrow> default_ranges (p\<lparr>pr_magic := PARAMS_MAGIC\<rparr>) 0 MAX_RC_CHANNELS;
     (r, p2, e1) \<leftarrow> params_save f e p1;
     Some (p2, e1)
   }"

definition params_init :: "'e flash_ops \<Rightarrow> 'e \<Rightarrow> (nat \<times> params_t \<times> 'e) option" where
  "params_init f e = do {
     let p = snd (params_load f e);
     v \<leftarrow> params_is_valid p;
     if v \<noteq> RT_EOK \<or> pr_calibraed p = 0
     then do {
       (p1, e1) \<leftarrow> params_load_default f e p;
       Some (RT_ERROR, p1\<lparr>pr_calibraed := 0\<rparr>, e1)
     }
     else Some (RT_EOK, p, e)
   }"

section \<open>The parameters of the receiver\<close>

record rx_params_t =
  rp_magic :: u32
  rp_mode :: u8
  rp_bind :: u8
  rp_product_id :: u16
  rp_checksum :: u32

definition rx_PARAMS_MAGIC :: u32 where "rx_PARAMS_MAGIC = 0x4643"
definition sizeof_rx_params :: nat where "sizeof_rx_params = 12"

definition rx_params_bytes :: "rx_params_t \<Rightarrow> u8 list" where
  "rx_params_bytes p = u32_bytes (rp_magic p) @ [rp_mode p, rp_bind p] @
     u16_bytes (rp_product_id p) @ u32_bytes (rp_checksum p)"

definition rx_params_of_bytes :: "u8 list \<Rightarrow> rx_params_t" where
  "rx_params_of_bytes b =
     \<lparr>rp_magic = u32_of (b ! 0) (b ! 1) (b ! 2) (b ! 3), rp_mode = b ! 4, rp_bind = b ! 5,
      rp_product_id = u16_of (b ! 6) (b ! 7),
      rp_checksum = u32_of (b ! 8) (b ! 9) (b ! 10) (b ! 11)\<rparr>"

fun rx_checksum :: "u8 list \<Rightarrow> nat \<Rightarrow> u32 option" where
  "rx_checksum xs 0 = Some 0"
| "rx_checksum [] (Suc n) = None"
| "rx_checksum (x # xs) (Suc n) = map_option (\<lambda>s. ucast x + s) (rx_checksum xs n)"

definition rx_params_load :: "'e flash_ops \<Rightarrow> 'e \<Rightarrow> nat \<times> rx_params_t" where
  "rx_params_load f e =
     (let (r, bs) = EEPROM_READ f e EEPROM_USER_START_ADDR sizeof_rx_params
      in (if r \<noteq> 0 then RT_ERROR else RT_EOK, rx_params_of_bytes bs))"

definition rx_params_save :: "'e flash_ops \<Rightarrow> 'e \<Rightarrow> rx_params_t \<Rightarrow> (u8 \<times> rx_params_t \<times> 'e) option" where
  "rx_params_save f e p = do {
     c \<leftarrow> rx_checksum (rx_params_bytes p) (sizeof_rx_params - 4);
     let p1 = p\<lparr>rp_checksum := c\<rparr>;
     let e1 = EEPROM_ERASE f e EEPROM_USER_START_ADDR EEPROM_BLOCK_SIZE;
     let (r, e2) = EEPROM_WRITE f e1 EEPROM_USER_START_ADDR (rx_params_bytes p1);
     Some (r, p1, e2)
   }"

definition rx_params_is_valid :: "rx_params_t \<Rightarrow> nat option" where
  "rx_params_is_valid p =
     (if rp_magic p \<noteq> rx_PARAMS_MAGIC then Some RT_ERROR
      else do {
        cks \<leftarrow> rx_checksum (rx_params_bytes p) (sizeof_rx_params - 4);
        if rp_checksum p \<noteq> cks then Some RT_ERROR else Some RT_EOK
      })"

definition rx_params_load_default :: "'e flash_ops \<Rightarrow> 'e \<Rightarrow> rx_params_t \<Rightarrow> (rx_params_t \<times> 'e) option" where
  "rx_params_load_default f e p = do {
     (r, p1, e1) \<leftarrow> rx_params_save f e (p\<lparr>rp_magic := rx_PARAMS_MAGIC\<rparr>);
     Some (p1, e1)
   }"

definition rx_params_init :: "'e flash_ops \<Rightarrow> 'e \<Rightarrow> (nat \<times> rx_params_t \<times> 'e) option" where
  "rx_params_init f e = do {
     let p = snd (rx_params_load f e);
     v \<leftarrow> rx_params_is_valid p;
     if v \<noteq> RT_EOK
     then do {
       (p1, e1) \<leftarrow> rx_params_load_default f e p;
       Some (RT_ERROR, p1, e1)
     }
     else Some (RT_EOK, p, e)
   }"


section \<open>Images and sums\<close>

lemma checksum_sum: "n \<le> length xs \<Longrightarrow> checksum xs n = Some (\<Sum>x\<leftarrow>take n xs. ucast x)"
  by (induction xs n rule: checksum.induct) auto

lemma length_u16_bytes [simp]: "length (u16_bytes x) = 2"
  by (simp add: u16_bytes_def)

lemma length_u32_bytes [simp]: "length (u32_bytes x) = 4"
  by (simp add: u32_bytes_def)

lemma length_head: "params_wf p \<Longrightarrow> length (params_head p) = 56"
  by (simp add: params_head_def params_wf_def MAX_RC_CHANNELS_def)

lemma length_bytes: "params_wf p \<Longrightarrow> length (params_bytes p) = 60"
  by (simp add: params_bytes_def length_head)

lemma params_checksum_head:
  "params_wf p \<Longrightarrow> checksum (params_bytes p) (sizeof_params - 4) = Some (\<Sum>x\<leftarrow>params_head p. ucast x)"
  using checksum_sum [of 56 "params_bytes p"]
  by (simp add: length_bytes length_head sizeof_params_def params_bytes_def)

lemma params_head_checksum [simp]: "params_head (p\<lparr>pr_checksum := c\<rparr>) = params_head p"
  by (simp add: params_head_def)

lemma params_wf_checksum [simp]: "params_wf (p\<lparr>pr_checksum := c\<rparr>) = params_wf p"
  by (simp add: params_wf_def)

lemma head_cons:
  "params_head p = ucast (pr_magic p) # ucast (drop_bit 8 (pr_magic p)) # pr_mode p # pr_calibraed p #
    ucast (pr_product_id p) # ucast (drop_bit 8 (pr_product_id p)) #
    u16s_bytes (pr_min_value p) @ u16s_bytes (pr_mid_value p) @ u16s_bytes (pr_max_value p) @ pr_pad p"
  by (simp add: params_head_def u16_bytes_def)

lemma params_of_bytes_bytes:
  assumes "params_wf p"
  shows "params_of_bytes (params_bytes p) = p"
proof -
  have l: "length (params_head p) = 56" by (rule length_head [OF assms])
  have w: "length (u16s_bytes (pr_min_value p)) = 16" "length (u16s_bytes (pr_mid_value p)) = 16"
    "length (u16s_bytes (pr_max_value p)) = 16" "length (pr_pad p) = 2"
    using assms by (simp_all add: params_wf_def MAX_RC_CHANNELS_def)
  have c: "params_bytes p ! 56 = ucast (pr_checksum p)"
    "params_bytes p ! 57 = ucast (drop_bit 8 (pr_checksum p))"
    "params_bytes p ! 58 = ucast (drop_bit 16 (pr_checksum p))"
    "params_bytes p ! 59 = ucast (drop_bit 24 (pr_checksum p))"
    using l by (simp_all add: params_bytes_def nth_append u32_bytes_def)
  show ?thesis
    unfolding params_of_bytes_def c
    using assms by (simp add: params_bytes_def head_cons w params_wf_def MAX_RC_CHANNELS_def)
qed

lemma list_pieces:
  "length b = 60 \<Longrightarrow> b = [b ! 0, b ! 1, b ! 2, b ! 3, b ! 4, b ! 5] @ take 16 (drop 6 b) @
     take 16 (drop 22 b) @ take 16 (drop 38 b) @ take 2 (drop 54 b) @ [b ! 56, b ! 57, b ! 58, b ! 59]"
proof -
  assume l: "length b = 60"
  have a: "take 6 b = [b ! 0, b ! 1, b ! 2, b ! 3, b ! 4, b ! 5]"
    using l by (intro nth_equalityI) (auto simp: less_Suc_eq numeral_eq_Suc)
  have z: "drop 56 b = [b ! 56, b ! 57, b ! 58, b ! 59]"
    using l by (intro nth_equalityI) (auto simp: less_Suc_eq numeral_eq_Suc)
  have "b = take 6 b @ take 16 (drop 6 b) @ take 16 (drop 16 (drop 6 b)) @
      take 16 (drop 16 (drop 16 (drop 6 b))) @ take 2 (drop 16 (drop 16 (drop 16 (drop 6 b)))) @
      drop 2 (drop 16 (drop 16 (drop 16 (drop 6 b))))"
    by (simp only: append_take_drop_id)
  then show ?thesis by (simp add: a z)
qed

lemma params_of_bytes_wf: "length b = 60 \<Longrightarrow> params_wf (params_of_bytes b)"
  by (simp add: params_wf_def params_of_bytes_def length_u16s_of MAX_RC_CHANNELS_def)

lemma params_bytes_of_bytes:
  assumes "length b = 60"
  shows "params_bytes (params_of_bytes b) = b"
  using list_pieces [OF assms] assms
  by (simp add: params_bytes_def params_head_def params_of_bytes_def u16_bytes_def u32_bytes_def
      u16s_bytes_of)

section \<open>Validity\<close>

definition range_ok :: "params_t \<Rightarrow> nat \<Rightarrow> bool" where
  "range_ok p i \<longleftrightarrow> 100 \<le> unat (pr_min_value p ! i) \<and> unat (pr_max_value p ! i) \<le> 4095 \<and>
     500 \<le> \<bar>int (unat (pr_max_value p ! i)) - int (unat (pr_min_value p ! i))\<bar>"

lemma ranges_valid_iff:
  "params_wf p \<Longrightarrow> i + n \<le> 8 \<Longrightarrow>
   ranges_valid p i n = Some (\<forall>k. i \<le> k \<and> k < i + n \<longrightarrow> range_ok p k)"
proof (induction n arbitrary: i)
  case 0
  then show ?case by auto
next
  case (Suc n)
  have len: "i < length (pr_min_value p)" "i < length (pr_max_value p)"
    using Suc.prems by (simp_all add: params_wf_def MAX_RC_CHANNELS_def)
  show ?case
    unfolding all_from_Suc using Suc.IH [of "Suc i"] Suc.prems len by (auto simp: range_ok_def)
qed

text \<open>The validity check is total on a loaded image and is exactly this conjunction.\<close>

definition params_valid :: "params_t \<Rightarrow> bool" where
  "params_valid p \<longleftrightarrow> pr_magic p = PARAMS_MAGIC \<and> (\<forall>k<4. range_ok p k) \<and>
     pr_checksum p = (\<Sum>x\<leftarrow>params_head p. ucast x)"

lemma is_valid_iff:
  "params_wf p \<Longrightarrow> params_is_valid p = Some (if params_valid p then RT_EOK else RT_ERROR)"
  by (auto simp: params_is_valid_def params_valid_def ranges_valid_iff params_checksum_head
      JOYSTICK_ADC_MAX_CHANNELS_def)

lemma save_spec:
  assumes "params_wf p"
  defines "p1 \<equiv> p\<lparr>pr_checksum := (\<Sum>x\<leftarrow>params_head p. ucast x)\<rparr>"
  shows "params_save f e p = (let w = EEPROM_WRITE f (EEPROM_ERASE f e 0 EEPROM_BLOCK_SIZE) 0 (params_bytes p1)
    in Some (fst w, p1, snd w))"
  using assms by (simp add: params_save_def params_checksum_head EEPROM_USER_START_ADDR_def Let_def split_beta)

lemma load_saved:
  assumes "flash_ok f" and "params_wf p" and "params_save f e p = Some (0, p1, e1)"
  shows "params_load f e1 = (RT_EOK, p1)" and "params_wf p1"
    and "p1 = p\<lparr>pr_checksum := (\<Sum>x\<leftarrow>params_head p. ucast x)\<rparr>"
proof -
  let ?p1 = "p\<lparr>pr_checksum := (\<Sum>x\<leftarrow>params_head p. ucast x)\<rparr>"
  let ?w = "EEPROM_WRITE f (EEPROM_ERASE f e 0 EEPROM_BLOCK_SIZE) 0 (params_bytes ?p1)"
  have s: "fst ?w = 0" "p1 = ?p1" "e1 = snd ?w"
    using assms(3) unfolding save_spec [OF assms(2)] Let_def by auto
  show "p1 = ?p1" by (rule s(2))
  show wf: "params_wf p1" using assms(2) s(2) by simp
  have "EEPROM_READ f e1 0 60 = (0, params_bytes p1)"
    using assms(1) s length_bytes [OF wf] unfolding flash_ok_def by metis
  then show "params_load f e1 = (RT_EOK, p1)"
    by (simp add: params_load_def EEPROM_USER_START_ADDR_def sizeof_params_def
        params_of_bytes_bytes [OF wf])
qed

section \<open>Defaults\<close>

lemma default_ranges_spec:
  assumes "params_wf p"
  shows "default_ranges p 0 MAX_RC_CHANNELS = Some (p\<lparr>
    pr_min_value := replicate 4 1500 @ replicate 4 1000,
    pr_mid_value := replicate 4 2500 @ drop 4 (pr_mid_value p),
    pr_max_value := replicate 4 3500 @ replicate 4 2000\<rparr>)"
proof -
  have eight: "\<exists>a b c d e f g h. xs = [a, b, c, d, e, f, g, h]" if "length xs = 8" for xs :: "u16 list"
    using that by (auto simp: length_Suc_conv numeral_eq_Suc)
  obtain a0 a1 a2 a3 a4 a5 a6 a7 where a: "pr_min_value p = [a0, a1, a2, a3, a4, a5, a6, a7]"
    using eight assms by (metis params_wf_def MAX_RC_CHANNELS_def)
  obtain b0 b1 b2 b3 b4 b5 b6 b7 where b: "pr_mid_value p = [b0, b1, b2, b3, b4, b5, b6, b7]"
    using eight assms by (metis params_wf_def MAX_RC_CHANNELS_def)
  obtain c0 c1 c2 c3 c4 c5 c6 c7 where c: "pr_max_value p = [c0, c1, c2, c3, c4, c5, c6, c7]"
    using eight assms by (metis params_wf_def MAX_RC_CHANNELS_def)
  show ?thesis
    by (simp add: a b c MAX_RC_CHANNELS_def JOYSTICK_ADC_MAX_CHANNELS_def range_defs numeral_eq_Suc
        arr_set_def)
qed


lemma default_init:
  assumes "params_wf p"
  shows "\<exists>p1 e1. params_load_default f e p = Some (p1, e1) \<and> params_wf p1 \<and> params_valid p1 \<and>
    pr_calibraed p1 = pr_calibraed p \<and>
    (\<forall>k<4. pr_min_value p1 ! k = 1500 \<and> pr_mid_value p1 ! k = 2500 \<and> pr_max_value p1 ! k = 3500) \<and>
    (\<exists>r. params_save f e (p1\<lparr>pr_checksum := pr_checksum p\<rparr>) = Some (r, p1, e1))"
proof -
  let ?p0 = "p\<lparr>pr_magic := PARAMS_MAGIC\<rparr>"
  let ?d = "?p0\<lparr>pr_min_value := replicate 4 1500 @ replicate 4 1000,
    pr_mid_value := replicate 4 2500 @ drop 4 (pr_mid_value ?p0),
    pr_max_value := replicate 4 3500 @ replicate 4 2000\<rparr>"
  let ?p1 = "?d\<lparr>pr_checksum := (\<Sum>x\<leftarrow>params_head ?d. ucast x)\<rparr>"
  have d: "default_ranges ?p0 0 MAX_RC_CHANNELS = Some ?d"
    by (rule default_ranges_spec) (use assms in \<open>simp add: params_wf_def\<close>)
  have wf: "params_wf ?d" using assms by (simp add: params_wf_def MAX_RC_CHANNELS_def)
  have r: "pr_min_value ?p1 ! k = 1500 \<and> pr_mid_value ?p1 ! k = 2500 \<and> pr_max_value ?p1 ! k = 3500"
    if "k < 4" for k
    using that assms by (simp add: nth_append params_wf_def MAX_RC_CHANNELS_def)
  then have v: "params_valid ?p1"
    by (auto simp: params_valid_def range_ok_def)
  obtain w e1 where s: "params_save f e ?d = Some (w, ?p1, e1)"
    using save_spec [OF wf, of f e] by (auto simp: Let_def)
  have "?p1\<lparr>pr_checksum := pr_checksum p\<rparr> = ?d" by simp
  then have "\<exists>r. params_save f e (?p1\<lparr>pr_checksum := pr_checksum p\<rparr>) = Some (r, ?p1, e1)"
    using s by metis
  moreover have "params_load_default f e p = Some (?p1, e1)"
    unfolding params_load_default_def d bind.bind_lunit s by simp
  moreover have "params_wf ?p1" using wf by simp
  moreover have "pr_calibraed ?p1 = pr_calibraed p" by simp
  ultimately show ?thesis using r v by blast
qed

lemma load_wf: "flash_ok f \<Longrightarrow> params_wf (snd (params_load f e))"
  by (simp add: params_load_def flash_ok_def split_beta params_of_bytes_wf sizeof_params_def)

section \<open>Properties\<close>

text \<open>A flash of bytes.\<close>

definition byte_flash :: "(nat \<Rightarrow> u8) flash_ops" where
  "byte_flash = \<lparr>EEPROM_READ = (\<lambda>e a n. (0, map e [a..<a + n])),
     EEPROM_ERASE = (\<lambda>e a n i. if a \<le> i \<and> i < a + n then 0xFF else e i),
     EEPROM_WRITE = (\<lambda>e a bs. (0, \<lambda>i. if a \<le> i \<and> i < a + length bs then bs ! (i - a) else e i))\<rparr>"

lemma byte_flash_ok: "flash_ok byte_flash"
  by (auto simp: flash_ok_def byte_flash_def intro!: nth_equalityI)

lemma byte_flash_write: "fst (EEPROM_WRITE byte_flash e a bs) = 0"
  by (simp add: byte_flash_def)

definition sample_params :: params_t where
  "sample_params = \<lparr>pr_magic = PARAMS_MAGIC, pr_mode = 0, pr_calibraed = 1, pr_product_id = 7,
     pr_min_value = replicate 8 1000, pr_mid_value = replicate 8 2000, pr_max_value = replicate 8 3000,
     pr_pad = [0, 0], pr_checksum = 0\<rparr>"

lemma sample_params_wf: "params_wf sample_params"
  by (simp add: sample_params_def params_wf_def MAX_RC_CHANNELS_def)

text \<open>
  C19: Round trip. If the flash write succeeds, the next load returns exactly the saved parameters,
  with their sum filled in, and they are valid if and only if magic and stick ranges are.
\<close>

theorem save_then_load:
  assumes "flash_ok f" and "params_wf p" and "params_save f e p = Some (0, p1, e1)"
  shows "params_load f e1 = (RT_EOK, p1) \<and>
    p1 = p\<lparr>pr_checksum := (\<Sum>x\<leftarrow>params_head p. ucast x)\<rparr> \<and>
    params_is_valid p1 =
      Some (if pr_magic p = PARAMS_MAGIC \<and> (\<forall>k<4. range_ok p k) then RT_EOK else RT_ERROR)"
  using load_saved [OF assms] is_valid_iff [of p1]
  by (simp add: params_valid_def range_ok_def)

theorem save_then_load_witness:
  "\<exists>p1 e1. params_save byte_flash (\<lambda>_. 0xFF) sample_params = Some (0, p1, e1) \<and>
    params_load byte_flash e1 = (RT_EOK, p1) \<and> params_is_valid p1 = Some RT_EOK"
proof -
  obtain p1 e1 where s: "params_save byte_flash (\<lambda>_. 0xFF) sample_params = Some (0, p1, e1)"
    by (simp add: save_spec [OF sample_params_wf] Let_def byte_flash_def)
  have "pr_magic sample_params = PARAMS_MAGIC" "\<forall>k<4. range_ok sample_params k"
    by (simp_all add: sample_params_def range_ok_def)
  then show ?thesis using s save_then_load [OF byte_flash_ok sample_params_wf s] by auto
qed

lemma sum_update:
  "i < length xs \<Longrightarrow> (\<Sum>x\<leftarrow>xs[i := v]. (ucast x :: u32)) = (\<Sum>x\<leftarrow>xs. ucast x) - ucast (xs ! i) + ucast v"
  for xs :: "u8 list"
  by (induction xs arbitrary: i) (auto split: nat.splits simp: algebra_simps)

lemma head_of_image: "length b = 60 \<Longrightarrow> params_head (params_of_bytes b) = take 56 b"
  and sum_of_image: "length b = 60 \<Longrightarrow> u32_bytes (pr_checksum (params_of_bytes b)) = drop 56 b"
proof -
  assume b: "length b = 60"
  have "params_head (params_of_bytes b) @ u32_bytes (pr_checksum (params_of_bytes b)) = take 56 b @ drop 56 b"
    using params_bytes_of_bytes [OF b] by (simp add: params_bytes_def)
  moreover have "length (params_head (params_of_bytes b)) = length (take 56 b)"
    using length_head [OF params_of_bytes_wf [OF b]] b by simp
  ultimately show "params_head (params_of_bytes b) = take 56 b"
    "u32_bytes (pr_checksum (params_of_bytes b)) = drop 56 b"
    by (metis append_eq_append_conv)+
qed

lemma u32_bytes_inject: "u32_bytes x = u32_bytes y \<Longrightarrow> x = y"
  unfolding u32_bytes_def list.inject by (metis u32_of_bytes)

lemma ucast_u8_inject: "(ucast (x :: u8) :: u32) = ucast y \<Longrightarrow> x = y"
proof (rule bit_word_eqI)
  fix n assume e: "(ucast x :: u32) = ucast y" and n: "n < LENGTH(8)"
  have "bit (ucast x :: u32) n = bit x n" "bit (ucast y :: u32) n = bit y n"
    using n by (simp_all add: bit_simps)
  then show "bit x n = bit y n" using e by simp
qed

text \<open>
  Error detection. Changing any single byte of the stored image of valid parameters makes them
  invalid at the next load.
\<close>

theorem byte_corruption_detected:
  assumes wf: "params_wf p" and valid: "params_is_valid p = Some RT_EOK"
    and i: "i < sizeof_params" and v: "v \<noteq> params_bytes p ! i"
  shows "params_is_valid (params_of_bytes ((params_bytes p)[i := v])) = Some RT_ERROR"
proof -
  let ?b = "params_bytes p" and ?q = "params_of_bytes ((params_bytes p)[i := v])"
  have len: "length (?b[i := v]) = 60" "length ?b = 60" using length_bytes [OF wf] by simp_all
  have sum: "pr_checksum p = (\<Sum>x\<leftarrow>take 56 ?b. ucast x)"
    using valid is_valid_iff [OF wf] length_head [OF wf]
    by (auto simp: params_valid_def params_bytes_def RT_EOK_def RT_ERROR_def split: if_splits)
  have "pr_checksum ?q \<noteq> (\<Sum>x\<leftarrow>params_head ?q. ucast x)"
  proof (cases "i < 56")
    case True
    have "drop 56 (?b[i := v]) = drop 56 ?b" using True by simp
    then have "pr_checksum ?q = pr_checksum p"
      using sum_of_image [OF len(1)] length_head [OF wf]
      by (intro u32_bytes_inject) (simp add: params_bytes_def)
    moreover have "params_head ?q = (take 56 ?b)[i := v]"
      using head_of_image [OF len(1)] by (simp add: take_update_swap)
    moreover have "(ucast (take 56 ?b ! i) :: u32) \<noteq> ucast v"
      using v True ucast_u8_inject by auto
    ultimately show ?thesis
      using sum sum_update [of i "take 56 ?b" v] True len(2) by simp
  next
    case False
    then have "params_head ?q = take 56 ?b"
      using head_of_image [OF len(1)] by (simp add: take_update_cancel)
    moreover have "pr_checksum ?q \<noteq> pr_checksum p"
    proof
      assume "pr_checksum ?q = pr_checksum p"
      then have "drop 56 (?b[i := v]) = drop 56 ?b"
        using sum_of_image [OF len(1)] length_head [OF wf] by (simp add: params_bytes_def)
      then have "(drop 56 (?b[i := v])) ! (i - 56) = drop 56 ?b ! (i - 56)" by simp
      then show False using v False i len by (simp add: sizeof_params_def)
    qed
    ultimately show ?thesis using sum by simp
  qed
  then show ?thesis
    using is_valid_iff [OF params_of_bytes_wf [OF len(1)]] by (simp add: params_valid_def)
qed

lemma sample_params_saved:
  "\<exists>p1 e1. params_save byte_flash (\<lambda>_. 0xFF) sample_params = Some (0, p1, e1) \<and>
    params_wf p1 \<and> params_is_valid p1 = Some RT_EOK"
proof -
  obtain p1 e1 where s: "params_save byte_flash (\<lambda>_. 0xFF) sample_params = Some (0, p1, e1)"
    by (simp add: save_spec [OF sample_params_wf] Let_def byte_flash_def)
  have "pr_magic sample_params = PARAMS_MAGIC" "\<forall>k<4. range_ok sample_params k"
    by (simp_all add: sample_params_def range_ok_def)
  then have "params_valid p1"
    using load_saved(3) [OF byte_flash_ok sample_params_wf s]
    by (simp add: params_valid_def range_ok_def)
  then show ?thesis
    using s load_saved(2) [OF byte_flash_ok sample_params_wf s] is_valid_iff by auto
qed

theorem byte_corruption_detected_witness:
  "\<exists>p. params_is_valid p = Some RT_EOK \<and>
    params_is_valid (params_of_bytes ((params_bytes p)[0 := 0])) = Some RT_ERROR"
proof -
  obtain p1 e1 where s: "params_save byte_flash (\<lambda>_. 0xFF) sample_params = Some (0, p1, e1)"
    and p1: "params_wf p1" "params_is_valid p1 = Some RT_EOK"
    using sample_params_saved by blast
  have "pr_magic p1 = PARAMS_MAGIC"
    using load_saved(3) [OF byte_flash_ok sample_params_wf s] by (simp add: sample_params_def)
  then have "(0 :: u8) \<noteq> params_bytes p1 ! 0"
    by (simp add: params_bytes_def head_cons PARAMS_MAGIC_def)
  then show ?thesis
    using byte_corruption_detected [OF p1, of 0 0] p1(2) by (auto simp: sizeof_params_def)
qed

text \<open>
  C22: Whatever the flash holds, initialisation ends with stick ranges in bounds and at least 500
  wide, and it reports success exactly when the parameters it found are valid and marked
  calibrated; otherwise the ranges are the factory ones and the mark is cleared in memory.
\<close>

theorem params_init_ranges:
  assumes "flash_ok f"
  shows "\<exists>r p e'. params_init f e = Some (r, p, e') \<and> params_wf p \<and> (\<forall>k<4. range_ok p k) \<and>
    (r = RT_EOK \<longleftrightarrow> params_valid (snd (params_load f e)) \<and> pr_calibraed (snd (params_load f e)) \<noteq> 0) \<and>
    (r = RT_EOK \<longrightarrow> p = snd (params_load f e) \<and> e' = e) \<and>
    (r \<noteq> RT_EOK \<longrightarrow> pr_calibraed p = 0 \<and> (\<forall>k<4. pr_min_value p ! k = 1500 \<and>
       pr_mid_value p ! k = 2500 \<and> pr_max_value p ! k = 3500))"
proof -
  let ?p = "snd (params_load f e)"
  have wf: "params_wf ?p" by (rule load_wf [OF assms])
  show ?thesis
  proof (cases "params_valid ?p \<and> pr_calibraed ?p \<noteq> 0")
    case True
    then show ?thesis
      using wf by (auto simp: params_init_def is_valid_iff [OF wf] RT_EOK_def RT_ERROR_def params_valid_def)
  next
    case False
    obtain p1 e1 where d: "params_load_default f e ?p = Some (p1, e1)" "params_wf p1" "params_valid p1"
      "\<forall>k<4. pr_min_value p1 ! k = 1500 \<and> pr_mid_value p1 ! k = 2500 \<and> pr_max_value p1 ! k = 3500"
      using default_init [OF wf, of f e] by blast
    have "params_init f e = Some (RT_ERROR, p1\<lparr>pr_calibraed := 0\<rparr>, e1)"
      using False d(1) by (auto simp: params_init_def is_valid_iff [OF wf] RT_EOK_def RT_ERROR_def)
    moreover have "params_wf (p1\<lparr>pr_calibraed := 0\<rparr>)" using d(2) by (simp add: params_wf_def)
    moreover have "\<forall>k<4. range_ok (p1\<lparr>pr_calibraed := 0\<rparr>) k" using d(4) by (simp add: range_ok_def)
    ultimately show ?thesis using False d(4) by (auto simp: RT_EOK_def RT_ERROR_def)
  qed
qed

theorem params_init_ranges_witness:
  "\<exists>r p e'. params_init byte_flash (\<lambda>_. 0xFF) = Some (r, p, e') \<and> (\<forall>k<4. range_ok p k)"
  using params_init_ranges [OF byte_flash_ok] by blast

text \<open>
  The mark is cleared after the defaults have been saved, so what is saved keeps the mark that
  was found. If the flash holds invalid parameters whose mark byte is not zero (an erased flash
  reads 0xFF), the first start reports an error and the second one reports success: it takes the
  factory ranges for calibrated ones.
\<close>

theorem second_start_accepts_defaults:
  assumes f: "flash_ok f"
    and inv: "\<not> params_valid (snd (params_load f e))" "pr_calibraed (snd (params_load f e)) \<noteq> 0"
    and wr: "\<And>e a bs. fst (EEPROM_WRITE f e a bs) = 0"
  shows "\<exists>p e1. params_init f e = Some (RT_ERROR, p, e1) \<and>
    (\<exists>p'. params_init f e1 = Some (RT_EOK, p', e1) \<and> pr_calibraed p' \<noteq> 0 \<and>
      (\<forall>k<4. pr_min_value p' ! k = 1500 \<and> pr_mid_value p' ! k = 2500 \<and> pr_max_value p' ! k = 3500))"
proof -
  let ?p = "snd (params_load f e)"
  have wf: "params_wf ?p" by (rule load_wf [OF f])
  obtain p1 e1 r where d: "params_load_default f e ?p = Some (p1, e1)" "params_wf p1" "params_valid p1"
    "pr_calibraed p1 = pr_calibraed ?p"
    "\<forall>k<4. pr_min_value p1 ! k = 1500 \<and> pr_mid_value p1 ! k = 2500 \<and> pr_max_value p1 ! k = 3500"
    and s: "params_save f e (p1\<lparr>pr_checksum := pr_checksum ?p\<rparr>) = Some (r, p1, e1)"
    using default_init [OF wf, of f e] by blast
  have 1: "params_init f e = Some (RT_ERROR, p1\<lparr>pr_calibraed := 0\<rparr>, e1)"
    using inv d(1) by (auto simp: params_init_def is_valid_iff [OF wf] RT_EOK_def RT_ERROR_def)
  have wf': "params_wf (p1\<lparr>pr_checksum := pr_checksum ?p\<rparr>)" using d(2) by simp
  have "r = 0" using s wr unfolding save_spec [OF wf'] Let_def by auto
  then have "params_load f e1 = (RT_EOK, p1)" using load_saved(1) [OF f wf'] s by simp
  then have "params_init f e1 = Some (RT_EOK, p1, e1)"
    using d(3,4) inv(2) by (simp add: params_init_def is_valid_iff [OF d(2)] RT_EOK_def RT_ERROR_def)
  then show ?thesis using 1 d(4,5) inv(2) by auto
qed

lemma erased_flash_load:
  "pr_magic (snd (params_load byte_flash (\<lambda>_. 0xFF))) = 0xFFFF"
  "pr_calibraed (snd (params_load byte_flash (\<lambda>_. 0xFF))) = 0xFF"
  by (simp_all add: params_load_def byte_flash_def params_of_bytes_def sizeof_params_def u16_of_def)

theorem second_start_accepts_defaults_witness:
  "\<exists>p e1. params_init byte_flash (\<lambda>_. 0xFF) = Some (RT_ERROR, p, e1) \<and>
    (\<exists>p'. params_init byte_flash e1 = Some (RT_EOK, p', e1) \<and> pr_calibraed p' \<noteq> 0 \<and>
      pr_min_value p' ! 0 = 1500)"
proof -
  have "\<not> params_valid (snd (params_load byte_flash (\<lambda>_. 0xFF)))"
    by (simp add: params_valid_def erased_flash_load PARAMS_MAGIC_def)
  then show ?thesis
    using second_start_accepts_defaults [OF byte_flash_ok, of "\<lambda>_. 0xFF"] byte_flash_write
    by (fastforce simp: erased_flash_load)
qed

end
