(* ===== verification/Battery.thy ===== *)
theory Battery
  imports Complex_Main Prelude
begin

text \<open>
  The battery gauge (\<open>Firmware/applications/battery.c\<close>): a table of the voltages of the 101
  charge levels and a search in it by halving steps. A voltage is a \<open>float\<close>: a rational number
  or not a number (\<open>None\<close>), for which every comparison is false. The constants are the
  single-precision values nearest to the literals of the source, all multiples of \<open>2 ^ - 22\<close>,
  and are written as their numerators.
\<close>

section \<open>Table and search\<close>

definition batt_volts_array :: "int list" where
  "batt_volts_array =
    [
     13421773, 13631488, 13841203, 14050918, 14260634, 14470349, 14680064, 14889779,
     15099494, 15309210, 15518925, 15531508, 15544091, 15560868, 15573451, 15586034,
     15598617, 15615394, 15627977, 15640560, 15653143, 15665725, 15682503, 15695086,
     15707668, 15720251, 15737029, 15749612, 15762194, 15774777, 15791555, 15804137,
     15816720, 15829303, 15841886, 15858663, 15871246, 15883829, 15896412, 15913189,
     15925772, 15938355, 15959327, 15984493, 16005464, 16026436, 16047407, 16072573,
     16093544, 16114516, 16135487, 16160653, 16181625, 16202596, 16223568, 16248734,
     16269705, 16290677, 16311648, 16336814, 16357786, 16382951, 16403923, 16429089,
     16450060, 16475226, 16496198, 16521363, 16542335, 16567501, 16592667, 16613638,
     16638804, 16659775, 16684941, 16705913, 16731079, 16752050, 16777216, 16810770,
     16840130, 16873684, 16907240, 16936600, 16970154, 17003708, 17037262, 17066622,
     17100178, 17133732, 17163092, 17196646, 17242784, 17288922, 17335058, 17381196,
     17431528, 17477664, 17523802, 17569940, 17616076]"

definition volts_ge :: "rat option \<Rightarrow> int \<Rightarrow> bool" where
  "volts_ge v q = (case v of None \<Rightarrow> False | Some x \<Rightarrow> x * 4194304 \<ge> of_int q)"

definition volts_le :: "rat option \<Rightarrow> int \<Rightarrow> bool" where
  "volts_le v q = (case v of None \<Rightarrow> False | Some x \<Rightarrow> x * 4194304 \<le> of_int q)"

text \<open>
  The endless loop with fuel; \<open>ge\<close> is the comparison with a table element, \<open>None\<close> an access
  outside the table or an exhausted fuel. Index arithmetic is that of \<open>uint8_t\<close>.
\<close>

primrec battery_loop :: "nat \<Rightarrow> (nat \<Rightarrow> bool option) \<Rightarrow> nat \<Rightarrow> nat \<Rightarrow> nat option" where
  "battery_loop 0 ge index prev = None"
| "battery_loop (Suc fuel) ge index prev =
     (let half = (if index \<ge> prev then (index - prev) div 2 else (prev - index) div 2)
      in case ge index of None \<Rightarrow> None
         | Some b \<Rightarrow>
             let index' = (if b then (index + half) mod 256 else (index + 256 - half) mod 256)
             in if index = index' then Some index' else battery_loop fuel ge index' index)"

declare battery_loop.simps [simp del]

definition battery_fuel :: nat where "battery_fuel = 8"

definition battery_get_level :: "rat option \<Rightarrow> nat option" where
  "battery_get_level volts =
     (if volts_ge volts 17616076 then Some 100
      else if volts_le volts 13421773 then Some 0
      else battery_loop battery_fuel
             (\<lambda>i. map_option (volts_ge volts) (arr_get batt_volts_array i)) 50 0)"

section \<open>Correctness\<close>

lemma table_length: "length batt_volts_array = 101"
  by (simp add: batt_volts_array_def)

lemma table_sorted: "sorted_wrt (<) batt_volts_array"
  by code_simp

text \<open>The loop asks only for indices of the table, so two comparisons that agree there do the same.\<close>

definition below :: "nat \<Rightarrow> nat \<Rightarrow> bool option" where
  "below t i = (if i < 101 then Some (i \<le> t) else None)"

text \<open>The search on every possible position of the voltage among the table elements.\<close>

lemma battery_fuel_Suc: "battery_fuel = Suc (Suc (Suc (Suc (Suc (Suc (Suc (Suc 0)))))))"
  by (simp add: battery_fuel_def)

definition dist_nat :: "nat \<Rightarrow> nat \<Rightarrow> nat" where
  "dist_nat i p = (if i \<ge> p then i - p else p - i)"

text \<open>One halving step: the distance to the true level shrinks to the larger of \<open>E - h\<close> and \<open>h\<close>.\<close>

lemma loop_Suc:
  assumes "i < 101" and "dist_nat i p div 2 = h" and "h \<le> i"
  shows "battery_loop (Suc f) (below t) i p =
    (let i' = (if i \<le> t then i + h else i - h) in if i = i' then Some i' else battery_loop f (below t) i' i)"
proof -
  have h: "(if i \<ge> p then (i - p) div 2 else (p - i) div 2) = h"
    using assms(2) by (cases "i \<ge> p") (simp_all only: dist_nat_def if_True if_False)
  have "(i + h) mod 256 = i + h" using assms(1,3) by (intro mod_less) linarith
  moreover have "(i + 256 - h) mod 256 = i - h"
  proof -
    have "i + 256 - h = (i - h) + 256" using assms(3) by linarith
    moreover have "i - h < 256" using assms(1) by linarith
    ultimately show ?thesis by (simp only: mod_add_self2 mod_less)
  qed
  ultimately show ?thesis
    using assms(1) by (simp only: battery_loop.simps h below_def Let_def option.case if_True)
qed

lemma loop_step:
  assumes "i < 101" and "dist_nat i p div 2 = h" and "0 < h" and "h \<le> i"
    and "dist_nat t i \<le> E" and "h \<le> E"
  shows "\<exists>i'. battery_loop (Suc f) (below t) i p = battery_loop f (below t) i' i \<and>
    dist_nat i' i = h \<and> dist_nat t i' \<le> max (E - h) h"
proof (cases "i \<le> t")
  case True
  have "battery_loop (Suc f) (below t) i p = battery_loop f (below t) (i + h) i"
    unfolding loop_Suc [OF assms(1,2,4)] using True assms(3) by (simp add: Let_def)
  moreover have "dist_nat t (i + h) \<le> max (E - h) h"
    using True assms(5) by (auto simp: dist_nat_def)
  ultimately show ?thesis using dist_nat_def by (intro exI [of _ "i + h"]) simp
next
  case False
  have "battery_loop (Suc f) (below t) i p = battery_loop f (below t) (i - h) i"
    unfolding loop_Suc [OF assms(1,2,4)] using False assms(3,4) by (auto simp: Let_def)
  moreover have "dist_nat t (i - h) \<le> max (E - h) h"
    using False assms(4,5) by (auto simp: dist_nat_def)
  moreover have "dist_nat (i - h) i = h" using assms(3,4) by (auto simp: dist_nat_def)
  ultimately show ?thesis by blast
qed

lemma loop_end:
  assumes "i < 101" and "dist_nat i p < 2"
  shows "battery_loop (Suc f) (below t) i p = Some i"
proof -
  have h: "dist_nat i p div 2 = 0" using assms(2) by (rule div_less)
  show ?thesis unfolding loop_Suc [OF assms(1) h le0] by (simp add: Let_def)
qed

lemma dist_bound: "dist_nat i' i = h \<Longrightarrow> i' \<le> i + h \<and> i \<le> i' + h"
  by (auto simp: dist_nat_def split: if_splits)

lemma search_all:
  assumes "t < 100"
  shows "\<exists>r. battery_loop battery_fuel (below t) 50 0 = Some r \<and>
    3 \<le> r \<and> r \<le> 97 \<and> r \<le> t + 3 \<and> t \<le> r + 3"
proof -
  have d: "dist_nat t 50 \<le> 50" using assms by (auto simp: dist_nat_def)
  obtain a where a: "battery_loop battery_fuel (below t) 50 0 =
      battery_loop (Suc (Suc (Suc (Suc (Suc (Suc (Suc 0))))))) (below t) a 50"
    "dist_nat a 50 = 25" "dist_nat t a \<le> 25"
    using loop_step [of 50 0 25 t 50 "Suc (Suc (Suc (Suc (Suc (Suc (Suc 0))))))"] d
    unfolding battery_fuel_Suc by (auto simp: dist_nat_def [of 50 0])
  obtain b where b: "battery_loop (Suc (Suc (Suc (Suc (Suc (Suc (Suc 0))))))) (below t) a 50 =
      battery_loop (Suc (Suc (Suc (Suc (Suc (Suc 0)))))) (below t) b a"
    "dist_nat b a = 12" "dist_nat t b \<le> 13"
    using loop_step [of a 50 12 t 25] a dist_bound [OF a(2)] by auto
  obtain c where c: "battery_loop (Suc (Suc (Suc (Suc (Suc (Suc 0)))))) (below t) b a =
      battery_loop (Suc (Suc (Suc (Suc (Suc 0))))) (below t) c b"
    "dist_nat c b = 6" "dist_nat t c \<le> 7"
    using loop_step [of b a 6 t 13] b dist_bound [OF a(2)] dist_bound [OF b(2)] by auto
  obtain e where e: "battery_loop (Suc (Suc (Suc (Suc (Suc 0))))) (below t) c b =
      battery_loop (Suc (Suc (Suc (Suc 0)))) (below t) e c"
    "dist_nat e c = 3" "dist_nat t e \<le> 4"
    using loop_step [of c b 3 t 7] c dist_bound [OF a(2)] dist_bound [OF b(2)] dist_bound [OF c(2)]
    by auto
  obtain r where r: "battery_loop (Suc (Suc (Suc (Suc 0)))) (below t) e c =
      battery_loop (Suc (Suc (Suc 0))) (below t) r e"
    "dist_nat r e = 1" "dist_nat t r \<le> 3"
    using loop_step [of e c 1 t 4] e dist_bound [OF a(2)] dist_bound [OF b(2)] dist_bound [OF c(2)]
      dist_bound [OF e(2)]
    by auto
  have bounds: "3 \<le> r" "r \<le> 97"
    using dist_bound [OF a(2)] dist_bound [OF b(2)] dist_bound [OF c(2)] dist_bound [OF e(2)]
      dist_bound [OF r(2)]
    by linarith+
  then have "battery_loop (Suc (Suc (Suc 0))) (below t) r e = Some r"
    using r(2) by (intro loop_end) simp_all
  then show ?thesis
    using a(1) b(1) c(1) e(1) r bounds by (auto simp: dist_nat_def split: if_splits)
qed

text \<open>The number of levels whose voltage is reached, minus one.\<close>

definition level_of :: "rat option \<Rightarrow> nat" where
  "level_of v = length (takeWhile (volts_ge v) batt_volts_array) - 1"


lemma takeWhile_sorted:
  assumes "sorted_wrt (<) xs" and "\<And>x y. x < y \<Longrightarrow> P y \<Longrightarrow> P x" and "i < length xs"
  shows "P (xs ! i) \<longleftrightarrow> i < length (takeWhile P xs)"
proof
  assume p: "P (xs ! i)"
  show "i < length (takeWhile P xs)"
  proof (rule ccontr)
    assume c: "\<not> i < length (takeWhile P xs)"
    let ?k = "length (takeWhile P xs)"
    have k: "?k < length xs" using c assms(3) by simp
    then have "\<not> P (xs ! ?k)" by (rule nth_length_takeWhile)
    moreover have "xs ! ?k < xs ! i \<or> ?k = i"
      using c assms(1,3) by (auto simp: sorted_wrt_iff_nth_less not_less le_less)
    ultimately show False using p assms(2) by auto
  qed
next
  assume "i < length (takeWhile P xs)"
  then show "P (xs ! i)" by (metis nth_mem set_takeWhileD takeWhile_nth)
qed

lemma compare_below:
  assumes v: "v = Some x" and lo: "\<not> volts_le v 13421773" and hi: "\<not> volts_ge v 17616076"
  shows "(\<lambda>i. map_option (volts_ge v) (arr_get batt_volts_array i)) = below (level_of v)"
    and "level_of v < 100"
proof -
  have anti: "volts_ge v a" if "a < b" "volts_ge v b" for a b
  proof -
    have "(of_int a :: rat) \<le> of_int b" using that(1) by simp
    then show ?thesis using that(2) v unfolding volts_ge_def by simp
  qed
  define n where "n = length (takeWhile (volts_ge v) batt_volts_array)"
  have tw: "i < 101 \<Longrightarrow> volts_ge v (batt_volts_array ! i) \<longleftrightarrow> i < n" for i
    using takeWhile_sorted [OF table_sorted, of "volts_ge v"] anti by (simp add: table_length n_def)
  have level: "level_of v = n - 1" by (simp add: level_of_def n_def)
  have "volts_ge v (batt_volts_array ! 0)"
    using lo v by (simp add: batt_volts_array_def volts_ge_def volts_le_def)
  then have n0: "0 < n" using tw [where i = 0] by (simp add: table_length)
  have "\<not> volts_ge v (batt_volts_array ! 100)"
    using hi by (simp add: batt_volts_array_def)
  then have n1: "n \<le> 100" using tw [where i = 100] by (simp add: table_length)
  show "level_of v < 100" using n0 n1 by (simp add: level)
  show "(\<lambda>i. map_option (volts_ge v) (arr_get batt_volts_array i)) = below (level_of v)"
  proof
    fix i
    show "map_option (volts_ge v) (arr_get batt_volts_array i) = below (level_of v) i"
      using tw [where i = i] n0 by (auto simp: arr_get_def below_def table_length level)
  qed
qed

section \<open>Properties\<close>

text \<open>
  C31: For every voltage strictly between the end points the search ends, stays inside the table and
  returns a level at most 3 percent away from the level whose voltage is reached.
\<close>

theorem battery_level_accuracy:
  assumes "v = Some x" and "\<not> volts_le v 13421773" and "\<not> volts_ge v 17616076"
  shows "\<exists>r. battery_get_level v = Some r \<and> 3 \<le> r \<and> r \<le> 97 \<and>
    r \<le> level_of v + 3 \<and> level_of v \<le> r + 3"
  using assms search_all [OF compare_below(2) [OF assms]]
  unfolding battery_get_level_def compare_below(1) [OF assms] by simp

theorem battery_level_accuracy_witness:
  "\<exists>r. battery_get_level (Some (37 / 10)) = Some r \<and> r \<le> 97"
  using battery_level_accuracy [of "Some (37 / 10)" "37 / 10"]
  by (auto simp: volts_le_def volts_ge_def)

text \<open>Outside that range, and for a voltage that is not a number, the gauge still returns.\<close>

lemma battery_level_total: "\<exists>r \<le> 100. battery_get_level v = Some r"
proof (cases v)
  case None
  have "battery_loop battery_fuel
      (\<lambda>i. map_option (volts_ge None) (arr_get batt_volts_array i)) 50 0 = Some 3"
    unfolding battery_fuel_Suc by (simp add: table_length volts_ge_def battery_loop.simps)
  then show ?thesis
    using None by (simp add: battery_get_level_def volts_ge_def [of None] volts_le_def [of None])
next
  case (Some x)
  show ?thesis
  proof (cases "volts_ge v 17616076 \<or> volts_le v 13421773")
    case True
    then show ?thesis by (auto simp: battery_get_level_def)
  next
    case False
    then obtain r where "battery_loop battery_fuel (below (level_of v)) 50 0 = Some r" "r \<le> 97"
      using search_all [OF compare_below(2) [OF Some]] by blast
    then show ?thesis
      using False compare_below(1) [OF Some] by (intro exI [of _ r]) (simp add: battery_get_level_def)
  qed
qed

end
