(* ===== verification/Tone.thy ===== *)
theory Tone
  imports Prelude
begin

text \<open>
  The buzzer (\<open>Firmware/drivers/drv_buzzer.c\<close>) over the PWM unit
  (\<open>StdPeriphDriver/CH58x_pwm.c\<close>), the tone tables (\<open>tones.h\<close>) and the tone thread
  (\<open>Firmware/applications/tone_play_thread.c\<close>), which is a state machine driven by an event
  that any other thread may send at any time.
\<close>

section \<open>The PWM unit\<close>

record pwm =
  R8_PWM_OUT_EN :: u8
  R8_PWM_CONFIG :: u8
  R8_PWM_CLOCK_DIV :: u8
  R8_PWM_POLAR :: u8
  R8_PWM_DATA :: "u8 list" \<comment> \<open>\<open>R8_PWM4_DATA\<close> and the seven registers after it\<close>

definition CH_PWM6 :: u8 where "CH_PWM6 = 0x04"

datatype PWMX_CycleTypeDef =
  PWMX_Cycle_256 | PWMX_Cycle_255 | PWMX_Cycle_128 | PWMX_Cycle_127
  | PWMX_Cycle_64 | PWMX_Cycle_63 | PWMX_Cycle_32 | PWMX_Cycle_31

definition PWMX_CLKCfg :: "pwm \<Rightarrow> int \<Rightarrow> pwm" where
  "PWMX_CLKCfg w d = w\<lparr>R8_PWM_CLOCK_DIV := word_of_int d\<rparr>"

definition PWMX_CycleCfg :: "pwm \<Rightarrow> PWMX_CycleTypeDef \<Rightarrow> pwm" where
  "PWMX_CycleCfg w cyc = w\<lparr>R8_PWM_CONFIG := (R8_PWM_CONFIG w AND 0xf0) OR (case cyc of
     PWMX_Cycle_256 \<Rightarrow> 0 | PWMX_Cycle_255 \<Rightarrow> 0x01
   | PWMX_Cycle_128 \<Rightarrow> 4 | PWMX_Cycle_127 \<Rightarrow> 4 OR 0x01
   | PWMX_Cycle_64 \<Rightarrow> 8 | PWMX_Cycle_63 \<Rightarrow> 8 OR 0x01
   | PWMX_Cycle_32 \<Rightarrow> 12 | PWMX_Cycle_31 \<Rightarrow> 12 OR 0x01)\<rparr>"

text \<open>The loop over the eight channels writes the width of every selected one.\<close>

definition PWMX_ACTOUT :: "pwm \<Rightarrow> u8 \<Rightarrow> u8 \<Rightarrow> bool \<Rightarrow> bool \<Rightarrow> pwm" where
  "PWMX_ACTOUT w ch da low_level enable =
     (if \<not> enable then w\<lparr>R8_PWM_OUT_EN := R8_PWM_OUT_EN w AND NOT ch\<rparr>
      else
        let w1 = (if low_level then w\<lparr>R8_PWM_POLAR := R8_PWM_POLAR w OR ch\<rparr>
                  else w\<lparr>R8_PWM_POLAR := R8_PWM_POLAR w AND NOT ch\<rparr>);
            w2 = w1\<lparr>R8_PWM_DATA := map (\<lambda>i. if bit ch i then da else R8_PWM_DATA w1 ! i) [0..<8]\<rparr>
        in w2\<lparr>R8_PWM_OUT_EN := R8_PWM_OUT_EN w2 OR ch\<rparr>)"

section \<open>The buzzer\<close>

record buzzer =
  bz_pwm :: pwm
  buzzer_volume :: u8

text \<open>\<open>80000000 / (256 * freq)\<close>; a frequency of 0 is a division by zero.\<close>

definition SET_FREQ :: "nat \<Rightarrow> int option" where
  "SET_FREQ freq = (if freq = 0 then None else Some (80000000 div (256 * int freq)))"

text \<open>The pin configuration of \<open>buzzer_hw_init\<close> is in the GPIO theory.\<close>

definition buzzer_hw_init :: "buzzer \<Rightarrow> buzzer" where
  "buzzer_hw_init b = b\<lparr>bz_pwm :=
     PWMX_ACTOUT (PWMX_CycleCfg (PWMX_CLKCfg (bz_pwm b) (40000 div 256)) PWMX_Cycle_256)
       CH_PWM6 128 True False\<rparr>"

definition buzzer_set_volume :: "buzzer \<Rightarrow> u8 \<Rightarrow> buzzer" where
  "buzzer_set_volume b volume = b\<lparr>buzzer_volume := volume\<rparr>"

definition buzzer_set_freq :: "buzzer \<Rightarrow> nat \<Rightarrow> buzzer option" where
  "buzzer_set_freq b freq = do {
     d \<leftarrow> SET_FREQ freq;
     let w = PWMX_ACTOUT (bz_pwm b) CH_PWM6 (buzzer_volume b) True False;
     Some (b\<lparr>bz_pwm := PWMX_CycleCfg (PWMX_CLKCfg w d) PWMX_Cycle_256\<rparr>)
   }"

definition buzzer_start :: "buzzer \<Rightarrow> buzzer" where
  "buzzer_start b = b\<lparr>bz_pwm := PWMX_ACTOUT (bz_pwm b) CH_PWM6 (buzzer_volume b) True True\<rparr>"

definition buzzer_stop :: "buzzer \<Rightarrow> buzzer" where
  "buzzer_stop b = b\<lparr>bz_pwm := PWMX_ACTOUT (bz_pwm b) CH_PWM6 (buzzer_volume b) True False\<rparr>"

section \<open>Tones\<close>

record tone_t =
  tone_note :: nat
  duration :: nat

definition C5 :: nat where "C5 = 523"
definition D5 :: nat where "D5 = 587"
definition E5 :: nat where "E5 = 659"
definition F5 :: nat where "F5 = 698"
definition G5 :: nat where "G5 = 784"

lemmas note_defs = C5_def D5_def E5_def F5_def G5_def

definition tone :: "nat \<Rightarrow> nat \<Rightarrow> tone_t" where
  "tone f d = \<lparr>tone_note = f, duration = 1000 div d\<rparr>"

definition poweron_tones :: "tone_t list" where
  "poweron_tones = [tone C5 16, tone D5 16, tone E5 16, tone F5 16]"
definition poweroff_tones :: "tone_t list" where
  "poweroff_tones = [tone F5 16, tone E5 16, tone D5 16, tone C5 16]"
definition btn_click_tones :: "tone_t list" where
  "btn_click_tones = [tone F5 16]"
definition btn_long_click_tones :: "tone_t list" where
  "btn_long_click_tones = [tone G5 8]"
definition warning_tones :: "tone_t list" where
  "warning_tones = [tone F5 16]"
definition calibra_step1_tones :: "tone_t list" where
  "calibra_step1_tones = [tone C5 8]"
definition calibra_step2_tones :: "tone_t list" where
  "calibra_step2_tones = [tone D5 8, tone D5 8]"
definition calibra_step3_tones :: "tone_t list" where
  "calibra_step3_tones = [tone E5 8, tone E5 8, tone E5 8, tone E5 8, tone E5 8]"

lemmas tone_tables = poweron_tones_def poweroff_tones_def btn_click_tones_def
  btn_long_click_tones_def warning_tones_def calibra_step1_tones_def calibra_step2_tones_def
  calibra_step3_tones_def

text \<open>What is heard: the PWM registers while the output is on, and for how many ticks.\<close>

type_synonym sound = "pwm \<times> nat"

fun play_loop :: "tone_t list \<Rightarrow> nat \<Rightarrow> buzzer \<Rightarrow> sound list \<Rightarrow> (buzzer \<times> sound list) option" where
  "play_loop ts 0 b out = Some (b, out)"
| "play_loop [] (Suc n) b out = None"
| "play_loop (t # ts) (Suc n) b out = do {
     b1 \<leftarrow> buzzer_set_freq b (tone_note t);
     let b2 = buzzer_start b1;
     play_loop ts n (buzzer_stop b2) (out @ [(bz_pwm b2, duration t)])
   }"

definition play_tones :: "tone_t list option \<Rightarrow> nat \<Rightarrow> u8 \<Rightarrow> buzzer \<Rightarrow> (buzzer \<times> sound list) option" where
  "play_tones tones cnt volume b = (case tones of None \<Rightarrow> Some (b, [])
     | Some ts \<Rightarrow> play_loop ts cnt (buzzer_set_volume b volume) [])"

section \<open>The tone thread\<close>

datatype tone_id_t =
  TONE_NONE | TONE_POWER_ON | TONE_POWER_OFF | TONE_BTN_CLICK | TONE_BTN_LONG_CLICK
  | TONE_WARNING | TONE_CALIBRA_STEP1 | TONE_CALIBRA_STEP2 | TONE_CALIBRA_STEP3

text \<open>The \<open>switch\<close> of the thread entry.\<close>

fun tones_of :: "tone_id_t \<Rightarrow> tone_t list option" where
  "tones_of TONE_POWER_ON = Some poweron_tones"
| "tones_of TONE_POWER_OFF = Some poweroff_tones"
| "tones_of TONE_BTN_CLICK = Some btn_click_tones"
| "tones_of TONE_BTN_LONG_CLICK = Some btn_long_click_tones"
| "tones_of TONE_WARNING = Some warning_tones"
| "tones_of TONE_CALIBRA_STEP1 = Some calibra_step1_tones"
| "tones_of TONE_CALIBRA_STEP2 = Some calibra_step2_tones"
| "tones_of TONE_CALIBRA_STEP3 = Some calibra_step3_tones"
| "tones_of TONE_NONE = None"

definition play_id :: "tone_id_t \<Rightarrow> buzzer \<Rightarrow> (buzzer \<times> sound list) option" where
  "play_id i b = (case tones_of i of None \<Rightarrow> Some (b, [])
     | Some ts \<Rightarrow> play_tones (Some ts) (length ts) 128 b)"

text \<open>
  The thread blocks on the event, or has taken it, or is playing the tone it read from
  \<open>tone_id\<close>. The log holds every tone whose playing was begun.
\<close>

datatype tone_phase = Waiting | Woken | Playing tone_id_t

record tone_sys =
  tone_id :: tone_id_t
  tone_event :: bool
  tone_phase :: tone_phase
  tone_log :: "tone_id_t list"

definition tones_play_background :: "tone_sys \<Rightarrow> tone_id_t \<Rightarrow> tone_sys" where
  "tones_play_background s i = s\<lparr>tone_id := i, tone_event := True\<rparr>"

text \<open>After the tones of the start-up the thread waits with an empty request.\<close>

definition tone_init :: tone_sys where
  "tone_init = \<lparr>tone_id = TONE_NONE, tone_event = False, tone_phase = Waiting, tone_log = []\<rparr>"

text \<open>A step is a request from outside (with its tone) or a move of the thread itself.\<close>

inductive tone_step :: "tone_sys \<Rightarrow> tone_id_t option \<Rightarrow> tone_sys \<Rightarrow> bool" where
  request: "tone_step s (Some i) (tones_play_background s i)"
| wake: "tone_phase s = Waiting \<Longrightarrow> tone_event s \<Longrightarrow>
    tone_step s None (s\<lparr>tone_event := False, tone_phase := Woken\<rparr>)"
| begin_tone: "tone_phase s = Woken \<Longrightarrow>
    tone_step s None (s\<lparr>tone_phase := Playing (tone_id s), tone_log := tone_log s @ [tone_id s]\<rparr>)"
| end_tone: "tone_phase s = Playing i \<Longrightarrow>
    tone_step s None (s\<lparr>tone_id := TONE_NONE, tone_phase := Waiting\<rparr>)"

inductive_cases request_stepE: "tone_step s (Some i) s'"
inductive_cases own_stepE: "tone_step s None s'"

text \<open>Runs, with the requests they contain in order.\<close>

inductive tone_run :: "tone_sys \<Rightarrow> tone_id_t list \<Rightarrow> tone_sys \<Rightarrow> bool" where
  stop: "tone_run s [] s"
| silent: "tone_step s None s1 \<Longrightarrow> tone_run s1 rs s2 \<Longrightarrow> tone_run s rs s2"
| asked: "tone_step s (Some i) s1 \<Longrightarrow> tone_run s1 rs s2 \<Longrightarrow> tone_run s (i # rs) s2"


section \<open>The thread as a state machine\<close>

text \<open>
  Every start of a tone uses up a wake-up, every wake-up an event, every event a request; what is
  played is what was requested, or nothing.
\<close>

definition owed :: "tone_sys \<Rightarrow> nat" where
  "owed s = length (tone_log s) + (if tone_phase s = Woken then 1 else 0) + (if tone_event s then 1 else 0)"

lemma step_owed: "tone_step s r s' \<Longrightarrow> owed s' \<le> owed s + (if r = None then 0 else 1)"
  by (cases rule: tone_step.cases) (auto simp: owed_def tones_play_background_def)

lemma step_played:
  "tone_step s r s' \<Longrightarrow> insert (tone_id s') (set (tone_log s')) \<subseteq>
     insert TONE_NONE (insert (tone_id s) (set (tone_log s)) \<union> set_option r)"
  by (cases rule: tone_step.cases) (auto simp: tones_play_background_def)

lemma run_owed: "tone_run s rs s' \<Longrightarrow> owed s' \<le> owed s + length rs"
proof (induction rule: tone_run.induct)
  case (silent s s1 rs s2)
  then show ?case using step_owed by fastforce
next
  case (asked s i s1 rs s2)
  then show ?case using step_owed by fastforce
qed simp

lemma run_played:
  "tone_run s rs s' \<Longrightarrow> insert (tone_id s') (set (tone_log s')) \<subseteq>
     insert TONE_NONE (insert (tone_id s) (set (tone_log s)) \<union> set rs)"
proof (induction rule: tone_run.induct)
  case (silent s s1 rs s2)
  then show ?case using step_played [OF silent(1)] by auto
next
  case (asked s i s1 rs s2)
  then show ?case using step_played [OF asked(1)] by auto
qed auto

text \<open>Runs without a request from outside, from a state that satisfies an invariant.\<close>

lemma quiet_run:
  assumes "tone_run s rs s'" and "rs = []" and "I s"
    and "\<And>a b. I a \<Longrightarrow> tone_step a None b \<Longrightarrow> I b"
  shows "I s'"
  using assms(1-3) by (induction rule: tone_run.induct) (auto intro: assms(4))

definition idle :: "tone_sys \<Rightarrow> bool" where
  "idle s \<longleftrightarrow> tone_phase s = Waiting \<and> \<not> tone_event s"

definition serving :: "tone_id_t list \<Rightarrow> tone_id_t \<Rightarrow> tone_sys \<Rightarrow> bool" where
  "serving L i s \<longleftrightarrow> (tone_phase s = Waiting \<and> tone_event s \<and> tone_id s = i \<and> tone_log s = L) \<or>
     (tone_phase s = Woken \<and> \<not> tone_event s \<and> tone_id s = i \<and> tone_log s = L) \<or>
     (tone_phase s = Playing i \<and> \<not> tone_event s \<and> tone_log s = L @ [i]) \<or>
     (tone_phase s = Waiting \<and> \<not> tone_event s \<and> tone_log s = L @ [i])"

lemma serving_step: "serving L i a \<Longrightarrow> tone_step a None b \<Longrightarrow> serving L i b"
  by (erule own_stepE) (simp_all add: serving_def)

text \<open>A request that arrives while a tone is played, with its event still set.\<close>

definition overrun :: "tone_id_t list \<Rightarrow> tone_sys \<Rightarrow> bool" where
  "overrun L s \<longleftrightarrow> ((\<exists>i. tone_phase s = Playing i) \<and> tone_event s \<and> tone_log s = L) \<or>
     (tone_id s = TONE_NONE \<and> serving L TONE_NONE s)"

lemma overrun_step: "overrun L a \<Longrightarrow> tone_step a None b \<Longrightarrow> overrun L b"
  by (erule own_stepE) (auto simp: overrun_def serving_def)

section \<open>Properties\<close>


text \<open>A request served without interruption.\<close>

lemma drain:
  assumes "tone_phase s = Waiting" and "tone_event s"
  shows "tone_run s [] (s\<lparr>tone_event := False, tone_log := tone_log s @ [tone_id s],
    tone_id := TONE_NONE, tone_phase := Waiting\<rparr>)"
proof -
  let ?b = "s\<lparr>tone_event := False, tone_phase := Woken\<rparr>"
  let ?c = "?b\<lparr>tone_phase := Playing (tone_id ?b), tone_log := tone_log ?b @ [tone_id ?b]\<rparr>"
  let ?d = "?c\<lparr>tone_id := TONE_NONE, tone_phase := Waiting\<rparr>"
  have "tone_step s None ?b" by (rule wake) (simp_all add: assms)
  moreover have "tone_step ?b None ?c" by (rule begin_tone) simp
  moreover have "tone_step ?c None ?d" by (rule end_tone) simp
  ultimately have "tone_run s [] ?d"
    by (intro silent [of s ?b] silent [of ?b ?c] silent [of ?c ?d] stop)
  then show ?thesis by simp
qed

lemma served_run:
  "tone_run tone_init [TONE_WARNING] (tone_init\<lparr>tone_log := [TONE_WARNING]\<rparr>)"
  using asked [OF request drain, of tone_init TONE_WARNING]
  by (simp add: tones_play_background_def tone_init_def)


text \<open>
  A request to the idle thread is served: when the thread is idle again, that tone has been
  played, once.
\<close>

theorem idle_request_is_played:
  assumes "idle s" and "tone_run (tones_play_background s i) [] s'" and "idle s'"
  shows "tone_log s' = tone_log s @ [i]"
proof -
  have "serving (tone_log s) i (tones_play_background s i)"
    using assms(1) by (simp add: serving_def idle_def tones_play_background_def)
  then have "serving (tone_log s) i s'"
    by (rule quiet_run [OF assms(2) refl]) (rule serving_step)
  then show ?thesis using assms(3) by (auto simp: serving_def idle_def)
qed

theorem idle_request_is_played_witness:
  "tone_log (tone_init\<lparr>tone_log := [TONE_BTN_CLICK]\<rparr>) = [TONE_BTN_CLICK]"
  using idle_request_is_played [of tone_init TONE_BTN_CLICK "tone_init\<lparr>tone_log := [TONE_BTN_CLICK]\<rparr>"]
    drain [of "tones_play_background tone_init TONE_BTN_CLICK"]
  by (simp add: tones_play_background_def tone_init_def idle_def)

text \<open>
  A request made while a tone is playing is lost: the thread resets \<open>tone_id\<close> when the
  tone ends, so what it plays for the pending event is the empty tone.
\<close>

theorem request_while_playing_is_lost:
  assumes "tone_phase s = Playing i" and "tone_run (tones_play_background s j) [] s'"
  shows "tone_log s' = tone_log s \<or> tone_log s' = tone_log s @ [TONE_NONE]"
proof -
  have "overrun (tone_log s) (tones_play_background s j)"
    using assms(1) by (simp add: overrun_def tones_play_background_def)
  then have "overrun (tone_log s) s'"
    by (rule quiet_run [OF assms(2) refl]) (rule overrun_step)
  then show ?thesis by (auto simp: overrun_def serving_def)
qed

definition clicking :: tone_sys where
  "clicking = \<lparr>tone_id = TONE_BTN_CLICK, tone_event = False, tone_phase = Playing TONE_BTN_CLICK,
     tone_log = [TONE_BTN_CLICK]\<rparr>"

theorem request_while_playing_is_lost_witness:
  "\<exists>s'. tone_run (tones_play_background clicking TONE_WARNING) [] s' \<and> idle s' \<and>
    (tone_log s' = [TONE_BTN_CLICK] \<or> tone_log s' = [TONE_BTN_CLICK, TONE_NONE])"
proof -
  let ?a = "tones_play_background clicking TONE_WARNING"
  let ?b = "?a\<lparr>tone_id := TONE_NONE, tone_phase := Waiting\<rparr>"
  have 1: "tone_step ?a None ?b"
    by (rule end_tone [of _ TONE_BTN_CLICK]) (simp add: tones_play_background_def clicking_def)
  have 2: "tone_run ?b [] (?b\<lparr>tone_event := False, tone_log := tone_log ?b @ [tone_id ?b],
      tone_id := TONE_NONE, tone_phase := Waiting\<rparr>)"
    by (rule drain) (simp_all add: tones_play_background_def clicking_def)
  show ?thesis
    using request_while_playing_is_lost [OF _ silent [OF 1 2], of TONE_BTN_CLICK] silent [OF 1 2]
    by (fastforce simp: tones_play_background_def clicking_def idle_def)
qed

text \<open>
  The clock divider of the PWM unit has eight bits, and the code writes
  \<open>80000000 / (256 * freq)\<close> to it: the value arrives unchanged only for frequencies from 1221
  on, and every note in the tables of the program is lower.
\<close>

theorem note_divider_truncated:
  assumes "0 < f"
  shows "\<exists>b'. buzzer_set_freq b f = Some b' \<and>
    (uint (R8_PWM_CLOCK_DIV (bz_pwm b')) = 80000000 div (256 * int f) \<longleftrightarrow> 1221 \<le> f) \<and>
    list_all (\<lambda>ts. list_all (\<lambda>t. tone_note t < 1221) ts)
      [poweron_tones, poweroff_tones, btn_click_tones, btn_long_click_tones, warning_tones,
       calibra_step1_tones, calibra_step2_tones, calibra_step3_tones]"
proof -
  define q where "q = 80000000 div (256 * int f)"
  have le: "q < 256 \<longleftrightarrow> 1221 \<le> f"
  proof -
    have q: "q = 312500 div int f" by (simp add: q_def)
    have e: "int f * q + 312500 mod int f = 312500" unfolding q by (rule mult_div_mod_eq)
    have r: "0 \<le> 312500 mod int f" "312500 mod int f < int f" using assms by simp_all
    show ?thesis
    proof
      assume "q < 256"
      then have "int f * q \<le> int f * 255" by (intro mult_left_mono) simp_all
      then show "1221 \<le> f" using e r by linarith
    next
      assume f: "1221 \<le> f"
      show "q < 256"
      proof (rule ccontr)
        assume "\<not> q < 256"
        then have "int f * 256 \<le> int f * q" by (intro mult_left_mono) simp_all
        then show False using e r f by linarith
      qed
    qed
  qed
  have "0 \<le> q" using assms by (simp add: q_def pos_imp_zdiv_nonneg_iff)
  then have "uint (word_of_int q :: u8) = q \<longleftrightarrow> q < 256"
    by (auto simp: uint_word_of_int mod_pos_pos_trivial dest: mod_pos_pos_trivial [symmetric] intro: ccontr)
  then show ?thesis using assms le
    by (simp add: buzzer_set_freq_def SET_FREQ_def PWMX_CLKCfg_def PWMX_CycleCfg_def tone_tables
        tone_def note_defs q_def Let_def)
qed

definition sample_buzzer :: buzzer where
  "sample_buzzer = \<lparr>bz_pwm = \<lparr>R8_PWM_OUT_EN = 0, R8_PWM_CONFIG = 0, R8_PWM_CLOCK_DIV = 0,
     R8_PWM_POLAR = 0, R8_PWM_DATA = replicate 8 0\<rparr>, buzzer_volume = 128\<rparr>"

theorem note_divider_truncated_witness:
  "\<exists>b'. buzzer_set_freq sample_buzzer 698 = Some b' \<and>
    uint (R8_PWM_CLOCK_DIV (bz_pwm b')) \<noteq> 80000000 div (256 * 698)"
  using note_divider_truncated [of 698 sample_buzzer] by auto

text \<open>Playing a list of notes sounds each of them and leaves the output off.\<close>

lemma play_loop_spec:
  "list_all (\<lambda>t. 0 < tone_note t) ts \<Longrightarrow> \<exists>b' out'. play_loop ts (length ts) b out = Some (b', out @ out') \<and>
     map snd out' = map duration ts \<and> list_all (\<lambda>w. bit (R8_PWM_OUT_EN w) 2) (map fst out') \<and>
     (ts \<noteq> [] \<longrightarrow> \<not> bit (R8_PWM_OUT_EN (bz_pwm b')) 2)"
proof (induction ts arbitrary: b out)
  case Nil
  then show ?case by simp
next
  case (Cons t ts)
  obtain b1 where b1: "buzzer_set_freq b (tone_note t) = Some b1"
    using Cons.prems by (simp add: buzzer_set_freq_def SET_FREQ_def)
  let ?b2 = "buzzer_start b1"
  have on: "bit (R8_PWM_OUT_EN (bz_pwm ?b2)) 2" "\<not> bit (R8_PWM_OUT_EN (bz_pwm (buzzer_stop ?b2))) 2"
    by (simp_all add: buzzer_start_def buzzer_stop_def PWMX_ACTOUT_def Let_def bit_simps CH_PWM6_def)
  obtain b' out' where "play_loop ts (length ts) (buzzer_stop ?b2) (out @ [(bz_pwm ?b2, duration t)]) =
      Some (b', (out @ [(bz_pwm ?b2, duration t)]) @ out')" "map snd out' = map duration ts"
    "list_all (\<lambda>w. bit (R8_PWM_OUT_EN w) 2) (map fst out')"
    "ts \<noteq> [] \<longrightarrow> \<not> bit (R8_PWM_OUT_EN (bz_pwm b')) 2"
    using Cons.IH [of "buzzer_stop ?b2" "out @ [(bz_pwm ?b2, duration t)]"] Cons.prems by auto
  then show ?case using b1 on by (cases ts) auto
qed

text \<open>
  For every tone id the thread's \<open>switch\<close> returns, having sounded exactly the notes of the
  tone's table for their durations, each with the PWM output on, and with the output off at the end.
\<close>

theorem tone_plays_its_table:
  assumes "tones_of i = Some ts"
  shows "\<exists>b' out. play_id i b = Some (b', out) \<and> map snd out = map duration ts \<and>
    list_all (\<lambda>w. bit (R8_PWM_OUT_EN w) 2) (map fst out) \<and> \<not> bit (R8_PWM_OUT_EN (bz_pwm b')) 2"
proof -
  have "list_all (\<lambda>t. 0 < tone_note t) ts" "ts \<noteq> []"
    using assms by (cases i; auto simp: tone_tables tone_def note_defs)+
  then show ?thesis
    using assms play_loop_spec [of ts "buzzer_set_volume b 128" "[]"]
    by (auto simp: play_id_def play_tones_def)
qed

theorem tone_plays_its_table_witness:
  "\<exists>b' out. play_id TONE_CALIBRA_STEP2 sample_buzzer = Some (b', out) \<and>
    map snd out = map duration calibra_step2_tones \<and> \<not> bit (R8_PWM_OUT_EN (bz_pwm b')) 2"
  using tone_plays_its_table [of TONE_CALIBRA_STEP2 calibra_step2_tones sample_buzzer] by auto

end
