(* ===== verification/Radio.thy ===== *)
theory Radio
  imports Params ButtonList Tone Gpio
begin

text \<open>
  The control loop of the transmitter (\<open>Firmware/applications/radio_thread.c\<close>): it reads the
  sticks, scales them with the calibrated ranges into the channels that the radio link sends, fills
  the USB joystick report, runs the calibration and polls the keys. One iteration of the endless
  loop is one function from the state of the thread and the readings of that iteration. The tick
  counter and the encoder are written by interrupts, so every read of them in the source is an input
  of its own.
\<close>

section \<open>State\<close>

definition CHANNEL_MAX :: nat where "CHANNEL_MAX = 8"

definition ROLL :: nat where "ROLL = 0"
definition PITCH :: nat where "PITCH = 1"
definition YAW :: nat where "YAW = 2"
definition THROTTLE :: nat where "THROTTLE = 3"
definition AUX1 :: nat where "AUX1 = 4"
definition AUX2 :: nat where "AUX2 = 5"
definition AUX3 :: nat where "AUX3 = 6"
definition AUX4 :: nat where "AUX4 = 7"

lemmas channel_defs = CHANNEL_MAX_def ROLL_def PITCH_def YAW_def THROTTLE_def AUX1_def AUX2_def
  AUX3_def AUX4_def

definition FLIGHT_MODE_STAB :: u8 where "FLIGHT_MODE_STAB = 0"
definition FLIGHT_MODE_ALT_HOLD :: u8 where "FLIGHT_MODE_ALT_HOLD = 1"
definition FLIGHT_MODE_LOITER :: u8 where "FLIGHT_MODE_LOITER = 2"
definition FLIGHT_MODE_USER :: u8 where "FLIGHT_MODE_USER = 3"

lemmas mode_defs = FLIGHT_MODE_STAB_def FLIGHT_MODE_ALT_HOLD_def FLIGHT_MODE_LOITER_def
  FLIGHT_MODE_USER_def

definition JOYSTICK_CALIBRA_NONE :: u8 where "JOYSTICK_CALIBRA_NONE = 0"
definition JOYSTICK_CALIBRA_STEP1 :: u8 where "JOYSTICK_CALIBRA_STEP1 = 1"
definition JOYSTICK_CALIBRA_STEP2 :: u8 where "JOYSTICK_CALIBRA_STEP2 = 2"
definition JOYSTICK_CALIBRA_STEP3 :: u8 where "JOYSTICK_CALIBRA_STEP3 = 3"

lemmas step_defs = JOYSTICK_CALIBRA_NONE_def JOYSTICK_CALIBRA_STEP1_def JOYSTICK_CALIBRA_STEP2_def
  JOYSTICK_CALIBRA_STEP3_def

record radio_data_t =
  rd_channels :: "int list" \<comment> \<open>\<open>int16_t\<close>\<close>
  last_update :: u32
  battery_level :: u8
  rssi :: u8
  poweron_flag :: bool
  linkup_flag :: bool
  bind_flag :: bool
  calibra_step :: u8
  flight_mode :: u8
  new_mode :: u8

datatype btn_callback = Btn_clicked | Btn_double_clicked | Btn_long_press

record 'e radio_sys =
  radio :: radio_data_t
  params :: params_t
  flash :: 'e
  raw_channels :: "u16 list" \<comment> \<open>the static array \<open>channels\<close>\<close>
  HID_Buffer :: "u8 list"
  button_mem :: "btn_callback btn_mem"
  tones :: tone_sys
  timeout :: u32
  left_last_pos :: int

record readings =
  in_adc :: "nat \<Rightarrow> u16" \<comment> \<open>\<open>adc_read\<close>\<close>
  in_enc1 :: int
  in_enc2 :: int
  in_enc3 :: int
  in_enc4 :: int
  in_tick1 :: u32
  in_tick2 :: u32
  in_tick3 :: u32
  in_tick_end :: u32
  in_keys :: u8

section \<open>Scaling\<close>

definition radio_data_normalize ::
    "int \<Rightarrow> int \<Rightarrow> int \<Rightarrow> int \<Rightarrow> int \<Rightarrow> int \<Rightarrow> int \<Rightarrow> int option" where
  "radio_data_normalize value0 in_min in_mid in_max out_min out_mid out_max =
     (let value1 = (if value0 > in_max then in_max else value0);
          v = (if value1 < in_min then in_min else value1)
      in if v \<ge> in_mid
         then do { q \<leftarrow> c_div ((v - in_mid) * (out_max - out_mid)) (in_max - in_mid);
                   Some (int (to_u16 (out_mid + q))) }
         else do { q \<leftarrow> c_div ((v - in_min) * (out_mid - out_min)) (in_mid - in_min);
                   Some (int (to_u16 (out_min + q))) })"

text \<open>Channel \<open>i\<close> of the parameters.\<close>

definition scale_channel :: "params_t \<Rightarrow> u16 \<Rightarrow> nat \<Rightarrow> int option" where
  "scale_channel p raw i = do {
     mn \<leftarrow> arr_get (pr_min_value p) i;
     md \<leftarrow> arr_get (pr_mid_value p) i;
     mx \<leftarrow> arr_get (pr_max_value p) i;
     radio_data_normalize (int (unat raw)) (int (unat mn)) (int (unat md)) (int (unat mx)) 1000 1500 2000
   }"

text \<open>The two loops that fill \<open>radio.channels\<close>.\<close>

fun fill_sticks :: "params_t \<Rightarrow> u16 list \<Rightarrow> nat \<Rightarrow> nat \<Rightarrow> int list \<Rightarrow> int list option" where
  "fill_sticks p raw i 0 ch = Some ch"
| "fill_sticks p raw i (Suc n) ch = do {
     r \<leftarrow> arr_get raw i;
     v \<leftarrow> scale_channel p r i;
     ch' \<leftarrow> arr_set ch i (to_s16 (if i = ROLL \<or> i = THROTTLE then 3000 - v else v));
     fill_sticks p raw (i + 1) n ch'
   }"

fun fill_aux :: "u16 list \<Rightarrow> nat \<Rightarrow> nat \<Rightarrow> int list \<Rightarrow> int list option" where
  "fill_aux raw i 0 ch = Some ch"
| "fill_aux raw i (Suc n) ch = do {
     r \<leftarrow> arr_get raw i;
     ch' \<leftarrow> arr_set ch i (to_s16 (int (unat r)));
     fill_aux raw (i + 1) n ch'
   }"

text \<open>The loop that fills the report: eleven bits per channel, low byte first.\<close>

fun fill_report :: "int list \<Rightarrow> nat \<Rightarrow> nat \<Rightarrow> u8 list \<Rightarrow> u8 list option" where
  "fill_report ch i 0 buf = Some buf"
| "fill_report ch i (Suc n) buf = do {
     c \<leftarrow> arr_get ch i;
     value \<leftarrow> radio_data_normalize (int (to_u16 c)) 1000 1500 2000 0 1023 2047;
     b1 \<leftarrow> arr_set buf (i * 2 + 3) (word_of_int (to_s16 value) AND 0xFF);
     b2 \<leftarrow> arr_set b1 (i * 2 + 4) (word_of_int (to_s16 value div 256) AND 0x07);
     fill_report ch (i + 1) n b2
   }"

section \<open>Calibration\<close>

definition radio_update_range_min_max :: "params_t \<Rightarrow> nat \<Rightarrow> u16 \<Rightarrow> params_t option" where
  "radio_update_range_min_max p chan v = do {
     mn \<leftarrow> arr_get (pr_min_value p) chan;
     mx \<leftarrow> arr_get (pr_max_value p) chan;
     mns \<leftarrow> arr_set (pr_min_value p) chan (if mn > v then v else mn);
     mxs \<leftarrow> arr_set (pr_max_value p) chan (if mx < v then v else mx);
     Some (p\<lparr>pr_min_value := mns, pr_max_value := mxs\<rparr>)
   }"

definition radio_update_range_mid :: "params_t \<Rightarrow> nat \<Rightarrow> u16 \<Rightarrow> params_t option" where
  "radio_update_range_mid p chan v = do {
     md \<leftarrow> arr_set (pr_mid_value p) chan v;
     Some (p\<lparr>pr_mid_value := md\<rparr>)
   }"

fun reset_ranges :: "params_t \<Rightarrow> nat \<Rightarrow> nat \<Rightarrow> params_t option" where
  "reset_ranges p i 0 = Some p"
| "reset_ranges p i (Suc n) = do {
     mn \<leftarrow> arr_set (pr_min_value p) i RADIO_RANGE_MIN_VALUE;
     mx \<leftarrow> arr_set (pr_max_value p) i RADIO_RANGE_MAX_VALUE;
     reset_ranges (p\<lparr>pr_min_value := mn, pr_max_value := mx\<rparr>) (i + 1) n
   }"

fun update_ranges :: "params_t \<Rightarrow> u16 list \<Rightarrow> nat \<Rightarrow> nat \<Rightarrow> params_t option" where
  "update_ranges p raw i 0 = Some p"
| "update_ranges p raw i (Suc n) = do {
     v \<leftarrow> arr_get raw i;
     p' \<leftarrow> radio_update_range_min_max p i v;
     update_ranges p' raw (i + 1) n
   }"

fun update_mids :: "params_t \<Rightarrow> u16 list \<Rightarrow> nat \<Rightarrow> nat \<Rightarrow> params_t option" where
  "update_mids p raw i 0 = Some p"
| "update_mids p raw i (Suc n) = do {
     v \<leftarrow> arr_get raw i;
     p' \<leftarrow> radio_update_range_mid p i v;
     update_mids p' raw (i + 1) n
   }"

text \<open>The loop that clears \<open>finish\<close> at the first channel whose range is less than 1200.\<close>

fun ranges_wide :: "params_t \<Rightarrow> nat \<Rightarrow> nat \<Rightarrow> bool option" where
  "ranges_wide p i 0 = Some True"
| "ranges_wide p i (Suc n) = do {
     mx \<leftarrow> arr_get (pr_max_value p) i;
     mn \<leftarrow> arr_get (pr_min_value p) i;
     if int (unat mx) - int (unat mn) < 1200 then Some False else ranges_wide p (i + 1) n
   }"

definition calibrate_step1 :: "'e radio_sys \<Rightarrow> readings \<Rightarrow> 'e radio_sys option" where
  "calibrate_step1 s0 r = do {
     s1 \<leftarrow> (if timeout s0 = 0 then do {
               p \<leftarrow> reset_ranges (params s0) 0 JOYSTICK_ADC_MAX_CHANNELS;
               Some (s0\<lparr>params := p, timeout := in_tick1 r\<rparr>)
             } else Some s0);
     p \<leftarrow> update_ranges (params s1) (raw_channels s1) 0 JOYSTICK_ADC_MAX_CHANNELS;
     let s2 = s1\<lparr>params := p\<rparr>;
     if unat (in_tick2 r - timeout s2) > 5000 then do {
       finish \<leftarrow> ranges_wide (params s2) 0 JOYSTICK_ADC_MAX_CHANNELS;
       Some (if finish
             then s2\<lparr>radio := (radio s2)\<lparr>calibra_step := calibra_step (radio s2) + 1\<rparr>, timeout := 0\<rparr>
             else s2)
     }
     else Some s2
   }"

definition calibrate_step2 :: "'e radio_sys \<Rightarrow> readings \<Rightarrow> 'e radio_sys option" where
  "calibrate_step2 s0 r = do {
     let s1 = (if timeout s0 = 0 then s0\<lparr>timeout := in_tick1 r\<rparr> else s0);
     s2 \<leftarrow> (if unat (in_tick2 r - timeout s1) > 2000 then do {
               p \<leftarrow> update_mids (params s1) (raw_channels s1) 0 JOYSTICK_ADC_MAX_CHANNELS;
               Some (s1\<lparr>params := p\<rparr>)
             } else Some s1);
     if unat (in_tick3 r - timeout s2) > 5000 then do {
       finish \<leftarrow> ranges_wide (params s2) 0 JOYSTICK_ADC_MAX_CHANNELS;
       Some (if finish
             then s2\<lparr>radio := (radio s2)\<lparr>calibra_step := calibra_step (radio s2) + 1\<rparr>, timeout := 0\<rparr>
             else s2)
     }
     else Some s2
   }"

definition calibrate_step3 :: "'e flash_ops \<Rightarrow> 'e radio_sys \<Rightarrow> 'e radio_sys option" where
  "calibrate_step3 f s = do {
     (w, p, e) \<leftarrow> params_save f (flash s) ((params s)\<lparr>pr_calibraed := 1\<rparr>);
     Some (s\<lparr>params := p, flash := e,
             radio := (radio s)\<lparr>calibra_step := JOYSTICK_CALIBRA_NONE\<rparr>\<rparr>)
   }"

definition calibrate :: "'e flash_ops \<Rightarrow> 'e radio_sys \<Rightarrow> readings \<Rightarrow> 'e radio_sys option" where
  "calibrate f s r =
     (if calibra_step (radio s) = JOYSTICK_CALIBRA_STEP1 then calibrate_step1 s r
      else if calibra_step (radio s) = JOYSTICK_CALIBRA_STEP2 then calibrate_step2 s r
      else if calibra_step (radio s) = JOYSTICK_CALIBRA_STEP3 then calibrate_step3 f s
      else Some s)"

section \<open>Keys and modes\<close>

definition btn_clicked_callback :: "'e radio_sys \<Rightarrow> btn_callback button_t \<Rightarrow> 'e radio_sys" where
  "btn_clicked_callback s btn =
     (let s1 = s\<lparr>tones := tones_play_background (tones s) TONE_BTN_CLICK\<rparr>
      in if key_id btn = KEY_SW_LEFT \<and> flight_mode (radio s1) \<noteq> new_mode (radio s1)
         then s1\<lparr>radio := (radio s1)\<lparr>flight_mode := new_mode (radio s1)\<rparr>\<rparr> else s1)"

definition btn_double_clicked_callback :: "'e radio_sys \<Rightarrow> btn_callback button_t \<Rightarrow> 'e radio_sys" where
  "btn_double_clicked_callback s btn = s"

definition btn_long_press_callback :: "'e radio_sys \<Rightarrow> btn_callback button_t \<Rightarrow> 'e radio_sys" where
  "btn_long_press_callback s btn =
     (let s1 = s\<lparr>tones := tones_play_background (tones s) TONE_BTN_LONG_CLICK\<rparr>
      in if key_id btn = KEY_SW_RIGHT
         then s1\<lparr>radio := (radio s1)\<lparr>calibra_step := JOYSTICK_CALIBRA_STEP1\<rparr>,
                 params := (params s1)\<lparr>pr_calibraed := 0\<rparr>\<rparr>
         else s1)"

fun run_callback :: "'e radio_sys \<Rightarrow> btn_callback \<times> btn_callback button_t \<Rightarrow> 'e radio_sys" where
  "run_callback s (Btn_clicked, b) = btn_clicked_callback s b"
| "run_callback s (Btn_double_clicked, b) = btn_double_clicked_callback s b"
| "run_callback s (Btn_long_press, b) = btn_long_press_callback s b"

text \<open>No callback touches a button, so they can run after the pass over the buttons.\<close>

definition poll_keys :: "'e radio_sys \<Rightarrow> u8 \<Rightarrow> 'e radio_sys option" where
  "poll_keys s keys = do {
     (m, calls) \<leftarrow> button_process (button_mem s) keys;
     Some (foldl run_callback (s\<lparr>button_mem := m\<rparr>) calls)
   }"

text \<open>The knob chooses the next mode; two counts are one step.\<close>

definition select_mode :: "'e radio_sys \<Rightarrow> readings \<Rightarrow> 'e radio_sys" where
  "select_mode s r =
     (if in_enc1 r \<noteq> left_last_pos s \<and> \<bar>in_enc2 r - left_last_pos s\<bar> \<ge> 2 then
        let s1 = s\<lparr>tones := tones_play_background (tones s) TONE_BTN_CLICK\<rparr>;
            m = new_mode (radio s1);
            m' = (if in_enc3 r > left_last_pos s
                  then (if m + 1 \<ge> FLIGHT_MODE_USER then FLIGHT_MODE_STAB else m + 1)
                  else (if m = FLIGHT_MODE_STAB then FLIGHT_MODE_LOITER else m - 1))
        in s1\<lparr>radio := (radio s1)\<lparr>new_mode := m'\<rparr>, left_last_pos := in_enc4 r\<rparr>
      else s)"

section \<open>One iteration\<close>

definition sample_sticks :: "'e radio_sys \<Rightarrow> readings \<Rightarrow> 'e radio_sys option" where
  "sample_sticks s r = do {
     c1 \<leftarrow> arr_set (raw_channels s) ROLL (in_adc r 2);
     c2 \<leftarrow> arr_set c1 PITCH (in_adc r 3);
     c3 \<leftarrow> arr_set c2 YAW (in_adc r 1);
     c4 \<leftarrow> arr_set c3 THROTTLE (in_adc r 0);
     c5 \<leftarrow> (if flight_mode (radio s) = FLIGHT_MODE_STAB then arr_set c4 AUX1 1000
            else if flight_mode (radio s) = FLIGHT_MODE_ALT_HOLD then arr_set c4 AUX1 1500
            else if flight_mode (radio s) = FLIGHT_MODE_LOITER then arr_set c4 AUX1 2000
            else Some c4);
     c6 \<leftarrow> arr_set c5 AUX2 1000;
     c7 \<leftarrow> arr_set c6 AUX3 1000;
     Some (s\<lparr>raw_channels := c7\<rparr>)
   }"

definition output_channels :: "'e radio_sys \<Rightarrow> 'e radio_sys option" where
  "output_channels s = do {
     ch1 \<leftarrow> fill_sticks (params s) (raw_channels s) 0 4 (rd_channels (radio s));
     ch2 \<leftarrow> fill_aux (raw_channels s) 4 (CHANNEL_MAX - 4) ch1;
     buf \<leftarrow> fill_report ch2 0 CHANNEL_MAX (HID_Buffer s);
     Some (s\<lparr>radio := (radio s)\<lparr>rd_channels := ch2\<rparr>, HID_Buffer := buf\<rparr>)
   }"

text \<open>The result also holds the report handed to \<open>usbd_hid_send_report\<close>, if one was.\<close>

definition radio_thread_step ::
    "'e flash_ops \<Rightarrow> 'e radio_sys \<Rightarrow> readings \<Rightarrow> ('e radio_sys \<times> u8 list option) option" where
  "radio_thread_step f s0 r = do {
     s1 \<leftarrow> sample_sticks s0 r;
     let s2 = select_mode s1 r;
     (s3, report) \<leftarrow>
       (if calibra_step (radio s2) \<noteq> JOYSTICK_CALIBRA_NONE
        then do { s \<leftarrow> calibrate f s2 r; Some (s, None) }
        else do { s \<leftarrow> output_channels s2; Some (s, Some (HID_Buffer s)) });
     s4 \<leftarrow> poll_keys s3 (in_keys r);
     Some (s4\<lparr>radio := (radio s4)\<lparr>last_update := in_tick_end r\<rparr>\<rparr>, report)
   }"

text \<open>What the thread does before the loop.\<close>

definition attach_all :: "btn_callback button_t \<Rightarrow> btn_callback button_t" where
  "attach_all b = button_attach (button_attach (button_attach b SINGLE_CLICK Btn_clicked)
     DOUBLE_CLICK Btn_double_clicked) LONG_RRESS_START Btn_long_press"

fun start_buttons :: "btn_callback btn_mem \<Rightarrow> nat \<Rightarrow> nat \<Rightarrow> btn_callback btn_mem option" where
  "start_buttons m i 0 = Some m"
| "start_buttons m i (Suc n) = do {
     let m1 = m\<lparr>heap := (heap m)(i := attach_all (button_init (heap m i) (push_bit i 1)))\<rparr>;
     (r, m2) \<leftarrow> button_start m1 i;
     start_buttons m2 (i + 1) n
   }"

definition radio_thread_start :: "'e radio_sys \<Rightarrow> int \<Rightarrow> 'e radio_sys option" where
  "radio_thread_start s pos = do {
     m \<leftarrow> start_buttons (button_mem s) 0 4;
     Some (s\<lparr>radio := (radio s)\<lparr>calibra_step := (if pr_calibraed (params s) = 0
                 then JOYSTICK_CALIBRA_STEP1 else JOYSTICK_CALIBRA_NONE)\<rparr>,
             button_mem := m, timeout := 0, left_last_pos := pos\<rparr>)
   }"

definition radio_thread_init :: "'e radio_sys \<Rightarrow> 'e radio_sys" where
  "radio_thread_init s =
     (let s1 = s\<lparr>radio := (radio s)\<lparr>flight_mode := FLIGHT_MODE_ALT_HOLD\<rparr>\<rparr>
      in s1\<lparr>radio := (radio s1)\<lparr>new_mode := flight_mode (radio s1)\<rparr>\<rparr>)"

end
