(* ===== verification/RadioScale.thy ===== *)
theory RadioScale
  imports Radio
begin

text \<open>
  What the scaling and the report of the control loop compute: for calibrated ranges the scaled
  value is defined, in range, monotone and exact at the three calibration points; the report carries
  every channel in eleven bits.
\<close>

section \<open>Interpolation\<close>

definition interp :: "int \<Rightarrow> int \<Rightarrow> int \<Rightarrow> int" where
  "interp a d k = a * k div d"

lemma interp_bounds: "0 \<le> a \<Longrightarrow> a \<le> d \<Longrightarrow> 0 < d \<Longrightarrow> 0 \<le> k \<Longrightarrow> 0 \<le> interp a d k \<and> interp a d k \<le> k"
proof -
  assume a: "0 \<le> a" "a \<le> d" "0 < d" "0 \<le> k"
  then have "a * k div d \<le> d * k div d" by (intro zdiv_mono1 mult_right_mono) simp_all
  then show ?thesis using a by (simp add: interp_def pos_imp_zdiv_nonneg_iff)
qed

lemma interp_mono: "a \<le> b \<Longrightarrow> 0 < d \<Longrightarrow> 0 \<le> k \<Longrightarrow> interp a d k \<le> interp b d k"
  by (simp add: interp_def zdiv_mono1 mult_right_mono)

lemma interp_ends [simp]: "interp 0 d k = 0" "0 < d \<Longrightarrow> interp d d k = k"
  by (simp_all add: interp_def)

definition clamp :: "int \<Rightarrow> int \<Rightarrow> int \<Rightarrow> int" where
  "clamp lo hi v = max lo (min hi v)"

definition scaled :: "int \<Rightarrow> int \<Rightarrow> int \<Rightarrow> int \<Rightarrow> int \<Rightarrow> int \<Rightarrow> int \<Rightarrow> int" where
  "scaled v mn md mx omn omd omx =
     (if clamp mn mx v \<ge> md then omd + interp (clamp mn mx v - md) (mx - md) (omx - omd)
      else omn + interp (clamp mn mx v - mn) (md - mn) (omd - omn))"

lemma scaled_range:
  assumes "mn < md" "md < mx" "omn \<le> omd" "omd \<le> omx"
  shows "omn \<le> scaled v mn md mx omn omd omx" and "scaled v mn md mx omn omd omx \<le> omx"
proof -
  have c: "mn \<le> clamp mn mx v" "clamp mn mx v \<le> mx" using assms by (auto simp: clamp_def)
  show "omn \<le> scaled v mn md mx omn omd omx" "scaled v mn md mx omn omd omx \<le> omx"
    using assms c interp_bounds [of "clamp mn mx v - md" "mx - md" "omx - omd"]
      interp_bounds [of "clamp mn mx v - mn" "md - mn" "omd - omn"]
    by (auto simp: scaled_def)
qed

lemma scaled_mono:
  assumes "mn < md" "md < mx" "omn \<le> omd" "omd \<le> omx" "v \<le> w"
  shows "scaled v mn md mx omn omd omx \<le> scaled w mn md mx omn omd omx"
proof -
  have c: "mn \<le> clamp mn mx v" "clamp mn mx w \<le> mx" "clamp mn mx v \<le> clamp mn mx w"
    using assms by (auto simp: clamp_def)
  consider "clamp mn mx v \<ge> md" | "clamp mn mx w < md" | "clamp mn mx v < md" "clamp mn mx w \<ge> md"
    by linarith
  then show ?thesis
  proof cases
    case 1
    then show ?thesis using assms c interp_mono by (auto simp: scaled_def)
  next
    case 2
    then show ?thesis using assms c interp_mono by (auto simp: scaled_def)
  next
    case 3
    then show ?thesis
      using assms c interp_bounds [of "clamp mn mx v - mn" "md - mn" "omd - omn"]
        interp_bounds [of "clamp mn mx w - md" "mx - md" "omx - omd"]
      by (auto simp: scaled_def)
  qed
qed

lemma scaled_points:
  assumes "mn < md" "md < mx"
  shows "v \<le> mn \<Longrightarrow> scaled v mn md mx omn omd omx = omn"
    and "scaled md mn md mx omn omd omx = omd"
    and "mx \<le> v \<Longrightarrow> scaled v mn md mx omn omd omx = omx"
  using assms by (auto simp: scaled_def clamp_def)

lemma normalize_scaled:
  assumes "mn < md" "md < mx" "0 \<le> omn" "omn \<le> omd" "omd \<le> omx" "omx < 65536"
  shows "radio_data_normalize v mn md mx omn omd omx = Some (scaled v mn md mx omn omd omx)"
proof -
  let ?c = "clamp mn mx v"
  have c: "mn \<le> ?c" "?c \<le> mx" using assms by (auto simp: clamp_def)
  have e: "(let v1 = (if v > mx then mx else v) in if v1 < mn then mn else v1) = ?c"
    using assms by (auto simp: clamp_def Let_def)
  have "int (to_u16 (scaled v mn md mx omn omd omx)) = scaled v mn md mx omn omd omx"
    using scaled_range [OF assms(1,2,4,5)] assms(3,6) by (smt (verit) nat_0_le to_u16_small)
  then show ?thesis
    using assms c unfolding radio_data_normalize_def Let_def e [unfolded Let_def]
    by (auto simp: scaled_def interp_def)
qed

section \<open>The report\<close>

definition report_value :: "u8 list \<Rightarrow> nat \<Rightarrow> int" where
  "report_value buf i = uint (buf ! (i * 2 + 3)) + 256 * uint (buf ! (i * 2 + 4))"

definition joystick :: "int \<Rightarrow> int" where
  "joystick c = scaled (int (to_u16 c)) 1000 1500 2000 0 1023 2047"

lemma joystick_range: "0 \<le> joystick c \<and> joystick c \<le> 2047"
  using scaled_range [of 1000 1500 2000 0 1023 2047] by (simp add: joystick_def)

lemma split_value:
  assumes "0 \<le> v" "v \<le> 2047"
  shows "uint (word_of_int v AND 0xFF :: u8) + 256 * uint (word_of_int (v div 256) AND 0x07 :: u8) = v"
proof -
  have m: "(0xFF :: u8) = - 1" by simp
  have lo: "uint (word_of_int v AND 0xFF :: u8) = v mod 256"
    unfolding m and.right_neutral by (simp add: uint_word_of_int)
  have "0 \<le> v div 256" "v div 256 \<le> 7" using assms by linarith+
  then have "v div 256 \<in> {0, 1, 2, 3, 4, 5, 6, 7}" by auto
  then have "uint (word_of_int (v div 256) AND 0x07 :: u8) = v div 256" by auto
  then show ?thesis unfolding lo by (metis add.commute mult.commute div_mult_mod_eq)
qed

text \<open>Entries of the report not yet written are kept, those written hold their channel.\<close>

lemma fill_report_spec:
  assumes "i + n \<le> length ch" and "length buf = 2 * length ch + 3"
  shows "\<exists>buf'. fill_report ch i n buf = Some buf' \<and> length buf' = length buf \<and>
    (\<forall>j. i \<le> j \<and> j < i + n \<longrightarrow> report_value buf' j = joystick (ch ! j)) \<and>
    (\<forall>k < 2 * i + 3. buf' ! k = buf ! k)"
  using assms
proof (induction n arbitrary: i buf)
  case 0
  then show ?case by auto
next
  case (Suc n)
  let ?v = "joystick (ch ! i)"
  let ?b1 = "buf[i * 2 + 3 := word_of_int ?v AND 0xFF]"
  let ?b2 = "?b1[i * 2 + 4 := word_of_int (?v div 256) AND 0x07]"
  have i: "i < length ch" "i * 2 + 4 < length buf" using Suc.prems by auto
  have s16: "to_s16 ?v = ?v" using joystick_range [of "ch ! i"] by (intro to_s16_small) auto
  have n: "radio_data_normalize (int (to_u16 (ch ! i))) 1000 1500 2000 0 1023 2047 = Some ?v"
    unfolding joystick_def by (rule normalize_scaled) simp_all
  obtain buf' where b: "fill_report ch (Suc i) n ?b2 = Some buf'" "length buf' = length ?b2"
    "\<forall>j. Suc i \<le> j \<and> j < Suc i + n \<longrightarrow> report_value buf' j = joystick (ch ! j)"
    "\<forall>k < 2 * Suc i + 3. buf' ! k = ?b2 ! k"
    using Suc.IH [of "Suc i" ?b2] Suc.prems by auto
  have "report_value buf' i = ?v"
    using b(4) i split_value [of ?v] joystick_range [of "ch ! i"]
    by (simp add: report_value_def)
  moreover have "fill_report ch i (Suc n) buf = Some buf'"
    using b(1) i n by (simp add: s16)
  moreover have "\<forall>k < 2 * i + 3. buf' ! k = buf ! k" using b(4) by simp
  ultimately show ?case unfolding all_from_Suc using b by auto
qed


section \<open>The channels\<close>

definition sticks_ok :: "params_t \<Rightarrow> bool" where
  "sticks_ok p \<longleftrightarrow> (\<forall>i<4. pr_min_value p ! i < pr_mid_value p ! i \<and> pr_mid_value p ! i < pr_max_value p ! i)"

definition stick_value :: "params_t \<Rightarrow> u16 list \<Rightarrow> nat \<Rightarrow> int" where
  "stick_value p raw i =
     (let v = scaled (uint (raw ! i)) (uint (pr_min_value p ! i)) (uint (pr_mid_value p ! i))
                (uint (pr_max_value p ! i)) 1000 1500 2000
      in if i = ROLL \<or> i = THROTTLE then 3000 - v else v)"

lemma sticks_okD:
  "sticks_ok p \<Longrightarrow> i < 4 \<Longrightarrow> uint (pr_min_value p ! i) < uint (pr_mid_value p ! i) \<and>
     uint (pr_mid_value p ! i) < uint (pr_max_value p ! i)"
  by (simp add: sticks_ok_def word_less_def)

lemma stick_value_range:
  "sticks_ok p \<Longrightarrow> i < 4 \<Longrightarrow> 1000 \<le> stick_value p raw i \<and> stick_value p raw i \<le> 2000"
  using scaled_range [of "uint (pr_min_value p ! i)" "uint (pr_mid_value p ! i)"
      "uint (pr_max_value p ! i)" 1000 1500 2000 "uint (raw ! i)"] sticks_okD [of p i]
  by (auto simp: stick_value_def Let_def)

lemma fill_sticks_spec:
  assumes "params_wf p" and "sticks_ok p" and "length raw = 8" and "length ch = 8" and "i + n \<le> 4"
  shows "\<exists>ch'. fill_sticks p raw i n ch = Some ch' \<and> length ch' = 8 \<and>
    (\<forall>j. i \<le> j \<and> j < i + n \<longrightarrow> ch' ! j = stick_value p raw j) \<and>
    (\<forall>j. j < i \<or> 4 \<le> j \<longrightarrow> ch' ! j = ch ! j)"
  using assms(4,5)
proof (induction n arbitrary: i ch)
  case 0
  then show ?case by auto
next
  case (Suc n)
  let ?ch = "ch[i := stick_value p raw i]"
  have i: "i < 4" using Suc.prems by simp
  have "scale_channel p (raw ! i) i = Some (scaled (uint (raw ! i)) (uint (pr_min_value p ! i))
      (uint (pr_mid_value p ! i)) (uint (pr_max_value p ! i)) 1000 1500 2000)"
    using assms(1) i sticks_okD [OF assms(2) i]
    by (simp add: scale_channel_def params_wf_def MAX_RC_CHANNELS_def normalize_scaled)
  moreover have "to_s16 (stick_value p raw i) = stick_value p raw i"
    using stick_value_range [OF assms(2) i, of raw] by (intro to_s16_small) auto
  ultimately have "fill_sticks p raw i (Suc n) ch = fill_sticks p raw (Suc i) n ?ch"
    using i assms(3) Suc.prems by (simp add: stick_value_def Let_def)
  moreover obtain ch' where "fill_sticks p raw (Suc i) n ?ch = Some ch'" "length ch' = 8"
    "\<forall>j. Suc i \<le> j \<and> j < Suc i + n \<longrightarrow> ch' ! j = stick_value p raw j"
    "\<forall>j. j < Suc i \<or> 4 \<le> j \<longrightarrow> ch' ! j = ?ch ! j"
    using Suc.IH [of ?ch "Suc i"] Suc.prems by auto
  ultimately show ?case using i Suc.prems unfolding all_from_Suc by auto
qed

lemma fill_aux_spec:
  assumes "length raw = 8" and "length ch = 8" and "i + n = 8"
  shows "\<exists>ch'. fill_aux raw i n ch = Some ch' \<and> length ch' = 8 \<and>
    (\<forall>j. i \<le> j \<and> j < i + n \<longrightarrow> ch' ! j = sint (raw ! j)) \<and> (\<forall>j<i. ch' ! j = ch ! j)"
  using assms(2,3)
proof (induction n arbitrary: i ch)
  case 0
  then show ?case by auto
next
  case (Suc n)
  let ?ch = "ch[i := sint (raw ! i)]"
  have "fill_aux raw i (Suc n) ch = fill_aux raw (Suc i) n ?ch"
    using assms(1) Suc.prems by simp
  moreover obtain ch' where "fill_aux raw (Suc i) n ?ch = Some ch'" "length ch' = 8"
    "\<forall>j. Suc i \<le> j \<and> j < Suc i + n \<longrightarrow> ch' ! j = sint (raw ! j)"
    "\<forall>j<Suc i. ch' ! j = ?ch ! j"
    using Suc.IH [of ?ch "Suc i"] Suc.prems by auto
  ultimately show ?case using Suc.prems unfolding all_from_Suc by auto
qed

lemma output_spec:
  assumes "params_wf (params s)" and "sticks_ok (params s)" and "length (raw_channels s) = 8"
    and "length (rd_channels (radio s)) = 8" and "length (HID_Buffer s) = 19"
  shows "\<exists>ch buf. output_channels s =
      Some (s\<lparr>radio := (radio s)\<lparr>rd_channels := ch\<rparr>, HID_Buffer := buf\<rparr>) \<and>
    length ch = 8 \<and> length buf = 19 \<and>
    (\<forall>i<4. ch ! i = stick_value (params s) (raw_channels s) i) \<and>
    (\<forall>i. 4 \<le> i \<and> i < 8 \<longrightarrow> ch ! i = sint (raw_channels s ! i)) \<and>
    (\<forall>i<8. report_value buf i = joystick (ch ! i)) \<and> (\<forall>k<3. buf ! k = HID_Buffer s ! k)"
proof -
  obtain c1 where c1: "fill_sticks (params s) (raw_channels s) 0 4 (rd_channels (radio s)) = Some c1"
    "length c1 = 8" "\<forall>j. 0 \<le> j \<and> j < 0 + 4 \<longrightarrow> c1 ! j = stick_value (params s) (raw_channels s) j"
    using fill_sticks_spec [OF assms(1-4), of 0 4] by auto
  obtain c2 where c2: "fill_aux (raw_channels s) 4 4 c1 = Some c2" "length c2 = 8"
    "\<forall>j. 4 \<le> j \<and> j < 4 + 4 \<longrightarrow> c2 ! j = sint (raw_channels s ! j)" "\<forall>j<4. c2 ! j = c1 ! j"
    using fill_aux_spec [OF assms(3) c1(2), of 4 4] by auto
  obtain buf where buf: "fill_report c2 0 8 (HID_Buffer s) = Some buf" "length buf = 19"
    "\<forall>j. 0 \<le> j \<and> j < 0 + 8 \<longrightarrow> report_value buf j = joystick (c2 ! j)"
    "\<forall>k < 2 * 0 + 3. buf ! k = HID_Buffer s ! k"
    using fill_report_spec [of 0 8 c2 "HID_Buffer s"] c2(2) assms(5) by auto
  show ?thesis
    using c1 c2 buf by (intro exI [of _ c2] exI [of _ buf]) (simp add: output_channels_def CHANNEL_MAX_def)
qed

end
