(* ===== verification/RadioLoop.thy ===== *)
theory RadioLoop
  imports RadioScale
begin

text \<open>
  The control loop as a whole: an invariant that every iteration keeps, when an iteration can fail,
  what it sends, and what the calibration achieves.
\<close>

section \<open>Invariant\<close>

definition wide :: "params_t \<Rightarrow> bool" where
  "wide p \<longleftrightarrow> (\<forall>i<4. pr_min_value p ! i \<le> 1500 \<and> 3500 \<le> pr_max_value p ! i)"

definition buttons_ok :: "btn_callback btn_mem \<Rightarrow> bool" where
  "buttons_ok m \<longleftrightarrow> chain (heap m) (btn_list m) [3, 2, 1, 0]"

definition radio_inv :: "'e radio_sys \<Rightarrow> bool" where
  "radio_inv s \<longleftrightarrow> params_wf (params s) \<and> length (raw_channels s) = 8 \<and>
     length (HID_Buffer s) = 19 \<and> length (rd_channels (radio s)) = 8 \<and>
     buttons_ok (button_mem s) \<and>
     flight_mode (radio s) \<in> {0, 1, 2} \<and> new_mode (radio s) \<in> {0, 1, 2} \<and>
     calibra_step (radio s) \<in> {0, 1, 2, 3} \<and>
     (calibra_step (radio s) \<in> {0, 3} \<longrightarrow> timeout s = 0) \<and>
     (calibra_step (radio s) \<in> {2, 3} \<or> timeout s \<noteq> 0 \<longrightarrow> wide (params s))"

lemma radio_invD:
  assumes "radio_inv s"
  shows "params_wf (params s)" and "length (raw_channels s) = 8" and "length (HID_Buffer s) = 19"
    and "length (rd_channels (radio s)) = 8" and "buttons_ok (button_mem s)"
  using assms by (simp_all add: radio_inv_def)

section \<open>The calibration loops\<close>

lemma reset_ranges_spec:
  assumes "params_wf p" and "i + n \<le> 4"
  shows "\<exists>p'. reset_ranges p i n = Some p' \<and> params_wf p' \<and>
    (\<forall>j. i \<le> j \<and> j < i + n \<longrightarrow> pr_min_value p' ! j = 1500 \<and> pr_max_value p' ! j = 3500) \<and>
    (\<forall>j<i. pr_min_value p' ! j = pr_min_value p ! j \<and> pr_max_value p' ! j = pr_max_value p ! j)"
  using assms
proof (induction n arbitrary: i p)
  case 0
  then show ?case by auto
next
  case (Suc n)
  let ?p = "p\<lparr>pr_min_value := (pr_min_value p)[i := RADIO_RANGE_MIN_VALUE],
    pr_max_value := (pr_max_value p)[i := RADIO_RANGE_MAX_VALUE]\<rparr>"
  have len: "length (pr_min_value p) = 8" "length (pr_max_value p) = 8"
    using Suc.prems by (simp_all add: params_wf_def MAX_RC_CHANNELS_def)
  obtain p' where p': "reset_ranges ?p (Suc i) n = Some p'" "params_wf p'"
    "\<forall>j. Suc i \<le> j \<and> j < Suc i + n \<longrightarrow> pr_min_value p' ! j = 1500 \<and> pr_max_value p' ! j = 3500"
    "\<forall>j<Suc i. pr_min_value p' ! j = pr_min_value ?p ! j \<and> pr_max_value p' ! j = pr_max_value ?p ! j"
    using Suc.IH [of ?p "Suc i"] Suc.prems by (auto simp: params_wf_def)
  moreover have "reset_ranges p i (Suc n) = Some p'" using p'(1) len Suc.prems by simp
  ultimately show ?case unfolding all_from_Suc using len Suc.prems by (auto simp: range_defs)
qed

text \<open>Updating the extremes never narrows a range.\<close>

lemma update_ranges_spec:
  assumes "params_wf p" and "length raw = 8" and "i + n \<le> 4"
  shows "\<exists>p'. update_ranges p raw i n = Some p' \<and> params_wf p' \<and>
    (\<forall>j. i \<le> j \<and> j < i + n \<longrightarrow> pr_min_value p' ! j = min (pr_min_value p ! j) (raw ! j) \<and>
       pr_max_value p' ! j = max (pr_max_value p ! j) (raw ! j)) \<and>
    (\<forall>j<i. pr_min_value p' ! j = pr_min_value p ! j \<and> pr_max_value p' ! j = pr_max_value p ! j)"
  using assms
proof (induction n arbitrary: i p)
  case 0
  then show ?case by auto
next
  case (Suc n)
  let ?p = "p\<lparr>pr_min_value := (pr_min_value p)[i := min (pr_min_value p ! i) (raw ! i)],
    pr_max_value := (pr_max_value p)[i := max (pr_max_value p ! i) (raw ! i)]\<rparr>"
  have len: "length (pr_min_value p) = 8" "length (pr_max_value p) = 8"
    using Suc.prems by (simp_all add: params_wf_def MAX_RC_CHANNELS_def)
  obtain p' where p': "update_ranges ?p raw (Suc i) n = Some p'" "params_wf p'"
    "\<forall>j. Suc i \<le> j \<and> j < Suc i + n \<longrightarrow> pr_min_value p' ! j = min (pr_min_value ?p ! j) (raw ! j) \<and>
       pr_max_value p' ! j = max (pr_max_value ?p ! j) (raw ! j)"
    "\<forall>j<Suc i. pr_min_value p' ! j = pr_min_value ?p ! j \<and> pr_max_value p' ! j = pr_max_value ?p ! j"
    using Suc.IH [of ?p "Suc i"] Suc.prems by (auto simp: params_wf_def)
  have e: "(if v < m then v else m) = min m v" "(if m < v then v else m) = max m v" for m v :: u16
    by (auto simp: min_def max_def)
  have "radio_update_range_min_max p i (raw ! i) = Some ?p"
    using len Suc.prems by (simp add: radio_update_range_min_max_def e)
  then have "update_ranges p raw i (Suc n) = Some p'" using p'(1) Suc.prems by simp
  then show ?case unfolding all_from_Suc using p' len Suc.prems by auto
qed

lemma update_mids_spec:
  assumes "params_wf p" and "length raw = 8" and "i + n \<le> 4"
  shows "\<exists>p'. update_mids p raw i n = Some p' \<and> params_wf p' \<and>
    pr_min_value p' = pr_min_value p \<and> pr_max_value p' = pr_max_value p \<and>
    (\<forall>j. i \<le> j \<and> j < i + n \<longrightarrow> pr_mid_value p' ! j = raw ! j) \<and>
    (\<forall>j<i. pr_mid_value p' ! j = pr_mid_value p ! j)"
  using assms
proof (induction n arbitrary: i p)
  case 0
  then show ?case by auto
next
  case (Suc n)
  let ?p = "p\<lparr>pr_mid_value := (pr_mid_value p)[i := raw ! i]\<rparr>"
  have len: "length (pr_mid_value p) = 8"
    using Suc.prems by (simp add: params_wf_def MAX_RC_CHANNELS_def)
  obtain p' where p': "update_mids ?p raw (Suc i) n = Some p'" "params_wf p'"
    "pr_min_value p' = pr_min_value ?p" "pr_max_value p' = pr_max_value ?p"
    "\<forall>j. Suc i \<le> j \<and> j < Suc i + n \<longrightarrow> pr_mid_value p' ! j = raw ! j"
    "\<forall>j<Suc i. pr_mid_value p' ! j = pr_mid_value ?p ! j"
    using Suc.IH [of ?p "Suc i"] Suc.prems by (auto simp: params_wf_def)
  then have "update_mids p raw i (Suc n) = Some p'"
    using len Suc.prems by (simp add: radio_update_range_mid_def)
  then show ?case unfolding all_from_Suc using p' len Suc.prems by auto
qed

lemma ranges_wide_spec:
  "params_wf p \<Longrightarrow> wide p \<Longrightarrow> i + n \<le> 4 \<Longrightarrow> ranges_wide p i n = Some True"
proof (induction n arbitrary: i)
  case 0
  then show ?case by simp
next
  case (Suc n)
  then have "pr_min_value p ! i \<le> 1500" "3500 \<le> pr_max_value p ! i" by (simp_all add: wide_def)
  then have "uint (pr_min_value p ! i) \<le> 1500" "3500 \<le> uint (pr_max_value p ! i)"
    by (simp_all add: word_le_def)
  then show ?case using Suc by (simp add: params_wf_def MAX_RC_CHANNELS_def)
qed

lemma wide_reset:
  "\<forall>j. 0 \<le> j \<and> j < 0 + 4 \<longrightarrow> pr_min_value p ! j = 1500 \<and> pr_max_value p ! j = 3500 \<Longrightarrow> wide p"
  by (simp add: wide_def)

lemma wide_update:
  assumes "wide p" and "\<forall>j. 0 \<le> j \<and> j < 0 + 4 \<longrightarrow>
    pr_min_value p' ! j = min (pr_min_value p ! j) (raw ! j) \<and>
    pr_max_value p' ! j = max (pr_max_value p ! j) (raw ! j)"
  shows "wide p'"
  using assms by (auto simp: wide_def min_le_iff_disj le_max_iff_disj)

lemma wide_mids:
  "wide p \<Longrightarrow> pr_min_value p' = pr_min_value p \<Longrightarrow> pr_max_value p' = pr_max_value p \<Longrightarrow> wide p'"
  by (simp add: wide_def)

text \<open>Step 1 always ends with ranges of at least 2000, so its check of 1200 always passes.\<close>

lemma step1_spec:
  assumes "radio_inv s" and "calibra_step (radio s) = 1"
  shows "\<exists>p t. wide p \<and> params_wf p \<and>
    calibrate_step1 s r = Some (
      if 5000 < unat (in_tick2 r - t)
      then s\<lparr>radio := (radio s)\<lparr>calibra_step := 2\<rparr>, params := p, timeout := 0\<rparr>
      else s\<lparr>params := p, timeout := t\<rparr>) \<and> t = (if timeout s = 0 then in_tick1 r else timeout s)"
proof -
  define t where "t = (if timeout s = 0 then in_tick1 r else timeout s)"
  have inv: "params_wf (params s)" "length (raw_channels s) = 8"
    "timeout s \<noteq> 0 \<longrightarrow> wide (params s)"
    using assms by (auto simp: radio_inv_def)
  obtain p0 where p0: "(if timeout s = 0 then do {
        p \<leftarrow> reset_ranges (params s) 0 JOYSTICK_ADC_MAX_CHANNELS;
        Some (s\<lparr>params := p, timeout := in_tick1 r\<rparr>)
      } else Some s) = Some (s\<lparr>params := p0, timeout := t\<rparr>)" "params_wf p0" "wide p0"
  proof (cases "timeout s = 0")
    case True
    obtain p where "reset_ranges (params s) 0 4 = Some p" "params_wf p" "wide p"
      using reset_ranges_spec [OF inv(1), of 0 4] wide_reset by fastforce
    then show thesis
      using True that [of p] by (simp add: t_def JOYSTICK_ADC_MAX_CHANNELS_def)
  next
    case False
    then show thesis using inv that [of "params s"] by (simp add: t_def)
  qed
  obtain p where p: "update_ranges p0 (raw_channels s) 0 4 = Some p" "params_wf p" "wide p"
    using update_ranges_spec [OF p0(2) inv(2), of 0 4] wide_update [OF p0(3)] by fastforce
  have "ranges_wide p 0 4 = Some True" by (rule ranges_wide_spec [OF p(2,3)]) simp
  then have "calibrate_step1 s r = Some (if 5000 < unat (in_tick2 r - t)
      then s\<lparr>radio := (radio s)\<lparr>calibra_step := 2\<rparr>, params := p, timeout := 0\<rparr>
      else s\<lparr>params := p, timeout := t\<rparr>)"
    using p(1) assms(2) by (simp add: calibrate_step1_def p0(1) JOYSTICK_ADC_MAX_CHANNELS_def Let_def)
  then show ?thesis using p t_def by auto
qed

lemma timeout_params: "s\<lparr>timeout := t, params := p\<rparr> = s\<lparr>params := p, timeout := t\<rparr>"
  by (cases s) simp

lemma step2_spec:
  assumes "radio_inv s" and "calibra_step (radio s) = 2"
  shows "\<exists>p t. wide p \<and> params_wf p \<and>
    calibrate_step2 s r = Some (
      if 5000 < unat (in_tick3 r - t)
      then s\<lparr>radio := (radio s)\<lparr>calibra_step := 3\<rparr>, params := p, timeout := 0\<rparr>
      else s\<lparr>params := p, timeout := t\<rparr>) \<and> t = (if timeout s = 0 then in_tick1 r else timeout s) \<and>
    (2000 < unat (in_tick2 r - t) \<longrightarrow> (\<forall>j<4. pr_mid_value p ! j = raw_channels s ! j))"
proof -
  define t where "t = (if timeout s = 0 then in_tick1 r else timeout s)"
  have inv: "params_wf (params s)" "length (raw_channels s) = 8" "wide (params s)"
    using assms by (auto simp: radio_inv_def)
  define mids where "mids = (2000 < unat (in_tick2 r - t))"
  obtain p where p: "mids \<longrightarrow> update_mids (params s) (raw_channels s) 0 4 = Some p"
    "\<not> mids \<longrightarrow> p = params s" "params_wf p" "wide p"
    "mids \<longrightarrow> (\<forall>j<4. pr_mid_value p ! j = raw_channels s ! j)"
  proof (cases mids)
    case True
    obtain p where "update_mids (params s) (raw_channels s) 0 4 = Some p" "params_wf p" "wide p"
      "\<forall>j<4. pr_mid_value p ! j = raw_channels s ! j"
      using update_mids_spec [OF inv(1,2), of 0 4] wide_mids [OF inv(3)] by fastforce
    then show thesis using True that [of p] by simp
  next
    case False
    then show thesis using inv that [of "params s"] by simp
  qed
  have w: "ranges_wide p 0 4 = Some True" by (rule ranges_wide_spec [OF p(3,4)]) simp
  have t: "(if timeout s = 0 then s\<lparr>timeout := in_tick1 r\<rparr> else s) = s\<lparr>timeout := t\<rparr>"
    by (simp add: t_def)
  have "calibrate_step2 s r = Some (if 5000 < unat (in_tick3 r - t)
      then s\<lparr>radio := (radio s)\<lparr>calibra_step := 3\<rparr>, params := p, timeout := 0\<rparr>
      else s\<lparr>params := p, timeout := t\<rparr>)"
  proof (cases mids)
    case True
    then show ?thesis
      using p(1) w assms(2) unfolding calibrate_step2_def t Let_def
      by (simp add: JOYSTICK_ADC_MAX_CHANNELS_def timeout_params flip: mids_def)
  next
    case False
    then show ?thesis
      using p(2) w assms(2) unfolding calibrate_step2_def t Let_def
      by (simp add: JOYSTICK_ADC_MAX_CHANNELS_def flip: mids_def)
  qed
  moreover have "2000 < unat (in_tick2 r - t) \<longrightarrow> (\<forall>j<4. pr_mid_value p ! j = raw_channels s ! j)"
    using p(5) by (simp add: mids_def)
  ultimately show ?thesis using p(3,4) t_def by blast
qed

lemma step3_spec:
  assumes "radio_inv s"
  shows "\<exists>p e w. params_save f (flash s) ((params s)\<lparr>pr_calibraed := 1\<rparr>) = Some (w, p, e) \<and>
    calibrate_step3 f s = Some (s\<lparr>params := p, flash := e,
      radio := (radio s)\<lparr>calibra_step := 0\<rparr>\<rparr>) \<and> params_wf p \<and>
    pr_min_value p = pr_min_value (params s) \<and> pr_mid_value p = pr_mid_value (params s) \<and>
    pr_max_value p = pr_max_value (params s)"
proof -
  have "params_wf ((params s)\<lparr>pr_calibraed := 1\<rparr>)"
    using assms by (simp add: radio_inv_def params_wf_def)
  from save_spec [OF this, of f "flash s"] this show ?thesis
    by (simp add: calibrate_step3_def Let_def JOYSTICK_CALIBRA_NONE_def)
qed

section \<open>The parts of an iteration\<close>

lemma sample_spec:
  assumes "radio_inv s"
  shows "\<exists>raw. sample_sticks s r = Some (s\<lparr>raw_channels := raw\<rparr>) \<and> length raw = 8 \<and>
    raw ! 0 = in_adc r 2 \<and> raw ! 1 = in_adc r 3 \<and> raw ! 2 = in_adc r 1 \<and> raw ! 3 = in_adc r 0 \<and>
    raw ! 4 = (if flight_mode (radio s) = 0 then 1000 else if flight_mode (radio s) = 1 then 1500 else 2000) \<and>
    raw ! 5 = 1000 \<and> raw ! 6 = 1000 \<and> raw ! 7 = raw_channels s ! 7"
proof -
  have l: "length (raw_channels s) = 8" and m: "flight_mode (radio s) \<in> {0, 1, 2}"
    using assms by (simp_all add: radio_inv_def)
  define v :: u16 where
    "v = (if flight_mode (radio s) = 0 then 1000 else if flight_mode (radio s) = 1 then 1500 else 2000)"
  let ?raw = "(raw_channels s)[0 := in_adc r 2, 1 := in_adc r 3, 2 := in_adc r 1, 3 := in_adc r 0,
    4 := v, 5 := 1000, 6 := 1000]"
  from m consider "flight_mode (radio s) = 0" | "flight_mode (radio s) = 1" | "flight_mode (radio s) = 2"
    by blast
  then have "sample_sticks s r = Some (s\<lparr>raw_channels := ?raw\<rparr>)"
    by cases (simp_all add: sample_sticks_def channel_defs mode_defs l v_def)
  then show ?thesis by (intro exI [of _ ?raw]) (simp add: l v_def)
qed

lemma sample_inv: "radio_inv s \<Longrightarrow> length raw = 8 \<Longrightarrow> radio_inv (s\<lparr>raw_channels := raw\<rparr>)"
  by (simp add: radio_inv_def)

lemma select_mode_eq:
  "\<exists>m t pos. select_mode s r = s\<lparr>radio := (radio s)\<lparr>new_mode := m\<rparr>, tones := t, left_last_pos := pos\<rparr> \<and>
     (new_mode (radio s) \<in> {0, 1, 2} \<longrightarrow> m \<in> {0, 1, 2})"
proof (cases "in_enc1 r \<noteq> left_last_pos s \<and> \<bar>in_enc2 r - left_last_pos s\<bar> \<ge> 2")
  case True
  let ?m = "if in_enc3 r > left_last_pos s
    then (if new_mode (radio s) + 1 \<ge> FLIGHT_MODE_USER then FLIGHT_MODE_STAB else new_mode (radio s) + 1)
    else (if new_mode (radio s) = FLIGHT_MODE_STAB then FLIGHT_MODE_LOITER else new_mode (radio s) - 1)"
  have "new_mode (radio s) \<in> {0, 1, 2} \<longrightarrow> ?m \<in> {0, 1, 2}" by (auto simp: mode_defs)
  moreover have "select_mode s r = s\<lparr>radio := (radio s)\<lparr>new_mode := ?m\<rparr>,
      tones := tones_play_background (tones s) TONE_BTN_CLICK, left_last_pos := in_enc4 r\<rparr>"
    using True unfolding select_mode_def Let_def by (cases s) simp
  ultimately show ?thesis by blast
next
  case False
  have "s = s\<lparr>radio := (radio s)\<lparr>new_mode := new_mode (radio s)\<rparr>, tones := tones s,
      left_last_pos := left_last_pos s\<rparr>" by simp
  moreover have "select_mode s r = s" using False unfolding select_mode_def by (simp only: if_False)
  ultimately show ?thesis by metis
qed

lemma select_inv:
  assumes "radio_inv s"
  shows "radio_inv (select_mode s r)" and "raw_channels (select_mode s r) = raw_channels s"
    and "params (select_mode s r) = params s" and "flash (select_mode s r) = flash s"
    and "calibra_step (radio (select_mode s r)) = calibra_step (radio s)"
    and "flight_mode (radio (select_mode s r)) = flight_mode (radio s)"
    and "timeout (select_mode s r) = timeout s" and "HID_Buffer (select_mode s r) = HID_Buffer s"
    and "button_mem (select_mode s r) = button_mem s"
proof -
  obtain m t pos where e: "select_mode s r =
      s\<lparr>radio := (radio s)\<lparr>new_mode := m\<rparr>, tones := t, left_last_pos := pos\<rparr>"
    and m: "new_mode (radio s) \<in> {0, 1, 2} \<longrightarrow> m \<in> {0, 1, 2}"
    using select_mode_eq [of s r] by blast
  show "radio_inv (select_mode s r)" using assms m unfolding e by (simp add: radio_inv_def)
  show "raw_channels (select_mode s r) = raw_channels s" "params (select_mode s r) = params s"
    "flash (select_mode s r) = flash s"
    "calibra_step (radio (select_mode s r)) = calibra_step (radio s)"
    "flight_mode (radio (select_mode s r)) = flight_mode (radio s)"
    "timeout (select_mode s r) = timeout s" "HID_Buffer (select_mode s r) = HID_Buffer s"
    "button_mem (select_mode s r) = button_mem s"
    unfolding e by simp_all
qed

lemma run_callback_eq:
  "\<exists>t m st cal. run_callback s c = s\<lparr>radio := (radio s)\<lparr>calibra_step := st, flight_mode := m\<rparr>,
     params := (params s)\<lparr>pr_calibraed := cal\<rparr>, tones := t\<rparr> \<and>
     (m = flight_mode (radio s) \<or> m = new_mode (radio s)) \<and> (st = calibra_step (radio s) \<or> st = 1)"
proof (cases c)
  case (Pair f b)
  note defs = btn_clicked_callback_def btn_double_clicked_callback_def btn_long_press_callback_def
    Let_def step_defs
  show ?thesis
  proof (cases f)
    case Btn_clicked
    show ?thesis unfolding Pair Btn_clicked
      by (intro exI [of _ "tones_play_background (tones s) TONE_BTN_CLICK"]
          exI [of _ "if key_id b = KEY_SW_LEFT then new_mode (radio s) else flight_mode (radio s)"]
          exI [of _ "calibra_step (radio s)"] exI [of _ "pr_calibraed (params s)"] conjI
          radio_sys.equality) (simp_all add: defs)
  next
    case Btn_double_clicked
    show ?thesis unfolding Pair Btn_double_clicked
      by (intro exI [of _ "tones s"] exI [of _ "flight_mode (radio s)"]
          exI [of _ "calibra_step (radio s)"] exI [of _ "pr_calibraed (params s)"] conjI
          radio_sys.equality) (simp_all add: defs)
  next
    case Btn_long_press
    show ?thesis unfolding Pair Btn_long_press
      by (intro exI [of _ "tones_play_background (tones s) TONE_BTN_LONG_CLICK"]
          exI [of _ "flight_mode (radio s)"]
          exI [of _ "if key_id b = KEY_SW_RIGHT then 1 else calibra_step (radio s)"]
          exI [of _ "if key_id b = KEY_SW_RIGHT then 0 else pr_calibraed (params s)"] conjI
          radio_sys.equality) (simp_all add: defs)
  qed
qed

lemma callback_inv:
  assumes "radio_inv s"
  shows "radio_inv (run_callback s c)"
proof -
  obtain t m st cal where e: "run_callback s c = s\<lparr>radio := (radio s)\<lparr>calibra_step := st, flight_mode := m\<rparr>,
     params := (params s)\<lparr>pr_calibraed := cal\<rparr>, tones := t\<rparr>"
    "m = flight_mode (radio s) \<or> m = new_mode (radio s)" "st = calibra_step (radio s) \<or> st = 1"
    using run_callback_eq [of s c] by blast
  have w: "params_wf ((params s)\<lparr>pr_calibraed := cal\<rparr>) = params_wf (params s)"
    "wide ((params s)\<lparr>pr_calibraed := cal\<rparr>) = wide (params s)"
    by (simp_all add: params_wf_def wide_def)
  from e(2) have "m \<in> {0, 1, 2}" using assms by (auto simp: radio_inv_def)
  with e(3) show ?thesis
    using assms unfolding e(1) by (elim disjE) (simp_all add: radio_inv_def w)
qed

interpretation callbacks: machine run_callback radio_inv
  by unfold_locales (rule callback_inv)

lemma poll_spec:
  assumes "radio_inv s"
  shows "\<exists>m calls. button_process (button_mem s) keys = Some (m, calls) \<and>
    poll_keys s keys = Some (foldl run_callback (s\<lparr>button_mem := m\<rparr>) calls) \<and>
    radio_inv (foldl run_callback (s\<lparr>button_mem := m\<rparr>) calls)"
proof -
  obtain m calls where m: "button_process (button_mem s) keys = Some (m, calls)" "buttons_ok m"
    using process_chain [of "button_mem s" "[3, 2, 1, 0]" keys] radio_invD(5) [OF assms]
    by (auto simp: buttons_ok_def)
  have "radio_inv (s\<lparr>button_mem := m\<rparr>)" using assms m(2) by (simp add: radio_inv_def)
  then show ?thesis using m(1) callbacks.run_invar by (auto simp: poll_keys_def)
qed

text \<open>Callbacks leave everything alone but tones, modes, calibration step and mark.\<close>

lemma callback_frame:
  "rd_channels (radio (run_callback s c)) = rd_channels (radio s)"
  "HID_Buffer (run_callback s c) = HID_Buffer s"
  "flash (run_callback s c) = flash s"
  "pr_min_value (params (run_callback s c)) = pr_min_value (params s)"
  "pr_mid_value (params (run_callback s c)) = pr_mid_value (params s)"
  "pr_max_value (params (run_callback s c)) = pr_max_value (params s)"
proof -
  obtain t m st cal where e: "run_callback s c = s\<lparr>radio := (radio s)\<lparr>calibra_step := st, flight_mode := m\<rparr>,
     params := (params s)\<lparr>pr_calibraed := cal\<rparr>, tones := t\<rparr>"
    using run_callback_eq [of s c] by blast
  show "rd_channels (radio (run_callback s c)) = rd_channels (radio s)"
    "HID_Buffer (run_callback s c) = HID_Buffer s" "flash (run_callback s c) = flash s"
    "pr_min_value (params (run_callback s c)) = pr_min_value (params s)"
    "pr_mid_value (params (run_callback s c)) = pr_mid_value (params s)"
    "pr_max_value (params (run_callback s c)) = pr_max_value (params s)"
    unfolding e by simp_all
qed

lemma callbacks_frame:
  "rd_channels (radio (foldl run_callback s cs)) = rd_channels (radio s)"
  "flash (foldl run_callback s cs) = flash s"
  by (induction cs arbitrary: s) (simp_all add: callback_frame)


section \<open>Whole iterations\<close>

lemma calibrate_spec:
  assumes "radio_inv s" and "calibra_step (radio s) \<noteq> 0"
  shows "\<exists>s'. calibrate f s r = Some s' \<and> radio_inv s'"
proof -
  note inv = assms(1) [unfolded radio_inv_def]
  from inv assms(2) consider "calibra_step (radio s) = 1" | "calibra_step (radio s) = 2"
    | "calibra_step (radio s) = 3" by blast
  then show ?thesis
  proof cases
    case 1
    obtain p t where "wide p" "params_wf p" "calibrate_step1 s r = Some (
      if 5000 < unat (in_tick2 r - t)
      then s\<lparr>radio := (radio s)\<lparr>calibra_step := 2\<rparr>, params := p, timeout := 0\<rparr>
      else s\<lparr>params := p, timeout := t\<rparr>)"
      using step1_spec [OF assms(1) 1, of r] by blast
    then show ?thesis using 1 inv by (simp add: calibrate_def step_defs radio_inv_def)
  next
    case 2
    obtain p t where "wide p" "params_wf p" "calibrate_step2 s r = Some (
      if 5000 < unat (in_tick3 r - t)
      then s\<lparr>radio := (radio s)\<lparr>calibra_step := 3\<rparr>, params := p, timeout := 0\<rparr>
      else s\<lparr>params := p, timeout := t\<rparr>)"
      using step2_spec [OF assms(1) 2, of r] by blast
    then show ?thesis using 2 inv by (simp add: calibrate_def step_defs radio_inv_def)
  next
    case 3
    then show ?thesis
      using step3_spec [OF assms(1), of f] inv by (auto simp: calibrate_def step_defs radio_inv_def wide_def)
  qed
qed

definition can_send :: "'e radio_sys \<Rightarrow> bool" where
  "can_send s \<longleftrightarrow> calibra_step (radio s) \<noteq> 0 \<or> sticks_ok (params s)"

lemma output_inv:
  assumes "radio_inv s" and "sticks_ok (params s)"
  shows "\<exists>s'. output_channels s = Some s' \<and> radio_inv s'"
proof -
  obtain ch buf where "output_channels s =
      Some (s\<lparr>radio := (radio s)\<lparr>rd_channels := ch\<rparr>, HID_Buffer := buf\<rparr>)"
    "length ch = 8" "length buf = 19"
    using output_spec [OF radio_invD(1) [OF assms(1)] assms(2) radio_invD(2,4,3) [OF assms(1)]]
    by blast
  then show ?thesis using assms(1) by (simp add: radio_inv_def)
qed

lemma step_spec:
  assumes "radio_inv s" and "can_send s"
  shows "\<exists>s' rep. radio_thread_step f s r = Some (s', rep) \<and> radio_inv s' \<and>
    (rep = None \<longleftrightarrow> calibra_step (radio s) \<noteq> 0)"
proof -
  obtain raw where s1: "sample_sticks s r = Some (s\<lparr>raw_channels := raw\<rparr>)" "length raw = 8"
    using sample_spec [OF assms(1)] by blast
  let ?s2 = "select_mode (s\<lparr>raw_channels := raw\<rparr>) r"
  have inv: "radio_inv ?s2" by (rule select_inv(1) [OF sample_inv [OF assms(1) s1(2)]])
  note same = select_inv(2-) [OF sample_inv [OF assms(1) s1(2)], of r]
  obtain s3 rep where s3: "(if calibra_step (radio ?s2) \<noteq> JOYSTICK_CALIBRA_NONE
        then do { s \<leftarrow> calibrate f ?s2 r; Some (s, None) }
        else do { s \<leftarrow> output_channels ?s2; Some (s, Some (HID_Buffer s)) }) = Some (s3, rep)"
    "radio_inv s3" "rep = None \<longleftrightarrow> calibra_step (radio s) \<noteq> 0"
  proof (cases "calibra_step (radio s) = 0")
    case True
    then obtain s3 where "output_channels ?s2 = Some s3" "radio_inv s3"
      using output_inv [OF inv] assms(2) same by (auto simp: can_send_def)
    then show thesis using True that [of s3 "Some (HID_Buffer s3)"] same by (simp add: step_defs)
  next
    case False
    then obtain s3 where "calibrate f ?s2 r = Some s3" "radio_inv s3"
      using calibrate_spec [OF inv, of f r] same by auto
    then show thesis using False that [of s3 None] same by (simp add: step_defs)
  qed
  obtain s4 where "poll_keys s3 (in_keys r) = Some s4" "radio_inv s4"
    using poll_spec [OF s3(2)] by blast
  moreover have "radio_inv (s4\<lparr>radio := (radio s4)\<lparr>last_update := in_tick_end r\<rparr>\<rparr>)"
    using \<open>radio_inv s4\<close> by (simp add: radio_inv_def)
  ultimately show ?thesis
    using s1(1) s3 by (auto simp: radio_thread_step_def Let_def)
qed

end
