(* ===== verification/RadioProps.thy ===== *)
theory RadioProps
  imports RadioLoop
begin

text \<open>The properties of the control loop, and a concrete state at which they are applied.\<close>

section \<open>A concrete state\<close>

definition sample_mem :: "btn_callback btn_mem" where
  "sample_mem = \<lparr>heap = (\<lambda>a. \<lparr>ticks = 0, repeat = 0, event = NONE_PRESS, state = 0,
     debounce_cnt = 0, key_state = KEY_UP, key_id = push_bit a 1, cb = [SINGLE_CLICK \<mapsto> Btn_clicked],
     next_btn = (if a = 0 then None else Some (a - 1))\<rparr>), btn_list = Some 3\<rparr>"

definition sample_ranges :: params_t where
  "sample_ranges = \<lparr>pr_magic = PARAMS_MAGIC, pr_mode = 0, pr_calibraed = 1, pr_product_id = 0,
     pr_min_value = replicate 8 1000, pr_mid_value = replicate 8 2000, pr_max_value = replicate 8 3600,
     pr_pad = [0, 0], pr_checksum = 0\<rparr>"

definition sample_radio :: "u8 \<Rightarrow> (nat \<Rightarrow> u8) radio_sys" where
  "sample_radio step = \<lparr>radio = \<lparr>rd_channels = replicate 8 0, last_update = 0, battery_level = 0,
       rssi = 0, poweron_flag = True, linkup_flag = False, bind_flag = False, calibra_step = step,
       flight_mode = 1, new_mode = 1\<rparr>,
     params = sample_ranges, flash = (\<lambda>_. 0xFF), raw_channels = replicate 8 0,
     HID_Buffer = replicate 19 0, button_mem = sample_mem, tones = tone_init, timeout = 0,
     left_last_pos = 0\<rparr>"

definition sample_readings :: readings where
  "sample_readings = \<lparr>in_adc = (\<lambda>_. 3000), in_enc1 = 0, in_enc2 = 0, in_enc3 = 0, in_enc4 = 0,
     in_tick1 = 1000, in_tick2 = 1000, in_tick3 = 1000, in_tick_end = 1001, in_keys = 0\<rparr>"

lemma sample_radio_inv: "step \<in> {0, 1} \<Longrightarrow> radio_inv (sample_radio step)"
  by (auto simp: radio_inv_def sample_radio_def params_wf_def sample_ranges_def MAX_RC_CHANNELS_def
      buttons_ok_def sample_mem_def)

lemma sample_radio_sticks: "sticks_ok (params (sample_radio step))"
  by (simp add: sample_radio_def sample_ranges_def sticks_ok_def)

lemma sample_radio_step: "calibra_step (radio (sample_radio step)) = step"
  by (simp add: sample_radio_def)

lemma sample_radio_mode: "flight_mode (radio (sample_radio step)) = 1"
  by (simp add: sample_radio_def)

section \<open>Properties\<close>





lemma sent_step:
  assumes inv: "radio_inv s" and run: "calibra_step (radio s) = 0" and ok: "sticks_ok (params s)"
  shows "\<exists>s' buf raw. radio_thread_step f s r = Some (s', Some buf) \<and>
    sample_sticks s r = Some (s\<lparr>raw_channels := raw\<rparr>) \<and>
    (\<forall>i<4. rd_channels (radio s') ! i = stick_value (params s) raw i) \<and>
    (\<forall>i. 4 \<le> i \<and> i < 8 \<longrightarrow> rd_channels (radio s') ! i = sint (raw ! i)) \<and>
    (\<forall>i<8. report_value buf i = joystick (rd_channels (radio s') ! i)) \<and>
    length buf = 19 \<and> (\<forall>k<3. buf ! k = HID_Buffer s ! k)"
proof -
  obtain raw where s1: "sample_sticks s r = Some (s\<lparr>raw_channels := raw\<rparr>)" "length raw = 8"
    using sample_spec [OF inv] by blast
  let ?s2 = "select_mode (s\<lparr>raw_channels := raw\<rparr>) r"
  note i1 = sample_inv [OF inv s1(2)]
  have inv2: "radio_inv ?s2" by (rule select_inv(1) [OF i1])
  note same = select_inv(2-) [OF i1, of r]
  obtain ch buf where o: "output_channels ?s2 =
      Some (?s2\<lparr>radio := (radio ?s2)\<lparr>rd_channels := ch\<rparr>, HID_Buffer := buf\<rparr>)"
    "length ch = 8" "length buf = 19"
    "\<forall>i<4. ch ! i = stick_value (params ?s2) (raw_channels ?s2) i"
    "\<forall>i. 4 \<le> i \<and> i < 8 \<longrightarrow> ch ! i = sint (raw_channels ?s2 ! i)"
    "\<forall>i<8. report_value buf i = joystick (ch ! i)" "\<forall>k<3. buf ! k = HID_Buffer ?s2 ! k"
    using output_spec [OF radio_invD(1) [OF inv2] _ radio_invD(2,4,3) [OF inv2]] ok same by auto
  let ?s3 = "?s2\<lparr>radio := (radio ?s2)\<lparr>rd_channels := ch\<rparr>, HID_Buffer := buf\<rparr>"
  have inv3: "radio_inv ?s3" using inv2 o(2,3) by (simp add: radio_inv_def)
  obtain m calls where p: "poll_keys ?s3 (in_keys r) = Some (foldl run_callback (?s3\<lparr>button_mem := m\<rparr>) calls)"
    using poll_spec [OF inv3] by blast
  let ?s' = "(foldl run_callback (?s3\<lparr>button_mem := m\<rparr>) calls)
    \<lparr>radio := (radio (foldl run_callback (?s3\<lparr>button_mem := m\<rparr>) calls))\<lparr>last_update := in_tick_end r\<rparr>\<rparr>"
  have "radio_thread_step f s r = Some (?s', Some buf)"
    using s1(1) o(1) p run same by (simp add: radio_thread_step_def step_defs Let_def)
  moreover have "rd_channels (radio ?s') = ch" by (simp add: callbacks_frame)
  ultimately show ?thesis using s1(1) o(3-7) same by auto
qed



text \<open>
  The range check of the calibration is vacuous: step 1 starts from a range of 2000 and only
  widens it, so the demand of 1200 is met whatever the sticks did, and five seconds after its start
  the first step always moves on.
\<close>

theorem calibration_check_vacuous:
  assumes "radio_inv s" and "calibra_step (radio s) = 1" and "timeout s \<noteq> 0"
    and "5000 < unat (in_tick2 r - timeout s)"
  shows "\<exists>s'. calibrate f s r = Some s' \<and> calibra_step (radio s') = 2 \<and> timeout s' = 0 \<and>
    wide (params s')"
  using step1_spec [OF assms(1,2), of r] assms(2-4) by (auto simp: calibrate_def step_defs)

theorem calibration_check_vacuous_witness:
  "\<exists>s'. calibrate byte_flash ((sample_radio 1)\<lparr>timeout := 10,
      params := sample_ranges\<lparr>pr_min_value := replicate 8 1500, pr_max_value := replicate 8 3500\<rparr>\<rparr>)
    (sample_readings\<lparr>in_tick2 := 5011\<rparr>) = Some s' \<and> calibra_step (radio s') = 2"
proof -
  have "radio_inv ((sample_radio 1)\<lparr>timeout := 10, params :=
      sample_ranges\<lparr>pr_min_value := replicate 8 1500, pr_max_value := replicate 8 3500\<rparr>\<rparr>)"
    by (simp add: radio_inv_def sample_radio_def params_wf_def sample_ranges_def MAX_RC_CHANNELS_def
        buttons_ok_def sample_mem_def wide_def)
  from calibration_check_vacuous [OF this, of "sample_readings\<lparr>in_tick2 := 5011\<rparr>" byte_flash]
  show ?thesis by (auto simp: sample_radio_step sample_radio_def)
qed

text \<open>
  A completed calibration survives a restart: the iteration in step 3 writes the ranges with
  the calibrated mark, and if the flash write succeeds the next load returns them.
\<close>

theorem calibration_persists:
  assumes "flash_ok f" and wr: "\<And>e a bs. fst (EEPROM_WRITE f e a bs) = 0"
    and "radio_inv s" and "calibra_step (radio s) = 3"
  shows "\<exists>s' p. calibrate f s r = Some s' \<and> calibra_step (radio s') = 0 \<and>
    params_load f (flash s') = (RT_EOK, p) \<and> p = params s' \<and> pr_calibraed p = 1 \<and>
    pr_min_value p = pr_min_value (params s) \<and> pr_mid_value p = pr_mid_value (params s) \<and>
    pr_max_value p = pr_max_value (params s)"
proof -
  obtain p e w where s: "params_save f (flash s) ((params s)\<lparr>pr_calibraed := 1\<rparr>) = Some (w, p, e)"
    "calibrate_step3 f s = Some (s\<lparr>params := p, flash := e, radio := (radio s)\<lparr>calibra_step := 0\<rparr>\<rparr>)"
    using step3_spec [OF assms(3)] by blast
  have wf: "params_wf ((params s)\<lparr>pr_calibraed := 1\<rparr>)"
    using assms(3) by (simp add: radio_inv_def params_wf_def)
  have "w = 0" using s(1) wr unfolding save_spec [OF wf] Let_def by auto
  then have "params_load f e = (RT_EOK, p)" and p: "p = (params s)\<lparr>pr_calibraed := 1,
      pr_checksum := (\<Sum>x\<leftarrow>params_head ((params s)\<lparr>pr_calibraed := 1\<rparr>). ucast x)\<rparr>"
    using load_saved [OF assms(1) wf] s(1) by auto
  then show ?thesis using s(2) assms(4) by (simp add: calibrate_def step_defs)
qed

theorem calibration_persists_witness:
  "\<exists>s' p. calibrate byte_flash ((sample_radio 3)\<lparr>params := sample_ranges
        \<lparr>pr_min_value := replicate 8 1400, pr_max_value := replicate 8 3600\<rparr>\<rparr>) sample_readings = Some s' \<and>
    params_load byte_flash (flash s') = (RT_EOK, p) \<and> pr_calibraed p = 1"
proof -
  let ?s = "(sample_radio 3)\<lparr>params := sample_ranges
      \<lparr>pr_min_value := replicate 8 1400, pr_max_value := replicate 8 3600\<rparr>\<rparr>"
  have "radio_inv ?s"
    by (simp add: radio_inv_def sample_radio_def params_wf_def sample_ranges_def MAX_RC_CHANNELS_def
        buttons_ok_def sample_mem_def wide_def)
  from calibration_persists [OF byte_flash_ok byte_flash_write this, of sample_readings]
  show ?thesis by (auto simp: sample_radio_def)
qed

text \<open>
  The middle positions are not checked: if the middle stored for the roll stick equals its
  maximum, as when the stick is held at its end stop while the second step samples it, the first
  iteration that reads the stick there divides by zero.
\<close>

theorem middle_at_end_divides_by_zero:
  assumes "radio_inv s" and "calibra_step (radio s) = 0"
    and "pr_mid_value (params s) ! 0 = pr_max_value (params s) ! 0"
    and "pr_min_value (params s) ! 0 \<le> pr_max_value (params s) ! 0"
    and "pr_max_value (params s) ! 0 \<le> in_adc r 2"
  shows "radio_thread_step f s r = None"
proof -
  obtain raw where s1: "sample_sticks s r = Some (s\<lparr>raw_channels := raw\<rparr>)" "length raw = 8"
    "raw ! 0 = in_adc r 2"
    using sample_spec [OF assms(1)] by blast
  let ?s2 = "select_mode (s\<lparr>raw_channels := raw\<rparr>) r"
  note same = select_inv(2-) [OF sample_inv [OF assms(1) s1(2)], of r]
  have "scale_channel (params s) (raw ! 0) 0 = None"
    using assms(3-5) radio_invD(1) [OF assms(1)] s1(3)
    by (auto simp: scale_channel_def radio_data_normalize_def Let_def params_wf_def
        MAX_RC_CHANNELS_def word_le_def)
  then have "fill_sticks (params s) raw 0 4 ch = None" for ch
    using s1(2) by (simp add: numeral_eq_Suc)
  then have "output_channels ?s2 = None" using same by (simp add: output_channels_def)
  then show ?thesis
    using s1(1) same assms(2) by (simp add: radio_thread_step_def Let_def step_defs)
qed

theorem middle_at_end_divides_by_zero_witness:
  "radio_thread_step byte_flash ((sample_radio 0)\<lparr>params := sample_ranges
      \<lparr>pr_mid_value := replicate 8 3600\<rparr>\<rparr>) (sample_readings\<lparr>in_adc := (\<lambda>_. 3700)\<rparr>) = None"
proof (rule middle_at_end_divides_by_zero)
  show "radio_inv ((sample_radio 0)\<lparr>params := sample_ranges\<lparr>pr_mid_value := replicate 8 3600\<rparr>\<rparr>)"
    by (simp add: radio_inv_def sample_radio_def params_wf_def sample_ranges_def MAX_RC_CHANNELS_def
        buttons_ok_def sample_mem_def)
qed (simp_all add: sample_radio_def sample_ranges_def)

section \<open>The start of the thread\<close>

lemma attach_next [simp]: "next_btn (attach_all b) = next_btn b"
  by (simp add: attach_all_def button_attach_def)

lemma start_buttons_chain:
  assumes "chain (heap m) (btn_list m) (rev [0..<i])"
  shows "\<exists>m'. start_buttons m i n = Some m' \<and> chain (heap m') (btn_list m') (rev [0..<i + n])"
  using assms
proof (induction n arbitrary: i m)
  case 0
  then show ?case by simp
next
  case (Suc n)
  let ?m1 = "m\<lparr>heap := (heap m)(i := attach_all (button_init (heap m i) (push_bit i 1)))\<rparr>"
  have "chain (heap ?m1) (btn_list ?m1) (rev [0..<i])"
    using Suc.prems by (subst chain_cong [where h = "heap m"]) (auto simp: button_init_def)
  from start_chain [OF this, of i] obtain m2 where m2: "button_start ?m1 i = Some (0, m2)"
    "chain (heap m2) (btn_list m2) (i # rev [0..<i])" by auto
  have "rev [0..<Suc i] = i # rev [0..<i]" by simp
  then obtain m' where "start_buttons m2 (Suc i) n = Some m'"
    "chain (heap m') (btn_list m') (rev [0..<Suc i + n])"
    using Suc.IH [of m2 "Suc i"] m2(2) by metis
  then show ?case using m2(1) by simp
qed

text \<open>
  The thread starts in the invariant: with the parameters and arrays of the right sizes and an
  empty button list, it starts all four buttons, and it begins with the calibration exactly when the
  parameters are not marked calibrated.
\<close>

theorem thread_start_establishes_invariant:
  assumes "params_wf (params s)" and "length (raw_channels s) = 8" and "length (HID_Buffer s) = 19"
    and "length (rd_channels (radio s)) = 8" and "btn_list (button_mem s) = None"
  shows "\<exists>s'. radio_thread_start (radio_thread_init s) pos = Some s' \<and> radio_inv s' \<and>
    flight_mode (radio s') = FLIGHT_MODE_ALT_HOLD \<and>
    (calibra_step (radio s') = JOYSTICK_CALIBRA_STEP1 \<longleftrightarrow> pr_calibraed (params s) = 0)"
proof -
  have "rev [0..<0 + 4] = [3, 2, 1, 0]" by (simp add: upt_rec numeral_eq_Suc)
  then obtain m where "start_buttons (button_mem s) 0 4 = Some m" "buttons_ok m"
    using start_buttons_chain [of "button_mem s" 0 4] assms(5) by (auto simp: buttons_ok_def)
  then show ?thesis
    using assms(1-4)
    by (simp add: radio_thread_start_def radio_thread_init_def radio_inv_def step_defs mode_defs)
qed

theorem thread_start_establishes_invariant_witness:
  "\<exists>s'. radio_thread_start (radio_thread_init ((sample_radio 0)\<lparr>button_mem :=
      sample_mem\<lparr>btn_list := None\<rparr>\<rparr>)) 7 = Some s' \<and> radio_inv s'"
  using thread_start_establishes_invariant [of "(sample_radio 0)\<lparr>button_mem := sample_mem\<lparr>btn_list := None\<rparr>\<rparr>" 7]
  by (auto simp: sample_radio_def sample_ranges_def params_wf_def MAX_RC_CHANNELS_def)

end
