(* ===== verification/Usart.thy ===== *)
theory Usart
  imports RingbufferSpec Gpio
begin

text \<open>
  The serial port drivers: of the receiver (\<open>Receiver/drivers/drv_usart.c\<close>), with a transmit
  and a receive ring buffer between the program and the interrupt handler, and of the controller
  (\<open>Firmware/drivers/drv_usart.c\<close>), which only serves as console. The transmit line is the
  list of bytes written to the holding register. A call is atomic with respect to the handler.
\<close>

section \<open>The receiver's port\<close>

record uart =
  uart_tx_ringbuf :: rt_ringbuffer
  uart_rx_ringbuf :: rt_ringbuffer
  R8_UART1_IER :: u8
  R8_UART1_MCR :: u8
  R8_UART1_FCR :: u8
  R8_UART1_LCR :: u8
  R8_UART1_DIV :: u8
  R16_UART1_DL :: u16
  uart_line :: "u8 list"

definition RB_IER_RECV_RDY :: u8 where "RB_IER_RECV_RDY = 0x01"
definition RB_IER_THR_EMPTY :: u8 where "RB_IER_THR_EMPTY = 0x02"
definition RB_IER_LINE_STAT :: u8 where "RB_IER_LINE_STAT = 0x04"
definition RB_IER_TXD_EN :: u8 where "RB_IER_TXD_EN = 0x40"

lemmas ier_defs = RB_IER_RECV_RDY_def RB_IER_THR_EMPTY_def RB_IER_LINE_STAT_def RB_IER_TXD_EN_def

definition UART1_INTCfg :: "bool \<Rightarrow> u8 \<Rightarrow> uart \<Rightarrow> uart" where
  "UART1_INTCfg enable i u =
     (if enable then u\<lparr>R8_UART1_IER := R8_UART1_IER u OR i, R8_UART1_MCR := R8_UART1_MCR u OR 0x08\<rparr>
      else u\<lparr>R8_UART1_IER := R8_UART1_IER u AND NOT i\<rparr>)"

text \<open>The divisor, with the rounding of the library; \<open>clock\<close> is \<open>GetSysClock()\<close>.\<close>

definition UART1_BaudRateCfg :: "u32 \<Rightarrow> u32 \<Rightarrow> uart \<Rightarrow> uart option" where
  "UART1_BaudRateCfg clock baudrate u =
     (if baudrate = 0 then None
      else Some (u\<lparr>R16_UART1_DL := ucast ((10 * clock div 8 div baudrate + 5) div 10)\<rparr>))"

definition RT_UART_RINGBUF_SIZE :: nat where "RT_UART_RINGBUF_SIZE = 256"

text \<open>The pin configuration of \<open>usart_init\<close>, then the port itself.\<close>

definition usart_pins :: "gpio \<Rightarrow> gpio" where
  "usart_pins g = GPIOA_ModeCfg (GPIOA_ModeCfg (g\<lparr>PA := GPIO_SetBits (PA g) (GPIO_Pin 9)\<rparr>)
     (GPIO_Pin 8) GPIO_ModeIN_PU) (GPIO_Pin 9) GPIO_ModeOut_PP_5mA"

definition uart_registers :: "u32 \<Rightarrow> uart \<Rightarrow> uart option" where
  "uart_registers clock u = do {
     u1 \<leftarrow> UART1_BaudRateCfg clock 115200 u;
     let u2 = u1\<lparr>R8_UART1_FCR := 0x04 OR 0x02 OR 0x01, R8_UART1_LCR := 0x03,
                R8_UART1_IER := RB_IER_TXD_EN, R8_UART1_DIV := 1\<rparr>;
     Some (UART1_INTCfg True (RB_IER_RECV_RDY OR RB_IER_LINE_STAT) u2)
   }"

definition rx_usart_init :: "u32 \<Rightarrow> u8 list \<Rightarrow> u8 list \<Rightarrow> uart \<Rightarrow> uart option" where
  "rx_usart_init clock tx_buffer rx_buffer u =
     uart_registers clock (u\<lparr>uart_tx_ringbuf := rt_ringbuffer_init tx_buffer RT_UART_RINGBUF_SIZE,
                             uart_rx_ringbuf := rt_ringbuffer_init rx_buffer RT_UART_RINGBUF_SIZE\<rparr>)"

text \<open>The console functions of the receiver are switched off.\<close>

definition rx_rt_hw_console_output :: "u8 list \<Rightarrow> uart \<Rightarrow> uart" where
  "rx_rt_hw_console_output str u = u"

definition rx_rt_hw_console_getchar :: "uart \<Rightarrow> u8 \<times> uart" where
  "rx_rt_hw_console_getchar u = (- 1, u)"

text \<open>\<open>while(i < len) rt_ringbuffer_putchar(&uart_tx_ringbuf, data[i++]);\<close> with \<open>n\<close> bytes to go.\<close>

fun write_loop :: "u8 list \<Rightarrow> nat \<Rightarrow> nat \<Rightarrow> rt_ringbuffer \<Rightarrow> rt_ringbuffer option" where
  "write_loop xs i 0 rb = Some rb"
| "write_loop xs i (Suc n) rb = do {
     ch \<leftarrow> arr_get xs i;
     (r, rb') \<leftarrow> rt_ringbuffer_putchar rb ch;
     write_loop xs (i + 1) n rb'
   }"

definition usart_write :: "u8 list \<Rightarrow> nat \<Rightarrow> uart \<Rightarrow> (nat \<times> uart) option" where
  "usart_write xs len u =
     (if len = 0 then Some (len, u)
      else do {
        rb \<leftarrow> write_loop xs 0 len (uart_tx_ringbuf u);
        Some (len, UART1_INTCfg True RB_IER_THR_EMPTY (u\<lparr>uart_tx_ringbuf := rb\<rparr>))
      })"

fun read_loop :: "u8 list \<Rightarrow> nat \<Rightarrow> nat \<Rightarrow> rt_ringbuffer \<Rightarrow> (u8 list \<times> rt_ringbuffer) option" where
  "read_loop xs i 0 rb = Some (xs, rb)"
| "read_loop xs i (Suc n) rb = do {
     (r, c, rb') \<leftarrow> rt_ringbuffer_getchar rb;
     (case c of None \<Rightarrow> Some (xs, rb')
      | Some ch \<Rightarrow> do { xs' \<leftarrow> arr_set xs i ch; read_loop xs' (i + 1) n rb' })
   }"

definition usart_read :: "u8 list \<Rightarrow> nat \<Rightarrow> uart \<Rightarrow> (nat \<times> u8 list \<times> uart) option" where
  "usart_read xs len u = do {
     (xs', rb) \<leftarrow> read_loop xs 0 len (uart_rx_ringbuf u);
     Some (len, xs', u\<lparr>uart_rx_ringbuf := rb\<rparr>)
   }"

definition usart_read_char :: "uart \<Rightarrow> (nat \<times> u8 option \<times> uart) option" where
  "usart_read_char u = do {
     (r, c, rb) \<leftarrow> rt_ringbuffer_getchar (uart_rx_ringbuf u);
     Some (r, c, u\<lparr>uart_rx_ringbuf := rb\<rparr>)
   }"

text \<open>
  An interrupt: its flag, and for the receive flags the bytes that the receive FIFO holds when the
  handler empties it.
\<close>

datatype uart_it = UART_II_LINE_STAT | UART_II_RECV_RDY "u8 list" | UART_II_RECV_TOUT "u8 list"
  | UART_II_THR_EMPTY | UART_II_OTHER

definition recv_all :: "u8 list \<Rightarrow> uart \<Rightarrow> uart option" where
  "recv_all fifo u = map_option (\<lambda>rb. u\<lparr>uart_rx_ringbuf := rb\<rparr>)
     (push_each rt_ringbuffer_putchar (uart_rx_ringbuf u) fifo)"

definition rx_UART1_IRQHandler :: "uart_it \<Rightarrow> uart \<Rightarrow> uart option" where
  "rx_UART1_IRQHandler it u = (case it of
     UART_II_LINE_STAT \<Rightarrow> Some u
   | UART_II_RECV_RDY fifo \<Rightarrow> recv_all fifo u
   | UART_II_RECV_TOUT fifo \<Rightarrow> recv_all fifo u
   | UART_II_THR_EMPTY \<Rightarrow> do {
       (r, c, rb) \<leftarrow> rt_ringbuffer_getchar (uart_tx_ringbuf u);
       Some (case c of
           Some ch \<Rightarrow> u\<lparr>uart_tx_ringbuf := rb, uart_line := uart_line u @ [ch]\<rparr>
         | None \<Rightarrow> UART1_INTCfg False RB_IER_THR_EMPTY (u\<lparr>uart_tx_ringbuf := rb\<rparr>))
     }
   | UART_II_OTHER \<Rightarrow> Some u)"

section \<open>The controller's console\<close>

text \<open>
  The waits for room in the transmit FIFO end because the port drains it; what reaches the line is
  each character, a carriage return before every line feed. A string ends at its first zero byte.
\<close>

definition c_string :: "u8 list \<Rightarrow> u8 list" where
  "c_string str = takeWhile (\<lambda>c. c \<noteq> 0) str"

fun console_loop :: "u8 list \<Rightarrow> uart \<Rightarrow> uart" where
  "console_loop [] u = u"
| "console_loop (c # cs) u =
     (let u1 = (if c = 0x0A then u\<lparr>uart_line := uart_line u @ [0x0D]\<rparr> else u)
      in console_loop cs (u1\<lparr>uart_line := uart_line u1 @ [c]\<rparr>))"

definition rt_hw_console_output :: "u8 list \<Rightarrow> uart \<Rightarrow> uart" where
  "rt_hw_console_output str u = console_loop (c_string str) u"

definition rt_hw_console_getchar :: "uart \<Rightarrow> (u8 \<times> uart) option" where
  "rt_hw_console_getchar u = do {
     (r, c, rb) \<leftarrow> rt_ringbuffer_getchar (uart_rx_ringbuf u);
     Some (case c of Some ch \<Rightarrow> (ch, u\<lparr>uart_rx_ringbuf := rb\<rparr>)
                   | None \<Rightarrow> (- 1, u\<lparr>uart_rx_ringbuf := rb\<rparr>))
   }"

definition usart_init :: "u32 \<Rightarrow> u8 list \<Rightarrow> uart \<Rightarrow> uart option" where
  "usart_init clock buffer u =
     uart_registers clock (u\<lparr>uart_rx_ringbuf := rt_ringbuffer_init buffer RT_UART_RINGBUF_SIZE\<rparr>)"

definition UART1_IRQHandler :: "uart_it \<Rightarrow> uart \<Rightarrow> uart option" where
  "UART1_IRQHandler it u = (case it of
     UART_II_RECV_RDY fifo \<Rightarrow> recv_all fifo u
   | UART_II_RECV_TOUT fifo \<Rightarrow> recv_all fifo u
   | _ \<Rightarrow> Some u)"

section \<open>Contents of the two buffers\<close>

abbreviation tx_bytes :: "uart \<Rightarrow> u8 list" where
  "tx_bytes u \<equiv> rb_contents (uart_tx_ringbuf u)"

abbreviation rx_bytes :: "uart \<Rightarrow> u8 list" where
  "rx_bytes u \<equiv> rb_contents (uart_rx_ringbuf u)"

definition uart_wf :: "uart \<Rightarrow> bool" where
  "uart_wf u \<longleftrightarrow> rb_wf (uart_tx_ringbuf u) \<and> rb_wf (uart_rx_ringbuf u) \<and>
     buffer_size (uart_tx_ringbuf u) = 256 \<and> buffer_size (uart_rx_ringbuf u) = 256"

lemma INTCfg_fields [simp]:
  "uart_tx_ringbuf (UART1_INTCfg e i u) = uart_tx_ringbuf u"
  "uart_rx_ringbuf (UART1_INTCfg e i u) = uart_rx_ringbuf u"
  "uart_line (UART1_INTCfg e i u) = uart_line u"
  "uart_wf (UART1_INTCfg e i u) = uart_wf u"
  by (simp_all add: UART1_INTCfg_def uart_wf_def)

lemma write_loop_push:
  "i + n \<le> length xs \<Longrightarrow>
   write_loop xs i n rb = push_each rt_ringbuffer_putchar rb (take n (drop i xs))"
proof (induction n arbitrary: i rb)
  case 0
  then show ?case by simp
next
  case (Suc n)
  then have "take (Suc n) (drop i xs) = xs ! i # take n (drop (Suc i) xs)"
    by (simp add: Cons_nth_drop_Suc flip: take_Suc_Cons)
  moreover have "write_loop xs (Suc i) n rb' = push_each rt_ringbuffer_putchar rb' (take n (drop (Suc i) xs))"
    for rb' using Suc by simp
  ultimately show ?case using Suc.prems
    by (cases "rt_ringbuffer_putchar rb (xs ! i)") (simp_all add: split_beta)
qed

lemma usart_write_spec:
  assumes "uart_wf u" and "len \<le> length xs"
  shows "\<exists>u'. usart_write xs len u = Some (len, u') \<and> uart_wf u' \<and>
    tx_bytes u' = take 256 (tx_bytes u @ take len xs) \<and> rx_bytes u' = rx_bytes u \<and>
    uart_line u' = uart_line u \<and> (len = 0 \<longrightarrow> u' = u) \<and>
    (len \<noteq> 0 \<longrightarrow> R8_UART1_IER u' AND RB_IER_THR_EMPTY \<noteq> 0)"
proof (cases "len = 0")
  case True
  then show ?thesis
    using assms data_len_le [of "uart_tx_ringbuf u"] by (simp add: usart_write_def uart_wf_def)
next
  case False
  obtain rb where rb: "push_each rt_ringbuffer_putchar (uart_tx_ringbuf u) (take len xs) = Some rb"
    "rb_wf rb" "buffer_size rb = 256" "rb_contents rb = take 256 (tx_bytes u @ take len xs)"
    using rb.push_each_law [of "uart_tx_ringbuf u" "take len xs"] assms(1) by (auto simp: uart_wf_def)
  have "write_loop xs 0 len (uart_tx_ringbuf u) = Some rb"
    using write_loop_push [of 0 len xs] assms(2) rb(1) by simp
  then show ?thesis
    using False assms(1) rb by (simp add: usart_write_def uart_wf_def UART1_INTCfg_def ier_defs
      bit.conj_disj_distrib2)
qed

section \<open>The two directions\<close>

lemma recv_all_spec:
  assumes "uart_wf u"
  shows "\<exists>u'. recv_all fifo u = Some u' \<and> uart_wf u' \<and> rx_bytes u' = take 256 (rx_bytes u @ fifo) \<and>
    tx_bytes u' = tx_bytes u \<and> uart_line u' = uart_line u \<and> R8_UART1_IER u' = R8_UART1_IER u"
  using assms rb.push_each_law [of "uart_rx_ringbuf u" fifo]
  by (fastforce simp: recv_all_def uart_wf_def)

lemma thr_empty_cons:
  assumes "uart_wf u" and "tx_bytes u = c # cs"
  shows "\<exists>u'. rx_UART1_IRQHandler UART_II_THR_EMPTY u = Some u' \<and> uart_wf u' \<and> tx_bytes u' = cs \<and>
    uart_line u' = uart_line u @ [c] \<and> rx_bytes u' = rx_bytes u \<and> R8_UART1_IER u' = R8_UART1_IER u"
  using assms rb.get1_cons [of "uart_tx_ringbuf u" c cs]
  by (fastforce simp: rx_UART1_IRQHandler_def uart_wf_def)

lemma thr_empty_nil:
  assumes "uart_wf u" and "tx_bytes u = []"
  shows "rx_UART1_IRQHandler UART_II_THR_EMPTY u = Some (UART1_INTCfg False RB_IER_THR_EMPTY u)"
  using assms rb.get1_empty [of "uart_tx_ringbuf u"]
  by (cases u) (simp add: rx_UART1_IRQHandler_def uart_wf_def)

text \<open>The handler run \<open>n\<close> times with the transmit flag.\<close>

primrec thr_run :: "nat \<Rightarrow> uart \<Rightarrow> uart option" where
  "thr_run 0 u = Some u"
| "thr_run (Suc n) u = Option.bind (rx_UART1_IRQHandler UART_II_THR_EMPTY u) (thr_run n)"

lemma thr_run_drains:
  "uart_wf u \<Longrightarrow> tx_bytes u = bs \<Longrightarrow> \<exists>u'. thr_run (Suc (length bs)) u = Some u' \<and> uart_wf u' \<and>
     tx_bytes u' = [] \<and> uart_line u' = uart_line u @ bs \<and> rx_bytes u' = rx_bytes u \<and>
     R8_UART1_IER u' AND RB_IER_THR_EMPTY = 0"
proof (induction bs arbitrary: u)
  case Nil
  have "(R8_UART1_IER u AND NOT RB_IER_THR_EMPTY) AND RB_IER_THR_EMPTY = 0"
    by (simp add: bit_eq_iff bit_simps)
  then show ?case using Nil by (simp add: thr_empty_nil) (simp add: UART1_INTCfg_def)
next
  case (Cons c cs)
  obtain u1 where u1: "rx_UART1_IRQHandler UART_II_THR_EMPTY u = Some u1" "uart_wf u1"
    "tx_bytes u1 = cs" "uart_line u1 = uart_line u @ [c]" "rx_bytes u1 = rx_bytes u"
    using thr_empty_cons [OF Cons.prems] by blast
  show ?case using Cons.IH [OF u1(2,3)] u1 by simp
qed

definition sample_uart :: uart where
  "sample_uart = \<lparr>uart_tx_ringbuf = rt_ringbuffer_init (replicate 256 0) 256,
     uart_rx_ringbuf = rt_ringbuffer_init (replicate 256 0) 256, R8_UART1_IER = 0, R8_UART1_MCR = 0,
     R8_UART1_FCR = 0, R8_UART1_LCR = 0, R8_UART1_DIV = 0, R16_UART1_DL = 0, uart_line = []\<rparr>"

lemma sample_uart_wf [simp]:
  "uart_wf sample_uart" "tx_bytes sample_uart = []" "rx_bytes sample_uart = []"
  "uart_line sample_uart = []"
  by (simp_all add: sample_uart_def uart_wf_def init_wf)

text \<open>
  C28: What the program writes reaches the line in order behind what was queued, as far as the
  transmit buffer has room, after one interrupt for each byte; the next one finds the buffer empty
  and switches the interrupt off.
\<close>

theorem usart_write_reaches_line:
  assumes "uart_wf u" and "0 < len" and "len \<le> length xs"
    and "length (tx_bytes u) + len \<le> 256"
  shows "\<exists>u1 u2. usart_write xs len u = Some (len, u1) \<and>
    R8_UART1_IER u1 AND RB_IER_THR_EMPTY \<noteq> 0 \<and>
    thr_run (length (tx_bytes u) + len + 1) u1 = Some u2 \<and> uart_wf u2 \<and>
    uart_line u2 = uart_line u @ tx_bytes u @ take len xs \<and> rx_bytes u2 = rx_bytes u \<and>
    R8_UART1_IER u2 AND RB_IER_THR_EMPTY = 0"
proof -
  obtain u1 where u1: "usart_write xs len u = Some (len, u1)" "uart_wf u1"
    "tx_bytes u1 = tx_bytes u @ take len xs" "uart_line u1 = uart_line u" "rx_bytes u1 = rx_bytes u"
    "R8_UART1_IER u1 AND RB_IER_THR_EMPTY \<noteq> 0"
    using usart_write_spec [OF assms(1,3)] assms(2-4) by auto
  obtain u2 where u2: "thr_run (Suc (length (tx_bytes u1))) u1 = Some u2" "uart_wf u2"
    "uart_line u2 = uart_line u1 @ tx_bytes u1" "rx_bytes u2 = rx_bytes u1"
    "R8_UART1_IER u2 AND RB_IER_THR_EMPTY = 0"
    using thr_run_drains [OF u1(2) refl] by blast
  have "Suc (length (tx_bytes u1)) = length (tx_bytes u) + len + 1" using u1(3) assms(3) by simp
  then show ?thesis using u1 u2 by auto
qed

theorem usart_write_reaches_line_witness:
  "\<exists>u1 u2. usart_write [1, 2, 3] 2 sample_uart = Some (2, u1) \<and>
    thr_run 3 u1 = Some u2 \<and> uart_line u2 = [1, 2]"
proof -
  obtain u1 u2 where "usart_write [1, 2, 3] 2 sample_uart = Some (2, u1)"
    "thr_run (length (tx_bytes sample_uart) + 2 + 1) u1 = Some u2"
    "uart_line u2 = uart_line sample_uart @ tx_bytes sample_uart @ take 2 [1, 2, 3]"
    using usart_write_reaches_line [of sample_uart 2 "[1, 2, 3]"] by auto
  then show ?thesis by (intro exI conjI) (simp_all add: numeral_3_eq_3 del: thr_run.simps)
qed

text \<open>
  Received bytes queue up in order behind what was not yet read; what no longer fits the 256
  bytes of the buffer is dropped without a trace. The handler always returns.
\<close>

theorem usart_receive_queue:
  assumes "uart_wf u"
  shows "\<exists>u'. rx_UART1_IRQHandler (UART_II_RECV_RDY fifo) u = Some u' \<and> uart_wf u' \<and>
    rx_bytes u' = take 256 (rx_bytes u @ fifo) \<and> tx_bytes u' = tx_bytes u \<and>
    R8_UART1_IER u' = R8_UART1_IER u"
  using recv_all_spec [OF assms, of fifo] by (auto simp: rx_UART1_IRQHandler_def)

theorem usart_receive_queue_witness:
  "\<exists>u'. rx_UART1_IRQHandler (UART_II_RECV_RDY [7, 8]) sample_uart = Some u' \<and> rx_bytes u' = [7, 8]"
  using usart_receive_queue [of sample_uart "[7, 8]"] sample_uart_wf by auto

lemma read_loop_spec:
  "rb_wf rb \<Longrightarrow> i + n \<le> length xs \<Longrightarrow> \<exists>rb'. read_loop xs i n rb =
     Some (take i xs @ take n (rb_contents rb) @ drop (i + min n (length (rb_contents rb))) xs, rb') \<and>
     rb_wf rb' \<and> buffer_size rb' = buffer_size rb \<and> rb_contents rb' = drop n (rb_contents rb)"
proof (induction n arbitrary: i xs rb)
  case 0
  then show ?case by simp
next
  case (Suc n)
  show ?case
  proof (cases "rb_contents rb")
    case Nil
    then show ?thesis using Suc.prems rb.get1_empty [OF Suc.prems(1) Nil] by simp
  next
    case (Cons c cs)
    obtain rb1 where rb1: "rt_ringbuffer_getchar rb = Some (1, Some c, rb1)" "rb_wf rb1"
      "buffer_size rb1 = buffer_size rb" "rb_contents rb1 = cs"
      using rb.get1_cons [OF Suc.prems(1) Cons] by blast
    have t: "take (Suc i) (xs[i := c]) = take i xs @ [c]"
      using Suc.prems by (simp add: take_Suc_conv_app_nth)
    have "Suc i + n \<le> length (xs[i := c])" using Suc.prems by simp
    from Suc.IH [OF rb1(2) this] show ?thesis
      using Suc.prems Cons rb1 t by auto
  qed
qed

text \<open>
  \<open>usart_read\<close> stores the oldest received bytes at the start of the buffer, but it
  returns the requested length also when fewer bytes were there.
\<close>

lemma usart_read_returns_request:
  assumes "uart_wf u" and "len \<le> length xs"
  shows "\<exists>u'. usart_read xs len u =
      Some (len, take len (rx_bytes u) @ drop (min len (length (rx_bytes u))) xs, u') \<and>
    uart_wf u' \<and> rx_bytes u' = drop len (rx_bytes u) \<and> tx_bytes u' = tx_bytes u"
  using assms read_loop_spec [of "uart_rx_ringbuf u" 0 len xs]
  by (fastforce simp: usart_read_def uart_wf_def)

end
