(* ===== verification/Usb.thy ===== *)
theory Usb
  imports RingbufferSpec
begin

text \<open>
  The USB device of the controller: the serial (CDC) and joystick (HID) functions of
  \<open>Firmware/applications/usbd_cdc_acm_hid.c\<close> on the endpoint functions and the transfer
  interrupt of the CH58x port (\<open>CherryUSB/port/ch32/usb_ch58x_dc_usbfs.c\<close>). Endpoint 0 and the
  enumeration are the library's. A transfer buffer is a pair of an address and the bytes there; a
  copy past the end of an array is \<open>None\<close>. The host is the environment: it takes a packet from
  an endpoint that answers ACK, or sends one.
\<close>

section \<open>State\<close>

text \<open>
  An IN endpoint: its 64-byte buffer, the length register, what it answers to a token (the bits
  \<open>MASK_UEP_T_RES\<close> of its control register), and the transfer
  in progress, whose remaining bytes start at \<open>xfer_buf\<close>. An OUT endpoint keeps the offset of
  its pointer in the buffer of the transfer.
\<close>

datatype ep_res = RES_ACK | RES_NAK | RES_STALL

record usb_in_ep =
  in_mps :: nat
  in_enable :: bool
  in_ram :: "u8 list"
  in_tx_len :: nat
  in_res :: ep_res
  in_xfer_buf :: "u8 list"
  in_xfer_len :: u32
  in_actual :: u32

record usb_out_ep =
  out_mps :: nat
  out_enable :: bool
  out_res :: ep_res
  out_xfer_off :: nat
  out_xfer_len :: u32
  out_actual :: u32

record usb_sys =
  ep_in :: "usb_in_ep list"
  ep_out :: usb_out_ep \<comment> \<open>endpoint 1, the only OUT endpoint in use\<close>
  hid_state :: u8
  read_buffer :: "u8 list"
  write_buffer :: "u8 list"
  read_buffer_addr :: u32 \<comment> \<open>the addresses are the linker's choice\<close>
  write_buffer_addr :: u32
  rb_cdc_tx :: rt_ringbuffer
  rb_cdc_rx :: rt_ringbuffer
  cdc_tx_sem :: nat
  dtr_enable :: u8
  host_cdc :: "u8 list list" \<comment> \<open>the packets the host has taken from endpoint 1\<close>
  host_hid :: "u8 list list" \<comment> \<open>and from endpoint 3\<close>

abbreviation in_ack :: "usb_in_ep \<Rightarrow> bool" where "in_ack e \<equiv> in_res e = RES_ACK"
abbreviation out_ack :: "usb_out_ep \<Rightarrow> bool" where "out_ack e \<equiv> out_res e = RES_ACK"

definition CDC_IN_EP :: u8 where "CDC_IN_EP = 0x81"
definition CDC_OUT_EP :: u8 where "CDC_OUT_EP = 0x01"
definition HID_INT_EP :: u8 where "HID_INT_EP = 0x83"
definition HID_STATE_IDLE :: u8 where "HID_STATE_IDLE = 0"
definition HID_STATE_BUSY :: u8 where "HID_STATE_BUSY = 1"
definition USB_BUFFER_SIZE :: nat where "USB_BUFFER_SIZE = 128"
definition CDC_MAX_MPS :: u32 where "CDC_MAX_MPS = 64"
definition RT_SEM_VALUE_MAX :: nat where "RT_SEM_VALUE_MAX = 65535"

definition USB_NUM_BIDIR_ENDPOINTS :: nat where "USB_NUM_BIDIR_ENDPOINTS = 8"

definition USB_EP_GET_IDX :: "u8 \<Rightarrow> nat" where
  "USB_EP_GET_IDX ep = unat (ep AND NOT 0x80)"

lemmas usb_ep_defs = CDC_IN_EP_def CDC_OUT_EP_def HID_INT_EP_def USB_EP_GET_IDX_def
  USB_NUM_BIDIR_ENDPOINTS_def

lemma ep_idx [simp]: "USB_EP_GET_IDX CDC_IN_EP = 1" "USB_EP_GET_IDX HID_INT_EP = 3"
  by (simp_all add: usb_ep_defs)

section \<open>The port\<close>

definition usbd_ep_start_write ::
    "u8 \<Rightarrow> u32 \<Rightarrow> u8 list \<Rightarrow> u32 \<Rightarrow> usb_sys \<Rightarrow> (int \<times> usb_sys) option" where
  "usbd_ep_start_write ep addr data data_len s = do {
     let i = USB_EP_GET_IDX ep;
     e \<leftarrow> arr_get (ep_in s) i;
     if addr = 0 \<and> data_len \<noteq> 0 then Some (-1, s)
     else if \<not> in_enable e then Some (-2, s)
     else if addr AND 3 \<noteq> 0 then Some (-3, s)
     else do {
       let e1 = e\<lparr>in_xfer_buf := data, in_xfer_len := data_len, in_actual := 0\<rparr>;
       if data_len = 0
       then Some (0, s\<lparr>ep_in := (ep_in s)[i := e1\<lparr>in_tx_len := 0, in_res := RES_ACK\<rparr>]\<rparr>)
       else do {
         let n = min (unat data_len) (in_mps e1);
         ram \<leftarrow> copy_to (in_ram e1) 0 data 0 n;
         Some (0, s\<lparr>ep_in := (ep_in s)[i := e1\<lparr>in_ram := ram, in_tx_len := n, in_res := RES_ACK\<rparr>]\<rparr>)
       }
     }
   }"

definition usbd_ep_start_read :: "u32 \<Rightarrow> u32 \<Rightarrow> usb_sys \<Rightarrow> int \<times> usb_sys" where
  "usbd_ep_start_read addr data_len s =
     (if addr = 0 \<and> data_len \<noteq> 0 then (-1, s)
      else if \<not> out_enable (ep_out s) then (-2, s)
      else if addr AND 3 \<noteq> 0 then (-3, s)
      else (0, s\<lparr>ep_out := (ep_out s)\<lparr>out_xfer_off := 0, out_xfer_len := data_len, out_actual := 0,
                                       out_res := RES_ACK\<rparr>\<rparr>))"

definition usbd_ep_open :: "u8 \<Rightarrow> nat \<Rightarrow> usb_sys \<Rightarrow> (int \<times> usb_sys) option" where
  "usbd_ep_open ep m s =
     (if USB_EP_GET_IDX ep > USB_NUM_BIDIR_ENDPOINTS - 1 then Some (-1, s)
      else if ep AND 0x80 \<noteq> 0 then do {
        e \<leftarrow> arr_get (ep_in s) (USB_EP_GET_IDX ep);
        Some (0, s\<lparr>ep_in := (ep_in s)[USB_EP_GET_IDX ep := e\<lparr>in_mps := m, in_enable := True\<rparr>]\<rparr>)
      }
      else Some (0, if USB_EP_GET_IDX ep = 1
                    then s\<lparr>ep_out := (ep_out s)\<lparr>out_mps := m, out_enable := True\<rparr>\<rparr> else s))"

section \<open>Callbacks and operations\<close>

definition usbd_hid_int_callback :: "u8 \<Rightarrow> u32 \<Rightarrow> usb_sys \<Rightarrow> usb_sys" where
  "usbd_hid_int_callback ep nbytes s = s\<lparr>hid_state := HID_STATE_IDLE\<rparr>"

definition usbd_configure_done_callback :: "usb_sys \<Rightarrow> usb_sys" where
  "usbd_configure_done_callback s =
     snd (usbd_ep_start_read (read_buffer_addr s) (of_nat USB_BUFFER_SIZE) s)"

definition usbd_cdc_acm_bulk_out :: "u8 \<Rightarrow> u32 \<Rightarrow> usb_sys \<Rightarrow> usb_sys" where
  "usbd_cdc_acm_bulk_out ep nbytes s =
     snd (usbd_ep_start_read (read_buffer_addr s) (of_nat USB_BUFFER_SIZE) s)"

text \<open>
  The semaphore of the kernel. Handing it to a waiting thread is the same as raising it and letting
  the thread take it: one thread takes it.
\<close>

definition rt_sem_release :: "usb_sys \<Rightarrow> usb_sys" where
  "rt_sem_release s =
     (if cdc_tx_sem s < RT_SEM_VALUE_MAX then s\<lparr>cdc_tx_sem := cdc_tx_sem s + 1\<rparr> else s)"

definition rt_sem_take :: "usb_sys \<Rightarrow> usb_sys option" where
  "rt_sem_take s = (if cdc_tx_sem s > 0 then Some (s\<lparr>cdc_tx_sem := cdc_tx_sem s - 1\<rparr>) else None)"

definition usbd_cdc_acm_bulk_in :: "u8 \<Rightarrow> u32 \<Rightarrow> usb_sys \<Rightarrow> usb_sys option" where
  "usbd_cdc_acm_bulk_in ep nbytes s =
     (if nbytes mod CDC_MAX_MPS = 0 \<and> nbytes \<noteq> 0
      then map_option snd (usbd_ep_start_write CDC_IN_EP 0 [] 0 s)
      else Some (rt_sem_release s))"

definition cdc_acm_hid_init :: "u8 list \<Rightarrow> u8 list \<Rightarrow> usb_sys \<Rightarrow> usb_sys" where
  "cdc_acm_hid_init cdc_tx_buffer cdc_rx_buffer s =
     s\<lparr>cdc_tx_sem := 1, rb_cdc_tx := rt_ringbuffer_init cdc_tx_buffer USB_BUFFER_SIZE,
       rb_cdc_rx := rt_ringbuffer_init cdc_rx_buffer USB_BUFFER_SIZE\<rparr>"

text \<open>
  \<open>usbd_hid_send_report\<close> in the two parts between which the transfer interrupt can come: the
  start of the transfer, with whether the second part follows, and the mark. Together they are the
  function.
\<close>

definition hid_report_start :: "u32 \<Rightarrow> u8 list \<Rightarrow> u32 \<Rightarrow> usb_sys \<Rightarrow> (bool \<times> usb_sys) option" where
  "hid_report_start addr data len s =
     (if hid_state s \<noteq> HID_STATE_BUSY then do {
        (ret, s1) \<leftarrow> usbd_ep_start_write HID_INT_EP addr data len s;
        Some (\<not> ret < 0, s1)
      }
      else Some (False, s))"

definition hid_report_mark :: "usb_sys \<Rightarrow> usb_sys" where
  "hid_report_mark s = s\<lparr>hid_state := HID_STATE_BUSY\<rparr>"

definition usbd_hid_send_report :: "u32 \<Rightarrow> u8 list \<Rightarrow> u32 \<Rightarrow> usb_sys \<Rightarrow> usb_sys option" where
  "usbd_hid_send_report addr data len s = do {
     (go, s1) \<leftarrow> hid_report_start addr data len s;
     Some (if go then hid_report_mark s1 else s1)
   }"

definition usbd_cdc_acm_set_dtr :: "u8 \<Rightarrow> bool \<Rightarrow> usb_sys \<Rightarrow> usb_sys" where
  "usbd_cdc_acm_set_dtr intf dtr s = (if dtr then s\<lparr>dtr_enable := 1\<rparr> else s\<lparr>dtr_enable := 0\<rparr>)"

definition usbd_cdc_acm_write :: "u8 list \<Rightarrow> nat \<Rightarrow> usb_sys \<Rightarrow> usb_sys option" where
  "usbd_cdc_acm_write buf len s = do {
     (n, rb) \<leftarrow> rt_ringbuffer_put (rb_cdc_tx s) buf len;
     Some (s\<lparr>rb_cdc_tx := rb\<rparr>)
   }"

definition usbd_cdc_acm_read :: "u8 list \<Rightarrow> nat \<Rightarrow> usb_sys \<Rightarrow> (nat \<times> u8 list \<times> usb_sys) option" where
  "usbd_cdc_acm_read buf len s = do {
     (n, buf', rb) \<leftarrow> rt_ringbuffer_get (rb_cdc_rx s) buf len;
     Some (n, buf', s\<lparr>rb_cdc_rx := rb\<rparr>)
   }"

text \<open>
  \<open>usbd_cdc_acm_proccess\<close>: the part behind the semaphore, and the call, which blocks in
  \<open>rt_sem_take\<close> when the semaphore is 0 (\<open>False\<close>) and then goes on with
  \<open>cdc_resume\<close>.
\<close>

definition cdc_send :: "usb_sys \<Rightarrow> usb_sys option" where
  "cdc_send s = do {
     (len, wb, rb) \<leftarrow> rt_ringbuffer_get (rb_cdc_tx s) (write_buffer s) 64;
     let s1 = s\<lparr>rb_cdc_tx := rb, write_buffer := wb\<rparr>;
     (ret, s2) \<leftarrow> usbd_ep_start_write CDC_IN_EP (write_buffer_addr s1) (write_buffer s1) (of_nat len) s1;
     Some s2
   }"

definition cdc_resume :: "usb_sys \<Rightarrow> (bool \<times> usb_sys) option" where
  "cdc_resume s = (case rt_sem_take s of None \<Rightarrow> Some (False, s)
     | Some s1 \<Rightarrow> map_option (\<lambda>s2. (True, s2)) (cdc_send s1))"

definition usbd_cdc_acm_proccess :: "usb_sys \<Rightarrow> (bool \<times> usb_sys) option" where
  "usbd_cdc_acm_proccess s =
     (if dtr_enable s \<noteq> 0 \<and> rt_ringbuffer_data_len (rb_cdc_tx s) > 0 then cdc_resume s
      else Some (True, s))"

section \<open>The transfer interrupt\<close>

definition ep_in_complete :: "u8 \<Rightarrow> u32 \<Rightarrow> usb_sys \<Rightarrow> usb_sys option" where
  "ep_in_complete ep nbytes s =
     (if ep = CDC_IN_EP then usbd_cdc_acm_bulk_in ep nbytes s
      else if ep = HID_INT_EP then Some (usbd_hid_int_callback ep nbytes s)
      else Some s)"

text \<open>A token IN on an endpoint other than 0 and 4: the host has taken the packet.\<close>

definition usb_in_irq :: "nat \<Rightarrow> usb_sys \<Rightarrow> usb_sys option" where
  "usb_in_irq epid s = do {
     e0 \<leftarrow> arr_get (ep_in s) epid;
     let e = e0\<lparr>in_res := RES_NAK\<rparr>;
     let m = of_nat (in_mps e);
     if in_xfer_len e > m then do {
       let e1 = e\<lparr>in_xfer_buf := drop (in_mps e) (in_xfer_buf e), in_xfer_len := in_xfer_len e - m,
                  in_actual := in_actual e + m\<rparr>;
       let n = (if in_xfer_len e1 > m then in_mps e else unat (in_xfer_len e1));
       ram \<leftarrow> copy_to (in_ram e1) 0 (in_xfer_buf e1) 0 n;
       Some (s\<lparr>ep_in := (ep_in s)[epid := e1\<lparr>in_ram := ram, in_res := RES_ACK\<rparr>]\<rparr>)
     }
     else do {
       let e1 = e\<lparr>in_actual := in_actual e + in_xfer_len e, in_xfer_len := 0\<rparr>;
       ep_in_complete (of_nat epid OR 0x80) (in_actual e1) (s\<lparr>ep_in := (ep_in s)[epid := e1]\<rparr>)
     }
   }"

text \<open>A token OUT on endpoint 1 with the bytes the host sent.\<close>

definition usb_out_irq :: "u8 list \<Rightarrow> usb_sys \<Rightarrow> usb_sys option" where
  "usb_out_irq bs s = do {
     let e = ep_out s;
     let read_count = length bs;
     buf \<leftarrow> copy_to (read_buffer s) (out_xfer_off e) bs 0 read_count;
     let e1 = e\<lparr>out_xfer_off := out_xfer_off e + read_count,
                out_actual := out_actual e + of_nat read_count,
                out_xfer_len := out_xfer_len e - of_nat read_count\<rparr>;
     let s1 = s\<lparr>read_buffer := buf, ep_out := e1\<rparr>;
     Some (if read_count < out_mps e1 \<or> out_xfer_len e1 = 0
           then usbd_cdc_acm_bulk_out CDC_OUT_EP (out_actual e1) s1
           else s1\<lparr>ep_out := e1\<lparr>out_res := RES_ACK\<rparr>\<rparr>)
   }"

end
