(* ===== verification/UsbProps.thy ===== *)
theory UsbProps
  imports Usb
begin

text \<open>
  Runs of the USB device: the main loop, the radio callback that queues telemetry, the host and the
  interrupts, in any order. The state pairs the device with whether the main loop is blocked on the
  semaphore.
\<close>

section \<open>Events\<close>

datatype usb_event =
  Cdc_write "u8 list" | Set_dtr bool | Main_loop | Host_in nat | Host_out "u8 list"
  | Hid_report u32 "u8 list" | Cdc_read nat

definition packet_of :: "usb_in_ep \<Rightarrow> u8 list" where
  "packet_of e = take (in_tx_len e) (in_ram e)"

text \<open>A token on an endpoint that answers NAK raises no interrupt.\<close>

definition host_in :: "nat \<Rightarrow> usb_sys \<Rightarrow> usb_sys option" where
  "host_in i s = (if i < length (ep_in s) \<and> in_ack (ep_in s ! i) then
     usb_in_irq i (if i = 1 then s\<lparr>host_cdc := host_cdc s @ [packet_of (ep_in s ! 1)]\<rparr>
                   else if i = 3 then s\<lparr>host_hid := host_hid s @ [packet_of (ep_in s ! 3)]\<rparr> else s)
   else Some s)"

fun usb_step :: "bool \<times> usb_sys \<Rightarrow> usb_event \<Rightarrow> (bool \<times> usb_sys) option" where
  "usb_step (b, s) (Cdc_write bs) = map_option (Pair b) (usbd_cdc_acm_write bs (length bs) s)"
| "usb_step (b, s) (Set_dtr d) = Some (b, usbd_cdc_acm_set_dtr 0 d s)"
| "usb_step (b, s) Main_loop = map_option (map_prod Not id)
     (if b then cdc_resume s else usbd_cdc_acm_proccess s)"
| "usb_step (b, s) (Host_in i) = map_option (Pair b) (host_in i s)"
| "usb_step (b, s) (Host_out bs) =
     (if out_ack (ep_out s) then map_option (Pair b) (usb_out_irq bs s) else Some (b, s))"
| "usb_step (b, s) (Hid_report addr data) =
     map_option (Pair b) (usbd_hid_send_report addr data (of_nat (length data)) s)"
| "usb_step (b, s) (Cdc_read n) =
     map_option (\<lambda>(k, buf, s'). (b, s')) (usbd_cdc_acm_read (replicate n 0) n s)"

fun usb_run :: "bool \<times> usb_sys \<Rightarrow> usb_event list \<Rightarrow> (bool \<times> usb_sys) option" where
  "usb_run c [] = Some c"
| "usb_run c (e # es) = Option.bind (usb_step c e) (\<lambda>c'. usb_run c' es)"

text \<open>The bytes a call of \<open>usbd_cdc_acm_write\<close> finds room for, and those of a whole run.\<close>

fun taken :: "bool \<times> usb_sys \<Rightarrow> usb_event \<Rightarrow> u8 list" where
  "taken (b, s) (Cdc_write bs) = take (128 - length (rb_contents (rb_cdc_tx s))) bs"
| "taken (b, s) _ = []"

fun accepted :: "bool \<times> usb_sys \<Rightarrow> usb_event list \<Rightarrow> u8 list" where
  "accepted c [] = []"
| "accepted c (e # es) = taken c e @ (case usb_step c e of None \<Rightarrow> [] | Some c' \<Rightarrow> accepted c' es)"

text \<open>Each packet with whether the one before it was full.\<close>

fun zlp_ok :: "bool \<Rightarrow> u8 list list \<Rightarrow> bool" where
  "zlp_ok full [] = True"
| "zlp_ok full (p # ps) = ((full \<longrightarrow> p = []) \<and> zlp_ok (length p = 64) ps)"

definition ends_full :: "u8 list list \<Rightarrow> bool" where
  "ends_full ps \<longleftrightarrow> ps \<noteq> [] \<and> length (last ps) = 64"

lemma zlp_ok_snoc:
  "zlp_ok b (ps @ [p]) \<longleftrightarrow> zlp_ok b ps \<and> ((if ps = [] then b else ends_full ps) \<longrightarrow> p = [])"
  by (induction ps arbitrary: b) (auto simp: ends_full_def)

section \<open>The invariant\<close>

definition ep_ok :: "usb_in_ep \<Rightarrow> bool" where
  "ep_ok e \<longleftrightarrow> in_enable e \<and> 0 < in_mps e \<and> in_mps e \<le> 64 \<and> length (in_ram e) = 64 \<and>
     in_tx_len e \<le> 64 \<and> unat (in_xfer_len e) \<le> length (in_xfer_buf e)"

text \<open>Endpoint 1 has one transfer of one packet in flight exactly when the semaphore is 0.\<close>

definition ep1_ok :: "usb_in_ep \<Rightarrow> nat \<Rightarrow> bool" where
  "ep1_ok e sem \<longleftrightarrow> ep_ok e \<and> in_mps e = 64 \<and> (if in_ack e then sem = 0 else sem = 1) \<and>
     (in_ack e \<longrightarrow> in_xfer_len e = of_nat (in_tx_len e) \<and> in_actual e = 0)"

definition flight :: "usb_sys \<Rightarrow> u8 list list" where
  "flight s = (if in_ack (ep_in s ! 1) then [packet_of (ep_in s ! 1)] else [])"

definition out_ok :: "usb_sys \<Rightarrow> bool" where
  "out_ok s \<longleftrightarrow> length (read_buffer s) = 64 \<and> out_mps (ep_out s) = 64 \<and> out_enable (ep_out s) \<and>
     read_buffer_addr s \<noteq> 0 \<and> read_buffer_addr s AND 3 = 0 \<and>
     (out_ack (ep_out s) \<longrightarrow> out_xfer_off (ep_out s) = 0 \<and> out_xfer_len (ep_out s) = 128)"

definition usb_inv :: "usb_sys \<Rightarrow> bool" where
  "usb_inv s \<longleftrightarrow> length (ep_in s) = 8 \<and> ep1_ok (ep_in s ! 1) (cdc_tx_sem s) \<and> ep_ok (ep_in s ! 3) \<and>
     rb_wf (rb_cdc_tx s) \<and> buffer_size (rb_cdc_tx s) = 128 \<and> length (write_buffer s) = 64 \<and>
     write_buffer_addr s \<noteq> 0 \<and> write_buffer_addr s AND 3 = 0 \<and>
     rb_wf (rb_cdc_rx s) \<and> rb_contents (rb_cdc_rx s) = [] \<and> out_ok s \<and>
     zlp_ok False (host_cdc s @ flight s) \<and> (\<not> in_ack (ep_in s ! 1) \<longrightarrow> \<not> ends_full (host_cdc s))"

text \<open>Everything the device has been given: what the host has, what is in flight, what is queued.\<close>

definition cdc_stream :: "usb_sys \<Rightarrow> u8 list" where
  "cdc_stream s = concat (host_cdc s) @ concat (flight s) @ rb_contents (rb_cdc_tx s)"

text \<open>The host never sends a full packet, so that every packet ends its transfer.\<close>

fun short_out :: "usb_event \<Rightarrow> bool" where
  "short_out (Host_out bs) = (length bs < 64)"
| "short_out (Hid_report addr data) = (length data < 4294967296)"
| "short_out (Host_in i) = (i = 1 \<or> i = 3)"
| "short_out _ = True"

section \<open>Single operations\<close>

declare One_nat_def [simp del]

lemma flight_cong: "ep_in s' = ep_in s \<Longrightarrow> flight s' = flight s"
  by (simp add: flight_def)

lemma usb_invD:
  assumes "usb_inv s"
  shows "length (ep_in s) = 8" "ep1_ok (ep_in s ! 1) (cdc_tx_sem s)" "ep_ok (ep_in s ! 3)"
    "rb_wf (rb_cdc_tx s)" "buffer_size (rb_cdc_tx s) = 128" "length (write_buffer s) = 64"
    "write_buffer_addr s \<noteq> 0" "write_buffer_addr s AND 3 = 0"
    "rb_wf (rb_cdc_rx s)" "rb_contents (rb_cdc_rx s) = []" "out_ok s"
    "zlp_ok False (host_cdc s @ flight s)" "\<not> in_ack (ep_in s ! 1) \<Longrightarrow> \<not> ends_full (host_cdc s)"
  using assms by (auto simp: usb_inv_def)

lemma cdc_write_ok:
  assumes "usb_inv s"
  shows "\<exists>s'. usbd_cdc_acm_write bs (length bs) s = Some s' \<and> usb_inv s' \<and>
    cdc_stream s' = cdc_stream s @ take (128 - length (rb_contents (rb_cdc_tx s))) bs \<and>
    ep_in s' = ep_in s \<and> cdc_tx_sem s' = cdc_tx_sem s \<and> host_cdc s' = host_cdc s \<and>
    host_hid s' = host_hid s \<and> hid_state s' = hid_state s"
proof -
  note inv = usb_invD [OF assms]
  obtain rb' where rb': "rt_ringbuffer_put (rb_cdc_tx s) bs (length bs) =
      Some (min (length bs) (128 - length (rb_contents (rb_cdc_tx s))), rb')" "rb_wf rb'"
    "buffer_size rb' = 128"
    "rb_contents rb' = rb_contents (rb_cdc_tx s) @
       take (min (length bs) (128 - length (rb_contents (rb_cdc_tx s)))) bs"
    using rb.put_law [OF inv(4), of "length bs" bs] inv(5) by auto
  have "take (min (length bs) k) bs = take k bs" for k by (simp add: min_def)
  moreover have "flight (s\<lparr>rb_cdc_tx := rb'\<rparr>) = flight s" by (rule flight_cong) simp
  ultimately show ?thesis using inv rb'
    by (simp add: usbd_cdc_acm_write_def usb_inv_def cdc_stream_def out_ok_def)
qed

lemma min_word: "n \<le> 64 \<Longrightarrow> unat (of_nat n :: u32) = n"
  by (simp add: unat_of_nat)

lemma min_word_0: "n \<le> 64 \<Longrightarrow> (of_nat n :: u32) = 0 \<longleftrightarrow> n = 0"
proof
  assume "n \<le> 64" "(of_nat n :: u32) = 0"
  then have "unat (of_nat n :: u32) = 0" by (simp only: unat_0)
  then show "n = 0" using \<open>n \<le> 64\<close> by (simp only: min_word)
qed simp

text \<open>Starting a transfer of at most one packet on endpoint 1.\<close>

definition started :: "usb_in_ep \<Rightarrow> u8 list \<Rightarrow> nat \<Rightarrow> usb_in_ep" where
  "started e data n = e\<lparr>in_xfer_buf := data, in_xfer_len := of_nat n, in_actual := 0,
     in_ram := take n data @ drop n (in_ram e), in_tx_len := n, in_res := RES_ACK\<rparr>"

lemma started_ok:
  assumes "ep_ok e" and "in_mps e = 64" and "n \<le> 64" and "n \<le> length data"
  shows "ep1_ok (started e data n) 0" "packet_of (started e data n) = take n data"
    "in_ack (started e data n)"
  using assms by (auto simp: ep1_ok_def ep_ok_def started_def packet_of_def min_word)

lemma start_write_cdc:
  assumes "length (ep_in s) = 8" and "ep_ok (ep_in s ! 1)" and "in_mps (ep_in s ! 1) = 64"
    and "addr = 0 \<Longrightarrow> n = 0" and "addr AND 3 = 0" and "n \<le> 64" and "n \<le> length data"
  shows "usbd_ep_start_write CDC_IN_EP addr data (of_nat n) s =
    Some (0, s\<lparr>ep_in := (ep_in s)[1 := started (ep_in s ! 1) data n]\<rparr>)"
proof -
  have z: "(of_nat n :: u32) = 0 \<longleftrightarrow> n = 0"
    by (rule min_word_0 [OF assms(6)])
  have g: "arr_get (ep_in s) 1 = Some (ep_in s ! 1)" using assms(1) by simp
  have a: "\<not> (addr = 0 \<and> (of_nat n :: u32) \<noteq> 0)" using assms(4) z by auto
  have en: "in_enable (ep_in s ! 1)" and ram: "length (in_ram (ep_in s ! 1)) = 64"
    using assms(2) by (simp_all add: ep_ok_def)
  show ?thesis
  proof (cases "n = 0")
    case True
    then show ?thesis
      using g en assms(5) by (simp add: usbd_ep_start_write_def started_def)
  next
    case False
    have m: "min n 64 = n" using assms(6) by simp
    show ?thesis
      using g a en ram z False assms(3,5,6,7)
      by (simp add: usbd_ep_start_write_def started_def min_word m Let_def del: of_nat_eq_0_iff)
  qed
qed

lemma cdc_send_ok:
  assumes inv: "usb_inv s" and sem: "cdc_tx_sem s = 1"
  shows "\<exists>s'. cdc_send (s\<lparr>cdc_tx_sem := 0\<rparr>) = Some s' \<and> usb_inv s' \<and> cdc_stream s' = cdc_stream s \<and>
    hid_state s' = hid_state s \<and> host_hid s' = host_hid s \<and> ep_in s' ! 3 = ep_in s ! 3 \<and>
    host_cdc s' = host_cdc s \<and> rb_contents (rb_cdc_tx s') = drop 64 (rb_contents (rb_cdc_tx s))"
proof -
  note inv' = usb_invD [OF inv]
  let ?c = "rb_contents (rb_cdc_tx s)" and ?e = "ep_in s ! 1"
  let ?n = "min 64 (length ?c)"
  have "\<exists>rb'. rt_ringbuffer_get (rb_cdc_tx s) (write_buffer s) 64 =
      Some (?n, take 64 ?c @ drop ?n (write_buffer s), rb') \<and> rb_wf rb' \<and>
    buffer_size rb' = buffer_size (rb_cdc_tx s) \<and> rb_contents rb' = drop 64 ?c"
    by (rule rb.get_law [OF inv'(4)]) (simp add: inv'(6))
  then obtain rb' where rb': "rt_ringbuffer_get (rb_cdc_tx s) (write_buffer s) 64 =
      Some (?n, take 64 ?c @ drop ?n (write_buffer s), rb')" "rb_wf rb'" "buffer_size rb' = 128"
    "rb_contents rb' = drop 64 ?c"
    using inv'(5) by (elim exE conjE) simp
  let ?w = "take 64 ?c @ drop ?n (write_buffer s)"
  have lw: "length ?w = 64" using inv'(6) by auto
  have e: "ep_ok ?e" "in_mps ?e = 64" "\<not> in_ack ?e"
    using inv'(2) sem by (auto simp: ep1_ok_def split: if_splits)
  let ?s1 = "s\<lparr>cdc_tx_sem := 0, rb_cdc_tx := rb', write_buffer := ?w\<rparr>"
  let ?s2 = "?s1\<lparr>ep_in := (ep_in s)[1 := started ?e ?w ?n]\<rparr>"
  have st: "usbd_ep_start_write CDC_IN_EP (write_buffer_addr s) ?w (of_nat ?n) ?s1 = Some (0, ?s2)"
    using start_write_cdc [of ?s1 "write_buffer_addr s" ?n ?w] inv'(1,7,8) e lw by simp
  have pk: "packet_of (started ?e ?w ?n) = take 64 ?c" "in_ack (started ?e ?w ?n)"
    "ep1_ok (started ?e ?w ?n) 0"
    using started_ok [OF e(1,2), of ?n ?w] lw by (auto simp: min_def)
  have "zlp_ok False (host_cdc s @ [take 64 ?c])"
    using inv'(12,13) e(3) by (auto simp: zlp_ok_snoc flight_def)
  then have "usb_inv ?s2"
    using inv inv'(1) rb' lw pk by (simp add: usb_inv_def flight_def out_ok_def)
  moreover have "cdc_stream ?s2 = cdc_stream s"
    using inv'(1) rb'(4) pk e(3) by (simp add: cdc_stream_def flight_def)
  ultimately show ?thesis
    using rb' st inv'(1) by (intro exI [of _ ?s2]) (simp add: cdc_send_def)
qed

text \<open>The host takes the packet of endpoint 1.\<close>

lemma full_packet: "k \<le> 64 \<Longrightarrow> ((of_nat k :: u32) mod 64 = 0 \<and> (of_nat k :: u32) \<noteq> 0) \<longleftrightarrow> k = 64"
proof -
  assume k: "k \<le> 64"
  have "(of_nat k :: u32) mod 64 = 0 \<longleftrightarrow> unat ((of_nat k :: u32) mod 64) = 0"
    by (simp add: unat_eq_0)
  also have "\<dots> \<longleftrightarrow> k mod 64 = 0" using min_word [OF k] by (simp add: unat_mod_distrib)
  finally show ?thesis using min_word_0 [OF k] k by (cases "k = 64") auto
qed

lemma in_irq_cdc:
  assumes "length (ep_in s) = 8" and "ep1_ok (ep_in s ! 1) sem" and "in_ack (ep_in s ! 1)"
  shows "usb_in_irq 1 s = usbd_cdc_acm_bulk_in CDC_IN_EP (of_nat (in_tx_len (ep_in s ! 1)))
    (s\<lparr>ep_in := (ep_in s)[1 := (ep_in s ! 1)\<lparr>in_res := RES_NAK,
       in_actual := of_nat (in_tx_len (ep_in s ! 1)), in_xfer_len := 0\<rparr>]\<rparr>)"
proof -
  let ?e = "ep_in s ! 1" and ?k = "in_tx_len (ep_in s ! 1)"
  have k: "?k \<le> 64" "in_xfer_len ?e = of_nat ?k" "in_actual ?e = 0" "in_mps ?e = 64"
    using assms(2,3) by (auto simp: ep1_ok_def ep_ok_def)
  have "\<not> (of_nat ?k :: u32) > 64" using min_word [OF k(1)] k(1) by (simp add: word_less_nat_alt)
  moreover have "(1 OR 0x80 :: u8) = CDC_IN_EP" by (simp add: CDC_IN_EP_def)
  ultimately show ?thesis
    using assms(1) k by (simp add: usb_in_irq_def ep_in_complete_def Let_def)
qed

lemma host_in_cdc_ok:
  assumes inv: "usb_inv s"
  shows "\<exists>s'. host_in 1 s = Some s' \<and> usb_inv s' \<and> cdc_stream s' = cdc_stream s \<and>
    hid_state s' = hid_state s \<and> host_hid s' = host_hid s \<and> ep_in s' ! 3 = ep_in s ! 3 \<and>
    rb_cdc_tx s' = rb_cdc_tx s \<and> dtr_enable s' = dtr_enable s \<and>
    (in_ack (ep_in s' ! 1) \<longrightarrow> in_ack (ep_in s ! 1) \<and> flight s' = [[]] \<and> flight s \<noteq> [[]])"
proof (cases "in_ack (ep_in s ! 1)")
  case False
  then show ?thesis using assms by (auto simp: host_in_def)
next
  case True
  note inv' = usb_invD [OF inv]
  let ?e = "ep_in s ! 1"
  let ?p = "packet_of ?e"
  let ?e1 = "?e\<lparr>in_res := RES_NAK, in_actual := of_nat (in_tx_len ?e), in_xfer_len := 0\<rparr>"
  let ?s1 = "s\<lparr>host_cdc := host_cdc s @ [?p]\<rparr>"
  let ?s2 = "?s1\<lparr>ep_in := (ep_in s)[1 := ?e1]\<rparr>"
  have e: "ep_ok ?e" "in_mps ?e = 64" "cdc_tx_sem s = 0" "in_tx_len ?e \<le> 64" "length ?p = in_tx_len ?e"
    using inv'(2) True by (auto simp: ep1_ok_def ep_ok_def packet_of_def)
  have e1: "ep_ok ?e1" "in_mps ?e1 = 64" using e by (simp_all add: ep_ok_def)
  have irq: "host_in 1 s = usbd_cdc_acm_bulk_in CDC_IN_EP (of_nat (in_tx_len ?e)) ?s2"
    using in_irq_cdc [of ?s1 "cdc_tx_sem s"] inv'(1,2) True by (simp add: host_in_def)
  have z: "zlp_ok False (host_cdc s @ [?p])" using inv'(12) True by (simp add: flight_def)
  show ?thesis
  proof (cases "in_tx_len ?e = 64")
    case full: True
    let ?s3 = "?s2\<lparr>ep_in := (ep_in s)[1 := started ?e1 [] 0]\<rparr>"
    have "usbd_ep_start_write CDC_IN_EP 0 [] 0 ?s2 = Some (0, ?s3)"
      using start_write_cdc [of ?s2 0 0 "[]"] inv'(1) e1 by simp
    then have r: "host_in 1 s = Some ?s3"
      unfolding irq using full by (simp add: usbd_cdc_acm_bulk_in_def CDC_MAX_MPS_def)
    have st: "ep1_ok (started ?e1 [] 0) 0" "packet_of (started ?e1 [] 0) = []"
      "in_ack (started ?e1 [] 0)"
      using started_ok [OF e1, of 0 "[]"] by simp_all
    have z': "zlp_ok False ((host_cdc s @ [?p]) @ [[]])"
      unfolding zlp_ok_snoc [of _ "host_cdc s @ [?p]"] using z by simp
    have fl: "flight ?s3 = [[]]" using st inv'(1) by (simp add: flight_def)
    have fl0: "flight s = [?p]" using True by (simp add: flight_def)
    have "usb_inv ?s3"
      using inv inv'(1) st(1,3) e(3) z' unfolding usb_inv_def fl by (simp add: out_ok_def)
    moreover have "cdc_stream ?s3 = cdc_stream s" unfolding cdc_stream_def fl fl0 by simp
    moreover have "flight s \<noteq> [[]]" using e(5) full unfolding fl0 by auto
    ultimately show ?thesis using r fl True inv'(1) by (intro exI [of _ ?s3]) simp
  next
    case short: False
    let ?s3 = "?s2\<lparr>cdc_tx_sem := 1\<rparr>"
    have "\<not> ((of_nat (in_tx_len ?e) :: u32) mod 64 = 0 \<and> (of_nat (in_tx_len ?e) :: u32) \<noteq> 0)"
      unfolding full_packet [OF e(4)] by (rule short)
    then have "usbd_cdc_acm_bulk_in CDC_IN_EP (of_nat (in_tx_len ?e)) ?s2 = Some (rt_sem_release ?s2)"
      unfolding usbd_cdc_acm_bulk_in_def CDC_MAX_MPS_def by (rule if_not_P)
    then have r: "host_in 1 s = Some ?s3"
      unfolding irq using e(3) by (simp add: rt_sem_release_def RT_SEM_VALUE_MAX_def)
    have fl: "flight ?s3 = []" using inv'(1) by (simp add: flight_def)
    have fl0: "flight s = [?p]" using True by (simp add: flight_def)
    have "\<not> ends_full (host_cdc s @ [?p])" using short e(5) by (simp add: ends_full_def)
    then have "usb_inv ?s3"
      using inv inv'(1) e1 z unfolding usb_inv_def fl by (simp add: ep1_ok_def out_ok_def)
    moreover have "cdc_stream ?s3 = cdc_stream s" unfolding cdc_stream_def fl fl0 by simp
    ultimately show ?thesis using r fl inv'(1) by (intro exI [of _ ?s3]) simp
  qed
qed

text \<open>The other operations leave the serial stream alone.\<close>

definition same_cdc :: "usb_sys \<Rightarrow> usb_sys \<Rightarrow> bool" where
  "same_cdc s s' \<longleftrightarrow> ep_in s' ! 1 = ep_in s ! 1 \<and> cdc_tx_sem s' = cdc_tx_sem s \<and>
     host_cdc s' = host_cdc s \<and> rb_cdc_tx s' = rb_cdc_tx s \<and> dtr_enable s' = dtr_enable s"

lemma same_cdc_stream: "same_cdc s s' \<Longrightarrow> cdc_stream s' = cdc_stream s \<and> flight s' = flight s"
  by (simp add: same_cdc_def cdc_stream_def flight_def)

lemma inv_same:
  assumes "usb_inv s" and "same_cdc s s'" and "length (ep_in s') = 8" and "ep_ok (ep_in s' ! 3)"
    and "write_buffer s' = write_buffer s" and "write_buffer_addr s' = write_buffer_addr s"
    and "rb_wf (rb_cdc_rx s')" and "rb_contents (rb_cdc_rx s') = []" and "out_ok s'"
  shows "usb_inv s'"
  using usb_invD [OF assms(1)] assms(2-) same_cdc_stream [OF assms(2)]
  by (simp add: usb_inv_def same_cdc_def)

lemma set_dtr_ok: "usb_inv (usbd_cdc_acm_set_dtr i d s) = usb_inv s"
  "cdc_stream (usbd_cdc_acm_set_dtr i d s) = cdc_stream s"
  by (simp_all add: usbd_cdc_acm_set_dtr_def usb_inv_def cdc_stream_def flight_def out_ok_def)

lemma host_out_ok:
  assumes "usb_inv s" and "out_ack (ep_out s)" and "length bs < 64"
  shows "\<exists>s'. usb_out_irq bs s = Some s' \<and> usb_inv s' \<and> same_cdc s s' \<and>
    ep_in s' = ep_in s \<and> hid_state s' = hid_state s \<and> host_hid s' = host_hid s"
proof -
  note inv' = usb_invD [OF assms(1)]
  have o: "length (read_buffer s) = 64" "out_mps (ep_out s) = 64" "out_enable (ep_out s)"
    "out_xfer_off (ep_out s) = 0" "read_buffer_addr s \<noteq> 0" "read_buffer_addr s AND 3 = 0"
    using inv'(11) assms(2) by (auto simp: out_ok_def)
  let ?s' = "s\<lparr>read_buffer := bs @ drop (length bs) (read_buffer s),
    ep_out := (ep_out s)\<lparr>out_xfer_off := 0, out_xfer_len := 128, out_actual := 0, out_res := RES_ACK\<rparr>\<rparr>"
  have "usb_out_irq bs s = Some ?s'"
    using o assms(3)
    by (simp add: usb_out_irq_def usbd_cdc_acm_bulk_out_def usbd_ep_start_read_def Let_def USB_BUFFER_SIZE_def)
  moreover have sm: "same_cdc s ?s'" by (simp add: same_cdc_def)
  moreover have "usb_inv ?s'"
    by (rule inv_same [OF assms(1) sm]) (use inv' o assms(3) in \<open>simp_all add: out_ok_def\<close>)
  ultimately show ?thesis by (intro exI [of _ ?s']) simp
qed

lemma cdc_read_ok:
  assumes "usb_inv s"
  shows "\<exists>s'. usbd_cdc_acm_read (replicate n 0) n s = Some (0, replicate n 0, s') \<and> usb_inv s' \<and>
    same_cdc s s' \<and> ep_in s' = ep_in s \<and> hid_state s' = hid_state s \<and> host_hid s' = host_hid s"
proof -
  note inv' = usb_invD [OF assms]
  have "\<exists>rb'. rt_ringbuffer_get (rb_cdc_rx s) (replicate n 0) n =
      Some (min n (length (rb_contents (rb_cdc_rx s))),
        take n (rb_contents (rb_cdc_rx s)) @
        drop (min n (length (rb_contents (rb_cdc_rx s)))) (replicate n 0), rb') \<and> rb_wf rb' \<and>
    buffer_size rb' = buffer_size (rb_cdc_rx s) \<and> rb_contents rb' = drop n (rb_contents (rb_cdc_rx s))"
    by (rule rb.get_law [OF inv'(9)]) simp
  then obtain rb' where "rt_ringbuffer_get (rb_cdc_rx s) (replicate n 0) n = Some (0, replicate n 0, rb')"
    "rb_wf rb'" "rb_contents rb' = []"
    using inv'(10) by auto
  moreover from this have "usb_inv (s\<lparr>rb_cdc_rx := rb'\<rparr>)"
    by (intro inv_same [OF assms]) (use inv' in \<open>simp_all add: out_ok_def same_cdc_def\<close>)
  ultimately show ?thesis by (simp add: usbd_cdc_acm_read_def same_cdc_def)
qed

text \<open>Endpoint 3.\<close>

lemma inv_ep3:
  assumes "usb_inv s" and "ep_ok e'"
  shows "usb_inv (s\<lparr>ep_in := (ep_in s)[3 := e'], hid_state := h, host_hid := x\<rparr>)"
    "same_cdc s (s\<lparr>ep_in := (ep_in s)[3 := e'], hid_state := h, host_hid := x\<rparr>)"
proof -
  show sm: "same_cdc s (s\<lparr>ep_in := (ep_in s)[3 := e'], hid_state := h, host_hid := x\<rparr>)"
    by (simp add: same_cdc_def)
  show "usb_inv (s\<lparr>ep_in := (ep_in s)[3 := e'], hid_state := h, host_hid := x\<rparr>)"
    by (rule inv_same [OF assms(1) sm]) (use usb_invD [OF assms(1)] assms(2) in \<open>simp_all add: out_ok_def\<close>)
qed

definition next_packet :: "usb_in_ep \<Rightarrow> usb_in_ep" where
  "next_packet e =
     (let m = of_nat (in_mps e);
          e1 = e\<lparr>in_xfer_buf := drop (in_mps e) (in_xfer_buf e), in_xfer_len := in_xfer_len e - m,
                 in_actual := in_actual e + m\<rparr>;
          n = (if in_xfer_len e1 > m then in_mps e else unat (in_xfer_len e1))
      in e1\<lparr>in_ram := take n (in_xfer_buf e1) @ drop n (in_ram e1), in_res := RES_ACK\<rparr>)"

lemma next_packet_ok:
  assumes "ep_ok e" and "in_xfer_len e > of_nat (in_mps e)"
  shows "ep_ok (next_packet e)"
    "(if in_xfer_len e - of_nat (in_mps e) > of_nat (in_mps e) then in_mps e
      else unat (in_xfer_len e - of_nat (in_mps e))) \<le> min 64 (length (drop (in_mps e) (in_xfer_buf e)))"
proof -
  let ?m = "of_nat (in_mps e) :: u32" and ?d = "in_xfer_len e - of_nat (in_mps e)"
  have e: "in_mps e \<le> 64" "unat (in_xfer_len e) \<le> length (in_xfer_buf e)" "length (in_ram e) = 64"
    using assms(1) by (auto simp: ep_ok_def)
  have m: "unat ?m = in_mps e" by (rule min_word [OF e(1)])
  have d: "unat ?d = unat (in_xfer_len e) - in_mps e"
    using assms(2) m unat_sub [of ?m "in_xfer_len e"] by (simp add: word_le_less_eq)
  have gt: "?d > ?m \<longleftrightarrow> unat ?d > in_mps e" by (simp add: word_less_nat_alt m)
  show n: "(if ?d > ?m then in_mps e else unat ?d) \<le> min 64 (length (drop (in_mps e) (in_xfer_buf e)))"
    using d e gt by auto
  show "ep_ok (next_packet e)"
    using assms(1) e d n by (auto simp: ep_ok_def next_packet_def Let_def)
qed

lemma in_irq_hid:
  assumes "length (ep_in s) = 8" and "ep_ok (ep_in s ! 3)"
  shows "\<exists>e'. ep_ok e' \<and> usb_in_irq 3 s =
    (if in_xfer_len (ep_in s ! 3) > of_nat (in_mps (ep_in s ! 3))
     then Some (s\<lparr>ep_in := (ep_in s)[3 := e']\<rparr>)
     else Some (s\<lparr>ep_in := (ep_in s)[3 := e'], hid_state := HID_STATE_IDLE\<rparr>)) \<and>
    (in_ack e' \<longrightarrow> in_xfer_len (ep_in s ! 3) > of_nat (in_mps (ep_in s ! 3)))"
proof (cases "in_xfer_len (ep_in s ! 3) > of_nat (in_mps (ep_in s ! 3))")
  case True
  let ?e = "(ep_in s ! 3)\<lparr>in_res := RES_NAK\<rparr>"
  have "ep_ok ?e" "in_xfer_len ?e > of_nat (in_mps ?e)" using assms(2) True by (auto simp: ep_ok_def)
  note np = next_packet_ok [OF this]
  define n where "n = (if in_xfer_len (ep_in s ! 3) - of_nat (in_mps (ep_in s ! 3)) > of_nat (in_mps (ep_in s ! 3))
      then in_mps (ep_in s ! 3) else unat (in_xfer_len (ep_in s ! 3) - of_nat (in_mps (ep_in s ! 3))))"
  have "n \<le> min 64 (length (drop (in_mps (ep_in s ! 3)) (in_xfer_buf (ep_in s ! 3))))"
    using np(2) by (simp add: n_def split: if_splits)
  then have "copy_to (in_ram (ep_in s ! 3)) 0 (drop (in_mps (ep_in s ! 3)) (in_xfer_buf (ep_in s ! 3))) 0 n =
      Some (take n (drop (in_mps (ep_in s ! 3)) (in_xfer_buf (ep_in s ! 3))) @ drop n (in_ram (ep_in s ! 3)))"
    using assms(2) by (subst copy_to_Some) (simp_all add: ep_ok_def)
  then have "usb_in_irq 3 s = Some (s\<lparr>ep_in := (ep_in s)[3 := next_packet ?e]\<rparr>)"
    using assms(1) True by (simp add: usb_in_irq_def next_packet_def Let_def cong: if_cong flip: n_def)
  then show ?thesis using True np(1) by auto
next
  case False
  let ?e = "(ep_in s ! 3)\<lparr>in_res := RES_NAK, in_actual := in_actual (ep_in s ! 3) + in_xfer_len (ep_in s ! 3),
    in_xfer_len := 0\<rparr>"
  have "(3 OR 0x80 :: u8) = HID_INT_EP" "HID_INT_EP \<noteq> CDC_IN_EP"
    by (simp_all add: HID_INT_EP_def CDC_IN_EP_def)
  then have "usb_in_irq 3 s = Some (s\<lparr>ep_in := (ep_in s)[3 := ?e], hid_state := HID_STATE_IDLE\<rparr>)"
    using assms(1) False by (simp add: usb_in_irq_def ep_in_complete_def usbd_hid_int_callback_def Let_def)
  moreover have "ep_ok ?e" using assms(2) by (simp add: ep_ok_def)
  ultimately show ?thesis using False by auto
qed

lemma host_in_hid_ok:
  assumes "usb_inv s"
  shows "\<exists>s'. host_in 3 s = Some s' \<and> usb_inv s' \<and> same_cdc s s' \<and>
    (\<not> in_ack (ep_in s ! 3) \<longrightarrow> s' = s)"
proof (cases "in_ack (ep_in s ! 3)")
  case True
  note inv' = usb_invD [OF assms]
  let ?s1 = "s\<lparr>host_hid := host_hid s @ [packet_of (ep_in s ! 3)]\<rparr>"
  obtain e' where e': "ep_ok e'" "usb_in_irq 3 ?s1 = Some (?s1\<lparr>ep_in := (ep_in s)[3 := e']\<rparr>) \<or>
      usb_in_irq 3 ?s1 = Some (?s1\<lparr>ep_in := (ep_in s)[3 := e'], hid_state := HID_STATE_IDLE\<rparr>)"
    using in_irq_hid [of ?s1] inv'(1,3) by auto
  have h: "host_in 3 s = usb_in_irq 3 ?s1" using inv'(1) True by (simp add: host_in_def)
  have "\<exists>st. host_in 3 s = Some (s\<lparr>ep_in := (ep_in s)[3 := e'], hid_state := st,
      host_hid := host_hid s @ [packet_of (ep_in s ! 3)]\<rparr>)"
    using e'(2)
  proof
    assume "usb_in_irq 3 ?s1 = Some (?s1\<lparr>ep_in := (ep_in s)[3 := e']\<rparr>)"
    then show ?thesis by (intro exI [of _ "hid_state s"]) (simp add: h)
  next
    assume "usb_in_irq 3 ?s1 = Some (?s1\<lparr>ep_in := (ep_in s)[3 := e'], hid_state := HID_STATE_IDLE\<rparr>)"
    then show ?thesis by (intro exI [of _ HID_STATE_IDLE]) (simp add: h)
  qed
  then show ?thesis using inv_ep3 [OF assms e'(1)] True by auto
next
  case False
  then show ?thesis using assms by (auto simp: host_in_def same_cdc_def)
qed

lemma hid_report_ok:
  assumes "usb_inv s" and "length data < 4294967296"
  shows "\<exists>s'. usbd_hid_send_report addr data (of_nat (length data)) s = Some s' \<and> usb_inv s' \<and>
    same_cdc s s' \<and> (hid_state s = HID_STATE_BUSY \<longrightarrow> s' = s)"
proof -
  note inv' = usb_invD [OF assms(1)]
  let ?e = "ep_in s ! 3" and ?len = "of_nat (length data) :: u32"
  have l: "unat ?len = length data" using assms(2) by (simp add: unat_of_nat)
  have e: "in_mps ?e \<le> 64" "length (in_ram ?e) = 64" using inv'(3) by (simp_all add: ep_ok_def)
  define n where "n = min (unat ?len) (in_mps ?e)"
  let ?e1 = "?e\<lparr>in_xfer_buf := data, in_xfer_len := ?len, in_actual := 0\<rparr>"
  have "\<exists>ret e'. usbd_ep_start_write HID_INT_EP addr data ?len s =
      Some (ret, if ret < 0 then s else s\<lparr>ep_in := (ep_in s)[3 := e']\<rparr>) \<and> ep_ok e'"
  proof -
    have c: "copy_to (in_ram ?e) 0 data 0 n = Some (take n data @ drop n (in_ram ?e))"
      using e l by (simp add: n_def)
    have ok0: "ep_ok (?e1\<lparr>in_tx_len := 0, in_res := RES_ACK\<rparr>)" using inv'(3) l by (simp add: ep_ok_def)
    have ok1: "ep_ok (?e1\<lparr>in_ram := take n data @ drop n (in_ram ?e), in_tx_len := n, in_res := RES_ACK\<rparr>)"
      using inv'(3) l by (auto simp: ep_ok_def n_def)
    have g: "arr_get (ep_in s) 3 = Some ?e" using inv'(1) by simp
    consider "addr = 0 \<and> ?len \<noteq> 0 \<or> addr AND 3 \<noteq> 0" | "\<not> (addr = 0 \<and> ?len \<noteq> 0)" "addr AND 3 = 0" "?len = 0"
      | "\<not> (addr = 0 \<and> ?len \<noteq> 0)" "addr AND 3 = 0" "?len \<noteq> 0" by blast
    then show ?thesis
    proof cases
      case 1
      then show ?thesis
        using g inv'(3) unfolding usbd_ep_start_write_def by (auto simp: Let_def)
    next
      case 2
      then show ?thesis
        using g inv'(3) ok0 by (intro exI [of _ 0] exI [of _ "?e1\<lparr>in_tx_len := 0, in_res := RES_ACK\<rparr>"])
          (simp add: usbd_ep_start_write_def ep_ok_def)
    next
      case 3
      then show ?thesis
        using g inv'(3) ok1 c
        by (intro exI [of _ 0]
            exI [of _ "?e1\<lparr>in_ram := take n data @ drop n (in_ram ?e), in_tx_len := n, in_res := RES_ACK\<rparr>"])
          (simp add: usbd_ep_start_write_def ep_ok_def n_def Let_def)
    qed
  qed
  then obtain ret e' where w: "usbd_ep_start_write HID_INT_EP addr data ?len s =
      Some (ret, if ret < 0 then s else s\<lparr>ep_in := (ep_in s)[3 := e']\<rparr>)" "ep_ok e'" by blast
  have "s\<lparr>ep_in := (ep_in s)[3 := e'], hid_state := HID_STATE_BUSY\<rparr> =
    s\<lparr>ep_in := (ep_in s)[3 := e'], hid_state := HID_STATE_BUSY, host_hid := host_hid s\<rparr>" by simp
  then show ?thesis
    using w(1) inv_ep3 [OF assms(1) w(2), where h = HID_STATE_BUSY and x = "host_hid s"] assms(1)
    by (simp add: usbd_hid_send_report_def hid_report_start_def hid_report_mark_def same_cdc_def)
qed

section \<open>Steps and runs\<close>

lemma sem_cases:
  assumes "usb_inv s"
  shows "in_ack (ep_in s ! 1) \<and> cdc_tx_sem s = 0 \<or> \<not> in_ack (ep_in s ! 1) \<and> cdc_tx_sem s = 1"
  using usb_invD(2) [OF assms] by (auto simp: ep1_ok_def split: if_splits)

lemma resume_ok:
  assumes "usb_inv s"
  shows "\<exists>d s'. cdc_resume s = Some (d, s') \<and> usb_inv s' \<and> cdc_stream s' = cdc_stream s \<and>
    hid_state s' = hid_state s \<and> host_hid s' = host_hid s \<and> ep_in s' ! 3 = ep_in s ! 3 \<and>
    host_cdc s' = host_cdc s \<and> (in_ack (ep_in s ! 1) \<longrightarrow> d = False \<and> s' = s)"
proof (cases "in_ack (ep_in s ! 1)")
  case True
  then show ?thesis using assms sem_cases [OF assms] by (auto simp: cdc_resume_def rt_sem_take_def)
next
  case False
  then have sem: "cdc_tx_sem s = 1" using sem_cases [OF assms] by simp
  then have "rt_sem_take s = Some (s\<lparr>cdc_tx_sem := 0\<rparr>)" by (simp add: rt_sem_take_def)
  then show ?thesis using cdc_send_ok [OF assms sem] False by (auto simp: cdc_resume_def)
qed

lemma main_ok:
  assumes "usb_inv s"
  shows "\<exists>b' s'. usb_step (b, s) Main_loop = Some (b', s') \<and> usb_inv s' \<and> cdc_stream s' = cdc_stream s \<and>
    hid_state s' = hid_state s \<and> host_hid s' = host_hid s \<and> ep_in s' ! 3 = ep_in s ! 3 \<and>
    host_cdc s' = host_cdc s \<and> (in_ack (ep_in s ! 1) \<longrightarrow> s' = s \<and>
      b' = (b \<or> dtr_enable s \<noteq> 0 \<and> rt_ringbuffer_data_len (rb_cdc_tx s) > 0))"
proof (cases "b \<or> dtr_enable s \<noteq> 0 \<and> rt_ringbuffer_data_len (rb_cdc_tx s) > 0")
  case True
  then have "usb_step (b, s) Main_loop = map_option (map_prod Not id) (cdc_resume s)"
    by (cases b) (simp_all add: usbd_cdc_acm_proccess_def)
  then show ?thesis using resume_ok [OF assms] True by auto
next
  case False
  then have "usb_step (b, s) Main_loop = Some (False, s)" by (auto simp: usbd_cdc_acm_proccess_def)
  then show ?thesis using assms False by (intro exI [of _ False] exI [of _ s]) (auto simp del: usb_step.simps)
qed

text \<open>Nothing but the host empties endpoint 1, and nothing makes endpoint 3 answer while the report is marked busy.\<close>

lemma same_step:
  assumes "usb_step (b, s) e = Some (b, s')" and "usb_inv s'" and "same_cdc s s'" and "taken (b, s) e = []"
    and "\<not> in_ack (ep_in s ! 3) \<Longrightarrow> hid_state s = HID_STATE_BUSY \<Longrightarrow>
      ep_in s' ! 3 = ep_in s ! 3 \<and> hid_state s' = hid_state s \<and> host_hid s' = host_hid s"
  shows "\<exists>b' s'. usb_step (b, s) e = Some (b', s') \<and> usb_inv s' \<and>
    cdc_stream s' = cdc_stream s @ taken (b, s) e \<and>
    (in_ack (ep_in s ! 1) \<and> e \<noteq> Host_in 1 \<longrightarrow> (b \<longrightarrow> b') \<and> in_ack (ep_in s' ! 1) \<and> host_cdc s' = host_cdc s) \<and>
    (\<not> in_ack (ep_in s ! 3) \<and> hid_state s = HID_STATE_BUSY \<longrightarrow>
      \<not> in_ack (ep_in s' ! 3) \<and> hid_state s' = HID_STATE_BUSY \<and> host_hid s' = host_hid s)"
  using assms same_cdc_stream [OF assms(3)] by (simp add: same_cdc_def)

lemma step_ok:
  assumes "usb_inv s" and "short_out e"
  shows "\<exists>b' s'. usb_step (b, s) e = Some (b', s') \<and> usb_inv s' \<and>
    cdc_stream s' = cdc_stream s @ taken (b, s) e \<and>
    (in_ack (ep_in s ! 1) \<and> e \<noteq> Host_in 1 \<longrightarrow> (b \<longrightarrow> b') \<and> in_ack (ep_in s' ! 1) \<and> host_cdc s' = host_cdc s) \<and>
    (\<not> in_ack (ep_in s ! 3) \<and> hid_state s = HID_STATE_BUSY \<longrightarrow>
      \<not> in_ack (ep_in s' ! 3) \<and> hid_state s' = HID_STATE_BUSY \<and> host_hid s' = host_hid s)"
proof (cases e)
  case (Cdc_write bs)
  then show ?thesis using cdc_write_ok [OF assms(1), of bs] by auto
next
  case (Set_dtr d)
  have "in_ack (ep_in (usbd_cdc_acm_set_dtr 0 d s) ! i) = in_ack (ep_in s ! i)"
    "hid_state (usbd_cdc_acm_set_dtr 0 d s) = hid_state s" "host_hid (usbd_cdc_acm_set_dtr 0 d s) = host_hid s"
    "host_cdc (usbd_cdc_acm_set_dtr 0 d s) = host_cdc s" for i
    by (simp_all add: usbd_cdc_acm_set_dtr_def)
  then show ?thesis using Set_dtr assms(1) set_dtr_ok [of 0 d s] by simp
next
  case Main_loop
  then show ?thesis using main_ok [OF assms(1), of b] by fastforce
next
  case (Host_in i)
  then consider "i = 1" | "i = 3" using assms(2) by auto
  then show ?thesis
  proof cases
    case 1
    then show ?thesis using Host_in host_in_cdc_ok [OF assms(1)] by fastforce
  next
    case 2
    obtain s' where "host_in 3 s = Some s'" "usb_inv s'" "same_cdc s s'" "\<not> in_ack (ep_in s ! 3) \<Longrightarrow> s' = s"
      using host_in_hid_ok [OF assms(1)] by blast
    then show ?thesis using Host_in 2 by (intro same_step [of b s e s']) auto
  qed
next
  case (Host_out bs)
  show ?thesis
  proof (cases "out_ack (ep_out s)")
    case True
    obtain s' where "usb_out_irq bs s = Some s'" "usb_inv s'" "same_cdc s s'" "ep_in s' = ep_in s"
      "hid_state s' = hid_state s" "host_hid s' = host_hid s"
      using host_out_ok [OF assms(1) True, of bs] assms(2) Host_out by auto
    then show ?thesis using Host_out True by (intro same_step [of b s e s']) auto
  next
    case False
    then show ?thesis using Host_out assms(1) by (intro same_step [of b s e s]) (auto simp: same_cdc_def)
  qed
next
  case (Hid_report addr data)
  obtain s' where "usbd_hid_send_report addr data (of_nat (length data)) s = Some s'" "usb_inv s'"
    "same_cdc s s'" "hid_state s = HID_STATE_BUSY \<Longrightarrow> s' = s"
    using hid_report_ok [OF assms(1), of data addr] assms(2) Hid_report by auto
  then show ?thesis using Hid_report by (intro same_step [of b s e s']) auto
next
  case (Cdc_read n)
  obtain s' where "usbd_cdc_acm_read (replicate n 0) n s = Some (0, replicate n 0, s')" "usb_inv s'"
    "same_cdc s s'" "ep_in s' = ep_in s" "hid_state s' = hid_state s" "host_hid s' = host_hid s"
    using cdc_read_ok [OF assms(1), of n] by blast
  then show ?thesis using Cdc_read by (intro same_step [of b s e s']) auto
qed

lemma run_ok:
  "usb_inv s \<Longrightarrow> list_all short_out es \<Longrightarrow> \<exists>b' s'. usb_run (b, s) es = Some (b', s') \<and> usb_inv s' \<and>
     cdc_stream s' = cdc_stream s @ accepted (b, s) es \<and>
     (\<not> in_ack (ep_in s ! 3) \<and> hid_state s = HID_STATE_BUSY \<longrightarrow>
       hid_state s' = HID_STATE_BUSY \<and> host_hid s' = host_hid s)"
proof (induction es arbitrary: b s)
  case Nil
  then show ?case by simp
next
  case (Cons e es)
  obtain b1 s1 where s1: "usb_step (b, s) e = Some (b1, s1)" "usb_inv s1"
    "cdc_stream s1 = cdc_stream s @ taken (b, s) e"
    "\<not> in_ack (ep_in s ! 3) \<and> hid_state s = HID_STATE_BUSY \<Longrightarrow>
      \<not> in_ack (ep_in s1 ! 3) \<and> hid_state s1 = HID_STATE_BUSY \<and> host_hid s1 = host_hid s"
    using step_ok [OF Cons.prems(1), of e b] Cons.prems(2) by auto
  obtain b' s' where "usb_run (b1, s1) es = Some (b', s')" "usb_inv s'"
    "cdc_stream s' = cdc_stream s1 @ accepted (b1, s1) es"
    "\<not> in_ack (ep_in s1 ! 3) \<and> hid_state s1 = HID_STATE_BUSY \<Longrightarrow>
      hid_state s' = HID_STATE_BUSY \<and> host_hid s' = host_hid s1"
    using Cons.IH [OF s1(2), of b1] Cons.prems(2) by auto
  then show ?case using s1 by auto
qed

lemma blocked_run:
  "usb_inv s \<Longrightarrow> in_ack (ep_in s ! 1) \<Longrightarrow> list_all short_out es \<Longrightarrow> Host_in 1 \<notin> set es \<Longrightarrow>
   \<exists>s'. usb_run (True, s) es = Some (True, s') \<and> host_cdc s' = host_cdc s"
proof (induction es arbitrary: s)
  case Nil
  then show ?case by simp
next
  case (Cons e es)
  obtain s1 where "usb_step (True, s) e = Some (True, s1)" "usb_inv s1" "in_ack (ep_in s1 ! 1)"
    "host_cdc s1 = host_cdc s"
    using step_ok [OF Cons.prems(1), of e True] Cons.prems by auto
  then show ?case using Cons.IH [of s1] Cons.prems by auto
qed

section \<open>Properties\<close>

text \<open>The state after the enumeration: endpoints open, the first read transfer started.\<close>

definition closed_ep :: usb_in_ep where
  "closed_ep = \<lparr>in_mps = 0, in_enable = False, in_ram = replicate 64 0, in_tx_len = 0, in_res = RES_NAK,
     in_xfer_buf = [], in_xfer_len = 0, in_actual = 0\<rparr>"

definition usb_reset :: usb_sys where
  "usb_reset = \<lparr>ep_in = [closed_ep, closed_ep, closed_ep, closed_ep, closed_ep, closed_ep, closed_ep, closed_ep],
     ep_out = \<lparr>out_mps = 0, out_enable = False, out_res = RES_NAK, out_xfer_off = 0, out_xfer_len = 0,
       out_actual = 0\<rparr>,
     hid_state = HID_STATE_IDLE, read_buffer = replicate 64 0, write_buffer = replicate 64 0,
     read_buffer_addr = 0x20004000, write_buffer_addr = 0x20004040,
     rb_cdc_tx = rt_ringbuffer_init [] 0, rb_cdc_rx = rt_ringbuffer_init [] 0, cdc_tx_sem = 0,
     dtr_enable = 0, host_cdc = [], host_hid = []\<rparr>"

definition usb_configure :: "usb_sys \<Rightarrow> usb_sys option" where
  "usb_configure s0 = do {
     let s = cdc_acm_hid_init (replicate 128 0) (replicate 128 0) s0;
     (r1, s1) \<leftarrow> usbd_ep_open CDC_IN_EP 64 s;
     (r2, s2) \<leftarrow> usbd_ep_open CDC_OUT_EP 64 s1;
     (r3, s3) \<leftarrow> usbd_ep_open HID_INT_EP 19 s2;
     Some (usbd_configure_done_callback s3)
   }"

definition usb_ready :: usb_sys where
  "usb_ready = the (usb_configure usb_reset)"

declare One_nat_def [simp]

lemma ep_open_eqs:
  "length (ep_in s) = 8 \<Longrightarrow> usbd_ep_open CDC_IN_EP m s =
    Some (0, s\<lparr>ep_in := (ep_in s)[1 := (ep_in s ! 1)\<lparr>in_mps := m, in_enable := True\<rparr>]\<rparr>)"
  "length (ep_in s) = 8 \<Longrightarrow> usbd_ep_open HID_INT_EP m s =
    Some (0, s\<lparr>ep_in := (ep_in s)[3 := (ep_in s ! 3)\<lparr>in_mps := m, in_enable := True\<rparr>]\<rparr>)"
  "usbd_ep_open CDC_OUT_EP m s = Some (0, s\<lparr>ep_out := (ep_out s)\<lparr>out_mps := m, out_enable := True\<rparr>\<rparr>)"
  by (simp_all add: usbd_ep_open_def usb_ep_defs)

lemma usb_ready_eq: "usb_ready = (cdc_acm_hid_init (replicate 128 0) (replicate 128 0) usb_reset)\<lparr>
    ep_in := [closed_ep, closed_ep\<lparr>in_mps := 64, in_enable := True\<rparr>, closed_ep,
      closed_ep\<lparr>in_mps := 19, in_enable := True\<rparr>, closed_ep, closed_ep, closed_ep, closed_ep],
    ep_out := \<lparr>out_mps = 64, out_enable = True, out_res = RES_ACK, out_xfer_off = 0, out_xfer_len = 128,
       out_actual = 0\<rparr>\<rparr>"
proof -
  let ?s = "cdc_acm_hid_init (replicate 128 0) (replicate 128 0) usb_reset"
  have s: "length (ep_in usb_reset) = 8" "ep_in ?s = ep_in usb_reset" "read_buffer_addr ?s = 0x20004000"
    "ep_out ?s = ep_out usb_reset"
    by (simp_all add: cdc_acm_hid_init_def usb_reset_def)
  show ?thesis
    unfolding usb_ready_def usb_configure_def Let_def
    by (simp add: ep_open_eqs s usbd_configure_done_callback_def usbd_ep_start_read_def
        USB_BUFFER_SIZE_def) (simp add: usb_reset_def numeral_3_eq_3)
qed

lemma usb_ready_ok:
  "usb_inv usb_ready" "hid_state usb_ready = HID_STATE_IDLE" "out_ack (ep_out usb_ready)"
  "in_mps (ep_in usb_ready ! 3) = 19" "cdc_stream usb_ready = []"
proof -
  have wf: "rb_wf (rt_ringbuffer_init (replicate 128 0) 128)" by (rule init_wf) simp_all
  show "usb_inv usb_ready" "hid_state usb_ready = HID_STATE_IDLE" "out_ack (ep_out usb_ready)"
    "in_mps (ep_in usb_ready ! 3) = 19" "cdc_stream usb_ready = []"
    using wf by (simp_all add: usb_ready_eq usb_reset_def cdc_acm_hid_init_def closed_ep_def
      usb_inv_def ep1_ok_def ep_ok_def out_ok_def flight_def ends_full_def cdc_stream_def USB_BUFFER_SIZE_def)
qed

lemma zlp_ok_prefix: "zlp_ok b (ps @ qs) \<Longrightarrow> zlp_ok b ps"
  by (induction ps arbitrary: b) auto



text \<open>
  The main loop waits for the host without a limit: while a packet is in flight and more
  telemetry is queued, the loop blocks, and as long as the host takes nothing it stays blocked, whatever
  else happens. The radio is served by the same loop.
\<close>

theorem main_loop_waits_for_host:
  assumes "usb_inv s" and "in_ack (ep_in s ! 1)" and "dtr_enable s \<noteq> 0"
    and "rb_contents (rb_cdc_tx s) \<noteq> []"
    and "list_all short_out es" and "Host_in 1 \<notin> set es"
  shows "\<exists>s'. usb_run (False, s) (Main_loop # es) = Some (True, s') \<and> host_cdc s' = host_cdc s"
proof -
  have "rt_ringbuffer_data_len (rb_cdc_tx s) > 0"
    using assms(4) length_contents [of "rb_cdc_tx s"] by (metis length_greater_0_conv)
  then have "usb_step (False, s) Main_loop = Some (True, s)"
    using main_ok [OF assms(1), of False] assms(2,3) by (auto simp del: usb_step.simps)
  then show ?thesis using blocked_run [OF assms(1,2,5,6)] by (simp del: usb_step.simps)
qed

text \<open>A byte in flight and one queued.\<close>

lemma busy_usb:
  "\<exists>s. usb_inv s \<and> in_ack (ep_in s ! 1) \<and> dtr_enable s \<noteq> 0 \<and> rb_contents (rb_cdc_tx s) = [8]"
proof -
  let ?rb = "rt_ringbuffer_init (replicate 128 0) 128"
  have wf: "rb_wf ?rb" by (rule init_wf) simp_all
  obtain rb' where rb': "rb_wf rb'" "buffer_size rb' = 128" "rb_contents rb' = [8]"
    using rb.put1_law [OF wf, of 8] by auto
  let ?e = "ep_in usb_ready ! 1"
  let ?s = "usb_ready\<lparr>ep_in := (ep_in usb_ready)[1 := started ?e [7] 1], cdc_tx_sem := 0,
    dtr_enable := 1, rb_cdc_tx := rb'\<rparr>"
  note inv = usb_invD [OF usb_ready_ok(1)]
  have e: "ep_ok ?e" "in_mps ?e = 64"
    using inv(2) by (simp_all add: ep1_ok_def)
  have st: "ep1_ok (started ?e [7] 1) 0" "in_ack (started ?e [7] 1)"
    using started_ok [OF e, of 1 "[7]"] by simp_all
  have h: "host_cdc usb_ready = []"
    by (simp add: usb_ready_eq cdc_acm_hid_init_def usb_reset_def)
  have "usb_inv ?s"
    using inv(1,3,6-11) st rb' h by (simp add: usb_inv_def flight_def out_ok_def)
  then show ?thesis using st rb' inv(1) by (intro exI [of _ ?s]) simp
qed

theorem main_loop_waits_for_host_witness:
  "\<exists>s s'. usb_inv s \<and> rb_contents (rb_cdc_tx s) = [8] \<and>
    usb_run (False, s) (Main_loop # [Host_in 3, Main_loop, Set_dtr False, Main_loop]) = Some (True, s')"
proof -
  obtain s where s: "usb_inv s" "in_ack (ep_in s ! 1)" "dtr_enable s \<noteq> 0" "rb_contents (rb_cdc_tx s) = [8]"
    using busy_usb by blast
  have "rb_contents (rb_cdc_tx s) \<noteq> []" "list_all short_out [Host_in 3, Main_loop, Set_dtr False, Main_loop]"
    "Host_in 1 \<notin> set [Host_in 3, Main_loop, Set_dtr False, Main_loop]"
    using s(4) by simp_all
  from main_loop_waits_for_host [OF s(1-3) this] show ?thesis using s by blast
qed

lemma hid_started:
  assumes "usb_inv s" and "hid_state s \<noteq> HID_STATE_BUSY" and "addr \<noteq> 0" and "addr AND 3 = 0"
    and "data \<noteq> []" and "length data \<le> in_mps (ep_in s ! 3)"
  shows "\<exists>e'. hid_report_start addr data (of_nat (length data)) s =
      Some (True, s\<lparr>ep_in := (ep_in s)[3 := e']\<rparr>) \<and> ep_ok e' \<and> in_ack e' \<and> packet_of e' = data \<and>
    in_xfer_len e' = of_nat (length data) \<and> in_mps e' = in_mps (ep_in s ! 3)"
proof -
  note inv = usb_invD [OF assms(1)]
  let ?e = "ep_in s ! 3" and ?n = "length data"
  let ?e' = "?e\<lparr>in_xfer_buf := data, in_xfer_len := of_nat ?n, in_actual := 0,
    in_ram := data @ drop ?n (in_ram ?e), in_tx_len := ?n, in_res := RES_ACK\<rparr>"
  have e: "in_enable ?e" "in_mps ?e \<le> 64" "length (in_ram ?e) = 64" "?n \<le> 64"
    using inv(3) assms(6) by (simp_all add: ep_ok_def)
  have g: "arr_get (ep_in s) 3 = Some ?e" using inv(1) by simp
  have z: "(of_nat ?n :: u32) \<noteq> 0" using min_word_0 [OF e(4)] assms(5) by simp
  have "hid_report_start addr data (of_nat ?n) s = Some (True, s\<lparr>ep_in := (ep_in s)[3 := ?e']\<rparr>)"
    using assms(2-4,6) e g z min_word [OF e(4)]
    by (simp add: hid_report_start_def usbd_ep_start_write_def Let_def min_def)
  moreover have "ep_ok ?e'" using inv(3) e min_word [OF e(4)] by (simp add: ep_ok_def)
  moreover have "packet_of ?e' = data" by (simp add: packet_of_def)
  ultimately show ?thesis by (intro exI [of _ ?e']) simp
qed

text \<open>
  \<open>usbd_hid_send_report\<close> starts the transfer before it marks the report busy. When the host
  takes the packet in between, the callback comes too early: the mark then stays set and no report is
  sent any more, whatever happens.
\<close>

theorem hid_report_race:
  assumes "usb_inv s" and "hid_state s \<noteq> HID_STATE_BUSY" and "addr \<noteq> 0" and "addr AND 3 = 0"
    and "data \<noteq> []" and "length data \<le> in_mps (ep_in s ! 3)" and "list_all short_out es"
  shows "\<exists>s1 s2 b' s'. hid_report_start addr data (of_nat (length data)) s = Some (True, s1) \<and>
    host_in 3 s1 = Some s2 \<and> host_hid s2 = host_hid s @ [data] \<and>
    usb_run (b, hid_report_mark s2) es = Some (b', s') \<and>
    hid_state s' = HID_STATE_BUSY \<and> host_hid s' = host_hid s2"
proof -
  note inv = usb_invD [OF assms(1)]
  obtain e' where e': "hid_report_start addr data (of_nat (length data)) s =
      Some (True, s\<lparr>ep_in := (ep_in s)[3 := e']\<rparr>)" "ep_ok e'" "in_ack e'" "packet_of e' = data"
    "in_xfer_len e' = of_nat (length data)" "in_mps e' = in_mps (ep_in s ! 3)"
    using hid_started [OF assms(1-6)] by blast
  let ?s1 = "s\<lparr>ep_in := (ep_in s)[3 := e'], host_hid := host_hid s @ [data]\<rparr>"
  have m: "in_mps e' \<le> 64" "length data \<le> 64" using e'(2,6) assms(6) by (simp_all add: ep_ok_def)
  have "\<not> in_xfer_len e' > of_nat (in_mps e')"
    using e'(5,6) assms(6) min_word [OF m(1)] min_word [OF m(2)] by (simp add: word_less_nat_alt)
  then obtain e2 where e2: "ep_ok e2" "\<not> in_ack e2"
    "usb_in_irq 3 ?s1 = Some (?s1\<lparr>ep_in := (ep_in ?s1)[3 := e2], hid_state := HID_STATE_IDLE\<rparr>)"
    using in_irq_hid [of ?s1] inv(1) e'(2) by auto
  let ?s2 = "s\<lparr>ep_in := (ep_in s)[3 := e2], hid_state := HID_STATE_IDLE, host_hid := host_hid s @ [data]\<rparr>"
  let ?s3 = "s\<lparr>ep_in := (ep_in s)[3 := e2], hid_state := HID_STATE_BUSY, host_hid := host_hid s @ [data]\<rparr>"
  have "host_in 3 (s\<lparr>ep_in := (ep_in s)[3 := e']\<rparr>) = Some ?s2"
    using inv(1) e'(3,4) e2(3) by (simp add: host_in_def)
  moreover have m3: "hid_report_mark ?s2 = ?s3" by (simp add: hid_report_mark_def)
  moreover have "\<exists>b' s'. usb_run (b, ?s3) es = Some (b', s') \<and> hid_state s' = HID_STATE_BUSY \<and>
      host_hid s' = host_hid s @ [data]"
    using run_ok [OF inv_ep3(1) [OF assms(1) e2(1), where h = HID_STATE_BUSY and x = "host_hid s @ [data]"] assms(7), of b]
      e2(2) inv(1) by auto
  ultimately show ?thesis using e'(1) by auto
qed

theorem hid_report_race_witness:
  "\<exists>s1 s2 b' s'. hid_report_start 0x20005000 [1, 2, 3] 3 usb_ready = Some (True, s1) \<and>
    host_in 3 s1 = Some s2 \<and>
    usb_run (False, hid_report_mark s2) [Hid_report 0x20005000 [4, 5, 6], Host_in 3] = Some (b', s') \<and>
    host_hid s' = host_hid s2"
  using hid_report_race [where s = usb_ready and addr = "0x20005000" and data = "[1, 2, 3]" and
      es = "[Hid_report 0x20005000 [4, 5, 6], Host_in 3]" and b = False] usb_ready_ok
  by (fastforce simp: HID_STATE_IDLE_def HID_STATE_BUSY_def)

text \<open>
  What the host sends is lost. A packet shorter than 64 bytes ends up in \<open>read_buffer\<close> only:
  reading the receive ring returns nothing. A full packet keeps the transfer going, since the program
  asks for 128 bytes, and the next byte is written behind the 64 bytes of \<open>read_buffer\<close>.
\<close>

theorem host_data_is_lost:
  assumes "usb_inv s" and "out_ack (ep_out s)"
    and "length bs < 64" and "length cs = 64" and "ds \<noteq> []"
  shows "(\<exists>s1 s2. usb_out_irq bs s = Some s1 \<and>
      usbd_cdc_acm_read (replicate n 0) n s1 = Some (0, replicate n 0, s2)) \<and>
    (\<exists>s1. usb_out_irq cs s = Some s1 \<and> out_ack (ep_out s1) \<and> usb_out_irq ds s1 = None)"
proof
  show "\<exists>s1 s2. usb_out_irq bs s = Some s1 \<and>
      usbd_cdc_acm_read (replicate n 0) n s1 = Some (0, replicate n 0, s2)"
    using host_out_ok [OF assms(1-3)] cdc_read_ok by blast
  have o: "length (read_buffer s) = 64" "out_mps (ep_out s) = 64" "out_xfer_off (ep_out s) = 0"
    "out_xfer_len (ep_out s) = 128"
    using usb_invD(11) [OF assms(1)] assms(2) by (auto simp: out_ok_def)
  then show "\<exists>s1. usb_out_irq cs s = Some s1 \<and> out_ack (ep_out s1) \<and> usb_out_irq ds s1 = None"
    using assms(2,4,5) by (simp add: usb_out_irq_def copy_to_def Let_def)
qed

theorem host_data_is_lost_witness:
  "\<exists>s1. usb_out_irq (replicate 64 7) usb_ready = Some s1 \<and> usb_out_irq [9] s1 = None"
  using host_data_is_lost [OF usb_ready_ok(1,3), of "[]" "replicate 64 7" "[9]" 0] by auto

end
