(* ===== verification/RfLink.thy ===== *)
theory RfLink
  imports Usart Usb Datalink Radio
begin

text \<open>
  The 2.4 GHz link: \<open>Firmware/drivers/drv_radio.c\<close> on the controller and
  \<open>Receiver/drivers/drv_radio.c\<close> on the receiver. The radio and its event loop are a binary
  library, so its functions are calls that the state records, its status callback is an operation with
  the status, the check result and the received bytes as arguments, and what
  \<open>tmos_msg_receive\<close> returns is an input.
\<close>

section \<open>The library's interface\<close>

definition TX_MODE_TX_FINISH :: u8 where "TX_MODE_TX_FINISH = 0x01"
definition TX_MODE_TX_FAIL :: u8 where "TX_MODE_TX_FAIL = 0x11"
definition TX_MODE_RX_DATA :: u8 where "TX_MODE_RX_DATA = 0x02"
definition TX_MODE_RX_TIMEOUT :: u8 where "TX_MODE_RX_TIMEOUT = 0x12"
definition RX_MODE_RX_DATA :: u8 where "RX_MODE_RX_DATA = 0x03"
definition RX_MODE_TX_FINISH :: u8 where "RX_MODE_TX_FINISH = 0x04"
definition RX_MODE_TX_FAIL :: u8 where "RX_MODE_TX_FAIL = 0x14"

definition SBP_RF_START_DEVICE_EVT :: u16 where "SBP_RF_START_DEVICE_EVT = 1"
definition SBP_RF_PERIODIC_EVT :: u16 where "SBP_RF_PERIODIC_EVT = 2"
definition SBP_RF_RF_RX_EVT :: u16 where "SBP_RF_RF_RX_EVT = 4"
definition SYS_EVENT_MSG :: u16 where "SYS_EVENT_MSG = 0x8000"

definition LLE_MODE_AUTO :: u8 where "LLE_MODE_AUTO = 1"
definition LLE_MODE_PHY_CODED_S2 :: u8 where "LLE_MODE_PHY_CODED_S2 = push_bit 4 3"

lemmas rf_status_defs = TX_MODE_TX_FINISH_def TX_MODE_TX_FAIL_def TX_MODE_RX_DATA_def
  TX_MODE_RX_TIMEOUT_def RX_MODE_RX_DATA_def RX_MODE_TX_FINISH_def RX_MODE_TX_FAIL_def
lemmas rf_event_defs = SBP_RF_START_DEVICE_EVT_def SBP_RF_PERIODIC_EVT_def SBP_RF_RF_RX_EVT_def
  SYS_EVENT_MSG_def

record rf_config_t =
  accessAddress :: u32
  CRCInit :: u32
  rf_Channel :: u8
  rf_Frequency :: u32
  LLEMode :: u8
  RxMaxlen :: u32

datatype rf_call =
  RF_Config rf_config_t | RF_Shut | RF_Tx "u8 list" | RF_Rx "u8 list"
  | Tmos_set_event u16 | Tmos_start_task u16 nat | Tmos_msg_deallocate "u8 list" | Kprintf string

definition payload_bytes :: "payload_t \<Rightarrow> u8 list" where
  "payload_bytes p = pl_type p # pl_data p"

definition payload_of_bytes :: "u8 list \<Rightarrow> payload_t" where
  "payload_of_bytes bs = \<lparr>pl_type = hd bs, pl_data = tl bs\<rparr>"

definition packet_bytes :: "DataLinkUARTPacket_t \<Rightarrow> u8 list" where
  "packet_bytes k = [pk_magic k, pk_checksum k, pk_rssi k, pk_len k] @ payload_bytes (pk_payload k)"

text \<open>The bytes of the \<open>int16_t\<close> array of channels.\<close>

definition channel_bytes :: "int list \<Rightarrow> u8 list" where
  "channel_bytes ch = concat (map (\<lambda>v. u16_bytes (word_of_int v)) ch)"

definition crc_messages :: "u8 \<Rightarrow> rf_call list" where
  "crc_messages crc =
     (if crc AND 1 \<noteq> 0 then [Kprintf ''crc error''] else []) @
     (if crc AND 2 \<noteq> 0 then [Kprintf ''match type error''] else [])"

section \<open>The controller\<close>

record rf_tx_sys =
  rf_tx_payload :: payload_t
  rf_config :: rf_config_t
  tx_rssi :: u8
  tx_last_update :: u32
  data_type :: u8
  tx_radio :: radio_data_t
  tx_usb :: usb_sys
  tx_calls :: "rf_call list"

definition tx_call :: "rf_call \<Rightarrow> rf_tx_sys \<Rightarrow> rf_tx_sys" where
  "tx_call c s = s\<lparr>tx_calls := tx_calls s @ [c]\<rparr>"

definition RF_2G4StatusCallBack :: "u8 \<Rightarrow> u8 \<Rightarrow> u8 list \<Rightarrow> rf_tx_sys \<Rightarrow> rf_tx_sys option" where
  "RF_2G4StatusCallBack sta crc rxBuf s =
     (if sta = TX_MODE_RX_DATA then
        (if crc = 0 then do {
           rs \<leftarrow> arr_get rxBuf 0;
           len \<leftarrow> arr_get rxBuf 1;
           let s1 = s\<lparr>tx_radio := (tx_radio s)\<lparr>rssi := 128 + rs\<rparr>\<rparr>;
           if len > 0 then do {
             ty \<leftarrow> arr_get rxBuf 2;
             if ty = DATA_TYPE_MAVLINK \<or> ty = DATA_TYPE_ANOLINK then do {
               u \<leftarrow> usbd_cdc_acm_write (drop 3 rxBuf) (unat len - 1) (tx_usb s1);
               Some (s1\<lparr>tx_usb := u\<rparr>)
             }
             else Some s1
           }
           else Some s1
         }
         else Some (s\<lparr>tx_calls := tx_calls s @ crc_messages crc\<rparr>))
      else if sta = RX_MODE_RX_DATA then do {
        s1 \<leftarrow> (if crc = 0 then do {
                  rs \<leftarrow> arr_get rxBuf 0;
                  len \<leftarrow> arr_get rxBuf 1;
                  Some (s\<lparr>tx_rssi := rs\<rparr>)
                }
                else Some (s\<lparr>tx_calls := tx_calls s @ crc_messages crc\<rparr>));
        Some (tx_call (Tmos_set_event SBP_RF_RF_RX_EVT) s1)
      }
      else if sta = RX_MODE_TX_FINISH then Some (tx_call (Tmos_set_event SBP_RF_RF_RX_EVT) s)
      else Some s)"

text \<open>The periodic event: the channels when the control loop has new ones, else data of the host.\<close>

definition rf_send_channels :: "rf_tx_sys \<Rightarrow> rf_tx_sys option" where
  "rf_send_channels s = do {
     d \<leftarrow> copy_to (pl_data (rf_tx_payload s)) 0 (channel_bytes (rd_channels (tx_radio s))) 0 (CHANNEL_MAX * 2);
     let s1 = s\<lparr>tx_last_update := last_update (tx_radio s),
                rf_tx_payload := \<lparr>pl_type = DATA_TYPE_RC, pl_data = d\<rparr>\<rparr>;
     bs \<leftarrow> read_bytes (payload_bytes (rf_tx_payload s1)) (CHANNEL_MAX * 2 + 1);
     Some (tx_call (RF_Tx bs) s1)
   }"

definition rf_send_data :: "rf_tx_sys \<Rightarrow> rf_tx_sys option" where
  "rf_send_data s = do {
     (len, d, u) \<leftarrow> usbd_cdc_acm_read (pl_data (rf_tx_payload s)) 31 (tx_usb s);
     let s1 = s\<lparr>tx_usb := u, rf_tx_payload := (rf_tx_payload s)\<lparr>pl_data := d\<rparr>\<rparr>;
     if len > 0 then do {
       let s2 = s1\<lparr>rf_tx_payload := (rf_tx_payload s1)\<lparr>pl_type := data_type s1\<rparr>\<rparr>;
       bs \<leftarrow> read_bytes (payload_bytes (rf_tx_payload s2)) (len + 1);
       Some (tx_call (RF_Tx bs) s2)
     }
     else Some s1
   }"

definition RF_ProcessEvent :: "u16 \<Rightarrow> u8 list option \<Rightarrow> rf_tx_sys \<Rightarrow> (u16 \<times> rf_tx_sys) option" where
  "RF_ProcessEvent events msg s =
     (if events AND SYS_EVENT_MSG \<noteq> 0 then
        Some (events XOR SYS_EVENT_MSG,
              case msg of Some m \<Rightarrow> tx_call (Tmos_msg_deallocate m) s | None \<Rightarrow> s)
      else if events AND SBP_RF_START_DEVICE_EVT \<noteq> 0 then
        Some (events XOR SBP_RF_START_DEVICE_EVT, tx_call (Tmos_start_task SBP_RF_PERIODIC_EVT 20) s)
      else if events AND SBP_RF_PERIODIC_EVT \<noteq> 0 then do {
        let s1 = tx_call RF_Shut s;
        s2 \<leftarrow> (if tx_last_update s1 \<noteq> last_update (tx_radio s1) then rf_send_channels s1
               else rf_send_data s1);
        Some (events XOR SBP_RF_PERIODIC_EVT, tx_call (Tmos_start_task SBP_RF_PERIODIC_EVT 20) s2)
      }
      else if events AND SBP_RF_RF_RX_EVT \<noteq> 0 then
        Some (events XOR SBP_RF_RF_RX_EVT, tx_call RF_Shut s)
      else Some (0, s))"

definition rf_mode_fields :: "u8 \<Rightarrow> rf_config_t \<Rightarrow> rf_config_t" where
  "rf_mode_fields ch c = c\<lparr>accessAddress := 0x71764129, CRCInit := 0x555555, rf_Channel := ch,
     LLEMode := LLE_MODE_AUTO OR LLE_MODE_PHY_CODED_S2, RxMaxlen := 251\<rparr>"

definition radio_set_channel :: "u8 \<Rightarrow> rf_tx_sys \<Rightarrow> rf_tx_sys" where
  "radio_set_channel ch s =
     (if rf_Channel (rf_config s) = ch then s
      else let c = rf_mode_fields ch (rf_config s) in tx_call (RF_Config c) (s\<lparr>rf_config := c\<rparr>))"

text \<open>\<open>printed\<close> is the value that \<open>RF_Config\<close> returns, in the form the program prints it.\<close>

definition radio_hw_init :: "string \<Rightarrow> rf_tx_sys \<Rightarrow> rf_tx_sys" where
  "radio_hw_init printed s =
     (let c = rf_mode_fields 10 (rf_config s)
      in tx_call (Tmos_set_event SBP_RF_PERIODIC_EVT)
           (tx_call (Kprintf (''rf 2.4g init: '' @ printed)) (tx_call (RF_Config c) (s\<lparr>rf_config := c\<rparr>))))"

section \<open>The receiver\<close>

record rx_radio_t =
  rx_channels :: "int list"
  rx_battery_level :: u8
  rx_calibra_step :: u8
  failsafe :: u8
  mac_addr :: "u8 list"
  rx_last_update :: u32
  nrf_channel :: u8

record rf_rx_sys =
  TX_DATA :: "u8 list"
  rx_payload :: payload_t
  uart_data :: DataLinkUARTPacket_t
  rx_data :: DataLinkUARTPacket_t
  rx_parser :: parse_state_t
  bind_ack :: u8
  rx_radio :: rx_radio_t
  rx_uart :: uart
  rx_calls :: "rf_call list"

definition rx_call :: "rf_call \<Rightarrow> rf_rx_sys \<Rightarrow> rf_rx_sys" where
  "rx_call c s = s\<lparr>rx_calls := rx_calls s @ [c]\<rparr>"

text \<open>A received packet of the controller becomes a frame on the serial line; \<open>now\<close> is the tick.\<close>

definition forward_packet :: "u8 list \<Rightarrow> u32 \<Rightarrow> rf_rx_sys \<Rightarrow> rf_rx_sys option" where
  "forward_packet rxBuf now s = do {
     rs \<leftarrow> arr_get rxBuf 0;
     len \<leftarrow> arr_get rxBuf 1;
     let k1 = (uart_data s)\<lparr>pk_magic := DATALINK_MAGIC, pk_rssi := rs, pk_len := len\<rparr>;
     bs \<leftarrow> copy_to (payload_bytes (pk_payload k1)) 0 rxBuf 2 (unat len);
     ck \<leftarrow> datalink_checksum (drop 2 rxBuf) (unat len);
     let k2 = k1\<lparr>pk_payload := payload_of_bytes bs, pk_checksum := ck\<rparr>;
     let s1 = s\<lparr>uart_data := k2, rx_radio := (rx_radio s)\<lparr>failsafe := 0, rx_last_update := now\<rparr>\<rparr>;
     (n, u) \<leftarrow> usart_write (packet_bytes k2) (unat (pk_len k2) + 4) (rx_uart s1);
     Some (s1\<lparr>rx_uart := u\<rparr>)
   }"

definition rx_RF_2G4StatusCallBack :: "u8 \<Rightarrow> u8 \<Rightarrow> u8 list \<Rightarrow> u32 \<Rightarrow> rf_rx_sys \<Rightarrow> rf_rx_sys option" where
  "rx_RF_2G4StatusCallBack sta crc rxBuf now s =
     (if sta = TX_MODE_RX_DATA then
        Some (if crc = 0 then s else s\<lparr>rx_calls := rx_calls s @ crc_messages crc\<rparr>)
      else if sta = RX_MODE_RX_DATA then do {
        s1 \<leftarrow> (if crc = 0 then do {
                  ty \<leftarrow> arr_get rxBuf 2;
                  if ty = DATA_TYPE_BIND \<and> failsafe (rx_radio s) \<noteq> 0 then Some s
                  else forward_packet rxBuf now s
                }
                else Some (s\<lparr>rx_calls := rx_calls s @ crc_messages crc\<rparr>));
        Some (rx_call (Tmos_set_event SBP_RF_RF_RX_EVT) s1)
      }
      else if sta = RX_MODE_TX_FINISH then Some (rx_call (Tmos_set_event SBP_RF_RF_RX_EVT) s)
      else Some s)"

text \<open>
  The loop over the received serial bytes. It ends when the parser has a packet (\<open>True\<close>) or the
  ring is empty.
\<close>

partial_function (option) serial_loop ::
    "uart \<Rightarrow> parse_state_t \<Rightarrow> DataLinkUARTPacket_t \<Rightarrow>
     (bool \<times> uart \<times> parse_state_t \<times> DataLinkUARTPacket_t) option" where
  "serial_loop u p k = do {
     (n, c, u1) \<leftarrow> usart_read_char u;
     (case c of None \<Rightarrow> Some (False, u1, p, k)
      | Some ch \<Rightarrow> do {
          (r, p1, k1) \<leftarrow> datalink_parse_char p k ch;
          if r \<noteq> 0 then Some (True, u1, p1, k1) else serial_loop u1 p1 k1
        })
   }"

text \<open>The answer of the receiver: a payload of type \<open>ty\<close> with its address.\<close>

definition answer_address :: "u8 \<Rightarrow> rf_rx_sys \<Rightarrow> rf_rx_sys option" where
  "answer_address ty s = do {
     d \<leftarrow> copy_to (pl_data (rx_payload s)) 0 (mac_addr (rx_radio s)) 0 6;
     let s1 = s\<lparr>rx_payload := \<lparr>pl_type = ty, pl_data = d\<rparr>\<rparr>;
     bs \<leftarrow> read_bytes (payload_bytes (rx_payload s1)) 7;
     Some (rx_call (RF_Rx bs) s1)
   }"

definition rx_RF_ProcessEvent :: "u16 \<Rightarrow> u8 list option \<Rightarrow> rf_rx_sys \<Rightarrow> (u16 \<times> rf_rx_sys) option" where
  "rx_RF_ProcessEvent events msg s =
     (if events AND SYS_EVENT_MSG \<noteq> 0 then
        Some (events XOR SYS_EVENT_MSG,
              case msg of Some m \<Rightarrow> rx_call (Tmos_msg_deallocate m) s | None \<Rightarrow> s)
      else if events AND SBP_RF_START_DEVICE_EVT \<noteq> 0 then
        Some (events XOR SBP_RF_START_DEVICE_EVT, rx_call (Tmos_start_task SBP_RF_PERIODIC_EVT 20) s)
      else if events AND SBP_RF_PERIODIC_EVT \<noteq> 0 then do {
        bs \<leftarrow> read_bytes (TX_DATA s) 32;
        Some (events XOR SBP_RF_PERIODIC_EVT,
              rx_call (Tmos_start_task SBP_RF_PERIODIC_EVT 20) (rx_call (RF_Tx bs) (rx_call RF_Shut s)))
      }
      else if events AND SBP_RF_RF_RX_EVT \<noteq> 0 then do {
        let s1 = rx_call RF_Shut s;
        s2 \<leftarrow> (if bind_ack s1 \<noteq> 0 then answer_address DATA_TYPE_BIND (s1\<lparr>bind_ack := 0\<rparr>)
               else do {
                 (found, u, p, k) \<leftarrow> serial_loop (rx_uart s1) (rx_parser s1) (rx_data s1);
                 let s3 = s1\<lparr>rx_uart := u, rx_parser := p, rx_data := k\<rparr>;
                 if found then do {
                   bs \<leftarrow> read_bytes (payload_bytes (pk_payload k)) (unat (pk_len k));
                   Some (rx_call (RF_Rx bs) s3)
                 }
                 else answer_address DATA_TYPE_HEARTBEAT s3
               });
        Some (events XOR SBP_RF_RF_RX_EVT, s2)
      }
      else Some (0, s))"

definition rf_config_zero :: rf_config_t where
  "rf_config_zero = \<lparr>accessAddress = 0, CRCInit = 0, rf_Channel = 0, rf_Frequency = 0, LLEMode = 0,
     RxMaxlen = 0\<rparr>"

definition rx_radio_hw_init :: "string \<Rightarrow> string \<Rightarrow> rf_rx_sys \<Rightarrow> rf_rx_sys option" where
  "rx_radio_hw_init printed printed2 s = do {
     let c = (rf_mode_fields (nrf_channel (rx_radio s)) rf_config_zero)\<lparr>rf_Frequency := 2480000\<rparr>;
     let s1 = rx_call (Kprintf (''rf 2.4g init: '' @ printed)) (rx_call (RF_Config c) s);
     bs \<leftarrow> read_bytes (TX_DATA s1) 32;
     Some (rx_call (Kprintf (''RX mode.state = '' @ printed2)) (rx_call (RF_Rx bs) s1))
   }"

end
