(* ===== verification/RfProps.thy ===== *)
theory RfProps
  imports RfLink UsbProps
begin

text \<open>
  Properties of the radio link: what the controller sends, what the receiver makes of it, and the two
  composed with the serial framing.
\<close>

section \<open>The receiver's serial input\<close>

lemma read_char_nil:
  assumes "uart_wf u" and "rx_bytes u = []"
  shows "\<exists>u'. usart_read_char u = Some (0, None, u') \<and> u' = u"
  using assms rb.get1_empty [of "uart_rx_ringbuf u"]
  by (cases u) (simp add: usart_read_char_def uart_wf_def)

lemma read_char_cons:
  assumes "uart_wf u" and "rx_bytes u = c # cs"
  shows "\<exists>u'. usart_read_char u = Some (1, Some c, u') \<and> uart_wf u' \<and> rx_bytes u' = cs \<and>
    tx_bytes u' = tx_bytes u"
  using assms rb.get1_cons [of "uart_rx_ringbuf u" c cs]
  by (fastforce simp: usart_read_char_def uart_wf_def)

lemma serial_loop_feed:
  "uart_wf u \<Longrightarrow> rx_bytes u = bs \<Longrightarrow>
   (case datalink_feed p k bs of None \<Rightarrow> serial_loop u p k = None
    | Some (f, p', k', rest) \<Rightarrow> \<exists>u'. serial_loop u p k = Some (f, u', p', k') \<and> uart_wf u' \<and>
        rx_bytes u' = rest \<and> tx_bytes u' = tx_bytes u)"
proof (induction bs arbitrary: u p k)
  case Nil
  then show ?case using read_char_nil by (auto simp: serial_loop.simps [of u])
next
  case (Cons c cs)
  obtain u1 where u1: "usart_read_char u = Some (1, Some c, u1)" "uart_wf u1" "rx_bytes u1 = cs"
    "tx_bytes u1 = tx_bytes u"
    using read_char_cons [OF Cons.prems] by blast
  show ?case
  proof (cases "datalink_parse_char p k c")
    case None
    then show ?thesis using u1 by (simp add: serial_loop.simps [of u])
  next
    case (Some x)
    obtain r p1 k1 where x: "x = (r, p1, k1)" by (cases x)
    show ?thesis
    proof (cases "r = 0")
      case True
      then have "serial_loop u p k = serial_loop u1 p1 k1"
        using Some x u1(1) by (simp add: serial_loop.simps [of u])
      then show ?thesis
        using Cons.IH [OF u1(2,3), of p1 k1] True Some x u1(4) by (auto split: option.splits)
    next
      case False
      then show ?thesis using Some x u1 by (simp add: serial_loop.simps [of u])
    qed
  qed
qed

text \<open>
  C27: The loop over the serial input ends, and it is the parser run over the bytes in the ring: it
  finds the same packet, leaves the same bytes for the next time, and fails only where the parser
  would write outside its packet.
\<close>

theorem serial_loop_terminates:
  assumes "uart_wf u"
  shows "case datalink_feed p k (rx_bytes u) of None \<Rightarrow> serial_loop u p k = None
    | Some (f, p', k', rest) \<Rightarrow> \<exists>u'. serial_loop u p k = Some (f, u', p', k') \<and> uart_wf u' \<and>
        rx_bytes u' = rest \<and> tx_bytes u' = tx_bytes u"
  by (rule serial_loop_feed [OF assms refl])

theorem serial_loop_terminates_witness:
  "\<exists>u'. serial_loop sample_uart parser_init sample_pkt = Some (False, u', parser_init, sample_pkt)"
  using serial_loop_terminates [of sample_uart parser_init sample_pkt] by auto

section \<open>From the radio to the serial line\<close>

lemma payload_of_bytes_inv: "bs \<noteq> [] \<Longrightarrow> payload_bytes (payload_of_bytes bs) = bs"
  by (simp add: payload_bytes_def payload_of_bytes_def)

lemma forward_spec:
  assumes wf: "uart_wf (rx_uart s)" "pkt_wf (uart_data s)"
    and n: "1 \<le> length body" "length body \<le> 32"
  shows "\<exists>u' k'. forward_packet (rs # of_nat (length body) # body @ pad) now s =
      Some (s\<lparr>uart_data := k', rx_radio := (rx_radio s)\<lparr>failsafe := 0, rx_last_update := now\<rparr>, rx_uart := u'\<rparr>) \<and>
    uart_wf u' \<and> pkt_wf k' \<and> tx_bytes u' = take 256 (tx_bytes (rx_uart s) @ datalink_frame rs body) \<and>
    rx_bytes u' = rx_bytes (rx_uart s) \<and> R8_UART1_IER u' AND RB_IER_THR_EMPTY \<noteq> 0"
proof -
  let ?n = "length body" and ?buf = "rs # of_nat (length body) # body @ pad"
  define old where "old = payload_bytes (pk_payload (uart_data s))"
  have old: "length old = 32"
    using wf(2) by (simp add: old_def payload_bytes_def pkt_wf_def DATALINK_MAX_PAYLOAD_SIZE_def)
  define bs where "bs = body @ drop ?n old"
  have bs: "length bs = 32" "bs \<noteq> []" "take ?n bs = body" using n old by (auto simp: bs_def)
  define k' where "k' = (uart_data s)\<lparr>pk_magic := DATALINK_MAGIC, pk_rssi := rs, pk_len := of_nat ?n,
    pk_payload := payload_of_bytes bs, pk_checksum := sum_list body\<rparr>"
  have ln: "unat (of_nat ?n :: u8) = ?n" by (rule small_len [OF n(2)])
  have cp: "copy_to old 0 ?buf 2 ?n = Some bs"
    using n old by (subst copy_to_Some) (simp_all add: bs_def numeral_2_eq_2)
  have ck: "datalink_checksum (drop 2 ?buf) ?n = Some (sum_list body)"
    using datalink_checksum_sum [of ?n "body @ pad"] by (simp add: numeral_2_eq_2)
  have pk: "packet_bytes k' = [DATALINK_MAGIC, sum_list body, rs, of_nat ?n] @ bs"
    using payload_of_bytes_inv [OF bs(2)] by (simp add: packet_bytes_def k'_def)
  have tk: "take (?n + 4) (packet_bytes k') = datalink_frame rs body"
    unfolding pk using bs(3) by (simp add: datalink_frame_def eval_nat_numeral)
  have "?n + 4 \<le> length (packet_bytes k')" unfolding pk using bs(1) n(2) by simp
  from usart_write_spec [OF wf(1) this] obtain u' where u': "usart_write (packet_bytes k') (?n + 4) (rx_uart s) =
      Some (?n + 4, u')" "uart_wf u'" "tx_bytes u' = take 256 (tx_bytes (rx_uart s) @ datalink_frame rs body)"
    "rx_bytes u' = rx_bytes (rx_uart s)" "R8_UART1_IER u' AND RB_IER_THR_EMPTY \<noteq> 0"
    unfolding tk by auto
  have kw: "pkt_wf k'"
    using bs(1) by (simp add: k'_def pkt_wf_def payload_of_bytes_def DATALINK_MAX_PAYLOAD_SIZE_def)
  have "forward_packet ?buf now s = Some (s\<lparr>uart_data := k',
      rx_radio := (rx_radio s)\<lparr>failsafe := 0, rx_last_update := now\<rparr>, rx_uart := u'\<rparr>)"
    using cp ck u'(1) unfolding old_def
    by (simp add: forward_packet_def ln k'_def)
  then show ?thesis using u' kw by auto
qed

section \<open>From the sticks to the serial line\<close>

text \<open>The bytes that the controller sends for its channels, and their reading at the other end.\<close>

definition rc_body :: "int list \<Rightarrow> u8 list" where
  "rc_body ch = DATA_TYPE_RC # channel_bytes ch"

definition channels_of :: "u8 list \<Rightarrow> int list" where
  "channels_of bs = map sint (u16s_of bs)"

lemma channel_bytes_u16s: "channel_bytes ch = u16s_bytes (map word_of_int ch)"
  by (simp add: channel_bytes_def u16s_bytes_def comp_def)

lemma sint_of_int16: "- 32768 \<le> v \<Longrightarrow> v < 32768 \<Longrightarrow> sint (word_of_int v :: u16) = v"
proof -
  assume v: "- 32768 \<le> v" "v < 32768"
  have e: "sint (word_of_int v :: u16) = to_s16 v"
    unfolding to_s16_uint [symmetric] by (simp add: to_s16_def uint_word_of_int)
  show ?thesis
  proof (cases "0 \<le> v")
    case True
    then show ?thesis using v e by simp
  next
    case False
    have "v mod 65536 = (v + 65536) mod 65536" by simp
    also have "\<dots> = v + 65536" using v False by (intro mod_pos_pos_trivial) simp_all
    finally show ?thesis using v False e by (simp add: to_s16_def)
  qed
qed

lemma channels_roundtrip:
  "list_all (\<lambda>v. - 32768 \<le> v \<and> v < 32768) ch \<Longrightarrow> channels_of (channel_bytes ch) = ch"
  unfolding channels_of_def channel_bytes_u16s u16s_of_bytes
  by (induction ch) (simp_all add: sint_of_int16)

lemma length_channel_bytes [simp]: "length (channel_bytes ch) = 2 * length ch"
  by (simp add: channel_bytes_u16s)

lemma send_channels_spec:
  assumes "length (pl_data (rf_tx_payload s)) = 31" and "length (rd_channels (tx_radio s)) = CHANNEL_MAX"
  shows "\<exists>d. rf_send_channels s = Some (tx_call (RF_Tx (rc_body (rd_channels (tx_radio s))))
    (s\<lparr>tx_last_update := last_update (tx_radio s),
       rf_tx_payload := \<lparr>pl_type = DATA_TYPE_RC, pl_data = d\<rparr>\<rparr>)) \<and> length d = 31"
proof -
  let ?cb = "channel_bytes (rd_channels (tx_radio s))"
  let ?d = "?cb @ drop 16 (pl_data (rf_tx_payload s))"
  have l: "length ?cb = 16" using assms(2) by (simp add: CHANNEL_MAX_def)
  have "copy_to (pl_data (rf_tx_payload s)) 0 ?cb 0 (CHANNEL_MAX * 2) = Some ?d"
    using assms(1) l by (subst copy_to_Some) (simp_all add: CHANNEL_MAX_def)
  moreover have "read_bytes (DATA_TYPE_RC # ?d) (CHANNEL_MAX * 2 + 1) = Some (DATA_TYPE_RC # ?cb)"
    using l by (simp add: read_bytes_def CHANNEL_MAX_def assms(1))
  ultimately show ?thesis
    using l assms(1) by (intro exI [of _ ?d]) (simp add: rf_send_channels_def payload_bytes_def rc_body_def)
qed


definition sample_tx :: rf_tx_sys where
  "sample_tx = \<lparr>rf_tx_payload = \<lparr>pl_type = 0, pl_data = replicate 31 0\<rparr>, rf_config = rf_config_zero,
     tx_rssi = 0, tx_last_update = 0, data_type = DATA_TYPE_ANOLINK,
     tx_radio = \<lparr>rd_channels = [1500, 1500, 1500, 1000, 1500, 1000, 1000, 1000], last_update = 20,
       battery_level = 0, rssi = 0, poweron_flag = False, linkup_flag = False, bind_flag = False,
       calibra_step = 0, flight_mode = 1, new_mode = 1\<rparr>,
     tx_usb = usb_ready, tx_calls = []\<rparr>"

definition sample_rx :: "uart \<Rightarrow> rf_rx_sys" where
  "sample_rx u = \<lparr>TX_DATA = replicate 32 0, rx_payload = \<lparr>pl_type = 0, pl_data = replicate 31 0\<rparr>,
     uart_data = sample_pkt, rx_data = sample_pkt, rx_parser = parser_init, bind_ack = 0,
     rx_radio = \<lparr>rx_channels = [], rx_battery_level = 0, rx_calibra_step = 0, failsafe = 1,
       mac_addr = [1, 2, 3, 4, 5, 6], rx_last_update = 0, nrf_channel = 21\<rparr>,
     rx_uart = u, rx_calls = []\<rparr>"


text \<open>
  The length byte of a radio packet is trusted: the receiver's callback copies as many bytes into
  the 32 bytes of its frame, and the radio is configured for packets of up to 251 bytes. Every longer
  length overruns the frame.
\<close>

theorem long_radio_packet_overruns:
  assumes "pkt_wf (uart_data s)" and "32 < unat len"
    and "ty \<noteq> DATA_TYPE_BIND \<or> failsafe (rx_radio s) = 0"
  shows "rx_RF_2G4StatusCallBack RX_MODE_RX_DATA 0 (rs # len # ty # ds) now s = None"
proof -
  have "copy_to (payload_bytes (pk_payload (uart_data s))) 0 (rs # len # ty # ds) 2 (unat len) = None"
    using assms(1,2) by (simp add: copy_to_def payload_bytes_def pkt_wf_def DATALINK_MAX_PAYLOAD_SIZE_def)
  then show ?thesis
    using assms(3) by (auto simp: rx_RF_2G4StatusCallBack_def rf_status_defs forward_packet_def Let_def
      split: if_splits)
qed

theorem long_radio_packet_overruns_witness:
  "rx_RF_2G4StatusCallBack RX_MODE_RX_DATA 0 (60 # 40 # 2 # replicate 39 7) 0 (sample_rx sample_uart) = None"
  using long_radio_packet_overruns [of "sample_rx sample_uart" 40 2]
  by (simp add: sample_rx_def sample_pkt_wf DATA_TYPE_BIND_def)

lemma event_rx:
  "rx_RF_ProcessEvent SBP_RF_RF_RX_EVT msg s = (if bind_ack s \<noteq> 0
     then map_option (Pair 0) (answer_address DATA_TYPE_BIND ((rx_call RF_Shut s)\<lparr>bind_ack := 0\<rparr>))
     else map_option (Pair 0) (do {
       (found, u, p, k) \<leftarrow> serial_loop (rx_uart s) (rx_parser s) (rx_data s);
       let s3 = (rx_call RF_Shut s)\<lparr>rx_uart := u, rx_parser := p, rx_data := k\<rparr>;
       if found then do {
         bs \<leftarrow> read_bytes (payload_bytes (pk_payload k)) (unat (pk_len k));
         Some (rx_call (RF_Rx bs) s3)
       }
       else answer_address DATA_TYPE_HEARTBEAT s3
     }))"
  by (simp add: rx_RF_ProcessEvent_def rf_event_defs rx_call_def Let_def map_conv_bind_option comp_def)

lemma answer_spec:
  assumes "length (pl_data (rx_payload s)) = 31" and "length (mac_addr (rx_radio s)) = 6"
  shows "\<exists>s'. answer_address ty s = Some s' \<and> rx_calls s' = rx_calls s @ [RF_Rx (ty # mac_addr (rx_radio s))] \<and>
    rx_uart s' = rx_uart s"
  using assms by (simp add: answer_address_def read_bytes_def payload_bytes_def rx_call_def)

lemma found_frame:
  assumes wf: "uart_wf (rx_uart s)" "pkt_wf (rx_data s)" "ps_state (rx_parser s) = STAT_SYNC"
    and "bind_ack s = 0" and rx: "rx_bytes (rx_uart s) = datalink_frame rs body @ rest"
    and len: "2 \<le> length body" "length body \<le> 32"
  shows "\<exists>s'. rx_RF_ProcessEvent SBP_RF_RF_RX_EVT msg s = Some (0, s') \<and>
    rx_calls s' = rx_calls s @ [RF_Shut, RF_Rx body] \<and> rx_bytes (rx_uart s') = rest"
proof -
  obtain p' k' where k': "datalink_feed (rx_parser s) (rx_data s) (datalink_frame rs body @ rest) =
      Some (True, p', k', rest)" "unat (pk_len k') = length body" "pkt_wf k'"
    "pl_type (pk_payload k') # take (length body - 1) (pl_data (pk_payload k')) = body"
    using frame_recovered [OF wf(3,2), of "[]" body rs rest] len by (auto simp: DATALINK_MAX_PAYLOAD_SIZE_def)
  obtain u' where u': "serial_loop (rx_uart s) (rx_parser s) (rx_data s) = Some (True, u', p', k')"
    "rx_bytes u' = rest"
    using serial_loop_feed [OF wf(1) rx, of "rx_parser s" "rx_data s"] k'(1) by auto
  obtain n where n: "length body = Suc n" using len(1) by (cases "length body") auto
  have "read_bytes (payload_bytes (pk_payload k')) (unat (pk_len k')) = Some body"
    using k'(2-4) n len(2)
    by (simp add: read_bytes_def payload_bytes_def pkt_wf_def DATALINK_MAX_PAYLOAD_SIZE_def)
  then show ?thesis
    using u' assms(4) by (simp add: event_rx Let_def rx_call_def)
qed

lemma no_frame:
  assumes "uart_wf (rx_uart s)" and "rx_bytes (rx_uart s) = []" and "bind_ack s = 0"
    and "length (pl_data (rx_payload s)) = 31" and "length (mac_addr (rx_radio s)) = 6"
  shows "\<exists>s'. rx_RF_ProcessEvent SBP_RF_RF_RX_EVT msg s = Some (0, s') \<and>
    rx_calls s' = rx_calls s @ [RF_Shut, RF_Rx (DATA_TYPE_HEARTBEAT # mac_addr (rx_radio s))]"
proof -
  obtain u' where u': "serial_loop (rx_uart s) (rx_parser s) (rx_data s) =
      Some (False, u', rx_parser s, rx_data s)"
    using serial_loop_feed [OF assms(1,2), of "rx_parser s" "rx_data s"] by auto
  show ?thesis
    using u' assms(3-5) answer_spec [of "(rx_call RF_Shut s)\<lparr>rx_uart := u', rx_parser := rx_parser s,
      rx_data := rx_data s\<rparr>" DATA_TYPE_HEARTBEAT]
    by (auto simp: event_rx Let_def rx_call_def)
qed

lemma telemetry_callback:
  assumes "usb_inv (tx_usb s)" and "ty = DATA_TYPE_MAVLINK \<or> ty = DATA_TYPE_ANOLINK"
    and "1 \<le> length (ty # ds)" and "length (ty # ds) \<le> 32"
  shows "\<exists>s'. RF_2G4StatusCallBack TX_MODE_RX_DATA 0 (rs # of_nat (length (ty # ds)) # ty # ds) s = Some s' \<and>
    usb_inv (tx_usb s') \<and> rssi (tx_radio s') = 128 + rs \<and>
    cdc_stream (tx_usb s') = cdc_stream (tx_usb s) @ take (128 - length (rb_contents (rb_cdc_tx (tx_usb s)))) ds"
proof -
  let ?n = "of_nat (length (ty # ds)) :: u8"
  have n: "unat ?n = length (ty # ds)" by (rule small_len [OF assms(4)])
  then have pos: "?n > 0" and n1: "unat ?n - 1 = length ds" by (simp_all add: word_less_nat_alt)
  obtain u where u: "usbd_cdc_acm_write ds (length ds) (tx_usb s) = Some u" "usb_inv u"
    "cdc_stream u = cdc_stream (tx_usb s) @ take (128 - length (rb_contents (rb_cdc_tx (tx_usb s)))) ds"
    using cdc_write_ok [OF assms(1), of ds] by blast
  show ?thesis
    using assms(2) pos u n1
    by (simp add: RF_2G4StatusCallBack_def rf_status_defs numeral_2_eq_2 numeral_3_eq_3 del: of_nat_Suc)
qed

text \<open>
  The way back. A frame in the serial input of the receiver is what it answers the next radio
  packet with; without one it answers with a heartbeat and its address. When the frame's type is one of
  the two telemetry types, the controller that gets it queues the rest of the payload for the host, as
  far as there is room, and takes the signal strength over.
\<close>

theorem telemetry_reaches_usb:
  assumes rx: "uart_wf (rx_uart r)" "pkt_wf (rx_data r)" "ps_state (rx_parser r) = STAT_SYNC" "bind_ack r = 0"
      "rx_bytes (rx_uart r) = datalink_frame rs (ty # ds) @ rest"
    and len: "1 \<le> length ds" "length ds \<le> 31"
    and ty: "ty = DATA_TYPE_MAVLINK \<or> ty = DATA_TYPE_ANOLINK"
    and tx: "usb_inv (tx_usb s)"
    and idle: "uart_wf (rx_uart q)" "rx_bytes (rx_uart q) = []" "bind_ack q = 0"
      "length (pl_data (rx_payload q)) = 31" "length (mac_addr (rx_radio q)) = 6"
  shows "\<exists>r' body s' q'. rx_RF_ProcessEvent SBP_RF_RF_RX_EVT None r = Some (0, r') \<and>
    rx_calls r' = rx_calls r @ [RF_Shut, RF_Rx body] \<and> rx_bytes (rx_uart r') = rest \<and>
    RF_2G4StatusCallBack TX_MODE_RX_DATA 0 (rs' # of_nat (length body) # body) s = Some s' \<and>
    rssi (tx_radio s') = 128 + rs' \<and> usb_inv (tx_usb s') \<and>
    cdc_stream (tx_usb s') =
      cdc_stream (tx_usb s) @ take (128 - length (rb_contents (rb_cdc_tx (tx_usb s)))) ds \<and>
    rx_RF_ProcessEvent SBP_RF_RF_RX_EVT None q = Some (0, q') \<and>
    rx_calls q' = rx_calls q @ [RF_Shut, RF_Rx (DATA_TYPE_HEARTBEAT # mac_addr (rx_radio q))]"
proof -
  have l: "2 \<le> length (ty # ds)" "length (ty # ds) \<le> 32" "1 \<le> length (ty # ds)" using len by simp_all
  show ?thesis
    using found_frame [OF rx l(1,2), of None] telemetry_callback [OF tx ty l(3,2), of rs']
      no_frame [OF idle, of None] by blast
qed

theorem telemetry_reaches_usb_witness:
  "\<exists>r r' body s'. rx_bytes (rx_uart r) = datalink_frame 0 [3, 7, 8] \<and>
    rx_RF_ProcessEvent SBP_RF_RF_RX_EVT None r = Some (0, r') \<and> rx_calls r' = [RF_Shut, RF_Rx body] \<and>
    RF_2G4StatusCallBack TX_MODE_RX_DATA 0 (60 # of_nat (length body) # body) sample_tx = Some s' \<and>
    cdc_stream (tx_usb s') = [7, 8]"
proof -
  let ?f = "datalink_frame 0 [3, 7, 8]"
  obtain u where u: "uart_wf u" "rx_bytes u = ?f"
    using recv_all_spec [of sample_uart ?f] by (auto simp: datalink_frame_def)
  have c: "rb_contents (rb_cdc_tx usb_ready) = []" "cdc_stream usb_ready = []"
    using usb_ready_ok(5) by (simp_all add: cdc_stream_def)
  have h: "uart_wf (rx_uart (sample_rx u))" "pkt_wf (rx_data (sample_rx u))"
    "ps_state (rx_parser (sample_rx u)) = STAT_SYNC" "bind_ack (sample_rx u) = 0"
    "rx_bytes (rx_uart (sample_rx u)) = datalink_frame 0 (3 # [7, 8]) @ []"
    "1 \<le> length [7, 8 :: u8]" "length [7, 8 :: u8] \<le> 31" "3 = DATA_TYPE_MAVLINK \<or> 3 = DATA_TYPE_ANOLINK"
    "usb_inv (tx_usb sample_tx)" "uart_wf (rx_uart (sample_rx sample_uart))"
    "rx_bytes (rx_uart (sample_rx sample_uart)) = []" "bind_ack (sample_rx sample_uart) = 0"
    "length (pl_data (rx_payload (sample_rx sample_uart))) = 31"
    "length (mac_addr (rx_radio (sample_rx sample_uart))) = 6"
    using u usb_ready_ok(1) by (simp_all add: sample_rx_def sample_tx_def sample_pkt_wf DATA_TYPE_ANOLINK_def)
  have f: "rx_calls (sample_rx u) = []" "tx_usb sample_tx = usb_ready" "rx_uart (sample_rx u) = u"
    by (simp_all add: sample_rx_def sample_tx_def)
  obtain r' body s' where "rx_RF_ProcessEvent SBP_RF_RF_RX_EVT None (sample_rx u) = Some (0, r')"
    "rx_calls r' = [RF_Shut, RF_Rx body]"
    "RF_2G4StatusCallBack TX_MODE_RX_DATA 0 (60 # of_nat (length body) # body) sample_tx = Some s'"
    "cdc_stream (tx_usb s') = [7, 8]"
    using telemetry_reaches_usb [OF h, of 60] c unfolding f by auto
  moreover have "rx_bytes (rx_uart (sample_rx u)) = ?f" using u(2) f(3) by simp
  ultimately show ?thesis by blast
qed

end
