(* ===== verification/Failsafe.thy ===== *)
theory Failsafe
  imports RfProps
begin

text \<open>
  The threads that watch the link: the receiver's radio thread, which raises failsafe
  (\<open>Receiver/applications/radio_thread.c\<close>), and the LED threads of both boards. The radio's
  callback runs as an interrupt, so the thread's check is three steps between which it can come: the
  tick is read, \<open>last_update\<close> is read and compared, \<open>failsafe\<close> is written.
\<close>

section \<open>The check\<close>

definition link_check :: "u32 \<Rightarrow> rx_radio_t \<Rightarrow> rx_radio_t" where
  "link_check now r =
     (if unat (now - rx_last_update r) > RT_TICK_PER_SECOND * 3 then r\<lparr>failsafe := 1\<rparr> else r)"

text \<open>The steps, the tick interrupt and the callback with a packet that is not a bind request.\<close>

datatype watch_pc = Sleeping | Got_tick u32 | Expired

record watch =
  watch_now :: u32
  watch_radio :: rx_radio_t
  watch_pc :: watch_pc

datatype watch_event = Tick | Packet | Thread

definition thread_step :: "watch \<Rightarrow> watch" where
  "thread_step w = (case watch_pc w of
     Sleeping \<Rightarrow> w\<lparr>watch_pc := Got_tick (watch_now w)\<rparr>
   | Got_tick t \<Rightarrow> w\<lparr>watch_pc := (if unat (t - rx_last_update (watch_radio w)) > RT_TICK_PER_SECOND * 3
                                 then Expired else Sleeping)\<rparr>
   | Expired \<Rightarrow> w\<lparr>watch_radio := (watch_radio w)\<lparr>failsafe := 1\<rparr>, watch_pc := Sleeping\<rparr>)"

definition packet_effect :: "u32 \<Rightarrow> rx_radio_t \<Rightarrow> rx_radio_t" where
  "packet_effect now r = r\<lparr>failsafe := 0, rx_last_update := now\<rparr>"

fun watch_step :: "watch \<Rightarrow> watch_event \<Rightarrow> watch" where
  "watch_step w Tick = w\<lparr>watch_now := watch_now w + 1\<rparr>"
| "watch_step w Packet = w\<lparr>watch_radio := packet_effect (watch_now w) (watch_radio w)\<rparr>"
| "watch_step w Thread = thread_step w"

definition watch_run :: "watch \<Rightarrow> watch_event list \<Rightarrow> watch" where
  "watch_run = foldl watch_step"

text \<open>The packet event is what the callback of the radio link does to the shared record.\<close>

lemma packet_is_callback:
  assumes "uart_wf (rx_uart s)" and "pkt_wf (uart_data s)" and "1 \<le> length body" and "length body \<le> 32"
    and "hd body \<noteq> DATA_TYPE_BIND"
  shows "\<exists>s'. rx_RF_2G4StatusCallBack RX_MODE_RX_DATA 0 (rs # of_nat (length body) # body) now s = Some s' \<and>
    rx_radio s' = packet_effect now (rx_radio s)"
proof -
  obtain ty ds where b: "body = ty # ds" using assms(3) by (cases body) auto
  obtain u' k' where "forward_packet (rs # of_nat (length body) # body) now s = Some (s\<lparr>uart_data := k',
      rx_radio := (rx_radio s)\<lparr>failsafe := 0, rx_last_update := now\<rparr>, rx_uart := u'\<rparr>)"
    using forward_spec [OF assms(1-4), of rs "[]" now] by auto
  then show ?thesis
    using assms(5) by (simp add: rx_RF_2G4StatusCallBack_def rf_status_defs rx_call_def b packet_effect_def)
qed

text \<open>Without an interrupt in between, the steps are the check.\<close>

lemma thread_pass:
  "watch_pc w = Sleeping \<Longrightarrow>
   watch_run w (if unat (watch_now w - rx_last_update (watch_radio w)) > RT_TICK_PER_SECOND * 3
     then [Thread, Thread, Thread] else [Thread, Thread]) =
   w\<lparr>watch_radio := link_check (watch_now w) (watch_radio w)\<rparr>"
  by (simp add: watch_run_def thread_step_def link_check_def)

section \<open>The LED threads\<close>

record led_thread =
  led_gpio :: gpio
  led_update :: u32

definition led_thread_start :: "gpio \<Rightarrow> led_thread" where
  "led_thread_start g = \<lparr>led_gpio = led_on g LED_ALL, led_update = 0\<rparr>"

definition led_thread_step :: "u8 \<Rightarrow> u32 \<Rightarrow> led_thread \<Rightarrow> led_thread" where
  "led_thread_step rs now l =
     (if rs = 0
      then (if unat (now - led_update l) \<ge> 500 then l\<lparr>led_gpio := led_toggle (led_gpio l) LED_2\<rparr> else l)
      else l\<lparr>led_gpio := led_on (led_gpio l) LED_2\<rparr>)"

definition rx_led_thread_start :: "gpio \<Rightarrow> led_thread" where
  "rx_led_thread_start g = \<lparr>led_gpio = rx_led_on g LED_1, led_update = 0\<rparr>"

text \<open>The tick is read twice.\<close>

definition rx_led_thread_step :: "u8 \<Rightarrow> u32 \<Rightarrow> u32 \<Rightarrow> led_thread \<Rightarrow> led_thread" where
  "rx_led_thread_step fs now1 now2 l =
     (if fs \<noteq> 0
      then (if unat (now1 - led_update l) > 500
            then l\<lparr>led_update := now2, led_gpio := rx_led_toggle (led_gpio l) LED_1\<rparr> else l)
      else l\<lparr>led_gpio := rx_led_toggle (led_gpio l) LED_1\<rparr>)"

section \<open>Failsafe is raised in time\<close>

definition age :: "watch \<Rightarrow> nat" where
  "age w = unat (watch_now w - rx_last_update (watch_radio w))"

lemma age_tick: "Suc (age w) < 2 ^ 32 \<Longrightarrow> age (watch_step w Tick) = Suc (age w)"
proof -
  assume a: "Suc (age w) < 2 ^ 32"
  define d where "d = watch_now w - rx_last_update (watch_radio w)"
  have e: "watch_now w + 1 - rx_last_update (watch_radio w) = d + 1" by (simp add: d_def)
  have "age (watch_step w Tick) = unat (watch_now w + 1 - rx_last_update (watch_radio w))"
    by (simp add: age_def)
  also have "\<dots> = Suc (unat d)"
    unfolding e using a by (simp add: age_def unat_word_ariths flip: d_def)
  finally show ?thesis by (simp add: age_def d_def)
qed

lemma age_thread [simp]: "age (thread_step w) = age w" "watch_now (thread_step w) = watch_now w"
  by (auto simp: age_def thread_step_def split: watch_pc.splits)

lemma age_run:
  "Packet \<notin> set es \<Longrightarrow> age w + count_list es Tick < 2 ^ 32 \<Longrightarrow>
   age (watch_run w es) = age w + count_list es Tick"
proof (induction es arbitrary: w)
  case Nil
  then show ?case by (simp add: watch_run_def)
next
  case (Cons e es)
  have s: "age (watch_step w e) = age w + count_list [e] Tick"
    using Cons.prems age_tick [of w] by (cases e) auto
  have "age (watch_run (watch_step w e) es) = age (watch_step w e) + count_list es Tick"
    by (rule Cons.IH) (use Cons.prems s in auto)
  then show ?case using s by (simp add: watch_run_def)
qed

lemma threads_raise:
  assumes "age w > 3000"
  shows "failsafe (watch_radio (watch_run w (replicate 5 Thread))) = 1"
proof -
  have a: "unat (watch_now w - rx_last_update (watch_radio w)) > 3000" using assms by (simp add: age_def)
  show ?thesis
    using a by (cases "watch_pc w")
      (simp_all add: watch_run_def thread_step_def RT_TICK_PER_SECOND_def eval_nat_numeral)
qed


definition sample_watch :: watch where
  "sample_watch = \<lparr>watch_now = 5000, watch_radio = packet_effect 5000 (rx_radio (sample_rx sample_uart)),
     watch_pc = Sleeping\<rparr>"

lemma count_replicate: "count_list (replicate n x) x = n"
  by (induction n) simp_all


text \<open>
  Passes of the thread that nothing interrupts: a check is done when the event comes. With packets
  never more than three seconds apart failsafe stays down.
\<close>

fun calm_step :: "watch \<Rightarrow> watch_event \<Rightarrow> watch" where
  "calm_step w Thread = w\<lparr>watch_radio := link_check (watch_now w) (watch_radio w)\<rparr>"
| "calm_step w e = watch_step w e"

fun gaps_ok :: "nat \<Rightarrow> watch_event list \<Rightarrow> bool" where
  "gaps_ok a [] = True"
| "gaps_ok a (Tick # es) = (Suc a \<le> 3000 \<and> gaps_ok (Suc a) es)"
| "gaps_ok a (Packet # es) = gaps_ok 0 es"
| "gaps_ok a (Thread # es) = gaps_ok a es"

lemma calm_run:
  "failsafe (watch_radio w) = 0 \<Longrightarrow> age w \<le> 3000 \<Longrightarrow> gaps_ok (age w) es \<Longrightarrow>
   failsafe (watch_radio (foldl calm_step w es)) = 0"
proof (induction es arbitrary: w)
  case Nil
  then show ?case by simp
next
  case (Cons e es)
  show ?case
  proof (cases e)
    case Tick
    then have "age (watch_step w Tick) = Suc (age w)" using Cons.prems age_tick [of w] by simp
    then show ?thesis using Cons.IH [of "watch_step w Tick"] Cons.prems Tick by simp
  next
    case Packet
    have "age (watch_step w Packet) = 0" "failsafe (watch_radio (watch_step w Packet)) = 0"
      by (simp_all add: age_def packet_effect_def)
    then show ?thesis using Cons.IH [of "watch_step w Packet"] Cons.prems Packet by simp
  next
    case Thread
    have "calm_step w Thread = w"
      using Cons.prems(2) by (simp add: link_check_def age_def RT_TICK_PER_SECOND_def)
    then show ?thesis using Cons.IH [of w] Cons.prems Thread by simp
  qed
qed

text \<open>
  Failsafe does not come early, except by a race. When no interrupt falls into a check, packets
  at most three seconds apart keep failsafe down. But between the thread's two reads one tick and one
  packet are enough: the packet is then newer than the tick that was read, the difference wraps round,
  and failsafe is raised on a link that has just delivered a packet.
\<close>

theorem failsafe_false_alarm:
  assumes "failsafe (watch_radio w) = 0" and "age w \<le> 3000" and "gaps_ok (age w) es"
    and "watch_pc w = Sleeping"
  shows "failsafe (watch_radio (foldl calm_step w es)) = 0 \<and>
    failsafe (watch_radio (watch_run w [Thread, Tick, Packet, Thread, Thread])) = 1 \<and>
    age (watch_run w [Thread, Tick, Packet, Thread, Thread]) = 0"
proof -
  have d: "unat (watch_now w - (watch_now w + 1)) > 3000"
  proof -
    have "watch_now w - (watch_now w + 1) = (- 1 :: u32)" by simp
    then show ?thesis by (simp add: unsigned_minus_1_eq_mask mask_eq_exp_minus_1)
  qed
  have "watch_run w [Thread, Tick, Packet, Thread, Thread] =
    w\<lparr>watch_now := watch_now w + 1,
      watch_radio := (packet_effect (watch_now w + 1) (watch_radio w))\<lparr>failsafe := 1\<rparr>\<rparr>"
    using assms(4) d by (simp add: watch_run_def thread_step_def packet_effect_def RT_TICK_PER_SECOND_def)
  then show ?thesis using calm_run [OF assms(1-3)] by (simp add: age_def packet_effect_def)
qed

theorem failsafe_false_alarm_witness:
  "failsafe (watch_radio (foldl calm_step sample_watch [Tick, Thread, Packet, Thread])) = 0 \<and>
    failsafe (watch_radio (watch_run sample_watch [Thread, Tick, Packet, Thread, Thread])) = 1"
  using failsafe_false_alarm [of sample_watch "[Tick, Thread, Packet, Thread]"]
  by (simp add: sample_watch_def packet_effect_def age_def)

text \<open>
  The controller's LED thread never stores the time of its last toggle: from half a second on it
  toggles in every pass.
\<close>

lemma led_toggles_every_pass:
  "led_update l = 0 \<Longrightarrow> 500 \<le> unat now \<Longrightarrow>
   led_thread_step 0 now l = l\<lparr>led_gpio := led_toggle (led_gpio l) LED_2\<rparr>"
  by (simp add: led_thread_step_def)

end
