(* ===== verification/Lcd.thy ===== *)
theory Lcd
  imports Gpio
begin

text \<open>
  The display driver of the controller, \<open>Firmware/drivers/drv_lcd.c\<close>: the SPI port with its DMA
  interrupt, the start-up sequence and the drawing operations. What the driver puts on the bus is
  kept as a list of events, each byte with the level of the data/command line at that moment. A
  pointer argument is the list of what it points to; the registers with the DMA addresses are left
  out. An access outside an array, a NULL font and a wait that nothing ends are \<open>None\<close>.
\<close>

section \<open>State\<close>

definition LCD_PIXEL_WIDTH :: u16 where "LCD_PIXEL_WIDTH = 240"
definition LCD_PIXEL_HEIGHT :: u16 where "LCD_PIXEL_HEIGHT = 240"
definition LCD_BUFFER_SIZE :: nat where "LCD_BUFFER_SIZE = 2000"

lemmas lcd_size_defs = LCD_PIXEL_WIDTH_def LCD_PIXEL_HEIGHT_def

datatype bus_event = Byte bool u8 | Delay nat

record spi0 =
  SPI_CLOCK_DIV :: u8
  SPI_CTRL_MOD :: u8
  SPI_CTRL_CFG :: u8
  SPI_INTER_EN :: u8
  SPI_INT_FLAG :: u8
  SPI_TOTAL_CNT :: u16

record font_t =
  font_table :: "u8 list"
  font_width :: u16
  font_height :: u16

record lcd_sys =
  lcd_gpio :: gpio
  lcd_spi :: spi0
  lcd_bus :: "bus_event list"
  lcd_buffer :: "u16 list"
  default_font :: "font_t option"
  lcd_wait_sem :: nat

definition LCD_RST_PIN :: u32 where "LCD_RST_PIN = GPIO_Pin 17"
definition LCD_DC_PIN :: u32 where "LCD_DC_PIN = GPIO_Pin 9"
definition LCD_BL_PIN :: u32 where "LCD_BL_PIN = GPIO_Pin 12"

definition LCD_BL_HIGH :: "lcd_sys \<Rightarrow> lcd_sys" where
  "LCD_BL_HIGH s = s\<lparr>lcd_gpio := (lcd_gpio s)\<lparr>PA := GPIO_SetBits (PA (lcd_gpio s)) LCD_BL_PIN\<rparr>\<rparr>"

definition LCD_RST_HIGH :: "lcd_sys \<Rightarrow> lcd_sys" where
  "LCD_RST_HIGH s = s\<lparr>lcd_gpio := (lcd_gpio s)\<lparr>PB := GPIO_SetBits (PB (lcd_gpio s)) LCD_RST_PIN\<rparr>\<rparr>"

definition LCD_RST_LOW :: "lcd_sys \<Rightarrow> lcd_sys" where
  "LCD_RST_LOW s = s\<lparr>lcd_gpio := (lcd_gpio s)\<lparr>PB := GPIO_ResetBits (PB (lcd_gpio s)) LCD_RST_PIN\<rparr>\<rparr>"

definition LCD_DC_HIGH :: "lcd_sys \<Rightarrow> lcd_sys" where
  "LCD_DC_HIGH s = s\<lparr>lcd_gpio := (lcd_gpio s)\<lparr>PB := GPIO_SetBits (PB (lcd_gpio s)) LCD_DC_PIN\<rparr>\<rparr>"

definition LCD_DC_LOW :: "lcd_sys \<Rightarrow> lcd_sys" where
  "LCD_DC_LOW s = s\<lparr>lcd_gpio := (lcd_gpio s)\<lparr>PB := GPIO_ResetBits (PB (lcd_gpio s)) LCD_DC_PIN\<rparr>\<rparr>"

definition dc_level :: "lcd_sys \<Rightarrow> bool" where
  "dc_level s \<longleftrightarrow> P_OUT (PB (lcd_gpio s)) AND LCD_DC_PIN \<noteq> 0"

section \<open>The SPI port\<close>

definition RB_SPI_ALL_CLEAR :: u8 where "RB_SPI_ALL_CLEAR = 0x02"
definition RB_SPI_MST_SCK_MOD :: u8 where "RB_SPI_MST_SCK_MOD = 0x08"
definition RB_SPI_FIFO_DIR :: u8 where "RB_SPI_FIFO_DIR = 0x10"
definition RB_SPI_SCK_OE :: u8 where "RB_SPI_SCK_OE = 0x20"
definition RB_SPI_MOSI_OE :: u8 where "RB_SPI_MOSI_OE = 0x40"
definition RB_SPI_DMA_ENABLE :: u8 where "RB_SPI_DMA_ENABLE = 0x01"
definition RB_SPI_AUTO_IF :: u8 where "RB_SPI_AUTO_IF = 0x10"
definition RB_SPI_IF_CNT_END :: u8 where "RB_SPI_IF_CNT_END = 0x01"
definition RB_SPI_IF_DMA_END :: u8 where "RB_SPI_IF_DMA_END = 0x08"

definition bus_bytes :: "u8 list \<Rightarrow> lcd_sys \<Rightarrow> lcd_sys" where
  "bus_bytes bs s = s\<lparr>lcd_bus := lcd_bus s @ map (Byte (dc_level s)) bs\<rparr>"

definition bus_delay :: "nat \<Rightarrow> lcd_sys \<Rightarrow> lcd_sys" where
  "bus_delay n s = s\<lparr>lcd_bus := lcd_bus s @ [Delay n]\<rparr>"

text \<open>
  The blocking transfer: the list is the bytes from \<open>pbuf\<close> on, \<open>len\<close> of them. A write of ones to
  the interrupt flags clears them; the waits for room in the FIFO are the port draining it.
\<close>

definition SPI0_MasterTrans :: "u8 list \<Rightarrow> lcd_sys \<Rightarrow> lcd_sys" where
  "SPI0_MasterTrans pbuf s = bus_bytes pbuf (s\<lparr>lcd_spi := (lcd_spi s)\<lparr>
     SPI_CTRL_MOD := SPI_CTRL_MOD (lcd_spi s) AND NOT RB_SPI_FIFO_DIR,
     SPI_TOTAL_CNT := of_nat (length pbuf),
     SPI_INT_FLAG := SPI_INT_FLAG (lcd_spi s) AND NOT RB_SPI_IF_CNT_END\<rparr>\<rparr>)"

definition LCD_WRITE_REG :: "u8 \<Rightarrow> lcd_sys \<Rightarrow> lcd_sys" where
  "LCD_WRITE_REG d s = LCD_DC_HIGH (SPI0_MasterTrans [d] (LCD_DC_LOW s))"

definition LCD_WRITE_DATA :: "u8 \<Rightarrow> lcd_sys \<Rightarrow> lcd_sys" where
  "LCD_WRITE_DATA d s = SPI0_MasterTrans [d] s"

definition lcd_write_datas :: "u8 list \<Rightarrow> lcd_sys \<Rightarrow> lcd_sys" where
  "lcd_write_datas ds s = SPI0_MasterTrans ds s"

definition GPIO_Configuration :: "lcd_sys \<Rightarrow> lcd_sys" where
  "GPIO_Configuration s =
     (let g1 = GPIOA_ModeCfg (lcd_gpio s) (GPIO_Pin 12 OR GPIO_Pin 13 OR GPIO_Pin 14) GPIO_ModeOut_PP_5mA;
          g2 = GPIOB_ModeCfg g1 (GPIO_Pin 9 OR GPIO_Pin 17) GPIO_ModeOut_PP_5mA
      in LCD_DC_HIGH (s\<lparr>lcd_gpio := g2\<rparr>))"

definition SPI_Configuration :: "lcd_sys \<Rightarrow> lcd_sys" where
  "SPI_Configuration s = s\<lparr>lcd_spi := (lcd_spi s)\<lparr>SPI_CLOCK_DIV := 2,
     SPI_CTRL_MOD := RB_SPI_MST_SCK_MOD OR RB_SPI_MOSI_OE OR RB_SPI_SCK_OE,
     SPI_CTRL_CFG := (SPI_CTRL_CFG (lcd_spi s) OR RB_SPI_AUTO_IF) AND NOT RB_SPI_DMA_ENABLE\<rparr>\<rparr>"

text \<open>
  A DMA transfer: the registers are set, the port sends as many bytes as its 12-bit counter says, the
  completion interrupt releases the semaphore and the caller takes it.
\<close>

definition lcd_sem_take :: "lcd_sys \<Rightarrow> lcd_sys option" where
  "lcd_sem_take s = (if lcd_wait_sem s > 0 then Some (s\<lparr>lcd_wait_sem := lcd_wait_sem s - 1\<rparr>) else None)"

definition spi_dma_start :: "u16 \<Rightarrow> lcd_sys \<Rightarrow> lcd_sys" where
  "spi_dma_start len s = s\<lparr>lcd_spi := (lcd_spi s)\<lparr>
     SPI_CTRL_MOD := SPI_CTRL_MOD (lcd_spi s) AND NOT RB_SPI_FIFO_DIR,
     SPI_TOTAL_CNT := len,
     SPI_INT_FLAG := SPI_INT_FLAG (lcd_spi s) AND NOT (RB_SPI_IF_CNT_END OR RB_SPI_IF_DMA_END),
     SPI_INTER_EN := RB_SPI_IF_DMA_END,
     SPI_CTRL_CFG := (SPI_CTRL_CFG (lcd_spi s) AND NOT RB_SPI_DMA_ENABLE) OR RB_SPI_DMA_ENABLE\<rparr>\<rparr>"

definition spi_dma_run :: "u8 list \<Rightarrow> lcd_sys \<Rightarrow> lcd_sys option" where
  "spi_dma_run mem s = do {
     bs \<leftarrow> read_bytes mem (unat (SPI_TOTAL_CNT (lcd_spi s) AND 0xFFF));
     Some (bus_bytes bs (s\<lparr>lcd_spi := (lcd_spi s)\<lparr>SPI_INT_FLAG := SPI_INT_FLAG (lcd_spi s) OR
       (RB_SPI_IF_CNT_END OR RB_SPI_IF_DMA_END)\<rparr>\<rparr>))
   }"

definition SPI0_IRQHandler :: "lcd_sys \<Rightarrow> lcd_sys" where
  "SPI0_IRQHandler s = s\<lparr>lcd_spi := (lcd_spi s)\<lparr>SPI_INTER_EN := 0,
     SPI_CTRL_CFG := SPI_CTRL_CFG (lcd_spi s) AND NOT RB_SPI_DMA_ENABLE,
     SPI_INT_FLAG := SPI_INT_FLAG (lcd_spi s) AND NOT (SPI_INT_FLAG (lcd_spi s) OR RB_SPI_IF_DMA_END)\<rparr>,
     lcd_wait_sem := lcd_wait_sem s + 1\<rparr>"

definition LCD_SPIDMATrans :: "u8 list \<Rightarrow> u16 \<Rightarrow> lcd_sys \<Rightarrow> lcd_sys option" where
  "LCD_SPIDMATrans mem len s = do {
     s1 \<leftarrow> spi_dma_run mem (spi_dma_start len s);
     lcd_sem_take (SPI0_IRQHandler s1)
   }"

section \<open>Start-up of the panel\<close>

text \<open>A command with its data, as the start-up sequence writes them one after the other.\<close>

definition lcd_command :: "u8 \<times> u8 list \<Rightarrow> lcd_sys \<Rightarrow> lcd_sys" where
  "lcd_command c s = fold LCD_WRITE_DATA (snd c) (LCD_WRITE_REG (fst c) s)"

definition lcd_init_table :: "(u8 \<times> u8 list) list" where
  "lcd_init_table =
    [(0x36, [0x00]), (0x3A, [0x05]), (0xB2, [0x0C, 0x0C, 0x00, 0x33, 0x33]), (0xB7, [0x35]),
     (0xBB, [0x35]), (0xC0, [0x2C]), (0xC2, [0x01]), (0xC3, [0x13]), (0xC4, [0x20]), (0xC6, [0x0F]),
     (0xD0, [0xA4, 0xA1]), (0xB0, [0x00, 0xF8]), (0xD6, [0xA1]),
     (0xE0, [0xF0, 0x00, 0x04, 0x04, 0x04, 0x05, 0x29, 0x33, 0x3E, 0x38, 0x12, 0x12, 0x28, 0x30]),
     (0xE1, [0xF0, 0x07, 0x0A, 0x0D, 0x0B, 0x07, 0x28, 0x33, 0x3E, 0x36, 0x14, 0x14, 0x29, 0x32]),
     (0x21, []), (0x11, []), (0x29, [])]"

definition lcd_reg_init :: "lcd_sys \<Rightarrow> lcd_sys" where
  "lcd_reg_init s =
     (let s1 = LCD_BL_HIGH (LCD_RST_HIGH (bus_delay 100 (LCD_RST_LOW s)));
          s2 = bus_delay 120 (LCD_WRITE_REG 0x11 s1)
      in fold lcd_command lcd_init_table s2)"

section \<open>The window\<close>

definition hi_byte :: "u16 \<Rightarrow> u8" where "hi_byte x = ucast (drop_bit 8 x AND 0xFF)"
definition lo_byte :: "u16 \<Rightarrow> u8" where "lo_byte x = ucast (x AND 0xFF)"

text \<open>The two address commands every operation sends, and the command that starts the pixels.\<close>

definition lcd_columns :: "u16 \<Rightarrow> u16 \<Rightarrow> lcd_sys \<Rightarrow> lcd_sys" where
  "lcd_columns a b s = lcd_write_datas [hi_byte a, lo_byte a, hi_byte b, lo_byte b] (LCD_WRITE_REG 0x2A s)"

definition lcd_rows :: "u16 \<Rightarrow> u16 \<Rightarrow> lcd_sys \<Rightarrow> lcd_sys" where
  "lcd_rows a b s = lcd_write_datas [hi_byte a, lo_byte a, hi_byte b, lo_byte b] (LCD_WRITE_REG 0x2B s)"

definition lcd_window :: "u16 \<Rightarrow> u16 \<Rightarrow> u16 \<Rightarrow> u16 \<Rightarrow> lcd_sys \<Rightarrow> lcd_sys" where
  "lcd_window x1 y1 x2 y2 s = LCD_WRITE_REG 0x2C (lcd_rows y1 y2 (lcd_columns x1 x2 s))"

definition lcd_set_cursor :: "u16 \<Rightarrow> u16 \<Rightarrow> lcd_sys \<Rightarrow> lcd_sys" where
  "lcd_set_cursor x y s = lcd_rows y y (lcd_columns x (LCD_PIXEL_WIDTH - 1) s)"

section \<open>Pixels, rectangles and lines\<close>

definition lcd_draw_pixel :: "u16 \<Rightarrow> u16 \<Rightarrow> u16 \<Rightarrow> lcd_sys \<Rightarrow> lcd_sys option" where
  "lcd_draw_pixel x y color s =
     (if x \<ge> LCD_PIXEL_WIDTH then Some s
      else if y \<ge> LCD_PIXEL_HEIGHT then Some s
      else LCD_SPIDMATrans (u16_bytes color) 2 (lcd_window x y x y s))"

definition fill_buffer :: "u16 \<Rightarrow> lcd_sys \<Rightarrow> lcd_sys" where
  "fill_buffer color s = s\<lparr>lcd_buffer := replicate LCD_BUFFER_SIZE color\<rparr>"

function buffer_loop :: "int \<Rightarrow> lcd_sys \<Rightarrow> lcd_sys option" where
  "buffer_loop len s =
     (if len > 0 then do {
        s1 \<leftarrow> LCD_SPIDMATrans (u16s_bytes (lcd_buffer s))
               (if len > int LCD_BUFFER_SIZE then of_nat (LCD_BUFFER_SIZE * 2) else word_of_int (len * 2)) s;
        buffer_loop (len - int LCD_BUFFER_SIZE) s1
      }
      else Some s)"
  by pat_completeness auto

termination by (relation "measure (\<lambda>(len, s). nat len)") (auto simp: LCD_BUFFER_SIZE_def)

declare buffer_loop.simps [simp del]

definition lcd_fill_rect :: "u16 \<Rightarrow> u16 \<Rightarrow> u16 \<Rightarrow> u16 \<Rightarrow> u16 \<Rightarrow> lcd_sys \<Rightarrow> lcd_sys option" where
  "lcd_fill_rect x1 y1 x2 y2 color s =
     (if x1 \<ge> LCD_PIXEL_WIDTH then Some s
      else let x2 = (if x2 \<ge> LCD_PIXEL_WIDTH then LCD_PIXEL_WIDTH - 1 else x2) in
      if y1 \<ge> LCD_PIXEL_HEIGHT then Some s
      else let y2 = (if y2 \<ge> LCD_PIXEL_HEIGHT then LCD_PIXEL_HEIGHT - 1 else y2) in
      buffer_loop ((uint x2 - uint x1 + 1) * (uint y2 - uint y1 + 1))
        (fill_buffer color (lcd_window x1 y1 x2 y2 s)))"

definition lcd_draw_hline :: "u16 \<Rightarrow> u16 \<Rightarrow> u16 \<Rightarrow> u16 \<Rightarrow> lcd_sys \<Rightarrow> lcd_sys option" where
  "lcd_draw_hline x y len0 color s =
     (if x \<ge> LCD_PIXEL_WIDTH then Some s
      else let len = (if uint x + uint len0 > uint LCD_PIXEL_WIDTH then LCD_PIXEL_WIDTH - x else len0) in
      buffer_loop (to_s16 (uint len)) (fill_buffer color (lcd_window x y (x + len - 1) y s)))"

definition lcd_draw_vline :: "u16 \<Rightarrow> u16 \<Rightarrow> u16 \<Rightarrow> u16 \<Rightarrow> lcd_sys \<Rightarrow> lcd_sys option" where
  "lcd_draw_vline x y len color s =
     (if uint y + uint len > uint LCD_PIXEL_HEIGHT then Some s
      else for_loop (\<lambda>k. lcd_draw_pixel x (y + of_nat k) color) [0..<unat len] s)"

definition lcd_hw_init :: "lcd_sys \<Rightarrow> lcd_sys option" where
  "lcd_hw_init s =
     lcd_fill_rect 0 0 240 240 0xFFFF
       (lcd_reg_init (SPI_Configuration (GPIO_Configuration (s\<lparr>lcd_wait_sem := 0\<rparr>))))"

text \<open>
  The line: the increments and the longer distance, and the loop over the 16-bit counter, which has
  no result when it does not end.
\<close>

definition line_inc :: "int \<Rightarrow> int \<times> int" where
  "line_inc d = (if d > 0 then (1, d) else if d = 0 then (0, d) else (-1, - d))"

partial_function (option) line_loop ::
    "int \<Rightarrow> int \<Rightarrow> int \<Rightarrow> int \<Rightarrow> int \<Rightarrow> u16 \<Rightarrow> u16 \<Rightarrow> int \<Rightarrow> int \<Rightarrow> int \<Rightarrow> int \<Rightarrow> lcd_sys \<Rightarrow> lcd_sys option" where
  "line_loop delta_x delta_y incx incy distance color t xerr yerr uRow uCol s =
     (if uint t \<le> distance + 1 then do {
        s1 \<leftarrow> lcd_draw_pixel (word_of_int uRow) (word_of_int uCol) color s;
        let xe = xerr + delta_x;
        let ye = yerr + delta_y;
        let (xe', row) = (if xe > distance then (xe - distance, uRow + incx) else (xe, uRow));
        let (ye', col) = (if ye > distance then (ye - distance, uCol + incy) else (ye, uCol));
        line_loop delta_x delta_y incx incy distance color (t + 1) xe' ye' row col s1
      }
      else Some s)"

definition lcd_draw_line :: "u16 \<Rightarrow> u16 \<Rightarrow> u16 \<Rightarrow> u16 \<Rightarrow> u16 \<Rightarrow> lcd_sys \<Rightarrow> lcd_sys option" where
  "lcd_draw_line x1 y1 x2 y2 color s =
     (let (incx, dx) = line_inc (uint x2 - uint x1);
          (incy, dy) = line_inc (uint y2 - uint y1);
          distance = (if dx > dy then dx else dy)
      in line_loop dx dy incx incy distance color 0 0 0 (uint x1) (uint y1) s)"

definition lcd_draw_rect :: "u16 \<Rightarrow> u16 \<Rightarrow> u16 \<Rightarrow> u16 \<Rightarrow> u16 \<Rightarrow> lcd_sys \<Rightarrow> lcd_sys option" where
  "lcd_draw_rect x1 y1 x2 y2 color s = do {
     s1 \<leftarrow> lcd_draw_hline x1 y1 (x2 - x1 + 1) color s;
     s2 \<leftarrow> lcd_draw_vline x1 y1 (y2 - y1 + 1) color s1;
     s3 \<leftarrow> lcd_draw_hline x1 y2 (x2 - x1 + 1) color s2;
     lcd_draw_vline x2 y1 (y2 - y1 + 1) color s3
   }"

text \<open>The points of one iteration of the circle, in the order of the code.\<close>

definition circle_points :: "int \<Rightarrow> int \<Rightarrow> int \<Rightarrow> int \<Rightarrow> (int \<times> int) list" where
  "circle_points x y a b =
    [(x - b, y - a), (x + b, y - a), (x - a, y + b), (x - b, y - a), (x - a, y - b), (x + b, y + a),
     (x + a, y - b), (x + a, y + b), (x - b, y + a)]"

definition draw_point :: "u16 \<Rightarrow> int \<times> int \<Rightarrow> lcd_sys \<Rightarrow> lcd_sys option" where
  "draw_point color q s = lcd_draw_pixel (word_of_int (fst q)) (word_of_int (snd q)) color s"

function circle_loop :: "int \<Rightarrow> int \<Rightarrow> u16 \<Rightarrow> int \<Rightarrow> int \<Rightarrow> int \<Rightarrow> lcd_sys \<Rightarrow> lcd_sys option" where
  "circle_loop x y color a b di s =
     (if a \<le> b then do {
        s1 \<leftarrow> for_loop (draw_point color) (circle_points x y a b) s;
        let a1 = a + 1;
        let (di1, b1) = (if di < 0 then (di + 4 * a1 + 6, b) else (di + 10 + 4 * (a1 - b), b - 1));
        s2 \<leftarrow> draw_point color (x + a1, y + b1) s1;
        circle_loop x y color a1 b1 di1 s2
      }
      else Some s)"
  by pat_completeness auto

termination by (relation "measure (\<lambda>(x, y, c, a, b, di, s). nat (b - a + 1))") (auto split: if_splits)

declare circle_loop.simps [simp del]

definition lcd_draw_circle :: "u16 \<Rightarrow> u16 \<Rightarrow> u16 \<Rightarrow> u16 \<Rightarrow> lcd_sys \<Rightarrow> lcd_sys option" where
  "lcd_draw_circle x y r color s = circle_loop (uint x) (uint y) color 0 (uint r) (3 - uint r * 2) s"

section \<open>Images\<close>

text \<open>A copy of \<open>n\<close> pixels of an image, from pixel \<open>off\<close> on, to a place of the buffer.\<close>

definition copy_pixels :: "u8 list \<Rightarrow> int \<Rightarrow> nat \<Rightarrow> nat \<Rightarrow> lcd_sys \<Rightarrow> lcd_sys option" where
  "copy_pixels pic off d n s =
     (if off < 0 then None else do {
        bs \<leftarrow> read_bytes (drop (2 * nat off) pic) (2 * n);
        buf \<leftarrow> copy_to (lcd_buffer s) d (u16s_of bs) 0 n;
        Some (s\<lparr>lcd_buffer := buf\<rparr>)
      })"

function image_loop :: "u8 list \<Rightarrow> int \<Rightarrow> int \<Rightarrow> lcd_sys \<Rightarrow> lcd_sys option" where
  "image_loop pic off len s =
     (if len > 0 then do {
        let n = (if len > int LCD_BUFFER_SIZE then LCD_BUFFER_SIZE else nat len);
        s1 \<leftarrow> copy_pixels pic off 0 n s;
        s2 \<leftarrow> LCD_SPIDMATrans (u16s_bytes (lcd_buffer s1)) (of_nat (n * 2)) s1;
        image_loop pic (off + int LCD_BUFFER_SIZE) (len - int LCD_BUFFER_SIZE) s2
      }
      else Some s)"
  by pat_completeness auto

termination by (relation "measure (\<lambda>(pic, off, len, s). nat len)") (auto simp: LCD_BUFFER_SIZE_def)

declare image_loop.simps [simp del]

definition clip :: "u16 \<Rightarrow> u16 \<Rightarrow> u16" where
  "clip x limit = (if x \<ge> limit then limit - 1 else x)"

definition lcd_draw_image :: "u8 list \<Rightarrow> u16 \<Rightarrow> u16 \<Rightarrow> u16 \<Rightarrow> u16 \<Rightarrow> lcd_sys \<Rightarrow> lcd_sys option" where
  "lcd_draw_image pic x y w h s =
     (if x \<ge> LCD_PIXEL_WIDTH then Some s
      else if y \<ge> LCD_PIXEL_HEIGHT then Some s
      else image_loop pic 0 (uint w * uint h)
        (lcd_window x y (clip (x + w - 1) LCD_PIXEL_WIDTH) (clip (y + h - 1) LCD_PIXEL_HEIGHT) s))"

text \<open>
  The nine-patch: four corners of \<open>r * r\<close> pixels, each row copied from pixel \<open>idx i\<close> of the image,
  and three areas in the colour that the last corner begins with.
\<close>

definition patch_corner :: "u8 list \<Rightarrow> (int \<Rightarrow> int) \<Rightarrow> u16 \<Rightarrow> u16 \<Rightarrow> u16 \<Rightarrow> lcd_sys \<Rightarrow> lcd_sys option" where
  "patch_corner pic idx r x1 y1 s = do {
     s1 \<leftarrow> for_loop (\<lambda>i. copy_pixels pic (idx (int i)) (i * unat r) (unat r)) [0..<unat r] s;
     LCD_SPIDMATrans (u16s_bytes (lcd_buffer s1)) (r * r * 2) (lcd_window x1 y1 (x1 + r - 1) (y1 + r - 1) s1)
   }"

definition lcd_draw_image9patch ::
    "u8 list \<Rightarrow> u16 \<Rightarrow> u16 \<Rightarrow> u16 \<Rightarrow> u16 \<Rightarrow> u16 \<Rightarrow> u16 \<Rightarrow> u16 \<Rightarrow> lcd_sys \<Rightarrow> lcd_sys option" where
  "lcd_draw_image9patch pic src_w src_h r0 x y w h s =
     (if x \<ge> LCD_PIXEL_WIDTH then Some s
      else if y \<ge> LCD_PIXEL_HEIGHT then Some s
      else let r = (if r0 > 32 then 32 else r0); sw = uint src_w; sh = uint src_h; R = uint r in do {
        s1 \<leftarrow> patch_corner pic (\<lambda>i. i * sw) r x y s;
        s2 \<leftarrow> patch_corner pic (\<lambda>i. (i + 1) * sw - R) r (x + w - r) y s1;
        s3 \<leftarrow> patch_corner pic (\<lambda>i. (sh - R + i) * sw) r x (y + h - r) s2;
        s4 \<leftarrow> patch_corner pic (\<lambda>i. (sh - R + i + 1) * sw - R) r (x + w - r) (y + h - r) s3;
        style_color \<leftarrow> arr_get (lcd_buffer s4) 0;
        s5 \<leftarrow> buffer_loop (R * (uint w - 2 * R))
               (lcd_window (x + r) y (x + w - r - 1) (y + r - 1) (fill_buffer style_color s4));
        s6 \<leftarrow> buffer_loop (R * (uint w - 2 * R))
               (lcd_window (x + r) (y + h - r) (x + w - r - 1) (y + h - 1) s5);
        buffer_loop ((uint h - 2 * R) * uint w) (lcd_window x (y + r) (x + w - 1) (y + h - r - 1) s6)
      })"

section \<open>Characters\<close>

text \<open>The bits of one line of a glyph: one to three bytes of the table.\<close>

definition glyph_line :: "u8 list \<Rightarrow> int \<Rightarrow> nat \<Rightarrow> u32 option" where
  "glyph_line tbl at nb =
     (if at < 0 then None
      else if nb = 1 then do { a \<leftarrow> arr_get tbl (nat at); Some (ucast a) }
      else if nb = 2 then do {
        a \<leftarrow> arr_get tbl (nat at);
        b \<leftarrow> arr_get tbl (nat at + 1);
        Some (push_bit 8 (ucast a) OR ucast b)
      }
      else do {
        a \<leftarrow> arr_get tbl (nat at);
        b \<leftarrow> arr_get tbl (nat at + 1);
        c \<leftarrow> arr_get tbl (nat at + 2);
        Some (push_bit 16 (ucast a) OR push_bit 8 (ucast b) OR ucast c)
      })"

definition char_bytes :: "font_t \<Rightarrow> nat" where
  "char_bytes f = (unat (font_width f) + 7) div 8"

definition char_start :: "font_t \<Rightarrow> u8 \<Rightarrow> int" where
  "char_start f ch = (uint ch - 32) * uint (font_height f) * int (char_bytes f)"

text \<open>One line of the character into the buffer; a shift by 32 or more has no result.\<close>

definition char_pixel :: "font_t \<Rightarrow> u32 \<Rightarrow> u16 \<Rightarrow> u16 \<Rightarrow> nat \<Rightarrow> nat \<Rightarrow> u16 list \<Rightarrow> u16 list option" where
  "char_pixel f line fg bg i j buf =
     (let offset = 8 * char_bytes f - unat (font_width f);
          k = unat (font_width f) - j + offset - 1
      in if k < 32 then arr_set buf (j + i * unat (font_width f)) (if bit line k then fg else bg)
         else None)"

definition char_row :: "font_t \<Rightarrow> u8 \<Rightarrow> u16 \<Rightarrow> u16 \<Rightarrow> nat \<Rightarrow> u16 list \<Rightarrow> u16 list option" where
  "char_row f ch fg bg i buf = do {
     line \<leftarrow> glyph_line (font_table f) (char_start f ch + int (char_bytes f * i)) (char_bytes f);
     for_loop (char_pixel f line fg bg i) [0..<unat (font_width f)] buf
   }"

definition lcd_draw_char :: "u16 \<Rightarrow> u16 \<Rightarrow> u8 \<Rightarrow> u16 \<Rightarrow> u16 \<Rightarrow> lcd_sys \<Rightarrow> lcd_sys option" where
  "lcd_draw_char x y ch fg bg s = (case default_font s of None \<Rightarrow> Some s
     | Some f \<Rightarrow> do {
         buf \<leftarrow> for_loop (char_row f ch fg bg) [0..<unat (font_height f)] (lcd_buffer s);
         LCD_SPIDMATrans (u16s_bytes buf) (font_width f * font_height f * 2)
           (lcd_window x y (x + font_width f - 1) (y + font_height f - 1) (s\<lparr>lcd_buffer := buf\<rparr>))
       })"

primrec mypow :: "u8 \<Rightarrow> nat \<Rightarrow> u32" where
  "mypow m 0 = 1"
| "mypow m (Suc n) = mypow m n * ucast m"

text \<open>The digit at place \<open>t\<close> of \<open>len\<close>; the power is 0 beyond 31 places, and the division has no result.\<close>

definition num_digit :: "u32 \<Rightarrow> u8 \<Rightarrow> nat \<Rightarrow> u8 option" where
  "num_digit num len t =
     (let p = mypow 10 (unat len - t - 1) in if p = 0 then None else Some (ucast ((num div p) mod 10)))"

definition num_place :: "u16 \<Rightarrow> u16 \<Rightarrow> u32 \<Rightarrow> u8 \<Rightarrow> u16 \<Rightarrow> u16 \<Rightarrow> nat \<Rightarrow> bool \<times> lcd_sys \<Rightarrow> (bool \<times> lcd_sys) option" where
  "num_place x y num len fg bg t es = do {
     f \<leftarrow> default_font (snd es);
     temp \<leftarrow> num_digit num len t;
     let at = x + font_width f * of_nat t;
     if \<not> fst es \<and> t < unat len - 1 \<and> temp = 0
     then map_option (Pair False) (lcd_draw_char at y 32 fg bg (snd es))
     else map_option (Pair (fst es \<or> t < unat len - 1)) (lcd_draw_char at y (temp + 48) fg bg (snd es))
   }"

definition lcd_draw_num :: "u16 \<Rightarrow> u16 \<Rightarrow> u32 \<Rightarrow> u8 \<Rightarrow> u16 \<Rightarrow> u16 \<Rightarrow> lcd_sys \<Rightarrow> lcd_sys option" where
  "lcd_draw_num x y num len fg bg s =
     map_option snd (for_loop (num_place x y num len fg bg) [0..<unat len] (False, s))"

definition lcd_draw_2num :: "u16 \<Rightarrow> u16 \<Rightarrow> u16 \<Rightarrow> u8 \<Rightarrow> u8 \<Rightarrow> u16 \<Rightarrow> u16 \<Rightarrow> lcd_sys \<Rightarrow> lcd_sys option" where
  "lcd_draw_2num x y num len mode fg bg s =
     for_loop (\<lambda>t s. do {
       f \<leftarrow> default_font s;
       temp \<leftarrow> num_digit (ucast num) len t;
       lcd_draw_char (x + font_width f * of_nat t) y (temp + 48) fg bg s
     }) [0..<unat len] s"

text \<open>The text is the bytes up to the terminating 0.\<close>

definition text_place :: "font_t \<Rightarrow> u16 \<times> u16 \<Rightarrow> u16 \<times> u16" where
  "text_place f p =
     (let (x, y) = p;
          (x, y) = (if int (unat x) > uint LCD_PIXEL_WIDTH - uint (font_width f)
                    then (0, y + font_height f) else (x, y))
      in if int (unat y) > uint LCD_PIXEL_HEIGHT - uint (font_height f) then (0, 0) else (x, y))"

fun lcd_draw_text :: "u16 \<Rightarrow> u16 \<Rightarrow> u8 list \<Rightarrow> u16 \<Rightarrow> u16 \<Rightarrow> lcd_sys \<Rightarrow> lcd_sys option" where
  "lcd_draw_text x y [] fg bg s = Some s"
| "lcd_draw_text x y (c # cs) fg bg s = do {
     f \<leftarrow> default_font s;
     let (x1, y1) = text_place f (x, y);
     s1 \<leftarrow> lcd_draw_char x1 y1 c fg bg s;
     lcd_draw_text (x1 + font_width f) y1 cs fg bg s1
   }"

definition lcd_set_font :: "font_t \<Rightarrow> lcd_sys \<Rightarrow> lcd_sys" where
  "lcd_set_font f s = s\<lparr>default_font := Some f\<rparr>"

definition lcd_get_font :: "lcd_sys \<Rightarrow> font_t option" where
  "lcd_get_font s = default_font s"

end
