(* ===== verification/LcdProps.thy ===== *)
theory LcdProps
  imports Lcd
begin

text \<open>
  What the display shows. The panel's controller is the environment: it takes the bytes of the bus,
  keeps the window the address commands set, and writes a pixel of the memory for every two bytes
  behind the write command, from left to right and from top to bottom. The low byte of a pixel comes
  first when the RAM control command has said so.
\<close>

section \<open>The panel\<close>

record panel =
  pn_cmd :: u8
  pn_args :: "u8 list"
  pn_xs :: nat
  pn_xe :: nat
  pn_ys :: nat
  pn_ye :: nat
  pn_x :: nat
  pn_y :: nat
  pn_little :: bool
  pn_on :: bool
  pn_frame :: "nat \<times> nat \<Rightarrow> u16"

definition put_pixel :: "panel \<Rightarrow> u16 \<Rightarrow> panel" where
  "put_pixel p c = p\<lparr>pn_frame := (pn_frame p)((pn_x p, pn_y p) := c),
     pn_x := (if pn_x p = pn_xe p then pn_xs p else pn_x p + 1),
     pn_y := (if pn_x p = pn_xe p then (if pn_y p = pn_ye p then pn_ys p else pn_y p + 1) else pn_y p)\<rparr>"

definition panel_command :: "u8 \<Rightarrow> panel \<Rightarrow> panel" where
  "panel_command c p =
     (let p1 = p\<lparr>pn_cmd := c, pn_args := []\<rparr>
      in if c = 0x2C then p1\<lparr>pn_x := pn_xs p, pn_y := pn_ys p\<rparr>
         else if c = 0x29 then p1\<lparr>pn_on := True\<rparr>
         else if c = 0x28 then p1\<lparr>pn_on := False\<rparr>
         else p1)"

definition panel_data :: "u8 \<Rightarrow> panel \<Rightarrow> panel" where
  "panel_data b p =
     (let a = pn_args p @ [b]; p1 = p\<lparr>pn_args := a\<rparr>
      in if pn_cmd p = 0x2C then
           (case pn_args p of [] \<Rightarrow> p1
            | f # _ \<Rightarrow> put_pixel (p\<lparr>pn_args := []\<rparr>) (if pn_little p then u16_of f b else u16_of b f))
         else if length a = 4 \<and> pn_cmd p = 0x2A
         then p1\<lparr>pn_xs := unat (u16_of (a ! 1) (a ! 0)), pn_xe := unat (u16_of (a ! 3) (a ! 2))\<rparr>
         else if length a = 4 \<and> pn_cmd p = 0x2B
         then p1\<lparr>pn_ys := unat (u16_of (a ! 1) (a ! 0)), pn_ye := unat (u16_of (a ! 3) (a ! 2))\<rparr>
         else if length a = 2 \<and> pn_cmd p = 0xB0 then p1\<lparr>pn_little := bit b 3\<rparr>
         else p1)"

fun panel_step :: "panel \<Rightarrow> bus_event \<Rightarrow> panel" where
  "panel_step p (Byte dc b) = (if dc then panel_data b p else panel_command b p)"
| "panel_step p (Delay n) = p"

definition shown :: "panel \<Rightarrow> lcd_sys \<Rightarrow> panel" where
  "shown p0 s = foldl panel_step p0 (lcd_bus s)"

subsection \<open>Pixels fill the window line by line\<close>

definition in_window :: "panel \<Rightarrow> nat \<times> nat \<Rightarrow> bool" where
  "in_window p q \<longleftrightarrow> pn_xs p \<le> fst q \<and> fst q \<le> pn_xe p \<and> pn_ys p \<le> snd q \<and> snd q \<le> pn_ye p"

definition win_width :: "panel \<Rightarrow> nat" where "win_width p = pn_xe p - pn_xs p + 1"
definition win_height :: "panel \<Rightarrow> nat" where "win_height p = pn_ye p - pn_ys p + 1"

definition win_index :: "panel \<Rightarrow> nat \<times> nat \<Rightarrow> nat" where
  "win_index p q = (snd q - pn_ys p) * win_width p + (fst q - pn_xs p)"

lemma put_pixel_fields [simp]:
  "pn_cmd (put_pixel p c) = pn_cmd p" "pn_args (put_pixel p c) = pn_args p"
  "pn_xs (put_pixel p c) = pn_xs p" "pn_xe (put_pixel p c) = pn_xe p"
  "pn_ys (put_pixel p c) = pn_ys p" "pn_ye (put_pixel p c) = pn_ye p"
  "pn_little (put_pixel p c) = pn_little p" "pn_on (put_pixel p c) = pn_on p"
  by (simp_all add: put_pixel_def)

lemma put_pixel_effect:
  "pn_x (put_pixel p c) = (if pn_x p = pn_xe p then pn_xs p else pn_x p + 1)"
  "pn_y (put_pixel p c) =
     (if pn_x p = pn_xe p then (if pn_y p = pn_ye p then pn_ys p else pn_y p + 1) else pn_y p)"
  "pn_frame (put_pixel p c) = (pn_frame p)((pn_x p, pn_y p) := c)"
  by (simp_all add: put_pixel_def)

lemma put_pixels_fields [simp]:
  "pn_cmd (foldl put_pixel p px) = pn_cmd p" "pn_args (foldl put_pixel p px) = pn_args p"
  "pn_xs (foldl put_pixel p px) = pn_xs p" "pn_xe (foldl put_pixel p px) = pn_xe p"
  "pn_ys (foldl put_pixel p px) = pn_ys p" "pn_ye (foldl put_pixel p px) = pn_ye p"
  "pn_little (foldl put_pixel p px) = pn_little p" "pn_on (foldl put_pixel p px) = pn_on p"
  by (induction px arbitrary: p) simp_all

lemma win_params [simp]:
  "in_window (foldl put_pixel p px) = in_window p" "win_width (foldl put_pixel p px) = win_width p"
  "win_index (foldl put_pixel p px) = win_index p"
  by (auto simp: in_window_def win_width_def win_index_def fun_eq_iff)

lemma pixel_position:
  assumes "pn_x p = pn_xs p" and "pn_y p = pn_ys p" and "pn_xs p \<le> pn_xe p" and "pn_ys p \<le> pn_ye p"
    and "length px < win_width p * win_height p"
  shows "pn_x (foldl put_pixel p px) = pn_xs p + length px mod win_width p \<and>
         pn_y (foldl put_pixel p px) = pn_ys p + length px div win_width p"
  using assms(5)
proof (induction px rule: rev_induct)
  case Nil
  then show ?case using assms by simp
next
  case (snoc c px)
  define n where "n = length px"
  have w: "win_width p > 0" by (simp add: win_width_def)
  have ih: "pn_x (foldl put_pixel p px) = pn_xs p + n mod win_width p"
    "pn_y (foldl put_pixel p px) = pn_ys p + n div win_width p"
    using snoc by (auto simp: n_def)
  show ?case
  proof (cases "n mod win_width p = win_width p - 1")
    case True
    have e: "Suc n mod win_width p = 0" "Suc n div win_width p = Suc (n div win_width p)"
      using True w by (auto simp: mod_Suc div_Suc)
    have "Suc n < win_height p * win_width p" using snoc.prems by (simp add: n_def mult.commute)
    then have "Suc n div win_width p < win_height p" by (rule less_mult_imp_div_less)
    then have "pn_ys p + n div win_width p \<noteq> pn_ye p" using e(2) by (simp add: win_height_def)
    moreover have "pn_xs p + n mod win_width p = pn_xe p" using True assms(3) by (simp add: win_width_def)
    ultimately show ?thesis using ih e by (simp add: put_pixel_effect n_def[symmetric])
  next
    case False
    have e: "Suc n mod win_width p = Suc (n mod win_width p)" "Suc n div win_width p = n div win_width p"
      using False w by (auto simp: mod_Suc div_Suc)
    have "pn_xs p + n mod win_width p \<noteq> pn_xe p" using False assms(3) by (simp add: win_width_def)
    then show ?thesis using ih e by (simp add: put_pixel_effect n_def[symmetric])
  qed
qed

lemma index_unique:
  assumes "in_window p q" and "n < win_width p * win_height p" and "pn_xs p \<le> pn_xe p"
  shows "q = (pn_xs p + n mod win_width p, pn_ys p + n div win_width p) \<longleftrightarrow> win_index p q = n"
proof
  assume "q = (pn_xs p + n mod win_width p, pn_ys p + n div win_width p)"
  then show "win_index p q = n" by (simp add: win_index_def)
next
  assume n: "win_index p q = n"
  have l: "fst q - pn_xs p < win_width p" using assms(1) by (auto simp: in_window_def win_width_def)
  have "n mod win_width p = fst q - pn_xs p" "n div win_width p = snd q - pn_ys p"
    using l n by (auto simp: win_index_def)
  then show "q = (pn_xs p + n mod win_width p, pn_ys p + n div win_width p)"
    using assms(1) by (auto simp: in_window_def prod_eq_iff)
qed

lemma position_in_window:
  "n < win_width p * win_height p \<Longrightarrow> pn_xs p \<le> pn_xe p \<Longrightarrow> pn_ys p \<le> pn_ye p \<Longrightarrow>
   in_window p (pn_xs p + n mod win_width p, pn_ys p + n div win_width p)"
proof -
  assume a: "n < win_width p * win_height p" "pn_xs p \<le> pn_xe p" "pn_ys p \<le> pn_ye p"
  have "n mod win_width p < win_width p" by (simp add: win_width_def)
  then have m: "n mod win_width p \<le> pn_xe p - pn_xs p" unfolding win_width_def by simp
  have "n div win_width p < win_height p"
    using a(1) by (intro less_mult_imp_div_less) (simp add: mult.commute)
  then have d: "n div win_width p \<le> pn_ye p - pn_ys p" unfolding win_height_def by simp
  have "pn_xs p + n mod win_width p \<le> pn_xe p" "pn_ys p + n div win_width p \<le> pn_ye p"
    using m d a(2,3) by linarith+
  then show ?thesis by (simp add: in_window_def)
qed

lemma pixels_painted:
  assumes "pn_x p = pn_xs p" and "pn_y p = pn_ys p" and "pn_xs p \<le> pn_xe p" and "pn_ys p \<le> pn_ye p"
    and "length px \<le> win_width p * win_height p"
  shows "pn_frame (foldl put_pixel p px) q =
    (if in_window p q \<and> win_index p q < length px then px ! win_index p q else pn_frame p q)"
  using assms(5)
proof (induction px rule: rev_induct)
  case (snoc c px)
  define n where "n = length px"
  have lt: "n < win_width p * win_height p" using snoc.prems by (simp add: n_def)
  have pos: "(pn_x (foldl put_pixel p px), pn_y (foldl put_pixel p px)) =
      (pn_xs p + n mod win_width p, pn_ys p + n div win_width p)"
    using pixel_position [OF assms(1-4), of px] lt by (simp add: n_def)
  have new: "pn_frame (foldl put_pixel p (px @ [c])) q =
      (if q = (pn_xs p + n mod win_width p, pn_ys p + n div win_width p) then c
       else pn_frame (foldl put_pixel p px) q)"
    using pos by (simp add: put_pixel_effect)
  show ?case
  proof (cases "in_window p q")
    case True
    then show ?thesis
      using new index_unique [OF True lt assms(3)] snoc by (simp add: n_def nth_append less_Suc_eq)
  next
    case False
    then have "q \<noteq> (pn_xs p + n mod win_width p, pn_ys p + n div win_width p)"
      using position_in_window [OF lt assms(3,4)] by blast
    then show ?thesis using new False snoc by simp
  qed
qed simp

section \<open>What the driver puts on the bus\<close>

lemma dc_levels [simp]: "dc_level (LCD_DC_HIGH s)" "\<not> dc_level (LCD_DC_LOW s)"
proof -
  have "bit ((P_OUT (PB (lcd_gpio s)) OR LCD_DC_PIN) AND LCD_DC_PIN) 9"
    by (simp add: bit_simps LCD_DC_PIN_def BV_def)
  then show "dc_level (LCD_DC_HIGH s)"
    by (auto simp: dc_level_def LCD_DC_HIGH_def GPIO_SetBits_def)
  have "(x AND NOT LCD_DC_PIN) AND LCD_DC_PIN = 0" for x :: u32
    by (rule bit_word_eqI) (simp add: bit_simps)
  then show "\<not> dc_level (LCD_DC_LOW s)"
    by (simp add: dc_level_def LCD_DC_LOW_def GPIO_ResetBits_def)
qed

lemma dc_level_cong: "lcd_gpio s' = lcd_gpio s \<Longrightarrow> dc_level s' = dc_level s"
  by (simp add: dc_level_def)

lemma reg_effect [simp]:
  "lcd_bus (LCD_WRITE_REG d s) = lcd_bus s @ [Byte False d]" "dc_level (LCD_WRITE_REG d s)"
  "lcd_buffer (LCD_WRITE_REG d s) = lcd_buffer s" "default_font (LCD_WRITE_REG d s) = default_font s"
proof -
  show "dc_level (LCD_WRITE_REG d s)" by (simp add: LCD_WRITE_REG_def)
  have "\<not> dc_level ((LCD_DC_LOW s)\<lparr>lcd_spi := x\<rparr>)" for x
    using dc_level_cong [of "(LCD_DC_LOW s)\<lparr>lcd_spi := x\<rparr>" "LCD_DC_LOW s"] by simp
  then show "lcd_bus (LCD_WRITE_REG d s) = lcd_bus s @ [Byte False d]"
    by (simp add: LCD_WRITE_REG_def SPI0_MasterTrans_def bus_bytes_def LCD_DC_HIGH_def) (simp add: LCD_DC_LOW_def)
qed (simp_all add: LCD_WRITE_REG_def SPI0_MasterTrans_def bus_bytes_def LCD_DC_HIGH_def LCD_DC_LOW_def)

lemma datas_effect [simp]:
  "lcd_bus (lcd_write_datas ds s) = lcd_bus s @ map (Byte (dc_level s)) ds"
  "lcd_gpio (lcd_write_datas ds s) = lcd_gpio s" "lcd_buffer (lcd_write_datas ds s) = lcd_buffer s"
  "default_font (lcd_write_datas ds s) = default_font s"
  "dc_level (lcd_write_datas ds s) = dc_level s"
  by (simp_all add: lcd_write_datas_def SPI0_MasterTrans_def bus_bytes_def dc_level_def)

lemma data_is_datas: "LCD_WRITE_DATA d s = lcd_write_datas [d] s"
  by (simp add: LCD_WRITE_DATA_def lcd_write_datas_def)

lemma shown_reg [simp]: "shown p0 (LCD_WRITE_REG d s) = panel_command d (shown p0 s)"
  by (simp add: shown_def)

lemma shown_datas [simp]:
  "dc_level s \<Longrightarrow> shown p0 (lcd_write_datas ds s) = fold panel_data ds (shown p0 s)"
proof -
  have "foldl panel_step p (map (Byte True) ds) = fold panel_data ds p" for p
    by (induction ds arbitrary: p) simp_all
  then show "dc_level s \<Longrightarrow> shown p0 (lcd_write_datas ds s) = fold panel_data ds (shown p0 s)"
    by (simp add: shown_def)
qed

lemma byte_halves: "lo_byte x = ucast x" "hi_byte x = ucast (drop_bit 8 x)"
proof -
  have m: "(0xFF :: u16) = mask 8" by (simp add: mask_eq_exp_minus_1)
  show "lo_byte x = ucast x" "hi_byte x = ucast (drop_bit 8 x)"
    by (rule bit_word_eqI; simp add: lo_byte_def hi_byte_def m bit_simps)+
qed

lemma u16_of_halves [simp]: "u16_of (lo_byte x) (hi_byte x) = x"
  by (simp add: byte_halves)

lemma window_bus:
  "lcd_bus (lcd_window x1 y1 x2 y2 s) = lcd_bus s @ Byte False 0x2A #
     map (Byte True) [hi_byte x1, lo_byte x1, hi_byte x2, lo_byte x2] @ Byte False 0x2B #
     map (Byte True) [hi_byte y1, lo_byte y1, hi_byte y2, lo_byte y2] @ [Byte False 0x2C]"
  by (simp add: lcd_window_def lcd_rows_def lcd_columns_def)

lemma window_effect [simp]:
  "dc_level (lcd_window x1 y1 x2 y2 s)" "lcd_buffer (lcd_window x1 y1 x2 y2 s) = lcd_buffer s"
  "default_font (lcd_window x1 y1 x2 y2 s) = default_font s"
  by (simp_all add: lcd_window_def lcd_rows_def lcd_columns_def)

definition open_window :: "u16 \<Rightarrow> u16 \<Rightarrow> u16 \<Rightarrow> u16 \<Rightarrow> panel \<Rightarrow> panel" where
  "open_window x1 y1 x2 y2 p = p\<lparr>pn_cmd := 0x2C, pn_args := [], pn_xs := unat x1, pn_xe := unat x2,
     pn_ys := unat y1, pn_ye := unat y2, pn_x := unat x1, pn_y := unat y1\<rparr>"

lemma shown_window [simp]:
  "shown p0 (lcd_window x1 y1 x2 y2 s) = open_window x1 y1 x2 y2 (shown p0 s)"
  by (simp add: lcd_window_def lcd_rows_def lcd_columns_def panel_command_def panel_data_def
      open_window_def)

text \<open>The operation sends pixels and leaves the rest as it was.\<close>

definition paints :: "u16 list \<Rightarrow> lcd_sys \<Rightarrow> lcd_sys \<Rightarrow> bool" where
  "paints px s s' \<longleftrightarrow> lcd_bus s' = lcd_bus s @ map (Byte (dc_level s)) (u16s_bytes px) \<and>
     lcd_gpio s' = lcd_gpio s \<and> default_font s' = default_font s"

lemma paints_nil [simp]: "paints [] s s" by (simp add: paints_def u16s_bytes_def)

lemma paints_level: "paints px s s' \<Longrightarrow> dc_level s' = dc_level s"
  by (rule dc_level_cong) (simp add: paints_def)

lemma paints_trans: "paints px s s1 \<Longrightarrow> paints qx s1 s2 \<Longrightarrow> paints (px @ qx) s s2"
  using paints_level [of px s s1] by (simp add: paints_def u16s_bytes_def)

definition pixel_mode :: "panel \<Rightarrow> bool" where
  "pixel_mode p \<longleftrightarrow> pn_cmd p = 0x2C \<and> pn_args p = [] \<and> pn_little p"

lemma pixel_mode_put [simp]: "pixel_mode (put_pixel p c) = pixel_mode p"
  by (simp add: pixel_mode_def)

lemma pixel_mode_puts [simp]: "pixel_mode (foldl put_pixel p px) = pixel_mode p"
  by (simp add: pixel_mode_def)

lemma panel_pixels:
  "pixel_mode p \<Longrightarrow> foldl panel_step p (map (Byte True) (u16s_bytes px)) = foldl put_pixel p px"
proof (induction px arbitrary: p)
  case (Cons c px)
  have 1: "panel_data (ucast (drop_bit 8 c)) (panel_data (ucast c) p) = put_pixel p c"
    using Cons.prems by (cases p) (simp add: panel_data_def pixel_mode_def)
  show ?case using Cons by (simp add: u16s_bytes_def u16_bytes_def 1)
qed (simp add: u16s_bytes_def)

lemma paints_shown:
  "paints px s s' \<Longrightarrow> dc_level s \<Longrightarrow> pixel_mode (shown p0 s) \<Longrightarrow>
   shown p0 s' = foldl put_pixel (shown p0 s) px \<and> dc_level s'"
  using paints_level [of px s s'] by (simp add: paints_def shown_def panel_pixels)

lemma mask_12: "unat (x :: u16) < 4096 \<Longrightarrow> x AND 0xFFF = x"
proof -
  assume a: "unat x < 4096"
  have "unat (take_bit 12 x) = take_bit 12 (unat x)" by (rule unsigned_take_bit_eq)
  also have "\<dots> = unat x" using a by (simp add: take_bit_eq_mod)
  finally have "unat (take_bit 12 x) = unat x" .
  then have "take_bit 12 x = x" by (rule unsigned_word_eqI)
  moreover have "(0xFFF :: u16) = mask 12" by (simp add: mask_eq_exp_minus_1)
  ultimately show ?thesis by (simp add: take_bit_eq_mask)
qed

lemma dma_effect:
  assumes "unat len < 4096" and "unat len \<le> length mem"
  shows "\<exists>s'. LCD_SPIDMATrans mem len s = Some s' \<and> lcd_buffer s' = lcd_buffer s \<and>
    lcd_bus s' = lcd_bus s @ map (Byte (dc_level s)) (take (unat len) mem) \<and>
    lcd_gpio s' = lcd_gpio s \<and> default_font s' = default_font s \<and> lcd_wait_sem s' = lcd_wait_sem s"
  using assms
  by (simp add: LCD_SPIDMATrans_def spi_dma_run_def spi_dma_start_def mask_12 SPI0_IRQHandler_def
      lcd_sem_take_def bus_bytes_def dc_level_def)

lemma take_u16s: "take (2 * n) (u16s_bytes px) = u16s_bytes (take n px)"
proof (induction px arbitrary: n)
  case (Cons c px)
  then show ?case by (cases n) (simp_all add: u16s_bytes_def u16_bytes_def)
qed (simp add: u16s_bytes_def)

lemma dma_pixels:
  assumes "n \<le> length px" and "n < 2048" and "unat len = 2 * n"
  shows "\<exists>s'. LCD_SPIDMATrans (u16s_bytes px) len s = Some s' \<and> paints (take n px) s s' \<and>
    lcd_buffer s' = lcd_buffer s"
  using dma_effect [of len "u16s_bytes px" s] assms by (auto simp: paints_def take_u16s)

lemma buffer_loop_paints:
  assumes "lcd_buffer s = replicate LCD_BUFFER_SIZE c"
  shows "\<exists>s'. buffer_loop n s = Some s' \<and> paints (replicate (nat n) c) s s' \<and> lcd_buffer s' = lcd_buffer s"
  using assms
proof (induction n s rule: buffer_loop.induct)
  case (1 n s)
  define m where "m = (if n > int LCD_BUFFER_SIZE then LCD_BUFFER_SIZE else nat n)"
  define w where "w = (if n > int LCD_BUFFER_SIZE then of_nat (LCD_BUFFER_SIZE * 2) else word_of_int (n * 2) :: u16)"
  show ?case
  proof (cases "n > 0")
    case True
    have m: "m \<le> LCD_BUFFER_SIZE" "m < 2048" "unat w = 2 * m"
    proof -
      show "m \<le> LCD_BUFFER_SIZE" using True by (auto simp: m_def LCD_BUFFER_SIZE_def)
      then show "m < 2048" by (simp add: LCD_BUFFER_SIZE_def)
      obtain k where k: "n = int k" using True nonneg_int_cases [of n] by auto
      have "w = of_nat (m * 2)" unfolding w_def m_def k by simp
      then show "unat w = 2 * m" using \<open>m < 2048\<close> by (simp add: unat_of_nat del: of_nat_mult)
    qed
    obtain s1 where s1: "LCD_SPIDMATrans (u16s_bytes (lcd_buffer s)) w s = Some s1"
      "paints (replicate m c) s s1" "lcd_buffer s1 = lcd_buffer s"
      using dma_pixels [of m "lcd_buffer s" w s] m by (auto simp: "1.prems" min_absorb1)
    obtain s2 where s2: "buffer_loop (n - int LCD_BUFFER_SIZE) s1 = Some s2"
      "paints (replicate (nat (n - int LCD_BUFFER_SIZE)) c) s1 s2" "lcd_buffer s2 = lcd_buffer s1"
      using "1.IH" [OF True, of s1] s1 "1.prems" by (auto simp: w_def)
    have "replicate m c @ replicate (nat (n - int LCD_BUFFER_SIZE)) c = replicate (nat n) c"
      unfolding replicate_add [symmetric] using True by (auto simp: m_def)
    then show ?thesis
      using True s1(1,3) s2(1,3) paints_trans [OF s1(2) s2(2)]
      unfolding buffer_loop.simps [of n s] by (simp add: w_def)
  qed (simp add: buffer_loop.simps [of n s])
qed

section \<open>Rectangles and start-up\<close>

definition inside :: "u16 \<Rightarrow> u16 \<Rightarrow> u16 \<Rightarrow> u16 \<Rightarrow> nat \<times> nat \<Rightarrow> bool" where
  "inside x1 y1 x2 y2 q \<longleftrightarrow>
     unat x1 \<le> fst q \<and> fst q \<le> unat x2 \<and> unat y1 \<le> snd q \<and> snd q \<le> unat y2"

lemma open_window_fields [simp]:
  "pn_little (open_window x1 y1 x2 y2 p) = pn_little p" "pn_on (open_window x1 y1 x2 y2 p) = pn_on p"
  "pn_frame (open_window x1 y1 x2 y2 p) = pn_frame p"
  "pixel_mode (open_window x1 y1 x2 y2 p) = pn_little p"
  by (simp_all add: open_window_def pixel_mode_def)

lemma window_pixels:
  assumes "x1 \<le> x2" and "y1 \<le> y2"
    and "length px = (unat x2 - unat x1 + 1) * (unat y2 - unat y1 + 1)"
  shows "pn_frame (foldl put_pixel (open_window x1 y1 x2 y2 p) px) q =
    (if inside x1 y1 x2 y2 q
     then px ! ((snd q - unat y1) * (unat x2 - unat x1 + 1) + (fst q - unat x1)) else pn_frame p q)"
proof -
  define o1 where "o1 = open_window x1 y1 x2 y2 p"
  define w where "w = unat x2 - unat x1 + 1"
  define h where "h = unat y2 - unat y1 + 1"
  have le: "unat x1 \<le> unat x2" "unat y1 \<le> unat y2" using assms(1,2) by (simp_all add: word_le_nat_alt)
  have f: "pn_x o1 = pn_xs o1" "pn_y o1 = pn_ys o1" "pn_xs o1 \<le> pn_xe o1" "pn_ys o1 \<le> pn_ye o1"
    "win_width o1 = w" "win_height o1 = h" "in_window o1 q = inside x1 y1 x2 y2 q"
    using le by (simp_all add: o1_def open_window_def win_width_def win_height_def in_window_def
        inside_def w_def h_def)
  have len: "length px = w * h" using assms(3) by (simp only: w_def h_def)
  have i: "win_index o1 q = (snd q - unat y1) * w + (fst q - unat x1)"
    by (simp add: win_index_def f(5)) (simp add: o1_def open_window_def)
  have lt: "win_index o1 q < length px" if q: "inside x1 y1 x2 y2 q"
  proof -
    have a: "fst q - unat x1 < w" "snd q - unat y1 < h" using q by (auto simp: inside_def w_def h_def)
    have "(snd q - unat y1) * w + (fst q - unat x1) < (snd q - unat y1) * w + w" using a(1) by simp
    also have "\<dots> = (snd q - unat y1 + 1) * w" by simp
    also have "\<dots> \<le> h * w" using a(2) by (intro mult_le_mono1) simp
    finally show ?thesis by (simp add: i len mult.commute)
  qed
  have "pn_frame (foldl put_pixel o1 px) q =
      (if in_window o1 q \<and> win_index o1 q < length px then px ! win_index o1 q else pn_frame o1 q)"
    by (rule pixels_painted) (simp_all add: f len)
  then show ?thesis using lt i f(7) by (auto simp: o1_def w_def)
qed

text \<open>A state that has drawn \<open>px\<close> into a window, seen on the panel.\<close>

lemma window_drawn:
  assumes "paints px (lcd_window x1 y1 x2 y2 s) s'" and "pn_little (shown p0 s)"
    and "x1 \<le> x2" and "y1 \<le> y2"
    and "length px = (unat x2 - unat x1 + 1) * (unat y2 - unat y1 + 1)"
  shows "pn_frame (shown p0 s') q = (if inside x1 y1 x2 y2 q
      then px ! ((snd q - unat y1) * (unat x2 - unat x1 + 1) + (fst q - unat x1))
      else pn_frame (shown p0 s) q)"
    and "pn_little (shown p0 s')" and "pn_on (shown p0 s') = pn_on (shown p0 s)"
  using paints_shown [OF assms(1), of p0] assms(2) window_pixels [OF assms(3-5)] by simp_all

lemma fill_buffer_same [simp]:
  "shown p0 (fill_buffer c s) = shown p0 s" "lcd_bus (fill_buffer c s) = lcd_bus s"
  "dc_level (fill_buffer c s) = dc_level s" "lcd_gpio (fill_buffer c s) = lcd_gpio s"
  "default_font (fill_buffer c s) = default_font s"
  "lcd_buffer (fill_buffer c s) = replicate LCD_BUFFER_SIZE c"
  by (simp_all add: fill_buffer_def shown_def dc_level_def)

lemma paints_fill_buffer: "paints px (fill_buffer c s) s' = paints px s s'"
  by (simp add: paints_def)

lemma paints_fill [simp]: "paints [] s (fill_buffer c s)"
  by (simp add: paints_def u16s_bytes_def)

lemma area_drawn:
  assumes "paints [] (lcd_window x1 y1 x2 y2 s) t" and "lcd_buffer t = replicate LCD_BUFFER_SIZE c"
    and "pn_little (shown p0 s)" and "x1 \<le> x2" and "y1 \<le> y2"
    and "nat n = (unat x2 - unat x1 + 1) * (unat y2 - unat y1 + 1)"
  shows "\<exists>s'. buffer_loop n t = Some s' \<and> lcd_buffer s' = lcd_buffer t \<and>
    default_font s' = default_font s \<and>
    pn_little (shown p0 s') \<and> pn_on (shown p0 s') = pn_on (shown p0 s) \<and>
    (\<forall>q. pn_frame (shown p0 s') q = (if inside x1 y1 x2 y2 q then c else pn_frame (shown p0 s) q))"
proof -
  let ?w = "unat x2 - unat x1 + 1"
  obtain s' where s': "buffer_loop n t = Some s'" "paints (replicate (nat n) c) t s'"
    "lcd_buffer s' = lcd_buffer t"
    using buffer_loop_paints [OF assms(2), of n] by blast
  have pt: "paints (replicate (nat n) c) (lcd_window x1 y1 x2 y2 s) s'"
    using paints_trans [OF assms(1) s'(2)] by simp
  have l: "length (replicate (nat n) c) = ?w * (unat y2 - unat y1 + 1)" using assms(6) by simp
  note d = window_drawn [OF pt assms(3-5) l]
  have lt: "(snd q - unat y1) * ?w + (fst q - unat x1) < nat n" if "inside x1 y1 x2 y2 q" for q
  proof -
    have "fst q - unat x1 < ?w" "snd q - unat y1 \<le> unat y2 - unat y1" using that by (auto simp: inside_def)
    then have "(snd q - unat y1) * ?w + (fst q - unat x1) < (unat y2 - unat y1) * ?w + ?w"
      by (intro add_le_less_mono mult_le_mono1)
    then show ?thesis using assms(6) by (simp add: algebra_simps)
  qed
  have "pn_frame (shown p0 s') q = (if inside x1 y1 x2 y2 q then c else pn_frame (shown p0 s) q)" for q
    by (cases "inside x1 y1 x2 y2 q") (simp_all only: d(1) if_True if_False nth_replicate lt)
  moreover have "default_font s' = default_font s" using pt by (simp add: paints_def)
  ultimately show ?thesis using s' d(2,3) by blast
qed

lemma fill_rect_drawn:
  assumes "pn_little (shown p0 s)" and "x1 \<le> x2" and "y1 \<le> y2"
  shows "\<exists>s'. lcd_fill_rect x1 y1 x2 y2 c s = Some s' \<and> default_font s' = default_font s \<and>
    (length (lcd_buffer s) = LCD_BUFFER_SIZE \<longrightarrow> length (lcd_buffer s') = LCD_BUFFER_SIZE) \<and>
    pn_little (shown p0 s') \<and> pn_on (shown p0 s') = pn_on (shown p0 s) \<and>
    (\<forall>q. pn_frame (shown p0 s') q =
      (if inside x1 y1 x2 y2 q \<and> fst q < 240 \<and> snd q < 240 then c else pn_frame (shown p0 s) q))"
proof (cases "x1 \<ge> LCD_PIXEL_WIDTH \<or> y1 \<ge> LCD_PIXEL_HEIGHT")
  case True
  then have "\<not> (inside x1 y1 x2 y2 q \<and> fst q < 240 \<and> snd q < 240)" for q
    by (auto simp: inside_def lcd_size_defs word_le_nat_alt)
  then show ?thesis using True assms(1) by (auto simp: lcd_fill_rect_def Let_def)
next
  case False
  define xe where "xe = (if x2 \<ge> LCD_PIXEL_WIDTH then LCD_PIXEL_WIDTH - 1 else x2)"
  define ye where "ye = (if y2 \<ge> LCD_PIXEL_HEIGHT then LCD_PIXEL_HEIGHT - 1 else y2)"
  define n where "n = (uint xe - uint x1 + 1) * (uint ye - uint y1 + 1)"
  define t where "t = fill_buffer c (lcd_window x1 y1 xe ye s)"
  have e: "lcd_fill_rect x1 y1 x2 y2 c s = buffer_loop n t"
    using False by (simp add: lcd_fill_rect_def Let_def xe_def ye_def n_def t_def)
  have ue: "unat xe = min (unat x2) 239" "unat ye = min (unat y2) 239"
    by (auto simp: xe_def ye_def lcd_size_defs word_le_nat_alt)
  have le: "unat x1 \<le> unat xe" "unat y1 \<le> unat ye"
    using False assms(2,3) by (auto simp: ue lcd_size_defs word_le_nat_alt)
  have n: "nat n = (unat xe - unat x1 + 1) * (unat ye - unat y1 + 1)"
  proof -
    have "n = int (unat xe - unat x1 + 1) * int (unat ye - unat y1 + 1)"
      using le by (simp add: n_def of_nat_diff uint_nat algebra_simps del: of_nat_unat)
    then show ?thesis by (simp only: of_nat_mult [symmetric] nat_int)
  qed
  have i: "inside x1 y1 xe ye q \<longleftrightarrow> inside x1 y1 x2 y2 q \<and> fst q < 240 \<and> snd q < 240" for q
    by (auto simp: inside_def ue)
  have p: "paints [] (lcd_window x1 y1 xe ye s) t" and b: "lcd_buffer t = replicate LCD_BUFFER_SIZE c"
    by (simp_all add: t_def)
  show ?thesis
    unfolding e i [symmetric] using area_drawn [OF p b assms(1) le[folded word_le_nat_alt] n] b
    by (metis length_replicate)
qed

text \<open>The start-up sequence switches the panel on and to the byte order the driver sends.\<close>

lemma shown_frame_only:
  "lcd_bus s' = lcd_bus s \<Longrightarrow> shown p0 s' = shown p0 s"
  by (simp add: shown_def)

lemma delay_effect [simp]:
  "shown p0 (bus_delay n s) = shown p0 s" "dc_level (bus_delay n s) = dc_level s"
  by (simp_all add: bus_delay_def shown_def dc_level_def)

lemma command_shown:
  "shown p0 (lcd_command c s) = fold panel_data (snd c) (panel_command (fst c) (shown p0 s))"
proof -
  have "dc_level t \<Longrightarrow> shown p0 (fold LCD_WRITE_DATA ds t) = fold panel_data ds (shown p0 t)" for ds t
    by (induction ds arbitrary: t) (simp_all add: data_is_datas)
  then show ?thesis by (simp add: lcd_command_def)
qed

lemma commands_shown:
  "shown p0 (fold lcd_command cs s) =
     fold (\<lambda>c p. fold panel_data (snd c) (panel_command (fst c) p)) cs (shown p0 s)"
  by (induction cs arbitrary: s) (simp_all add: command_shown)

lemma panel_after_init:
  "pn_little (fold (\<lambda>c p. fold panel_data (snd c) (panel_command (fst c) p)) lcd_init_table p) \<and>
   pn_on (fold (\<lambda>c p. fold panel_data (snd c) (panel_command (fst c) p)) lcd_init_table p)"
  unfolding lcd_init_table_def by (simp add: panel_data_def panel_command_def)

text \<open>
  C21: Start-up: whatever the panel held, after \<open>lcd_hw_init\<close> it is switched on, expects the low byte of
  a pixel first, as the driver sends it, and shows white on all 240 by 240 pixels; the function always
  returns.
\<close>

theorem hw_init_shows_white:
  "\<exists>s'. lcd_hw_init s = Some s' \<and> pn_on (shown p0 s') \<and> pn_little (shown p0 s') \<and>
    pn_frame (shown p0 s') ` ({..<240} \<times> {..<240}) = {0xFFFF}"
proof -
  define t where "t = lcd_reg_init (SPI_Configuration (GPIO_Configuration (s\<lparr>lcd_wait_sem := 0\<rparr>)))"
  have t: "pn_little (shown p0 t) \<and> pn_on (shown p0 t)"
    using panel_after_init by (simp add: t_def lcd_reg_init_def Let_def commands_shown)
  obtain s' where "lcd_fill_rect 0 0 240 240 0xFFFF t = Some s'" "pn_little (shown p0 s')"
    "pn_on (shown p0 s') = pn_on (shown p0 t)"
    "\<forall>q. pn_frame (shown p0 s') q = (if inside 0 0 240 240 q \<and> fst q < 240 \<and> snd q < 240 then 0xFFFF
       else pn_frame (shown p0 t) q)"
    using fill_rect_drawn [of p0 t 0 240 0 240 "0xFFFF"] t by auto
  moreover have "pn_frame (shown p0 s') q = 0xFFFF" if "q \<in> {..<240} \<times> {..<240}" for q
    using calculation(4) that by (auto simp: inside_def)
  then have "pn_frame (shown p0 s') ` ({..<240} \<times> {..<240}) = {0xFFFF}"
    by (subst image_cong [OF refl, of _ _ "\<lambda>_. 0xFFFF"]) (auto simp: image_constant_conv lessThan_empty_iff)
  ultimately show ?thesis using t by (auto simp: lcd_hw_init_def t_def[symmetric])
qed

end
