(* ===== verification/LcdText.thy ===== *)
theory LcdText
  imports LcdProps
begin

text \<open>
  Characters, texts and images on the panel. An overlay is the pixels an operation sets; \<open>drew\<close> says
  that the panel shows the overlay on top of what it showed before.
\<close>

section \<open>Overlays\<close>

type_synonym overlay = "nat \<times> nat \<Rightarrow> u16 option"

definition drew :: "panel \<Rightarrow> lcd_sys \<Rightarrow> lcd_sys \<Rightarrow> overlay \<Rightarrow> bool" where
  "drew p0 s s' f \<longleftrightarrow> default_font s' = default_font s \<and> length (lcd_buffer s') = LCD_BUFFER_SIZE \<and>
     pn_little (shown p0 s') \<and> pn_on (shown p0 s') = pn_on (shown p0 s) \<and>
     (\<forall>q. pn_frame (shown p0 s') q = (case f q of Some c \<Rightarrow> c | None \<Rightarrow> pn_frame (shown p0 s) q))"

definition lcd_ready :: "panel \<Rightarrow> lcd_sys \<Rightarrow> bool" where
  "lcd_ready p0 s \<longleftrightarrow> pn_little (shown p0 s) \<and> length (lcd_buffer s) = LCD_BUFFER_SIZE"

lemma drew_ready: "drew p0 s s' f \<Longrightarrow> lcd_ready p0 s'"
  by (simp add: drew_def lcd_ready_def)

lemma drew_font: "drew p0 s s' f \<Longrightarrow> default_font s' = default_font s"
  by (simp add: drew_def)

lemma drew_nothing: "lcd_ready p0 s \<Longrightarrow> drew p0 s s Map.empty"
  by (simp add: drew_def lcd_ready_def)

lemma drew_trans: "drew p0 s s1 f \<Longrightarrow> drew p0 s1 s2 g \<Longrightarrow> drew p0 s s2 (f ++ g)"
  by (auto simp: drew_def map_add_def split: option.splits)

lemma drew_frame: "drew p0 s s' f \<Longrightarrow> f q = Some c \<Longrightarrow> pn_frame (shown p0 s') q = c"
  by (cases q) (simp add: drew_def)

lemma drew_outside: "drew p0 s s' f \<Longrightarrow> f q = None \<Longrightarrow> pn_frame (shown p0 s') q = pn_frame (shown p0 s) q"
  by (cases q) (simp add: drew_def)

text \<open>A rectangle of the given size whose pixel in column \<open>i\<close> and row \<open>j\<close> is \<open>px i j\<close>.\<close>

definition box :: "nat \<Rightarrow> nat \<Rightarrow> nat \<Rightarrow> nat \<Rightarrow> (nat \<Rightarrow> nat \<Rightarrow> u16) \<Rightarrow> overlay" where
  "box x y w h px q =
     (if x \<le> fst q \<and> fst q < x + w \<and> y \<le> snd q \<and> snd q < y + h
      then Some (px (fst q - x) (snd q - y)) else None)"

lemma box_cong:
  "(\<And>i j. i < w \<Longrightarrow> j < h \<Longrightarrow> px i j = py i j) \<Longrightarrow> box x y w h px = box x y w h py"
  by (rule ext) (auto simp: box_def)

lemma window_box:
  assumes "paints px (lcd_window x1 y1 x2 y2 s) s'" and "lcd_ready p0 s"
    and "length (lcd_buffer s') = LCD_BUFFER_SIZE"
    and "unat x1 + w = unat x2 + 1" and "unat y1 + h = unat y2 + 1" and "0 < w" and "0 < h"
    and "length px = w * h"
  shows "drew p0 s s' (box (unat x1) (unat y1) w h (\<lambda>i j. px ! (j * w + i)))"
proof -
  have w: "unat x2 - unat x1 + 1 = w" "unat y2 - unat y1 + 1 = h" using assms(4-7) by linarith+
  have le: "x1 \<le> x2" "y1 \<le> y2" using assms(4-7) by (simp_all add: word_le_nat_alt)
  have l: "length px = (unat x2 - unat x1 + 1) * (unat y2 - unat y1 + 1)"
    unfolding w by (rule assms(8))
  have r: "pn_little (shown p0 s)" using assms(2) by (simp add: lcd_ready_def)
  note d = window_drawn [OF assms(1) r le l, unfolded w]
  have i: "inside x1 y1 x2 y2 q \<longleftrightarrow>
      unat x1 \<le> fst q \<and> fst q < unat x1 + w \<and> unat y1 \<le> snd q \<and> snd q < unat y1 + h" for q
    unfolding inside_def assms(4,5) by auto
  have "pn_frame (shown p0 s') q = (case box (unat x1) (unat y1) w h (\<lambda>i j. px ! (j * w + i)) q of
      Some c \<Rightarrow> c | None \<Rightarrow> pn_frame (shown p0 s) q)" for q
    unfolding d(1) box_def i by simp
  then show ?thesis using d(2,3) assms(1,3) by (simp add: drew_def paints_def)
qed

lemma pixels_in: "2 * n \<le> length pic \<Longrightarrow> n \<le> length (u16s_of pic)"
  by (simp add: length_u16s_of less_eq_div_iff_mult_less_eq mult.commute)

text \<open>The last coordinate of a window of \<open>n\<close> pixels, as the driver computes it.\<close>

lemma last_coord:
  fixes x n :: u16
  assumes "0 < unat n" and "unat x + unat n \<le> 65536"
  shows "unat (x + n - 1) = unat x + unat n - 1"
proof -
  have "x + n - 1 = of_nat (unat x + unat n - 1)"
    using assms(1) by (simp add: of_nat_diff)
  also have "unat (of_nat (unat x + unat n - 1) :: u16) = unat x + unat n - 1"
    using assms by (simp add: unat_of_nat del: of_nat_add of_nat_diff)
  finally show ?thesis .
qed

section \<open>Images\<close>

lemma copy_pixels_ok:
  assumes "0 \<le> off" and "2 * (nat off + n) \<le> length pic" and "d + n \<le> length (lcd_buffer s)"
  shows "copy_pixels pic off d n s = Some (s\<lparr>lcd_buffer :=
    take d (lcd_buffer s) @ take n (drop (nat off) (u16s_of pic)) @ drop (d + n) (lcd_buffer s)\<rparr>)"
proof -
  have dr: "u16s_of (drop (2 * k) bs) = drop k (u16s_of bs)" for k bs
  proof (induction bs arbitrary: k rule: u16s_of.induct)
    case (1 a b bs)
    then show ?case by (cases k) simp_all
  qed (auto simp: drop_Cons' numeral_2_eq_2)
  have tk: "u16s_of (take (2 * k) bs) = take k (u16s_of bs)" for k bs
  proof (induction bs arbitrary: k rule: u16s_of.induct)
    case (1 a b bs)
    then show ?case by (cases k) simp_all
  qed (auto simp: take_Cons')
  show ?thesis using assms by (simp add: copy_pixels_def dr tk length_u16s_of)
qed

lemma paints_buffer [simp]: "paints [] s (s\<lparr>lcd_buffer := b\<rparr>)"
  by (simp add: paints_def u16s_bytes_def)

lemma image_loop_paints:
  assumes "0 \<le> off" and "2 * (nat off + nat len) \<le> length pic" and "length (lcd_buffer s) = LCD_BUFFER_SIZE"
  shows "\<exists>s'. image_loop pic off len s = Some s' \<and>
    paints (take (nat len) (drop (nat off) (u16s_of pic))) s s' \<and> length (lcd_buffer s') = LCD_BUFFER_SIZE"
  using assms
proof (induction pic off len s rule: image_loop.induct)
  case (1 pic off len s)
  define n where "n = (if len > int LCD_BUFFER_SIZE then LCD_BUFFER_SIZE else nat len)"
  define P where "P = u16s_of pic"
  show ?case
  proof (cases "len > 0")
    case True
    have n: "n \<le> LCD_BUFFER_SIZE" "n \<le> nat len" "n < 2048"
      using True by (auto simp: n_def LCD_BUFFER_SIZE_def)
    define b where "b = take n (drop (nat off) P) @ drop n (lcd_buffer s)"
    have "2 * (nat off + n) \<le> length pic" using "1.prems"(2) n(2) by simp
    then have lP: "n \<le> length P - nat off" using pixels_in [of "nat off + n" pic] by (simp add: P_def)
    have lb: "length b = LCD_BUFFER_SIZE" "take n b = take n (drop (nat off) P)"
      using n(1) "1.prems"(3) lP by (simp_all add: b_def)
    have c: "copy_pixels pic off 0 n s = Some (s\<lparr>lcd_buffer := b\<rparr>)"
      using "1.prems" n by (subst copy_pixels_ok) (simp_all add: b_def P_def)
    obtain s2 where s2: "LCD_SPIDMATrans (u16s_bytes b) (of_nat (n * 2)) (s\<lparr>lcd_buffer := b\<rparr>) = Some s2"
      "paints (take n (drop (nat off) P)) (s\<lparr>lcd_buffer := b\<rparr>) s2" "lcd_buffer s2 = b"
      using dma_pixels [of n b "of_nat (n * 2)" "s\<lparr>lcd_buffer := b\<rparr>"] n lb
      by (auto simp: unat_of_nat simp del: of_nat_mult)
    have p2: "paints (take n (drop (nat off) P)) s s2" using paints_trans [OF paints_buffer s2(2)] by simp
    have "\<exists>s'. image_loop pic (off + int LCD_BUFFER_SIZE) (len - int LCD_BUFFER_SIZE) s2 = Some s' \<and>
        paints (take (nat (len - int LCD_BUFFER_SIZE)) (drop (nat (off + int LCD_BUFFER_SIZE)) P)) s2 s' \<and>
        length (lcd_buffer s') = LCD_BUFFER_SIZE" (is "\<exists>s'. ?I s'")
    proof (cases "len > int LCD_BUFFER_SIZE")
      case big: True
      then show ?thesis
        using "1.IH" [OF True, of n "s\<lparr>lcd_buffer := b\<rparr>" s2] c s2 lb "1.prems"
        by (simp add: n_def P_def)
    next
      case False
      then show ?thesis using s2(3) lb by (simp add: image_loop.simps [of pic "off + int LCD_BUFFER_SIZE"])
    qed
    then obtain s3 where s3: "?I s3" by blast
    have e: "take n (drop (nat off) P) @
        take (nat (len - int LCD_BUFFER_SIZE)) (drop (nat (off + int LCD_BUFFER_SIZE)) P) =
        take (nat len) (drop (nat off) P)"
    proof (cases "len > int LCD_BUFFER_SIZE")
      case big: True
      have "nat len = n + nat (len - int LCD_BUFFER_SIZE)" "nat (off + int LCD_BUFFER_SIZE) = n + nat off"
        using big "1.prems"(1) by (simp_all add: n_def)
      then show ?thesis by (simp only: take_add drop_drop)
    qed (simp add: n_def)
    have "paints (take (nat len) (drop (nat off) P)) s s3"
      using paints_trans [OF p2 conjunct1 [OF conjunct2 [OF s3]]] unfolding e .
    then show ?thesis
      using True c s2(1,3) s3
      unfolding image_loop.simps [of pic off len s] by (simp add: n_def[symmetric] P_def[symmetric] Let_def)
  qed (use "1.prems"(3) in \<open>simp add: image_loop.simps [of pic off len s]\<close>)
qed

lemma coords_240:
  fixes x w :: u16
  assumes "0 < unat w" and "unat x + unat w \<le> 240"
  shows "\<not> LCD_PIXEL_WIDTH \<le> x" and "clip (x + w - 1) LCD_PIXEL_WIDTH = x + w - 1"
    and "unat (x + w - 1) + 1 = unat x + unat w"
proof -
  have u: "unat (x + w - 1) = unat x + unat w - 1" using assms by (intro last_coord) auto
  show "\<not> LCD_PIXEL_WIDTH \<le> x" using assms by (simp add: LCD_PIXEL_WIDTH_def word_le_nat_alt)
  show "clip (x + w - 1) LCD_PIXEL_WIDTH = x + w - 1"
    using assms by (auto simp: clip_def u LCD_PIXEL_WIDTH_def word_le_nat_alt)
  show "unat (x + w - 1) + 1 = unat x + unat w" using assms by (simp add: u)
qed

lemma sizes_equal: "LCD_PIXEL_HEIGHT = LCD_PIXEL_WIDTH"
  by (simp add: lcd_size_defs)

lemma image_drawn:
  assumes "lcd_ready p0 s" and "0 < unat w" and "0 < unat h" and "unat x + unat w \<le> 240"
    and "unat y + unat h \<le> 240" and "2 * (unat w * unat h) \<le> length pic"
  shows "\<exists>s'. lcd_draw_image pic x y w h s = Some s' \<and>
    drew p0 s s' (box (unat x) (unat y) (unat w) (unat h) (\<lambda>i j. u16s_of pic ! (j * unat w + i)))"
proof -
  note X = coords_240 [OF assms(2,4)] and Y = coords_240 [OF assms(3,5)]
  have n: "nat (uint w * uint h) = unat w * unat h" by (simp add: nat_mult_distrib)
  define t where "t = lcd_window x y (x + w - 1) (y + h - 1) s"
  have e: "lcd_draw_image pic x y w h s = image_loop pic 0 (uint w * uint h) t"
    using X Y by (simp add: lcd_draw_image_def t_def sizes_equal)
  obtain s' where s': "image_loop pic 0 (uint w * uint h) t = Some s'"
    "paints (take (unat w * unat h) (u16s_of pic)) t s'" "length (lcd_buffer s') = LCD_BUFFER_SIZE"
    using image_loop_paints [of 0 "uint w * uint h" pic t] assms(1,6) n
    by (auto simp: t_def lcd_ready_def)
  have "drew p0 s s' (box (unat x) (unat y) (unat w) (unat h)
      (\<lambda>i j. take (unat w * unat h) (u16s_of pic) ! (j * unat w + i)))"
    by (rule window_box [OF s'(2)[unfolded t_def] assms(1) s'(3)])
       (use X(3) Y(3) assms(2,3,6) in \<open>simp_all add: length_u16s_of\<close>)
  moreover have "take (unat w * unat h) (u16s_of pic) ! (j * unat w + i) = u16s_of pic ! (j * unat w + i)"
    if "i < unat w" "j < unat h" for i j
  proof (rule nth_take)
    have "j * unat w + i < (j + 1) * unat w" using that(1) by simp
    also have "\<dots> \<le> unat h * unat w" using that(2) by (intro mult_le_mono1) simp
    finally show "j * unat w + i < unat w * unat h" by (simp add: mult.commute)
  qed
  then have "box (unat x) (unat y) (unat w) (unat h) (\<lambda>i j. take (unat w * unat h) (u16s_of pic) ! (j * unat w + i)) =
      box (unat x) (unat y) (unat w) (unat h) (\<lambda>i j. u16s_of pic ! (j * unat w + i))"
    by (intro box_cong)
  ultimately have "drew p0 s s' (box (unat x) (unat y) (unat w) (unat h) (\<lambda>i j. u16s_of pic ! (j * unat w + i)))"
    by (simp only:)
  then show ?thesis using s'(1) e by auto
qed

section \<open>The nine-patch\<close>

lemma corner_buffer:
  assumes "length (lcd_buffer s) = LCD_BUFFER_SIZE" and "r \<le> 32"
    and "\<And>i. i < r \<Longrightarrow> 0 \<le> idx (int i) \<and> 2 * (nat (idx (int i)) + r) \<le> length pic"
  shows "\<exists>s'. for_loop (\<lambda>i. copy_pixels pic (idx (int i)) (i * r) r) [0..<r] s = Some s' \<and>
    paints [] s s' \<and> length (lcd_buffer s') = LCD_BUFFER_SIZE \<and>
    (\<forall>k < r * r. lcd_buffer s' ! k = u16s_of pic ! (nat (idx (int (k div r))) + k mod r))"
    (is "\<exists>s'. ?L s' \<and> _")
proof -
  let ?P = "\<lambda>n s'. paints [] s s' \<and> length (lcd_buffer s') = LCD_BUFFER_SIZE \<and>
    (\<forall>k < n * r. lcd_buffer s' ! k = u16s_of pic ! (nat (idx (int (k div r))) + k mod r))"
  have "\<exists>s'. ?L s' \<and> ?P r s'"
  proof (rule for_loop_upt [where P = ?P])
    show "?P 0 s" using assms(1) by simp
  next
    fix n t assume n: "n < r" and P: "?P n t"
    define b where "b = take (n * r) (lcd_buffer t) @
      take r (drop (nat (idx (int n))) (u16s_of pic)) @ drop (n * r + r) (lcd_buffer t)"
    have "n * r + r = (n + 1) * r" by simp
    also have "\<dots> \<le> 32 * 32" using n assms(2) by (intro mult_le_mono) auto
    finally have le: "n * r + r \<le> length (lcd_buffer t)" using P by (simp add: LCD_BUFFER_SIZE_def)
    have src: "nat (idx (int n)) + r \<le> length (u16s_of pic)"
      using assms(3) [OF n] by (intro pixels_in) blast
    have c: "copy_pixels pic (idx (int n)) (n * r) r t = Some (t\<lparr>lcd_buffer := b\<rparr>)"
      unfolding b_def by (rule copy_pixels_ok) (use assms(3) [OF n] le in auto)
    have at: "b ! k = (if n * r \<le> k \<and> k < n * r + r then u16s_of pic ! (nat (idx (int n)) + (k - n * r))
        else lcd_buffer t ! k)" if "k < length (lcd_buffer t)" for k
      unfolding b_def using nth_copied [OF le src that] .
    have "b ! k = u16s_of pic ! (nat (idx (int (k div r))) + k mod r)" if k: "k < Suc n * r" for k
    proof (cases "k < n * r")
      case True
      then show ?thesis using at [of k] P le by simp
    next
      case False
      then have "k = n * r + (k - n * r)" "k - n * r < r" using k by auto
      then have "k div r = n" "k mod r = k - n * r"
        by (metis div_mult_self3 div_less add.right_neutral n not_less_zero add.commute,
            metis mod_mult_self3 mod_less add.commute)
      then show ?thesis using at [of k] False k le by simp
    qed
    moreover have "length b = LCD_BUFFER_SIZE" using le src P by (simp add: b_def)
    moreover have "paints [] s (t\<lparr>lcd_buffer := b\<rparr>)" using P paints_trans [of "[]" s t "[]"] by simp
    ultimately show "\<exists>s'. copy_pixels pic (idx (int n)) (n * r) r t = Some s' \<and> ?P (Suc n) s'"
      using c by simp
  qed
  then show ?thesis by blast
qed

lemma paints_window:
  assumes "paints [] s t"
  shows "shown p0 t = shown p0 s" and "lcd_ready p0 t \<longleftrightarrow> pn_little (shown p0 s) \<and> length (lcd_buffer t) = LCD_BUFFER_SIZE"
    and "drew p0 t t' f \<Longrightarrow> drew p0 s t' f"
proof -
  show s: "shown p0 t = shown p0 s" using assms by (simp add: paints_def shown_def u16s_bytes_def)
  then show "lcd_ready p0 t \<longleftrightarrow> pn_little (shown p0 s) \<and> length (lcd_buffer t) = LCD_BUFFER_SIZE"
    by (simp add: lcd_ready_def)
  show "drew p0 t t' f \<Longrightarrow> drew p0 s t' f"
    using assms unfolding drew_def s by (simp add: paints_def)
qed

lemma corner_drawn:
  assumes "lcd_ready p0 s" and "0 < unat r" and "unat r \<le> 32"
    and "\<And>i. i < unat r \<Longrightarrow> idx (int i) = int (nidx i) \<and> 2 * (nidx i + unat r) \<le> length pic"
    and "unat x + unat r \<le> 240" and "unat y + unat r \<le> 240"
  shows "\<exists>s'. patch_corner pic idx r x y s = Some s' \<and>
    lcd_buffer s' ! 0 = u16s_of pic ! nidx 0 \<and>
    drew p0 s s' (box (unat x) (unat y) (unat r) (unat r) (\<lambda>i j. u16s_of pic ! (nidx j + i)))"
proof -
  let ?r = "unat r"
  obtain t where t: "for_loop (\<lambda>i. copy_pixels pic (idx (int i)) (i * ?r) ?r) [0..<?r] s = Some t"
    "paints [] s t" "length (lcd_buffer t) = LCD_BUFFER_SIZE"
    "\<forall>k < ?r * ?r. lcd_buffer t ! k = u16s_of pic ! (nidx (k div ?r) + k mod ?r)"
  proof -
    obtain t where t: "for_loop (\<lambda>i. copy_pixels pic (idx (int i)) (i * ?r) ?r) [0..<?r] s = Some t"
      "paints [] s t" "length (lcd_buffer t) = LCD_BUFFER_SIZE"
      "\<forall>k < ?r * ?r. lcd_buffer t ! k = u16s_of pic ! (nat (idx (int (k div ?r))) + k mod ?r)"
      using corner_buffer [where s = s and r = ?r and idx = idx and pic = pic] assms(1,3,4)
      unfolding lcd_ready_def by auto
    moreover have "nat (idx (int (k div ?r))) = nidx (k div ?r)" if "k < ?r * ?r" for k
      using assms(4) less_mult_imp_div_less [OF that] by simp
    ultimately show ?thesis using that by simp
  qed
  have rr: "?r * ?r \<le> 32 * 32" using assms(3) by (intro mult_le_mono)
  have "unat (r * r * 2) = 2 * (?r * ?r)"
    using rr by (simp add: unat_word_ariths)
  moreover have tr: "?r * ?r \<le> length (lcd_buffer t)" using rr t(3) by (simp add: LCD_BUFFER_SIZE_def)
  ultimately obtain s' where s': "LCD_SPIDMATrans (u16s_bytes (lcd_buffer t)) (r * r * 2)
      (lcd_window x y (x + r - 1) (y + r - 1) t) = Some s'"
    "paints (take (?r * ?r) (lcd_buffer t)) (lcd_window x y (x + r - 1) (y + r - 1) t) s'"
    "lcd_buffer s' = lcd_buffer t"
    using dma_pixels [of "?r * ?r" "lcd_buffer t" "r * r * 2" "lcd_window x y (x + r - 1) (y + r - 1) t"] rr
    by auto
  have rt: "lcd_ready p0 t" using assms(1) t(3) paints_window(2) [OF t(2)] by (simp add: lcd_ready_def)
  note X = coords_240(3) [OF assms(2,5)] and Y = coords_240(3) [OF assms(2,6)]
  have d: "drew p0 t s' (box (unat x) (unat y) ?r ?r (\<lambda>i j. take (?r * ?r) (lcd_buffer t) ! (j * ?r + i)))"
    by (rule window_box [OF s'(2) rt]) (use X Y assms(2) tr s'(3) t(3) in simp_all)
  have px: "take (?r * ?r) (lcd_buffer t) ! (j * ?r + i) = u16s_of pic ! (nidx j + i)"
    if "i < ?r" "j < ?r" for i j
  proof -
    have "j * ?r + i < (j + 1) * ?r" using that(1) by simp
    also have "\<dots> \<le> ?r * ?r" using that(2) by (intro mult_le_mono1) simp
    finally have "j * ?r + i < ?r * ?r" .
    moreover have "(j * ?r + i) div ?r = j" "(j * ?r + i) mod ?r = i" using that(1) by simp_all
    ultimately show ?thesis using t(4) by simp
  qed
  have "box (unat x) (unat y) ?r ?r (\<lambda>i j. take (?r * ?r) (lcd_buffer t) ! (j * ?r + i)) =
      box (unat x) (unat y) ?r ?r (\<lambda>i j. u16s_of pic ! (nidx j + i))"
    by (rule box_cong) (rule px)
  then have "drew p0 s s' (box (unat x) (unat y) ?r ?r (\<lambda>i j. u16s_of pic ! (nidx j + i)))"
    using d paints_window(3) [OF t(2)] by simp
  moreover have "lcd_buffer s' ! 0 = u16s_of pic ! nidx 0"
    using t(4) s'(3) assms(2) by (auto dest: spec [of _ 0])
  moreover have "patch_corner pic idx r x y s = Some s'" using t(1) s'(1) by (simp add: patch_corner_def)
  ultimately show ?thesis by blast
qed

lemma area_box:
  assumes "paints [] (lcd_window x1 y1 x2 y2 s) t" and "lcd_buffer t = replicate LCD_BUFFER_SIZE c"
    and "pn_little (shown p0 s)" and "unat x1 + w = unat x2 + 1" and "unat y1 + h = unat y2 + 1"
    and "0 < w" and "0 < h" and "nat n = w * h"
  shows "\<exists>s'. buffer_loop n t = Some s' \<and> lcd_buffer s' = lcd_buffer t \<and>
    drew p0 s s' (box (unat x1) (unat y1) w h (\<lambda>i j. c))"
proof -
  have le: "x1 \<le> x2" "y1 \<le> y2" using assms(4-7) by (simp_all add: word_le_nat_alt)
  have w: "unat x2 - unat x1 + 1 = w" "unat y2 - unat y1 + 1 = h" using assms(4-7) by linarith+
  have n: "nat n = (unat x2 - unat x1 + 1) * (unat y2 - unat y1 + 1)" unfolding w by (rule assms(8))
  have i: "inside x1 y1 x2 y2 q \<longleftrightarrow>
      unat x1 \<le> fst q \<and> fst q < unat x1 + w \<and> unat y1 \<le> snd q \<and> snd q < unat y1 + h" for q
    unfolding inside_def assms(4,5) by auto
  obtain s' where s': "buffer_loop n t = Some s'" "lcd_buffer s' = lcd_buffer t"
    "default_font s' = default_font s" "pn_little (shown p0 s')" "pn_on (shown p0 s') = pn_on (shown p0 s)"
    "\<forall>q. pn_frame (shown p0 s') q = (if inside x1 y1 x2 y2 q then c else pn_frame (shown p0 s) q)"
    using area_drawn [OF assms(1-3) le n] by blast
  have "pn_frame (shown p0 s') q = (case box (unat x1) (unat y1) w h (\<lambda>i j. c) q of
      Some c \<Rightarrow> c | None \<Rightarrow> pn_frame (shown p0 s) q)" for q
    using s'(6) unfolding box_def i by (cases q) simp
  then have "drew p0 s s' (box (unat x1) (unat y1) w h (\<lambda>i j. c))"
    using s' assms(2) by (simp add: drew_def)
  then show ?thesis using s' by blast
qed

text \<open>The scaled image: corners at their size, everything else in the colour of one pixel of the image.\<close>

definition nine_patch :: "u16 list \<Rightarrow> nat \<Rightarrow> nat \<Rightarrow> nat \<Rightarrow> nat \<Rightarrow> nat \<Rightarrow> nat \<Rightarrow> nat \<Rightarrow> u16" where
  "nine_patch P sw sh r w h i j =
     (let row = (if j < r then Some j else if h - r \<le> j then Some (sh - r + (j - (h - r))) else None);
          col = (if i < r then Some i else if w - r \<le> i then Some (sw - r + (i - (w - r))) else None)
      in case (row, col) of (Some b, Some a) \<Rightarrow> P ! (b * sw + a) | _ \<Rightarrow> P ! ((sh - r) * sw + (sw - r)))"

lemma patch_coords:
  fixes x w r :: u16
  assumes "unat x + unat w \<le> 240" and "2 * unat r < unat w" and "0 < unat r"
  shows "unat (x + r) = unat x + unat r" and "unat (x + w - r) = unat x + unat w - unat r"
    and "unat (x + w - r - 1) + 1 = unat x + unat w - unat r"
    and "unat (x + w - 1) + 1 = unat x + unat w" and "unat (x + r - 1) + 1 = unat x + unat r"
proof -
  have of: "unat (of_nat k :: u16) = k" if "k \<le> 240" for k using that by (simp add: unat_of_nat)
  have e: "x + r = of_nat (unat x + unat r)" "x + w - r = of_nat (unat x + unat w - unat r)"
    using assms by (simp_all add: of_nat_diff)
  show "unat (x + r) = unat x + unat r" unfolding e(1) by (rule of) (use assms in linarith)
  show "unat (x + w - r) = unat x + unat w - unat r" unfolding e(2) by (rule of) (use assms in linarith)
  have "x + w - r - 1 = of_nat (unat x + unat w - unat r - 1)" using assms by (simp add: of_nat_diff)
  moreover have "unat (of_nat (unat x + unat w - unat r - 1) :: u16) = unat x + unat w - unat r - 1"
    by (rule of) (use assms in linarith)
  ultimately have "unat (x + w - r - 1) = unat x + unat w - unat r - 1" by (simp only:)
  then show "unat (x + w - r - 1) + 1 = unat x + unat w - unat r" using assms by linarith
  show "unat (x + w - 1) + 1 = unat x + unat w" using assms by (intro coords_240(3)) auto
  show "unat (x + r - 1) + 1 = unat x + unat r" using assms by (intro coords_240(3)) auto
qed

lemma nine_overlay:
  assumes "2 * r < w" and "2 * r < h" and "0 < r" and "r \<le> sw" and "r \<le> sh"
  shows "box x y r r (\<lambda>i j. P ! (j * sw + i)) ++
    box (x + w - r) y r r (\<lambda>i j. P ! (j * sw + (sw - r) + i)) ++
    box x (y + h - r) r r (\<lambda>i j. P ! ((sh - r + j) * sw + i)) ++
    box (x + w - r) (y + h - r) r r (\<lambda>i j. P ! ((sh - r + j) * sw + (sw - r) + i)) ++
    box (x + r) y (w - 2 * r) r (\<lambda>i j. P ! ((sh - r) * sw + (sw - r))) ++
    box (x + r) (y + h - r) (w - 2 * r) r (\<lambda>i j. P ! ((sh - r) * sw + (sw - r))) ++
    box x (y + r) w (h - 2 * r) (\<lambda>i j. P ! ((sh - r) * sw + (sw - r))) =
    box x y w h (nine_patch P sw sh r w h)"
proof (rule ext)
  fix q :: "nat \<times> nat"
  obtain a b where q: "q = (a, b)" by (cases q)
  obtain w' h' where wh: "w = 2 * r + Suc w'" "h = 2 * r + Suc h'"
    using assms(1,2) by (metis less_iff_Suc_add add_Suc_right)
  have n: "n + (2 * r + Suc k) - r = n + (r + Suc k)" "2 * r + Suc k - 2 * r = Suc k"
    "2 * r + Suc k - r = r + Suc k" for n k by simp_all
  consider "a < x" | "x + w \<le> a" | "b < y" | "y + h \<le> b"
    | "x \<le> a" "a < x + w" "y \<le> b" "b < y + h" by linarith
  then show "(box x y r r (\<lambda>i j. P ! (j * sw + i)) ++
    box (x + w - r) y r r (\<lambda>i j. P ! (j * sw + (sw - r) + i)) ++
    box x (y + h - r) r r (\<lambda>i j. P ! ((sh - r + j) * sw + i)) ++
    box (x + w - r) (y + h - r) r r (\<lambda>i j. P ! ((sh - r + j) * sw + (sw - r) + i)) ++
    box (x + r) y (w - 2 * r) r (\<lambda>i j. P ! ((sh - r) * sw + (sw - r))) ++
    box (x + r) (y + h - r) (w - 2 * r) r (\<lambda>i j. P ! ((sh - r) * sw + (sw - r))) ++
    box x (y + r) w (h - 2 * r) (\<lambda>i j. P ! ((sh - r) * sw + (sw - r)))) q =
    box x y w h (nine_patch P sw sh r w h) q"
  proof cases
    case 5
    then obtain i j where ij: "a = x + i" "b = y + j" "i < w" "j < h"
      by (metis add_less_cancel_left le_Suc_ex)
    have I: "i < r \<or> r \<le> i \<and> i < r + Suc w' \<or> r + Suc w' \<le> i"
      and J: "j < r \<or> r \<le> j \<and> j < r + Suc h' \<or> r + Suc h' \<le> j" by linarith+
    then show ?thesis
      using ij(3,4) assms(3-5) unfolding q ij(1,2) wh n
      by (elim disjE conjE) (simp_all add: map_add_def box_def nine_patch_def Let_def n ac_simps)
  qed (auto simp: map_add_def box_def q wh n)
qed

lemma patch_index:
  fixes j r sw sh L :: nat
  assumes "j < r" and "r \<le> sw" and "r \<le> sh" and "2 * (sw * sh) \<le> L"
  shows "2 * (j * sw + r) \<le> L" and "2 * (j * sw + (sw - r) + r) \<le> L"
    and "2 * ((sh - r + j) * sw + r) \<le> L" and "2 * ((sh - r + j) * sw + (sw - r) + r) \<le> L"
proof -
  have k: "2 * (k * sw + m) \<le> L" if "k < sh" "m \<le> sw" for k m
  proof -
    have "k * sw + m \<le> (k + 1) * sw" using that(2) by (simp add: distrib_right)
    also have "\<dots> \<le> sh * sw" using that(1) by (intro mult_le_mono1) simp
    finally show ?thesis using assms(4) by (simp add: mult.commute)
  qed
  show "2 * (j * sw + r) \<le> L" "2 * ((sh - r + j) * sw + r) \<le> L"
    by (rule k; use assms(1-3) in simp)+
  show "2 * (j * sw + (sw - r) + r) \<le> L" "2 * ((sh - r + j) * sw + (sw - r) + r) \<le> L"
    using assms k [of j "sw - r + r"] k [of "sh - r + j" "sw - r + r"] by (simp_all add: add.assoc)
qed

lemma nine_patch_drawn:
  assumes ready: "lcd_ready p0 s" and r: "0 < unat r" "unat r \<le> 32" "unat r \<le> unat sw" "unat r \<le> unat sh"
    and size: "2 * unat r < unat w" "2 * unat r < unat h" "unat x + unat w \<le> 240" "unat y + unat h \<le> 240"
    and pic: "2 * (unat sw * unat sh) \<le> length pic"
  shows "\<exists>s'. lcd_draw_image9patch pic sw sh r x y w h s = Some s' \<and>
    drew p0 s s' (box (unat x) (unat y) (unat w) (unat h)
      (nine_patch (u16s_of pic) (unat sw) (unat sh) (unat r) (unat w) (unat h)))"
proof -
  let ?P = "u16s_of pic" and ?r = "unat r" and ?sw = "unat sw" and ?sh = "unat sh"
  let ?X = "unat x" and ?Y = "unat y" and ?W = "unat w" and ?H = "unat h"
  let ?st = "?P ! ((?sh - ?r) * ?sw + (?sw - ?r))"
  note X = patch_coords [OF size(3,1) r(1)] and Y = patch_coords [OF size(4,2) r(1)]
  have nr: "\<not> LCD_PIXEL_WIDTH \<le> x" "\<not> LCD_PIXEL_HEIGHT \<le> y" "\<not> 32 < r"
    using size r by (simp_all add: lcd_size_defs word_le_nat_alt word_less_nat_alt)
  note ix = patch_index [OF _ r(3,4) pic]
  have I1: "int i * uint sw = int (i * ?sw)" for i by simp
  have I2: "(int i + 1) * uint sw - uint r = int (i * ?sw + (?sw - ?r))" for i
    using r by (simp add: of_nat_diff distrib_right)
  have d: "uint sh - uint r + int i = int (?sh - ?r + i)" for i using r by (simp add: of_nat_diff)
  have I3: "(uint sh - uint r + int i) * uint sw = int ((?sh - ?r + i) * ?sw)" for i
    unfolding d by simp
  have I4: "(uint sh - uint r + int i + 1) * uint sw - uint r = int ((?sh - ?r + i) * ?sw + (?sw - ?r))" for i
    unfolding d using r by (simp add: of_nat_diff distrib_right)
  have A: "?X + ?r \<le> 240" "?Y + ?r \<le> 240" "unat (x + w - r) + ?r \<le> 240" "unat (y + h - r) + ?r \<le> 240"
    using size X Y by linarith+
  obtain s1 where s1: "patch_corner pic (\<lambda>i. i * uint sw) r x y s = Some s1"
    "drew p0 s s1 (box ?X ?Y ?r ?r (\<lambda>i j. ?P ! (j * ?sw + i)))"
    using corner_drawn [where idx = "\<lambda>i. i * uint sw" and nidx = "\<lambda>j. j * ?sw", OF ready r(1,2) _ A(1,2)]
      I1 ix(1) by blast
  obtain s2 where s2: "patch_corner pic (\<lambda>i. (i + 1) * uint sw - uint r) r (x + w - r) y s1 = Some s2"
    "drew p0 s1 s2 (box (unat (x + w - r)) ?Y ?r ?r (\<lambda>i j. ?P ! (j * ?sw + (?sw - ?r) + i)))"
    using corner_drawn [where idx = "\<lambda>i. (i + 1) * uint sw - uint r" and nidx = "\<lambda>j. j * ?sw + (?sw - ?r)", OF drew_ready [OF s1(2)] r(1,2) _ A(3,2)]
      I2 ix(2) by blast
  obtain s3 where s3: "patch_corner pic (\<lambda>i. (uint sh - uint r + i) * uint sw) r x (y + h - r) s2 = Some s3"
    "drew p0 s2 s3 (box ?X (unat (y + h - r)) ?r ?r (\<lambda>i j. ?P ! ((?sh - ?r + j) * ?sw + i)))"
    using corner_drawn [where idx = "\<lambda>i. (uint sh - uint r + i) * uint sw" and nidx = "\<lambda>j. (?sh - ?r + j) * ?sw", OF drew_ready [OF s2(2)] r(1,2) _ A(1,4)]
      I3 ix(3) by blast
  obtain s4 where s4: "patch_corner pic (\<lambda>i. (uint sh - uint r + i + 1) * uint sw - uint r) r (x + w - r) (y + h - r) s3 = Some s4"
    "lcd_buffer s4 ! 0 = ?P ! ((?sh - ?r + 0) * ?sw + (?sw - ?r))"
    "drew p0 s3 s4 (box (unat (x + w - r)) (unat (y + h - r)) ?r ?r
       (\<lambda>i j. ?P ! ((?sh - ?r + j) * ?sw + (?sw - ?r) + i)))"
    using corner_drawn [where idx = "\<lambda>i. (uint sh - uint r + i + 1) * uint sw - uint r" and nidx = "\<lambda>j. (?sh - ?r + j) * ?sw + (?sw - ?r)", OF drew_ready [OF s3(2)] r(1,2) _ A(3,4)]
      I4 ix(4) by blast
  have len: "lcd_buffer s4 \<noteq> []" using drew_ready [OF s4(3)] by (auto simp: lcd_ready_def LCD_BUFFER_SIZE_def)
  have rim: "nat (uint r * (uint w - 2 * uint r)) = (?W - 2 * ?r) * ?r"
    and mid: "nat ((uint h - 2 * uint r) * uint w) = ?W * (?H - 2 * ?r)"
  proof -
    have "uint w - 2 * uint r = int (?W - 2 * ?r)" "uint h - 2 * uint r = int (?H - 2 * ?r)"
      using size by (simp_all add: of_nat_diff)
    then show "nat (uint r * (uint w - 2 * uint r)) = (?W - 2 * ?r) * ?r"
      "nat ((uint h - 2 * uint r) * uint w) = ?W * (?H - 2 * ?r)"
      by (simp_all add: nat_mult_distrib)
  qed
  define t5 where "t5 = lcd_window (x + r) y (x + w - r - 1) (y + r - 1) (fill_buffer ?st s4)"
  have ready4: "lcd_ready p0 (fill_buffer ?st s4)"
    using drew_ready [OF s4(3)] by (simp add: lcd_ready_def)
  obtain s5 where s5: "buffer_loop (uint r * (uint w - 2 * uint r)) t5 = Some s5"
    "lcd_buffer s5 = replicate LCD_BUFFER_SIZE ?st"
    "drew p0 (fill_buffer ?st s4) s5 (box (unat (x + r)) ?Y (?W - 2 * ?r) ?r (\<lambda>i j. ?st))"
    using area_box [of "x + r" y "x + w - r - 1" "y + r - 1" "fill_buffer ?st s4" t5 ?st p0 "?W - 2 * ?r" ?r
        "uint r * (uint w - 2 * uint r)"] ready4 X Y size r rim
    by (auto simp: t5_def lcd_ready_def)
  have ready5: "lcd_ready p0 s5" using drew_ready [OF s5(3)] .
  obtain s6 where s6: "buffer_loop (uint r * (uint w - 2 * uint r))
      (lcd_window (x + r) (y + h - r) (x + w - r - 1) (y + h - 1) s5) = Some s6"
    "lcd_buffer s6 = replicate LCD_BUFFER_SIZE ?st"
    "drew p0 s5 s6 (box (unat (x + r)) (unat (y + h - r)) (?W - 2 * ?r) ?r (\<lambda>i j. ?st))"
    using area_box [of "x + r" "y + h - r" "x + w - r - 1" "y + h - 1" s5 _ ?st p0 "?W - 2 * ?r" ?r
        "uint r * (uint w - 2 * uint r)", OF paints_nil] ready5 s5(2) X Y size r rim
    by (auto simp: lcd_ready_def)
  have ready6: "lcd_ready p0 s6" using drew_ready [OF s6(3)] .
  obtain s7 where s7: "buffer_loop ((uint h - 2 * uint r) * uint w)
      (lcd_window x (y + r) (x + w - 1) (y + h - r - 1) s6) = Some s7"
    "drew p0 s6 s7 (box ?X (unat (y + r)) ?W (?H - 2 * ?r) (\<lambda>i j. ?st))"
    using area_box [of x "y + r" "x + w - 1" "y + h - r - 1" s6 _ ?st p0 ?W "?H - 2 * ?r"
        "(uint h - 2 * uint r) * uint w", OF paints_nil] ready6 s6(2) X Y size r mid
    by (auto simp: lcd_ready_def)
  have e: "lcd_draw_image9patch pic sw sh r x y w h s = Some s7"
    using nr s1(1) s2(1) s3(1) s4(1,2) len s5(1) s6(1) s7(1)
    by (simp add: lcd_draw_image9patch_def Let_def t5_def)
  have d5: "drew p0 s4 s5 (box (unat (x + r)) ?Y (?W - 2 * ?r) ?r (\<lambda>i j. ?st))"
    by (rule paints_window(3) [OF paints_fill s5(3)])
  note chain = drew_trans [OF drew_trans [OF drew_trans [OF drew_trans [OF drew_trans [OF
    drew_trans [OF s1(2) s2(2)] s3(2)] s4(3)] d5] s6(3)] s7(2)]
  show ?thesis
    using e chain nine_overlay [OF size(1,2) r(1,3,4), of ?X ?Y ?P] unfolding X(1,2) Y(1,2) by auto
qed

section \<open>Characters\<close>

text \<open>
  The reference: the table holds a character row by row, each row in whole bytes, the highest bit
  of a byte being its leftmost pixel.
\<close>

definition glyph :: "font_t \<Rightarrow> u8 \<Rightarrow> nat \<Rightarrow> nat \<Rightarrow> bool" where
  "glyph f ch i j =
     bit (font_table f ! ((unat ch - 32) * unat (font_height f) * char_bytes f + char_bytes f * j + i div 8))
       (7 - i mod 8)"

definition font_ok :: "font_t \<Rightarrow> bool" where
  "font_ok f \<longleftrightarrow> 0 < unat (font_width f) \<and> unat (font_width f) \<le> 24 \<and> 0 < unat (font_height f) \<and>
     unat (font_height f) \<le> 240 \<and> unat (font_width f) * unat (font_height f) \<le> LCD_BUFFER_SIZE"

definition char_ok :: "font_t \<Rightarrow> u8 \<Rightarrow> bool" where
  "char_ok f ch \<longleftrightarrow> 32 \<le> unat ch \<and>
     (unat ch - 31) * (unat (font_height f) * char_bytes f) \<le> length (font_table f)"

lemma font_bytes: "font_ok f \<Longrightarrow> char_bytes f \<in> {1, 2, 3} \<and> unat (font_width f) \<le> 8 * char_bytes f"
proof -
  assume "font_ok f"
  then have "0 < unat (font_width f)" "unat (font_width f) \<le> 24" by (simp_all add: font_ok_def)
  then have "char_bytes f \<le> 3" "1 \<le> char_bytes f" unfolding char_bytes_def by linarith+
  moreover have "unat (font_width f) \<le> 8 * char_bytes f" unfolding char_bytes_def by linarith
  ultimately show ?thesis by auto
qed

lemma line_bits:
  assumes "nb \<in> {1, 2, 3}" and "k + nb \<le> length tbl"
  shows "\<exists>l. glyph_line tbl (int k) nb = Some l \<and>
    (\<forall>i < 8 * nb. bit l (8 * nb - 1 - i) = bit (tbl ! (k + i div 8)) (7 - i mod 8))"
proof -
  have b: "bit (ucast (x :: u8) :: u32) m \<longleftrightarrow> bit x m" for x m by (auto simp: bit_simps dest: bit_u8_lt)
  have p: "bit (push_bit n (ucast (x :: u8)) :: u32) m \<longleftrightarrow> n \<le> m \<and> m < 32 \<and> bit x (m - n)" for x n m
    by (auto simp: bit_push_bit_iff b)
  have hi: "\<not> bit (x :: u8) m" if "8 \<le> m" for x m using that bit_u8_lt [of x m] by auto
  define l where "l = (if nb = 1 then ucast (tbl ! k)
    else if nb = 2 then push_bit 8 (ucast (tbl ! k)) OR ucast (tbl ! (k + 1))
    else push_bit 16 (ucast (tbl ! k)) OR push_bit 8 (ucast (tbl ! (k + 1))) OR ucast (tbl ! (k + 2)) :: u32)"
  have "glyph_line tbl (int k) nb = Some l"
    using assms by (auto simp: glyph_line_def l_def)
  moreover have "bit l (8 * nb - 1 - i) = bit (tbl ! (k + i div 8)) (7 - i mod 8)" if i: "i < 8 * nb" for i
  proof -
    define m where "m = i mod 8"
    define q where "q = i div 8"
    have iq: "i = 8 * q + m" "m < 8" "q < nb" using i by (auto simp: m_def q_def)
    have "nb = 1 \<and> q = 0 \<or> nb = 2 \<and> q = 0 \<or> nb = 2 \<and> q = 1 \<or> nb = 3 \<and> q = 0 \<or> nb = 3 \<and> q = 1 \<or>
        nb = 3 \<and> q = 2"
      using assms(1) iq(3) by auto
    moreover have "7 - m < 8" "15 - m = 8 + (7 - m)" "23 - m = 16 + (7 - m)" using iq(2) by linarith+
    then obtain u where u: "u < 8" "7 - m = u" "15 - m = 8 + u" "23 - m = 16 + u" by metis
    ultimately show ?thesis
      unfolding m_def [symmetric] q_def [symmetric] using iq(1) u(1)
      by (elim disjE conjE) (simp_all add: l_def bit_or_iff b p hi u(2-4))
  qed
  ultimately show ?thesis by blast
qed

lemma char_row_ok:
  assumes f: "font_ok f" "char_ok f ch" and i: "i < unat (font_height f)"
    and b: "length buf = LCD_BUFFER_SIZE"
  shows "\<exists>buf'. char_row f ch fg bg i buf = Some buf' \<and> length buf' = LCD_BUFFER_SIZE \<and>
    (\<forall>k < LCD_BUFFER_SIZE. buf' ! k =
      (if i * unat (font_width f) \<le> k \<and> k < (i + 1) * unat (font_width f)
       then (if glyph f ch (k - i * unat (font_width f)) i then fg else bg) else buf ! k))"
proof -
  let ?w = "unat (font_width f)" and ?h = "unat (font_height f)" and ?nb = "char_bytes f"
  let ?at = "(unat ch - 32) * ?h * ?nb + ?nb * i"
  have nb: "?nb \<in> {1, 2, 3}" "?w \<le> 8 * ?nb" using font_bytes [OF f(1)] by auto
  have w: "?w \<le> 24" using f(1) by (simp add: font_ok_def)
  have ch: "32 \<le> unat ch" using f(2) by (simp add: char_ok_def)
  have "?nb * i + ?nb \<le> ?h * ?nb"
  proof -
    have "?nb * i + ?nb = (i + 1) * ?nb" by (simp add: algebra_simps)
    also have "\<dots> \<le> ?h * ?nb" using i by (intro mult_le_mono1) simp
    finally show ?thesis .
  qed
  then have "?at + ?nb \<le> (unat ch - 32) * (?h * ?nb) + ?h * ?nb" by (simp add: mult.assoc)
  also have "\<dots> = (unat ch - 31) * (?h * ?nb)"
  proof -
    have "unat ch - 31 = (unat ch - 32) + 1" using ch by linarith
    then show ?thesis by (simp only: distrib_right mult_1)
  qed
  also have "\<dots> \<le> length (font_table f)" using f(2) by (simp add: char_ok_def)
  finally have le: "?at + ?nb \<le> length (font_table f)" .
  obtain l where l: "glyph_line (font_table f) (int ?at) ?nb = Some l"
    "\<forall>j < 8 * ?nb. bit l (8 * ?nb - 1 - j) = bit (font_table f ! (?at + j div 8)) (7 - j mod 8)"
    using line_bits [OF nb(1) le] by blast
  have at: "char_start f ch + int (?nb * i) = int ?at"
    using ch by (simp add: char_start_def of_nat_diff)
  have row: "(i + 1) * ?w \<le> LCD_BUFFER_SIZE"
  proof -
    have "(i + 1) * ?w \<le> ?h * ?w" using i by (intro mult_le_mono1) simp
    then show ?thesis using f(1) by (simp add: font_ok_def mult.commute)
  qed
  let ?P = "\<lambda>j b'. length b' = LCD_BUFFER_SIZE \<and> (\<forall>k < LCD_BUFFER_SIZE. b' ! k =
      (if i * ?w \<le> k \<and> k < i * ?w + j then (if glyph f ch (k - i * ?w) i then fg else bg) else buf ! k))"
  have loop: "\<exists>b'. for_loop (char_pixel f l fg bg i) [0..<?w] buf = Some b' \<and> ?P ?w b'"
  proof (rule for_loop_upt [where P = ?P])
    show "?P 0 buf" using b by auto
  next
    fix j b' assume j: "j < ?w" and P: "?P j b'"
    have e: "?w - j + (8 * ?nb - ?w) - 1 = 8 * ?nb - 1 - j" using j nb(2) by linarith
    have lt: "8 * ?nb - 1 - j < 32" "j < 8 * ?nb" using nb j w by auto
    have g: "bit l (8 * ?nb - 1 - j) = glyph f ch j i"
      using l(2) lt(2) by (simp add: glyph_def)
    have "j + i * ?w < LCD_BUFFER_SIZE" using j row by (simp add: distrib_right)
    then have "char_pixel f l fg bg i j b' = Some (b'[j + i * ?w := (if glyph f ch j i then fg else bg)])"
      unfolding char_pixel_def Let_def e g using P lt(1) by (simp del: One_nat_def)
    moreover have "?P (Suc j) (b'[j + i * ?w := (if glyph f ch j i then fg else bg)])"
      using P by (auto simp: nth_list_update add.commute less_Suc_eq)
    ultimately show "\<exists>c. char_pixel f l fg bg i j b' = Some c \<and> ?P (Suc j) c" by blast
  qed
  have e: "char_row f ch fg bg i buf = for_loop (char_pixel f l fg bg i) [0..<?w] buf"
    unfolding char_row_def at l(1) by simp
  have "(i + 1) * ?w = i * ?w + ?w" by (simp add: distrib_right)
  then show ?thesis unfolding e using loop by (simp only:)
qed

lemma char_buffer:
  assumes "font_ok f" and "char_ok f ch" and "length buf = LCD_BUFFER_SIZE"
  shows "\<exists>buf'. for_loop (char_row f ch fg bg) [0..<unat (font_height f)] buf = Some buf' \<and>
    length buf' = LCD_BUFFER_SIZE \<and>
    (\<forall>j < unat (font_height f). \<forall>i < unat (font_width f).
       buf' ! (j * unat (font_width f) + i) = (if glyph f ch i j then fg else bg))"
proof -
  let ?w = "unat (font_width f)" and ?h = "unat (font_height f)"
  let ?P = "\<lambda>n b. length b = LCD_BUFFER_SIZE \<and>
    (\<forall>j < n. \<forall>i < ?w. b ! (j * ?w + i) = (if glyph f ch i j then fg else bg))"
  have "\<exists>b. for_loop (char_row f ch fg bg) [0..<?h] buf = Some b \<and> ?P ?h b"
  proof (rule for_loop_upt [where P = ?P])
    show "?P 0 buf" using assms(3) by simp
  next
    fix n b assume n: "n < ?h" and P: "?P n b"
    obtain b' where b': "char_row f ch fg bg n b = Some b'" "length b' = LCD_BUFFER_SIZE"
      "\<forall>k < LCD_BUFFER_SIZE. b' ! k = (if n * ?w \<le> k \<and> k < (n + 1) * ?w
         then (if glyph f ch (k - n * ?w) n then fg else bg) else b ! k)"
      using char_row_ok [OF assms(1,2) n, of b] P by blast
    have "b' ! (j * ?w + i) = (if glyph f ch i j then fg else bg)" if "j < Suc n" "i < ?w" for i j
    proof -
      have k: "j * ?w + i < (j + 1) * ?w" using that(2) by (simp add: distrib_right)
      also have "\<dots> \<le> ?h * ?w" using that(1) n by (intro mult_le_mono1) simp
      also have "\<dots> \<le> LCD_BUFFER_SIZE" using assms(1) by (simp add: font_ok_def mult.commute)
      finally have lt: "j * ?w + i < LCD_BUFFER_SIZE" .
      show ?thesis
      proof (cases "j = n")
        case True
        then show ?thesis using b'(3) lt k by simp
      next
        case False
        then have "j < n" using that(1) by simp
        have "(j + 1) * ?w \<le> n * ?w" using \<open>j < n\<close> by (intro mult_le_mono1) simp
        then have "\<not> n * ?w \<le> j * ?w + i" using k by linarith
        then show ?thesis using b'(3) lt P \<open>j < n\<close> that(2) by simp
      qed
    qed
    then show "\<exists>c. char_row f ch fg bg n b = Some c \<and> ?P (Suc n) c" using b'(1,2) by blast
  qed
  then show ?thesis .
qed

definition char_cell :: "font_t \<Rightarrow> u16 \<Rightarrow> u16 \<Rightarrow> (u16 \<times> u16) \<times> u8 \<Rightarrow> overlay" where
  "char_cell f fg bg c = box (unat (fst (fst c))) (unat (snd (fst c))) (unat (font_width f))
     (unat (font_height f)) (\<lambda>i j. if glyph f (snd c) i j then fg else bg)"

lemma char_drawn:
  assumes ready: "lcd_ready p0 s" and font: "default_font s = Some f" "font_ok f" "char_ok f ch"
    and fits: "unat x + unat (font_width f) \<le> 240" "unat y + unat (font_height f) \<le> 240"
  shows "\<exists>s'. lcd_draw_char x y ch fg bg s = Some s' \<and> drew p0 s s' (char_cell f fg bg ((x, y), ch))"
proof -
  let ?w = "unat (font_width f)" and ?h = "unat (font_height f)"
  obtain buf where buf: "for_loop (char_row f ch fg bg) [0..<?h] (lcd_buffer s) = Some buf"
    "length buf = LCD_BUFFER_SIZE"
    "\<forall>j < ?h. \<forall>i < ?w. buf ! (j * ?w + i) = (if glyph f ch i j then fg else bg)"
    using char_buffer [OF font(2,3), of "lcd_buffer s"] ready unfolding lcd_ready_def by blast
  define t where "t = lcd_window x y (x + font_width f - 1) (y + font_height f - 1) (s\<lparr>lcd_buffer := buf\<rparr>)"
  have sz: "?w * ?h \<le> length buf" "0 < ?w" "0 < ?h" "?w * ?h < 2048"
    using font(2) buf(2) by (simp_all add: font_ok_def LCD_BUFFER_SIZE_def)
  define A where "A = ?w * ?h"
  have "unat (font_width f * font_height f * 2) = A * 2 mod 65536" by (simp add: unat_word_ariths A_def mod_mult_left_eq)
  also have "\<dots> = 2 * A" using sz(4) unfolding A_def [symmetric] by simp
  finally have "unat (font_width f * font_height f * 2) = 2 * (?w * ?h)" by (simp only: A_def)
  then obtain s' where s': "LCD_SPIDMATrans (u16s_bytes buf) (font_width f * font_height f * 2) t = Some s'"
    "paints (take (?w * ?h) buf) t s'" "lcd_buffer s' = lcd_buffer t"
    using dma_pixels [OF sz(1,4), of "font_width f * font_height f * 2" t] by blast
  have ready': "lcd_ready p0 (s\<lparr>lcd_buffer := buf\<rparr>)"
    using ready buf(2) by (simp add: lcd_ready_def shown_def)
  have "drew p0 (s\<lparr>lcd_buffer := buf\<rparr>) s' (box (unat x) (unat y) ?w ?h (\<lambda>i j. take (?w * ?h) buf ! (j * ?w + i)))"
    by (rule window_box [OF s'(2)[unfolded t_def] ready'])
       (use s'(3) buf(2) sz coords_240(3) [OF sz(2) fits(1)] coords_240(3) [OF sz(3) fits(2)] in
         \<open>simp_all add: t_def\<close>)
  moreover have "box (unat x) (unat y) ?w ?h (\<lambda>i j. take (?w * ?h) buf ! (j * ?w + i)) =
      char_cell f fg bg ((x, y), ch)"
    unfolding char_cell_def fst_conv snd_conv
  proof (rule box_cong)
    fix i j assume ij: "i < ?w" "j < ?h"
    have "j * ?w + i < (j + 1) * ?w" using ij(1) by (simp add: distrib_right)
    also have "\<dots> \<le> ?h * ?w" using ij(2) by (intro mult_le_mono1) simp
    finally show "take (?w * ?h) buf ! (j * ?w + i) = (if glyph f ch i j then fg else bg)"
      using buf(3) ij by (simp add: mult.commute)
  qed
  ultimately have "drew p0 s s' (char_cell f fg bg ((x, y), ch))"
    using paints_window(3) [OF paints_buffer] by simp
  then show ?thesis using font(1) buf(1) s'(1) by (simp add: lcd_draw_char_def t_def)
qed

section \<open>Texts\<close>

text \<open>Where the characters of a text go.\<close>

fun text_layout :: "font_t \<Rightarrow> u16 \<times> u16 \<Rightarrow> u8 list \<Rightarrow> ((u16 \<times> u16) \<times> u8) list" where
  "text_layout f p [] = []"
| "text_layout f p (c # cs) =
     (let q = text_place f p in (q, c) # text_layout f (fst q + font_width f, snd q) cs)"

definition text_overlay :: "font_t \<Rightarrow> u16 \<Rightarrow> u16 \<Rightarrow> ((u16 \<times> u16) \<times> u8) list \<Rightarrow> overlay" where
  "text_overlay f fg bg cells = foldl (\<lambda>o1 c. o1 ++ char_cell f fg bg c) Map.empty cells"

definition on_screen :: "font_t \<Rightarrow> (u16 \<times> u16) \<times> u8 \<Rightarrow> bool" where
  "on_screen f c \<longleftrightarrow> unat (fst (fst c)) + unat (font_width f) \<le> 240 \<and>
     unat (snd (fst c)) + unat (font_height f) \<le> 240"

lemma text_place_on_screen:
  assumes "font_ok f"
  shows "on_screen f (text_place f p, c)"
proof -
  obtain x y where p: "p = (x, y)" by (cases p)
  have "uint (font_width f) \<le> 24" "uint (font_height f) \<le> 240"
    using assms by (simp_all add: font_ok_def uint_nat del: of_nat_unat)
  then show ?thesis
    using assms
    by (auto simp: on_screen_def text_place_def p Let_def lcd_size_defs uint_nat font_ok_def
        simp del: of_nat_unat)
qed

lemma text_layout_on_screen: "font_ok f \<Longrightarrow> c \<in> set (text_layout f p cs) \<Longrightarrow> on_screen f c"
  by (induction cs arbitrary: p) (auto simp: Let_def text_place_on_screen)

lemma text_drawn:
  assumes "lcd_ready p0 s" and "default_font s = Some f" and "font_ok f" and "\<forall>ch \<in> set cs. char_ok f ch"
  shows "\<exists>s'. lcd_draw_text x y cs fg bg s = Some s' \<and>
    drew p0 s s' (text_overlay f fg bg (text_layout f (x, y) cs))"
proof -
  have ov: "foldl (\<lambda>o1 c. o1 ++ g c) o0 l = o0 ++ foldl (\<lambda>o1 c. o1 ++ g c) Map.empty l"
    for o0 l and g :: "(u16 \<times> u16) \<times> u8 \<Rightarrow> overlay"
  proof (induction l arbitrary: o0)
    case (Cons a l)
    show ?case using Cons.IH [of "o0 ++ g a"] Cons.IH [of "g a"] by simp
  qed simp
  show ?thesis
    using assms
  proof (induction cs arbitrary: x y s)
    case Nil
    then show ?case by (auto simp: text_overlay_def intro!: drew_nothing)
  next
    case (Cons c cs)
    obtain x1 y1 where p: "text_place f (x, y) = (x1, y1)" by (cases "text_place f (x, y)")
    have fit: "unat x1 + unat (font_width f) \<le> 240" "unat y1 + unat (font_height f) \<le> 240"
      using text_place_on_screen [OF Cons.prems(3), of "(x, y)"] by (simp_all add: on_screen_def p)
    have ok: "char_ok f c" "\<forall>ch \<in> set cs. char_ok f ch" using Cons.prems(4) by simp_all
    obtain s1 where s1: "lcd_draw_char x1 y1 c fg bg s = Some s1" "drew p0 s s1 (char_cell f fg bg ((x1, y1), c))"
      using char_drawn [OF Cons.prems(1-3) ok(1) fit] by blast
    have "default_font s1 = Some f" using drew_font [OF s1(2)] Cons.prems(2) by simp
    then obtain s2 where s2: "lcd_draw_text (x1 + font_width f) y1 cs fg bg s1 = Some s2"
      "drew p0 s1 s2 (text_overlay f fg bg (text_layout f (x1 + font_width f, y1) cs))"
      using Cons.IH [OF drew_ready [OF s1(2)] _ Cons.prems(3) ok(2)] by blast
    have e: "text_overlay f fg bg (text_layout f (x, y) (c # cs)) =
        char_cell f fg bg ((x1, y1), c) ++ text_overlay f fg bg (text_layout f (x1 + font_width f, y1) cs)"
      using ov [of "char_cell f fg bg" "char_cell f fg bg ((x1, y1), c)"] by (simp add: text_overlay_def p)
    show ?case
      unfolding e using drew_trans [OF s1(2) s2(2)] s1(1) s2(1) Cons.prems(2) by (simp add: p)
  qed
qed

section \<open>What is shown\<close>

text \<open>
  C20: A text never leaves the screen: for a font of at most 24 columns whose character fits the buffer,
  \<open>lcd_draw_text\<close> returns, every character of the text lies within the 240 by 240 pixels, wherever
  the text starts and however long it is, and the panel shows exactly the glyphs of the font table at
  these places, in the order of the text, and everything else unchanged.
\<close>

theorem text_stays_on_screen:
  assumes "lcd_ready p0 s" and "default_font s = Some f" and "font_ok f" and "\<forall>ch \<in> set cs. char_ok f ch"
  shows "\<exists>s'. lcd_draw_text x y cs fg bg s = Some s' \<and>
    drew p0 s s' (text_overlay f fg bg (text_layout f (x, y) cs)) \<and>
    list_all (on_screen f) (text_layout f (x, y) cs)"
  using text_drawn [OF assms] text_layout_on_screen [OF assms(3)] by (auto simp: list_all_iff)

definition sample_port :: gpio_port where
  "sample_port = \<lparr>P_PIN = 0, P_OUT = 0, P_PD_DRV = 0, P_PU = 0, P_DIR = 0, P_INT_EN = 0, P_INT_MODE = 0,
     P_INT_IF = 0\<rparr>"

definition sample_lcd :: lcd_sys where
  "sample_lcd = \<lparr>lcd_gpio = \<lparr>PA = sample_port, PB = sample_port\<rparr>,
     lcd_spi = \<lparr>SPI_CLOCK_DIV = 2, SPI_CTRL_MOD = 0, SPI_CTRL_CFG = 0, SPI_INTER_EN = 0, SPI_INT_FLAG = 0,
       SPI_TOTAL_CNT = 0\<rparr>,
     lcd_bus = [], lcd_buffer = replicate 2000 0, default_font = None, lcd_wait_sem = 0\<rparr>"

definition sample_panel :: panel where
  "sample_panel = \<lparr>pn_cmd = 0, pn_args = [], pn_xs = 0, pn_xe = 239, pn_ys = 0, pn_ye = 239, pn_x = 0,
     pn_y = 0, pn_little = True, pn_on = True, pn_frame = \<lambda>q. 0\<rparr>"

text \<open>An 8 by 2 font whose only character, the blank, has the bytes 3 and 192.\<close>

definition sample_font :: font_t where
  "sample_font = \<lparr>font_table = [3, 192], font_width = 8, font_height = 2\<rparr>"

theorem text_stays_on_screen_witness:
  "\<exists>s'. lcd_draw_text 238 7 [32, 32] 1 0 (lcd_set_font sample_font sample_lcd) = Some s' \<and>
    drew sample_panel (lcd_set_font sample_font sample_lcd) s'
      (text_overlay sample_font 1 0 (text_layout sample_font (238, 7) [32, 32])) \<and>
    list_all (on_screen sample_font) (text_layout sample_font (238, 7) [32, 32])"
  by (rule text_stays_on_screen)
     (simp_all add: lcd_ready_def shown_def lcd_set_font_def sample_lcd_def sample_panel_def sample_font_def
       font_ok_def char_ok_def char_bytes_def LCD_BUFFER_SIZE_def)

text \<open>
  The nine-patch is the scaled image: for a corner of 1 to 32 pixels that fits twice into the area
  and once into the image, and an area within the screen, the panel shows the four corners of the image
  at the corners of the area, all else in the colour of the first pixel of the last corner, and nothing
  outside the area changes; no byte outside the image is read.
\<close>

theorem nine_patch_scales:
  assumes "lcd_ready p0 s" and "0 < unat r" and "unat r \<le> 32" and "unat r \<le> unat sw" and "unat r \<le> unat sh"
    and "2 * unat r < unat w" and "2 * unat r < unat h" and "unat x + unat w \<le> 240"
    and "unat y + unat h \<le> 240" and "2 * (unat sw * unat sh) \<le> length pic"
  shows "\<exists>s'. lcd_draw_image9patch pic sw sh r x y w h s = Some s' \<and>
    drew p0 s s' (box (unat x) (unat y) (unat w) (unat h)
      (nine_patch (u16s_of pic) (unat sw) (unat sh) (unat r) (unat w) (unat h)))"
  by (rule nine_patch_drawn [OF assms])

theorem nine_patch_scales_witness:
  "\<exists>s'. lcd_draw_image9patch (replicate 3200 0xD3) 40 40 10 2 42 236 196 sample_lcd = Some s' \<and>
    drew sample_panel sample_lcd s' (box (unat (2 :: u16)) (unat (42 :: u16)) (unat (236 :: u16)) (unat (196 :: u16))
      (nine_patch (u16s_of (replicate 3200 0xD3)) (unat (40 :: u16)) (unat (40 :: u16)) (unat (10 :: u16))
        (unat (236 :: u16)) (unat (196 :: u16))))"
  by (rule nine_patch_scales)
     (simp_all add: lcd_ready_def shown_def sample_lcd_def sample_panel_def LCD_BUFFER_SIZE_def)

end
