(* ===== verification/LcdShapes.thy ===== *)
theory LcdShapes
  imports LcdText
begin

text \<open>
  The lines of \<open>lcd_draw_line\<close> and the numbers of \<open>lcd_draw_num\<close> against reference
  descriptions, and when the loop of the line ends.
\<close>

section \<open>Single pixels\<close>

definition pixel_overlay :: "u16 \<Rightarrow> int \<times> int \<Rightarrow> overlay" where
  "pixel_overlay c q = (\<lambda>(a, b). if a < 240 \<and> b < 240 \<and> int a = fst q mod 65536 \<and> int b = snd q mod 65536
     then Some c else None)"

lemma pixel_drawn:
  assumes "lcd_ready p0 s"
  shows "\<exists>s'. lcd_draw_pixel x y c s = Some s' \<and>
    drew p0 s s' (\<lambda>q. if q = (unat x, unat y) \<and> fst q < 240 \<and> snd q < 240 then Some c else None)"
proof (cases "x < 240 \<and> y < 240")
  case False
  then have "lcd_draw_pixel x y c s = Some s"
    by (auto simp: lcd_draw_pixel_def lcd_size_defs not_less)
  moreover have "(\<lambda>q. if q = (unat x, unat y) \<and> fst q < 240 \<and> snd q < 240 then Some c else None) = Map.empty"
    using False by (auto simp: fun_eq_iff word_less_nat_alt)
  ultimately show ?thesis using drew_nothing [OF assms] by simp
next
  case True
  obtain s' where s': "LCD_SPIDMATrans (u16s_bytes [c]) 2 (lcd_window x y x y s) = Some s'"
    "paints (take 1 [c]) (lcd_window x y x y s) s'" "lcd_buffer s' = lcd_buffer (lcd_window x y x y s)"
    using dma_pixels [of 1 "[c]" 2 "lcd_window x y x y s"] by auto
  have "drew p0 s s' (box (unat x) (unat y) 1 1 (\<lambda>i j. [c] ! (j * 1 + i)))"
    using s' assms by (intro window_box) (simp_all add: lcd_ready_def)
  moreover have "box (unat x) (unat y) 1 1 (\<lambda>i j. [c] ! (j * 1 + i)) =
      (\<lambda>q. if q = (unat x, unat y) \<and> fst q < 240 \<and> snd q < 240 then Some c else None)"
    using True by (auto simp: box_def fun_eq_iff word_less_nat_alt)
  moreover have "u16s_bytes [c] = u16_bytes c" by (simp add: u16s_bytes_def)
  ultimately show ?thesis
    using True s'(1) by (auto simp: lcd_draw_pixel_def lcd_size_defs not_le)
qed

lemma point_drawn:
  assumes "lcd_ready p0 s"
  shows "\<exists>s'. draw_point c q s = Some s' \<and> drew p0 s s' (pixel_overlay c q)"
proof -
  have u: "a = unat (word_of_int v :: u16) \<longleftrightarrow> int a = v mod 65536" for a v
  proof -
    have "int (unat (word_of_int v :: u16)) = v mod 65536" by (simp add: uint_word_of_int)
    then show ?thesis by (metis of_nat_eq_iff)
  qed
  have e: "(\<lambda>r. if r = (unat (word_of_int (fst q) :: u16), unat (word_of_int (snd q) :: u16)) \<and>
      fst r < 240 \<and> snd r < 240 then Some c else None) = pixel_overlay c q"
    by (auto simp: fun_eq_iff pixel_overlay_def u)
  show ?thesis using pixel_drawn [OF assms, of "word_of_int (fst q)" "word_of_int (snd q)" c]
    by (simp add: draw_point_def e)
qed

definition points_overlay :: "u16 \<Rightarrow> (int \<times> int) list \<Rightarrow> overlay" where
  "points_overlay c ps r = (if \<exists>q \<in> set ps. pixel_overlay c q r \<noteq> None then Some c else None)"

lemma points_drawn:
  assumes "lcd_ready p0 s"
  shows "\<exists>s'. for_loop (draw_point c) ps s = Some s' \<and> drew p0 s s' (points_overlay c ps)"
  using assms
proof (induction ps arbitrary: s)
  case Nil
  have "points_overlay c [] = Map.empty" by (simp add: points_overlay_def fun_eq_iff)
  then show ?case using drew_nothing [OF Nil] by simp
next
  case (Cons q ps)
  obtain s1 where s1: "draw_point c q s = Some s1" "drew p0 s s1 (pixel_overlay c q)"
    using point_drawn [OF Cons.prems] by blast
  obtain s2 where s2: "for_loop (draw_point c) ps s1 = Some s2" "drew p0 s1 s2 (points_overlay c ps)"
    using Cons.IH [OF drew_ready [OF s1(2)]] by blast
  have "pixel_overlay c q ++ points_overlay c ps = points_overlay c (q # ps)"
    by (auto simp: fun_eq_iff map_add_def points_overlay_def pixel_overlay_def)
  then show ?case using drew_trans [OF s1(2) s2(2)] s1(1) s2(1) by simp
qed

section \<open>The points of a line\<close>

text \<open>How often the coordinate with the increment \<open>D\<close> has moved after \<open>t\<close> steps of a line of length \<open>d\<close>.\<close>

definition moved :: "int \<Rightarrow> int \<Rightarrow> int \<Rightarrow> int" where
  "moved d D t = max 0 ((t * D - 1) div d)"

lemma moved_step:
  assumes "0 \<le> D" and "D \<le> d" and "0 \<le> t"
  shows "0 \<le> t * D - moved d D t * d" and "t * D - moved d D t * d \<le> d"
    and "moved d D (t + 1) = moved d D t + (if t * D - moved d D t * d + D > d then 1 else 0)"
proof -
  have "0 \<le> t * D - moved d D t * d \<and> t * D - moved d D t * d \<le> d \<and>
    moved d D (t + 1) = moved d D t + (if t * D - moved d D t * d + D > d then 1 else 0)"
  proof (cases "t * D = 0 \<or> d = 0")
    case True
    have "- 1 div d \<le> 0" using assms by (cases "d = 0") (simp_all add: div_eq_minus1)
    then have z: "moved d D t = 0" using True by (auto simp: moved_def)
    have m: "moved d D (t + 1) = 0"
    proof (cases "d = 0")
      case False
      then have "(t + 1) * D - 1 < d" using True assms by (auto simp: distrib_right)
      then have "((t + 1) * D - 1) div d \<le> (d - 1) div d" using False assms by (intro zdiv_mono1) linarith+
      also have "\<dots> = 0" using False assms by (intro div_pos_pos_trivial) linarith+
      finally have "((t + 1) * D - 1) div d \<le> 0" .
      then show ?thesis by (simp add: moved_def)
    qed (simp add: moved_def)
    show ?thesis using z m True assms by auto
  next
    case False
    define q r where "q = (t * D - 1) div d" and "r = (t * D - 1) mod d"
    have d: "0 < d" using False assms by simp
    have n: "t * D - 1 = q * d + r" "0 \<le> r" "r < d"
      using d by (simp_all add: q_def r_def)
    have "0 \<le> t * D" using assms by simp
    then have "0 \<le> t * D - 1" using False by linarith
    then have q: "0 \<le> q" using d by (simp add: q_def pos_imp_zdiv_nonneg_iff)
    have e: "(t + 1) * D - 1 = q * d + (r + D)" using n(1) by (simp add: distrib_right)
    have "((t + 1) * D - 1) div d = q + (r + D) div d" unfolding e using d by simp
    moreover have "(r + D) div d = (if r + D \<ge> d then 1 else 0)"
    proof (cases "r + D \<ge> d")
      case True
      have "(r + D) div d = (r + D - d) div d + 1" using d by (simp add: div_pos_geq True)
      also have "(r + D - d) div d = 0" using True n assms by (intro div_pos_pos_trivial) linarith+
      finally show ?thesis using True by simp
    next
      case False
      then show ?thesis using n assms by (simp add: div_pos_pos_trivial)
    qed
    ultimately have "moved d D (t + 1) = q + (if r + D \<ge> d then 1 else 0)" using q by (simp add: moved_def)
    moreover have "moved d D t = q" using q by (simp add: moved_def q_def)
    moreover have "t * D - q * d = r + 1" using n(1) by linarith
    ultimately show ?thesis using n by auto
  qed
  then show "0 \<le> t * D - moved d D t * d" and "t * D - moved d D t * d \<le> d"
    and "moved d D (t + 1) = moved d D t + (if t * D - moved d D t * d + D > d then 1 else 0)" by auto
qed

text \<open>The end of the line: after \<open>d + 1\<close> steps the coordinate has moved \<open>D\<close> times.\<close>

lemma moved_end: "0 \<le> D \<Longrightarrow> D \<le> d \<Longrightarrow> moved d D (d + 1) = D"
proof -
  assume a: "0 \<le> D" "D \<le> d"
  show "moved d D (d + 1) = D"
  proof (cases "d = 0 \<or> D = 0")
    case True
    have "- 1 div d \<le> 0" using a by (cases "d = 0") (simp_all add: div_eq_minus1)
    then show ?thesis using a True by (auto simp: moved_def)
  next
    case False
    have "((d + 1) * D - 1) div d = (D * d + (D - 1)) div d" by (simp add: algebra_simps)
    also have "\<dots> = D + (D - 1) div d" using False a by simp
    also have "(D - 1) div d = 0" using False a by (intro div_pos_pos_trivial) auto
    finally show ?thesis using a by (simp add: moved_def)
  qed
qed

lemma moved_start [simp]: "0 \<le> d \<Longrightarrow> moved d D 0 = 0"
  by (cases "d = 0") (simp_all add: moved_def div_eq_minus1)

definition line_point :: "int \<Rightarrow> int \<Rightarrow> int \<Rightarrow> int \<Rightarrow> int \<Rightarrow> int \<Rightarrow> int \<Rightarrow> nat \<Rightarrow> int \<times> int" where
  "line_point d dx dy incx incy x y t = (x + incx * moved d dx (int t), y + incy * moved d dy (int t))"

lemma uint_of_nat_16: "n < 65536 \<Longrightarrow> uint (of_nat n :: u16) = int n"
  by (simp add: uint_nat unat_of_nat del: of_nat_unat)

lemma line_loop_points:
  assumes dx: "0 \<le> dx" "dx \<le> d" and dy: "0 \<le> dy" "dy \<le> d" and d: "d \<le> 65533"
    and "t \<le> nat d + 2"
  shows "line_loop dx dy incx incy d c (of_nat t) (int t * dx - moved d dx (int t) * d) (int t * dy - moved d dy (int t) * d)
      (x + incx * moved d dx (int t)) (y + incy * moved d dy (int t)) s =
    for_loop (draw_point c) (map (line_point d dx dy incx incy x y) [t..<nat d + 2]) s"
  using assms(6)
proof (induction "nat d + 2 - t" arbitrary: t s)
  case 0
  have "0 \<le> d" using dx by simp
  then have u: "uint (of_nat t :: u16) = int t" using 0 d by (intro uint_of_nat_16) linarith
  have t: "t = nat d + 2" using 0 by simp
  have "\<not> uint (of_nat t :: u16) \<le> d + 1" unfolding u using t \<open>0 \<le> d\<close> by linarith
  moreover have "[t..<nat d + 2] = []" using t by simp
  ultimately show ?case by (subst line_loop.simps) simp
next
  case (Suc n)
  have d0: "0 \<le> d" using dx by simp
  have t: "t < nat d + 2" using Suc.hyps(2) by simp
  have u: "uint (of_nat t :: u16) = int t" using t d d0 by (intro uint_of_nat_16) linarith
  have le: "uint (of_nat t :: u16) \<le> d + 1" unfolding u using t d0 by linarith
  have st: "(of_nat t :: u16) + 1 = of_nat (Suc t)" by simp
  note mx = moved_step [OF dx, of "int t"] and my = moved_step [OF dy, of "int t"]
  have ex: "(if int t * dx - moved d dx (int t) * d + dx > d
      then (int t * dx - moved d dx (int t) * d + dx - d, x + incx * moved d dx (int t) + incx)
      else (int t * dx - moved d dx (int t) * d + dx, x + incx * moved d dx (int t))) =
      (int (Suc t) * dx - moved d dx (int (Suc t)) * d, x + incx * moved d dx (int (Suc t)))"
    using mx(3) by (simp add: algebra_simps)
  have ey: "(if int t * dy - moved d dy (int t) * d + dy > d
      then (int t * dy - moved d dy (int t) * d + dy - d, y + incy * moved d dy (int t) + incy)
      else (int t * dy - moved d dy (int t) * d + dy, y + incy * moved d dy (int t))) =
      (int (Suc t) * dy - moved d dy (int (Suc t)) * d, y + incy * moved d dy (int (Suc t)))"
    using my(3) by (simp add: algebra_simps)
  have up: "[t..<nat d + 2] = t # [Suc t..<nat d + 2]" using t by (simp add: upt_conv_Cons)
  have ih: "line_loop dx dy incx incy d c (of_nat (Suc t)) (int (Suc t) * dx - moved d dx (int (Suc t)) * d)
      (int (Suc t) * dy - moved d dy (int (Suc t)) * d) (x + incx * moved d dx (int (Suc t))) (y + incy * moved d dy (int (Suc t))) s1 =
    for_loop (draw_point c) (map (line_point d dx dy incx incy x y) [Suc t..<nat d + 2]) s1" for s1
    by (rule Suc.hyps(1)) (use Suc.hyps(2) t in linarith)+
  show ?case
    unfolding up list.map for_loop.simps
    by (subst line_loop.simps)
       (simp only: le if_True Let_def ex ey st prod.case ih draw_point_def line_point_def fst_conv snd_conv)
qed

section \<open>Lines\<close>

definition line_length :: "u16 \<Rightarrow> u16 \<Rightarrow> u16 \<Rightarrow> u16 \<Rightarrow> int" where
  "line_length x1 y1 x2 y2 = max \<bar>uint x2 - uint x1\<bar> \<bar>uint y2 - uint y1\<bar>"

lemma line_inc_abs: "line_inc v = (sgn v, \<bar>v\<bar>)"
  by (simp add: line_inc_def)

definition line_points :: "u16 \<Rightarrow> u16 \<Rightarrow> u16 \<Rightarrow> u16 \<Rightarrow> (int \<times> int) list" where
  "line_points x1 y1 x2 y2 =
     (let d = line_length x1 y1 x2 y2; vx = uint x2 - uint x1; vy = uint y2 - uint y1
      in map (line_point d \<bar>vx\<bar> \<bar>vy\<bar> (sgn vx) (sgn vy) (uint x1) (uint y1)) [0..<nat d + 2])"

lemma draw_line_points:
  assumes "line_length x1 y1 x2 y2 \<le> 65533"
  shows "lcd_draw_line x1 y1 x2 y2 c s = for_loop (draw_point c) (line_points x1 y1 x2 y2) s"
proof -
  let ?d = "line_length x1 y1 x2 y2" and ?vx = "uint x2 - uint x1" and ?vy = "uint y2 - uint y1"
  have d: "(if \<bar>?vx\<bar> > \<bar>?vy\<bar> then \<bar>?vx\<bar> else \<bar>?vy\<bar>) = ?d" by (simp add: line_length_def max_def)
  have "0 \<le> ?d" "\<bar>?vx\<bar> \<le> ?d" "\<bar>?vy\<bar> \<le> ?d" by (simp_all add: line_length_def)
  then show ?thesis
    using line_loop_points [of "\<bar>?vx\<bar>" ?d "\<bar>?vy\<bar>" 0 "sgn ?vx" "sgn ?vy" c "uint x1" "uint y1" s] assms
    by (simp add: lcd_draw_line_def line_inc_abs Let_def d line_points_def)
qed

text \<open>What a list of points has to be to be a line between two points.\<close>

definition connects :: "int \<times> int \<Rightarrow> int \<times> int \<Rightarrow> (int \<times> int) list \<Rightarrow> bool" where
  "connects p q ps \<longleftrightarrow> ps \<noteq> [] \<and> hd ps = p \<and> last ps = q \<and>
     (\<forall>i. Suc i < length ps \<longrightarrow> \<bar>fst (ps ! Suc i) - fst (ps ! i)\<bar> \<le> 1 \<and> \<bar>snd (ps ! Suc i) - snd (ps ! i)\<bar> \<le> 1)"

text \<open>The distance of a point from the straight line, times the length of the longer side.\<close>

definition deviation :: "int \<times> int \<Rightarrow> int \<times> int \<Rightarrow> int \<times> int \<Rightarrow> int" where
  "deviation p q r = \<bar>(fst r - fst p) * (snd q - snd p) - (snd r - snd p) * (fst q - fst p)\<bar>"

lemma cross_bound:
  fixes d dx dy t :: int
  assumes "0 \<le> dx" "dx \<le> d" "0 \<le> dy" "dy \<le> d" "0 \<le> t"
  shows "\<bar>moved d dx t * dy - moved d dy t * dx\<bar> \<le> d"
proof (cases "d = 0")
  case False
  define ex ey where "ex = t * dx - moved d dx t * d" and "ey = t * dy - moved d dy t * d"
  have e: "0 \<le> ex" "ex \<le> d" "0 \<le> ey" "ey \<le> d"
    using moved_step [OF assms(1,2,5)] moved_step [OF assms(3,4,5)] by (simp_all add: ex_def ey_def)
  have "d * (moved d dx t * dy - moved d dy t * dx) = ey * dx - ex * dy"
    by (simp add: ex_def ey_def algebra_simps)
  moreover have "ey * dx \<le> d * d" "ex * dy \<le> d * d" "0 \<le> ey * dx" "0 \<le> ex * dy"
    using e assms by (simp_all add: mult_mono)
  ultimately have "\<bar>d * (moved d dx t * dy - moved d dy t * dx)\<bar> \<le> d * d" by linarith
  then have "d * \<bar>moved d dx t * dy - moved d dy t * dx\<bar> \<le> d * d" using assms by (simp add: abs_mult)
  then show ?thesis using False assms by simp
qed (use assms in \<open>simp add: moved_def\<close>)

lemma line_points_connect:
  "connects (uint x1, uint y1) (uint x2, uint y2) (line_points x1 y1 x2 y2)"
proof -
  let ?d = "line_length x1 y1 x2 y2" and ?vx = "uint x2 - uint x1" and ?vy = "uint y2 - uint y1"
  have d: "0 \<le> ?d" "\<bar>?vx\<bar> \<le> ?d" "\<bar>?vy\<bar> \<le> ?d" by (simp_all add: line_length_def)
  have n: "length (line_points x1 y1 x2 y2) = nat ?d + 2" by (simp add: line_points_def Let_def)
  have at: "line_points x1 y1 x2 y2 ! t = line_point ?d \<bar>?vx\<bar> \<bar>?vy\<bar> (sgn ?vx) (sgn ?vy) (uint x1) (uint y1) t"
    if "t < nat ?d + 2" for t using that by (simp add: line_points_def Let_def del: upt_Suc)
  have ne: "line_points x1 y1 x2 y2 \<noteq> []" using n by auto
  have "hd (line_points x1 y1 x2 y2) = (uint x1, uint y1)"
    using at [of 0] d by (simp add: hd_conv_nth [OF ne] line_point_def)
  moreover have "last (line_points x1 y1 x2 y2) = (uint x2, uint y2)"
  proof -
    have "int (nat ?d + 1) = ?d + 1" using d by simp
    moreover have "moved ?d \<bar>?vx\<bar> (?d + 1) = \<bar>?vx\<bar>" "moved ?d \<bar>?vy\<bar> (?d + 1) = \<bar>?vy\<bar>"
      using d by (simp_all add: moved_end)
    moreover have "last (line_points x1 y1 x2 y2) = line_points x1 y1 x2 y2 ! (nat ?d + 1)"
      by (simp add: last_conv_nth [OF ne] n)
    ultimately show ?thesis
      using at [of "nat ?d + 1"] by (simp only: line_point_def) (simp add: sgn_mult_abs)
  qed
  moreover have "\<bar>fst (line_points x1 y1 x2 y2 ! Suc i) - fst (line_points x1 y1 x2 y2 ! i)\<bar> \<le> 1 \<and>
      \<bar>snd (line_points x1 y1 x2 y2 ! Suc i) - snd (line_points x1 y1 x2 y2 ! i)\<bar> \<le> 1"
    if "Suc i < length (line_points x1 y1 x2 y2)" for i
  proof -
    have s: "moved ?d D (int (Suc i)) - moved ?d D (int i) \<in> {0, 1}" if "0 \<le> D" "D \<le> ?d" for D
      using moved_step(3) [OF that, of "int i"] by (auto simp: add.commute)
    have "\<bar>sgn v * m - sgn v * k\<bar> \<le> 1" if "m - k \<in> {0, 1}" for v m k :: int
      using that by (auto simp: abs_mult sgn_if simp flip: right_diff_distrib)
    then show ?thesis using that n s [of "\<bar>?vx\<bar>"] s [of "\<bar>?vy\<bar>"] d by (simp add: at line_point_def)
  qed
  ultimately show ?thesis using ne by (simp add: connects_def)
qed

lemma sgn_cross:
  fixes a b m k :: int
  shows "sgn a * m * b - sgn b * k * a = sgn a * sgn b * (m * \<bar>b\<bar> - k * \<bar>a\<bar>)"
  by (simp add: sgn_if abs_if algebra_simps)

lemma line_points_near:
  assumes "r \<in> set (line_points x1 y1 x2 y2)"
  shows "deviation (uint x1, uint y1) (uint x2, uint y2) r \<le> line_length x1 y1 x2 y2"
proof -
  let ?d = "line_length x1 y1 x2 y2" and ?vx = "uint x2 - uint x1" and ?vy = "uint y2 - uint y1"
  have d: "0 \<le> ?d" "\<bar>?vx\<bar> \<le> ?d" "\<bar>?vy\<bar> \<le> ?d" by (simp_all add: line_length_def)
  obtain t where r: "r = line_point ?d \<bar>?vx\<bar> \<bar>?vy\<bar> (sgn ?vx) (sgn ?vy) (uint x1) (uint y1) t"
    using assms by (auto simp: line_points_def Let_def)
  have "deviation (uint x1, uint y1) (uint x2, uint y2) r =
      \<bar>sgn ?vx * sgn ?vy * (moved ?d \<bar>?vx\<bar> (int t) * \<bar>?vy\<bar> - moved ?d \<bar>?vy\<bar> (int t) * \<bar>?vx\<bar>)\<bar>"
    by (simp add: deviation_def r line_point_def sgn_cross)
  also have "\<dots> \<le> \<bar>moved ?d \<bar>?vx\<bar> (int t) * \<bar>?vy\<bar> - moved ?d \<bar>?vy\<bar> (int t) * \<bar>?vx\<bar>\<bar>"
    by (simp add: abs_mult sgn_if)
  also have "\<dots> \<le> ?d" using d by (intro cross_bound) simp_all
  finally show ?thesis .
qed

text \<open>
  A line reaches both ends: \<open>lcd_draw_line\<close>, for points at most 65533 apart in each direction,
  colours exactly the visible pixels of a chain of neighbouring points that begins at the first and ends
  at the second point, none of which is a full pixel away from the straight line.
\<close>

theorem line_connects_ends:
  assumes "lcd_ready p0 s" and "line_length x1 y1 x2 y2 \<le> 65533"
  shows "\<exists>s' ps. lcd_draw_line x1 y1 x2 y2 c s = Some s' \<and> drew p0 s s' (points_overlay c ps) \<and>
    connects (uint x1, uint y1) (uint x2, uint y2) ps \<and>
    list_all (\<lambda>r. deviation (uint x1, uint y1) (uint x2, uint y2) r \<le> line_length x1 y1 x2 y2) ps"
proof -
  obtain s' where "lcd_draw_line x1 y1 x2 y2 c s = Some s'"
    "drew p0 s s' (points_overlay c (line_points x1 y1 x2 y2))"
    using points_drawn [OF assms(1), of c "line_points x1 y1 x2 y2"] draw_line_points [OF assms(2)] by auto
  moreover have "list_all (\<lambda>r. deviation (uint x1, uint y1) (uint x2, uint y2) r \<le> line_length x1 y1 x2 y2)
      (line_points x1 y1 x2 y2)"
    unfolding list_all_iff by (intro ballI line_points_near)
  ultimately show ?thesis using line_points_connect by blast
qed

theorem line_connects_ends_witness:
  "\<exists>s' ps. lcd_draw_line 3 200 230 10 0xF800 sample_lcd = Some s' \<and>
    drew sample_panel sample_lcd s' (points_overlay 0xF800 ps) \<and>
    connects (uint (3 :: u16), uint (200 :: u16)) (uint (230 :: u16), uint (10 :: u16)) ps \<and>
    list_all (\<lambda>r. deviation (uint (3 :: u16), uint (200 :: u16)) (uint (230 :: u16), uint (10 :: u16)) r
      \<le> line_length 3 200 230 10) ps"
  by (rule line_connects_ends)
     (simp_all add: lcd_ready_def shown_def sample_lcd_def sample_panel_def LCD_BUFFER_SIZE_def line_length_def)

lemma draw_pixel_total: "lcd_draw_pixel x y c s \<noteq> None"
  using dma_effect [of 2 "u16_bytes c" "lcd_window x y x y s"]
  by (auto simp: lcd_draw_pixel_def u16_bytes_def)

lemma draw_points_total: "for_loop (draw_point c) ps s \<noteq> None"
proof (induction ps arbitrary: s)
  case (Cons q ps)
  obtain s1 where "draw_point c q s = Some s1"
    using draw_pixel_total [of "word_of_int (fst q)" "word_of_int (snd q)" c s] by (auto simp: draw_point_def)
  then show ?case using Cons.IH [of s1] by simp
qed simp

lemma line_loop_diverges:
  assumes e: "line_loop dx dy incx incy d c t xe ye row col s = Some s'"
  shows "d < 65534"
proof (rule line_loop.raw_induct [where P = "\<lambda>dx dy incx incy d c t xe ye row col s s'. d < 65534", OF _ e])
  fix f :: "int \<Rightarrow> int \<Rightarrow> int \<Rightarrow> int \<Rightarrow> int \<Rightarrow> u16 \<Rightarrow> u16 \<Rightarrow> int \<Rightarrow> int \<Rightarrow> int \<Rightarrow> int \<Rightarrow> lcd_sys \<Rightarrow> lcd_sys option"
  fix dx dy incx incy d :: int and c t :: u16 and xe ye row col :: int and s s'
  assume ih: "\<And>dx dy incx incy d c t xe ye row col s s'.
      f dx dy incx incy d c t xe ye row col s = Some s' \<Longrightarrow> d < 65534"
  assume st: "(if uint t \<le> d + 1 then do {
        s1 \<leftarrow> lcd_draw_pixel (word_of_int row) (word_of_int col) c s;
        let xf = xe + dx;
        let yf = ye + dy;
        let (xe', r) = (if xf > d then (xf - d, row + incx) else (xf, row));
        let (ye', k) = (if yf > d then (yf - d, col + incy) else (yf, col));
        f dx dy incx incy d c (t + 1) xe' ye' r k s1
      }
      else Some s) = Some s'"
  have u: "uint t \<le> 65535" using uint_lt2p [of t] by simp
  show "d < 65534"
  proof (cases "uint t \<le> d + 1")
    case True
    then obtain s1 a b r k where "f dx dy incx incy d c (t + 1) a b r k s1 = Some s'"
      using st by (auto simp: Let_def split: Option.bind_splits prod.splits)
    then show ?thesis by (rule ih)
  qed (use u in linarith)
qed

text \<open>
  When a line ends: the counter of the loop has 16 bits and is compared with the length plus one, so
  \<open>lcd_draw_line\<close> returns exactly when the points are at most 65533 apart in each direction; for longer
  lines the comparison is always true.
\<close>

theorem line_returns_iff:
  "lcd_draw_line x1 y1 x2 y2 c s \<noteq> None \<longleftrightarrow> line_length x1 y1 x2 y2 \<le> 65533"
proof
  let ?d = "line_length x1 y1 x2 y2"
  assume "lcd_draw_line x1 y1 x2 y2 c s \<noteq> None"
  moreover have "lcd_draw_line x1 y1 x2 y2 c s =
      line_loop \<bar>uint x2 - uint x1\<bar> \<bar>uint y2 - uint y1\<bar> (sgn (uint x2 - uint x1)) (sgn (uint y2 - uint y1)) ?d c
        0 0 0 (uint x1) (uint y1) s"
    by (simp add: lcd_draw_line_def line_inc_abs line_length_def max_def)
  ultimately obtain s' where "line_loop \<bar>uint x2 - uint x1\<bar> \<bar>uint y2 - uint y1\<bar> (sgn (uint x2 - uint x1))
      (sgn (uint y2 - uint y1)) ?d c 0 0 0 (uint x1) (uint y1) s = Some s'" by auto
  from line_loop_diverges [OF this] show "?d \<le> 65533" by simp
next
  assume "line_length x1 y1 x2 y2 \<le> 65533"
  then show "lcd_draw_line x1 y1 x2 y2 c s \<noteq> None"
    using draw_line_points draw_points_total by metis
qed

end
