(* ===== verification/Gui.thy ===== *)
theory Gui
  imports LcdText Radio
begin

text \<open>
  The screen of the controller, \<open>Firmware/applications/gui.c\<close>, and its thread,
  \<open>Firmware/applications/ui_thread.c\<close>. The images and the font are arrays of constants
  (\<open>resource.c\<close>, \<open>font20.c\<close>): a record of them is an argument, with the lengths the
  header declares as the hypothesis \<open>resources_ok\<close>. The thread shares \<open>radio\<close> with the control
  loop; one call of the model sees one state of it. Every reading of the tick is an argument.
\<close>

section \<open>Constants\<close>

record resources =
  gImage_bg :: "u8 list"
  gImage_battery_0 :: "u8 list"
  gImage_battery_1 :: "u8 list"
  gImage_battery_2 :: "u8 list"
  gImage_battery_3 :: "u8 list"
  gImage_battery_4 :: "u8 list"
  gImage_rssi_0 :: "u8 list"
  gImage_rssi_1 :: "u8 list"
  gImage_rssi_2 :: "u8 list"
  gImage_rssi_3 :: "u8 list"
  ascii_font20 :: font_t

definition gui_color :: u16 where "gui_color = 0x0000"
definition gui_bgcolor :: u16 where "gui_bgcolor = 0x2AD3"
definition LIGHTGREEN :: u16 where "LIGHTGREEN = 0x841F"

definition str_bytes :: "string \<Rightarrow> u8 list" where
  "str_bytes cs = map (\<lambda>c. of_nat (of_char c)) cs"

definition channel_name :: "string list" where
  "channel_name = [''ROLL'', ''PITC'', ''YAW '', ''THRO'', ''AUX1'', ''AUX2'', ''AUX3'', ''AUX4'']"

definition mode_name :: "string list" where
  "mode_name = [''STAB'', ''ALT_HOLD'', ''LOITER'']"

section \<open>State\<close>

record gui_sys =
  g_lcd :: lcd_sys
  g_radio :: radio_data_t
  g_data :: radio_data_t
  page_index :: u8
  mode_flash :: u8
  mode_last_tick :: u32
  mode_reflush :: u8
  status_tick :: u32
  last_page :: u8

definition on_lcd :: "(lcd_sys \<Rightarrow> lcd_sys option) \<Rightarrow> gui_sys \<Rightarrow> gui_sys option" where
  "on_lcd f g = do { l \<leftarrow> f (g_lcd g); Some (g\<lparr>g_lcd := l\<rparr>) }"

text \<open>\<open>sprintf\<close> with \<open>% 4d\<close>: a blank or a minus sign, the digits, and blanks on the left up to four.\<close>

function decimal :: "nat \<Rightarrow> u8 list" where
  "decimal n = (if n < 10 then [of_nat n + 48] else decimal (n div 10) @ [of_nat (n mod 10) + 48])"
  by pat_completeness auto

termination by (relation "measure id") auto

declare decimal.simps [simp del]

definition format_4d :: "int \<Rightarrow> u8 list" where
  "format_4d v =
     (let t = (if v < 0 then 45 else 32) # decimal (nat \<bar>v\<bar>)
      in replicate (4 - length t) 32 @ t)"

text \<open>The texts go through \<open>disp_buffer\<close>, 32 bytes with the final 0.\<close>

definition disp_text :: "u8 list \<Rightarrow> u8 list option" where
  "disp_text t = (if length t < 32 then Some t else None)"

definition channel_text :: "nat \<Rightarrow> int \<Rightarrow> u8 list" where
  "channel_text i v = str_bytes (channel_name ! i) @ str_bytes '':'' @ format_4d v"

section \<open>The status bar\<close>

definition statusbar_init :: "resources \<Rightarrow> gui_sys \<Rightarrow> gui_sys option" where
  "statusbar_init res g = do {
     g1 \<leftarrow> on_lcd (lcd_draw_image9patch (gImage_bg res) 40 40 10 2 0 236 40) g;
     g2 \<leftarrow> on_lcd (\<lambda>l. Some (lcd_set_font (ascii_font20 res) l)) g1;
     g3 \<leftarrow> on_lcd (lcd_draw_text 70 10 (str_bytes ''Remoter'') gui_color gui_bgcolor) g2;
     g4 \<leftarrow> on_lcd (lcd_draw_image (gImage_battery_0 res) 15 5 40 28) g3;
     on_lcd (lcd_draw_image (gImage_rssi_3 res) 185 5 33 28) g4
   }"

definition battery_image :: "resources \<Rightarrow> u8 \<Rightarrow> u8 list" where
  "battery_image res b =
     (if b < 10 then gImage_battery_0 res else if b < 25 then gImage_battery_1 res
      else if b < 50 then gImage_battery_2 res else if b < 75 then gImage_battery_3 res
      else gImage_battery_4 res)"

definition rssi_image :: "resources \<Rightarrow> u8 \<Rightarrow> u8 list option" where
  "rssi_image res r =
     (if r < 20 then Some (gImage_rssi_0 res) else if r < 50 then Some (gImage_rssi_1 res)
      else if r < 80 then Some (gImage_rssi_2 res) else if r < 128 then Some (gImage_rssi_3 res)
      else None)"

definition statusbar_update :: "resources \<Rightarrow> u32 \<Rightarrow> u32 \<Rightarrow> gui_sys \<Rightarrow> gui_sys option" where
  "statusbar_update res now1 now2 g = do {
     let g1 = (if unat (now1 - status_tick g) > 100
               then g\<lparr>status_tick := now2,
                      g_radio := (g_radio g)\<lparr>battery_level := (battery_level (g_radio g) + 1) mod 100\<rparr>\<rparr>
               else g);
     g2 \<leftarrow> on_lcd (lcd_draw_image (battery_image res (battery_level (g_radio g1))) 15 5 40 28) g1;
     (case rssi_image res (rssi (g_radio g2)) of
        Some im \<Rightarrow> on_lcd (lcd_draw_image im 185 5 33 28) g2
      | None \<Rightarrow> Some g2)
   }"

section \<open>The pages\<close>

definition show_channel :: "nat \<Rightarrow> gui_sys \<Rightarrow> gui_sys option" where
  "show_channel i g = do {
     v \<leftarrow> arr_get (rd_channels (g_radio g)) i;
     cs \<leftarrow> arr_set (rd_channels (g_data g)) i v;
     let g1 = g\<lparr>g_data := (g_data g)\<lparr>rd_channels := cs\<rparr>\<rparr>;
     t \<leftarrow> disp_text (channel_text i v);
     on_lcd (lcd_draw_text 10 (60 + of_nat i * 20) t gui_color gui_bgcolor) g1
   }"

definition update_channel :: "nat \<Rightarrow> gui_sys \<Rightarrow> gui_sys option" where
  "update_channel i g = do {
     v \<leftarrow> arr_get (rd_channels (g_radio g)) i;
     d \<leftarrow> arr_get (rd_channels (g_data g)) i;
     if d \<noteq> v then show_channel i g else Some g
   }"

definition mode_text :: "u8 \<Rightarrow> u8 list option" where
  "mode_text m = do { t \<leftarrow> arr_get mode_name (unat m); Some (str_bytes t) }"

definition page0_init :: "resources \<Rightarrow> gui_sys \<Rightarrow> gui_sys option" where
  "page0_init res g = do {
     g1 \<leftarrow> on_lcd (lcd_draw_image9patch (gImage_bg res) 40 40 10 2 42 236 196) g;
     g2 \<leftarrow> for_loop show_channel [0..<6] g1;
     let g3 = g2\<lparr>g_data := (g_data g2)\<lparr>flight_mode := flight_mode (g_radio g2)\<rparr>\<rparr>;
     m \<leftarrow> mode_text (flight_mode (g_radio g3));
     t \<leftarrow> disp_text (str_bytes ''Mode'' @ str_bytes '':'' @ m);
     on_lcd (lcd_draw_text 10 190 t gui_color gui_bgcolor) g3
   }"

definition page0_flash :: "u32 \<Rightarrow> gui_sys \<Rightarrow> gui_sys option" where
  "page0_flash now2 g = do {
     let g1 = g\<lparr>mode_last_tick := now2, mode_flash := (if mode_flash g = 0 then 1 else 0), mode_reflush := 1\<rparr>;
     g2 \<leftarrow> on_lcd (lcd_fill_rect 80 190 200 210 gui_bgcolor) g1;
     m \<leftarrow> mode_text (new_mode (g_radio g2));
     t \<leftarrow> disp_text (str_bytes ''Mode'' @ str_bytes '':'' @ m);
     on_lcd (lcd_draw_text 80 190 m gui_color (if mode_flash g2 \<noteq> 0 then gui_bgcolor else LIGHTGREEN)) g2
   }"

definition page0_mode :: "gui_sys \<Rightarrow> gui_sys option" where
  "page0_mode g = do {
     let g1 = g\<lparr>mode_reflush := 0, g_data := (g_data g)\<lparr>flight_mode := flight_mode (g_radio g)\<rparr>\<rparr>;
     g2 \<leftarrow> on_lcd (lcd_fill_rect 80 190 200 210 gui_bgcolor) g1;
     m \<leftarrow> mode_text (flight_mode (g_radio g2));
     t \<leftarrow> disp_text (str_bytes ''Mode'' @ str_bytes '':'' @ m);
     on_lcd (lcd_draw_text 80 190 m gui_color gui_bgcolor) g2
   }"

definition page0_update :: "u32 \<Rightarrow> u32 \<Rightarrow> gui_sys \<Rightarrow> gui_sys option" where
  "page0_update now1 now2 g = do {
     g1 \<leftarrow> for_loop update_channel [0..<6] g;
     if new_mode (g_radio g1) \<noteq> flight_mode (g_radio g1)
     then (if unat (now1 - mode_last_tick g1) > 500 then page0_flash now2 g1 else Some g1)
     else if flight_mode (g_data g1) \<noteq> flight_mode (g_radio g1) \<or> mode_reflush g1 \<noteq> 0
     then page0_mode g1
     else Some g1
   }"

definition page1_init :: "resources \<Rightarrow> gui_sys \<Rightarrow> gui_sys option" where
  "page1_init res g = do {
     g1 \<leftarrow> on_lcd (lcd_draw_image9patch (gImage_bg res) 40 40 10 2 42 236 196) g;
     for_loop show_channel [0..<6] g1
   }"

definition page1_update :: "gui_sys \<Rightarrow> gui_sys option" where
  "page1_update g = for_loop update_channel [0..<6] g"

definition page2_init :: "resources \<Rightarrow> gui_sys \<Rightarrow> gui_sys option" where
  "page2_init res g = do {
     g1 \<leftarrow> on_lcd (lcd_draw_image9patch (gImage_bg res) 40 40 10 2 42 236 196) g;
     for_loop show_channel [0..<6] g1
   }"

definition page2_update :: "gui_sys \<Rightarrow> gui_sys option" where
  "page2_update g = for_loop update_channel [0..<6] g"

section \<open>Start and iteration of the thread\<close>

definition gui_init :: "resources \<Rightarrow> gui_sys \<Rightarrow> gui_sys option" where
  "gui_init res g = do {
     g1 \<leftarrow> statusbar_init res g;
     if page_index g1 = 0 then page0_init res g1
     else if page_index g1 = 1 then page1_init res g1
     else if page_index g1 = 2 then page2_init res g1
     else do { g2 \<leftarrow> page0_init res g1; Some (g2\<lparr>page_index := 0\<rparr>) }
   }"

text \<open>The page is drawn anew when it is not the one of the last call, else it is brought up to date.\<close>

definition page_turn ::
    "(gui_sys \<Rightarrow> gui_sys option) \<Rightarrow> (gui_sys \<Rightarrow> gui_sys option) \<Rightarrow> gui_sys \<Rightarrow> gui_sys option" where
  "page_turn init update g =
     (if last_page g \<noteq> page_index g then init (g\<lparr>last_page := page_index g\<rparr>) else update g)"

definition gui_update :: "resources \<Rightarrow> u32 \<Rightarrow> u32 \<Rightarrow> u32 \<Rightarrow> u32 \<Rightarrow> gui_sys \<Rightarrow> gui_sys option" where
  "gui_update res now1 now2 now3 now4 g = do {
     g1 \<leftarrow> statusbar_update res now1 now2 g;
     if page_index g1 = 0 then page_turn (page0_init res) (page0_update now3 now4) g1
     else if page_index g1 = 1 then page_turn (page1_init res) page1_update g1
     else if page_index g1 = 2 then page_turn (page2_init res) page2_update g1
     else do { g2 \<leftarrow> page0_init res g1; Some (g2\<lparr>page_index := 0, last_page := 0\<rparr>) }
   }"

end
