(* ===== verification/GuiProps.thy ===== *)
theory GuiProps
  imports Gui
begin

text \<open>
  The screen shows the channels: the invariant ties the pixels of the six channel rows to the values
  the thread keeps, and these to the values of the control loop.
\<close>

section \<open>The resources\<close>

definition resources_ok :: "resources \<Rightarrow> bool" where
  "resources_ok res \<longleftrightarrow> length (gImage_bg res) = 3200 \<and> length (gImage_battery_0 res) = 2240 \<and>
     length (gImage_battery_1 res) = 2240 \<and> length (gImage_battery_2 res) = 2240 \<and>
     length (gImage_battery_3 res) = 2240 \<and> length (gImage_battery_4 res) = 2240 \<and>
     length (gImage_rssi_0 res) = 1848 \<and> length (gImage_rssi_1 res) = 1848 \<and>
     length (gImage_rssi_2 res) = 1848 \<and> length (gImage_rssi_3 res) = 1848 \<and>
     font_width (ascii_font20 res) = 14 \<and> font_height (ascii_font20 res) = 20 \<and>
     length (font_table (ascii_font20 res)) = 3800"

lemma font20:
  assumes "resources_ok res"
  shows "font_ok (ascii_font20 res)" and "char_ok (ascii_font20 res) ch \<longleftrightarrow> 32 \<le> unat ch \<and> unat ch \<le> 126"
    and "unat (font_width (ascii_font20 res)) = 14" and "unat (font_height (ascii_font20 res)) = 20"
proof -
  have b: "char_bytes (ascii_font20 res) = 2" using assms by (simp add: resources_ok_def char_bytes_def)
  show "font_ok (ascii_font20 res)"
    using assms by (simp add: resources_ok_def font_ok_def LCD_BUFFER_SIZE_def)
  show "char_ok (ascii_font20 res) ch \<longleftrightarrow> 32 \<le> unat ch \<and> unat ch \<le> 126"
    using assms by (auto simp: resources_ok_def char_ok_def b)
  show "unat (font_width (ascii_font20 res)) = 14" "unat (font_height (ascii_font20 res)) = 20"
    using assms by (simp_all add: resources_ok_def)
qed

section \<open>Texts of one line\<close>

lemma layout_line:
  assumes "font_ok f" and "unat y + unat (font_height f) \<le> 240"
    and "unat x + length cs * unat (font_width f) \<le> 240" and "c \<in> set (text_layout f (x, y) cs)"
  shows "snd (fst c) = y"
  using assms(3,4)
proof (induction cs arbitrary: x)
  case (Cons a cs)
  let ?w = "unat (font_width f)" and ?h = "unat (font_height f)"
  have w: "?w \<le> 24" "?h \<le> 240" using assms(1) by (simp_all add: font_ok_def)
  have le: "unat x + ?w + length cs * ?w \<le> 240" using Cons.prems(1) by simp
  have "\<not> int (unat x) > 240 - uint (font_width f)" "\<not> int (unat y) > 240 - uint (font_height f)"
    using le assms(2) by (simp_all add: uint_nat del: of_nat_unat)
  then have p: "text_place f (x, y) = (x, y)" by (simp add: text_place_def lcd_size_defs)
  have "unat (x + font_width f) = unat x + ?w"
    using le by (intro unat_add_lem [THEN iffD1]) simp
  then show ?case using Cons.IH [of "x + font_width f"] Cons.prems(2) le by (auto simp: p)
qed simp

lemma overlay_None:
  assumes "\<And>c. c \<in> set cells \<Longrightarrow> char_cell f fg bg c q = None"
  shows "text_overlay f fg bg cells q = None"
  using assms unfolding text_overlay_def
  by (induction cells rule: rev_induct) (auto simp: map_add_def)

lemma overlay_rows:
  assumes "font_ok f" and "unat y + unat (font_height f) \<le> 240"
    and "unat x + length cs * unat (font_width f) \<le> 240"
    and "snd q < unat y \<or> unat y + unat (font_height f) \<le> snd q"
  shows "text_overlay f fg bg (text_layout f (x, y) cs) q = None"
proof (rule overlay_None)
  fix c assume "c \<in> set (text_layout f (x, y) cs)"
  then have "snd (fst c) = y" by (rule layout_line [OF assms(1-3)])
  then show "char_cell f fg bg c q = None" using assms(4) by (auto simp: char_cell_def box_def)
qed

section \<open>The formatted values\<close>

lemma decimal_length: "n < 10 ^ Suc k \<Longrightarrow> length (decimal n) \<le> Suc k"
proof (induction k arbitrary: n)
  case (Suc k)
  have "n div 10 < 10 ^ Suc k" using Suc.prems by (intro less_mult_imp_div_less) (simp add: mult.commute)
  then show ?case using Suc.IH [of "n div 10"] by (subst decimal.simps) simp
qed (simp add: decimal.simps)

lemma digit_byte: "d < 10 \<Longrightarrow> unat (of_nat d + 48 :: u8) = d + 48"
proof -
  assume "d < 10"
  then have "unat (of_nat (d + 48) :: u8) = d + 48" by (simp add: unat_of_nat del: of_nat_add)
  then show ?thesis by simp
qed

lemma decimal_digits: "ch \<in> set (decimal n) \<Longrightarrow> 48 \<le> unat ch \<and> unat ch \<le> 57"
proof (induction n rule: decimal.induct)
  case (1 n)
  show ?case
  proof (cases "n < 10")
    case True
    then show ?thesis using 1 digit_byte [of n] by (subst (asm) decimal.simps) simp
  next
    case False
    then consider "ch \<in> set (decimal (n div 10))" | "ch = of_nat (n mod 10) + 48"
      using "1.prems" by (subst (asm) decimal.simps) auto
    then show ?thesis
    proof cases
      case a: 1
      then show ?thesis using "1.IH" False by blast
    next
      case b: 2
      then show ?thesis using digit_byte [of "n mod 10"] by simp
    qed
  qed
qed

definition s16_range :: "int \<Rightarrow> bool" where "s16_range v \<longleftrightarrow> - 32768 \<le> v \<and> v < 32768"

lemma format_4d_ok:
  assumes "s16_range v"
  shows "length (format_4d v) \<le> 6" and "ch \<in> set (format_4d v) \<Longrightarrow> 32 \<le> unat ch \<and> unat ch \<le> 126"
proof -
  have "\<bar>v\<bar> < 100000" using assms by (simp add: s16_range_def abs_less_iff)
  then have "nat \<bar>v\<bar> < 10 ^ Suc 4" by (simp add: nat_less_iff)
  from decimal_length [OF this] show "length (format_4d v) \<le> 6"
    by (simp add: format_4d_def Let_def)
  show "ch \<in> set (format_4d v) \<Longrightarrow> 32 \<le> unat ch \<and> unat ch \<le> 126"
    by (auto simp: format_4d_def Let_def split: if_splits dest: decimal_digits)
qed

lemma channel_text_ok:
  assumes "s16_range v" and "i < 8"
  shows "length (channel_text i v) \<le> 11" and "ch \<in> set (channel_text i v) \<Longrightarrow> 32 \<le> unat ch \<and> unat ch \<le> 126"
proof -
  have n: "length (str_bytes (channel_name ! i)) = 4 \<and>
      (\<forall>ch \<in> set (str_bytes (channel_name ! i)). 32 \<le> unat ch \<and> unat ch \<le> 126)"
  proof -
    have "\<forall>t \<in> set channel_name. length (str_bytes t) = 4 \<and>
        (\<forall>ch \<in> set (str_bytes t). 32 \<le> unat ch \<and> unat ch \<le> 126)"
      by (simp add: channel_name_def str_bytes_def)
    moreover have "channel_name ! i \<in> set channel_name"
      using assms(2) by (intro nth_mem) (simp add: channel_name_def)
    ultimately show ?thesis by blast
  qed
  have c: "str_bytes '':'' = [58]" by (simp add: str_bytes_def)
  show "length (channel_text i v) \<le> 11"
    using n format_4d_ok(1) [OF assms(1)] by (simp add: channel_text_def c)
  show "ch \<in> set (channel_text i v) \<Longrightarrow> 32 \<le> unat ch \<and> unat ch \<le> 126"
    using n format_4d_ok(2) [OF assms(1), of ch] by (auto simp: channel_text_def c)
qed

lemma mode_text_ok:
  assumes "unat m < 3"
  shows "\<exists>t. mode_text m = Some t \<and> length t \<le> 8 \<and> (\<forall>ch \<in> set t. 32 \<le> unat ch \<and> unat ch \<le> 126)"
proof -
  have "\<forall>t \<in> set mode_name. length (str_bytes t) \<le> 8 \<and>
      (\<forall>ch \<in> set (str_bytes t). 32 \<le> unat ch \<and> unat ch \<le> 126)"
    by (simp add: mode_name_def str_bytes_def)
  moreover have "unat m < length mode_name" using assms by (simp add: mode_name_def)
  then have "mode_text m = Some (str_bytes (mode_name ! unat m))" "mode_name ! unat m \<in> set mode_name"
    by (simp_all add: mode_text_def)
  ultimately show ?thesis by blast
qed

section \<open>The invariant\<close>

text \<open>An overlay that leaves the six channel rows, lines 60 to 179, alone.\<close>

definition off_rows :: "overlay \<Rightarrow> bool" where
  "off_rows f \<longleftrightarrow> (\<forall>q. 60 \<le> snd q \<and> snd q < 180 \<longrightarrow> f q = None)"

definition row_overlay :: "resources \<Rightarrow> nat \<Rightarrow> int \<Rightarrow> overlay" where
  "row_overlay res i v = text_overlay (ascii_font20 res) gui_color gui_bgcolor
     (text_layout (ascii_font20 res) (10, 60 + of_nat i * 20) (channel_text i v))"

definition row_shown :: "panel \<Rightarrow> resources \<Rightarrow> gui_sys \<Rightarrow> nat \<Rightarrow> bool" where
  "row_shown p0 res g i \<longleftrightarrow> (\<forall>q c. row_overlay res i (rd_channels (g_data g) ! i) q = Some c \<longrightarrow>
     pn_frame (shown p0 (g_lcd g)) q = c)"

definition radio_shape :: "radio_data_t \<Rightarrow> bool" where
  "radio_shape r \<longleftrightarrow> length (rd_channels r) = 8 \<and> list_all s16_range (rd_channels r) \<and>
     unat (flight_mode r) < 3 \<and> unat (new_mode r) < 3"

definition gui_ready :: "panel \<Rightarrow> resources \<Rightarrow> gui_sys \<Rightarrow> bool" where
  "gui_ready p0 res g \<longleftrightarrow> lcd_ready p0 (g_lcd g) \<and> default_font (g_lcd g) = Some (ascii_font20 res) \<and>
     radio_shape (g_radio g) \<and> length (rd_channels (g_data g)) = 8 \<and>
     list_all s16_range (rd_channels (g_data g))"

text \<open>A step that neither reads nor changes channels and draws away from the rows.\<close>

definition keeps_rows :: "panel \<Rightarrow> resources \<Rightarrow> gui_sys \<Rightarrow> gui_sys \<Rightarrow> bool" where
  "keeps_rows p0 res g g' \<longleftrightarrow> gui_ready p0 res g' \<and>
     rd_channels (g_radio g') = rd_channels (g_radio g) \<and> rd_channels (g_data g') = rd_channels (g_data g) \<and>
     page_index g' = page_index g \<and> last_page g' = last_page g \<and>
     (\<forall>i. row_shown p0 res g i \<and> i < 6 \<longrightarrow> row_shown p0 res g' i)"

lemma keeps_rows_trans:
  "keeps_rows p0 res g g1 \<Longrightarrow> keeps_rows p0 res g1 g2 \<Longrightarrow> keeps_rows p0 res g g2"
  by (simp add: keeps_rows_def)

lemma row_place: "i < 6 \<Longrightarrow> unat (60 + of_nat i * 20 :: u16) = 60 + i * 20"
proof -
  assume "i < 6"
  then have "unat (of_nat (60 + i * 20) :: u16) = 60 + i * 20" by (simp add: unat_of_nat del: of_nat_add of_nat_mult)
  then show ?thesis by simp
qed

lemma row_text_rows:
  assumes "resources_ok res" and "i < 6" and "s16_range v" and "snd q < 60 + i * 20 \<or> 80 + i * 20 \<le> snd q"
  shows "row_overlay res i v q = None"
  unfolding row_overlay_def
proof (rule overlay_rows)
  note f = font20(3,4) [OF assms(1)]
  show "font_ok (ascii_font20 res)" by (rule font20(1) [OF assms(1)])
  show "unat (60 + of_nat i * 20 :: u16) + unat (font_height (ascii_font20 res)) \<le> 240"
    using assms(2) by (simp add: row_place f)
  show "unat (10 :: u16) + length (channel_text i v) * unat (font_width (ascii_font20 res)) \<le> 240"
    using channel_text_ok(1) [OF assms(3), of i] assms(2) by (simp add: f)
  show "snd q < unat (60 + of_nat i * 20 :: u16) \<or>
      unat (60 + of_nat i * 20 :: u16) + unat (font_height (ascii_font20 res)) \<le> snd q"
    using assms(2,4) by (simp add: row_place f)
qed

lemma off_rows_step:
  assumes g: "gui_ready p0 res g" and ok: "resources_ok res" and d: "drew p0 (g_lcd g) l f" and off: "off_rows f"
  shows "keeps_rows p0 res g (g\<lparr>g_lcd := l\<rparr>)"
proof -
  have "gui_ready p0 res (g\<lparr>g_lcd := l\<rparr>)"
    using g drew_ready [OF d] drew_font [OF d] by (simp add: gui_ready_def)
  moreover have "row_shown p0 res (g\<lparr>g_lcd := l\<rparr>) i" if r: "row_shown p0 res g i" and i: "i < 6" for i
    unfolding row_shown_def
  proof (intro allI impI)
    fix q c assume a: "row_overlay res i (rd_channels (g_data (g\<lparr>g_lcd := l\<rparr>)) ! i) q = Some c"
    then have a': "row_overlay res i (rd_channels (g_data g) ! i) q = Some c" by simp
    have "s16_range (rd_channels (g_data g) ! i)"
      using g i by (simp add: list_all_length gui_ready_def)
    from row_text_rows [OF ok i this] a' have "60 + i * 20 \<le> snd q \<and> snd q < 80 + i * 20"
      by (metis not_le option.distinct(1))
    then have "f q = None" using off i by (simp add: off_rows_def del: split_paired_All)
    then show "pn_frame (shown p0 (g_lcd (g\<lparr>g_lcd := l\<rparr>))) q = c"
      using drew_outside [OF d] r a' by (simp add: row_shown_def del: split_paired_All)
  qed
  ultimately show ?thesis by (simp add: keeps_rows_def)
qed

lemma on_lcd_keeps:
  assumes "gui_ready p0 res g" and "resources_ok res"
    and "\<exists>l. f (g_lcd g) = Some l \<and> drew p0 (g_lcd g) l o1" and "off_rows o1"
  shows "\<exists>g'. on_lcd f g = Some g' \<and> keeps_rows p0 res g g'"
  using assms off_rows_step [OF assms(1,2) _ assms(4)] by (auto simp: on_lcd_def)

lemma off_rows_box: "y + h \<le> 60 \<or> 180 \<le> y \<Longrightarrow> off_rows (box x y w h px)"
  by (auto simp: off_rows_def box_def)

section \<open>The status bar\<close>

lemma image_keeps:
  assumes "gui_ready p0 res g" and "resources_ok res" and "0 < unat w" and "0 < unat h"
    and "unat x + unat w \<le> 240" and "unat y + unat h \<le> 60" and "2 * (unat w * unat h) \<le> length pic"
  shows "\<exists>g'. on_lcd (lcd_draw_image pic x y w h) g = Some g' \<and> keeps_rows p0 res g g'"
proof (rule on_lcd_keeps [OF assms(1,2)])
  have "lcd_ready p0 (g_lcd g)" using assms(1) by (simp add: gui_ready_def)
  then show "\<exists>l. lcd_draw_image pic x y w h (g_lcd g) = Some l \<and> drew p0 (g_lcd g) l
      (box (unat x) (unat y) (unat w) (unat h) (\<lambda>i j. u16s_of pic ! (j * unat w + i)))"
    using assms by (intro image_drawn) simp_all
  show "off_rows (box (unat x) (unat y) (unat w) (unat h) (\<lambda>i j. u16s_of pic ! (j * unat w + i)))"
    using assms(6) by (intro off_rows_box) simp
qed

lemma status_images:
  assumes "resources_ok res"
  shows "length (battery_image res b) = 2240" and "rssi_image res r = Some im \<Longrightarrow> length im = 1848"
  using assms by (auto simp: resources_ok_def battery_image_def rssi_image_def split: if_splits)

lemma statusbar_update_keeps:
  assumes "gui_ready p0 res g" and "resources_ok res"
  shows "\<exists>g'. statusbar_update res now1 now2 g = Some g' \<and> keeps_rows p0 res g g'"
proof -
  define g1 where "g1 = (if unat (now1 - status_tick g) > 100
               then g\<lparr>status_tick := now2,
                      g_radio := (g_radio g)\<lparr>battery_level := (battery_level (g_radio g) + 1) mod 100\<rparr>\<rparr>
               else g)"
  have k1: "keeps_rows p0 res g g1"
    using assms(1) by (auto simp: g1_def keeps_rows_def gui_ready_def radio_shape_def row_shown_def)
  then have r1: "gui_ready p0 res g1" by (simp add: keeps_rows_def)
  obtain g2 where g2: "on_lcd (lcd_draw_image (battery_image res (battery_level (g_radio g1))) 15 5 40 28) g1 = Some g2"
    "keeps_rows p0 res g1 g2"
    using image_keeps [OF r1 assms(2), of 40 28 15 5 "battery_image res (battery_level (g_radio g1))"]
      status_images(1) [OF assms(2)] by auto
  have r2: "gui_ready p0 res g2" using g2(2) by (simp add: keeps_rows_def)
  have k2: "keeps_rows p0 res g g2" by (rule keeps_rows_trans [OF k1 g2(2)])
  show ?thesis
  proof (cases "rssi_image res (rssi (g_radio g2))")
    case None
    then show ?thesis using g2 k2 by (simp add: statusbar_update_def g1_def[symmetric])
  next
    case (Some im)
    obtain g3 where g3: "on_lcd (lcd_draw_image im 185 5 33 28) g2 = Some g3" "keeps_rows p0 res g2 g3"
      using image_keeps [OF r2 assms(2), of 33 28 185 5 im] status_images(2) [OF assms(2) Some] by auto
    then show ?thesis
      using g2 Some keeps_rows_trans [OF k2 g3(2)] by (simp add: statusbar_update_def g1_def[symmetric])
  qed
qed

section \<open>The channel rows\<close>

lemma show_channel_ok:
  assumes g: "gui_ready p0 res g" and ok: "resources_ok res" and i: "i < 6"
  shows "\<exists>g'. show_channel i g = Some g' \<and> gui_ready p0 res g' \<and> g_radio g' = g_radio g \<and>
    page_index g' = page_index g \<and> last_page g' = last_page g \<and>
    rd_channels (g_data g') = (rd_channels (g_data g))[i := rd_channels (g_radio g) ! i] \<and>
    row_shown p0 res g' i \<and> (\<forall>j. j < 6 \<and> j \<noteq> i \<and> row_shown p0 res g j \<longrightarrow> row_shown p0 res g' j)"
proof -
  let ?v = "rd_channels (g_radio g) ! i"
  let ?cs = "(rd_channels (g_data g))[i := ?v]"
  let ?t = "channel_text i ?v"
  have len: "length (rd_channels (g_radio g)) = 8" "length (rd_channels (g_data g)) = 8"
    using g by (simp_all add: gui_ready_def radio_shape_def)
  have v: "s16_range ?v" using g i len by (simp add: gui_ready_def radio_shape_def list_all_length)
  have t: "length ?t \<le> 11" "\<forall>ch \<in> set ?t. char_ok (ascii_font20 res) ch"
    using channel_text_ok [OF v, of i] i font20(2) [OF ok] by auto
  have lr: "lcd_ready p0 (g_lcd g)" "default_font (g_lcd g) = Some (ascii_font20 res)"
    using g by (simp_all add: gui_ready_def)
  obtain l where l: "lcd_draw_text 10 (60 + of_nat i * 20) ?t gui_color gui_bgcolor (g_lcd g) = Some l"
    "drew p0 (g_lcd g) l (row_overlay res i ?v)"
    using text_drawn [OF lr font20(1) [OF ok] t(2)] unfolding row_overlay_def by blast
  define g' where "g' = g\<lparr>g_data := (g_data g)\<lparr>rd_channels := ?cs\<rparr>, g_lcd := l\<rparr>"
  have e: "show_channel i g = Some g'"
    using len i t(1) l(1) by (simp add: show_channel_def disp_text_def on_lcd_def g'_def)
  have "list_all s16_range ?cs"
    using g v i len by (auto simp: gui_ready_def list_all_length nth_list_update)
  then have r: "gui_ready p0 res g'"
    using g drew_ready [OF l(2)] drew_font [OF l(2)] by (simp add: gui_ready_def g'_def)
  have ri: "row_shown p0 res g' i"
    using drew_frame [OF l(2)] i len by (simp add: row_shown_def g'_def del: split_paired_All)
  have rj: "row_shown p0 res g' j" if j: "j < 6" "j \<noteq> i" "row_shown p0 res g j" for j
    unfolding row_shown_def
  proof (intro allI impI)
    fix q c assume "row_overlay res j (rd_channels (g_data g') ! j) q = Some c"
    then have a: "row_overlay res j (rd_channels (g_data g) ! j) q = Some c" using j by (simp add: g'_def)
    have "s16_range (rd_channels (g_data g) ! j)" using g j len by (simp add: gui_ready_def list_all_length)
    from row_text_rows [OF ok j(1) this] a have "60 + j * 20 \<le> snd q" "snd q < 80 + j * 20"
      by (metis not_le option.distinct(1))+
    then have "snd q < 60 + i * 20 \<or> 80 + i * 20 \<le> snd q" using j(2) by linarith
    then have "row_overlay res i ?v q = None" by (rule row_text_rows [OF ok i v])
    then show "pn_frame (shown p0 (g_lcd g')) q = c"
      using drew_outside [OF l(2)] j(3) a by (simp add: row_shown_def g'_def del: split_paired_All)
  qed
  show ?thesis using e r ri rj by (auto simp: g'_def)
qed

text \<open>All rows up to \<open>n\<close> show the channels of the control loop.\<close>

definition rows_current :: "panel \<Rightarrow> resources \<Rightarrow> nat \<Rightarrow> gui_sys \<Rightarrow> bool" where
  "rows_current p0 res n g \<longleftrightarrow> (\<forall>i < n. row_shown p0 res g i \<and>
     rd_channels (g_data g) ! i = rd_channels (g_radio g) ! i)"

lemma keeps_rows_current:
  "keeps_rows p0 res g g' \<Longrightarrow> n \<le> 6 \<Longrightarrow> rows_current p0 res n g \<Longrightarrow> rows_current p0 res n g'"
  by (auto simp: keeps_rows_def rows_current_def)

definition same_place :: "gui_sys \<Rightarrow> gui_sys \<Rightarrow> bool" where
  "same_place g g' \<longleftrightarrow> g_radio g' = g_radio g \<and> page_index g' = page_index g \<and> last_page g' = last_page g"

lemma show_all:
  assumes "gui_ready p0 res g" and "resources_ok res"
  shows "\<exists>g'. for_loop show_channel [0..<6] g = Some g' \<and>
    gui_ready p0 res g' \<and> same_place g g' \<and> rows_current p0 res 6 g'"
proof (rule for_loop_upt [where P = "\<lambda>n g'. gui_ready p0 res g' \<and> same_place g g' \<and> rows_current p0 res n g'"])
  show "gui_ready p0 res g \<and> same_place g g \<and> rows_current p0 res 0 g"
    using assms(1) by (simp add: same_place_def rows_current_def)
next
  fix n t assume n: "n < (6 :: nat)" and P: "gui_ready p0 res t \<and> same_place g t \<and> rows_current p0 res n t"
  have l: "length (rd_channels (g_data t)) = 8" using P by (simp add: gui_ready_def)
  obtain t' where t': "show_channel n t = Some t'" "gui_ready p0 res t'" "g_radio t' = g_radio t"
    "page_index t' = page_index t" "last_page t' = last_page t"
    "rd_channels (g_data t') = (rd_channels (g_data t))[n := rd_channels (g_radio t) ! n]"
    "row_shown p0 res t' n" "\<forall>j. j < 6 \<and> j \<noteq> n \<and> row_shown p0 res t j \<longrightarrow> row_shown p0 res t' j"
    using show_channel_ok [OF _ assms(2) n] P by blast
  have "rows_current p0 res (Suc n) t'"
    using P t' n l by (auto simp: rows_current_def less_Suc_eq)
  then show "\<exists>t'. show_channel n t = Some t' \<and> gui_ready p0 res t' \<and> same_place g t' \<and>
      rows_current p0 res (Suc n) t'"
    using t' P by (auto simp: same_place_def)
qed

lemma update_all:
  assumes "gui_ready p0 res g" and "resources_ok res" and "\<forall>i < 6. row_shown p0 res g i"
  shows "\<exists>g'. for_loop update_channel [0..<6] g = Some g' \<and>
    gui_ready p0 res g' \<and> same_place g g' \<and> rows_current p0 res 6 g'"
proof -
  let ?P = "\<lambda>n g'. gui_ready p0 res g' \<and> same_place g g' \<and> (\<forall>i < 6. row_shown p0 res g' i) \<and>
    rows_current p0 res n g'"
  have "\<exists>g'. for_loop update_channel [0..<6] g = Some g' \<and> ?P 6 g'"
  proof (rule for_loop_upt [where P = ?P])
    show "?P 0 g" using assms(1,3) by (simp add: same_place_def rows_current_def)
  next
    fix n t assume n: "n < (6 :: nat)" and P: "?P n t"
    have l: "length (rd_channels (g_data t)) = 8" "length (rd_channels (g_radio t)) = 8"
      using P by (simp_all add: gui_ready_def radio_shape_def)
    show "\<exists>t'. update_channel n t = Some t' \<and> ?P (Suc n) t'"
    proof (cases "rd_channels (g_data t) ! n = rd_channels (g_radio t) ! n")
      case True
      then show ?thesis using P l n by (auto simp: update_channel_def rows_current_def less_Suc_eq)
    next
      case False
      obtain t' where t': "show_channel n t = Some t'" "gui_ready p0 res t'" "g_radio t' = g_radio t"
        "page_index t' = page_index t" "last_page t' = last_page t"
        "rd_channels (g_data t') = (rd_channels (g_data t))[n := rd_channels (g_radio t) ! n]"
        "row_shown p0 res t' n" "\<forall>j. j < 6 \<and> j \<noteq> n \<and> row_shown p0 res t j \<longrightarrow> row_shown p0 res t' j"
        using show_channel_ok [OF _ assms(2) n] P by blast
      have u: "update_channel n t = Some t'" using False l n t'(1) by (simp add: update_channel_def)
      have all: "\<forall>i < 6. row_shown p0 res t' i" using P t'(7,8) by blast
      have "rows_current p0 res (Suc n) t'"
        using P t' n l all by (auto simp: rows_current_def less_Suc_eq)
      then show ?thesis using u all t' P by (auto simp: same_place_def)
    qed
  qed
  then show ?thesis by blast
qed

lemma background_ready:
  assumes "gui_ready p0 res g" and "resources_ok res"
  shows "\<exists>g'. on_lcd (lcd_draw_image9patch (gImage_bg res) 40 40 10 2 42 236 196) g = Some g' \<and>
    gui_ready p0 res g' \<and> same_place g g'"
proof -
  have "lcd_ready p0 (g_lcd g)" using assms(1) by (simp add: gui_ready_def)
  then obtain l where l: "lcd_draw_image9patch (gImage_bg res) 40 40 10 2 42 236 196 (g_lcd g) = Some l"
    "drew p0 (g_lcd g) l (box 2 42 236 196 (nine_patch (u16s_of (gImage_bg res)) 40 40 10 236 196))"
    using nine_patch_drawn [of p0 "g_lcd g" 10 40 40 236 196 2 42 "gImage_bg res"] assms(2)
    by (auto simp: resources_ok_def)
  then show ?thesis
    using assms(1) drew_ready [OF l(2)] drew_font [OF l(2)]
    by (simp add: on_lcd_def gui_ready_def same_place_def)
qed

section \<open>The mode line\<close>

lemma mode_line_keeps:
  assumes "gui_ready p0 res g" and "resources_ok res" and "unat x + length t * 14 \<le> 240"
    and "\<forall>ch \<in> set t. 32 \<le> unat ch \<and> unat ch \<le> 126"
  shows "\<exists>g'. on_lcd (lcd_draw_text x 190 t fg bg) g = Some g' \<and> keeps_rows p0 res g g'"
proof (rule on_lcd_keeps [OF assms(1,2)])
  note f = font20 [OF assms(2)]
  show "\<exists>l. lcd_draw_text x 190 t fg bg (g_lcd g) = Some l \<and> drew p0 (g_lcd g) l
      (text_overlay (ascii_font20 res) fg bg (text_layout (ascii_font20 res) (x, 190) t))"
    using assms(1,4) by (intro text_drawn) (simp_all add: gui_ready_def f(1,2))
  show "off_rows (text_overlay (ascii_font20 res) fg bg (text_layout (ascii_font20 res) (x, 190) t))"
    unfolding off_rows_def
  proof (intro allI impI)
    fix q :: "nat \<times> nat" assume "60 \<le> snd q \<and> snd q < 180"
    then show "text_overlay (ascii_font20 res) fg bg (text_layout (ascii_font20 res) (x, 190) t) q = None"
      using assms(3) by (intro overlay_rows) (simp_all add: f)
  qed
qed

lemma mode_area_keeps:
  assumes "gui_ready p0 res g" and "resources_ok res"
  shows "\<exists>g'. on_lcd (lcd_fill_rect 80 190 200 210 c) g = Some g' \<and> keeps_rows p0 res g g'"
proof (rule on_lcd_keeps [OF assms])
  let ?f = "\<lambda>q. if inside 80 190 200 210 q \<and> fst q < 240 \<and> snd q < 240 then Some c else None"
  have r: "pn_little (shown p0 (g_lcd g))" "length (lcd_buffer (g_lcd g)) = LCD_BUFFER_SIZE"
    using assms(1) by (simp_all add: gui_ready_def lcd_ready_def)
  obtain l where "lcd_fill_rect 80 190 200 210 c (g_lcd g) = Some l" "default_font l = default_font (g_lcd g)"
    "length (lcd_buffer l) = LCD_BUFFER_SIZE" "pn_little (shown p0 l)"
    "pn_on (shown p0 l) = pn_on (shown p0 (g_lcd g))"
    "\<forall>q. pn_frame (shown p0 l) q =
      (if inside 80 190 200 210 q \<and> fst q < 240 \<and> snd q < 240 then c else pn_frame (shown p0 (g_lcd g)) q)"
    using fill_rect_drawn [OF r(1), of 80 200 190 210 c] r(2) by auto
  then show "\<exists>l. lcd_fill_rect 80 190 200 210 c (g_lcd g) = Some l \<and> drew p0 (g_lcd g) l ?f"
    by (auto simp: drew_def)
  show "off_rows ?f" by (auto simp: off_rows_def inside_def)
qed

lemma ready_modes:
  "gui_ready p0 res g \<Longrightarrow> unat (flight_mode (g_radio g)) < 3 \<and> unat (new_mode (g_radio g)) < 3"
  by (simp add: gui_ready_def radio_shape_def)

lemma mode_label: "str_bytes ''Mode'' @ str_bytes '':'' @ m = [77, 111, 100, 101, 58] @ m"
  by (simp add: str_bytes_def)

text \<open>Steps that change only what neither the rows nor the texts depend on.\<close>

lemma fields_keep:
  assumes "gui_ready p0 res g" and "g_lcd g' = g_lcd g" and "g_radio g' = g_radio g"
    and "rd_channels (g_data g') = rd_channels (g_data g)" and "page_index g' = page_index g"
    and "last_page g' = last_page g"
  shows "keeps_rows p0 res g g'"
  using assms by (simp add: keeps_rows_def gui_ready_def row_shown_def)

lemma mode_redraw:
  assumes "gui_ready p0 res g" and "resources_ok res" and "unat m < 3"
  shows "\<exists>g1 g2 t. on_lcd (lcd_fill_rect 80 190 200 210 c) g = Some g1 \<and> mode_text m = Some t \<and>
    disp_text (str_bytes ''Mode'' @ str_bytes '':'' @ t) \<noteq> None \<and>
    on_lcd (lcd_draw_text 80 190 t fg bg) g1 = Some g2 \<and> keeps_rows p0 res g g1 \<and> keeps_rows p0 res g g2"
proof -
  obtain g1 where g1: "on_lcd (lcd_fill_rect 80 190 200 210 c) g = Some g1" "keeps_rows p0 res g g1"
    using mode_area_keeps [OF assms(1,2)] by blast
  obtain t where t: "mode_text m = Some t" "length t \<le> 8" "\<forall>ch \<in> set t. 32 \<le> unat ch \<and> unat ch \<le> 126"
    using mode_text_ok [OF assms(3)] by blast
  have r1: "gui_ready p0 res g1" using g1(2) by (simp add: keeps_rows_def)
  obtain g2 where g2: "on_lcd (lcd_draw_text 80 190 t fg bg) g1 = Some g2" "keeps_rows p0 res g1 g2"
    using mode_line_keeps [OF r1 assms(2) _ t(3), of 80] t(2) by auto
  have "disp_text (str_bytes ''Mode'' @ str_bytes '':'' @ t) \<noteq> None"
    using t(2) unfolding mode_label by (simp add: disp_text_def)
  then show ?thesis using g1 g2 t(1) keeps_rows_trans [OF g1(2) g2(2)] by blast
qed

lemma page0_flash_keeps:
  assumes "gui_ready p0 res g" and "resources_ok res"
  shows "\<exists>g'. page0_flash now2 g = Some g' \<and> keeps_rows p0 res g g'"
proof -
  define g1 where "g1 = g\<lparr>mode_last_tick := now2, mode_flash := (if mode_flash g = 0 then 1 else 0), mode_reflush := 1\<rparr>"
  have k: "keeps_rows p0 res g g1" by (rule fields_keep [OF assms(1)]) (simp_all add: g1_def)
  then have r: "gui_ready p0 res g1" by (simp add: keeps_rows_def)
  have m: "g_radio g' = g_radio g1 \<and> mode_flash g' = mode_flash g1" if "on_lcd f g1 = Some g'" for f g'
    using that by (auto simp: on_lcd_def split: Option.bind_splits)
  obtain g2 g3 t where "on_lcd (lcd_fill_rect 80 190 200 210 gui_bgcolor) g1 = Some g2"
    "mode_text (new_mode (g_radio g1)) = Some t" "disp_text (str_bytes ''Mode'' @ str_bytes '':'' @ t) \<noteq> None"
    "on_lcd (lcd_draw_text 80 190 t gui_color (if mode_flash g1 \<noteq> 0 then gui_bgcolor else LIGHTGREEN)) g2 = Some g3"
    "keeps_rows p0 res g1 g3"
    using mode_redraw [OF r assms(2), of "new_mode (g_radio g1)"] ready_modes [OF r] by metis
  then show ?thesis
    using keeps_rows_trans [OF k] m by (fastforce simp: page0_flash_def g1_def[symmetric] Let_def)
qed

lemma page0_mode_keeps:
  assumes "gui_ready p0 res g" and "resources_ok res"
  shows "\<exists>g'. page0_mode g = Some g' \<and> keeps_rows p0 res g g'"
proof -
  define g1 where "g1 = g\<lparr>mode_reflush := 0, g_data := (g_data g)\<lparr>flight_mode := flight_mode (g_radio g)\<rparr>\<rparr>"
  have k: "keeps_rows p0 res g g1" by (rule fields_keep [OF assms(1)]) (simp_all add: g1_def)
  then have r: "gui_ready p0 res g1" by (simp add: keeps_rows_def)
  have m: "g_radio g' = g_radio g1" if "on_lcd f g1 = Some g'" for f g'
    using that by (auto simp: on_lcd_def split: Option.bind_splits)
  obtain g2 g3 t where "on_lcd (lcd_fill_rect 80 190 200 210 gui_bgcolor) g1 = Some g2"
    "mode_text (flight_mode (g_radio g1)) = Some t" "disp_text (str_bytes ''Mode'' @ str_bytes '':'' @ t) \<noteq> None"
    "on_lcd (lcd_draw_text 80 190 t gui_color gui_bgcolor) g2 = Some g3" "keeps_rows p0 res g1 g3"
    using mode_redraw [OF r assms(2), of "flight_mode (g_radio g1)"] ready_modes [OF r] by metis
  then show ?thesis
    using keeps_rows_trans [OF k] m by (fastforce simp: page0_mode_def g1_def[symmetric] Let_def)
qed

section \<open>Pages and updates\<close>

definition current :: "panel \<Rightarrow> resources \<Rightarrow> gui_sys \<Rightarrow> bool" where
  "current p0 res g \<longleftrightarrow> gui_ready p0 res g \<and> rows_current p0 res 6 g"

lemma keeps_current: "keeps_rows p0 res g g' \<Longrightarrow> rows_current p0 res 6 g \<Longrightarrow> current p0 res g'"
  using keeps_rows_current [of p0 res g g' 6] by (simp add: current_def keeps_rows_def)

lemma keeps_place: "keeps_rows p0 res g g' \<Longrightarrow> page_index g' = page_index g \<and> last_page g' = last_page g \<and>
    rd_channels (g_radio g') = rd_channels (g_radio g)"
  by (simp add: keeps_rows_def)

text \<open>What every page operation gives: the rows are current, the page and the channels are unchanged.\<close>

definition page_done :: "panel \<Rightarrow> resources \<Rightarrow> gui_sys \<Rightarrow> gui_sys \<Rightarrow> bool" where
  "page_done p0 res g g' \<longleftrightarrow> current p0 res g' \<and> page_index g' = page_index g \<and>
     last_page g' = last_page g \<and> rd_channels (g_radio g') = rd_channels (g_radio g)"

lemma channel_page:
  assumes "gui_ready p0 res g" and "resources_ok res"
  shows "\<exists>g1 g'. on_lcd (lcd_draw_image9patch (gImage_bg res) 40 40 10 2 42 236 196) g = Some g1 \<and>
    for_loop show_channel [0..<6] g1 = Some g' \<and> page_done p0 res g g' \<and> g_radio g' = g_radio g"
proof -
  obtain g1 where g1: "on_lcd (lcd_draw_image9patch (gImage_bg res) 40 40 10 2 42 236 196) g = Some g1"
    "gui_ready p0 res g1" "same_place g g1"
    using background_ready [OF assms] by blast
  obtain g2 where "for_loop show_channel [0..<6] g1 = Some g2" "gui_ready p0 res g2" "same_place g1 g2"
    "rows_current p0 res 6 g2"
    using show_all [OF g1(2) assms(2)] by blast
  then show ?thesis using g1 by (auto simp: page_done_def current_def same_place_def)
qed

lemma page0_init_done:
  assumes "gui_ready p0 res g" and "resources_ok res"
  shows "\<exists>g'. page0_init res g = Some g' \<and> page_done p0 res g g'"
proof -
  obtain g1 g2 where g12: "on_lcd (lcd_draw_image9patch (gImage_bg res) 40 40 10 2 42 236 196) g = Some g1"
    "for_loop show_channel [0..<6] g1 = Some g2" "page_done p0 res g g2"
    using channel_page [OF assms] by blast
  define g3 where "g3 = g2\<lparr>g_data := (g_data g2)\<lparr>flight_mode := flight_mode (g_radio g2)\<rparr>\<rparr>"
  have r2: "gui_ready p0 res g2" using g12(3) by (simp add: page_done_def current_def)
  have k: "keeps_rows p0 res g2 g3" by (rule fields_keep [OF r2]) (simp_all add: g3_def)
  then have r3: "gui_ready p0 res g3" by (simp add: keeps_rows_def)
  have "unat (flight_mode (g_radio g3)) < 3" using ready_modes [OF r3] by blast
  then obtain m where m: "mode_text (flight_mode (g_radio g3)) = Some m" "length m \<le> 8"
    "\<forall>ch \<in> set m. 32 \<le> unat ch \<and> unat ch \<le> 126"
    using mode_text_ok by blast
  obtain g4 where g4: "on_lcd (lcd_draw_text 10 190 ([77, 111, 100, 101, 58] @ m) gui_color gui_bgcolor) g3 = Some g4"
    "keeps_rows p0 res g3 g4"
    using mode_line_keeps [OF r3 assms(2), of 10 "[77, 111, 100, 101, 58] @ m" gui_color gui_bgcolor] m(2,3) by auto
  have gr: "g_radio g3 = g_radio g2" by (simp add: g3_def)
  have "page0_init res g = Some g4"
    using g12(1,2) m(1)[unfolded gr] m(2) g4(1)
    by (simp add: page0_init_def g3_def[symmetric] mode_label disp_text_def Let_def del: append_Cons append_Nil)
  moreover have "page_done p0 res g g4"
    using keeps_current [OF keeps_rows_trans [OF k g4(2)]] keeps_place [OF k] keeps_place [OF g4(2)] g12(3)
    by (simp add: page_done_def current_def)
  ultimately show ?thesis by blast
qed

lemma page0_update_done:
  assumes "gui_ready p0 res g" and "resources_ok res" and "\<forall>i < 6. row_shown p0 res g i"
  shows "\<exists>g'. page0_update now1 now2 g = Some g' \<and> page_done p0 res g g'"
proof -
  obtain g1 where g1: "for_loop update_channel [0..<6] g = Some g1" "gui_ready p0 res g1" "same_place g g1"
    "rows_current p0 res 6 g1"
    using update_all [OF assms] by blast
  have d: "page_done p0 res g g'" if "keeps_rows p0 res g1 g'" for g'
    using keeps_current [OF that g1(4)] keeps_place [OF that] g1(3) by (simp add: page_done_def same_place_def)
  have self: "keeps_rows p0 res g1 g1" using g1(2) by (rule fields_keep) simp_all
  show ?thesis
    using g1(1) d [OF self] d page0_flash_keeps [OF g1(2) assms(2), of now2] page0_mode_keeps [OF g1(2) assms(2)]
    by (auto simp: page0_update_def)
qed

lemma page_update_done:
  assumes "gui_ready p0 res g" and "resources_ok res" and "\<forall>i < 6. row_shown p0 res g i"
  shows "\<exists>g'. page1_update g = Some g' \<and> page_done p0 res g g'"
    and "\<exists>g'. page2_update g = Some g' \<and> page_done p0 res g g'"
  using update_all [OF assms] by (auto simp: page1_update_def page2_update_def page_done_def current_def same_place_def)

lemma page_init_done:
  assumes "gui_ready p0 res g" and "resources_ok res"
  shows "\<exists>g'. page1_init res g = Some g' \<and> page_done p0 res g g'"
    and "\<exists>g'. page2_init res g = Some g' \<and> page_done p0 res g g'"
  using channel_page [OF assms] by (auto simp: page1_init_def page2_init_def)

lemma page_turn_done:
  assumes "gui_ready p0 res g" and "\<forall>i < 6. row_shown p0 res g i"
    and "\<And>h. gui_ready p0 res h \<Longrightarrow> \<exists>g'. init h = Some g' \<and> page_done p0 res h g'"
    and "\<exists>g'. update g = Some g' \<and> page_done p0 res g g'"
  shows "\<exists>g'. page_turn init update g = Some g' \<and> current p0 res g' \<and>
    rd_channels (g_radio g') = rd_channels (g_radio g)"
proof (cases "last_page g = page_index g")
  case True
  then show ?thesis using assms(4) by (auto simp: page_turn_def page_done_def)
next
  case False
  let ?h = "g\<lparr>last_page := page_index g\<rparr>"
  have "gui_ready p0 res ?h" using assms(1) by (simp add: gui_ready_def)
  from assms(3) [OF this] show ?thesis using False by (auto simp: page_turn_def page_done_def)
qed

lemma row_shown_page:
  "row_shown p0 res (g\<lparr>page_index := n\<rparr>) i = row_shown p0 res g i"
  "row_shown p0 res (g\<lparr>page_index := n, last_page := k\<rparr>) i = row_shown p0 res g i"
  by (simp_all add: row_shown_def)

lemma current_page:
  "current p0 res (g\<lparr>page_index := n\<rparr>) = current p0 res g"
  "current p0 res (g\<lparr>page_index := n, last_page := k\<rparr>) = current p0 res g"
  by (simp_all add: current_def gui_ready_def rows_current_def row_shown_page)

lemma gui_update_current:
  assumes "gui_ready p0 res g" and "resources_ok res" and "\<forall>i < 6. row_shown p0 res g i"
  shows "\<exists>g'. gui_update res now1 now2 now3 now4 g = Some g' \<and> current p0 res g' \<and>
    rd_channels (g_radio g') = rd_channels (g_radio g)"
proof -
  obtain g1 where g1: "statusbar_update res now1 now2 g = Some g1" "keeps_rows p0 res g g1"
    using statusbar_update_keeps [OF assms(1,2)] by blast
  have r1: "gui_ready p0 res g1" and s1: "\<forall>i < 6. row_shown p0 res g1 i"
    and c1: "rd_channels (g_radio g1) = rd_channels (g_radio g)"
    using g1(2) assms(3) by (simp_all add: keeps_rows_def)
  note inits = page0_init_done [OF _ assms(2)] page_init_done [OF _ assms(2)]
  note upds = page0_update_done [OF r1 assms(2) s1, of now3 now4] page_update_done [OF r1 assms(2) s1]
  consider "page_index g1 = 0" | "page_index g1 = 1" | "page_index g1 = 2"
    | "page_index g1 \<noteq> 0" "page_index g1 \<noteq> 1" "page_index g1 \<noteq> 2" by blast
  then show ?thesis
  proof cases
    case 1
    then show ?thesis using page_turn_done [where init = "page0_init res" and update = "page0_update now3 now4", OF r1 s1 inits(1) upds(1)] g1(1) c1 by (simp add: gui_update_def)
  next
    case 2
    then show ?thesis using page_turn_done [where init = "page1_init res" and update = "page1_update", OF r1 s1 inits(2) upds(2)] g1(1) c1 by (simp add: gui_update_def)
  next
    case 3
    then show ?thesis using page_turn_done [where init = "page2_init res" and update = "page2_update", OF r1 s1 inits(3) upds(3)] g1(1) c1 by (simp add: gui_update_def)
  next
    case 4
    obtain g2 where "page0_init res g1 = Some g2" "page_done p0 res g1 g2" using inits(1) [OF r1] by blast
    then show ?thesis using 4 g1(1) c1 by (simp add: gui_update_def page_done_def current_page)
  qed
qed

section \<open>The screen shows the channels\<close>

lemma statusbar_init_ready:
  assumes "lcd_ready p0 (g_lcd g)" and "radio_shape (g_radio g)" and "length (rd_channels (g_data g)) = 8"
    and "list_all s16_range (rd_channels (g_data g))" and "resources_ok res"
  shows "\<exists>g'. statusbar_init res g = Some g' \<and> gui_ready p0 res g' \<and> g_radio g' = g_radio g \<and>
    page_index g' = page_index g \<and> last_page g' = last_page g"
proof -
  obtain l1 where l1: "lcd_draw_image9patch (gImage_bg res) 40 40 10 2 0 236 40 (g_lcd g) = Some l1"
    "drew p0 (g_lcd g) l1 (box 2 0 236 40 (nine_patch (u16s_of (gImage_bg res)) 40 40 10 236 40))"
    using nine_patch_drawn [of p0 "g_lcd g" 10 40 40 236 40 2 0 "gImage_bg res"] assms(1,5)
    by (auto simp: resources_ok_def)
  define l2 where "l2 = lcd_set_font (ascii_font20 res) l1"
  have r2: "lcd_ready p0 l2" "default_font l2 = Some (ascii_font20 res)"
    using drew_ready [OF l1(2)] by (simp_all add: l2_def lcd_set_font_def lcd_ready_def shown_def)
  have "\<forall>ch \<in> set (str_bytes ''Remoter''). char_ok (ascii_font20 res) ch"
    using font20(2) [OF assms(5)] by (simp add: str_bytes_def)
  then obtain l3 f3 where l3: "lcd_draw_text 70 10 (str_bytes ''Remoter'') gui_color gui_bgcolor l2 = Some l3"
    "drew p0 l2 l3 f3"
    using text_drawn [OF r2 font20(1) [OF assms(5)]] by blast
  obtain l4 f4 where l4: "lcd_draw_image (gImage_battery_0 res) 15 5 40 28 l3 = Some l4" "drew p0 l3 l4 f4"
    using image_drawn [OF drew_ready [OF l3(2)], of 40 28 15 5 "gImage_battery_0 res"] assms(5)
    by (auto simp: resources_ok_def)
  obtain l5 f5 where l5: "lcd_draw_image (gImage_rssi_3 res) 185 5 33 28 l4 = Some l5" "drew p0 l4 l5 f5"
    using image_drawn [OF drew_ready [OF l4(2)], of 33 28 185 5 "gImage_rssi_3 res"] assms(5)
    by (auto simp: resources_ok_def)
  have "default_font l5 = Some (ascii_font20 res)"
    using r2(2) drew_font [OF l3(2)] drew_font [OF l4(2)] drew_font [OF l5(2)] by simp
  then show ?thesis
    using l1(1) l3(1) l4(1) l5(1) drew_ready [OF l5(2)] assms(2-4)
    by (simp add: statusbar_init_def on_lcd_def l2_def gui_ready_def)
qed

text \<open>One iteration: another thread has changed \<open>radio\<close> and the page, and the clock has gone on.\<close>

type_synonym gui_input = "u8 \<times> radio_data_t \<times> u32 \<times> u32 \<times> u32 \<times> u32"

fun gui_run :: "resources \<Rightarrow> gui_sys \<Rightarrow> gui_input list \<Rightarrow> gui_sys option" where
  "gui_run res g [] = Some g"
| "gui_run res g ((pg, r, t1, t2, t3, t4) # es) =
     Option.bind (gui_update res t1 t2 t3 t4 (g\<lparr>page_index := pg, g_radio := r\<rparr>)) (\<lambda>g1. gui_run res g1 es)"

definition last_channels :: "gui_sys \<Rightarrow> gui_input list \<Rightarrow> int list" where
  "last_channels g es = rd_channels (if es = [] then g_radio g else fst (snd (last es)))"

lemma gui_run_current:
  assumes "current p0 res g" and "resources_ok res" and "list_all (\<lambda>e. radio_shape (fst (snd e))) es"
  shows "\<exists>g'. gui_run res g es = Some g' \<and> current p0 res g' \<and> rd_channels (g_radio g') = last_channels g es"
  using assms(1,3)
proof (induction es arbitrary: g)
  case (Cons e es)
  obtain pg r t1 t2 t3 t4 where e: "e = (pg, r, t1, t2, t3, t4)" by (cases e)
  let ?h = "g\<lparr>page_index := pg, g_radio := r\<rparr>"
  have h: "gui_ready p0 res ?h" "\<forall>i < 6. row_shown p0 res ?h i"
    using Cons.prems by (simp_all add: current_def gui_ready_def rows_current_def row_shown_def e)
  obtain g1 where g1: "gui_update res t1 t2 t3 t4 ?h = Some g1" "current p0 res g1"
    "rd_channels (g_radio g1) = rd_channels r"
    using gui_update_current [OF h(1) assms(2) h(2), of t1 t2 t3 t4] by auto
  obtain g' where "gui_run res g1 es = Some g'" "current p0 res g'"
    "rd_channels (g_radio g') = last_channels g1 es"
    using Cons.IH [OF g1(2)] Cons.prems(2) by auto
  then show ?case using g1 by (auto simp: e last_channels_def)
qed (simp add: last_channels_def)

text \<open>
  C5: The screen shows the channels: from any state of a panel that expects the low byte first, the
  start of the screen thread and any number of its iterations succeed (no array is left, no wait hangs),
  whatever the clock says and whatever page and values the other threads store in between, as long as
  the flight modes are those the control loop uses. Afterwards each of the six channel rows shows,
  pixel by pixel, the text of that channel's last value.
\<close>

theorem screen_shows_channels:
  assumes "resources_ok res" and "lcd_ready p0 (g_lcd g)" and "radio_shape (g_radio g)"
    and "rd_channels (g_data g) = replicate 8 0" and "list_all (\<lambda>e. radio_shape (fst (snd e))) es"
  shows "\<exists>g1 g'. gui_init res g = Some g1 \<and> gui_run res g1 es = Some g' \<and>
    (\<forall>i < 6. \<forall>q c. row_overlay res i (last_channels g1 es ! i) q = Some c \<longrightarrow>
       pn_frame (shown p0 (g_lcd g')) q = c)"
proof -
  obtain g0 where g0: "statusbar_init res g = Some g0" "gui_ready p0 res g0"
  proof -
    have "length (rd_channels (g_data g)) = 8" "list_all s16_range (rd_channels (g_data g))"
      using assms(4) by (simp_all add: s16_range_def list_all_length)
    from statusbar_init_ready [OF assms(2,3) this assms(1)] show ?thesis using that by blast
  qed
  note inits = page0_init_done [OF g0(2) assms(1)] page_init_done [OF g0(2) assms(1)]
  have "\<exists>g1. gui_init res g = Some g1 \<and> current p0 res g1"
    using g0(1) inits by (auto simp: gui_init_def page_done_def current_page)
  then obtain g1 where g1: "gui_init res g = Some g1" "current p0 res g1" by blast
  obtain g' where g': "gui_run res g1 es = Some g'" "current p0 res g'"
    "rd_channels (g_radio g') = last_channels g1 es"
    using gui_run_current [OF g1(2) assms(1,5)] by blast
  then have "\<forall>i < 6. \<forall>q c. row_overlay res i (last_channels g1 es ! i) q = Some c \<longrightarrow>
      pn_frame (shown p0 (g_lcd g')) q = c"
    by (auto simp: current_def rows_current_def row_shown_def simp del: split_paired_All)
  then show ?thesis using g1(1) g'(1) by blast
qed

definition sample_radio :: "int \<Rightarrow> radio_data_t" where
  "sample_radio v = \<lparr>rd_channels = replicate 8 v, last_update = 0, battery_level = 0, rssi = 0,
     poweron_flag = False, linkup_flag = False, bind_flag = False, calibra_step = 0, flight_mode = 1,
     new_mode = 2\<rparr>"

definition sample_res :: resources where
  "sample_res = \<lparr>gImage_bg = replicate 3200 0, gImage_battery_0 = replicate 2240 0,
     gImage_battery_1 = replicate 2240 0, gImage_battery_2 = replicate 2240 0,
     gImage_battery_3 = replicate 2240 0, gImage_battery_4 = replicate 2240 0,
     gImage_rssi_0 = replicate 1848 0, gImage_rssi_1 = replicate 1848 0, gImage_rssi_2 = replicate 1848 0,
     gImage_rssi_3 = replicate 1848 0,
     ascii_font20 = \<lparr>font_table = replicate 3800 0xFF, font_width = 14, font_height = 20\<rparr>\<rparr>"

definition sample_gui :: gui_sys where
  "sample_gui = \<lparr>g_lcd = sample_lcd, g_radio = sample_radio 1500, g_data = sample_radio 0, page_index = 0,
     mode_flash = 0, mode_last_tick = 0, mode_reflush = 0, status_tick = 0, last_page = 0\<rparr>"

lemma sample_radio_shape: "s16_range v \<Longrightarrow> radio_shape (sample_radio v)"
  by (simp add: radio_shape_def sample_radio_def list_all_length)

theorem screen_shows_channels_witness:
  "\<exists>g1 g'. gui_init sample_res sample_gui = Some g1 \<and>
    gui_run sample_res g1 [(0, sample_radio 1000, 0, 0, 0, 0), (2, sample_radio 1999, 200, 200, 700, 700)] = Some g' \<and>
    (\<forall>i < 6. \<forall>q c. row_overlay sample_res i (last_channels g1
         [(0, sample_radio 1000, 0, 0, 0, 0), (2, sample_radio 1999, 200, 200, 700, 700)] ! i) q = Some c \<longrightarrow>
       pn_frame (shown sample_panel (g_lcd g')) q = c)"
  by (rule screen_shows_channels)
     (simp_all add: resources_ok_def sample_res_def lcd_ready_def shown_def sample_gui_def sample_lcd_def
       sample_panel_def LCD_BUFFER_SIZE_def sample_radio_shape s16_range_def, simp add: sample_radio_def)

end
