(* ===== verification/Adc.thy ===== *)
theory Adc
  imports Gpio
begin

text \<open>
  The analogue inputs of the controller (\<open>Firmware/drivers/drv_adc.c\<close>) over the ADC functions
  of the peripheral library (\<open>StdPeriphDriver/CH58x_adc.c\<close>), and the temperature measurement of
  \<open>Firmware/drivers/HAL.c\<close>, which uses the same converter.

  The registers are a record. The converter itself is hardware: \<open>adc_finish v\<close> is the end of a
  running conversion with the result \<open>v\<close>, and a function \<open>volt\<close> from the selected channel and the
  configuration to the result stands for the inputs. A busy loop on the start bit, which the
  register header documents as cleared by the hardware, is the end of the conversion it waits
  for.
\<close>

section \<open>Registers\<close>

definition CH_EXTIN_6 :: u8 where "CH_EXTIN_6 = 6"
definition CH_EXTIN_7 :: u8 where "CH_EXTIN_7 = 7"
definition CH_EXTIN_8 :: u8 where "CH_EXTIN_8 = 8"
definition CH_EXTIN_9 :: u8 where "CH_EXTIN_9 = 9"
definition CH_EXTIN_11 :: u8 where "CH_EXTIN_11 = 11"
definition CH_INTE_VTEMP :: u8 where "CH_INTE_VTEMP = 15"

lemmas adc_channel_defs = CH_EXTIN_6_def CH_EXTIN_7_def CH_EXTIN_8_def CH_EXTIN_9_def
  CH_EXTIN_11_def CH_INTE_VTEMP_def

definition RB_ADC_POWER_ON :: u8 where "RB_ADC_POWER_ON = 0x01"
definition RB_ADC_BUF_EN :: u8 where "RB_ADC_BUF_EN = 0x02"
definition RB_ADC_DIFF_EN :: u8 where "RB_ADC_DIFF_EN = 0x04"
definition RB_ADC_OFS_TEST :: u8 where "RB_ADC_OFS_TEST = 0x08"
definition RB_ADC_START :: u8 where "RB_ADC_START = 0x01"
definition RB_TEM_SEN_PWR_ON :: u8 where "RB_TEM_SEN_PWR_ON = 0x80"
definition RB_ADC_DATA :: u16 where "RB_ADC_DATA = 0x0FFF"
definition RB_ADC_IF_EOC :: u8 where "RB_ADC_IF_EOC = 0x80"
definition RB_TKEY_PWR_ON :: u8 where "RB_TKEY_PWR_ON = 0x01"
definition SampleFreq_8 :: u8 where "SampleFreq_8 = 1"
definition ADC_PGA_1_2 :: u8 where "ADC_PGA_1_2 = 1"

lemmas adc_bits = RB_ADC_POWER_ON_def RB_ADC_BUF_EN_def RB_ADC_DIFF_EN_def RB_ADC_OFS_TEST_def
  RB_ADC_START_def RB_TEM_SEN_PWR_ON_def RB_ADC_DATA_def RB_ADC_IF_EOC_def RB_TKEY_PWR_ON_def
  SampleFreq_8_def ADC_PGA_1_2_def

record adc_regs =
  R8_TKEY_CFG :: u8
  R8_ADC_CHANNEL :: u8
  R8_ADC_CFG :: u8
  R8_ADC_CONVERT :: u8
  R8_TEM_SENSOR :: u8
  R16_ADC_DATA :: u16
  R8_ADC_INT_FLAG :: u8

text \<open>Writing the convert register also clears the end-of-conversion flag.\<close>

definition write_convert :: "adc_regs \<Rightarrow> u8 \<Rightarrow> adc_regs" where
  "write_convert r v = r\<lparr>R8_ADC_CONVERT := v,
     R8_ADC_INT_FLAG := R8_ADC_INT_FLAG r AND NOT RB_ADC_IF_EOC\<rparr>"

definition ADC_ChannelCfg :: "adc_regs \<Rightarrow> u8 \<Rightarrow> adc_regs" where
  "ADC_ChannelCfg r d = r\<lparr>R8_ADC_CHANNEL := d\<rparr>"

definition ADC_StartUp :: "adc_regs \<Rightarrow> adc_regs" where
  "ADC_StartUp r = write_convert r RB_ADC_START"

definition ADC_ClearITFlag :: "adc_regs \<Rightarrow> adc_regs" where
  "ADC_ClearITFlag r = write_convert r 0"

definition ADC_GetITStatus :: "adc_regs \<Rightarrow> u8" where
  "ADC_GetITStatus r = R8_ADC_INT_FLAG r AND RB_ADC_IF_EOC"

definition ADC_ReadConverValue :: "adc_regs \<Rightarrow> u16" where
  "ADC_ReadConverValue r = R16_ADC_DATA r"

definition converting :: "adc_regs \<Rightarrow> bool" where
  "converting r \<longleftrightarrow> R8_ADC_CONVERT r AND RB_ADC_START \<noteq> 0"

definition adc_finish :: "u16 \<Rightarrow> adc_regs \<Rightarrow> adc_regs" where
  "adc_finish v r =
     (if converting r
      then r\<lparr>R8_ADC_CONVERT := R8_ADC_CONVERT r AND NOT RB_ADC_START, R16_ADC_DATA := v,
             R8_ADC_INT_FLAG := R8_ADC_INT_FLAG r OR RB_ADC_IF_EOC\<rparr>
      else r)"

lemmas adc_reg_defs = write_convert_def ADC_ChannelCfg_def ADC_StartUp_def ADC_ClearITFlag_def
  ADC_GetITStatus_def ADC_ReadConverValue_def converting_def adc_finish_def

section \<open>Library functions\<close>

definition ADC_ExtSingleChSampInit :: "adc_regs \<Rightarrow> u8 \<Rightarrow> u8 \<Rightarrow> adc_regs" where
  "ADC_ExtSingleChSampInit r sp ga =
     r\<lparr>R8_TKEY_CFG := R8_TKEY_CFG r AND NOT RB_TKEY_PWR_ON,
       R8_ADC_CFG := RB_ADC_POWER_ON OR RB_ADC_BUF_EN OR push_bit 6 sp OR push_bit 4 ga\<rparr>"

definition ADC_InterTSSampInit :: "adc_regs \<Rightarrow> adc_regs" where
  "ADC_InterTSSampInit r =
     r\<lparr>R8_TKEY_CFG := R8_TKEY_CFG r AND NOT RB_TKEY_PWR_ON,
       R8_TEM_SENSOR := RB_TEM_SEN_PWR_ON,
       R8_ADC_CHANNEL := CH_INTE_VTEMP,
       R8_ADC_CFG := RB_ADC_POWER_ON OR RB_ADC_DIFF_EN OR push_bit 4 3\<rparr>"

text \<open>One conversion waited for by polling; the hardware ends it with \<open>v\<close>.\<close>

definition ADC_ExcutSingleConver :: "u16 \<Rightarrow> adc_regs \<Rightarrow> u16 \<times> adc_regs" where
  "ADC_ExcutSingleConver v r =
     (let r1 = adc_finish v (write_convert r RB_ADC_START) in (R16_ADC_DATA r1 AND RB_ADC_DATA, r1))"

text \<open>
  The offset calibration: one conversion to settle, then the sum of sixteen, whose results the
  environment gives as \<open>ofs 0\<close> to \<open>ofs 16\<close>.
\<close>

fun calib_loop :: "(nat \<Rightarrow> u16) \<Rightarrow> nat \<Rightarrow> nat \<Rightarrow> adc_regs \<Rightarrow> u32 \<Rightarrow> adc_regs \<times> u32" where
  "calib_loop ofs i 0 r acc = (r, acc)"
| "calib_loop ofs i (Suc n) r acc =
     (let r1 = adc_finish (ofs (Suc i)) (write_convert r RB_ADC_START)
      in calib_loop ofs (Suc i) n r1 (acc + ucast (NOT (R16_ADC_DATA r1) AND RB_ADC_DATA)))"

definition ADC_DataCalib_Rough :: "(nat \<Rightarrow> u16) \<Rightarrow> adc_regs \<Rightarrow> int \<times> adc_regs" where
  "ADC_DataCalib_Rough ofs r =
     (let ch = R8_ADC_CHANNEL r;
          ctrl = R8_ADC_CFG r;
          r1 = ADC_ChannelCfg (r\<lparr>R8_ADC_CFG := 0\<rparr>) 1;
          r2 = r1\<lparr>R8_ADC_CFG := R8_ADC_CFG r1 OR (RB_ADC_OFS_TEST OR RB_ADC_POWER_ON OR push_bit 4 2)\<rparr>;
          r3 = adc_finish (ofs 0) (write_convert r2 RB_ADC_START);
          (r4, acc) = calib_loop ofs 0 16 r3 0;
          avg = drop_bit 4 (acc + 8);
          r5 = r4\<lparr>R8_ADC_CFG := R8_ADC_CFG r4 AND NOT RB_ADC_OFS_TEST\<rparr>
      in (to_s16 (uint (2048 - avg)), r5\<lparr>R8_ADC_CHANNEL := ch, R8_ADC_CFG := ctrl\<rparr>))"

section \<open>The driver\<close>

definition ADC_CHANNEL_MAX :: nat where "ADC_CHANNEL_MAX = 6"

definition ADC_CHANNEL_1 :: u8 where "ADC_CHANNEL_1 = 0"
definition ADC_CHANNEL_2 :: u8 where "ADC_CHANNEL_2 = 1"
definition ADC_CHANNEL_3 :: u8 where "ADC_CHANNEL_3 = 2"
definition ADC_CHANNEL_4 :: u8 where "ADC_CHANNEL_4 = 3"

definition adc_channel_map :: "u8 list" where
  "adc_channel_map = [CH_EXTIN_9, CH_EXTIN_8, CH_EXTIN_7, CH_EXTIN_6, CH_EXTIN_11, CH_INTE_VTEMP]"

lemma length_adc_channel_map [simp]: "length adc_channel_map = 6"
  by (simp add: adc_channel_map_def)

record adc_sys =
  adc_gpio :: gpio
  adc_hw :: adc_regs
  adc_irq :: bool \<comment> \<open>enabled in the interrupt controller\<close>
  adc_buffer :: "u16 list"
  RoughCalib_Value :: int
  wait_sem :: nat
  conver_index :: u8

abbreviation upd_hw :: "(adc_regs \<Rightarrow> adc_regs) \<Rightarrow> adc_sys \<Rightarrow> adc_sys" where
  "upd_hw f s \<equiv> s\<lparr>adc_hw := f (adc_hw s)\<rparr>"

definition ADC_SingleConver :: "u16 \<Rightarrow> adc_sys \<Rightarrow> u16 \<times> adc_sys" where
  "ADC_SingleConver v s =
     (let r1 = adc_finish v (write_convert (adc_hw s) RB_ADC_START)
      in (R16_ADC_DATA r1 AND RB_ADC_DATA, s\<lparr>adc_hw := r1\<rparr>))"

definition adc_hw_init :: "(nat \<Rightarrow> u16) \<Rightarrow> adc_sys \<Rightarrow> adc_sys" where
  "adc_hw_init ofs s =
     (let g = foldl (\<lambda>g n. GPIOA_ModeCfg g (GPIO_Pin n) GPIO_ModeIN_Floating) (adc_gpio s) [0, 1, 2, 3, 7];
          r1 = ADC_ExtSingleChSampInit (adc_hw s) SampleFreq_8 ADC_PGA_1_2;
          (c, r2) = ADC_DataCalib_Rough ofs r1
      in s\<lparr>adc_gpio := g, adc_hw := r2, RoughCalib_Value := c, wait_sem := 0, adc_irq := True\<rparr>)"

definition adc_read :: "adc_sys \<Rightarrow> u8 \<Rightarrow> u16 option" where
  "adc_read s ch =
     (if unat ch < ADC_CHANNEL_MAX
      then map_option (\<lambda>v. word_of_int (uint v + RoughCalib_Value s)) (arr_get (adc_buffer s) (unat ch))
      else Some 0)"

text \<open>
  The interrupt at the end of a conversion. Releasing the semaphore to a waiting thread is
  raising it and letting the thread take it.
\<close>

definition ADC_IRQHandler :: "adc_sys \<Rightarrow> adc_sys option" where
  "ADC_IRQHandler s =
     (if ADC_GetITStatus (adc_hw s) \<noteq> 0 then
        let s1 = upd_hw ADC_ClearITFlag s in
        if unat (conver_index s1) < ADC_CHANNEL_MAX then do {
          buf \<leftarrow> arr_set (adc_buffer s1) (unat (conver_index s1)) (ADC_ReadConverValue (adc_hw s1));
          let s2 = s1\<lparr>adc_buffer := buf, conver_index := conver_index s1 + 1\<rparr>;
          if unat (conver_index s2) < ADC_CHANNEL_MAX then do {
            ch \<leftarrow> arr_get adc_channel_map (unat (conver_index s2));
            Some (upd_hw (\<lambda>r. ADC_StartUp (ADC_ChannelCfg r ch)) s2)
          } else Some (s2\<lparr>wait_sem := wait_sem s2 + 1\<rparr>)
        } else Some s1
      else Some s)"

text \<open>A conversion ends: the flag is set, and the interrupt runs when it is enabled.\<close>

definition adc_eoc :: "(u8 \<Rightarrow> u8 \<Rightarrow> u16) \<Rightarrow> adc_sys \<Rightarrow> adc_sys option" where
  "adc_eoc volt s =
     (let s1 = upd_hw (adc_finish (volt (R8_ADC_CHANNEL (adc_hw s)) (R8_ADC_CFG (adc_hw s)))) s
      in if adc_irq s1 then ADC_IRQHandler s1 else Some s1)"

fun adc_run :: "(u8 \<Rightarrow> u8 \<Rightarrow> u16) \<Rightarrow> nat \<Rightarrow> adc_sys \<Rightarrow> adc_sys option" where
  "adc_run volt 0 s = Some s"
| "adc_run volt (Suc n) s = Option.bind (adc_eoc volt s) (adc_run volt n)"

text \<open>
  \<open>adc_multi_convert\<close>, when \<open>k\<close> conversions end within the 50 ticks that \<open>rt_sem_take\<close> waits. A
  semaphore that is up is taken at once; after the timeout the function returns all the same.
\<close>

definition adc_begin :: "adc_sys \<Rightarrow> adc_sys option" where
  "adc_begin s = do {
     let s1 = s\<lparr>conver_index := 0\<rparr>;
     ch \<leftarrow> arr_get adc_channel_map (unat (conver_index s1));
     Some (upd_hw (\<lambda>r. ADC_StartUp (ADC_ClearITFlag (ADC_ChannelCfg r ch))) s1)
   }"

definition adc_multi_convert :: "(u8 \<Rightarrow> u8 \<Rightarrow> u16) \<Rightarrow> nat \<Rightarrow> adc_sys \<Rightarrow> adc_sys option" where
  "adc_multi_convert volt k s = do {
     s1 \<leftarrow> adc_begin s;
     if wait_sem s1 > 0 then Some (s1\<lparr>wait_sem := wait_sem s1 - 1\<rparr>)
     else do {
       s2 \<leftarrow> adc_run volt k s1;
       if wait_sem s2 > 0 then Some (s2\<lparr>wait_sem := wait_sem s2 - 1\<rparr>) else Some s2
     }
   }"

text \<open>
  \<open>HAL_GetInterTempValue\<close>: it saves the registers, selects the sensor and starts a conversion,
  polls the start bit, and puts the registers back. The interrupt is not masked, so the polling is
  a number of ended conversions, whose interrupts may start further ones, until the bit reads 0.
\<close>

definition temp_begin :: "adc_sys \<Rightarrow> adc_sys" where
  "temp_begin s = upd_hw (\<lambda>r. let r1 = ADC_InterTSSampInit r
     in write_convert r1 (R8_ADC_CONVERT r1 OR RB_ADC_START)) s"

partial_function (option) temp_poll :: "(u8 \<Rightarrow> u8 \<Rightarrow> u16) \<Rightarrow> adc_sys \<Rightarrow> adc_sys option" where
  "temp_poll volt s =
     (if converting (adc_hw s) then Option.bind (adc_eoc volt s) (temp_poll volt) else Some s)"

definition HAL_GetInterTempValue :: "(u8 \<Rightarrow> u8 \<Rightarrow> u16) \<Rightarrow> adc_sys \<Rightarrow> (u16 \<times> adc_sys) option" where
  "HAL_GetInterTempValue volt s = do {
     let r = adc_hw s;
     s1 \<leftarrow> temp_poll volt (temp_begin s);
     let adc_data = R16_ADC_DATA (adc_hw s1);
     Some (adc_data, upd_hw (\<lambda>r1. r1\<lparr>R8_TEM_SENSOR := R8_TEM_SENSOR r, R8_ADC_CHANNEL := R8_ADC_CHANNEL r,
       R8_ADC_CFG := R8_ADC_CFG r, R8_TKEY_CFG := R8_TKEY_CFG r\<rparr>) s1)
   }"

end
