(* ===== verification/AdcProps.thy ===== *)
theory AdcProps
  imports Adc RadioProps
begin

text \<open>
  What the analogue inputs deliver: a round of conversions fills the buffer with the samples of all
  channels, in time or late, and the channels of the radio are the sticks.
\<close>

section \<open>Rounds of conversions\<close>

abbreviation adc_cfg :: "adc_sys \<Rightarrow> u8" where
  "adc_cfg s \<equiv> R8_ADC_CFG (adc_hw s)"

text \<open>Between rounds, and in a round with channel \<open>i\<close> in conversion.\<close>

definition adc_ok :: "adc_sys \<Rightarrow> bool" where
  "adc_ok s \<longleftrightarrow> length (adc_buffer s) = 6 \<and> adc_irq s"

definition resting :: "adc_sys \<Rightarrow> bool" where
  "resting s \<longleftrightarrow> adc_ok s \<and> R8_ADC_CONVERT (adc_hw s) = 0 \<and> ADC_GetITStatus (adc_hw s) = 0"

definition busy :: "nat \<Rightarrow> adc_sys \<Rightarrow> bool" where
  "busy i s \<longleftrightarrow> adc_ok s \<and> i < 6 \<and> conver_index s = of_nat i \<and> R8_ADC_CONVERT (adc_hw s) = 1 \<and>
     R8_ADC_CHANNEL (adc_hw s) = adc_channel_map ! i"

definition samples :: "(u8 \<Rightarrow> u8 \<Rightarrow> u16) \<Rightarrow> u8 \<Rightarrow> u16 list" where
  "samples volt cfg = map (\<lambda>c. volt c cfg) adc_channel_map"

lemma length_samples [simp]: "length (samples volt cfg) = 6"
  by (simp add: samples_def)

lemma eoc_resting: "resting s \<Longrightarrow> adc_eoc volt s = Some s"
  by (simp add: resting_def adc_eoc_def adc_finish_def converting_def ADC_IRQHandler_def)

lemma flag_set [simp]: "((x :: u8) OR 0x80) AND 0x80 = 0x80"
  by (rule bit_word_eqI) (auto simp: bit_simps)

lemma flag_cleared [simp]: "((x :: u8) AND - 129) AND 128 = 0"
  by (simp add: and.assoc)

lemma eoc_converting:
  assumes "adc_ok s" and "converting (adc_hw s)" and "conver_index s = of_nat i" and "i < 6"
  shows "\<exists>s'. adc_eoc volt s = Some s' \<and> adc_cfg s' = adc_cfg s \<and>
    RoughCalib_Value s' = RoughCalib_Value s \<and>
    adc_buffer s' = (adc_buffer s)[i := volt (R8_ADC_CHANNEL (adc_hw s)) (adc_cfg s)] \<and>
    (if i < 5 then busy (Suc i) s' \<and> wait_sem s' = wait_sem s
     else resting s' \<and> wait_sem s' = wait_sem s + 1)"
proof -
  from assms(4) have "i \<in> {0, 1, 2, 3, 4, 5}" by auto
  then show ?thesis using assms(1-3)
    by (auto simp: adc_ok_def busy_def resting_def adc_eoc_def ADC_IRQHandler_def adc_reg_defs
        adc_bits ADC_CHANNEL_MAX_def unat_word_ariths arr_get_def adc_channel_map_def)
qed

lemma eoc_busy:
  assumes "busy i s"
  shows "\<exists>s'. adc_eoc volt s = Some s' \<and> adc_cfg s' = adc_cfg s \<and>
    RoughCalib_Value s' = RoughCalib_Value s \<and>
    adc_buffer s' = (adc_buffer s)[i := samples volt (adc_cfg s) ! i] \<and>
    (if i < 5 then busy (Suc i) s' \<and> wait_sem s' = wait_sem s
     else resting s' \<and> wait_sem s' = wait_sem s + 1)"
  using eoc_converting [of s i volt] assms
  by (auto simp: busy_def converting_def adc_bits samples_def)

text \<open>\<open>n\<close> more conversions of a round at channel \<open>i\<close>.\<close>

lemma run_resting: "resting s \<Longrightarrow> adc_run volt n s = Some s"
  by (induction n) (simp_all add: eoc_resting)

lemma run_busy:
  assumes "busy i s"
  shows "\<exists>s'. adc_run volt n s = Some s' \<and> adc_cfg s' = adc_cfg s \<and> adc_ok s' \<and>
    RoughCalib_Value s' = RoughCalib_Value s \<and>
    adc_buffer s' = take i (adc_buffer s) @ take n (drop i (samples volt (adc_cfg s))) @
      drop (i + n) (adc_buffer s) \<and>
    (if i + n < 6 then busy (i + n) s' \<and> wait_sem s' = wait_sem s
     else resting s' \<and> wait_sem s' = wait_sem s + 1)"
  using assms
proof (induction n arbitrary: i s)
  case 0
  then show ?case by (simp add: busy_def)
next
  case (Suc n)
  let ?smp = "samples volt (adc_cfg s)"
  have i: "i < 6" "length (adc_buffer s) = 6" using Suc.prems by (simp_all add: busy_def adc_ok_def)
  obtain s1 where s1: "adc_eoc volt s = Some s1" "adc_cfg s1 = adc_cfg s"
    "RoughCalib_Value s1 = RoughCalib_Value s" "adc_buffer s1 = (adc_buffer s)[i := ?smp ! i]"
    "if i < 5 then busy (Suc i) s1 \<and> wait_sem s1 = wait_sem s
     else resting s1 \<and> wait_sem s1 = wait_sem s + 1"
    using eoc_busy [OF Suc.prems] by blast
  have smp: "take (Suc n) (drop i ?smp) = ?smp ! i # take n (drop (Suc i) ?smp)"
    using i by (simp add: Cons_nth_drop_Suc [symmetric])
  have buf: "(adc_buffer s)[i := ?smp ! i] = take i (adc_buffer s) @ ?smp ! i # drop (Suc i) (adc_buffer s)"
    using i by (simp add: upd_conv_take_nth_drop)
  show ?case
  proof (cases "i < 5")
    case True
    then show ?thesis using Suc.IH [of "Suc i" s1] s1 smp i by (auto simp: take_Suc_conv_app_nth)
  next
    case False
    then have "resting s1" "i = 5" using s1(5) i by auto
    then show ?thesis using s1 smp i buf by (simp add: run_resting resting_def)
  qed
qed

text \<open>A whole round, and one pass of the control loop over the converter.\<close>

lemma begin_spec:
  assumes "adc_ok s"
  shows "\<exists>s'. adc_begin s = Some s' \<and> busy 0 s' \<and> adc_buffer s' = adc_buffer s \<and>
    adc_cfg s' = adc_cfg s \<and> wait_sem s' = wait_sem s \<and> RoughCalib_Value s' = RoughCalib_Value s"
  using assms by (simp add: adc_begin_def adc_reg_defs adc_bits busy_def adc_ok_def)

lemma convert_spec:
  assumes "adc_ok s" and "wait_sem s = 0"
  shows "\<exists>s'. adc_multi_convert volt k s = Some s' \<and> adc_cfg s' = adc_cfg s \<and> wait_sem s' = 0 \<and>
    RoughCalib_Value s' = RoughCalib_Value s \<and>
    adc_buffer s' = take k (samples volt (adc_cfg s)) @ drop k (adc_buffer s) \<and>
    (if k < 6 then busy k s' else resting s')"
proof -
  obtain s1 where s1: "adc_begin s = Some s1" "busy 0 s1" "adc_buffer s1 = adc_buffer s"
    "adc_cfg s1 = adc_cfg s" "wait_sem s1 = 0" "RoughCalib_Value s1 = RoughCalib_Value s"
    using begin_spec [OF assms(1)] assms(2) by auto
  show ?thesis
  proof (cases "k < 6")
    case True
    then show ?thesis using run_busy [OF s1(2), of volt k] s1 by (auto simp: adc_multi_convert_def)
  next
    case False
    then show ?thesis using run_busy [OF s1(2), of volt k] s1
      by (auto simp: adc_multi_convert_def resting_def adc_ok_def)
  qed
qed

lemma convert_stale:
  assumes "adc_ok s" and "wait_sem s = 1"
  shows "\<exists>s'. adc_multi_convert volt k s = Some s' \<and> adc_cfg s' = adc_cfg s \<and> wait_sem s' = 0 \<and>
    busy 0 s' \<and> adc_buffer s' = adc_buffer s"
proof -
  obtain s1 where "adc_begin s = Some s1" "busy 0 s1" "adc_buffer s1 = adc_buffer s"
    "adc_cfg s1 = adc_cfg s" "wait_sem s1 = 1"
    using begin_spec [OF assms(1)] assms(2) by auto
  then show ?thesis by (simp add: adc_multi_convert_def busy_def adc_ok_def)
qed

text \<open>
  Passes of the control loop: in each one \<open>k\<close> of the conversions end while it waits, and all of
  them before the next pass. The result is the list of the buffers the passes read.
\<close>

fun adc_passes :: "((u8 \<Rightarrow> u8 \<Rightarrow> u16) \<times> nat) list \<Rightarrow> adc_sys \<Rightarrow> u16 list list option" where
  "adc_passes [] s = Some []"
| "adc_passes ((volt, k) # ps) s = do {
     s1 \<leftarrow> adc_multi_convert volt k s;
     s2 \<leftarrow> adc_run volt 6 s1;
     rest \<leftarrow> adc_passes ps s2;
     Some (adc_buffer s1 # rest)
   }"

lemma passes_in_time:
  assumes "adc_ok s" and "wait_sem s = 0" and "list_all (\<lambda>(volt, k). 6 \<le> k) ps"
  shows "adc_passes ps s = Some (map (\<lambda>(volt, k). samples volt (adc_cfg s)) ps)"
  using assms
proof (induction ps arbitrary: s)
  case (Cons p ps)
  obtain volt k where p: "p = (volt, k)" by fastforce
  obtain s1 where s1: "adc_multi_convert volt k s = Some s1" "adc_cfg s1 = adc_cfg s" "wait_sem s1 = 0"
    "adc_buffer s1 = samples volt (adc_cfg s)" "resting s1"
    using convert_spec [OF Cons.prems(1,2), of volt k] Cons.prems(1,3) p by (auto simp: adc_ok_def)
  then show ?case using Cons.IH [of s1] Cons.prems(3) p by (simp add: run_resting resting_def)
qed simp

lemma passes_stale:
  assumes "adc_ok s" and "wait_sem s = 1"
  shows "adc_passes ps s =
    Some (if ps = [] then [] else adc_buffer s # map (\<lambda>(volt, k). samples volt (adc_cfg s)) (butlast ps))"
  using assms
proof (induction ps arbitrary: s)
  case (Cons p ps)
  obtain volt k where p: "p = (volt, k)" by fastforce
  obtain s1 where s1: "adc_multi_convert volt k s = Some s1" "adc_cfg s1 = adc_cfg s" "wait_sem s1 = 0"
    "busy 0 s1" "adc_buffer s1 = adc_buffer s"
    using convert_stale [OF Cons.prems] by blast
  obtain s2 where s2: "adc_run volt 6 s1 = Some s2" "adc_cfg s2 = adc_cfg s" "adc_ok s2"
    "adc_buffer s2 = samples volt (adc_cfg s)" "wait_sem s2 = 1"
    using run_busy [OF s1(4), of volt 6] s1 Cons.prems(1) by (auto simp: adc_ok_def)
  then show ?case using Cons.IH [of s2] s1 p by (cases ps) auto
qed simp

section \<open>Temperature measurement\<close>

definition temp_cfg :: u8 where "temp_cfg = 0x35"

lemma temp_begin_spec:
  "adc_cfg (temp_begin s) = temp_cfg" "converting (adc_hw (temp_begin s))"
  "R8_ADC_CHANNEL (adc_hw (temp_begin s)) = CH_INTE_VTEMP" "adc_ok (temp_begin s) = adc_ok s"
  "conver_index (temp_begin s) = conver_index s" "adc_buffer (temp_begin s) = adc_buffer s"
  "wait_sem (temp_begin s) = wait_sem s" "RoughCalib_Value (temp_begin s) = RoughCalib_Value s"
proof -
  have [simp]: "(x OR 1) AND 1 = (1 :: u8)" for x by (rule bit_word_eqI) (auto simp: bit_simps)
  show "adc_cfg (temp_begin s) = temp_cfg" "converting (adc_hw (temp_begin s))"
    "R8_ADC_CHANNEL (adc_hw (temp_begin s)) = CH_INTE_VTEMP" "adc_ok (temp_begin s) = adc_ok s"
    "conver_index (temp_begin s) = conver_index s" "adc_buffer (temp_begin s) = adc_buffer s"
    "wait_sem (temp_begin s) = wait_sem s" "RoughCalib_Value (temp_begin s) = RoughCalib_Value s"
    by (simp_all add: temp_begin_def ADC_InterTSSampInit_def Let_def adc_reg_defs adc_bits temp_cfg_def
        adc_ok_def)
qed

lemma eoc_data:
  assumes "converting (adc_hw s)" and "adc_eoc volt s = Some s'"
  shows "R16_ADC_DATA (adc_hw s') = volt (R8_ADC_CHANNEL (adc_hw s)) (adc_cfg s)"
  using assms by (auto simp: adc_eoc_def ADC_IRQHandler_def adc_reg_defs Let_def
      split: if_splits bind_splits)

lemma poll_resting: "resting s \<Longrightarrow> temp_poll volt s = Some s"
  by (subst temp_poll.simps) (simp add: resting_def converting_def)

text \<open>A poll during a round sees the whole rest of it; the last channel of a round is the sensor.\<close>

lemma poll_busy:
  assumes "busy i s"
  shows "\<exists>s'. temp_poll volt s = Some s' \<and> adc_run volt (6 - i) s = Some s' \<and>
    R16_ADC_DATA (adc_hw s') = volt CH_INTE_VTEMP (adc_cfg s)"
  using assms
proof (induction "6 - i" arbitrary: i s)
  case 0
  then show ?case by (simp add: busy_def)
next
  case (Suc n)
  have i: "i < 6" and c: "converting (adc_hw s)"
    using Suc.prems by (simp_all add: busy_def converting_def adc_bits)
  obtain s1 where s1: "adc_eoc volt s = Some s1" "adc_cfg s1 = adc_cfg s"
    "if i < 5 then busy (Suc i) s1 \<and> wait_sem s1 = wait_sem s
     else resting s1 \<and> wait_sem s1 = wait_sem s + 1"
    using eoc_busy [OF Suc.prems] by blast
  have poll: "temp_poll volt s = temp_poll volt s1" and run: "adc_run volt (6 - i) s = adc_run volt (6 - Suc i) s1"
    using c s1(1) i by (simp_all add: temp_poll.simps [of volt s] Suc_diff_Suc [symmetric] del: Suc_diff_Suc)
  show ?case
  proof (cases "i < 5")
    case True
    then show ?thesis using Suc.hyps(1) [of "Suc i" s1] Suc.hyps(2) s1 poll run by auto
  next
    case False
    then have i5: "i = 5" using i by simp
    then have "R8_ADC_CHANNEL (adc_hw s) = CH_INTE_VTEMP"
      using Suc.prems by (simp add: busy_def adc_channel_map_def)
    then show ?thesis
      using poll run i5 s1 poll_resting [of s1] eoc_data [OF c s1(1)] by simp
  qed
qed

section \<open>Properties\<close>

lemma calib_loop_snd:
  "snd (calib_loop ofs i n r acc) = acc + (\<Sum>j<n. ucast (NOT (ofs (Suc i + j)) AND RB_ADC_DATA))"
proof (induction n arbitrary: i r acc)
  case (Suc n)
  have e: "R16_ADC_DATA (adc_finish v (write_convert r RB_ADC_START)) = v" for v
    by (simp add: adc_reg_defs adc_bits)
  show ?case by (simp add: Suc.IH e Let_def sum.lessThan_Suc_shift del: sum.lessThan_Suc)
qed simp

lemma calib_loop_fst:
  "R8_TKEY_CFG (fst (calib_loop ofs i n r acc)) = R8_TKEY_CFG r"
  "R8_TEM_SENSOR (fst (calib_loop ofs i n r acc)) = R8_TEM_SENSOR r"
proof (induction n arbitrary: i r acc)
  case (Suc n)
  { case 1 show ?case by (simp add: Let_def Suc.IH) (simp add: adc_reg_defs) }
  { case 2 show ?case by (simp add: Let_def Suc.IH) (simp add: adc_reg_defs) }
qed simp_all

lemma unat_sum_le:
  assumes "\<And>j. unat (f j :: u32) \<le> b"
  shows "unat (\<Sum>j<n. f j) \<le> n * b"
proof (induction n)
  case (Suc n)
  have "unat ((\<Sum>j<n. f j) + f n) \<le> unat (\<Sum>j<n. f j) + unat (f n)"
    by (simp add: unat_word_ariths)
  also have "\<dots> \<le> n * b + b" using Suc assms [of n] by simp
  finally show ?case by (simp add: add.commute)
qed simp

definition ofs_term :: "u16 \<Rightarrow> u32" where
  "ofs_term v = ucast (NOT v AND RB_ADC_DATA)"

lemma ofs_term_unat: "unat (ofs_term v) = 4095 - unat (v AND RB_ADC_DATA)"
proof -
  have m: "RB_ADC_DATA = mask 12" by (simp add: RB_ADC_DATA_def mask_eq_exp_minus_1)
  have e: "NOT v AND mask 12 = mask 12 - (v AND mask 12)"
    by (simp add: take_bit_eq_mask [symmetric] take_bit_not_eq_mask_diff)
  have "v AND mask 12 \<le> mask 12" by (simp add: word_and_le1)
  then have "unat (mask 12 - (v AND mask 12)) = unat (mask 12 :: u16) - unat (v AND mask 12)"
    by (rule unat_sub)
  moreover have "unat (mask 12 :: u16) = 4095" by (simp add: mask_eq_exp_minus_1)
  moreover have "unat (ucast x :: u32) = unat (x :: u16)" for x
    using unsigned_less [of x, where 'a = nat] by (simp add: unsigned_ucast_eq take_bit_nat_eq_self)
  ultimately show ?thesis by (simp add: ofs_term_def m e)
qed

lemma rough_value:
  assumes "unat (acc :: u32) \<le> 65520"
  shows "to_s16 (uint (2048 - drop_bit 4 (acc + 8))) = 2048 - int ((unat acc + 8) div 16)"
proof -
  let ?d = "drop_bit 4 (acc + 8)"
  have "unat (acc + 8) = unat acc + 8" using assms by (simp add: unat_word_ariths)
  then have d: "unat ?d = (unat acc + 8) div 16" by (simp add: drop_bit_eq_div unat_div)
  have "(unat acc + 8) div 16 \<le> (65520 + 8) div 16" using assms by (intro div_le_mono) simp
  then have le: "unat ?d \<le> 4095" using d by simp
  have "uint (2048 - ?d) = (2048 - uint ?d) mod 4294967296" by (simp add: uint_word_ariths)
  then have "to_s16 (uint (2048 - ?d)) = to_s16 (2048 - uint ?d)" by (simp add: to_s16_mod32)
  also have "\<dots> = to_s16 (2048 - int (unat ?d))" by simp
  also have "\<dots> = 2048 - int (unat ?d)" using le by (intro to_s16_id) linarith+
  finally show ?thesis unfolding d .
qed

lemma calibration_parts:
  "fst (ADC_DataCalib_Rough ofs r) \<in> {-2047..2048}"
  "fst (ADC_DataCalib_Rough (\<lambda>_. v) r) = int (unat (v AND RB_ADC_DATA)) - 2047"
  "R8_ADC_CHANNEL (snd (ADC_DataCalib_Rough ofs r)) = R8_ADC_CHANNEL r"
  "R8_ADC_CFG (snd (ADC_DataCalib_Rough ofs r)) = R8_ADC_CFG r"
proof -
  have l: "snd (calib_loop f 0 16 r' 0) = (\<Sum>j<16. ofs_term (f (Suc j)))" for f r'
    by (simp add: calib_loop_snd ofs_term_def)
  have b: "unat (\<Sum>j<16. ofs_term (f (Suc j))) \<le> 65520" for f
    using unat_sum_le [of "\<lambda>j. ofs_term (f (Suc j))" 4095 16] by (simp add: ofs_term_unat)
  have v: "fst (ADC_DataCalib_Rough f r) = 2048 - int ((unat (\<Sum>j<16. ofs_term (f (Suc j))) + 8) div 16)" for f
    using rough_value [OF b [of f]] by (simp add: ADC_DataCalib_Rough_def Let_def case_prod_beta l)
  have "(unat (\<Sum>j<16. ofs_term (ofs (Suc j))) + 8) div 16 \<le> (65520 + 8) div 16"
    using b by (intro div_le_mono) simp
  then show "fst (ADC_DataCalib_Rough ofs r) \<in> {-2047..2048}" by (simp add: v)
  have "unat (v AND RB_ADC_DATA) \<le> 4095"
    using word_and_le1 [of v RB_ADC_DATA] by (simp add: word_le_nat_alt RB_ADC_DATA_def)
  moreover have "unat (16 * ofs_term v) = 16 * unat (ofs_term v)"
    using ofs_term_unat [of v] by (simp add: unat_word_ariths)
  ultimately show "fst (ADC_DataCalib_Rough (\<lambda>_. v) r) = int (unat (v AND RB_ADC_DATA)) - 2047"
    by (simp add: v ofs_term_unat)
  show "R8_ADC_CHANNEL (snd (ADC_DataCalib_Rough ofs r)) = R8_ADC_CHANNEL r"
    "R8_ADC_CFG (snd (ADC_DataCalib_Rough ofs r)) = R8_ADC_CFG r"
    by (simp_all add: ADC_DataCalib_Rough_def Let_def case_prod_beta)
qed

text \<open>
  The offset calibration of the converter stays within 2048 of zero, whatever is sampled; for
  a constant sample it is the distance of the sample from the middle of the scale. It leaves the
  channel and the configuration as they were.
\<close>

theorem adc_calibration:
  "fst (ADC_DataCalib_Rough ofs r) \<in> {-2047..2048} \<and>
   fst (ADC_DataCalib_Rough (\<lambda>_. v) r) = int (unat (v AND RB_ADC_DATA)) - 2047 \<and>
   R8_ADC_CHANNEL (snd (ADC_DataCalib_Rough ofs r)) = R8_ADC_CHANNEL r \<and>
   R8_ADC_CFG (snd (ADC_DataCalib_Rough ofs r)) = R8_ADC_CFG r"
  by (intro conjI calibration_parts)

text \<open>The value \<open>adc_read\<close> gives for a sample.\<close>

definition corrected :: "adc_sys \<Rightarrow> u16 \<Rightarrow> u16" where
  "corrected s v = word_of_int (uint v + RoughCalib_Value s)"

lemma adc_read_sampled:
  assumes "adc_buffer s = samples volt cfg" and "ch < 6"
  shows "adc_read s (of_nat ch) = Some (corrected s (volt (adc_channel_map ! ch) cfg))"
proof -
  have "unat (of_nat ch :: u8) = ch" using assms(2) by (simp add: unat_of_nat)
  then show ?thesis using assms by (simp add: adc_read_def ADC_CHANNEL_MAX_def samples_def corrected_def)
qed

text \<open>
  C17: When the converter is at rest and all its conversions end in time, one call of
  \<open>adc_multi_convert\<close> samples every input, and the four stick channels of the control loop are the
  corrected samples of their own inputs: roll of input 7, pitch of 6, yaw of 8, throttle of 9. The
  converter is at rest again, so the next call does the same.
\<close>

theorem sticks_sampled:
  assumes "adc_ok a" and "wait_sem a = 0" and "6 \<le> k" and "radio_inv s"
  shows "\<exists>a' raw. adc_multi_convert volt k a = Some a' \<and> adc_ok a' \<and> wait_sem a' = 0 \<and>
    sample_sticks s (r\<lparr>in_adc := \<lambda>ch. the (adc_read a' (of_nat ch))\<rparr>) = Some (s\<lparr>raw_channels := raw\<rparr>) \<and>
    raw ! ROLL = corrected a (volt CH_EXTIN_7 (adc_cfg a)) \<and>
    raw ! PITCH = corrected a (volt CH_EXTIN_6 (adc_cfg a)) \<and>
    raw ! YAW = corrected a (volt CH_EXTIN_8 (adc_cfg a)) \<and>
    raw ! THROTTLE = corrected a (volt CH_EXTIN_9 (adc_cfg a))"
proof -
  obtain a' where a': "adc_multi_convert volt k a = Some a'" "wait_sem a' = 0" "resting a'"
    "adc_buffer a' = samples volt (adc_cfg a)" "RoughCalib_Value a' = RoughCalib_Value a"
    using convert_spec [OF assms(1,2), of volt k] assms(1,3) by (auto simp: adc_ok_def)
  have read: "the (adc_read a' (of_nat ch)) = corrected a (volt (adc_channel_map ! ch) (adc_cfg a))"
    if "ch < 6" for ch using adc_read_sampled [OF a'(4) that] a'(5) by (simp add: corrected_def)
  let ?r = "r\<lparr>in_adc := \<lambda>ch. the (adc_read a' (of_nat ch))\<rparr>"
  have "in_adc ?r 0 = corrected a (volt CH_EXTIN_9 (adc_cfg a))"
    "in_adc ?r 1 = corrected a (volt CH_EXTIN_8 (adc_cfg a))"
    "in_adc ?r 2 = corrected a (volt CH_EXTIN_7 (adc_cfg a))"
    "in_adc ?r 3 = corrected a (volt CH_EXTIN_6 (adc_cfg a))"
    using read [of 0] read [of 1] read [of 2] read [of 3] by (simp_all add: adc_channel_map_def)
  then show ?thesis using sample_spec [OF assms(4), of ?r] a'
    by (auto simp: channel_defs resting_def simp del: readings.simps)
qed

definition sample_port :: gpio_port where
  "sample_port = \<lparr>P_PIN = 0, P_OUT = 0, P_PD_DRV = 0, P_PU = 0, P_DIR = 0, P_INT_EN = 0,
     P_INT_MODE = 0, P_INT_IF = 0\<rparr>"

definition sample_adc :: adc_sys where
  "sample_adc = \<lparr>adc_gpio = \<lparr>PA = sample_port, PB = sample_port\<rparr>,
     adc_hw = \<lparr>R8_TKEY_CFG = 0, R8_ADC_CHANNEL = 0, R8_ADC_CFG = 0x53,
       R8_ADC_CONVERT = 0, R8_TEM_SENSOR = 0, R16_ADC_DATA = 0, R8_ADC_INT_FLAG = 0\<rparr>,
     adc_irq = True, adc_buffer = replicate 6 0, RoughCalib_Value = - 7, wait_sem = 0, conver_index = 6\<rparr>"

lemma sample_adc_facts:
  "adc_ok sample_adc" "wait_sem sample_adc = 0" "adc_cfg sample_adc = 0x53" "resting sample_adc"
  "conver_index sample_adc = 6" "adc_buffer sample_adc = replicate 6 0"
  "corrected sample_adc v = word_of_int (uint v - 7)"
  by (simp_all add: sample_adc_def adc_ok_def corrected_def resting_def ADC_GetITStatus_def)

theorem sticks_sampled_witness:
  "\<exists>a' raw. adc_multi_convert (\<lambda>c _. ucast c * 100) 6 sample_adc = Some a' \<and> wait_sem a' = 0 \<and>
    sample_sticks (sample_radio 0) (sample_readings\<lparr>in_adc := \<lambda>ch. the (adc_read a' (of_nat ch))\<rparr>) =
      Some ((sample_radio 0)\<lparr>raw_channels := raw\<rparr>) \<and> raw ! ROLL = 693 \<and> raw ! THROTTLE = 893"
proof -
  have inv: "radio_inv (sample_radio 0)" by (rule sample_radio_inv) simp
  show ?thesis
    using sticks_sampled [OF sample_adc_facts(1,2) order_refl inv, of "\<lambda>c _. ucast c * 100" sample_readings]
    unfolding sample_adc_facts(3,7) by (simp add: adc_channel_defs) blast
qed

text \<open>
  One round that ends after the time-out makes every later pass read old samples. The late
  pass itself reads a mixture of new and old samples; its semaphore is released afterwards and
  lets the next pass through at once, and so on for ever: each pass reads what the pass before it
  should have read.
\<close>

theorem late_round_delays_readings:
  assumes "adc_ok s" and "wait_sem s = 0" and "k < 6"
  shows "adc_passes ((volt, k) # ps) s = Some
    ((take k (samples volt (adc_cfg s)) @ drop k (adc_buffer s)) #
     map (\<lambda>(v, _). samples v (adc_cfg s)) (butlast ((volt, k) # ps)))"
proof -
  obtain s1 where s1: "adc_multi_convert volt k s = Some s1" "adc_cfg s1 = adc_cfg s" "wait_sem s1 = 0"
    "adc_buffer s1 = take k (samples volt (adc_cfg s)) @ drop k (adc_buffer s)" "busy k s1"
    using convert_spec [OF assms(1,2), of volt k] assms(3) by auto
  have len: "length (adc_buffer s1) = 6" using s1(5) by (simp add: busy_def adc_ok_def)
  obtain s2 where s2: "adc_run volt 6 s1 = Some s2" "adc_cfg s2 = adc_cfg s" "adc_ok s2" "wait_sem s2 = 1"
    "adc_buffer s2 = take k (adc_buffer s1) @ drop k (samples volt (adc_cfg s))"
    using run_busy [OF s1(5), of volt 6] s1(2,3) len by auto
  have "adc_buffer s2 = samples volt (adc_cfg s)"
    unfolding s2(5) s1(4) using assms(3) by simp
  then show ?thesis using passes_stale [OF s2(3,4), of ps] s1 s2 by auto
qed

theorem late_round_delays_readings_witness:
  "adc_passes [(\<lambda>_ _. 1, 2), (\<lambda>_ _. 2, 6), (\<lambda>_ _. 3, 6)] sample_adc =
    Some [[1, 1, 0, 0, 0, 0], replicate 6 1, replicate 6 2]"
  using late_round_delays_readings [OF sample_adc_facts(1,2), of 2 "\<lambda>_ _. 1" "[(\<lambda>_ _. 2, 6), (\<lambda>_ _. 3, 6)]"]
  by (simp add: samples_def adc_channel_map_def sample_adc_facts numeral_nat replicate_Suc)

text \<open>
  The temperature is measured right also during a round of conversions, and the registers are
  put back; but its interrupt, which the function does not mask, stores the temperature as the
  channel in conversion, and the rest of the round is sampled in the temperature configuration.
\<close>

theorem temperature_overwrites_sticks:
  assumes "busy i s"
  shows "\<exists>s'. HAL_GetInterTempValue volt s = Some (volt CH_INTE_VTEMP temp_cfg, s') \<and>
    adc_cfg s' = adc_cfg s \<and> wait_sem s' = wait_sem s + 1 \<and>
    adc_buffer s' = take i (adc_buffer s) @
      volt CH_INTE_VTEMP temp_cfg # drop (Suc i) (samples volt temp_cfg)"
proof -
  have i: "adc_ok s" "i < 6" "conver_index s = of_nat i" "length (adc_buffer s) = 6"
    using assms by (simp_all add: busy_def adc_ok_def)
  let ?t = "temp_begin s" and ?v = "volt CH_INTE_VTEMP temp_cfg"
  note tb = temp_begin_spec [of s]
  obtain s1 where s1: "adc_eoc volt ?t = Some s1" "adc_cfg s1 = temp_cfg"
    "adc_buffer s1 = (adc_buffer s)[i := ?v]"
    "if i < 5 then busy (Suc i) s1 \<and> wait_sem s1 = wait_sem s
     else resting s1 \<and> wait_sem s1 = wait_sem s + 1"
    using eoc_converting [of ?t i volt] tb i by auto
  have d: "R16_ADC_DATA (adc_hw s1) = ?v" using eoc_data [OF tb(2) s1(1)] tb by simp
  have p: "temp_poll volt ?t = temp_poll volt s1"
    using tb(2) s1(1) by (simp add: temp_poll.simps [of volt ?t])
  have "\<exists>s2. temp_poll volt s1 = Some s2 \<and> R16_ADC_DATA (adc_hw s2) = ?v \<and> wait_sem s2 = wait_sem s + 1 \<and>
    adc_buffer s2 = take i (adc_buffer s) @ ?v # drop (Suc i) (samples volt temp_cfg)"
  proof (cases "i < 5")
    case True
    then have b: "busy (Suc i) s1" "wait_sem s1 = wait_sem s" using s1(4) by auto
    obtain s2 where "temp_poll volt s1 = Some s2" "adc_run volt (6 - Suc i) s1 = Some s2"
      "R16_ADC_DATA (adc_hw s2) = ?v"
      using poll_busy [OF b(1), of volt] s1(2) by auto
    then show ?thesis using run_busy [OF b(1), of volt "6 - Suc i"] b s1(2,3) i True
      by (auto simp: take_Suc_conv_app_nth upd_conv_take_nth_drop)
  next
    case False
    then have "resting s1" "i = 5" using s1(4) i by auto
    then show ?thesis using s1 d i False
      by (auto simp: poll_resting upd_conv_take_nth_drop)
  qed
  then show ?thesis by (auto simp: HAL_GetInterTempValue_def p Let_def)
qed

theorem temperature_overwrites_sticks_witness:
  "\<exists>a s'. adc_begin sample_adc = Some a \<and>
    HAL_GetInterTempValue (\<lambda>c _. ucast c) a = Some (15, s') \<and> adc_buffer s' = [15, 8, 7, 6, 11, 15]"
proof -
  obtain a where a: "adc_begin sample_adc = Some a" "busy 0 a"
    using begin_spec [OF sample_adc_facts(1)] by blast
  show ?thesis using temperature_overwrites_sticks [OF a(2), of "\<lambda>c _. ucast c"] a(1)
    by (auto simp: samples_def adc_channel_map_def adc_channel_defs)
qed

end
