(* ===== verification/I2c.thy ===== *)
theory I2c
  imports Gpio "HOL-Library.Sublist"
begin

text \<open>
  The I2C driver of the controller (\<open>Firmware/drivers/drv_i2c.c\<close>) over the I2C functions of the
  peripheral library (\<open>StdPeriphDriver/CH58x_i2c.c\<close>).

  What the driver does to the bus is the sequence of its register writes; the state keeps it as a
  log. What the hardware and the clock do is an environment: the status registers, the received
  byte and the system tick at every instant, an instant being one access. The environment is not
  constrained, so the theorems hold for every device on the bus; those about termination assume a
  clock that goes on.

  A call has no result (\<open>None\<close>) when a loop does not end, or when it runs past its buffer.
\<close>

section \<open>Registers and environment\<close>

datatype i2c_reg = R16_I2C_CTRL1 | R16_I2C_CTRL2 | R16_I2C_OADDR1 | R16_I2C_DATAR | R16_I2C_CKCFGR | R16_I2C_RTR

text \<open>\<open>reg |= v\<close>, \<open>reg &= ~v\<close> and \<open>reg = v\<close>.\<close>

datatype i2c_op = Bits_set i2c_reg u16 | Bits_clear i2c_reg u16 | Reg_write i2c_reg u16

record i2c_env =
  STAR1 :: u16
  STAR2 :: u16
  DATAR :: u16
  TICK :: u32

record i2c_sys =
  i2c_gpio :: gpio
  i2c_log :: "i2c_op list"
  now :: nat

definition emit :: "i2c_op \<Rightarrow> i2c_sys \<Rightarrow> i2c_sys" where
  "emit x s = s\<lparr>i2c_log := i2c_log s @ [x]\<rparr>"

definition advance :: "i2c_sys \<Rightarrow> i2c_sys" where
  "advance s = s\<lparr>now := now s + 1\<rparr>"

definition RB_I2C_PE :: u16 where "RB_I2C_PE = 0x0001"
definition RB_I2C_SMBUS :: u16 where "RB_I2C_SMBUS = 0x0002"
definition RB_I2C_SMBTYPE :: u16 where "RB_I2C_SMBTYPE = 0x0008"
definition RB_I2C_START :: u16 where "RB_I2C_START = 0x0100"
definition RB_I2C_STOP :: u16 where "RB_I2C_STOP = 0x0200"
definition RB_I2C_ACK :: u16 where "RB_I2C_ACK = 0x0400"
definition RB_I2C_SWRST :: u16 where "RB_I2C_SWRST = 0x8000"
definition RB_I2C_FREQ :: u16 where "RB_I2C_FREQ = 0x003F"
definition RB_I2C_CCR :: u16 where "RB_I2C_CCR = 0x0FFF"
definition RB_I2C_DUTY :: u16 where "RB_I2C_DUTY = 0x4000"
definition RB_I2C_F_S :: u16 where "RB_I2C_F_S = 0x8000"

lemmas i2c_bits = RB_I2C_PE_def RB_I2C_SMBUS_def RB_I2C_SMBTYPE_def RB_I2C_START_def RB_I2C_STOP_def
  RB_I2C_ACK_def RB_I2C_SWRST_def RB_I2C_FREQ_def RB_I2C_CCR_def RB_I2C_DUTY_def RB_I2C_F_S_def

definition FLAG_Mask :: u32 where "FLAG_Mask = 0x00FFFFFF"
definition I2C_FLAG_BUSY :: u32 where "I2C_FLAG_BUSY = 0x00020000"
definition I2C_FLAG_TXE :: u32 where "I2C_FLAG_TXE = 0x10000080"
definition I2C_FLAG_RXNE :: u32 where "I2C_FLAG_RXNE = 0x10000040"
definition I2C_EVENT_MASTER_MODE_SELECT :: u32 where "I2C_EVENT_MASTER_MODE_SELECT = 0x00030001"
definition I2C_EVENT_MASTER_TRANSMITTER_MODE_SELECTED :: u32 where
  "I2C_EVENT_MASTER_TRANSMITTER_MODE_SELECTED = 0x00070082"
definition I2C_EVENT_MASTER_RECEIVER_MODE_SELECTED :: u32 where
  "I2C_EVENT_MASTER_RECEIVER_MODE_SELECTED = 0x00030002"
definition I2C_EVENT_MASTER_BYTE_TRANSMITTED :: u32 where
  "I2C_EVENT_MASTER_BYTE_TRANSMITTED = 0x00070084"

lemmas i2c_events = FLAG_Mask_def I2C_FLAG_BUSY_def I2C_FLAG_TXE_def I2C_FLAG_RXNE_def
  I2C_EVENT_MASTER_MODE_SELECT_def I2C_EVENT_MASTER_TRANSMITTER_MODE_SELECTED_def
  I2C_EVENT_MASTER_RECEIVER_MODE_SELECTED_def I2C_EVENT_MASTER_BYTE_TRANSMITTED_def

section \<open>Library functions\<close>

definition I2C_GenerateSTART :: "bool \<Rightarrow> i2c_sys \<Rightarrow> i2c_sys" where
  "I2C_GenerateSTART en = emit ((if en then Bits_set else Bits_clear) R16_I2C_CTRL1 RB_I2C_START)"

definition I2C_GenerateSTOP :: "bool \<Rightarrow> i2c_sys \<Rightarrow> i2c_sys" where
  "I2C_GenerateSTOP en = emit ((if en then Bits_set else Bits_clear) R16_I2C_CTRL1 RB_I2C_STOP)"

definition I2C_AcknowledgeConfig :: "bool \<Rightarrow> i2c_sys \<Rightarrow> i2c_sys" where
  "I2C_AcknowledgeConfig en = emit ((if en then Bits_set else Bits_clear) R16_I2C_CTRL1 RB_I2C_ACK)"

definition I2C_SoftwareResetCmd :: "bool \<Rightarrow> i2c_sys \<Rightarrow> i2c_sys" where
  "I2C_SoftwareResetCmd en = emit ((if en then Bits_set else Bits_clear) R16_I2C_CTRL1 RB_I2C_SWRST)"

definition I2C_SendData :: "u8 \<Rightarrow> i2c_sys \<Rightarrow> i2c_sys" where
  "I2C_SendData d = emit (Reg_write R16_I2C_DATAR (ucast d))"

text \<open>The address byte: bit 0 is the direction, set to receive.\<close>

definition address_byte :: "u8 \<Rightarrow> bool \<Rightarrow> u8" where
  "address_byte a rx = (if rx then a OR 1 else a AND 0xFE)"

definition I2C_Send7bitAddress :: "u8 \<Rightarrow> bool \<Rightarrow> i2c_sys \<Rightarrow> i2c_sys" where
  "I2C_Send7bitAddress a rx = emit (Reg_write R16_I2C_DATAR (ucast (address_byte a rx)))"

definition I2C_ReceiveData :: "(nat \<Rightarrow> i2c_env) \<Rightarrow> i2c_sys \<Rightarrow> u8 \<times> i2c_sys" where
  "I2C_ReceiveData env s = (ucast (DATAR (env (now s))), advance s)"

definition check_event :: "i2c_env \<Rightarrow> u32 \<Rightarrow> bool" where
  "check_event e ev =
     (let lastevent = (ucast (STAR1 e) OR push_bit 16 (ucast (STAR2 e))) AND FLAG_Mask
      in lastevent AND ev = ev)"

definition flag_status :: "i2c_env \<Rightarrow> u32 \<Rightarrow> bool" where
  "flag_status e fl =
     (let i2creg = drop_bit 28 fl;
          fl1 = fl AND FLAG_Mask
      in if i2creg \<noteq> 0 then ucast (STAR1 e) AND fl1 \<noteq> 0
         else ucast (STAR2 e) AND drop_bit 16 fl1 \<noteq> 0)"

text \<open>
  \<open>I2C_Init\<close> for I2C mode with the acknowledgement on, at the system clock \<open>sysClock\<close>. Its clock
  speed is the 400000 of the only caller, so the fast mode branch with the duty cycle 16/9 is
  taken.
\<close>

definition fast_clock :: "u32 \<Rightarrow> u16" where
  "fast_clock sysClock =
     (let t0 = ucast (sysClock div (400000 * 25) AND ucast RB_I2C_CCR) :: u16;
          t1 = t0 OR RB_I2C_DUTY;
          t2 = (if t1 = 0 then t1 OR 1 else t1)
      in t2 OR RB_I2C_F_S)"

definition I2C_Init :: "u32 \<Rightarrow> u16 \<Rightarrow> i2c_sys \<Rightarrow> i2c_sys" where
  "I2C_Init sysClock own s =
     foldl (\<lambda>s x. emit x s) (I2C_SoftwareResetCmd False (I2C_SoftwareResetCmd True s))
       [Bits_clear R16_I2C_CTRL2 RB_I2C_FREQ,
        Bits_set R16_I2C_CTRL2 (ucast (sysClock div 1000000)),
        Bits_clear R16_I2C_CTRL1 RB_I2C_PE,
        Reg_write R16_I2C_RTR (ucast (sysClock div 1000000 * 300 div 1000 + 1)),
        Reg_write R16_I2C_CKCFGR (fast_clock sysClock),
        Bits_set R16_I2C_CTRL1 RB_I2C_PE,
        Bits_clear R16_I2C_CTRL1 (RB_I2C_SMBUS OR RB_I2C_SMBTYPE OR RB_I2C_ACK),
        Bits_set R16_I2C_CTRL1 (0 OR RB_I2C_ACK),
        Bits_clear R16_I2C_OADDR1 0xFFFF,
        Bits_set R16_I2C_OADDR1 (0x4000 OR own)]"

section \<open>Waiting\<close>

definition I2C_TIMEOUT :: u32 where "I2C_TIMEOUT = 1000"
definition I2C_STATUS_SUCCESS :: int where "I2C_STATUS_SUCCESS = 0"
definition I2C_STATUS_TIMEOUT :: int where "I2C_STATUS_TIMEOUT = - 2"
definition TxAdderss :: u16 where "TxAdderss = 0x52"

definition rt_tick_get :: "(nat \<Rightarrow> i2c_env) \<Rightarrow> i2c_sys \<Rightarrow> u32 \<times> i2c_sys" where
  "rt_tick_get env s = (TICK (env (now s)), advance s)"

text \<open>
  The polling loops of the driver: the condition is checked, and while it does not hold the tick is
  compared with the start \<open>tick\<close>. The delay that some of the loops contain only lets time pass.
\<close>

partial_function (option) poll ::
    "(nat \<Rightarrow> i2c_env) \<Rightarrow> (i2c_env \<Rightarrow> bool) \<Rightarrow> u32 \<Rightarrow> i2c_sys \<Rightarrow> (bool \<times> i2c_sys) option" where
  "poll env ok tick s =
     (if ok (env (now s)) then Some (True, advance s)
      else let (t, s1) = rt_tick_get env (advance s) in
        if t - tick > I2C_TIMEOUT then Some (False, s1) else poll env ok tick s1)"

text \<open>The loop of \<open>i2c_start\<close> counts its turns instead.\<close>

function start_loop :: "(nat \<Rightarrow> i2c_env) \<Rightarrow> u32 \<Rightarrow> i2c_sys \<Rightarrow> int \<times> i2c_sys" where
  "start_loop env n s =
     (if check_event (env (now s)) I2C_EVENT_MASTER_MODE_SELECT then (I2C_STATUS_SUCCESS, advance s)
      else if n > I2C_TIMEOUT then (I2C_STATUS_TIMEOUT, advance s)
      else start_loop env (n + 1) (advance s))"
  by pat_completeness auto
termination
proof (relation "measure (\<lambda>(env, n, s). 1001 - unat n)", goal_cases)
  case (2 env n s)
  then have "unat n \<le> 1000" by (simp add: I2C_TIMEOUT_def not_less word_le_nat_alt)
  then have "unat (n + 1) = unat n + 1" by (simp add: unat_word_ariths)
  then show ?case using \<open>unat n \<le> 1000\<close> by simp
qed simp

declare start_loop.simps [simp del]

section \<open>The driver\<close>

definition i2c_hw_init :: "(nat \<Rightarrow> i2c_env) \<Rightarrow> u32 \<Rightarrow> i2c_sys \<Rightarrow> (int \<times> i2c_sys) option" where
  "i2c_hw_init env sysClock s = (
     let (tick, s1) = rt_tick_get env s;
         s1' = s1\<lparr>i2c_gpio := GPIOB_ModeCfg (i2c_gpio s1) (GPIO_Pin 13 OR GPIO_Pin 12) GPIO_ModeIN_PU\<rparr>
     in do {
     (ok, s2) \<leftarrow> poll env (\<lambda>e. \<not> flag_status e I2C_FLAG_BUSY) tick (I2C_Init sysClock TxAdderss s1');
     Some (if ok then I2C_STATUS_SUCCESS else I2C_STATUS_TIMEOUT, s2)
   })"

definition i2c_start :: "(nat \<Rightarrow> i2c_env) \<Rightarrow> i2c_sys \<Rightarrow> int \<times> i2c_sys" where
  "i2c_start env s = start_loop env 0 (I2C_GenerateSTART True s)"

definition i2c_stop :: "i2c_sys \<Rightarrow> i2c_sys" where
  "i2c_stop = I2C_GenerateSTOP True"

text \<open>The loops over the data, with their 8-bit counter against the 16-bit length.\<close>

partial_function (option) send_loop ::
    "(nat \<Rightarrow> i2c_env) \<Rightarrow> u32 \<Rightarrow> u8 list \<Rightarrow> u16 \<Rightarrow> u8 \<Rightarrow> i2c_sys \<Rightarrow> (bool \<times> i2c_sys) option" where
  "send_loop env tick data len i s =
     (if unat i < unat len then do {
        (ok, s1) \<leftarrow> poll env (\<lambda>e. flag_status e I2C_FLAG_TXE) tick s;
        if \<not> ok then Some (False, s1) else do {
          d \<leftarrow> arr_get data (unat i);
          send_loop env tick data len (i + 1) (I2C_SendData d s1)
        }
      } else Some (True, s))"

partial_function (option) receive_loop ::
    "(nat \<Rightarrow> i2c_env) \<Rightarrow> u32 \<Rightarrow> u8 list \<Rightarrow> u16 \<Rightarrow> u8 \<Rightarrow> i2c_sys \<Rightarrow> (bool \<times> u8 list \<times> i2c_sys) option" where
  "receive_loop env tick data len i s =
     (if unat i < unat len then do {
        (ok, s1) \<leftarrow> poll env (\<lambda>e. flag_status e I2C_FLAG_RXNE) tick s;
        if \<not> ok then Some (False, data, s1) else do {
          let s2 = (if int (unat i) = int (unat len) - 1 then I2C_AcknowledgeConfig False s1 else s1);
          let (d, s3) = I2C_ReceiveData env s2;
          data' \<leftarrow> arr_set data (unat i) d;
          receive_loop env tick data' len (i + 1) s3
        }
      } else Some (True, data, s))"

text \<open>
  The wait after an address or a byte, and the phases the transfers share. A phase that times out
  ends the whole call.
\<close>

definition wait_event :: "(nat \<Rightarrow> i2c_env) \<Rightarrow> u32 \<Rightarrow> u32 \<Rightarrow> i2c_sys \<Rightarrow> (bool \<times> i2c_sys) option" where
  "wait_event env ev tick = poll env (\<lambda>e. check_event e ev) tick"

definition wait_flag :: "(nat \<Rightarrow> i2c_env) \<Rightarrow> u32 \<Rightarrow> u32 \<Rightarrow> i2c_sys \<Rightarrow> (bool \<times> i2c_sys) option" where
  "wait_flag env fl tick = poll env (\<lambda>e. flag_status e fl) tick"

definition i2c_transmit ::
    "(nat \<Rightarrow> i2c_env) \<Rightarrow> u8 \<Rightarrow> u8 list \<Rightarrow> u16 \<Rightarrow> i2c_sys \<Rightarrow> (int \<times> i2c_sys) option" where
  "i2c_transmit env address data len s =
     (let (status, s1) = i2c_start env s in
      if status \<noteq> I2C_STATUS_SUCCESS then Some (status, s1) else
      let (tick, s2) = rt_tick_get env s1;
          s3 = I2C_Send7bitAddress address False s2
      in do {
        (ok1, s4) \<leftarrow> wait_event env I2C_EVENT_MASTER_TRANSMITTER_MODE_SELECTED tick s3;
        if \<not> ok1 then Some (I2C_STATUS_TIMEOUT, s4) else do {
        (ok2, s5) \<leftarrow> send_loop env tick data len 0 s4;
        if \<not> ok2 then Some (I2C_STATUS_TIMEOUT, s5) else do {
        (ok3, s6) \<leftarrow> wait_event env I2C_EVENT_MASTER_BYTE_TRANSMITTED tick s5;
        if \<not> ok3 then Some (I2C_STATUS_TIMEOUT, s6)
        else Some (I2C_STATUS_SUCCESS, i2c_stop s6)
      }}})"

definition i2c_receive ::
    "(nat \<Rightarrow> i2c_env) \<Rightarrow> u8 \<Rightarrow> u8 list \<Rightarrow> u16 \<Rightarrow> i2c_sys \<Rightarrow> (int \<times> u8 list \<times> i2c_sys) option" where
  "i2c_receive env address data len s =
     (let (status, s1) = i2c_start env s in
      if status \<noteq> I2C_STATUS_SUCCESS then Some (status, data, s1) else
      let (tick, s2) = rt_tick_get env s1;
          s3 = I2C_Send7bitAddress address True s2
      in do {
        (ok1, s4) \<leftarrow> wait_event env I2C_EVENT_MASTER_RECEIVER_MODE_SELECTED tick s3;
        if \<not> ok1 then Some (I2C_STATUS_TIMEOUT, data, s4) else do {
        (ok2, data', s5) \<leftarrow> receive_loop env tick data len 0 s4;
        if \<not> ok2 then Some (I2C_STATUS_TIMEOUT, data', s5)
        else Some (I2C_STATUS_SUCCESS, data', I2C_AcknowledgeConfig True (i2c_stop s5))
      }})"

text \<open>
  The register operations put the register address in front. The length plus one or two is cut to
  16 bits when it is passed on.
\<close>

definition i2c_write_reg ::
    "(nat \<Rightarrow> i2c_env) \<Rightarrow> u8 \<Rightarrow> u8 \<Rightarrow> u8 list \<Rightarrow> u16 \<Rightarrow> i2c_sys \<Rightarrow> (int \<times> i2c_sys) option" where
  "i2c_write_reg env address regaddr data len s = do {
     body \<leftarrow> read_bytes data (unat len);
     i2c_transmit env address (regaddr # body) (len + 1) s
   }"

definition i2c_write_reg16 ::
    "(nat \<Rightarrow> i2c_env) \<Rightarrow> u8 \<Rightarrow> u16 \<Rightarrow> u8 list \<Rightarrow> u16 \<Rightarrow> i2c_sys \<Rightarrow> (int \<times> i2c_sys) option" where
  "i2c_write_reg16 env address regaddr data len s = do {
     body \<leftarrow> read_bytes data (unat len);
     i2c_transmit env address
       (ucast (drop_bit 8 (regaddr AND 0xFF00)) # ucast (regaddr AND 0xFF) # body) (len + 2) s
   }"

text \<open>The second half of a register read, after the repeated start.\<close>

definition read_after_restart ::
    "(nat \<Rightarrow> i2c_env) \<Rightarrow> u32 \<Rightarrow> u8 \<Rightarrow> u8 list \<Rightarrow> u16 \<Rightarrow> i2c_sys \<Rightarrow> (int \<times> u8 list \<times> i2c_sys) option" where
  "read_after_restart env tick address data len s =
     (let (status, s1) = i2c_start env s in
      if status \<noteq> I2C_STATUS_SUCCESS then Some (status, data, s1) else do {
        (ok1, s2) \<leftarrow> wait_event env I2C_EVENT_MASTER_RECEIVER_MODE_SELECTED tick
          (I2C_Send7bitAddress address True s1);
        if \<not> ok1 then Some (I2C_STATUS_TIMEOUT, data, s2) else do {
        (ok2, data', s3) \<leftarrow> receive_loop env tick data len 0 (I2C_GenerateSTOP False s2);
        if \<not> ok2 then Some (I2C_STATUS_TIMEOUT, data', s3)
        else Some (I2C_STATUS_SUCCESS, data', I2C_AcknowledgeConfig True (i2c_stop s3))
      }})"

definition i2c_read_reg ::
    "(nat \<Rightarrow> i2c_env) \<Rightarrow> u8 \<Rightarrow> u8 \<Rightarrow> u8 list \<Rightarrow> u16 \<Rightarrow> i2c_sys \<Rightarrow> (int \<times> u8 list \<times> i2c_sys) option" where
  "i2c_read_reg env address regaddr data len s =
     (let (status, s1) = i2c_start env s in
      if status \<noteq> I2C_STATUS_SUCCESS then Some (status, data, s1) else
      let (tick, s2) = rt_tick_get env s1;
          s3 = I2C_Send7bitAddress address False s2
      in do {
        (ok1, s4) \<leftarrow> wait_event env I2C_EVENT_MASTER_TRANSMITTER_MODE_SELECTED tick s3;
        if \<not> ok1 then Some (I2C_STATUS_TIMEOUT, data, s4) else do {
        (ok2, s5) \<leftarrow> wait_flag env I2C_FLAG_TXE tick s4;
        if \<not> ok2 then Some (I2C_STATUS_TIMEOUT, data, s5) else do {
        (ok3, s6) \<leftarrow> wait_event env I2C_EVENT_MASTER_BYTE_TRANSMITTED tick (I2C_SendData regaddr s5);
        if \<not> ok3 then Some (I2C_STATUS_TIMEOUT, data, s6)
        else read_after_restart env tick address data len s6
      }}})"

definition i2c_read_reg16 ::
    "(nat \<Rightarrow> i2c_env) \<Rightarrow> u8 \<Rightarrow> u16 \<Rightarrow> u8 list \<Rightarrow> u16 \<Rightarrow> i2c_sys \<Rightarrow> (int \<times> u8 list \<times> i2c_sys) option" where
  "i2c_read_reg16 env address regaddr data len s =
     (let (status, s1) = i2c_start env s in
      if status \<noteq> I2C_STATUS_SUCCESS then Some (status, data, s1) else
      let (tick, s2) = rt_tick_get env s1;
          s3 = I2C_Send7bitAddress address False s2
      in do {
        (ok1, s4) \<leftarrow> wait_event env I2C_EVENT_MASTER_TRANSMITTER_MODE_SELECTED tick s3;
        if \<not> ok1 then Some (I2C_STATUS_TIMEOUT, data, s4) else do {
        (ok2, s5) \<leftarrow> wait_flag env I2C_FLAG_TXE tick s4;
        if \<not> ok2 then Some (I2C_STATUS_TIMEOUT, data, s5) else do {
        (ok3, s6) \<leftarrow> wait_flag env I2C_FLAG_TXE tick
          (I2C_SendData (ucast (drop_bit 8 (regaddr AND 0xFF00))) s5);
        if \<not> ok3 then Some (I2C_STATUS_TIMEOUT, data, s6) else do {
        (ok4, s7) \<leftarrow> wait_event env I2C_EVENT_MASTER_BYTE_TRANSMITTED tick
          (I2C_SendData (ucast (regaddr AND 0xFF)) s6);
        if \<not> ok4 then Some (I2C_STATUS_TIMEOUT, data, s7)
        else read_after_restart env tick address data len s7
      }}}})"

end
