(* ===== verification/I2cProps.thy ===== *)
theory I2cProps
  imports I2c
begin

text \<open>
  What a transfer does to the bus: the register writes of a successful transfer are exactly those of
  the protocol, those of a failed one a proper beginning of them, and with a running clock every
  transfer of up to 255 bytes returns.
\<close>

section \<open>Waiting loops\<close>

lemma poll_result:
  assumes "poll env ok tick s = Some (b, s')"
  shows "i2c_log s' = i2c_log s \<and> now s < now s' \<and> (b \<longrightarrow> ok (env (now s' - 1)))"
proof -
  have "case r of (b, s') \<Rightarrow> i2c_log s' = i2c_log s \<and> now s < now s' \<and> (b \<longrightarrow> ok (env (now s' - 1)))"
    if e: "poll env ok tick s = Some r" for r
  proof (rule poll.raw_induct [where P = "\<lambda>env ok tick s r. case r of (b, s') \<Rightarrow>
      i2c_log s' = i2c_log s \<and> now s < now s' \<and> (b \<longrightarrow> ok (env (now s' - 1)))", OF _ e])
    fix f env ok tick s r
    assume IH: "\<And>env ok tick s r. f env ok tick s = Some r \<Longrightarrow> case r of (b, s') \<Rightarrow>
        i2c_log s' = i2c_log s \<and> now s < now s' \<and> (b \<longrightarrow> ok (env (now s' - 1)))"
      and r: "(if ok (env (now s)) then Some (True, advance s)
        else let (t, s1) = rt_tick_get env (advance s)
          in if I2C_TIMEOUT < t - tick then Some (False, s1) else f env ok tick s1) = Some r"
    show "case r of (b, s') \<Rightarrow> i2c_log s' = i2c_log s \<and> now s < now s' \<and> (b \<longrightarrow> ok (env (now s' - 1)))"
      using r IH [of env ok tick "advance (advance s)" r]
      by (auto simp: rt_tick_get_def advance_def split: if_splits)
  qed
  from this [OF assms] show ?thesis by simp
qed

text \<open>
  A clock that goes on: the tick is the low word of a time that never stops and makes no jump of
  \<open>2 ^ 30\<close> ticks between two accesses.
\<close>

definition running_clock :: "(nat \<Rightarrow> i2c_env) \<Rightarrow> bool" where
  "running_clock env \<longleftrightarrow> (\<exists>T. (\<forall>n. TICK (env n) = of_nat (T n) \<and> T n \<le> T (Suc n) \<and> T (Suc n) \<le> T n + 2 ^ 30) \<and>
     (\<forall>b. \<exists>n. b \<le> T n))"

lemma same_window:
  fixes x y :: int
  assumes "x \<le> y" "y \<le> x + 2147483648" "x mod 4294967296 \<le> 1000" "y mod 4294967296 \<le> 1000"
  shows "y - y mod 4294967296 = x - x mod 4294967296"
proof -
  let ?qx = "x div 4294967296" and ?qy = "y div 4294967296"
  note eqs = div_mult_mod_eq [of x 4294967296] div_mult_mod_eq [of y 4294967296]
  have s: "0 \<le> x mod 4294967296" "0 \<le> y mod 4294967296" by simp_all
  have "\<not> ?qx < ?qy" "\<not> ?qy < ?qx" using assms eqs s by linarith+
  then have "?qx = ?qy" by simp
  then show ?thesis using eqs by linarith
qed

lemma clock_passes:
  assumes "running_clock env"
  shows "\<exists>k. I2C_TIMEOUT < TICK (env (n + 2 * k)) - tick"
proof (rule ccontr)
  assume "\<not> ?thesis"
  then have le: "unat (TICK (env (n + 2 * k)) - tick) \<le> 1000" for k
    by (simp add: I2C_TIMEOUT_def not_less word_le_nat_alt)
  obtain T where T: "\<And>n. TICK (env n) = of_nat (T n)" "\<And>n. T n \<le> T (Suc n)"
    "\<And>n. T (Suc n) \<le> T n + 2 ^ 30" "\<And>b. \<exists>n. b \<le> T n"
    using assms by (auto simp: running_clock_def)
  have mono: "i \<le> j \<Longrightarrow> T i \<le> T j" for i j using T(2) by (rule lift_Suc_mono_le)
  let ?d = "\<lambda>k. T (n + 2 * k)"
  have r: "(int (?d k) - uint tick) mod 4294967296 \<le> 1000" for k
  proof -
    let ?w = "TICK (env (n + 2 * k)) - tick" and ?x = "int (?d k) - uint tick"
    have "?w = word_of_int (int (?d k)) - word_of_int (uint tick)" by (simp add: T(1))
    also have "\<dots> = word_of_int ?x" by (rule wi_hom_sub)
    finally have e: "?w = word_of_int ?x" .
    have "uint ?w = take_bit 32 ?x" unfolding e uint_word_of_int_eq by simp
    moreover have "take_bit 32 ?x = ?x mod 4294967296" by (simp add: take_bit_eq_mod)
    moreover have "uint ?w = int (unat ?w)" by simp
    ultimately show ?thesis using le [of k] by linarith
  qed
  have step: "int (?d (Suc k)) - (int (?d (Suc k)) - uint tick) mod 4294967296 =
      int (?d k) - (int (?d k) - uint tick) mod 4294967296" for k
  proof -
    have "?d k \<le> ?d (Suc k)" "?d (Suc k) \<le> ?d k + 2 ^ 31"
      using T(2,3) [of "n + 2 * k"] T(2,3) [of "Suc (n + 2 * k)"] by simp_all
    then have "(int (?d (Suc k)) - uint tick) - (int (?d (Suc k)) - uint tick) mod 4294967296 =
        (int (?d k) - uint tick) - (int (?d k) - uint tick) mod 4294967296"
      using r [of k] r [of "Suc k"] by (intro same_window) simp_all
    then show ?thesis by linarith
  qed
  have const: "int (?d k) - (int (?d k) - uint tick) mod 4294967296 =
      int (?d 0) - (int (?d 0) - uint tick) mod 4294967296" for k
    by (induction k) (simp_all only: step)
  obtain m where m: "T n + 1001 \<le> T m" using T(4) by blast
  have "T m \<le> ?d m" by (rule mono) simp
  then show False using m const [of m] r [of m] pos_mod_sign [of 4294967296 "int (?d 0) - uint tick"]
    by simp
qed

lemma poll_returns:
  assumes "running_clock env"
  shows "\<exists>b s'. poll env ok tick s = Some (b, s')"
proof -
  obtain k where "I2C_TIMEOUT < TICK (env (Suc (now s) + 2 * k)) - tick"
    using clock_passes [OF assms] by blast
  then show ?thesis
  proof (induction k arbitrary: s)
    case 0
    then show ?case by (subst poll.simps) (auto simp: rt_tick_get_def advance_def)
  next
    case (Suc k)
    have "\<exists>b s'. poll env ok tick (advance (advance s)) = Some (b, s')"
      by (rule Suc.IH) (use Suc.prems in \<open>simp add: advance_def\<close>)
    then show ?case by (subst poll.simps) (auto simp: rt_tick_get_def)
  qed
qed

lemma start_loop_result:
  "i2c_log (snd (start_loop env n s)) = i2c_log s \<and> fst (start_loop env n s) \<in> {0, - 2}"
  by (induction env n s rule: start_loop.induct)
    (subst (1 2) start_loop.simps; auto simp: advance_def I2C_STATUS_SUCCESS_def I2C_STATUS_TIMEOUT_def)

section \<open>Loops over the data\<close>

text \<open>The 8-bit counter does not wrap for a length below 256.\<close>

lemma counter_step:
  assumes "unat (i :: u8) < unat (len :: u16)" and "unat len < 256"
  shows "unat (i + 1) = Suc (unat i)"
  using assms by (simp add: unat_word_ariths)

abbreviation data_op :: "u8 \<Rightarrow> i2c_op" where
  "data_op d \<equiv> Reg_write R16_I2C_DATAR (ucast d)"

lemma emit_simps [simp]:
  "i2c_log (emit x s) = i2c_log s @ [x]" "now (emit x s) = now s"
  "i2c_log (advance s) = i2c_log s" "now (advance s) = Suc (now s)"
  by (simp_all add: emit_def advance_def)

lemma send_loop_total:
  assumes "running_clock env" and "unat len < 256" and "unat len \<le> length data" and "unat i \<le> unat len"
  shows "\<exists>b s' k. send_loop env tick data len i s = Some (b, s') \<and>
    i2c_log s' = i2c_log s @ map data_op (take k (drop (unat i) data)) \<and>
    (if b then k = unat len - unat i else k < unat len - unat i)"
  using assms(4)
proof (induction "unat len - unat i" arbitrary: i s)
  case 0
  then show ?case
    by (subst send_loop.simps) (auto intro!: exI [of _ True] exI [of _ s] exI [of _ "0::nat"])
next
  case (Suc n)
  then have lt: "unat i < unat len" and n: "n = unat len - Suc (unat i)" by simp_all
  obtain ok s1 where p: "poll env (\<lambda>e. flag_status e I2C_FLAG_TXE) tick s = Some (ok, s1)"
    using poll_returns [OF assms(1)] by blast
  note r = poll_result [OF p]
  show ?case
  proof (cases ok)
    case False
    then show ?thesis using lt p r
      by (subst send_loop.simps) (auto intro!: exI [of _ False] exI [of _ s1] exI [of _ "0::nat"])
  next
    case True
    let ?d = "data ! unat i"
    note step = counter_step [OF lt assms(2)]
    obtain b s' k where IH: "send_loop env tick data len (i + 1) (I2C_SendData ?d s1) = Some (b, s')"
      "i2c_log s' = i2c_log s1 @ data_op ?d # map data_op (take k (drop (Suc (unat i)) data))"
      "if b then k = unat len - Suc (unat i) else k < unat len - Suc (unat i)"
      using Suc.hyps(1) [of "i + 1" "I2C_SendData ?d s1", unfolded step] n lt
      by (auto simp: I2C_SendData_def)
    have dr: "drop (unat i) data = ?d # drop (Suc (unat i)) data"
      using lt assms(3) by (simp add: Cons_nth_drop_Suc)
    have "send_loop env tick data len i s = Some (b, s')"
      using lt p True IH(1) assms(3) by (subst send_loop.simps) simp
    then show ?thesis using IH(2,3) r lt
      by (intro exI [of _ b] exI [of _ s'] exI [of _ "Suc k"]) (auto simp: dr)
  qed
qed

text \<open>
  The bytes received: each is read from the data register at an instant of its own, in order, and
  the instant before each showed a byte to be there.
\<close>

definition received :: "(nat \<Rightarrow> i2c_env) \<Rightarrow> nat \<Rightarrow> nat list \<Rightarrow> bool" where
  "received env t0 ts \<longleftrightarrow> sorted_wrt (<) (t0 # ts) \<and>
     list_all (\<lambda>t. flag_status (env (t - 1)) I2C_FLAG_RXNE) ts"

definition bytes_at :: "(nat \<Rightarrow> i2c_env) \<Rightarrow> nat list \<Rightarrow> u8 list" where
  "bytes_at env ts = map (\<lambda>t. ucast (DATAR (env t))) ts"

definition nak_ops :: "nat \<Rightarrow> i2c_op list" where
  "nak_ops n = (if n > 0 then [Bits_clear R16_I2C_CTRL1 RB_I2C_ACK] else [])"

lemma receive_loop_total:
  assumes "running_clock env" and "unat len < 256" and "unat len \<le> length data" and "unat i \<le> unat len"
  shows "\<exists>b data' s' ts. receive_loop env tick data len i s = Some (b, data', s') \<and>
    length data' = length data \<and>
    (if b then received env (now s) ts \<and> length ts = unat len - unat i \<and>
       data' = take (unat i) data @ bytes_at env ts @ drop (unat len) data \<and>
       i2c_log s' = i2c_log s @ nak_ops (unat len - unat i)
     else unat i < unat len \<and> i2c_log s' = i2c_log s)"
  using assms(3,4)
proof (induction "unat len - unat i" arbitrary: i s data)
  case 0
  then have "receive_loop env tick data len i s = Some (True, data, s)"
    by (subst receive_loop.simps) simp
  moreover have "unat i = unat len" using 0 by simp
  ultimately show ?case
    by (intro exI [of _ True] exI [of _ data] exI [of _ s] exI [of _ "[]"])
      (simp add: received_def bytes_at_def nak_ops_def)
next
  case (Suc n)
  then have lt: "unat i < unat len" and n: "n = unat len - Suc (unat i)" by simp_all
  obtain ok s1 where p: "poll env (\<lambda>e. flag_status e I2C_FLAG_RXNE) tick s = Some (ok, s1)"
    using poll_returns [OF assms(1)] by blast
  note r = poll_result [OF p]
  show ?case
  proof (cases ok)
    case False
    then have "receive_loop env tick data len i s = Some (False, data, s1)"
      using lt p by (subst receive_loop.simps) simp
    then show ?thesis using r lt by auto
  next
    case True
    have last: "(int (unat i) = int (unat len) - 1) = (Suc (unat i) = unat len)" by linarith
    let ?s2 = "if Suc (unat i) = unat len then I2C_AcknowledgeConfig False s1 else s1"
    let ?d = "ucast (DATAR (env (now s1))) :: u8"
    have n2: "now ?s2 = now s1" by (simp add: I2C_AcknowledgeConfig_def)
    note step = counter_step [OF lt assms(2)]
    have e: "receive_loop env tick data len i s =
        receive_loop env tick (data[unat i := ?d]) len (i + 1) (advance ?s2)"
      using lt p True Suc.prems(1) n2
      by (subst receive_loop.simps) (simp add: I2C_ReceiveData_def Let_def last del: of_nat_unat)
    obtain b data' s' ts where IH:
      "receive_loop env tick (data[unat i := ?d]) len (i + 1) (advance ?s2) = Some (b, data', s')"
      "length data' = length data"
      "if b then received env (now (advance ?s2)) ts \<and> length ts = unat len - Suc (unat i) \<and>
         data' = take (Suc (unat i)) (data[unat i := ?d]) @ bytes_at env ts @
           drop (unat len) (data[unat i := ?d]) \<and>
         i2c_log s' = i2c_log (advance ?s2) @ nak_ops (unat len - Suc (unat i))
       else Suc (unat i) < unat len \<and> i2c_log s' = i2c_log (advance ?s2)"
      using Suc.hyps(1) [of "i + 1" "data[unat i := ?d]" "advance ?s2", unfolded step] n
        Suc.prems(1) lt by auto
    show ?thesis
    proof (cases b)
      case True
      have "take (Suc (unat i)) (data[unat i := ?d]) = take (unat i) data @ [?d]"
        using lt Suc.prems(1) by (simp add: take_Suc_conv_app_nth)
      moreover have "received env (now s) (now s1 # ts)"
        using IH(3) r \<open>ok\<close> True n2 by (auto simp: received_def)
      moreover have "i2c_log s' = i2c_log s @ nak_ops (unat len - unat i)"
        using IH(3) r True lt by (auto simp: I2C_AcknowledgeConfig_def nak_ops_def split: if_splits)
      moreover have "0 < length data" using lt Suc.prems(1) by linarith
      ultimately show ?thesis using IH e True lt Suc_diff_Suc [OF lt]
        by (intro exI [of _ True] exI [of _ data'] exI [of _ s'] exI [of _ "now s1 # ts"])
          (simp add: bytes_at_def)
    next
      case False
      then show ?thesis using IH e r lt by (auto split: if_splits)
    qed
  qed
qed

section \<open>Transfers\<close>

abbreviation start_op :: i2c_op where
  "start_op \<equiv> Bits_set R16_I2C_CTRL1 RB_I2C_START"

abbreviation address_op :: "u8 \<Rightarrow> bool \<Rightarrow> i2c_op" where
  "address_op a rx \<equiv> data_op (address_byte a rx)"

text \<open>The register writes of the protocol: a write transfer, and a read with a repeated start.\<close>

definition transmit_ops :: "u8 \<Rightarrow> u8 list \<Rightarrow> i2c_op list" where
  "transmit_ops a data = start_op # address_op a False # map data_op data @ [Bits_set R16_I2C_CTRL1 RB_I2C_STOP]"

definition restart_ops :: "u8 \<Rightarrow> nat \<Rightarrow> i2c_op list" where
  "restart_ops a n = [start_op, address_op a True, Bits_clear R16_I2C_CTRL1 RB_I2C_STOP] @ nak_ops n @
     [Bits_set R16_I2C_CTRL1 RB_I2C_STOP, Bits_set R16_I2C_CTRL1 RB_I2C_ACK]"

definition read_ops :: "u8 \<Rightarrow> u8 list \<Rightarrow> nat \<Rightarrow> i2c_op list" where
  "read_ops a reg n = start_op # address_op a False # map data_op reg @ restart_ops a n"

text \<open>How a call ended: with the whole protocol, or timed out at a proper beginning of it.\<close>

definition ended :: "int \<Rightarrow> i2c_sys \<Rightarrow> i2c_sys \<Rightarrow> i2c_op list \<Rightarrow> bool" where
  "ended st s s' ops \<longleftrightarrow>
     st = I2C_STATUS_SUCCESS \<and> i2c_log s' = i2c_log s @ ops \<or>
     st = I2C_STATUS_TIMEOUT \<and> (\<exists>done. i2c_log s' = i2c_log s @ done \<and> strict_prefix done ops)"

lemma endedI:
  "i2c_log s' = i2c_log s @ ops \<Longrightarrow> ended I2C_STATUS_SUCCESS s s' ops"
  "i2c_log s' = i2c_log s @ done \<Longrightarrow> ops = done @ x # rest \<Longrightarrow> ended I2C_STATUS_TIMEOUT s s' ops"
  by (auto simp: ended_def intro: strict_prefixI')

lemma status_distinct [simp]: "I2C_STATUS_TIMEOUT \<noteq> I2C_STATUS_SUCCESS"
  by (simp add: I2C_STATUS_TIMEOUT_def I2C_STATUS_SUCCESS_def)

lemma start_cases:
  obtains s1 where "i2c_start env s = (I2C_STATUS_SUCCESS, s1)" "i2c_log s1 = i2c_log s @ [start_op]"
  | s1 where "i2c_start env s = (I2C_STATUS_TIMEOUT, s1)" "i2c_log s1 = i2c_log s @ [start_op]"
proof -
  obtain st s1 where e: "i2c_start env s = (st, s1)" by fastforce
  then have "i2c_log s1 = i2c_log s @ [start_op]" "st = I2C_STATUS_SUCCESS \<or> st = I2C_STATUS_TIMEOUT"
    using start_loop_result [of env 0 "I2C_GenerateSTART True s"]
    by (auto simp: i2c_start_def I2C_GenerateSTART_def I2C_STATUS_SUCCESS_def I2C_STATUS_TIMEOUT_def)
  then show ?thesis using that e by blast
qed

lemma wait_total:
  assumes "running_clock env"
  shows "\<exists>b s'. wait_event env ev tick s = Some (b, s') \<and> i2c_log s' = i2c_log s \<and> now s < now s'"
    and "\<exists>b s'. wait_flag env fl tick s = Some (b, s') \<and> i2c_log s' = i2c_log s \<and> now s < now s'"
  using poll_returns [OF assms] poll_result unfolding wait_event_def wait_flag_def by metis+

lemmas op_defs = I2C_Send7bitAddress_def I2C_SendData_def I2C_GenerateSTOP_def i2c_stop_def
  I2C_AcknowledgeConfig_def rt_tick_get_def

lemma transmit_total:
  assumes "running_clock env" and "unat len < 256" and "unat len \<le> length data"
  shows "\<exists>st s'. i2c_transmit env a data len s = Some (st, s') \<and>
    ended st s s' (transmit_ops a (take (unat len) data))"
proof (cases rule: start_cases [of env s])
  case (1 s1)
  let ?tick = "TICK (env (now s1))" and ?ops = "transmit_ops a (take (unat len) data)"
  obtain b1 s4 where w1: "wait_event env I2C_EVENT_MASTER_TRANSMITTER_MODE_SELECTED ?tick
      (I2C_Send7bitAddress a False (advance s1)) = Some (b1, s4)"
    "i2c_log s4 = i2c_log s @ [start_op, address_op a False]"
    using wait_total(1) [OF assms(1), of I2C_EVENT_MASTER_TRANSMITTER_MODE_SELECTED ?tick
        "I2C_Send7bitAddress a False (advance s1)"] 1 by (auto simp: op_defs)
  obtain b2 s5 k where w2: "send_loop env ?tick data len 0 s4 = Some (b2, s5)"
    "i2c_log s5 = i2c_log s4 @ map data_op (take k data)"
    "if b2 then k = unat len else k < unat len"
    using send_loop_total [OF assms, of 0 ?tick s4, unfolded unat_0 diff_zero drop_0] by blast
  obtain b3 s6 where w3: "wait_event env I2C_EVENT_MASTER_BYTE_TRANSMITTED ?tick s5 = Some (b3, s6)"
    "i2c_log s6 = i2c_log s5"
    using wait_total(1) [OF assms(1)] by blast
  note run = i2c_transmit_def 1(1) rt_tick_get_def w1(1) w2(1) w3(1)
  consider "\<not> b1" | "b1" "\<not> b2" | "b1" "b2" "\<not> b3" | "b1" "b2" "b3" by blast
  then show ?thesis
  proof cases
    case 1
    have "?ops = [start_op, address_op a False] @ hd (drop 2 ?ops) # tl (drop 2 ?ops)"
      by (simp add: transmit_ops_def numeral_2_eq_2)
    then have "ended I2C_STATUS_TIMEOUT s s4 ?ops" by (rule endedI(2) [OF w1(2)])
    then show ?thesis using 1 by (simp add: run)
  next
    case 2
    then have k: "k < unat len" using w2(3) by simp
    then have "take (unat len) data = take k data @ data ! k # drop (Suc k) (take (unat len) data)"
      using assms(3) id_take_nth_drop [of k "take (unat len) data"] by simp
    then have "map data_op (take (unat len) data) = map data_op (take k data) @ data_op (data ! k) #
        map data_op (drop (Suc k) (take (unat len) data))" by (metis list.simps(9) map_append)
    then have "?ops = ([start_op, address_op a False] @ map data_op (take k data)) @ data_op (data ! k) #
        map data_op (drop (Suc k) (take (unat len) data)) @ [Bits_set R16_I2C_CTRL1 RB_I2C_STOP]"
      by (simp add: transmit_ops_def)
    moreover have "i2c_log s5 = i2c_log s @ [start_op, address_op a False] @ map data_op (take k data)"
      using w1(2) w2(2) by simp
    ultimately have "ended I2C_STATUS_TIMEOUT s s5 ?ops" by (intro endedI(2))
    then show ?thesis using 2 by (simp add: run)
  next
    case 3
    then have "ended I2C_STATUS_TIMEOUT s s6 ?ops"
      using w1(2) w2(2,3) w3(2) by (intro endedI(2)) (auto simp: transmit_ops_def)
    then show ?thesis using 3 by (simp add: run)
  next
    case 4
    then have "ended I2C_STATUS_SUCCESS s (i2c_stop s6) ?ops"
      using w1(2) w2(2,3) w3(2) by (intro endedI(1)) (simp add: transmit_ops_def op_defs)
    then show ?thesis using 4 by (simp add: run)
  qed
next
  case (2 s1)
  then have "ended I2C_STATUS_TIMEOUT s s1 (transmit_ops a (take (unat len) data))"
    by (intro endedI(2)) (auto simp: transmit_ops_def)
  then show ?thesis using 2 by (simp add: i2c_transmit_def)
qed

lemma ended_append:
  assumes "ended st s1 s' ops2" and "i2c_log s1 = i2c_log s @ ops1"
  shows "ended st s s' (ops1 @ ops2)"
  using assms by (auto simp: ended_def strict_prefix_def)

lemma received_mono: "received env t ts \<Longrightarrow> t0 \<le> t \<Longrightarrow> received env t0 ts"
  by (auto simp: received_def)

lemma start_loop_now: "now s \<le> now (snd (start_loop env n s))"
  by (induction env n s rule: start_loop.induct) (subst start_loop.simps; auto)

lemma start_now: "now s \<le> now (snd (i2c_start env s))"
  using start_loop_now [of "I2C_GenerateSTART True s" env 0]
  by (simp add: i2c_start_def I2C_GenerateSTART_def)

lemma restart_total:
  assumes "running_clock env" and "unat len < 256" and "unat len \<le> length data"
  shows "\<exists>st data' s'. read_after_restart env tick a data len s = Some (st, data', s') \<and>
    ended st s s' (restart_ops a (unat len)) \<and> length data' = length data \<and>
    (st = I2C_STATUS_SUCCESS \<longrightarrow> (\<exists>ts. received env (now s) ts \<and> length ts = unat len \<and>
      data' = bytes_at env ts @ drop (unat len) data))"
proof (cases rule: start_cases [of env s])
  case (1 s1)
  let ?ops = "restart_ops a (unat len)"
  have n1: "now s \<le> now s1" using start_now [of s env] 1(1) by simp
  obtain b1 s2 where w1: "wait_event env I2C_EVENT_MASTER_RECEIVER_MODE_SELECTED tick
      (I2C_Send7bitAddress a True s1) = Some (b1, s2)"
    "i2c_log s2 = i2c_log s @ [start_op, address_op a True]" "now s1 < now s2"
    using wait_total(1) [OF assms(1), of I2C_EVENT_MASTER_RECEIVER_MODE_SELECTED tick
        "I2C_Send7bitAddress a True s1"] 1 by (auto simp: op_defs)
  let ?s2 = "I2C_GenerateSTOP False s2"
  have s2: "i2c_log ?s2 = i2c_log s @ [start_op, address_op a True, Bits_clear R16_I2C_CTRL1 RB_I2C_STOP]"
    "now ?s2 = now s2" using w1(2) by (simp_all add: op_defs)
  obtain b2 data' s3 ts where w2: "receive_loop env tick data len 0 ?s2 = Some (b2, data', s3)"
    "length data' = length data"
    "if b2 then received env (now ?s2) ts \<and> length ts = unat len \<and>
       data' = take 0 data @ bytes_at env ts @ drop (unat len) data \<and>
       i2c_log s3 = i2c_log ?s2 @ nak_ops (unat len)
     else 0 < unat len \<and> i2c_log s3 = i2c_log ?s2"
    using receive_loop_total [OF assms, of 0 tick ?s2, unfolded unat_0 diff_zero] by blast
  note run = read_after_restart_def 1(1) w1(1) w2(1)
  consider "\<not> b1" | "b1" "\<not> b2" | "b1" "b2" by blast
  then show ?thesis
  proof cases
    case 1
    then have "ended I2C_STATUS_TIMEOUT s s2 ?ops"
      using w1(2) by (intro endedI(2)) (auto simp: restart_ops_def)
    then show ?thesis using 1 by (simp add: run)
  next
    case 2
    then have "ended I2C_STATUS_TIMEOUT s s3 ?ops"
      using w2(3) s2 by (intro endedI(2)) (auto simp: restart_ops_def nak_ops_def)
    then show ?thesis using 2 w2(2) by (simp add: run)
  next
    case 3
    then have "ended I2C_STATUS_SUCCESS s (I2C_AcknowledgeConfig True (i2c_stop s3)) ?ops"
      using w2(3) s2 by (intro endedI(1)) (auto simp: restart_ops_def op_defs)
    moreover have "received env (now s) ts"
      using 3 w2(3) s2 n1 w1(3) by (auto intro: received_mono)
    ultimately show ?thesis using 3 w2(2,3) by (auto simp: run)
  qed
next
  case (2 s1)
  then have "ended I2C_STATUS_TIMEOUT s s1 (restart_ops a (unat len))"
    by (intro endedI(2)) (auto simp: restart_ops_def)
  then show ?thesis using 2 by (simp add: read_after_restart_def)
qed

text \<open>The address phase the two register reads share, up to the restart.\<close>

lemma read_reg_total:
  assumes "running_clock env" and "unat len < 256" and "unat len \<le> length data"
  shows "\<exists>st data' s'. i2c_read_reg env a reg data len s = Some (st, data', s') \<and>
    ended st s s' (read_ops a [reg] (unat len)) \<and> length data' = length data \<and>
    (st = I2C_STATUS_SUCCESS \<longrightarrow> (\<exists>ts. received env (now s) ts \<and> length ts = unat len \<and>
      data' = bytes_at env ts @ drop (unat len) data))"
proof (cases rule: start_cases [of env s])
  case (1 s1)
  let ?tick = "TICK (env (now s1))" and ?ops = "read_ops a [reg] (unat len)"
  obtain b1 s4 where w1: "wait_event env I2C_EVENT_MASTER_TRANSMITTER_MODE_SELECTED ?tick
      (I2C_Send7bitAddress a False (advance s1)) = Some (b1, s4)"
    "i2c_log s4 = i2c_log s @ [start_op, address_op a False]" "now s1 \<le> now s4"
    using wait_total(1) [OF assms(1), of I2C_EVENT_MASTER_TRANSMITTER_MODE_SELECTED ?tick
        "I2C_Send7bitAddress a False (advance s1)"] 1 by (auto simp: op_defs)
  obtain b2 s5 where w2: "wait_flag env I2C_FLAG_TXE ?tick s4 = Some (b2, s5)" "i2c_log s5 = i2c_log s4" "now s4 < now s5"
    using wait_total(2) [OF assms(1)] by blast
  obtain b3 s6 where w3: "wait_event env I2C_EVENT_MASTER_BYTE_TRANSMITTED ?tick
      (I2C_SendData reg s5) = Some (b3, s6)"
    "i2c_log s6 = i2c_log s @ [start_op, address_op a False, data_op reg]" "now s5 < now s6"
    using wait_total(1) [OF assms(1), of I2C_EVENT_MASTER_BYTE_TRANSMITTED ?tick "I2C_SendData reg s5"]
      w1(2) w2(2) by (auto simp: op_defs)
  obtain st data' s7 where w4: "read_after_restart env ?tick a data len s6 = Some (st, data', s7)"
    "ended st s6 s7 (restart_ops a (unat len))" "length data' = length data"
    "st = I2C_STATUS_SUCCESS \<longrightarrow> (\<exists>ts. received env (now s6) ts \<and> length ts = unat len \<and>
      data' = bytes_at env ts @ drop (unat len) data)"
    using restart_total [OF assms] by blast
  have "now s \<le> now s6" using start_now [of s env] 1(1) w1(3) w2(3) w3(3) by simp
  note run = i2c_read_reg_def 1(1) rt_tick_get_def w1(1) w2(1) w3(1) w4(1)
  consider "\<not> b1" | "b1" "\<not> b2" | "b1" "b2" "\<not> b3" | "b1" "b2" "b3" by blast
  then show ?thesis
  proof cases
    case 1
    then have "ended I2C_STATUS_TIMEOUT s s4 ?ops"
      using w1(2) by (intro endedI(2)) (auto simp: read_ops_def)
    then show ?thesis using 1 by (simp add: run)
  next
    case 2
    then have "ended I2C_STATUS_TIMEOUT s s5 ?ops"
      using w1(2) w2(2) by (intro endedI(2)) (auto simp: read_ops_def)
    then show ?thesis using 2 by (simp add: run)
  next
    case 3
    then have "ended I2C_STATUS_TIMEOUT s s6 ?ops"
      using w3(2) by (intro endedI(2)) (auto simp: read_ops_def restart_ops_def)
    then show ?thesis using 3 by (simp add: run)
  next
    case 4
    have "ended st s s7 ?ops"
      using ended_append [OF w4(2) w3(2)] by (simp add: read_ops_def)
    then show ?thesis using 4 w4(3,4) \<open>now s \<le> now s6\<close> by (auto simp: run intro: received_mono)
  qed
next
  case (2 s1)
  then have "ended I2C_STATUS_TIMEOUT s s1 (read_ops a [reg] (unat len))"
    by (intro endedI(2)) (auto simp: read_ops_def)
  then show ?thesis using 2 by (simp add: i2c_read_reg_def)
qed

section \<open>Properties\<close>

definition ready_env :: "nat \<Rightarrow> i2c_env" where
  "ready_env n = \<lparr>STAR1 = 0xFFFF, STAR2 = 0xFFFF, DATAR = of_nat n, TICK = of_nat n\<rparr>"

definition sample_i2c :: i2c_sys where
  "sample_i2c = \<lparr>i2c_gpio = \<lparr>PA = \<lparr>P_PIN = 0, P_OUT = 0, P_PD_DRV = 0, P_PU = 0, P_DIR = 0,
       P_INT_EN = 0, P_INT_MODE = 0, P_INT_IF = 0\<rparr>,
     PB = \<lparr>P_PIN = 0, P_OUT = 0, P_PD_DRV = 0, P_PU = 0, P_DIR = 0, P_INT_EN = 0, P_INT_MODE = 0,
       P_INT_IF = 0\<rparr>\<rparr>, i2c_log = [], now = 0\<rparr>"

lemma ready_clock: "running_clock ready_env"
  unfolding running_clock_def
  by (rule exI [of _ "\<lambda>n. n"]) (auto simp: ready_env_def)

text \<open>
  With a clock that goes on, every write of up to 255 bytes returns, whatever the device does:
  with success after exactly the writes of the protocol (start, address with the write bit, the
  bytes in order, stop), or with the time-out at a proper beginning of them, which never has the
  stop.
\<close>

theorem i2c_transmit_correct:
  assumes "running_clock env" and "unat len < 256" and "unat len \<le> length data"
  shows "\<exists>st s'. i2c_transmit env a data len s = Some (st, s') \<and>
    ended st s s' (transmit_ops a (take (unat len) data))"
  by (rule transmit_total [OF assms])

theorem i2c_transmit_correct_witness:
  "\<exists>st s'. i2c_transmit ready_env 0x52 [1, 2, 3] 2 sample_i2c = Some (st, s') \<and>
    ended st sample_i2c s' [Bits_set R16_I2C_CTRL1 0x100, Reg_write R16_I2C_DATAR 0x52,
      Reg_write R16_I2C_DATAR 1, Reg_write R16_I2C_DATAR 2, Bits_set R16_I2C_CTRL1 0x200]"
  using i2c_transmit_correct [OF ready_clock, of 2 "[1, 2, 3]" "0x52" sample_i2c]
  by (simp add: transmit_ops_def address_byte_def i2c_bits)

text \<open>
  C30: With a clock that goes on, every register read of up to 255 bytes returns. On success the bus
  saw the register address written, a repeated start and the read address, and the acknowledgement
  taken away before the last byte; the buffer starts with bytes the device delivered during the call,
  in order and each one announced, and is unchanged behind them.
\<close>

theorem i2c_read_reg_correct:
  assumes "running_clock env" and "unat len < 256" and "unat len \<le> length data"
  shows "\<exists>st data' s'. i2c_read_reg env a reg data len s = Some (st, data', s') \<and>
    ended st s s' (read_ops a [reg] (unat len)) \<and> length data' = length data \<and>
    (st \<noteq> I2C_STATUS_SUCCESS \<or> (\<exists>ts. received env (now s) ts \<and> length ts = unat len \<and>
      data' = bytes_at env ts @ drop (unat len) data))"
  using read_reg_total [OF assms, of a reg s] by auto

theorem i2c_read_reg_correct_witness:
  "\<exists>st data' s'. i2c_read_reg ready_env 0x52 7 [0, 0, 9] 2 sample_i2c = Some (st, data', s') \<and>
    length data' = 3"
  using i2c_read_reg_correct [OF ready_clock, of 2 "[0, 0, 9]" "0x52" 7 sample_i2c] by auto

text \<open>
  A write of 256 bytes or more to a device that is always ready never returns: the 8-bit counter
  starts again at 0 and the time-out is looked at only while the device is busy.
\<close>

lemma send_loop_endless:
  assumes "256 \<le> unat len" and "\<And>n. flag_status (env n) I2C_FLAG_TXE"
  shows "send_loop env tick data len i s = None"
proof (rule ccontr)
  assume "send_loop env tick data len i s \<noteq> None"
  then obtain r where e: "send_loop env tick data len i s = Some r" by blast
  have "\<not> (256 \<le> unat len \<and> (\<forall>n. flag_status (env n) I2C_FLAG_TXE))"
  proof (rule send_loop.raw_induct [where P = "\<lambda>env tick data len i s r.
      \<not> (256 \<le> unat len \<and> (\<forall>n. flag_status (env n) I2C_FLAG_TXE))", OF _ e])
    fix f env tick data and len :: u16 and i :: u8 and s r
    assume IH: "\<And>env tick data len i s r. f env tick data len i s = Some r \<Longrightarrow>
        \<not> (256 \<le> unat len \<and> (\<forall>n. flag_status (env n) I2C_FLAG_TXE))"
      and run: "(if unat i < unat len then do {
          (ok, s1) \<leftarrow> poll env (\<lambda>e. flag_status e I2C_FLAG_TXE) tick s;
          if \<not> ok then Some (False, s1) else do {
            d \<leftarrow> arr_get data (unat i);
            f env tick data len (i + 1) (I2C_SendData d s1)
          }
        } else Some (True, s)) = Some r"
    show "\<not> (256 \<le> unat len \<and> (\<forall>n. flag_status (env n) I2C_FLAG_TXE))"
    proof
      assume a: "256 \<le> unat len \<and> (\<forall>n. flag_status (env n) I2C_FLAG_TXE)"
      have "unat i < 256" using unsigned_less [of i, where 'a = nat] by simp
      then have "unat i < unat len" using a by linarith
      moreover have "poll env (\<lambda>e. flag_status e I2C_FLAG_TXE) tick s = Some (True, advance s)"
        using a by (subst poll.simps) simp
      ultimately obtain d where "f env tick data len (i + 1) (I2C_SendData d (advance s)) = Some r"
        using run by (auto simp: bind_eq_Some_conv)
      from IH [OF this] a show False by blast
    qed
  qed
  then show False using assms by blast
qed

end
