(* ===== verification/UsbDesc.thy ===== *)
theory UsbDesc
  imports Usb
begin

text \<open>
  The descriptors of the controller (\<open>Firmware/applications/usbd_cdc_acm_hid.c\<close> with the macros
  of \<open>CherryUSB/common/usb_def.h\<close> and \<open>class/cdc/usb_cdc.h\<close>) and the search through them
  (\<open>usbd_get_descriptor\<close> of \<open>CherryUSB/core/usbd_core.c\<close>). The table is a list of bytes and a
  pointer into it an offset; a read behind its end is \<open>None\<close>.
\<close>

section \<open>Constants\<close>

definition USB_DESCRIPTOR_TYPE_DEVICE :: u8 where "USB_DESCRIPTOR_TYPE_DEVICE = 0x01"
definition USB_DESCRIPTOR_TYPE_CONFIGURATION :: u8 where "USB_DESCRIPTOR_TYPE_CONFIGURATION = 0x02"
definition USB_DESCRIPTOR_TYPE_STRING :: u8 where "USB_DESCRIPTOR_TYPE_STRING = 0x03"
definition USB_DESCRIPTOR_TYPE_INTERFACE :: u8 where "USB_DESCRIPTOR_TYPE_INTERFACE = 0x04"
definition USB_DESCRIPTOR_TYPE_ENDPOINT :: u8 where "USB_DESCRIPTOR_TYPE_ENDPOINT = 0x05"
definition USB_DESCRIPTOR_TYPE_OTHER_SPEED :: u8 where "USB_DESCRIPTOR_TYPE_OTHER_SPEED = 0x07"
definition USB_DESCRIPTOR_TYPE_INTERFACE_ASSOCIATION :: u8 where
  "USB_DESCRIPTOR_TYPE_INTERFACE_ASSOCIATION = 0x0B"
definition USB_DESCRIPTOR_TYPE_BINARY_OBJECT_STORE :: u8 where
  "USB_DESCRIPTOR_TYPE_BINARY_OBJECT_STORE = 0x0F"
definition HID_DESCRIPTOR_TYPE_HID :: u8 where "HID_DESCRIPTOR_TYPE_HID = 0x21"
definition USB_OSDESC_STRING_DESC_INDEX :: u8 where "USB_OSDESC_STRING_DESC_INDEX = 0xEE"
definition CDC_INT_EP :: u8 where "CDC_INT_EP = 0x82"
definition HID_INT_EP_SIZE :: u8 where "HID_INT_EP_SIZE = 19"
definition HID_INT_EP_INTERVAL :: u8 where "HID_INT_EP_INTERVAL = 10"
definition USBD_VID :: u16 where "USBD_VID = 0x0483"
definition USBD_PID :: u16 where "USBD_PID = 0x0110"
definition USBD_MAX_POWER :: u8 where "USBD_MAX_POWER = 100"
definition USBD_LANGID_STRING :: u16 where "USBD_LANGID_STRING = 1033"
definition USB_CONFIG_BUS_POWERED :: u8 where "USB_CONFIG_BUS_POWERED = 0x80"
definition HID_JOYSTICK_REPORT_DESC_SIZE :: u8 where "HID_JOYSTICK_REPORT_DESC_SIZE = 56"
definition CDC_ACM_DESCRIPTOR_LEN :: u16 where
  "CDC_ACM_DESCRIPTOR_LEN = 8 + 9 + 5 + 5 + 4 + 5 + 7 + 9 + 7 + 7"
definition USB_CONFIG_SIZE :: u16 where "USB_CONFIG_SIZE = 9 + CDC_ACM_DESCRIPTOR_LEN + 25"

definition WBVAL :: "u16 \<Rightarrow> u8 list" where
  "WBVAL x = [ucast (x AND 0xFF), ucast (drop_bit 8 x AND 0xFF)]"

definition HI_BYTE :: "u16 \<Rightarrow> u8" where "HI_BYTE x = ucast (drop_bit 8 (x AND 0xFF00))"
definition LO_BYTE :: "u16 \<Rightarrow> u8" where "LO_BYTE x = ucast (x AND 0x00FF)"

lemmas usb_desc_types = USB_DESCRIPTOR_TYPE_DEVICE_def USB_DESCRIPTOR_TYPE_CONFIGURATION_def
  USB_DESCRIPTOR_TYPE_STRING_def USB_DESCRIPTOR_TYPE_INTERFACE_def USB_DESCRIPTOR_TYPE_ENDPOINT_def
  USB_DESCRIPTOR_TYPE_OTHER_SPEED_def USB_DESCRIPTOR_TYPE_INTERFACE_ASSOCIATION_def
  USB_DESCRIPTOR_TYPE_BINARY_OBJECT_STORE_def HID_DESCRIPTOR_TYPE_HID_def USB_OSDESC_STRING_DESC_INDEX_def

section \<open>The tables\<close>

definition USB_DEVICE_DESCRIPTOR_INIT ::
    "u16 \<Rightarrow> u8 \<Rightarrow> u8 \<Rightarrow> u8 \<Rightarrow> u16 \<Rightarrow> u16 \<Rightarrow> u16 \<Rightarrow> u8 \<Rightarrow> u8 list" where
  "USB_DEVICE_DESCRIPTOR_INIT bcdUSB cls sub prot idVendor idProduct bcdDevice configs =
     [0x12, USB_DESCRIPTOR_TYPE_DEVICE] @ WBVAL bcdUSB @ [cls, sub, prot, 0x40] @ WBVAL idVendor @
     WBVAL idProduct @ WBVAL bcdDevice @ [0x01, 0x02, 0x03, configs]"

definition USB_CONFIG_DESCRIPTOR_INIT :: "u16 \<Rightarrow> u8 \<Rightarrow> u8 \<Rightarrow> u8 \<Rightarrow> u8 \<Rightarrow> u8 list" where
  "USB_CONFIG_DESCRIPTOR_INIT wlen interfaces conf attrs mpower =
     [0x09, USB_DESCRIPTOR_TYPE_CONFIGURATION] @ WBVAL wlen @
     [interfaces, conf, 0x00, attrs, mpower div 2]"

definition CDC_ACM_DESCRIPTOR_INIT :: "u8 \<Rightarrow> u8 \<Rightarrow> u8 \<Rightarrow> u8 \<Rightarrow> u8 \<Rightarrow> u8 list" where
  "CDC_ACM_DESCRIPTOR_INIT first int_ep oep iep str =
     [0x08, USB_DESCRIPTOR_TYPE_INTERFACE_ASSOCIATION, first, 0x02, 0x02, 0x02, 0x01, 0x00,
      0x09, USB_DESCRIPTOR_TYPE_INTERFACE, first, 0x00, 0x01, 0x02, 0x02, 0x01, str,
      0x05, 0x24, 0x00] @ WBVAL 0x0110 @
     [0x05, 0x24, 0x01, 0x00, first + 1,
      0x04, 0x24, 0x02, 0x02,
      0x05, 0x24, 0x06, first, first + 1,
      0x07, USB_DESCRIPTOR_TYPE_ENDPOINT, int_ep, 0x03, 0x08, 0x00, 0x0A,
      0x09, USB_DESCRIPTOR_TYPE_INTERFACE, first + 1, 0x00, 0x02, 0x0A, 0x00, 0x00, 0x00,
      0x07, USB_DESCRIPTOR_TYPE_ENDPOINT, oep, 0x02, 0x40, 0x00, 0x00,
      0x07, USB_DESCRIPTOR_TYPE_ENDPOINT, iep, 0x02, 0x40, 0x00, 0x00]"

definition USB_LANGID_INIT :: "u16 \<Rightarrow> u8 list" where
  "USB_LANGID_INIT i = [0x04, USB_DESCRIPTOR_TYPE_STRING] @ WBVAL i"

definition joystick_descriptors :: "u8 list" where
  "joystick_descriptors =
     [0x09, USB_DESCRIPTOR_TYPE_INTERFACE, 0x02, 0x00, 0x01, 0x03, 0x00, 0x00, 0,
      0x09, HID_DESCRIPTOR_TYPE_HID, 0x11, 0x01, 0x00, 0x01, 0x22, HID_JOYSTICK_REPORT_DESC_SIZE, 0x00,
      0x07, USB_DESCRIPTOR_TYPE_ENDPOINT, HID_INT_EP, 0x03, HID_INT_EP_SIZE, 0x00, HID_INT_EP_INTERVAL]"

text \<open>The characters of a string descriptor, two bytes each.\<close>

definition wide_string :: "string \<Rightarrow> u8 list" where
  "wide_string cs = concat (map (\<lambda>c. [of_char c, 0x00]) cs)"

definition string_descriptors :: "u8 list" where
  "string_descriptors =
     USB_LANGID_INIT USBD_LANGID_STRING @
     [0x14, USB_DESCRIPTOR_TYPE_STRING] @ wide_string ''SkyWalker'' @
     [0x26, USB_DESCRIPTOR_TYPE_STRING] @ wide_string ''SkyWalker M4 USB  '' @
     [0x16, USB_DESCRIPTOR_TYPE_STRING] @ wide_string ''2022123456''"

definition cdc_acm_hid_descriptor :: "u8 list" where
  "cdc_acm_hid_descriptor =
     USB_DEVICE_DESCRIPTOR_INIT 0x0200 0x00 0x00 0x00 USBD_VID USBD_PID 0x0200 0x01 @
     USB_CONFIG_DESCRIPTOR_INIT USB_CONFIG_SIZE 0x03 0x01 USB_CONFIG_BUS_POWERED USBD_MAX_POWER @
     CDC_ACM_DESCRIPTOR_INIT 0x00 CDC_INT_EP CDC_OUT_EP CDC_IN_EP 0x02 @
     joystick_descriptors @ string_descriptors @ [0x00]"

definition hid_joystick_report_desc :: "u8 list" where
  "hid_joystick_report_desc =
     [0x05, 0x01, 0x09, 0x05, 0xA1, 0x01, 0xA1, 0x00,
      0x05, 0x09, 0x19, 0x01, 0x29, 0x18, 0x15, 0x00, 0x25, 0x01, 0x95, 0x18, 0x75, 0x01, 0x81, 0x02,
      0x05, 0x01, 0x09, 0x30, 0x09, 0x31, 0x09, 0x32, 0x09, 0x33, 0x09, 0x34, 0x09, 0x35, 0x09, 0x36,
      0x09, 0x36, 0x16, 0x00, 0x00, 0x26, 0xFF, 0x07, 0x75, 0x10, 0x95, 0x08, 0x81, 0x02, 0xC0, 0xC0]"

lemmas desc_table_defs = cdc_acm_hid_descriptor_def USB_DEVICE_DESCRIPTOR_INIT_def
  USB_CONFIG_DESCRIPTOR_INIT_def CDC_ACM_DESCRIPTOR_INIT_def USB_LANGID_INIT_def
  joystick_descriptors_def string_descriptors_def wide_string_def WBVAL_def
  CDC_INT_EP_def HID_INT_EP_SIZE_def HID_INT_EP_INTERVAL_def USBD_VID_def USBD_PID_def
  USBD_MAX_POWER_def USBD_LANGID_STRING_def USB_CONFIG_BUS_POWERED_def
  HID_JOYSTICK_REPORT_DESC_SIZE_def CDC_ACM_DESCRIPTOR_LEN_def USB_CONFIG_SIZE_def
  CDC_IN_EP_def CDC_OUT_EP_def HID_INT_EP_def usb_desc_types

section \<open>The search\<close>

text \<open>
  The loop of \<open>usbd_get_descriptor\<close> at the offset \<open>p\<close>, which has passed \<open>cur\<close> descriptors of
  the type: the offset of the one with the wanted index, if there is one.
\<close>

function get_loop :: "u8 list \<Rightarrow> u8 \<Rightarrow> nat \<Rightarrow> nat \<Rightarrow> nat \<Rightarrow> nat option option" where
  "get_loop d ty index p cur =
     (case arr_get d p of
        None \<Rightarrow> None
      | Some l \<Rightarrow>
          if l = 0 then Some None
          else (case arr_get d (p + 1) of
              None \<Rightarrow> None
            | Some t \<Rightarrow>
                if t = ty then
                  (if cur = index then Some (Some p) else get_loop d ty index (p + unat l) (cur + 1))
                else get_loop d ty index (p + unat l) cur))"
  by pat_completeness auto
termination
  by (relation "measure (\<lambda>(d, ty, index, p, cur). length d - p)")
    (auto simp: arr_get_def unat_gt_0 intro!: diff_less_mono2 split: if_splits)

declare get_loop.simps [simp del]

text \<open>
  \<open>usbd_get_descriptor\<close> without the Microsoft and BOS descriptors, which this device does not
  register: the offset and the length, when the descriptor is found.
\<close>

definition usbd_get_descriptor :: "u8 list \<Rightarrow> u16 \<Rightarrow> (nat \<times> u32) option option" where
  "usbd_get_descriptor d type_index =
     (let ty = HI_BYTE type_index; index = LO_BYTE type_index in
      if ty = USB_DESCRIPTOR_TYPE_STRING \<and> index = USB_OSDESC_STRING_DESC_INDEX then Some None
      else if ty = USB_DESCRIPTOR_TYPE_BINARY_OBJECT_STORE then Some None
      else if ty = USB_DESCRIPTOR_TYPE_INTERFACE \<or> ty = USB_DESCRIPTOR_TYPE_ENDPOINT
        \<or> ty > USB_DESCRIPTOR_TYPE_ENDPOINT then Some None
      else (case get_loop d ty (unat index) 0 0 of
          None \<Rightarrow> None
        | Some None \<Rightarrow> Some None
        | Some (Some p) \<Rightarrow>
            if ty = USB_DESCRIPTOR_TYPE_CONFIGURATION \<or> ty = USB_DESCRIPTOR_TYPE_OTHER_SPEED then do {
              lo \<leftarrow> arr_get d (p + 2);
              hi \<leftarrow> arr_get d (p + 3);
              Some (Some (p, ucast lo OR push_bit 8 (ucast hi)))
            } else do {
              l \<leftarrow> arr_get d p;
              Some (Some (p, ucast l))
            }))"

section \<open>The table as a list of descriptors\<close>

definition wf_desc :: "u8 list \<Rightarrow> bool" where
  "wf_desc x \<longleftrightarrow> 2 \<le> length x \<and> length x < 256 \<and> x ! 0 = of_nat (length x)"

fun find_desc :: "u8 list list \<Rightarrow> u8 \<Rightarrow> nat \<Rightarrow> nat \<Rightarrow> nat option" where
  "find_desc [] ty k p = None"
| "find_desc (x # xs) ty k p =
     (if x ! 1 = ty then (if k = 0 then Some p else find_desc xs ty (k - 1) (p + length x))
      else find_desc xs ty k (p + length x))"

lemma get_loop_find:
  assumes "list_all wf_desc ds" and "cur \<le> index"
  shows "get_loop (pre @ concat ds @ [0]) ty index (length pre) cur =
    Some (find_desc ds ty (index - cur) (length pre))"
  using assms
proof (induction ds arbitrary: pre cur)
  case Nil
  then show ?case by (subst get_loop.simps) (simp add: arr_get_def nth_append)
next
  case (Cons x xs)
  let ?d = "pre @ concat (x # xs) @ [0]"
  have x: "2 \<le> length x" "length x < 256" "x ! 0 = of_nat (length x)"
    using Cons.prems(1) by (simp_all add: wf_desc_def)
  have d: "?d ! length pre = of_nat (length x)" "?d ! (length pre + 1) = x ! 1"
    "length pre + 1 < length ?d" "length pre < length ?d"
    using x by (auto simp: nth_append)
  have u: "unat (of_nat (length x) :: u8) = length x" using x(2) by (simp add: unat_of_nat)
  have nz: "(of_nat (length x) :: u8) \<noteq> 0" using u x(1) by auto
  have ih: "get_loop ?d ty index (length pre + length x) c =
      Some (find_desc xs ty (index - c) (length pre + length x))" if "c \<le> index" for c
    using Cons.IH [of c "pre @ x"] Cons.prems(1) that by simp
  show ?case
    apply (subst get_loop.simps)
    using d u nz ih [of cur] ih [of "cur + 1"] Cons.prems(2)
    by (auto simp: arr_get_def)
qed

definition cdc_acm_hid_list :: "u8 list list" where
  "cdc_acm_hid_list =
     [[18, 1, 0, 2, 0, 0, 0, 64, 0x83, 4, 0x10, 1, 0, 2, 1, 2, 3, 1],
      [9, 2, 100, 0, 3, 1, 0, 0x80, 50],
      [8, 0x0B, 0, 2, 2, 2, 1, 0],
      [9, 4, 0, 0, 1, 2, 2, 1, 2],
      [5, 0x24, 0, 0x10, 1], [5, 0x24, 1, 0, 1], [4, 0x24, 2, 2], [5, 0x24, 6, 0, 1],
      [7, 5, 0x82, 3, 8, 0, 10],
      [9, 4, 1, 0, 2, 10, 0, 0, 0],
      [7, 5, 1, 2, 64, 0, 0], [7, 5, 0x81, 2, 64, 0, 0],
      [9, 4, 2, 0, 1, 3, 0, 0, 0],
      [9, 0x21, 0x11, 1, 0, 1, 0x22, 56, 0],
      [7, 5, 0x83, 3, 19, 0, 10],
      [4, 3, 9, 4],
      [20, 3] @ wide_string ''SkyWalker'',
      [38, 3] @ wide_string ''SkyWalker M4 USB  '',
      [22, 3] @ wide_string ''2022123456'']"

lemma table_list: "cdc_acm_hid_descriptor = concat cdc_acm_hid_list @ [0]"
  by (simp add: desc_table_defs cdc_acm_hid_list_def)

lemma table_wf: "list_all wf_desc cdc_acm_hid_list"
  by (simp add: cdc_acm_hid_list_def wf_desc_def wide_string_def)

lemma table_search:
  "get_loop cdc_acm_hid_descriptor ty k 0 0 = Some (find_desc cdc_acm_hid_list ty k 0)"
  using get_loop_find [OF table_wf, of 0 k "[]" ty] by (simp add: table_list)

lemma table_find:
  "find_desc cdc_acm_hid_list 1 k 0 = (if k = 0 then Some 0 else None)"
  "find_desc cdc_acm_hid_list 2 k 0 = (if k = 0 then Some 18 else None)"
  "find_desc cdc_acm_hid_list 3 k 0 = (if k = 0 then Some 118 else if k = 1 then Some 122
     else if k = 2 then Some 142 else if k = 3 then Some 180 else None)"
  "find_desc cdc_acm_hid_list 0 k 0 = None"
  by (auto simp: cdc_acm_hid_list_def wide_string_def)

lemma descriptor_length: "length cdc_acm_hid_descriptor = 203"
  by (simp add: table_list cdc_acm_hid_list_def wide_string_def)

lemma table_at:
  "arr_get cdc_acm_hid_descriptor 0 = Some 18" "arr_get cdc_acm_hid_descriptor 20 = Some 100"
  "arr_get cdc_acm_hid_descriptor 21 = Some 0" "arr_get cdc_acm_hid_descriptor 118 = Some 4"
  "arr_get cdc_acm_hid_descriptor 122 = Some 20" "arr_get cdc_acm_hid_descriptor 142 = Some 38"
  "arr_get cdc_acm_hid_descriptor 180 = Some 22"
  by (simp_all add: table_list cdc_acm_hid_list_def wide_string_def arr_get_def)

text \<open>What the device offers: the device, the configuration with everything in it, the strings.\<close>

definition config_descs :: "u8 list list" where
  "config_descs = take 14 (drop 1 cdc_acm_hid_list)"

definition offered :: "nat \<Rightarrow> nat \<Rightarrow> u8 list option" where
  "offered ty k =
     (if ty = 1 \<and> k = 0 then Some (cdc_acm_hid_list ! 0)
      else if ty = 2 \<and> k = 0 then Some (concat config_descs)
      else if ty = 3 \<and> k < 4 then Some (cdc_acm_hid_list ! (15 + k))
      else None)"

lemma small_type: "ty \<le> 5 \<Longrightarrow> ty \<noteq> 4 \<Longrightarrow> ty \<noteq> 5 \<Longrightarrow> ty = 0 \<or> ty = 1 \<or> ty = 2 \<or> ty = (3 :: u8)"
  unfolding word_le_nat_alt by (auto simp: word_unat_eq_iff)

lemma hi_byte: "unat (HI_BYTE w) = unat w div 256"
proof -
  have m: "(0xFF00 :: u16) = push_bit 8 (mask 8)" by (simp add: mask_eq_exp_minus_1 push_bit_eq_mult)
  have "drop_bit 8 (w AND 0xFF00) = drop_bit 8 w"
    unfolding m by (rule bit_word_eqI) (auto simp: bit_simps dest: bit_imp_le_length)
  then have "unat (HI_BYTE w) = take_bit 8 (unat w div 256)"
    by (simp add: HI_BYTE_def unsigned_ucast_eq unsigned_drop_bit_eq drop_bit_eq_div unat_div)
  then show ?thesis using unsigned_less [of w, where 'a = nat]
    by (simp add: take_bit_eq_mod less_mult_imp_div_less)
qed

lemma lo_byte: "unat (LO_BYTE w) = unat w mod 256"
proof -
  have m: "(0x00FF :: u16) = mask 8" by (simp add: mask_eq_exp_minus_1)
  show ?thesis
    by (simp add: LO_BYTE_def m unsigned_ucast_eq unsigned_and_eq take_bit_eq_mod
        unat_mod flip: take_bit_eq_mask)
qed

lemma get_descriptor_eqs:
  "HI_BYTE w = 0 \<Longrightarrow> usbd_get_descriptor cdc_acm_hid_descriptor w = Some None"
  "HI_BYTE w = 1 \<Longrightarrow> usbd_get_descriptor cdc_acm_hid_descriptor w =
     Some (if unat (LO_BYTE w) = 0 then Some (0, 18) else None)"
  "HI_BYTE w = 2 \<Longrightarrow> usbd_get_descriptor cdc_acm_hid_descriptor w =
     Some (if unat (LO_BYTE w) = 0 then Some (18, 100) else None)"
  "HI_BYTE w = 3 \<Longrightarrow> usbd_get_descriptor cdc_acm_hid_descriptor w =
     Some (if unat (LO_BYTE w) = 0 then Some (118, 4) else if unat (LO_BYTE w) = 1 then Some (122, 20)
       else if unat (LO_BYTE w) = 2 then Some (142, 38) else if unat (LO_BYTE w) = 3 then Some (180, 22)
       else None)"
  by (auto simp: usbd_get_descriptor_def usb_desc_types Let_def table_search table_find table_at)

lemma table_pieces:
  "take 18 (drop 0 cdc_acm_hid_descriptor) = cdc_acm_hid_list ! 0"
  "take 100 (drop 18 cdc_acm_hid_descriptor) = concat config_descs"
  "take 4 (drop 118 cdc_acm_hid_descriptor) = cdc_acm_hid_list ! 15"
  "take 20 (drop 122 cdc_acm_hid_descriptor) = cdc_acm_hid_list ! 16"
  "take 38 (drop 142 cdc_acm_hid_descriptor) = cdc_acm_hid_list ! 17"
  "take 22 (drop 180 cdc_acm_hid_descriptor) = cdc_acm_hid_list ! 18"
  by (simp_all add: table_list cdc_acm_hid_list_def config_descs_def wide_string_def)

lemma offered_eqs:
  "offered 0 k = None" "offered 1 k = (if k = 0 then Some (cdc_acm_hid_list ! 0) else None)"
  "offered 2 k = (if k = 0 then Some (concat config_descs) else None)"
  "offered 3 k = (if k = 0 then Some (cdc_acm_hid_list ! 15) else if k = 1 then Some (cdc_acm_hid_list ! 16)
     else if k = 2 then Some (cdc_acm_hid_list ! 17) else if k = 3 then Some (cdc_acm_hid_list ! 18) else None)"
proof -
  have "k < 4 \<longleftrightarrow> k = 0 \<or> k = 1 \<or> k = 2 \<or> k = 3" by auto
  then show "offered 3 k = (if k = 0 then Some (cdc_acm_hid_list ! 15)
     else if k = 1 then Some (cdc_acm_hid_list ! 16)
     else if k = 2 then Some (cdc_acm_hid_list ! 17) else if k = 3 then Some (cdc_acm_hid_list ! 18) else None)"
    by (simp add: offered_def)
qed (simp_all add: offered_def)

section \<open>Properties\<close>

text \<open>
  GET_DESCRIPTOR finds the device descriptor, the whole configuration and the four strings, each
  at its own length inside the table, and nothing else; the search never leaves the table.
\<close>

theorem get_descriptor_correct:
  "\<exists>r. usbd_get_descriptor cdc_acm_hid_descriptor w = Some r \<and>
    map_option (\<lambda>(p, n). take (unat n) (drop p cdc_acm_hid_descriptor)) r =
      offered (unat w div 256) (unat w mod 256) \<and>
    (case r of None \<Rightarrow> True | Some (p, n) \<Rightarrow> p + unat n < length cdc_acm_hid_descriptor \<and> 0 < unat n)"
proof -
  let ?t = "HI_BYTE w" and ?k = "unat (LO_BYTE w)"
  have t: "unat w div 256 = unat ?t" and k: "unat w mod 256 = ?k" by (simp_all add: hi_byte lo_byte)
  show ?thesis unfolding t k descriptor_length
  proof (cases "?t \<le> 5 \<and> ?t \<noteq> 4 \<and> ?t \<noteq> 5")
    case False
    then have n: "?t \<noteq> 1" "?t \<noteq> 2" "?t \<noteq> 3" by auto
    have "unat ?t \<noteq> 1" "unat ?t \<noteq> 2" "unat ?t \<noteq> 3"
      using n by (simp_all add: word_unat_eq_iff)
    moreover have "?t = 4 \<or> ?t = 5 \<or> 5 < ?t" using False by auto
    ultimately show "\<exists>r. usbd_get_descriptor cdc_acm_hid_descriptor w = Some r \<and>
      map_option (\<lambda>(p, n). take (unat n) (drop p cdc_acm_hid_descriptor)) r = offered (unat ?t) ?k \<and>
      (case r of None \<Rightarrow> True | Some (p, n) \<Rightarrow> p + unat n < 203 \<and> 0 < unat n)"
      by (auto simp: usbd_get_descriptor_def usb_desc_types offered_def Let_def)
  next
    case True
    then consider "?t = 0" | "?t = 1" | "?t = 2" | "?t = 3" using small_type by blast
    then show "\<exists>r. usbd_get_descriptor cdc_acm_hid_descriptor w = Some r \<and>
      map_option (\<lambda>(p, n). take (unat n) (drop p cdc_acm_hid_descriptor)) r = offered (unat ?t) ?k \<and>
      (case r of None \<Rightarrow> True | Some (p, n) \<Rightarrow> p + unat n < 203 \<and> 0 < unat n)"
      by cases (auto simp: get_descriptor_eqs offered_eqs offered_eqs(2) [unfolded One_nat_def]
          table_pieces [simplified])
  qed
qed

end
