(* ===== verification/HidProps.thy ===== *)
theory HidProps
  imports UsbDesc RadioProps
begin

text \<open>
  The joystick seen from the host: a reading of report descriptors after the HID specification
  (the short items that lay out an input report), applied to the descriptor the device sends, and the
  values it finds in the reports that the control loop fills.
\<close>

section \<open>How a host reads a report\<close>

fun le_value :: "u8 list \<Rightarrow> nat" where
  "le_value [] = 0"
| "le_value (b # bs) = unat b + 256 * le_value bs"

text \<open>A short item: the size of its data in the low two bits of the prefix, its tag in the others.\<close>

fun hid_items :: "u8 list \<Rightarrow> (u8 \<times> nat) list" where
  "hid_items [] = []"
| "hid_items (b # bs) =
     (let k = unat (b AND 3); n = (if k = 3 then 4 else k) in
      (b AND 0xFC, le_value (take n bs)) # hid_items (drop n bs))"

text \<open>The fields of the input report in order, each with its bits and its logical range.\<close>

fun hid_inputs :: "(u8 \<times> nat) list \<Rightarrow> nat \<Rightarrow> nat \<Rightarrow> nat \<Rightarrow> nat \<Rightarrow> (nat \<times> nat \<times> nat) list" where
  "hid_inputs [] lo hi bits cnt = []"
| "hid_inputs ((tag, v) # xs) lo hi bits cnt =
     (if tag = 0x14 then hid_inputs xs v hi bits cnt
      else if tag = 0x24 then hid_inputs xs lo v bits cnt
      else if tag = 0x74 then hid_inputs xs lo hi v cnt
      else if tag = 0x94 then hid_inputs xs lo hi bits v
      else if tag = 0x80 then replicate cnt (bits, lo, hi) @ hid_inputs xs lo hi bits cnt
      else hid_inputs xs lo hi bits cnt)"

definition report_fields :: "u8 list \<Rightarrow> (nat \<times> nat \<times> nat) list" where
  "report_fields d = hid_inputs (hid_items d) 0 0 0 0"

fun field_values :: "nat list \<Rightarrow> bool list \<Rightarrow> nat list" where
  "field_values [] bs = []"
| "field_values (n # ns) bs = horner_sum of_bool 2 (take n bs) # field_values ns (drop n bs)"

definition report_bits :: "u8 list \<Rightarrow> bool list" where
  "report_bits bs = concat (map (\<lambda>b. map (bit b) [0..<8]) bs)"

definition host_values :: "u8 list \<Rightarrow> u8 list \<Rightarrow> nat list" where
  "host_values d report = field_values (map fst (report_fields d)) (report_bits report)"

section \<open>The descriptor of this device\<close>

lemma joystick_fields:
  "report_fields hid_joystick_report_desc = replicate 24 (1, 0, 1) @ replicate 8 (16, 0, 2047)"
  by (simp add: report_fields_def hid_joystick_report_desc_def)

lemma byte_bits: "horner_sum of_bool 2 (map (bit b) [0..<8]) = unat (b :: u8)"
proof -
  have "map (bit b) [0..<8] = map (bit (unat b)) [0..<8]"
    by (rule map_cong) (simp_all add: bit_unsigned_iff)
  then show ?thesis using unsigned_less [of b, where 'a = nat]
    by (simp only: horner_sum_bit_eq_take_bit take_bit_nat_eq_self) (simp add: take_bit_nat_eq_self)
qed

lemma byte_field:
  "field_values (replicate 8 1 @ ns) (map (bit b) [0..<8] @ bs) =
     map (\<lambda>i. of_bool (bit (b :: u8) i)) [0..<8] @ field_values ns bs"
  by (simp add: upt_rec numeral_eq_Suc)

lemma word_field:
  "field_values (16 # ns) (map (bit a) [0..<8] @ map (bit b) [0..<8] @ bs) =
     (unat (a :: u8) + 256 * unat (b :: u8)) # field_values ns bs"
proof -
  have "horner_sum of_bool 2 (map (bit a) [0..<8] @ map (bit b) [0..<8]) = unat a + 256 * unat b"
    by (simp only: horner_sum_append byte_bits length_map length_upt) simp
  then show ?thesis by simp
qed

lemma list_19: "length bs = 19 \<Longrightarrow> bs = map ((!) bs) [0..<19]"
  by (metis map_nth)
text \<open>What the host finds in any report of 19 bytes: 24 buttons and eight axes.\<close>

lemma words_fields:
  "field_values (replicate n 16) (concat (map (\<lambda>i. map (bit (f (2 * i) :: u8)) [0..<8] @
     map (bit (f (2 * i + 1))) [0..<8]) [k..<k + n]) @ bs) =
   map (\<lambda>i. unat (f (2 * i)) + 256 * unat (f (2 * i + 1))) [k..<k + n] @ field_values [] []"
proof (induction n arbitrary: k)
  case (Suc n)
  have u: "[k..<k + Suc n] = k # [Suc k..<Suc k + n]" by (simp add: upt_rec)
  show ?case unfolding u using word_field Suc.IH [of "Suc k"] by simp
qed simp

lemma report_split:
  assumes "length bs = 19"
  shows "report_bits bs = map (bit (bs ! 0)) [0..<8] @ map (bit (bs ! 1)) [0..<8] @ map (bit (bs ! 2)) [0..<8] @
    concat (map (\<lambda>i. map (bit (bs ! (2 * i + 3))) [0..<8] @ map (bit (bs ! (2 * i + 4))) [0..<8]) [0..<8])"
  by (subst list_19 [OF assms]) (simp add: report_bits_def upt_rec numeral_eq_Suc)

lemma host_values_report:
  assumes "length bs = 19"
  shows "host_values hid_joystick_report_desc bs =
    map (\<lambda>i. of_bool (bit (bs ! 0) i)) [0..<8] @ map (\<lambda>i. of_bool (bit (bs ! 1) i)) [0..<8] @
    map (\<lambda>i. of_bool (bit (bs ! 2) i)) [0..<8] @ map (\<lambda>i. nat (report_value bs i)) [0..<8]"
proof -
  have f: "map fst (report_fields hid_joystick_report_desc) =
      replicate 8 1 @ replicate 8 1 @ replicate 8 1 @ replicate 8 16"
    by (simp add: joystick_fields numeral_eq_Suc)
  have w: "field_values (replicate 8 16) (concat (map (\<lambda>i. map (bit (bs ! (2 * i + 3))) [0..<8] @
      map (bit (bs ! (2 * i + 4))) [0..<8]) [0..<8])) = map (\<lambda>i. nat (report_value bs i)) [0..<8]"
    using words_fields [of 8 "\<lambda>j. bs ! (j + 3)" 0 "[]"]
    by (simp add: report_value_def nat_add_distrib nat_mult_distrib ac_simps)
  show ?thesis unfolding host_values_def f report_split [OF assms] byte_field w by simp
qed

text \<open>
  C18: The host that reads the reports by the descriptor the device sends gets from every iteration of
  the control loop exactly the eight channels on its eight axes, within the declared range, and no
  button pressed; the report has the size of the packet declared for the endpoint.
\<close>

theorem joystick_report_understood:
  assumes "radio_inv s" and "calibra_step (radio s) = 0" and "sticks_ok (params s)"
    and "\<forall>k<3. HID_Buffer s ! k = 0"
  shows "\<exists>s' buf. radio_thread_step f s r = Some (s', Some buf) \<and>
    host_values hid_joystick_report_desc buf =
      replicate 24 0 @ map (\<lambda>i. nat (joystick (rd_channels (radio s') ! i))) [0..<8] \<and>
    (\<forall>i<24 + 8. let (bits, lo, hi) = report_fields hid_joystick_report_desc ! i;
                  v = host_values hid_joystick_report_desc buf ! i in lo \<le> v \<and> v \<le> hi) \<and>
    sum_list (map fst (report_fields hid_joystick_report_desc)) = 8 * unat HID_INT_EP_SIZE \<and>
    length buf = unat HID_INT_EP_SIZE"
proof -
  obtain s' buf where b: "radio_thread_step f s r = Some (s', Some buf)" "length buf = 19"
    "\<forall>i<8. report_value buf i = joystick (rd_channels (radio s') ! i)"
    "\<forall>k<3. buf ! k = HID_Buffer s ! k"
    using sent_step [OF assms(1-3)] by blast
  have z: "buf ! 0 = 0" "buf ! 1 = 0" "buf ! 2 = 0" using b(4) assms(4) by simp_all
  have v: "host_values hid_joystick_report_desc buf =
      replicate 24 0 @ map (\<lambda>i. nat (joystick (rd_channels (radio s') ! i))) [0..<8]"
    unfolding host_values_report [OF b(2)] z using b(3) by (simp add: upt_rec numeral_eq_Suc)
  have r: "let (bits, lo, hi) = report_fields hid_joystick_report_desc ! i;
      v = host_values hid_joystick_report_desc buf ! i in lo \<le> v \<and> v \<le> hi" if "i < 24 + 8" for i
  proof (cases "i < 24")
    case True
    then show ?thesis by (simp add: v joystick_fields nth_append)
  next
    case False
    then show ?thesis using that joystick_range [of "rd_channels (radio s') ! (i - 24)"]
      by (simp add: v joystick_fields nth_append nat_le_iff)
  qed
  show ?thesis
    using b v r by (intro exI [of _ s'] exI [of _ buf]) (simp add: joystick_fields HID_INT_EP_SIZE_def sum_list_replicate)
qed

theorem joystick_report_understood_witness:
  "\<exists>s' buf. radio_thread_step byte_flash (sample_radio 0) sample_readings = Some (s', Some buf) \<and>
    length (host_values hid_joystick_report_desc buf) = 32"
  using joystick_report_understood [OF sample_radio_inv sample_radio_step sample_radio_sticks,
      of byte_flash sample_readings]
  by (auto simp: sample_radio_def)

end
