(* ===== verification/UsbCore.thy ===== *)
theory UsbCore
  imports UsbDesc
begin

text \<open>
  The control endpoint of the controller: the request handling of
  \<open>CherryUSB/core/usbd_core.c\<close>, the class handlers of \<open>class/cdc/usbd_cdc.c\<close> and
  \<open>class/hid/usbd_hid.c\<close>, and the parts of the port (\<open>port/ch32/usb_ch58x_dc_usbfs.c\<close>) that
  serve endpoint 0, the stall functions and the reset. The other endpoints are those of
  \<open>Usb\<close>. A pointer is an object and an offset; an access outside the object is \<open>None\<close>. The
  log output is compiled out, and so are the test mode and the Microsoft and BOS descriptors, which
  this device does not register.
\<close>

section \<open>State\<close>

record usb_setup_packet =
  bmRequestType :: u8
  bRequest :: u8
  wValue :: u16
  wIndex :: u16
  wLength :: u16

text \<open>What \<open>ep0_data_buf\<close> and the pointer of a read transfer can point into.\<close>

datatype area = Null | Req_data | Descriptors | Configuration_byte | Report_desc

datatype class_handler = Cdc_acm | Hid

record usbd_interface =
  intf_num :: u8
  class_interface_handler :: class_handler
  hid_report_descriptor :: area
  hid_report_descriptor_len :: u32

text \<open>
  The device: the endpoints and functions of \<open>Usb\<close>; the OUT side of endpoint 0 and of the
  endpoints 2 to 7, on which no read is ever started; the data toggles of endpoint 0; the address
  registers; and \<open>usbd_core_cfg\<close>. The addresses of the objects are the linker's choice.
\<close>

record usbd_core =
  sys :: usb_sys
  ep0_out :: usb_out_ep
  ep0_out_buf :: area
  spare_out :: "usb_out_ep list"
  t_tog :: bool
  r_tog :: bool
  usb_dev_ad :: u8
  dc_address :: u8
  dc_setup :: usb_setup_packet
  core_setup :: usb_setup_packet
  ep0_data_buf :: "area \<times> nat"
  ep0_data_buf_residue :: u32
  ep0_data_buf_len :: u32
  zlp_flag :: bool
  req_data :: "u8 list"
  descriptors :: "u8 list"
  configured :: bool
  configuration :: u8
  intf_offset :: u8
  usbd_intf_head :: "usbd_interface list"
  area_addr :: "area \<Rightarrow> u32"

definition CONFIG_USBDEV_REQUEST_BUFFER_LEN :: nat where "CONFIG_USBDEV_REQUEST_BUFFER_LEN = 256"
definition USB_CTRL_EP_MPS :: nat where "USB_CTRL_EP_MPS = 64"
definition USB_CONTROL_OUT_EP0 :: u8 where "USB_CONTROL_OUT_EP0 = 0x00"
definition USB_CONTROL_IN_EP0 :: u8 where "USB_CONTROL_IN_EP0 = 0x80"
definition USB_REQUEST_DIR_MASK :: u8 where "USB_REQUEST_DIR_MASK = 0x80"
definition USB_REQUEST_DIR_OUT :: u8 where "USB_REQUEST_DIR_OUT = 0"
definition USB_REQUEST_DIR_IN :: u8 where "USB_REQUEST_DIR_IN = 0x80"
definition USB_REQUEST_TYPE_MASK :: u8 where "USB_REQUEST_TYPE_MASK = 0x60"
definition USB_REQUEST_STANDARD :: u8 where "USB_REQUEST_STANDARD = 0"
definition USB_REQUEST_CLASS :: u8 where "USB_REQUEST_CLASS = 0x20"
definition USB_REQUEST_VENDOR :: u8 where "USB_REQUEST_VENDOR = 0x40"
definition USB_REQUEST_RECIPIENT_MASK :: u8 where "USB_REQUEST_RECIPIENT_MASK = 3"
definition USB_REQUEST_RECIPIENT_DEVICE :: u8 where "USB_REQUEST_RECIPIENT_DEVICE = 0"
definition USB_REQUEST_RECIPIENT_INTERFACE :: u8 where "USB_REQUEST_RECIPIENT_INTERFACE = 1"
definition USB_REQUEST_RECIPIENT_ENDPOINT :: u8 where "USB_REQUEST_RECIPIENT_ENDPOINT = 2"
definition USB_REQUEST_GET_STATUS :: u8 where "USB_REQUEST_GET_STATUS = 0x00"
definition USB_REQUEST_CLEAR_FEATURE :: u8 where "USB_REQUEST_CLEAR_FEATURE = 0x01"
definition USB_REQUEST_SET_FEATURE :: u8 where "USB_REQUEST_SET_FEATURE = 0x03"
definition USB_REQUEST_SET_ADDRESS :: u8 where "USB_REQUEST_SET_ADDRESS = 0x05"
definition USB_REQUEST_GET_DESCRIPTOR :: u8 where "USB_REQUEST_GET_DESCRIPTOR = 0x06"
definition USB_REQUEST_GET_CONFIGURATION :: u8 where "USB_REQUEST_GET_CONFIGURATION = 0x08"
definition USB_REQUEST_SET_CONFIGURATION :: u8 where "USB_REQUEST_SET_CONFIGURATION = 0x09"
definition USB_REQUEST_GET_INTERFACE :: u8 where "USB_REQUEST_GET_INTERFACE = 0x0A"
definition USB_REQUEST_SET_INTERFACE :: u8 where "USB_REQUEST_SET_INTERFACE = 0x0B"
definition USB_FEATURE_ENDPOINT_HALT :: u16 where "USB_FEATURE_ENDPOINT_HALT = 0"
definition CDC_REQUEST_SET_LINE_CODING :: u8 where "CDC_REQUEST_SET_LINE_CODING = 0x20"
definition CDC_REQUEST_GET_LINE_CODING :: u8 where "CDC_REQUEST_GET_LINE_CODING = 0x21"
definition CDC_REQUEST_SET_CONTROL_LINE_STATE :: u8 where "CDC_REQUEST_SET_CONTROL_LINE_STATE = 0x22"
definition HID_REQUEST_GET_REPORT :: u8 where "HID_REQUEST_GET_REPORT = 0x01"
definition HID_REQUEST_GET_IDLE :: u8 where "HID_REQUEST_GET_IDLE = 0x02"
definition HID_REQUEST_GET_PROTOCOL :: u8 where "HID_REQUEST_GET_PROTOCOL = 0x03"
definition HID_REQUEST_SET_REPORT :: u8 where "HID_REQUEST_SET_REPORT = 0x09"
definition HID_REQUEST_SET_IDLE :: u8 where "HID_REQUEST_SET_IDLE = 0x0A"
definition HID_REQUEST_SET_PROTOCOL :: u8 where "HID_REQUEST_SET_PROTOCOL = 0x0B"

lemmas request_defs = USB_REQUEST_DIR_MASK_def USB_REQUEST_DIR_OUT_def USB_REQUEST_DIR_IN_def
  USB_REQUEST_TYPE_MASK_def USB_REQUEST_STANDARD_def USB_REQUEST_CLASS_def USB_REQUEST_VENDOR_def
  USB_REQUEST_RECIPIENT_MASK_def USB_REQUEST_RECIPIENT_DEVICE_def USB_REQUEST_RECIPIENT_INTERFACE_def
  USB_REQUEST_RECIPIENT_ENDPOINT_def USB_REQUEST_GET_STATUS_def USB_REQUEST_CLEAR_FEATURE_def
  USB_REQUEST_SET_FEATURE_def USB_REQUEST_SET_ADDRESS_def USB_REQUEST_GET_DESCRIPTOR_def
  USB_REQUEST_GET_CONFIGURATION_def USB_REQUEST_SET_CONFIGURATION_def USB_REQUEST_GET_INTERFACE_def
  USB_REQUEST_SET_INTERFACE_def USB_FEATURE_ENDPOINT_HALT_def

lemmas class_request_defs = CDC_REQUEST_SET_LINE_CODING_def CDC_REQUEST_GET_LINE_CODING_def
  CDC_REQUEST_SET_CONTROL_LINE_STATE_def HID_REQUEST_GET_REPORT_def HID_REQUEST_GET_IDLE_def
  HID_REQUEST_GET_PROTOCOL_def HID_REQUEST_SET_REPORT_def HID_REQUEST_SET_IDLE_def
  HID_REQUEST_SET_PROTOCOL_def

section \<open>Pointers\<close>

definition area_bytes :: "usbd_core \<Rightarrow> area \<Rightarrow> u8 list" where
  "area_bytes c a = (case a of
       Null \<Rightarrow> []
     | Req_data \<Rightarrow> req_data c
     | Descriptors \<Rightarrow> descriptors c
     | Configuration_byte \<Rightarrow> [configuration c]
     | Report_desc \<Rightarrow> hid_joystick_report_desc)"

definition ptr_addr :: "usbd_core \<Rightarrow> area \<times> nat \<Rightarrow> u32" where
  "ptr_addr c p = (if fst p = Null then 0 else area_addr c (fst p)) + of_nat (snd p)"

definition ptr_bytes :: "usbd_core \<Rightarrow> area \<times> nat \<Rightarrow> u8 list" where
  "ptr_bytes c p = drop (snd p) (area_bytes c (fst p))"

text \<open>A store of bytes through \<open>*data\<close>: of the objects only \<open>req_data\<close> is written this way.\<close>

definition store_data :: "u8 list \<Rightarrow> usbd_core \<Rightarrow> usbd_core option" where
  "store_data bs c =
     (if fst (ep0_data_buf c) = Req_data then do {
        d \<leftarrow> copy_to (req_data c) (snd (ep0_data_buf c)) bs 0 (length bs);
        Some (c\<lparr>req_data := d\<rparr>)
      } else None)"

section \<open>The port\<close>

definition usbd_set_address :: "u8 \<Rightarrow> usbd_core \<Rightarrow> usbd_core" where
  "usbd_set_address addr c =
     (if addr = 0 then c\<lparr>usb_dev_ad := (usb_dev_ad c AND 0x80) OR addr\<rparr> else c)\<lparr>dc_address := addr\<rparr>"

text \<open>The OUT endpoint with an index below 8, and its replacement.\<close>

definition get_out :: "nat \<Rightarrow> usbd_core \<Rightarrow> usb_out_ep option" where
  "get_out i c = (if i = 0 then Some (ep0_out c) else if i = 1 then Some (ep_out (sys c))
     else arr_get (spare_out c) (i - 2))"

definition set_out :: "nat \<Rightarrow> usb_out_ep \<Rightarrow> usbd_core \<Rightarrow> usbd_core" where
  "set_out i e c = (if i = 0 then c\<lparr>ep0_out := e\<rparr> else if i = 1 then c\<lparr>sys := (sys c)\<lparr>ep_out := e\<rparr>\<rparr>
     else c\<lparr>spare_out := (spare_out c)[i - 2 := e]\<rparr>)"

definition set_in :: "nat \<Rightarrow> usb_in_ep \<Rightarrow> usbd_core \<Rightarrow> usbd_core" where
  "set_in i e c = c\<lparr>sys := (sys c)\<lparr>ep_in := (ep_in (sys c))[i := e]\<rparr>\<rparr>"

text \<open>The macros that change the answer of an endpoint in its control register.\<close>

definition set_tx :: "ep_res \<Rightarrow> nat \<Rightarrow> usbd_core \<Rightarrow> usbd_core option" where
  "set_tx r i c = do { e \<leftarrow> arr_get (ep_in (sys c)) i; Some (set_in i (e\<lparr>in_res := r\<rparr>) c) }"

definition set_rx :: "ep_res \<Rightarrow> nat \<Rightarrow> usbd_core \<Rightarrow> usbd_core option" where
  "set_rx r i c = do { e \<leftarrow> get_out i c; Some (set_out i (e\<lparr>out_res := r\<rparr>) c) }"

text \<open>\<open>usbd_ep_open\<close>: the packet size is cut to eight bits in the local \<open>mps\<close>.\<close>

definition core_ep_open :: "u8 \<Rightarrow> u16 \<Rightarrow> usbd_core \<Rightarrow> (int \<times> usbd_core) option" where
  "core_ep_open ep ep_mps c =
     (let i = USB_EP_GET_IDX ep; m = unat (ucast ep_mps :: u8) in
      if i > USB_NUM_BIDIR_ENDPOINTS - 1 then Some (-1, c)
      else if ep AND 0x80 \<noteq> 0 \<or> i = 1
      then map_option (\<lambda>(r, s). (r, c\<lparr>sys := s\<rparr>)) (usbd_ep_open ep m (sys c))
      else do {
        e \<leftarrow> get_out i c;
        Some (0, set_out i (e\<lparr>out_mps := m, out_enable := True\<rparr>) c)
      })"

definition usbd_ep_close :: "u8 \<Rightarrow> usbd_core \<Rightarrow> (int \<times> usbd_core) option" where
  "usbd_ep_close ep c =
     (let i = USB_EP_GET_IDX ep in
      if ep AND 0x80 \<noteq> 0 then do {
        e \<leftarrow> arr_get (ep_in (sys c)) i;
        Some (0, set_in i (e\<lparr>in_enable := False\<rparr>) c)
      }
      else do {
        e \<leftarrow> get_out i c;
        Some (0, set_out i (e\<lparr>out_enable := False\<rparr>) c)
      })"

text \<open>\<open>usbd_ep_start_write\<close> and \<open>usbd_ep_start_read\<close> on endpoint 0.\<close>

definition ep0_start_write :: "area \<times> nat \<Rightarrow> u32 \<Rightarrow> usbd_core \<Rightarrow> usbd_core option" where
  "ep0_start_write p n c =
     map_option (\<lambda>(r, s). c\<lparr>sys := s\<rparr>)
       (usbd_ep_start_write USB_CONTROL_IN_EP0 (ptr_addr c p) (ptr_bytes c p) n (sys c))"

definition ep0_start_read :: "area \<times> nat \<Rightarrow> u32 \<Rightarrow> usbd_core \<Rightarrow> int \<times> usbd_core" where
  "ep0_start_read p n c =
     (if ptr_addr c p = 0 \<and> n \<noteq> 0 then (-1, c)
      else if \<not> out_enable (ep0_out c) then (-2, c)
      else if ptr_addr c p AND 3 \<noteq> 0 then (-3, c)
      else (0, c\<lparr>ep0_out := (ep0_out c)\<lparr>out_xfer_off := snd p, out_xfer_len := n, out_actual := 0,
                                       out_res := RES_ACK\<rparr>,
                 ep0_out_buf := fst p\<rparr>))"

definition usbd_ep_set_stall :: "u8 \<Rightarrow> usbd_core \<Rightarrow> usbd_core option" where
  "usbd_ep_set_stall ep c = do {
     c1 \<leftarrow> set_rx RES_STALL (USB_EP_GET_IDX ep) c;
     set_tx RES_STALL (USB_EP_GET_IDX ep) c1
   }"

text \<open>The data toggles of the endpoints 1 and 2, which this function also clears, are the hardware's.\<close>

definition usbd_ep_clear_stall :: "u8 \<Rightarrow> usbd_core \<Rightarrow> (int \<times> usbd_core) option" where
  "usbd_ep_clear_stall ep c =
     (if ep = 0x82 then map_option (Pair 0) (set_tx RES_NAK 2 c)
      else if ep = 0x02 then map_option (Pair 0) (set_rx RES_ACK 2 c)
      else if ep = 0x81 then map_option (Pair 0) (set_tx RES_NAK 1 c)
      else if ep = 0x01 then map_option (Pair 0) (set_rx RES_ACK 1 c)
      else Some (-1, c))"

text \<open>
  The answers to which \<open>usb_dc_init\<close> sets the endpoints 0 to 4, and the address register. The
  buffers of the endpoints are part of the model.
\<close>

definition usb_dc_init :: "usbd_core \<Rightarrow> usbd_core" where
  "usb_dc_init c =
     c\<lparr>sys := (sys c)\<lparr>ep_in := map (\<lambda>e. e\<lparr>in_res := RES_NAK\<rparr>) (take 5 (ep_in (sys c))) @ drop 5 (ep_in (sys c)),
                     ep_out := (ep_out (sys c))\<lparr>out_res := RES_NAK\<rparr>\<rparr>,
       ep0_out := (ep0_out c)\<lparr>out_res := RES_NAK\<rparr>,
       spare_out := map (\<lambda>e. e\<lparr>out_res := RES_NAK\<rparr>) (take 3 (spare_out c)) @ drop 3 (spare_out c),
       usb_dev_ad := 0\<rparr>"

section \<open>Registration\<close>

definition usbd_desc_register :: "u8 list \<Rightarrow> usbd_core \<Rightarrow> usbd_core" where
  "usbd_desc_register d c = c\<lparr>descriptors := d, intf_offset := 0\<rparr>"

definition usbd_add_interface :: "usbd_interface \<Rightarrow> usbd_core \<Rightarrow> usbd_core" where
  "usbd_add_interface i c =
     c\<lparr>usbd_intf_head := usbd_intf_head c @ [i\<lparr>intf_num := intf_offset c\<rparr>], intf_offset := intf_offset c + 1\<rparr>"

definition usbd_cdc_acm_init_intf :: "usbd_interface \<Rightarrow> usbd_interface" where
  "usbd_cdc_acm_init_intf i = i\<lparr>class_interface_handler := Cdc_acm\<rparr>"

definition usbd_hid_init_intf :: "usbd_interface \<Rightarrow> area \<Rightarrow> u32 \<Rightarrow> usbd_interface" where
  "usbd_hid_init_intf i desc desc_len =
     i\<lparr>class_interface_handler := Hid, hid_report_descriptor := desc, hid_report_descriptor_len := desc_len\<rparr>"

definition usbd_initialize :: "usbd_core \<Rightarrow> usbd_core" where
  "usbd_initialize c = usb_dc_init c"

text \<open>
  The whole of \<open>cdc_acm_hid_init\<close>, of which \<open>Usb\<close> has the semaphore and the buffers. The
  interfaces are static and start as zeros; the endpoint callbacks are the fixed ones of \<open>Usb\<close>.
\<close>

definition zero_intf :: usbd_interface where
  "zero_intf = \<lparr>intf_num = 0, class_interface_handler = Cdc_acm, hid_report_descriptor = Null,
     hid_report_descriptor_len = 0\<rparr>"

definition core_init :: "u8 list \<Rightarrow> u8 list \<Rightarrow> usbd_core \<Rightarrow> usbd_core" where
  "core_init cdc_tx_buffer cdc_rx_buffer c =
     (let c1 = c\<lparr>sys := cdc_acm_hid_init cdc_tx_buffer cdc_rx_buffer (sys c)\<rparr>;
          c2 = usbd_desc_register cdc_acm_hid_descriptor c1;
          c3 = usbd_add_interface (usbd_cdc_acm_init_intf zero_intf) c2;
          c4 = usbd_add_interface (usbd_cdc_acm_init_intf zero_intf) c3;
          c5 = usbd_add_interface
                 (usbd_hid_init_intf zero_intf Report_desc (ucast HID_JOYSTICK_REPORT_DESC_SIZE)) c4
      in usbd_initialize c5)"

section \<open>Configuration\<close>

definition is_device_configured :: "usbd_core \<Rightarrow> bool" where
  "is_device_configured c \<longleftrightarrow> configuration c \<noteq> 0"

text \<open>The endpoint descriptor at the offset \<open>p\<close> of the table: the address and the packet size.\<close>

definition ep_desc_at :: "u8 list \<Rightarrow> nat \<Rightarrow> (u8 \<times> u16) option" where
  "ep_desc_at d p = do {
     a \<leftarrow> arr_get d (p + 2);
     lo \<leftarrow> arr_get d (p + 4);
     hi \<leftarrow> arr_get d (p + 5);
     Some (a, u16_of lo hi)
   }"

definition usbd_set_endpoint :: "nat \<Rightarrow> usbd_core \<Rightarrow> (bool \<times> usbd_core) option" where
  "usbd_set_endpoint p c = do {
     (a, m) \<leftarrow> ep_desc_at (descriptors c) p;
     (r, c1) \<leftarrow> core_ep_open a (m AND 0x7ff) c;
     Some (r = 0, c1)
   }"

definition usbd_reset_endpoint :: "nat \<Rightarrow> usbd_core \<Rightarrow> (bool \<times> usbd_core) option" where
  "usbd_reset_endpoint p c = do {
     (a, m) \<leftarrow> ep_desc_at (descriptors c) p;
     (r, c1) \<leftarrow> usbd_ep_close a c;
     Some (r = 0, c1)
   }"

text \<open>The loop of \<open>usbd_set_configuration\<close> at the offset \<open>p\<close> of the table \<open>d\<close>.\<close>

function set_conf_loop ::
    "u8 list \<Rightarrow> u8 \<Rightarrow> u8 \<Rightarrow> nat \<Rightarrow> u8 \<Rightarrow> u8 \<Rightarrow> bool \<Rightarrow> usbd_core \<Rightarrow> (bool \<times> usbd_core) option" where
  "set_conf_loop d config_index alt_setting p cur_alt cur_config found c =
     (case arr_get d p of
        None \<Rightarrow> None
      | Some l \<Rightarrow>
          if l = 0 then Some (found, c)
          else do {
            t \<leftarrow> arr_get d (p + 1);
            (alt1, config1, found1, c1) \<leftarrow>
              (if t = USB_DESCRIPTOR_TYPE_CONFIGURATION then do {
                 v \<leftarrow> arr_get d (p + 5);
                 Some (cur_alt, v, found \<or> v = config_index, c)
               }
               else if t = USB_DESCRIPTOR_TYPE_INTERFACE then do {
                 v \<leftarrow> arr_get d (p + 3);
                 Some (v, cur_config, found, c)
               }
               else if t = USB_DESCRIPTOR_TYPE_ENDPOINT \<and> cur_config = config_index \<and> cur_alt = alt_setting
               then do {
                 (f, c1) \<leftarrow> usbd_set_endpoint p c;
                 Some (cur_alt, cur_config, f, c1)
               }
               else Some (cur_alt, cur_config, found, c));
            set_conf_loop d config_index alt_setting (p + unat l) alt1 config1 found1 c1
          })"
  by pat_completeness auto
termination
  by (relation "measure (\<lambda>(d, ci, alt, p, ca, cc, f, c). length d - p)")
    (auto simp: arr_get_def unat_gt_0 intro!: diff_less_mono2 split: if_splits)

declare set_conf_loop.simps [simp del]

definition usbd_set_configuration :: "u8 \<Rightarrow> u8 \<Rightarrow> usbd_core \<Rightarrow> (bool \<times> usbd_core) option" where
  "usbd_set_configuration config_index alt_setting c =
     set_conf_loop (descriptors c) config_index alt_setting 0 0xFF 0xFF False c"

text \<open>The loop of \<open>usbd_set_interface\<close>; the descriptor it remembers goes to the notification only.\<close>

function set_intf_loop ::
    "u8 list \<Rightarrow> u8 \<Rightarrow> u8 \<Rightarrow> nat \<Rightarrow> u8 \<Rightarrow> u8 \<Rightarrow> bool \<Rightarrow> usbd_core \<Rightarrow> (bool \<times> usbd_core) option" where
  "set_intf_loop d iface alt_setting p cur_alt cur_iface ret c =
     (case arr_get d p of
        None \<Rightarrow> None
      | Some l \<Rightarrow>
          if l = 0 then Some (ret, c)
          else do {
            t \<leftarrow> arr_get d (p + 1);
            (alt1, iface1, ret1, c1) \<leftarrow>
              (if t = USB_DESCRIPTOR_TYPE_INTERFACE then do {
                 a \<leftarrow> arr_get d (p + 3);
                 i \<leftarrow> arr_get d (p + 2);
                 Some (a, i, ret, c)
               }
               else if t = USB_DESCRIPTOR_TYPE_ENDPOINT \<and> cur_iface = iface then do {
                 (r, c1) \<leftarrow> (if cur_alt \<noteq> alt_setting then usbd_reset_endpoint p c
                            else usbd_set_endpoint p c);
                 Some (cur_alt, cur_iface, r, c1)
               }
               else Some (cur_alt, cur_iface, ret, c));
            set_intf_loop d iface alt_setting (p + unat l) alt1 iface1 ret1 c1
          })"
  by pat_completeness auto
termination
  by (relation "measure (\<lambda>(d, i, alt, p, ca, ci, r, c). length d - p)")
    (auto simp: arr_get_def unat_gt_0 intro!: diff_less_mono2 split: if_splits)

declare set_intf_loop.simps [simp del]

text \<open>The notification: the handler of the serial interfaces does nothing, the joystick has none.\<close>

datatype usbd_event_type =
  USBD_EVENT_ERROR | USBD_EVENT_RESET | USBD_EVENT_SOF | USBD_EVENT_CONNECTED | USBD_EVENT_DISCONNECTED
  | USBD_EVENT_SUSPEND | USBD_EVENT_RESUME | USBD_EVENT_CONFIGURED | USBD_EVENT_SET_INTERFACE
  | USBD_EVENT_UNKNOWN

definition cdc_notify_handler :: "usbd_event_type \<Rightarrow> usbd_core \<Rightarrow> usbd_core" where
  "cdc_notify_handler event c = (case event of USBD_EVENT_RESET \<Rightarrow> c | _ \<Rightarrow> c)"

definition usbd_class_event_notify_handler :: "usbd_event_type \<Rightarrow> usbd_core \<Rightarrow> usbd_core" where
  "usbd_class_event_notify_handler event c =
     fold (\<lambda>i c. if class_interface_handler i = Cdc_acm then cdc_notify_handler event c else c)
       (usbd_intf_head c) c"

definition usbd_set_interface :: "u8 \<Rightarrow> u8 \<Rightarrow> usbd_core \<Rightarrow> (bool \<times> usbd_core) option" where
  "usbd_set_interface iface alt_setting c = do {
     (ret, c1) \<leftarrow> set_intf_loop (descriptors c) iface alt_setting 0 0xFF 0xFF False c;
     Some (ret, usbd_class_event_notify_handler USBD_EVENT_SET_INTERFACE c1)
   }"

section \<open>Standard requests\<close>

text \<open>
  The handlers work on \<open>ep0_data_buf\<close> and \<open>ep0_data_buf_len\<close>, which their callers always
  pass as \<open>data\<close> and \<open>len\<close>; the result is whether the request was handled.
\<close>

definition usbd_std_device_req_handler :: "usb_setup_packet \<Rightarrow> usbd_core \<Rightarrow> (bool \<times> usbd_core) option" where
  "usbd_std_device_req_handler st c =
     (let value = wValue st; rq = bRequest st in
      if rq = USB_REQUEST_GET_STATUS then do {
        c1 \<leftarrow> store_data [0, 0] c;
        Some (True, c1\<lparr>ep0_data_buf_len := 2\<rparr>)
      }
      else if rq = USB_REQUEST_CLEAR_FEATURE \<or> rq = USB_REQUEST_SET_FEATURE
      then Some (True, c\<lparr>ep0_data_buf_len := 0\<rparr>)
      else if rq = USB_REQUEST_SET_ADDRESS
      then Some (True, (usbd_set_address (ucast value) c)\<lparr>ep0_data_buf_len := 0\<rparr>)
      else if rq = USB_REQUEST_GET_DESCRIPTOR then
        map_option (\<lambda>r. case r of None \<Rightarrow> (False, c)
          | Some (p, n) \<Rightarrow> (True, c\<lparr>ep0_data_buf := (Descriptors, p), ep0_data_buf_len := n\<rparr>))
          (usbd_get_descriptor (descriptors c) value)
      else if rq = USB_REQUEST_GET_CONFIGURATION
      then Some (True, c\<lparr>ep0_data_buf := (Configuration_byte, 0), ep0_data_buf_len := 1\<rparr>)
      else if rq = USB_REQUEST_SET_CONFIGURATION then do {
        let v = value AND 0xFF;
        (ok, c1) \<leftarrow> usbd_set_configuration (ucast v) 0 c;
        Some (if \<not> ok then (False, c1\<lparr>ep0_data_buf_len := 0\<rparr>)
              else let c2 = c1\<lparr>configuration := ucast v, configured := True\<rparr>;
                       c3 = usbd_class_event_notify_handler USBD_EVENT_CONFIGURED c2
                   in (True, c3\<lparr>sys := usbd_configure_done_callback (sys c3), ep0_data_buf_len := 0\<rparr>))
      }
      else Some (False, c))"

definition usbd_std_interface_req_handler :: "usb_setup_packet \<Rightarrow> usbd_core \<Rightarrow> (bool \<times> usbd_core) option" where
  "usbd_std_interface_req_handler st c =
     (let ty = HI_BYTE (wValue st); num = LO_BYTE (wIndex st); rq = bRequest st in
      if \<not> is_device_configured c then Some (False, c)
      else if rq = USB_REQUEST_GET_STATUS then do {
        c1 \<leftarrow> store_data [0, 0] c;
        Some (True, c1\<lparr>ep0_data_buf_len := 2\<rparr>)
      }
      else if rq = USB_REQUEST_GET_DESCRIPTOR then
        (if ty = 0x22 then
           (case find (\<lambda>i. intf_num i = num) (usbd_intf_head c) of
              Some i \<Rightarrow> Some (True, c\<lparr>ep0_data_buf := (hid_report_descriptor i, 0),
                                     ep0_data_buf_len := hid_report_descriptor_len i\<rparr>)
            | None \<Rightarrow> Some (False, c))
         else Some (False, c))
      else if rq = USB_REQUEST_GET_INTERFACE then do {
        c1 \<leftarrow> store_data [0] c;
        Some (True, c1\<lparr>ep0_data_buf_len := 1\<rparr>)
      }
      else if rq = USB_REQUEST_SET_INTERFACE then do {
        (r, c1) \<leftarrow> usbd_set_interface (ucast (wIndex st)) (ucast (wValue st)) c;
        Some (True, c1\<lparr>ep0_data_buf_len := 0\<rparr>)
      }
      else Some (False, c))"

definition usbd_std_endpoint_req_handler :: "usb_setup_packet \<Rightarrow> usbd_core \<Rightarrow> (bool \<times> usbd_core) option" where
  "usbd_std_endpoint_req_handler st c =
     (let ep = ucast (wIndex st); rq = bRequest st in
      if \<not> is_device_configured c then Some (False, c)
      else if rq = USB_REQUEST_GET_STATUS then do {
        c1 \<leftarrow> store_data [0, 0] c;
        Some (True, c1\<lparr>ep0_data_buf_len := 2\<rparr>)
      }
      else if rq = USB_REQUEST_CLEAR_FEATURE then
        (if wValue st = USB_FEATURE_ENDPOINT_HALT then do {
           (r, c1) \<leftarrow> usbd_ep_clear_stall ep c;
           Some (True, c1)
         } else Some (False, c\<lparr>ep0_data_buf_len := 0\<rparr>))
      else if rq = USB_REQUEST_SET_FEATURE then
        (if wValue st = USB_FEATURE_ENDPOINT_HALT then do {
           c1 \<leftarrow> usbd_ep_set_stall ep c;
           Some (True, c1\<lparr>ep0_data_buf_len := 0\<rparr>)
         } else Some (False, c\<lparr>ep0_data_buf_len := 0\<rparr>))
      else Some (False, c))"

definition usbd_standard_request_handler :: "usb_setup_packet \<Rightarrow> usbd_core \<Rightarrow> (bool \<times> usbd_core) option" where
  "usbd_standard_request_handler st c =
     (let r = bmRequestType st AND USB_REQUEST_RECIPIENT_MASK in
      if r = USB_REQUEST_RECIPIENT_DEVICE then usbd_std_device_req_handler st c
      else if r = USB_REQUEST_RECIPIENT_INTERFACE then usbd_std_interface_req_handler st c
      else if r = USB_REQUEST_RECIPIENT_ENDPOINT then usbd_std_endpoint_req_handler st c
      else Some (False, c))"

section \<open>Class requests\<close>

record cdc_line_coding =
  dwDTERate :: u32
  bCharFormat :: u8
  bParityType :: u8
  bDataBits :: u8

definition usbd_cdc_acm_get_line_coding :: cdc_line_coding where
  "usbd_cdc_acm_get_line_coding =
     \<lparr>dwDTERate = 2000000, bCharFormat = 0, bParityType = 0, bDataBits = 8\<rparr>"

text \<open>The bytes of the packed structure.\<close>

definition line_coding_bytes :: "cdc_line_coding \<Rightarrow> u8 list" where
  "line_coding_bytes l = u32_bytes (dwDTERate l) @ [bCharFormat l, bParityType l, bDataBits l]"

text \<open>
  The request SET_LINE_CODING copies \<open>wLength\<close> bytes into the seven of a local variable; the
  functions that would use the coding, and RTS, are empty. The result is the handler's return value.
\<close>

definition cdc_acm_class_interface_request_handler ::
    "usb_setup_packet \<Rightarrow> usbd_core \<Rightarrow> (int \<times> usbd_core) option" where
  "cdc_acm_class_interface_request_handler st c =
     (let num = LO_BYTE (wIndex st); rq = bRequest st in
      if rq = CDC_REQUEST_SET_LINE_CODING then do {
        line_coding \<leftarrow> copy_to (replicate 7 0) 0 (ptr_bytes c (ep0_data_buf c)) 0 (unat (wLength st));
        Some (0, c)
      }
      else if rq = CDC_REQUEST_SET_CONTROL_LINE_STATE
      then Some (0, c\<lparr>sys := usbd_cdc_acm_set_dtr num (wValue st AND 0x0001 \<noteq> 0) (sys c)\<rparr>)
      else if rq = CDC_REQUEST_GET_LINE_CODING then do {
        c1 \<leftarrow> store_data (line_coding_bytes usbd_cdc_acm_get_line_coding) c;
        Some (0, c1\<lparr>ep0_data_buf_len := 7\<rparr>)
      }
      else Some (-1, c))"

text \<open>The functions behind the joystick's requests are the empty ones of the library.\<close>

definition usbh_hid_get_report :: "u8 \<Rightarrow> u8 \<Rightarrow> u8 \<Rightarrow> u8" where
  "usbh_hid_get_report intf report_id report_type = 0"

definition usbh_hid_get_idle :: "u8 \<Rightarrow> u8 \<Rightarrow> u8" where
  "usbh_hid_get_idle intf report_id = 0"

definition usbh_hid_get_protocol :: "u8 \<Rightarrow> u8" where
  "usbh_hid_get_protocol intf = 0"

definition hid_class_interface_request_handler ::
    "usb_setup_packet \<Rightarrow> usbd_core \<Rightarrow> (int \<times> usbd_core) option" where
  "hid_class_interface_request_handler st c =
     (let num = LO_BYTE (wIndex st); lo = LO_BYTE (wValue st); hi = HI_BYTE (wValue st); rq = bRequest st in
      if rq = HID_REQUEST_GET_REPORT then do {
        c1 \<leftarrow> store_data [usbh_hid_get_report num lo hi] c;
        Some (0, c1\<lparr>ep0_data_buf_len := 1\<rparr>)
      }
      else if rq = HID_REQUEST_GET_IDLE then do {
        c1 \<leftarrow> store_data [usbh_hid_get_idle num lo] c;
        Some (0, c1\<lparr>ep0_data_buf_len := 1\<rparr>)
      }
      else if rq = HID_REQUEST_GET_PROTOCOL then do {
        c1 \<leftarrow> store_data [usbh_hid_get_protocol num] c;
        Some (0, c1\<lparr>ep0_data_buf_len := 1\<rparr>)
      }
      else if rq = HID_REQUEST_SET_REPORT \<or> rq = HID_REQUEST_SET_IDLE \<or> rq = HID_REQUEST_SET_PROTOCOL
      then Some (0, c)
      else Some (-1, c))"

text \<open>No interface has a handler for endpoint requests.\<close>

definition usbd_class_request_handler :: "usb_setup_packet \<Rightarrow> usbd_core \<Rightarrow> (int \<times> usbd_core) option" where
  "usbd_class_request_handler st c =
     (if bmRequestType st AND USB_REQUEST_RECIPIENT_MASK = USB_REQUEST_RECIPIENT_INTERFACE then
        (case find (\<lambda>i. intf_num i = LO_BYTE (wIndex st)) (usbd_intf_head c) of
           None \<Rightarrow> Some (-1, c)
         | Some i \<Rightarrow> (case class_interface_handler i of
               Cdc_acm \<Rightarrow> cdc_acm_class_interface_request_handler st c
             | Hid \<Rightarrow> hid_class_interface_request_handler st c))
      else Some (-1, c))"

text \<open>No interface has a vendor handler.\<close>

definition usbd_vendor_request_handler :: "usb_setup_packet \<Rightarrow> usbd_core \<Rightarrow> (int \<times> usbd_core) option" where
  "usbd_vendor_request_handler st c = Some (-1, c)"

definition usbd_setup_request_handler :: "usb_setup_packet \<Rightarrow> usbd_core \<Rightarrow> (bool \<times> usbd_core) option" where
  "usbd_setup_request_handler st c =
     (let ty = bmRequestType st AND USB_REQUEST_TYPE_MASK in
      if ty = USB_REQUEST_STANDARD then usbd_standard_request_handler st c
      else if ty = USB_REQUEST_CLASS
      then map_option (\<lambda>(r, c1). (\<not> r < 0, c1)) (usbd_class_request_handler st c)
      else if ty = USB_REQUEST_VENDOR
      then map_option (\<lambda>(r, c1). (\<not> r < 0, c1)) (usbd_vendor_request_handler st c)
      else Some (False, c))"

section \<open>The stages of a control transfer\<close>

text \<open>
  The end of \<open>usbd_event_ep0_setup_complete_handler\<close>: the data moves to the aligned buffer when
  it has to, the first packet is made ready, and an empty last packet is arranged.
\<close>

definition ep0_send_data :: "usb_setup_packet \<Rightarrow> usbd_core \<Rightarrow> usbd_core option" where
  "ep0_send_data st c0 = do {
     let c = c0\<lparr>ep0_data_buf_residue := min (ep0_data_buf_len c0) (ucast (wLength st))\<rparr>;
     let finish = (\<lambda>c. do {
       c2 \<leftarrow> ep0_start_write (ep0_data_buf c) (ep0_data_buf_residue c) c;
       Some (if ucast (wLength st) > ep0_data_buf_len c2 \<and> ep0_data_buf_len c2 mod of_nat USB_CTRL_EP_MPS = 0
             then c2\<lparr>zlp_flag := True\<rparr> else c2)
     });
     if ptr_addr c (ep0_data_buf c) AND 3 \<noteq> 0 then
       (if unat (ep0_data_buf_residue c) > CONFIG_USBDEV_REQUEST_BUFFER_LEN then Some c
        else do {
          d \<leftarrow> copy_to (req_data c) 0 (ptr_bytes c (ep0_data_buf c)) 0 (unat (ep0_data_buf_residue c));
          finish (c\<lparr>req_data := d, ep0_data_buf := (Req_data, 0)\<rparr>)
        })
     else finish c
   }"

definition usbd_event_ep0_setup_complete_handler :: "usb_setup_packet \<Rightarrow> usbd_core \<Rightarrow> usbd_core option" where
  "usbd_event_ep0_setup_complete_handler st c0 =
     (let c = c0\<lparr>core_setup := st\<rparr> in
      if unat (wLength st) > CONFIG_USBDEV_REQUEST_BUFFER_LEN
         \<and> bmRequestType st AND USB_REQUEST_DIR_MASK = USB_REQUEST_DIR_OUT
      then usbd_ep_set_stall USB_CONTROL_IN_EP0 c
      else do {
        let c1 = c\<lparr>ep0_data_buf := (Req_data, 0), ep0_data_buf_residue := ucast (wLength st),
                   ep0_data_buf_len := ucast (wLength st), zlp_flag := False\<rparr>;
        if wLength st \<noteq> 0 \<and> bmRequestType st AND USB_REQUEST_DIR_MASK = USB_REQUEST_DIR_OUT
        then Some (snd (ep0_start_read (ep0_data_buf c1) (ucast (wLength st)) c1))
        else do {
          (ok, c2) \<leftarrow> usbd_setup_request_handler st c1;
          if \<not> ok then usbd_ep_set_stall USB_CONTROL_IN_EP0 c2 else ep0_send_data st c2
        }
      })"

text \<open>\<open>usbd_event_ep_in_complete_handler\<close> and \<open>usbd_event_ep_out_complete_handler\<close> for endpoint 0.\<close>

definition ep0_in_complete :: "u32 \<Rightarrow> usbd_core \<Rightarrow> usbd_core option" where
  "ep0_in_complete nbytes c =
     (let st = core_setup c;
          c1 = c\<lparr>ep0_data_buf := (fst (ep0_data_buf c), snd (ep0_data_buf c) + unat nbytes),
                 ep0_data_buf_residue := ep0_data_buf_residue c - nbytes\<rparr> in
      if ep0_data_buf_residue c1 \<noteq> 0 then ep0_start_write (ep0_data_buf c1) (ep0_data_buf_residue c1) c1
      else if zlp_flag c1 then ep0_start_write (Null, 0) 0 (c1\<lparr>zlp_flag := False\<rparr>)
      else if wLength st \<noteq> 0 \<and> bmRequestType st AND USB_REQUEST_DIR_MASK = USB_REQUEST_DIR_IN
      then Some (snd (ep0_start_read (Null, 0) 0 c1))
      else Some c1)"

definition ep0_out_complete :: "u32 \<Rightarrow> usbd_core \<Rightarrow> usbd_core option" where
  "ep0_out_complete nbytes c =
     (if nbytes > 0 then
        (let c1 = c\<lparr>ep0_data_buf := (fst (ep0_data_buf c), snd (ep0_data_buf c) + unat nbytes),
                    ep0_data_buf_residue := ep0_data_buf_residue c - nbytes\<rparr> in
         if ep0_data_buf_residue c1 = 0 then do {
           (ok, c2) \<leftarrow> usbd_setup_request_handler (core_setup c1) (c1\<lparr>ep0_data_buf := (Req_data, 0)\<rparr>);
           if \<not> ok then usbd_ep_set_stall USB_CONTROL_IN_EP0 c2 else ep0_start_write (Null, 0) 0 c2
         }
         else Some (snd (ep0_start_read (ep0_data_buf c1) (ep0_data_buf_residue c1) c1)))
      else Some c)"

definition usbd_event_reset_handler :: "usbd_core \<Rightarrow> usbd_core option" where
  "usbd_event_reset_handler c0 = do {
     let c = (usbd_set_address 0 c0)\<lparr>configured := False, configuration := 0\<rparr>;
     (r1, c1) \<leftarrow> core_ep_open USB_CONTROL_IN_EP0 (of_nat USB_CTRL_EP_MPS) c;
     (r2, c2) \<leftarrow> core_ep_open USB_CONTROL_OUT_EP0 (of_nat USB_CTRL_EP_MPS) c1;
     Some (usbd_class_event_notify_handler USBD_EVENT_RESET c2)
   }"

section \<open>The interrupt\<close>

text \<open>The host has taken the packet of endpoint 0.\<close>

definition ep0_in_irq :: "usbd_core \<Rightarrow> usbd_core option" where
  "ep0_in_irq c =
     (if drop_bit 7 (bmRequestType (dc_setup c)) = 1 then do {
        c1 \<leftarrow> set_tx RES_NAK 0 (c\<lparr>t_tog := \<not> t_tog c\<rparr>);
        e \<leftarrow> arr_get (ep_in (sys c1)) 0;
        let m = of_nat (in_mps e);
        let e1 = (if in_xfer_len e > m
                  then e\<lparr>in_xfer_len := in_xfer_len e - m, in_actual := in_actual e + m\<rparr>
                  else e\<lparr>in_actual := in_actual e + in_xfer_len e, in_xfer_len := 0\<rparr>);
        ep0_in_complete (in_actual e1) (set_in 0 e1 c1)
      }
      else do {
        let c1 = (if bRequest (dc_setup c) = USB_REQUEST_SET_ADDRESS
                  then c\<lparr>usb_dev_ad := (usb_dev_ad c AND 0x80) OR dc_address c\<rparr> else c);
        c2 \<leftarrow> set_tx RES_NAK 0 c1;
        set_rx RES_ACK 0 c2
      })"

text \<open>The host has sent the bytes \<open>bs\<close> to endpoint 0.\<close>

definition ep0_out_irq :: "u8 list \<Rightarrow> usbd_core \<Rightarrow> usbd_core option" where
  "ep0_out_irq bs c0 = do {
     let c = c0\<lparr>r_tog := \<not> r_tog c0\<rparr>;
     let e = ep0_out c;
     d \<leftarrow> (if ep0_out_buf c = Req_data then copy_to (req_data c) (out_xfer_off e) bs 0 (length bs)
           else if bs = [] then Some (req_data c) else None);
     let e1 = e\<lparr>out_actual := out_actual e + of_nat (length bs),
                out_xfer_len := out_xfer_len e - of_nat (length bs)\<rparr>;
     c1 \<leftarrow> ep0_out_complete (out_actual e1) (c\<lparr>req_data := d, ep0_out := e1\<rparr>);
     if bs = [] then set_rx RES_ACK 0 c1 else Some c1
   }"

text \<open>A packet for one of the endpoints 2 to 7, whose transfer pointer is still null.\<close>

definition spare_out_irq :: "nat \<Rightarrow> u8 list \<Rightarrow> usbd_core \<Rightarrow> usbd_core option" where
  "spare_out_irq i bs c = (if bs = [] then Some c else None)"

definition ep0_setup_irq :: "usb_setup_packet \<Rightarrow> usbd_core \<Rightarrow> usbd_core option" where
  "ep0_setup_irq st c0 = do {
     c1 \<leftarrow> set_rx RES_ACK 0 (c0\<lparr>r_tog := True, t_tog := True\<rparr>);
     c2 \<leftarrow> set_tx RES_NAK 0 c1;
     let c3 = c2\<lparr>dc_setup := st\<rparr>;
     c4 \<leftarrow> (if drop_bit 7 (bmRequestType st) = 0 then do {
              e \<leftarrow> arr_get (ep_in (sys c3)) 0;
              Some (set_in 0 (e\<lparr>in_tx_len := 0, in_res := RES_ACK\<rparr>) c3)
            } else Some c3);
     c5 \<leftarrow> set_rx RES_NAK 0 c4;
     usbd_event_ep0_setup_complete_handler st c5
   }"

definition bus_reset_irq :: "usbd_core \<Rightarrow> usbd_core option" where
  "bus_reset_irq c = do {
     c1 \<leftarrow> usbd_event_reset_handler (c\<lparr>usb_dev_ad := 0\<rparr>);
     set_rx RES_ACK 0 c1
   }"

text \<open>
  \<open>USBD_IRQHandler\<close> by the event that raised it. The incoming packets of endpoint 0 share its
  buffer with the outgoing ones; one comes only when no outgoing packet waits there, or cancels it.
\<close>

datatype usb_irq = In_token nat | Out_token nat "u8 list" | Setup_token usb_setup_packet | Bus_reset | Suspend

definition USBD_IRQHandler :: "usb_irq \<Rightarrow> usbd_core \<Rightarrow> usbd_core option" where
  "USBD_IRQHandler ev c = (case ev of
       In_token i \<Rightarrow> (if i = 0 then ep0_in_irq c else map_option (\<lambda>s. c\<lparr>sys := s\<rparr>) (usb_in_irq i (sys c)))
     | Out_token i bs \<Rightarrow> (if i = 0 then ep0_out_irq bs c
         else if i = 1 then map_option (\<lambda>s. c\<lparr>sys := s\<rparr>) (usb_out_irq bs (sys c))
         else spare_out_irq i bs c)
     | Setup_token st \<Rightarrow> ep0_setup_irq st c
     | Bus_reset \<Rightarrow> bus_reset_irq c
     | Suspend \<Rightarrow> Some c)"

end
