(* ===== verification/UsbCoreProps.thy ===== *)
theory UsbCoreProps
  imports UsbCore UsbProps
begin

text \<open>
  Control transfers seen from the host: what a control read delivers, what the configuration opens,
  which requests leave the memory of the device intact and which do not.
\<close>

section \<open>The host\<close>

text \<open>
  The host takes packets from endpoint 0 as long as it has some, at most as many as the first
  argument says; each is noted with its data toggle.
\<close>

fun host_read :: "nat \<Rightarrow> usbd_core \<Rightarrow> ((bool \<times> u8 list) list \<times> usbd_core) option" where
  "host_read 0 c = Some ([], c)"
| "host_read (Suc n) c =
     (if in_ack (ep_in (sys c) ! 0) then do {
        c1 \<leftarrow> USBD_IRQHandler (In_token 0) c;
        (ps, c2) \<leftarrow> host_read n c1;
        Some ((t_tog c, packet_of (ep_in (sys c) ! 0)) # ps, c2)
      } else Some ([], c))"

definition control_read :: "nat \<Rightarrow> usb_setup_packet \<Rightarrow> usbd_core \<Rightarrow> ((bool \<times> u8 list) list \<times> usbd_core) option" where
  "control_read n st c = do { c1 \<leftarrow> USBD_IRQHandler (Setup_token st) c; host_read n c1 }"

section \<open>The invariant\<close>

definition area_ok :: "usbd_core \<Rightarrow> area \<Rightarrow> bool" where
  "area_ok c a \<longleftrightarrow> 0 < unat (area_addr c a) \<and> unat (area_addr c a) + 512 \<le> 2 ^ 32"

definition intf_table :: "usbd_interface list" where
  "intf_table =
     [\<lparr>intf_num = 0, class_interface_handler = Cdc_acm, hid_report_descriptor = Null, hid_report_descriptor_len = 0\<rparr>,
      \<lparr>intf_num = 1, class_interface_handler = Cdc_acm, hid_report_descriptor = Null, hid_report_descriptor_len = 0\<rparr>,
      \<lparr>intf_num = 2, class_interface_handler = Hid, hid_report_descriptor = Report_desc,
       hid_report_descriptor_len = 56\<rparr>]"

text \<open>Endpoint 0 is open and the tables are registered.\<close>

definition core_ok :: "usbd_core \<Rightarrow> bool" where
  "core_ok c \<longleftrightarrow> length (ep_in (sys c)) = 8 \<and> in_enable (ep_in (sys c) ! 0) \<and>
     in_mps (ep_in (sys c) ! 0) = 64 \<and> length (in_ram (ep_in (sys c) ! 0)) = 64 \<and>
     out_enable (ep0_out c) \<and> length (spare_out c) = 6 \<and> length (req_data c) = 256 \<and>
     area_addr c Req_data AND 3 = 0 \<and> (\<forall>a. area_ok c a) \<and>
     descriptors c = cdc_acm_hid_descriptor \<and> usbd_intf_head c = intf_table"

lemma core_okD:
  assumes "core_ok c"
  shows "length (ep_in (sys c)) = 8" "in_enable (ep_in (sys c) ! 0)" "in_mps (ep_in (sys c) ! 0) = 64"
    "length (in_ram (ep_in (sys c) ! 0)) = 64" "out_enable (ep0_out c)" "length (spare_out c) = 6"
    "length (req_data c) = 256" "area_addr c Req_data AND 3 = 0" "area_ok c a"
    "descriptors c = cdc_acm_hid_descriptor" "usbd_intf_head c = intf_table"
  using assms by (simp_all add: core_ok_def)

section \<open>Endpoint 0\<close>

lemma top_bit: "drop_bit 7 t = 0 \<and> t AND 0x80 = 0 \<or> drop_bit 7 t = 1 \<and> t AND 0x80 = (0x80 :: u8)"
proof -
  have m: "(0x80 :: u8) = NOT (mask 7)" by (simp add: mask_eq_exp_minus_1)
  have a: "t AND 0x80 = push_bit 7 (drop_bit 7 t)"
  proof (rule bit_word_eqI)
    fix n assume "n < LENGTH(8)"
    then have "n < 7 \<or> n = 7" by auto
    then show "bit (t AND 0x80) n = bit (push_bit 7 (drop_bit 7 t)) n"
      unfolding m by (auto simp: bit_simps)
  qed
  have "unat (drop_bit 7 t) < 2" using unsigned_less [of t, where 'a = nat]
    by (simp add: unsigned_drop_bit_eq drop_bit_eq_div unat_div)
  then have "unat (drop_bit 7 t) = 0 \<or> unat (drop_bit 7 t) = 1" by auto
  then have "drop_bit 7 t = 0 \<or> drop_bit 7 t = 1" by (simp add: word_unat_eq_iff)
  then show ?thesis unfolding a by (auto simp: push_bit_eq_mult)
qed

lemma dir_in: "drop_bit 7 t = (1 :: u8) \<longleftrightarrow> t AND 0x80 = 0x80"
  using top_bit [of t] by auto

lemma dir_out: "drop_bit 7 t = (0 :: u8) \<longleftrightarrow> t AND 0x80 = 0"
  using top_bit [of t] by auto

lemma set_in_sys [simp]:
  "sys (set_in i e c) = (sys c)\<lparr>ep_in := (ep_in (sys c))[i := e]\<rparr>"
  "ep0_out (set_in i e c) = ep0_out c" "spare_out (set_in i e c) = spare_out c"
  "req_data (set_in i e c) = req_data c" "area_addr (set_in i e c) = area_addr c"
  "descriptors (set_in i e c) = descriptors c" "usbd_intf_head (set_in i e c) = usbd_intf_head c"
  "ep0_data_buf (set_in i e c) = ep0_data_buf c" "zlp_flag (set_in i e c) = zlp_flag c"
  "ep0_data_buf_residue (set_in i e c) = ep0_data_buf_residue c" "core_setup (set_in i e c) = core_setup c"
  "dc_setup (set_in i e c) = dc_setup c" "t_tog (set_in i e c) = t_tog c"
  "configuration (set_in i e c) = configuration c" "ep0_data_buf_len (set_in i e c) = ep0_data_buf_len c"
  "configured (set_in i e c) = configured c" "usb_dev_ad (set_in i e c) = usb_dev_ad c"
  "dc_address (set_in i e c) = dc_address c" "ep0_out_buf (set_in i e c) = ep0_out_buf c"
  by (simp_all add: set_in_def)

text \<open>The endpoint with the first packet of a transfer of \<open>n\<close> bytes made ready.\<close>

definition primed :: "usb_in_ep \<Rightarrow> u8 list \<Rightarrow> u32 \<Rightarrow> usb_in_ep" where
  "primed e bs n = e\<lparr>in_xfer_buf := bs, in_xfer_len := n, in_actual := 0,
     in_ram := take (min (unat n) 64) bs @ drop (min (unat n) 64) (in_ram e),
     in_tx_len := min (unat n) 64, in_res := RES_ACK\<rparr>"

lemma primed_sel [simp]:
  "in_xfer_len (primed e bs n) = n" "in_actual (primed e bs n) = 0" "in_ack (primed e bs n)"
  "in_enable (primed e bs n) = in_enable e" "in_mps (primed e bs n) = in_mps e"
  by (simp_all add: primed_def)

lemma primed_more:
  assumes "min (unat n) 64 \<le> length bs"
  shows "packet_of (primed e bs n) = take (min (unat n) 64) bs"
    and "length (in_ram e) = 64 \<Longrightarrow> length (in_ram (primed e bs n)) = 64"
  using assms by (simp_all add: packet_of_def primed_def)

lemma ep0_write:
  assumes "core_ok c" and "ptr_addr c p AND 3 = 0" and "n \<noteq> 0 \<Longrightarrow> ptr_addr c p \<noteq> 0"
    and "min (unat n) 64 \<le> length (ptr_bytes c p)"
  shows "ep0_start_write p n c =
    Some (set_in 0 (primed (ep_in (sys c) ! 0) (ptr_bytes c p) n) c)"
proof (cases "n = 0")
  case True
  then show ?thesis using core_okD [OF assms(1)] assms(2)
    by (simp add: ep0_start_write_def usbd_ep_start_write_def USB_CONTROL_IN_EP0_def USB_EP_GET_IDX_def
        arr_get_def primed_def set_in_def)
next
  case False
  then show ?thesis using core_okD [OF assms(1)] assms(2-4)
    by (simp add: ep0_start_write_def usbd_ep_start_write_def USB_CONTROL_IN_EP0_def USB_EP_GET_IDX_def
        arr_get_def primed_def set_in_def Let_def)
qed

lemma ep0_read:
  assumes "core_ok c" and "ptr_addr c p AND 3 = 0" and "n \<noteq> 0 \<Longrightarrow> ptr_addr c p \<noteq> 0"
  shows "ep0_start_read p n c =
    (0, c\<lparr>ep0_out := (ep0_out c)\<lparr>out_xfer_off := snd p, out_xfer_len := n, out_actual := 0, out_res := RES_ACK\<rparr>,
          ep0_out_buf := fst p\<rparr>)"
  using core_okD(5) [OF assms(1)] assms(2,3) by (auto simp: ep0_start_read_def)

lemma null_ptr [simp]: "ptr_addr c (Null, 0) = 0" "ptr_bytes c (Null, i) = []"
  by (simp_all add: ptr_addr_def ptr_bytes_def area_bytes_def)

section \<open>Control reads\<close>

text \<open>The packets of a data stage: full ones, the rest, and an empty one when it is asked for.\<close>

fun packets_of :: "bool \<Rightarrow> u8 list \<Rightarrow> u8 list list" where
  "packets_of zlp d = (if length d > 64 then take 64 d # packets_of zlp (drop 64 d)
     else d # (if zlp then [[]] else []))"

declare packets_of.simps [simp del]

text \<open>Endpoint 0 is sending the bytes \<open>d\<close>, which are the next ones at the data pointer.\<close>

definition sending :: "u8 list \<Rightarrow> usbd_core \<Rightarrow> bool" where
  "sending d c \<longleftrightarrow> core_ok c \<and> in_ack (ep_in (sys c) ! 0) \<and> length d < 2 ^ 32 \<and>
     (if d = [] then True else ptr_addr c (ep0_data_buf c) AND 3 = 0 \<and>
        unat (ptr_addr c (ep0_data_buf c)) + length d < 2 ^ 32 \<and> 0 < unat (ptr_addr c (ep0_data_buf c))) \<and>
     take (length d) (ptr_bytes c (ep0_data_buf c)) = d \<and> ep0_data_buf_residue c = of_nat (length d) \<and>
     in_xfer_len (ep_in (sys c) ! 0) = of_nat (length d) \<and> in_actual (ep_in (sys c) ! 0) = 0 \<and>
     packet_of (ep_in (sys c) ! 0) = take 64 d \<and> drop_bit 7 (bmRequestType (dc_setup c)) = 1 \<and>
     core_setup c = dc_setup c"

text \<open>What a data stage leaves alone.\<close>

definition same_dev :: "usbd_core \<Rightarrow> usbd_core \<Rightarrow> bool" where
  "same_dev c c' \<longleftrightarrow> (\<exists>e. sys c' = (sys c)\<lparr>ep_in := (ep_in (sys c))[0 := e]\<rparr>) \<and>
     configuration c' = configuration c \<and> configured c' = configured c \<and> dc_setup c' = dc_setup c \<and>
     core_setup c' = core_setup c \<and> usb_dev_ad c' = usb_dev_ad c \<and> dc_address c' = dc_address c \<and>
     spare_out c' = spare_out c"

lemma same_dev_refl [simp]: "length (ep_in (sys c)) = 8 \<Longrightarrow> same_dev c c"
  by (auto simp: same_dev_def intro!: exI [of _ "ep_in (sys c) ! 0"])

lemma same_dev_trans: "same_dev a b \<Longrightarrow> same_dev b c \<Longrightarrow> same_dev a c"
  by (auto simp: same_dev_def)

text \<open>The interrupt after a packet, up to the call of the core.\<close>

lemma in_irq_eq:
  assumes "core_ok c" and "drop_bit 7 (bmRequestType (dc_setup c)) = 1"
    and "in_xfer_len (ep_in (sys c) ! 0) = of_nat k" and "k < 2 ^ 32" and "in_actual (ep_in (sys c) ! 0) = 0"
  shows "ep0_in_irq c = (let n = min k 64 in
    ep0_in_complete (of_nat n) (set_in 0 ((ep_in (sys c) ! 0)\<lparr>in_res := RES_NAK, in_xfer_len := of_nat (k - n),
      in_actual := of_nat n\<rparr>) (c\<lparr>t_tog := \<not> t_tog c\<rparr>)))"
proof -
  have k: "(of_nat k :: u32) > 64 \<longleftrightarrow> k > 64" using assms(4)
    by (simp add: word_less_nat_alt unat_of_nat)
  have d: "64 < k \<Longrightarrow> (of_nat k - 64 :: u32) = of_nat (k - 64)" by (simp add: of_nat_diff)
  have ne: "ep_in (sys c) \<noteq> []" using core_okD(1) [OF assms(1)] by auto
  have sw: "e\<lparr>in_actual := a, in_xfer_len := b\<rparr> = e\<lparr>in_xfer_len := b, in_actual := a\<rparr>"
    for e :: usb_in_ep and a b
    by (cases e) simp
  show ?thesis using core_okD(1,3) [OF assms(1)] assms(2,3,5) k d ne
    by (cases "k > 64") (simp_all add: ep0_in_irq_def set_tx_def arr_get_def set_in_def min_def sw)
qed

lemma core_ok_upd [simp]:
  "core_ok (c\<lparr>t_tog := b\<rparr>) = core_ok c" "core_ok (c\<lparr>r_tog := b\<rparr>) = core_ok c"
  "core_ok (c\<lparr>ep0_data_buf := p\<rparr>) = core_ok c" "core_ok (c\<lparr>ep0_data_buf_residue := n\<rparr>) = core_ok c"
  "core_ok (c\<lparr>ep0_data_buf_len := n\<rparr>) = core_ok c" "core_ok (c\<lparr>zlp_flag := b\<rparr>) = core_ok c"
  "core_ok (c\<lparr>core_setup := st\<rparr>) = core_ok c" "core_ok (c\<lparr>dc_setup := st\<rparr>) = core_ok c"
  "core_ok (c\<lparr>ep0_out_buf := a\<rparr>) = core_ok c" "core_ok (c\<lparr>usb_dev_ad := x\<rparr>) = core_ok c"
  "core_ok (c\<lparr>dc_address := x\<rparr>) = core_ok c" "core_ok (c\<lparr>configured := b\<rparr>) = core_ok c"
  "core_ok (c\<lparr>configuration := x\<rparr>) = core_ok c"
  by (simp_all add: core_ok_def area_ok_def)

lemma core_ok_out: "core_ok c \<Longrightarrow> out_enable e \<Longrightarrow> core_ok (c\<lparr>ep0_out := e\<rparr>)"
  by (simp add: core_ok_def area_ok_def)

lemma core_ok_req: "core_ok c \<Longrightarrow> length d = 256 \<Longrightarrow> core_ok (c\<lparr>req_data := d\<rparr>)"
  by (simp add: core_ok_def area_ok_def)

lemma core_ok_in:
  "core_ok c \<Longrightarrow> in_enable e \<Longrightarrow> in_mps e = 64 \<Longrightarrow> length (in_ram e) = 64 \<Longrightarrow> core_ok (set_in 0 e c)"
  by (simp add: core_ok_def area_ok_def set_in_def)

lemma ptr_upd [simp]:
  "ptr_addr (c\<lparr>t_tog := b\<rparr>) p = ptr_addr c p" "ptr_bytes (c\<lparr>t_tog := b\<rparr>) p = ptr_bytes c p"
  "ptr_addr (c\<lparr>ep0_data_buf := q\<rparr>) p = ptr_addr c p" "ptr_bytes (c\<lparr>ep0_data_buf := q\<rparr>) p = ptr_bytes c p"
  "ptr_addr (c\<lparr>ep0_data_buf_residue := n\<rparr>) p = ptr_addr c p"
  "ptr_bytes (c\<lparr>ep0_data_buf_residue := n\<rparr>) p = ptr_bytes c p"
  "ptr_addr (set_in i e c) p = ptr_addr c p" "ptr_bytes (set_in i e c) p = ptr_bytes c p"
  "ptr_addr (c\<lparr>zlp_flag := b\<rparr>) p = ptr_addr c p" "ptr_bytes (c\<lparr>zlp_flag := b\<rparr>) p = ptr_bytes c p"
  by (simp_all add: ptr_addr_def ptr_bytes_def area_bytes_def set_in_def split: area.splits)

lemma ptr_next:
  "ptr_addr c (fst p, snd p + n) = ptr_addr c p + of_nat n"
  "ptr_bytes c (fst p, snd p + n) = drop n (ptr_bytes c p)"
  by (simp_all add: ptr_addr_def ptr_bytes_def add.commute)

text \<open>The state in which the device waits for the host's empty status packet.\<close>

definition status_stage :: "usbd_core \<Rightarrow> bool" where
  "status_stage c \<longleftrightarrow> core_ok c \<and> in_res (ep_in (sys c) ! 0) = RES_NAK \<and> out_ack (ep0_out c) \<and>
     ep0_out_buf c = Null \<and> out_actual (ep0_out c) = 0"

lemma sendingD:
  assumes "sending d c"
  shows "core_ok c" "in_ack (ep_in (sys c) ! 0)" "length d < 2 ^ 32"
    "take (length d) (ptr_bytes c (ep0_data_buf c)) = d" "ep0_data_buf_residue c = of_nat (length d)"
    "in_xfer_len (ep_in (sys c) ! 0) = of_nat (length d)" "in_actual (ep_in (sys c) ! 0) = 0"
    "packet_of (ep_in (sys c) ! 0) = take 64 d" "drop_bit 7 (bmRequestType (dc_setup c)) = 1"
    "core_setup c = dc_setup c"
  using assms by (simp_all add: sending_def)

text \<open>After the packet: the state the core's handler works in.\<close>

definition taken_state :: "nat \<Rightarrow> usbd_core \<Rightarrow> usbd_core" where
  "taken_state k c = (let n = min k 64 in
     (set_in 0 ((ep_in (sys c) ! 0)\<lparr>in_res := RES_NAK, in_xfer_len := of_nat (k - n), in_actual := of_nat n\<rparr>)
       (c\<lparr>t_tog := \<not> t_tog c\<rparr>))\<lparr>ep0_data_buf := (fst (ep0_data_buf c), snd (ep0_data_buf c) + n),
         ep0_data_buf_residue := of_nat (k - n)\<rparr>)"

lemma sending_irq:
  assumes "sending d c"
  shows "ep0_in_irq c = (let c1 = taken_state (length d) c in
    if length d > 64 then ep0_start_write (ep0_data_buf c1) (ep0_data_buf_residue c1) c1
    else if zlp_flag c then ep0_start_write (Null, 0) 0 (c1\<lparr>zlp_flag := False\<rparr>)
    else if wLength (core_setup c) \<noteq> 0 then Some (snd (ep0_start_read (Null, 0) 0 c1)) else Some c1)"
proof -
  note s = sendingD [OF assms]
  let ?k = "length d" and ?n = "min (length d) 64"
  have r: "(of_nat ?k - of_nat ?n :: u32) = of_nat (?k - ?n)" by (simp add: of_nat_diff)
  have z: "(of_nat (?k - ?n) :: u32) = 0 \<longleftrightarrow> \<not> ?k > 64"
  proof -
    have "unat (of_nat m :: u32) = m" if "m < 2 ^ 32" for m using that by (simp add: unat_of_nat)
    then have "unat (of_nat (?k - ?n) :: u32) = ?k - ?n" using s(3) by (meson diff_le_self le_less_trans)
    then have "(of_nat (?k - ?n) :: u32) = 0 \<longleftrightarrow> ?k - ?n = 0" by (metis unat_eq_zero)
    then show ?thesis by linarith
  qed
  have u: "unat (of_nat ?n :: u32) = ?n" by (simp add: unat_of_nat)
  have t: "bmRequestType (dc_setup c) AND 0x80 = 0x80" using s(9) by (simp add: dir_in)
  let ?x = "set_in 0 ((ep_in (sys c) ! 0)\<lparr>in_res := RES_NAK, in_xfer_len := of_nat (?k - ?n),
      in_actual := of_nat ?n\<rparr>) (c\<lparr>t_tog := \<not> t_tog c\<rparr>)"
  have x: "ep0_data_buf ?x = ep0_data_buf c" "ep0_data_buf_residue ?x = of_nat ?k" "core_setup ?x = core_setup c"
    "zlp_flag ?x = zlp_flag c"
    using s(5) by simp_all
  have c1: "?x\<lparr>ep0_data_buf := (fst (ep0_data_buf ?x), snd (ep0_data_buf ?x) + unat (of_nat ?n :: u32)),
      ep0_data_buf_residue := ep0_data_buf_residue ?x - of_nat ?n\<rparr> = taken_state ?k c"
    unfolding x u r taken_state_def Let_def by (rule refl)
  have f: "ep0_data_buf_residue (taken_state ?k c) = of_nat (?k - ?n)" "zlp_flag (taken_state ?k c) = zlp_flag c"
    unfolding taken_state_def Let_def by simp_all
  show ?thesis
    unfolding in_irq_eq [OF s(1,9,6,3,7)] Let_def ep0_in_complete_def c1 f(2) unfolding f(1) z x(3)
    using s(10) t by (auto simp: request_defs)
qed

lemma taken_state_sel:
  assumes "core_ok c"
  shows "core_ok (taken_state k c)" "ptr_addr (taken_state k c) p = ptr_addr c p"
    "ptr_bytes (taken_state k c) p = ptr_bytes c p"
    "ep0_data_buf (taken_state k c) = (fst (ep0_data_buf c), snd (ep0_data_buf c) + min k 64)"
    "ep0_data_buf_residue (taken_state k c) = of_nat (k - min k 64)"
    "zlp_flag (taken_state k c) = zlp_flag c" "core_setup (taken_state k c) = core_setup c"
    "dc_setup (taken_state k c) = dc_setup c" "t_tog (taken_state k c) = (\<not> t_tog c)"
    "in_res (ep_in (sys (taken_state k c)) ! 0) = RES_NAK" "same_dev c (taken_state k c)"
  using core_okD [OF assms] assms
  by (simp_all add: taken_state_def Let_def core_ok_in same_dev_def) (auto simp: set_in_def)

lemma write_started:
  assumes "core_ok c" and "ptr_addr c p AND 3 = 0" and "n \<noteq> 0 \<Longrightarrow> ptr_addr c p \<noteq> 0"
    and "min (unat n) 64 \<le> length (ptr_bytes c p)"
  obtains c' where "ep0_start_write p n c = Some c'" "core_ok c'" "in_ack (ep_in (sys c') ! 0)"
    "in_xfer_len (ep_in (sys c') ! 0) = n" "in_actual (ep_in (sys c') ! 0) = 0"
    "packet_of (ep_in (sys c') ! 0) = take (min (unat n) 64) (ptr_bytes c p)"
    "same_dev c c'" "ep0_data_buf c' = ep0_data_buf c" "ep0_data_buf_residue c' = ep0_data_buf_residue c"
    "zlp_flag c' = zlp_flag c" "t_tog c' = t_tog c" "\<And>q. ptr_addr c' q = ptr_addr c q"
    "\<And>q. ptr_bytes c' q = ptr_bytes c q" "ep0_data_buf_len c' = ep0_data_buf_len c"
proof (rule that [OF ep0_write [OF assms]])
  let ?e = "primed (ep_in (sys c) ! 0) (ptr_bytes c p) n"
  note k = core_okD [OF assms(1)] primed_more [OF assms(4), of "ep_in (sys c) ! 0"]
  show "core_ok (set_in 0 ?e c)" using k by (intro core_ok_in assms(1)) simp_all
  show "same_dev c (set_in 0 ?e c)" by (auto simp: same_dev_def set_in_def)
qed (use core_okD [OF assms(1)] primed_more [OF assms(4), of "ep_in (sys c) ! 0"] in simp_all)

text \<open>The three ways on: the next full packet, the empty last packet, the status stage.\<close>

lemma aligned_iff: "(a :: u32) AND 3 = 0 \<longleftrightarrow> unat a mod 4 = 0"
proof -
  have m: "(3 :: u32) = mask 2" by (simp add: mask_eq_exp_minus_1)
  have "unat (a AND 3) = unat a mod 4"
    unfolding m by (simp add: unsigned_take_bit_eq take_bit_eq_mod unat_mod flip: take_bit_eq_mask)
  then show ?thesis by (metis unat_eq_zero)
qed

lemma and3_64:
  assumes "(a :: u32) AND 3 = 0"
  shows "(a + 64) AND 3 = 0"
proof -
  have e: "unat (a + 64) = (unat a + 64) mod 2 ^ 32" by (simp add: unat_word_ariths)
  have "(unat a + 64) mod 2 ^ 32 mod 4 = (unat a + 64) mod (4 :: nat)" by (rule mod_mod_cancel) simp
  also have "\<dots> = (unat a mod 4 + 64 mod 4) mod 4" by (rule mod_add_eq [symmetric])
  also have "\<dots> = 0" using assms by (simp add: aligned_iff)
  finally show ?thesis by (simp only: aligned_iff e)
qed

lemma sending_more:
  assumes s: "sending d c" and "length d > 64"
  obtains c' where "ep0_in_irq c = Some c'" "sending (drop 64 d) c'" "same_dev c c'"
    "zlp_flag c' = zlp_flag c" "t_tog c' = (\<not> t_tog c)"
proof -
  note k = sendingD [OF s]
  let ?c1 = "taken_state (length d) c"
  note t = taken_state_sel [OF k(1), of "length d"]
  let ?p = "ep0_data_buf ?c1" and ?n = "of_nat (length d - 64) :: u32"
  have p0: "ptr_addr c (ep0_data_buf c) AND 3 = 0" "0 < unat (ptr_addr c (ep0_data_buf c))"
    "unat (ptr_addr c (ep0_data_buf c)) + length d < 2 ^ 32"
    using s assms(2) by (auto simp: sending_def split: if_splits)
  have p: "?p = (fst (ep0_data_buf c), snd (ep0_data_buf c) + 64)" using assms(2) by (simp add: t)
  have a: "ptr_addr ?c1 ?p = ptr_addr c (ep0_data_buf c) + 64"
    unfolding t(2) p ptr_next by simp
  have ua: "unat (ptr_addr ?c1 ?p) = unat (ptr_addr c (ep0_data_buf c)) + 64"
    unfolding a using p0(3) assms(2) by (simp add: unat_word_ariths)
  have b: "ptr_bytes ?c1 ?p = drop 64 (ptr_bytes c (ep0_data_buf c))"
    unfolding t(3) p ptr_next by simp
  have n: "unat ?n = length d - 64" using k(3) assms(2) by (simp add: unat_of_nat del: of_nat_diff)
  have d: "take (length d - 64) (drop 64 (ptr_bytes c (ep0_data_buf c))) = drop 64 d"
    using arg_cong [OF k(4), of "drop 64"] by (simp add: drop_take)
  have l: "length d - 64 \<le> length (drop 64 (ptr_bytes c (ep0_data_buf c)))"
    using arg_cong [OF d, of length] by simp
  obtain c' where c': "ep0_start_write ?p ?n ?c1 = Some c'" "core_ok c'" "in_ack (ep_in (sys c') ! 0)"
    "in_xfer_len (ep_in (sys c') ! 0) = ?n" "in_actual (ep_in (sys c') ! 0) = 0"
    "packet_of (ep_in (sys c') ! 0) = take (min (unat ?n) 64) (ptr_bytes ?c1 ?p)"
    "same_dev ?c1 c'" "ep0_data_buf c' = ?p" "ep0_data_buf_residue c' = ep0_data_buf_residue ?c1"
    "zlp_flag c' = zlp_flag ?c1" "t_tog c' = t_tog ?c1" "\<And>q. ptr_addr c' q = ptr_addr ?c1 q"
    "\<And>q. ptr_bytes c' q = ptr_bytes ?c1 q"
  proof (rule write_started [OF t(1), of ?p ?n])
    show "ptr_addr ?c1 ?p AND 3 = 0" unfolding a by (rule and3_64 [OF p0(1)])
    show "ptr_addr ?c1 ?p \<noteq> 0" using ua by auto
    show "min (unat ?n) 64 \<le> length (ptr_bytes ?c1 ?p)" unfolding n b using l by simp
  qed (rule that)
  show thesis
  proof (rule that)
    show "ep0_in_irq c = Some c'"
      unfolding sending_irq [OF s] Let_def using assms(2) c'(1) by (simp add: t)
    have pk: "take (min (length d - 64) 64) (drop 64 (ptr_bytes c (ep0_data_buf c))) = take 64 (drop 64 d)"
      unfolding d [symmetric] take_take by (simp add: min.commute)
    have dc: "dc_setup c' = dc_setup c" "core_setup c' = core_setup c" using c'(7) t by (auto simp: same_dev_def)
    show "sending (drop 64 d) c'"
      unfolding sending_def c'(8-10,12,13) b
      using c' a p0 and3_64 [OF p0(1)] ua n k d pk assms(2) b dc t
      by (simp add: t(5) del: of_nat_diff)
    show "same_dev c c'" by (rule same_dev_trans [OF t(11) c'(7)])
    show "zlp_flag c' = zlp_flag c" "t_tog c' = (\<not> t_tog c)" using c' t by simp_all
  qed
qed

lemma sending_zlp:
  assumes s: "sending d c" and "length d \<le> 64" and "zlp_flag c"
  obtains c' where "ep0_in_irq c = Some c'" "sending [] c'" "same_dev c c'" "\<not> zlp_flag c'"
    "t_tog c' = (\<not> t_tog c)"
proof -
  note k = sendingD [OF s]
  let ?c1 = "(taken_state (length d) c)\<lparr>zlp_flag := False\<rparr>"
  note t = taken_state_sel [OF k(1), of "length d"]
  have r: "ep0_data_buf_residue ?c1 = 0" using assms(2) by (simp add: t(5))
  have ok: "core_ok ?c1" using t(1) by simp
  have sd: "same_dev c ?c1" using t(11) by (auto simp: same_dev_def)
  obtain c' where c': "ep0_start_write (Null, 0) 0 ?c1 = Some c'" "core_ok c'" "in_ack (ep_in (sys c') ! 0)"
    "in_xfer_len (ep_in (sys c') ! 0) = 0" "in_actual (ep_in (sys c') ! 0) = 0"
    "packet_of (ep_in (sys c') ! 0) = take (min (unat (0 :: u32)) 64) (ptr_bytes ?c1 (Null, 0))"
    "same_dev ?c1 c'" "ep0_data_buf_residue c' = ep0_data_buf_residue ?c1"
    "zlp_flag c' = zlp_flag ?c1" "t_tog c' = t_tog ?c1"
  proof (rule write_started [OF ok, of "(Null, 0)" 0])
    show "ptr_addr ?c1 (Null, 0) AND 3 = 0" "min (unat (0 :: u32)) 64 \<le> length (ptr_bytes ?c1 (Null, 0))"
      by simp_all
    show "ptr_addr ?c1 (Null, 0) \<noteq> 0" if "(0 :: u32) \<noteq> 0" using that by simp
  qed (rule that)
  have dc: "dc_setup c' = dc_setup c" "core_setup c' = core_setup c"
    using same_dev_trans [OF sd c'(7)] by (auto simp: same_dev_def)
  show thesis
  proof (rule that)
    show "ep0_in_irq c = Some c'" unfolding sending_irq [OF s] Let_def using assms c'(1) by simp
    show "sending [] c'" using c'(2-6,8) r dc k by (simp add: sending_def)
    show "same_dev c c'" by (rule same_dev_trans [OF sd c'(7)])
    show "\<not> zlp_flag c'" "t_tog c' = (\<not> t_tog c)" using c' t by simp_all
  qed
qed

lemma sending_last:
  assumes s: "sending d c" and "length d \<le> 64" and "\<not> zlp_flag c" and "wLength (dc_setup c) \<noteq> 0"
  obtains c' where "ep0_in_irq c = Some c'" "status_stage c'" "same_dev c c'"
proof -
  note k = sendingD [OF s]
  let ?c1 = "taken_state (length d) c"
  note t = taken_state_sel [OF k(1), of "length d"]
  have rd: "ep0_start_read (Null, 0) 0 ?c1 = (0, ?c1\<lparr>ep0_out := (ep0_out ?c1)\<lparr>out_xfer_off := 0,
      out_xfer_len := 0, out_actual := 0, out_res := RES_ACK\<rparr>, ep0_out_buf := Null\<rparr>)"
    using ep0_read [OF t(1), of "(Null, 0)" 0] by simp
  show thesis
  proof (rule that)
    show "ep0_in_irq c = Some (snd (ep0_start_read (Null, 0) 0 ?c1))"
      unfolding sending_irq [OF s] Let_def using assms k(10) by simp
    show "status_stage (snd (ep0_start_read (Null, 0) 0 ?c1))"
      unfolding rd status_stage_def using t(1,10) core_okD(5) [OF t(1)] by (simp add: core_ok_out)
    show "same_dev c (snd (ep0_start_read (Null, 0) 0 ?c1))"
      unfolding rd using t(11) by (auto simp: same_dev_def)
  qed
qed

text \<open>The toggles of a data stage alternate.\<close>

fun toggled :: "bool \<Rightarrow> u8 list list \<Rightarrow> (bool \<times> u8 list) list" where
  "toggled b [] = []"
| "toggled b (p # ps) = (b, p) # toggled (\<not> b) ps"

lemma host_read_sending:
  assumes "sending d c" and "wLength (dc_setup c) \<noteq> 0" and "length (packets_of (zlp_flag c) d) < n"
  shows "\<exists>c'. host_read n c = Some (toggled (t_tog c) (packets_of (zlp_flag c) d), c') \<and> status_stage c' \<and>
    same_dev c c'"
  using assms
proof (induction n arbitrary: d c)
  case (Suc n)
  note k = sendingD [OF Suc.prems(1)]
  have irq: "USBD_IRQHandler (In_token 0) c = ep0_in_irq c" by (simp add: USBD_IRQHandler_def)
  consider "length d > 64" | "length d \<le> 64" "zlp_flag c" | "length d \<le> 64" "\<not> zlp_flag c" by linarith
  then show ?case
  proof cases
    case 1
    obtain c1 where c1: "ep0_in_irq c = Some c1" "sending (drop 64 d) c1" "same_dev c c1"
      "zlp_flag c1 = zlp_flag c" "t_tog c1 = (\<not> t_tog c)"
      using sending_more [OF Suc.prems(1) 1] by blast
    have p: "packets_of (zlp_flag c) d = take 64 d # packets_of (zlp_flag c) (drop 64 d)"
      using 1 by (simp add: packets_of.simps [of _ d])
    have w: "wLength (dc_setup c1) \<noteq> 0" using c1(3) Suc.prems(2) by (simp add: same_dev_def)
    obtain c' where "host_read n c1 = Some (toggled (t_tog c1) (packets_of (zlp_flag c1) (drop 64 d)), c')"
      "status_stage c'" "same_dev c1 c'"
      using Suc.IH [OF c1(2) w] Suc.prems(3) p c1(4) by auto
    then show ?thesis using k(2,8) irq c1 p by (auto intro: same_dev_trans)
  next
    case 2
    obtain c1 where c1: "ep0_in_irq c = Some c1" "sending [] c1" "same_dev c c1" "\<not> zlp_flag c1"
      "t_tog c1 = (\<not> t_tog c)"
      using sending_zlp [OF Suc.prems(1) 2] by blast
    have p: "packets_of (zlp_flag c) d = [d, []]" "packets_of False [] = [[]]"
      using 2 by (simp_all add: packets_of.simps)
    have w: "wLength (dc_setup c1) \<noteq> 0" using c1(3) Suc.prems(2) by (simp add: same_dev_def)
    obtain c' where "host_read n c1 = Some (toggled (t_tog c1) [[]], c')" "status_stage c'" "same_dev c1 c'"
      using Suc.IH [OF c1(2) w] Suc.prems(3) p c1(4) by auto
    then show ?thesis using k(2,8) irq c1 p 2 by (auto intro: same_dev_trans)
  next
    case 3
    obtain c1 where c1: "ep0_in_irq c = Some c1" "status_stage c1" "same_dev c c1"
      using sending_last [OF Suc.prems(1) 3 Suc.prems(2)] by blast
    have p: "packets_of (zlp_flag c) d = [d]" using 3 by (simp add: packets_of.simps)
    have "n = Suc (n - 1)" using Suc.prems(3) p by simp
    moreover have "\<not> in_ack (ep_in (sys c1) ! 0)" using c1(2) by (simp add: status_stage_def)
    ultimately have "host_read n c1 = Some ([], c1)" by (metis host_read.simps(2))
    then show ?thesis using k(2,8) irq c1 p 3 by auto
  qed
qed simp

section \<open>The start of a transfer\<close>

text \<open>What the setup interrupt changes before a handler runs: endpoint 0 and the record of the request.\<close>

definition same_rest :: "usbd_core \<Rightarrow> usbd_core \<Rightarrow> bool" where
  "same_rest c c' \<longleftrightarrow> (\<exists>e. sys c' = (sys c)\<lparr>ep_in := (ep_in (sys c))[0 := e]\<rparr>) \<and>
     configuration c' = configuration c \<and> configured c' = configured c \<and>
     usb_dev_ad c' = usb_dev_ad c \<and> dc_address c' = dc_address c \<and> spare_out c' = spare_out c"

lemma same_dev_rest: "same_dev c c' \<Longrightarrow> same_rest c c'"
  by (simp add: same_dev_def same_rest_def)

lemma same_rest_trans: "same_rest a b \<Longrightarrow> same_rest b c \<Longrightarrow> same_rest a c"
  by (auto simp: same_rest_def)

definition ready_for :: "usb_setup_packet \<Rightarrow> usbd_core \<Rightarrow> bool" where
  "ready_for st c \<longleftrightarrow> core_ok c \<and> dc_setup c = st \<and> core_setup c = st \<and> ep0_data_buf c = (Req_data, 0) \<and>
     ep0_data_buf_len c = ucast (wLength st) \<and> \<not> zlp_flag c \<and> t_tog c \<and>
     in_res (ep_in (sys c) ! 0) = (if bmRequestType st AND 0x80 = 0x80 then RES_NAK else RES_ACK) \<and>
     (bmRequestType st AND 0x80 = 0x80 \<or> in_tx_len (ep_in (sys c) ! 0) = 0) \<and> out_res (ep0_out c) = RES_NAK"

definition respond :: "usb_setup_packet \<Rightarrow> usbd_core \<Rightarrow> usbd_core option" where
  "respond st c = do {
     (ok, c2) \<leftarrow> usbd_setup_request_handler st c;
     if \<not> ok then usbd_ep_set_stall USB_CONTROL_IN_EP0 c2 else ep0_send_data st c2
   }"

lemma set_rx_0: "set_rx r 0 c = Some (c\<lparr>ep0_out := (ep0_out c)\<lparr>out_res := r\<rparr>\<rparr>)"
  by (simp add: set_rx_def get_out_def set_out_def)

lemma set_tx_0:
  "length (ep_in (sys c)) = 8 \<Longrightarrow> set_tx r 0 c = Some (set_in 0 ((ep_in (sys c) ! 0)\<lparr>in_res := r\<rparr>) c)"
  by (simp add: set_tx_def arr_get_def)

lemma setup_token:
  assumes "core_ok c"
  obtains c1 where "ep0_setup_irq st c = usbd_event_ep0_setup_complete_handler st c1" "core_ok c1"
    "same_rest c c1" "dc_setup c1 = st" "t_tog c1" "out_res (ep0_out c1) = RES_NAK"
    "in_res (ep_in (sys c1) ! 0) = (if bmRequestType st AND 0x80 = 0x80 then RES_NAK else RES_ACK)"
    "bmRequestType st AND 0x80 = 0x80 \<or> in_tx_len (ep_in (sys c1) ! 0) = 0"
proof -
  note k = core_okD [OF assms(1)]
  let ?out = "bmRequestType st AND 0x80 = 0"
  let ?c1 = "c\<lparr>r_tog := True, t_tog := True, ep0_out := (ep0_out c)\<lparr>out_res := RES_ACK\<rparr>\<rparr>"
  let ?c2 = "set_in 0 ((ep_in (sys c) ! 0)\<lparr>in_res := RES_NAK\<rparr>) ?c1"
  let ?c3 = "?c2\<lparr>dc_setup := st\<rparr>"
  let ?c4 = "if ?out then set_in 0 ((ep_in (sys ?c3) ! 0)\<lparr>in_tx_len := 0, in_res := RES_ACK\<rparr>) ?c3 else ?c3"
  let ?c5 = "?c4\<lparr>ep0_out := (ep0_out ?c4)\<lparr>out_res := RES_NAK\<rparr>\<rparr>"
  have top: "bmRequestType st AND 0x80 = 0x80 \<longleftrightarrow> \<not> ?out" using top_bit [of "bmRequestType st"] by auto
  have get: "arr_get (ep_in (sys ?c3)) 0 = Some (ep_in (sys ?c3) ! 0)"
    using k(1) by (simp add: arr_get_def)
  show thesis
  proof (rule that)
    show "ep0_setup_irq st c = usbd_event_ep0_setup_complete_handler st ?c5"
      using k(1) get by (cases ?out) (simp_all add: ep0_setup_irq_def set_rx_0 set_tx_0 dir_out Let_def)
    show "core_ok ?c5" using assms(1) k by (cases ?out) (simp_all add: core_ok_def area_ok_def)
    show "same_rest c ?c5" by (cases ?out) (auto simp: same_rest_def)
    show "dc_setup ?c5 = st" "t_tog ?c5" "out_res (ep0_out ?c5) = RES_NAK" by (cases ?out; simp)+
    show "in_res (ep_in (sys ?c5) ! 0) = (if bmRequestType st AND 0x80 = 0x80 then RES_NAK else RES_ACK)"
      "bmRequestType st AND 0x80 = 0x80 \<or> in_tx_len (ep_in (sys ?c5) ! 0) = 0"
      unfolding top using k(1) by (cases ?out; simp)+
  qed
qed

lemma setup_irq:
  assumes "core_ok c" and "wLength st = 0 \<or> bmRequestType st AND 0x80 = 0x80"
  obtains c1 where "ep0_setup_irq st c = respond st c1" "ready_for st c1" "same_rest c c1"
proof -
  obtain c1 where c1: "ep0_setup_irq st c = usbd_event_ep0_setup_complete_handler st c1" "core_ok c1"
    "same_rest c c1" "dc_setup c1 = st" "t_tog c1" "out_res (ep0_out c1) = RES_NAK"
    "in_res (ep_in (sys c1) ! 0) = (if bmRequestType st AND 0x80 = 0x80 then RES_NAK else RES_ACK)"
    "bmRequestType st AND 0x80 = 0x80 \<or> in_tx_len (ep_in (sys c1) ! 0) = 0"
    using setup_token [OF assms(1)] by blast
  let ?c2 = "c1\<lparr>core_setup := st, ep0_data_buf := (Req_data, 0), ep0_data_buf_residue := ucast (wLength st),
     ep0_data_buf_len := ucast (wLength st), zlp_flag := False\<rparr>"
  have "ep0_setup_irq st c = respond st ?c2"
    unfolding c1(1) using assms(2) top_bit [of "bmRequestType st"]
    by (simp add: usbd_event_ep0_setup_complete_handler_def respond_def request_defs
      CONFIG_USBDEV_REQUEST_BUFFER_LEN_def Let_def) auto
  moreover have "ready_for st ?c2" using c1 by (simp add: ready_for_def)
  moreover have "same_rest c ?c2" using c1(3) by (simp add: same_rest_def)
  ultimately show thesis by (rule that)
qed

text \<open>The data of a control read, from wherever it lies, is made ready to be sent.\<close>

definition readable :: "usbd_core \<Rightarrow> area \<times> nat \<Rightarrow> nat \<Rightarrow> bool" where
  "readable c p r \<longleftrightarrow> r \<le> length (ptr_bytes c p) \<and> r \<le> 256 \<and> unat (ptr_addr c p) + r < 2 ^ 32 \<and>
     0 < unat (ptr_addr c p)"

lemma area_readable:
  assumes "core_ok c" and "a \<noteq> Null" and "o' + r \<le> length (area_bytes c a)" and "r \<le> 256" and "o' \<le> 255"
  shows "readable c (a, o') r"
proof -
  have "0 < unat (area_addr c a)" "unat (area_addr c a) + 512 \<le> 2 ^ 32"
    using core_okD(9) [OF assms(1), of a] by (simp_all add: area_ok_def)
  moreover from this have "unat (ptr_addr c (a, o')) = unat (area_addr c a) + o'"
    using assms(2,5) by (simp add: ptr_addr_def unat_word_ariths unat_of_nat)
  ultimately show ?thesis using assms(3-5) by (simp add: readable_def ptr_bytes_def)
qed

lemma finish_send:
  assumes "core_ok c" and "readable c (ep0_data_buf c) r" and "ptr_addr c (ep0_data_buf c) AND 3 = 0"
    and "ep0_data_buf_residue c = of_nat r" and "d = take r (ptr_bytes c (ep0_data_buf c))"
    and "dc_setup c = st" and "core_setup c = st" and "bmRequestType st AND 0x80 = 0x80"
  obtains c' where "ep0_start_write (ep0_data_buf c) (ep0_data_buf_residue c) c = Some c'"
    "sending d c'" "same_dev c c'" "zlp_flag c' = zlp_flag c" "t_tog c' = t_tog c"
    "ep0_data_buf_len c' = ep0_data_buf_len c"
proof -
  have r: "r \<le> length (ptr_bytes c (ep0_data_buf c))" "r \<le> 256"
    "unat (ptr_addr c (ep0_data_buf c)) + r < 2 ^ 32" "0 < unat (ptr_addr c (ep0_data_buf c))"
    using assms(2) by (simp_all add: readable_def)
  have u: "unat (of_nat r :: u32) = r" using r(2) by (simp add: unat_of_nat)
  have l: "length d = r" using assms(5) r(1) by simp
  obtain c' where c': "ep0_start_write (ep0_data_buf c) (ep0_data_buf_residue c) c = Some c'" "core_ok c'"
    "in_ack (ep_in (sys c') ! 0)" "in_xfer_len (ep_in (sys c') ! 0) = ep0_data_buf_residue c"
    "in_actual (ep_in (sys c') ! 0) = 0"
    "packet_of (ep_in (sys c') ! 0) =
      take (min (unat (ep0_data_buf_residue c)) 64) (ptr_bytes c (ep0_data_buf c))"
    "same_dev c c'" "ep0_data_buf c' = ep0_data_buf c" "ep0_data_buf_residue c' = ep0_data_buf_residue c"
    "zlp_flag c' = zlp_flag c" "t_tog c' = t_tog c" "\<And>q. ptr_addr c' q = ptr_addr c q"
    "\<And>q. ptr_bytes c' q = ptr_bytes c q" "ep0_data_buf_len c' = ep0_data_buf_len c"
  proof (rule write_started [OF assms(1,3)])
    show "ptr_addr c (ep0_data_buf c) \<noteq> 0" using r(4) by auto
    show "min (unat (ep0_data_buf_residue c)) 64 \<le> length (ptr_bytes c (ep0_data_buf c))"
      using r(1) u assms(4) by simp
  qed (rule that)
  show thesis
  proof (rule that [OF c'(1) _ c'(7,10,11,14)])
    have s: "dc_setup c' = st" "core_setup c' = st" using c'(7) assms(6,7) by (auto simp: same_dev_def)
    have pk: "take (min r 64) (ptr_bytes c (ep0_data_buf c)) = take 64 d"
      using assms(5) by (simp add: min.commute)
    show "sending d c'"
      unfolding sending_def c'(6,8,9,12,13) assms(4) u pk
      using c'(2-5) assms(3-5,8) r s l by (simp add: dir_in)
  qed
qed

lemma send_data:
  assumes ok: "core_ok c" and rd: "readable c (ep0_data_buf c) r"
    and n: "ep0_data_buf_len c = of_nat n" "n < 2 ^ 32" and r: "r = min n (unat (wLength st))"
    and d: "d = take r (ptr_bytes c (ep0_data_buf c))"
    and st: "dc_setup c = st" "core_setup c = st" "bmRequestType st AND 0x80 = 0x80" and z: "\<not> zlp_flag c"
  obtains c' where "ep0_send_data st c = Some c'" "sending d c'" "same_dev c c'" "t_tog c' = t_tog c"
    "zlp_flag c' = (n < unat (wLength st) \<and> n mod 64 = 0)"
proof -
  have rr: "r \<le> 256" "r \<le> length (ptr_bytes c (ep0_data_buf c))" using rd by (simp_all add: readable_def)
  let ?c = "c\<lparr>ep0_data_buf_residue := min (ep0_data_buf_len c) (ucast (wLength st))\<rparr>"
  have un: "unat (of_nat n :: u32) = n" using n(2) by (simp add: unat_of_nat)
  have "unat (wLength st) < 2 ^ 32" using unsigned_less [of "wLength st", where 'a = nat] by simp
  then have uw: "unat (ucast (wLength st) :: u32) = unat (wLength st)"
    by (simp add: unsigned_ucast_eq take_bit_nat_eq_self)
  have res: "min (of_nat n :: u32) (ucast (wLength st)) = of_nat r"
    using un uw r by (auto simp: min_def word_le_nat_alt word_unat_eq_iff)
  have zl: "(ucast (wLength st) > (of_nat n :: u32) \<and> (of_nat n :: u32) mod of_nat USB_CTRL_EP_MPS = 0) \<longleftrightarrow>
      n < unat (wLength st) \<and> n mod 64 = 0"
    using un uw by (simp add: word_less_nat_alt word_unat_eq_iff unat_mod USB_CTRL_EP_MPS_def)
  show thesis
  proof (cases "ptr_addr c (ep0_data_buf c) AND 3 = 0")
    case True
    have "core_ok ?c" using ok by simp
    then obtain c' where c': "ep0_start_write (ep0_data_buf ?c) (ep0_data_buf_residue ?c) ?c = Some c'"
      "sending d c'" "same_dev ?c c'" "zlp_flag c' = zlp_flag ?c" "t_tog c' = t_tog ?c"
      "ep0_data_buf_len c' = ep0_data_buf_len ?c"
      by (rule finish_send [of ?c r d st]) (use rd True n(1) d st res in \<open>simp_all add: readable_def\<close>)
    show thesis
    proof (rule that)
      show "ep0_send_data st c = Some (if n < unat (wLength st) \<and> n mod 64 = 0 then c'\<lparr>zlp_flag := True\<rparr> else c')"
        unfolding ep0_send_data_def Let_def using True c'(1,6) n(1) zl by simp
    qed (use c' z in \<open>auto simp: sending_def same_dev_def\<close>)
  next
    case False
    let ?q = "take r (ptr_bytes c (ep0_data_buf c)) @ drop r (req_data c)"
    let ?c2 = "?c\<lparr>req_data := ?q, ep0_data_buf := (Req_data, 0)\<rparr>"
    have rd2: "length (req_data c) = 256" using core_okD [OF ok] by simp
    have cp: "copy_to (req_data ?c) 0 (ptr_bytes ?c (ep0_data_buf ?c)) 0 (unat (ep0_data_buf_residue ?c)) = Some ?q"
      using rr rd2 n(1) res by (simp add: unat_of_nat)
    have ok2: "core_ok ?c2" using ok rr rd2 by (simp add: core_ok_def area_ok_def)
    have p2: "readable ?c2 (ep0_data_buf ?c2) r"
      using area_readable [OF ok2, of Req_data 0 r] rr rd2 by (simp add: area_bytes_def)
    have al: "ptr_addr ?c2 (ep0_data_buf ?c2) AND 3 = 0"
      using core_okD(8) [OF ok] by (simp add: ptr_addr_def)
    have d2: "d = take r (ptr_bytes ?c2 (ep0_data_buf ?c2))"
      using d rr by (simp add: ptr_bytes_def area_bytes_def)
    obtain c' where c': "ep0_start_write (ep0_data_buf ?c2) (ep0_data_buf_residue ?c2) ?c2 = Some c'"
      "sending d c'" "same_dev ?c2 c'" "zlp_flag c' = zlp_flag ?c2" "t_tog c' = t_tog ?c2"
      "ep0_data_buf_len c' = ep0_data_buf_len ?c2"
      by (rule finish_send [OF ok2 p2 al _ d2, of st]) (use n(1) st res in simp_all)
    have small: "\<not> unat (ep0_data_buf_residue ?c) > CONFIG_USBDEV_REQUEST_BUFFER_LEN"
      using rr n(1) res by (simp add: unat_of_nat CONFIG_USBDEV_REQUEST_BUFFER_LEN_def)
    show thesis
    proof (rule that)
      show "ep0_send_data st c = Some (if n < unat (wLength st) \<and> n mod 64 = 0 then c'\<lparr>zlp_flag := True\<rparr> else c')"
        unfolding ep0_send_data_def Let_def using False c'(1,6) n(1) zl cp small by simp
    qed (use c' z in \<open>auto simp: sending_def same_dev_def\<close>)
  qed
qed

section \<open>What a control read delivers\<close>

lemma packets_concat: "concat (packets_of z d) = d"
  by (induction z d rule: packets_of.induct) (subst packets_of.simps, simp)

lemma packets_length: "length (packets_of z d) \<le> length d div 64 + 2"
proof (induction z d rule: packets_of.induct)
  case (1 z d)
  then show ?case by (subst packets_of.simps) (auto simp: le_div_geq)
qed

lemma packets_shape:
  assumes "z \<longrightarrow> length d mod 64 = 0 \<and> d \<noteq> []"
  shows "packets_of z d \<noteq> [] \<and> (\<forall>p \<in> set (butlast (packets_of z d)). length p = 64) \<and>
    (z \<longrightarrow> last (packets_of z d) = []) \<and> (length d mod 64 \<noteq> 0 \<longrightarrow> length (last (packets_of z d)) < 64)"
  using assms
proof (induction z d rule: packets_of.induct)
  case (1 z d)
  show ?case
  proof (cases "length d > 64")
    case True
    have e: "packets_of z d = take 64 d # packets_of z (drop 64 d)" using True by (subst packets_of.simps) simp
    have m: "(length d - 64) mod 64 = length d mod 64" using True by (simp add: le_mod_geq [symmetric])
    show ?thesis using 1 True unfolding e m [symmetric] by auto
  next
    case False
    then have e: "packets_of z d = d # (if z then [[]] else [])" by (subst packets_of.simps) simp
    have "length d mod 64 \<noteq> 0 \<longrightarrow> length d < 64" using False by (cases "length d = 64") auto
    moreover have "z \<longrightarrow> length d = 64" using 1(2) False by (cases "length d < 64") auto
    ultimately show ?thesis using False unfolding e by simp
  qed
qed

lemma toggled_snd: "map snd (toggled b ps) = ps"
  by (induction ps arbitrary: b) auto

lemma toggled_butlast: "map snd (butlast (toggled b ps)) = butlast ps"
  by (simp add: map_butlast toggled_snd)

lemma toggled_last: "ps \<noteq> [] \<Longrightarrow> snd (last (toggled b ps)) = last ps"
  by (metis last_map list.map_disc_iff toggled_snd)

lemma toggled_length: "length (toggled b ps) = length ps"
  by (metis length_map toggled_snd)

lemma toggled_nth: "i < length ps \<Longrightarrow> fst (toggled b ps ! i) = (if even i then b else \<not> b)"
proof (induction ps arbitrary: b i)
  case (Cons p ps)
  then show ?case by (cases i) auto
qed simp

lemma delivered:
  assumes "d \<noteq> []" and "w \<noteq> 0" and z: "z = (length d < w \<and> length d mod 64 = 0)"
    and ps: "ps = toggled True (packets_of z (take w d))"
  shows "concat (map snd ps) = take w d" "\<forall>p \<in> set (butlast ps). length (snd p) = 64"
    "length d < w \<longrightarrow> length (snd (last ps)) < 64" "\<forall>i < length ps. fst (ps ! i) = even i"
proof -
  let ?q = "packets_of z (take w d)"
  have zd: "z \<longrightarrow> length (take w d) mod 64 = 0 \<and> take w d \<noteq> []" using assms(1-3) by auto
  note sh = packets_shape [OF zd]
  note sh1 = sh [THEN conjunct1] and sh2 = sh [THEN conjunct2, THEN conjunct1]
    and sh3 = sh [THEN conjunct2, THEN conjunct2, THEN conjunct1]
    and sh4 = sh [THEN conjunct2, THEN conjunct2, THEN conjunct2]
  show "concat (map snd ps) = take w d" unfolding ps by (simp only: toggled_snd packets_concat)
  show "\<forall>p \<in> set (butlast ps). length (snd p) = 64"
  proof
    fix p assume "p \<in> set (butlast ps)"
    then have "snd p \<in> set (map snd (butlast ps))" by simp
    then show "length (snd p) = 64" using sh2 unfolding ps toggled_butlast by blast
  qed
  have "length (last ?q) < 64" if "length d < w"
  proof (cases z)
    case True
    then show ?thesis using sh3 by simp
  next
    case False
    then have "length (take w d) mod 64 \<noteq> 0" using z that by simp
    then show ?thesis using sh4 by blast
  qed
  then show "length d < w \<longrightarrow> length (snd (last ps)) < 64" unfolding ps toggled_last [OF sh1] by blast
  show "\<forall>i < length ps. fst (ps ! i) = even i" unfolding ps toggled_length by (simp add: toggled_nth)
qed

text \<open>From a request that was handled to the packets the host takes.\<close>

lemma read_handled:
  assumes ok: "core_ok c" and st: "bmRequestType st AND 0x80 = 0x80" "wLength st \<noteq> 0"
    and h: "\<And>c1. ready_for st c1 \<Longrightarrow> same_rest c c1 \<Longrightarrow> \<exists>c2. usbd_setup_request_handler st c1 = Some (True, c2) \<and>
      core_ok c2 \<and> same_dev c1 c2 \<and> t_tog c2 \<and> \<not> zlp_flag c2 \<and> ep0_data_buf_len c2 = of_nat n \<and>
      readable c2 (ep0_data_buf c2) r \<and> d = take r (ptr_bytes c2 (ep0_data_buf c2))"
    and n: "n < 2 ^ 32" and r: "r = min n (unat (wLength st))" and k: "r div 64 + 2 < k"
  shows "\<exists>c'. control_read k st c =
      Some (toggled True (packets_of (n < unat (wLength st) \<and> n mod 64 = 0) d), c') \<and>
    status_stage c' \<and> same_rest c c'"
proof -
  obtain c1 where c1: "ep0_setup_irq st c = respond st c1" "ready_for st c1" "same_rest c c1"
    using setup_irq [OF ok] st(1) by blast
  obtain c2 where c2: "usbd_setup_request_handler st c1 = Some (True, c2)" "core_ok c2" "same_dev c1 c2"
    "t_tog c2" "\<not> zlp_flag c2" "ep0_data_buf_len c2 = of_nat n" "readable c2 (ep0_data_buf c2) r"
    "d = take r (ptr_bytes c2 (ep0_data_buf c2))"
    using h [OF c1(2,3)] by blast
  have s: "dc_setup c2 = st" "core_setup c2 = st" using c1(2) c2(3) by (simp_all add: ready_for_def same_dev_def)
  obtain c3 where c3: "ep0_send_data st c2 = Some c3" "sending d c3" "same_dev c2 c3" "t_tog c3 = t_tog c2"
    "zlp_flag c3 = (n < unat (wLength st) \<and> n mod 64 = 0)"
    using send_data [OF c2(2,7,6) n r c2(8) s st(1) c2(5)] by blast
  have w: "wLength (dc_setup c3) \<noteq> 0" using c3(3) s st(2) by (simp add: same_dev_def)
  have "length d \<le> r" using c2(8) by simp
  then have "length (packets_of (zlp_flag c3) d) < k"
    using packets_length [of "zlp_flag c3" d] k div_le_mono [of "length d" r 64] by linarith
  then obtain c' where "host_read k c3 = Some (toggled (t_tog c3) (packets_of (zlp_flag c3) d), c')"
    "status_stage c'" "same_dev c3 c'"
    using host_read_sending [OF c3(2) w] by blast
  moreover have "ep0_setup_irq st c = Some c3" unfolding c1(1) respond_def using c2(1) c3(1) by simp
  moreover have "same_rest c c'"
    using c1(3) same_dev_rest [OF same_dev_trans [OF c2(3) same_dev_trans [OF c3(3) calculation(3)]]]
    by (rule same_rest_trans)
  ultimately show ?thesis using c2(4) c3(4,5) by (simp add: control_read_def USBD_IRQHandler_def)
qed

lemma stall_ep0:
  assumes "core_ok c"
  obtains c' where "usbd_ep_set_stall USB_CONTROL_IN_EP0 c = Some c'" "in_res (ep_in (sys c') ! 0) = RES_STALL"
    "out_res (ep0_out c') = RES_STALL" "same_dev c c'" "core_ok c'" "t_tog c' = t_tog c"
proof -
  note k = core_okD [OF assms]
  let ?c1 = "c\<lparr>ep0_out := (ep0_out c)\<lparr>out_res := RES_STALL\<rparr>\<rparr>"
  let ?c2 = "set_in 0 ((ep_in (sys c) ! 0)\<lparr>in_res := RES_STALL\<rparr>) ?c1"
  have "usbd_ep_set_stall USB_CONTROL_IN_EP0 c = Some ?c2"
    using k(1) by (simp add: usbd_ep_set_stall_def USB_CONTROL_IN_EP0_def USB_EP_GET_IDX_def set_rx_0 set_tx_0)
  moreover have "core_ok ?c2" using assms k by (intro core_ok_in core_ok_out) simp_all
  moreover have "same_dev c ?c2" by (auto simp: same_dev_def)
  ultimately show thesis using k(1) that [of ?c2] by simp
qed

lemma device_request:
  "bmRequestType st = 0x80 \<Longrightarrow> usbd_setup_request_handler st c = usbd_std_device_req_handler st c"
  by (simp add: usbd_setup_request_handler_def usbd_standard_request_handler_def request_defs)

lemma get_descriptor_handler:
  "bRequest st = USB_REQUEST_GET_DESCRIPTOR \<Longrightarrow> usbd_std_device_req_handler st c =
    map_option (\<lambda>r. case r of None \<Rightarrow> (False, c)
      | Some (p, n) \<Rightarrow> (True, c\<lparr>ep0_data_buf := (Descriptors, p), ep0_data_buf_len := n\<rparr>))
      (usbd_get_descriptor (descriptors c) (wValue st))"
  by (simp add: usbd_std_device_req_handler_def request_defs)

text \<open>A request the handler refuses stalls the endpoint and delivers nothing.\<close>

lemma read_refused:
  assumes "core_ok c" and "bmRequestType st AND 0x80 = 0x80"
    and hd: "\<And>c1. core_ok c1 \<Longrightarrow> usbd_setup_request_handler st c1 = Some (False, c1)"
  shows "\<exists>c'. control_read 6 st c = Some ([], c') \<and> in_res (ep_in (sys c') ! 0) = RES_STALL \<and>
    out_res (ep0_out c') = RES_STALL \<and> same_rest c c'"
proof -
  obtain c1 where c1: "ep0_setup_irq st c = respond st c1" "ready_for st c1" "same_rest c c1"
    using setup_irq [OF assms(1)] assms(2) by blast
  then have ok: "core_ok c1" by (simp add: ready_for_def)
  obtain c2 where c2: "usbd_ep_set_stall USB_CONTROL_IN_EP0 c1 = Some c2"
    "in_res (ep_in (sys c2) ! 0) = RES_STALL" "out_res (ep0_out c2) = RES_STALL" "same_dev c1 c2"
    using stall_ep0 [OF ok] by blast
  have "control_read 6 st c = Some ([], c2)"
    using c1(1) c2(1,2) hd [OF ok]
    by (simp add: control_read_def USBD_IRQHandler_def respond_def numeral_eq_Suc)
  then show ?thesis using c2 same_rest_trans [OF c1(3) same_dev_rest [OF c2(4)]] by auto
qed

text \<open>One that points into the descriptors delivers what lies there.\<close>

lemma read_descriptor:
  fixes p :: nat and n :: u32
  assumes "core_ok c" and bm: "bmRequestType st AND 0x80 = 0x80" and len: "wLength st \<noteq> 0"
    and hd: "\<And>c1. core_ok c1 \<Longrightarrow> usbd_setup_request_handler st c1 =
      Some (True, c1\<lparr>ep0_data_buf := (Descriptors, p), ep0_data_buf_len := n\<rparr>)"
    and b: "p + unat n < 203" "0 < unat n"
  defines "d \<equiv> take (unat n) (drop p cdc_acm_hid_descriptor)" and "r \<equiv> min (unat n) (unat (wLength st))"
    and "z \<equiv> unat n < unat (wLength st) \<and> unat n mod 64 = 0"
  shows "\<exists>c'. control_read 6 st c = Some (toggled True (packets_of z (take r d)), c') \<and>
    status_stage c' \<and> same_rest c c'"
proof -
  have r: "r \<le> 202" "r \<le> 256" using b by (simp_all add: r_def)
  then have k: "r div 64 + 2 < 6" by linarith
  have un: "unat n < 2 ^ 32" using unsigned_less [of n, where 'a = nat] by simp
  show ?thesis unfolding z_def
  proof (rule read_handled [OF assms(1) bm len _ un r_def [THEN meta_eq_to_obj_eq] k])
    fix c1 assume c1: "ready_for st c1"
    let ?c2 = "c1\<lparr>ep0_data_buf := (Descriptors, p), ep0_data_buf_len := n\<rparr>"
    have ok: "core_ok c1" and ok2: "core_ok ?c2" using c1 by (simp_all add: ready_for_def)
    have ar: "area_bytes ?c2 Descriptors = cdc_acm_hid_descriptor"
      using core_okD(10) [OF ok] by (simp add: area_bytes_def)
    have "readable ?c2 (ep0_data_buf ?c2) r"
      using area_readable [OF ok2, of Descriptors p r] ar b(1) r by (simp add: descriptor_length r_def)
    moreover have "take r d = take r (ptr_bytes ?c2 (ep0_data_buf ?c2))"
      by (simp add: ptr_bytes_def ar d_def r_def)
    moreover have "same_dev c1 ?c2"
      using core_okD(1) [OF ok] by (auto simp: same_dev_def intro!: exI [of _ "ep_in (sys c1) ! 0"])
    ultimately show "\<exists>c2. usbd_setup_request_handler st c1 = Some (True, c2) \<and> core_ok c2 \<and>
      same_dev c1 c2 \<and> t_tog c2 \<and> \<not> zlp_flag c2 \<and> ep0_data_buf_len c2 = of_nat (unat n) \<and>
      readable c2 (ep0_data_buf c2) r \<and> take r d = take r (ptr_bytes c2 (ep0_data_buf c2))"
      using hd [OF ok] ok2 c1 by (intro exI [of _ ?c2]) (simp add: ready_for_def)
  qed
qed

text \<open>
  C8: A control read of a descriptor: the host gets the first bytes of what the device offers, as many
  as it asked for or as there are, in packets of 64 bytes of which only the last can be shorter and is
  when the host asked for more; the data toggle alternates beginning with DATA1; then the device
  waits for the status packet. For a descriptor that is not offered it answers STALL. Nothing else of
  the device changes.
\<close>

theorem control_read_delivers:
  assumes "core_ok c" and "bmRequestType st = 0x80" and "bRequest st = USB_REQUEST_GET_DESCRIPTOR"
    and "wLength st \<noteq> 0"
  shows "case offered (unat (wValue st) div 256) (unat (wValue st) mod 256) of
      Some d \<Rightarrow> \<exists>ps c'. control_read 6 st c = Some (ps, c') \<and>
        concat (map snd ps) = take (unat (wLength st)) d \<and>
        (\<forall>p \<in> set (butlast ps). length (snd p) = 64) \<and>
        (length d < unat (wLength st) \<longrightarrow> length (snd (last ps)) < 64) \<and>
        (\<forall>i < length ps. fst (ps ! i) = even i) \<and> status_stage c' \<and> same_rest c c'
    | None \<Rightarrow> \<exists>c'. control_read 6 st c = Some ([], c') \<and> in_res (ep_in (sys c') ! 0) = RES_STALL \<and>
        out_res (ep0_out c') = RES_STALL \<and> same_rest c c'"
proof -
  let ?t = cdc_acm_hid_descriptor
  obtain res where res: "usbd_get_descriptor ?t (wValue st) = Some res"
    "map_option (\<lambda>(p, n). take (unat n) (drop p ?t)) res =
      offered (unat (wValue st) div 256) (unat (wValue st) mod 256)"
    "case res of None \<Rightarrow> True | Some (p, n) \<Rightarrow> p + unat n < length ?t \<and> 0 < unat n"
    using get_descriptor_correct [of "wValue st"] by blast
  have hd: "usbd_setup_request_handler st c1 = Some (case res of None \<Rightarrow> (False, c1)
      | Some (p, n) \<Rightarrow> (True, c1\<lparr>ep0_data_buf := (Descriptors, p), ep0_data_buf_len := n\<rparr>))"
    if "core_ok c1" for c1
    using core_okD(10) [OF that] res(1) assms(2,3) by (simp add: device_request get_descriptor_handler)
  have bm: "bmRequestType st AND 0x80 = 0x80" using assms(2) by simp
  show ?thesis
  proof (cases res)
    case None
    then show ?thesis using read_refused [OF assms(1) bm] hd res(2) by auto
  next
    case (Some pn)
    obtain p n where pn: "pn = (p, n)" by (cases pn)
    let ?d = "take (unat n) (drop p ?t)" and ?r = "min (unat n) (unat (wLength st))"
    let ?z = "unat n < unat (wLength st) \<and> unat n mod 64 = 0"
    have b: "p + unat n < 203" "0 < unat n" using res(3) Some pn by (simp_all add: descriptor_length)
    have l: "length ?d = unat n" using b(1) by (simp add: descriptor_length)
    have off: "offered (unat (wValue st) div 256) (unat (wValue st) mod 256) = Some ?d"
      using res(2) Some pn by simp
    have hd2: "usbd_setup_request_handler st c1 =
      Some (True, c1\<lparr>ep0_data_buf := (Descriptors, p), ep0_data_buf_len := n\<rparr>)" if "core_ok c1" for c1
      using hd [OF that] Some pn by simp
    obtain c' where c': "control_read 6 st c = Some (toggled True (packets_of ?z (take ?r ?d)), c')"
      "status_stage c'" "same_rest c c'"
      using read_descriptor [OF assms(1) bm assms(4) hd2 b] by blast
    have ne: "?d \<noteq> []" using l b(2) by auto
    have tk: "take ?r ?d = take (unat (wLength st)) ?d" by (simp add: min.commute)
    have ps: "toggled True (packets_of ?z (take ?r ?d)) = toggled True (packets_of ?z (take (unat (wLength st)) ?d))"
      unfolding tk ..
    have z: "?z = (length ?d < unat (wLength st) \<and> length ?d mod 64 = 0)" unfolding l ..
    show ?thesis unfolding off option.case
      using c' delivered [OF ne _ z ps] assms(4) by (metis unat_eq_zero)
  qed
qed

end
