(* ===== verification/UsbConfig.thy ===== *)
theory UsbConfig
  imports UsbCoreProps
begin

text \<open>
  From power-on to the running device: what SET_CONFIGURATION opens, that the enumeration ends in the
  states the other USB theorems start from, and which requests are refused.
\<close>

section \<open>The walk over the table\<close>

definition walkable :: "u8 list \<Rightarrow> bool" where
  "walkable x \<longleftrightarrow> wf_desc x \<and> (x ! 1 = 2 \<longrightarrow> 6 \<le> length x) \<and> (x ! 1 = 4 \<longrightarrow> 4 \<le> length x) \<and>
     (x ! 1 = 5 \<longrightarrow> 6 \<le> length x)"

text \<open>The same walk over the list of descriptors.\<close>

fun conf_fold :: "u8 list list \<Rightarrow> u8 \<Rightarrow> u8 \<Rightarrow> u8 \<Rightarrow> u8 \<Rightarrow> bool \<Rightarrow> usbd_core \<Rightarrow> (bool \<times> usbd_core) option" where
  "conf_fold [] ci alt ca cc found c = Some (found, c)"
| "conf_fold (x # xs) ci alt ca cc found c =
     (if x ! 1 = 2 then conf_fold xs ci alt ca (x ! 5) (found \<or> x ! 5 = ci) c
      else if x ! 1 = 4 then conf_fold xs ci alt (x ! 3) cc found c
      else if x ! 1 = 5 \<and> cc = ci \<and> ca = alt then do {
        (r, c1) \<leftarrow> core_ep_open (x ! 2) (u16_of (x ! 4) (x ! 5) AND 0x7ff) c;
        conf_fold xs ci alt ca cc (r = 0) c1
      }
      else conf_fold xs ci alt ca cc found c)"

lemma ep_open_descriptors: "core_ep_open ep m c = Some (r, c1) \<Longrightarrow> descriptors c1 = descriptors c"
  by (auto simp: core_ep_open_def set_out_def Let_def bind_eq_Some_conv split: if_splits)

lemma set_conf_fold:
  assumes "list_all walkable ds" and "descriptors c = pre @ concat ds @ [0]"
  shows "set_conf_loop (pre @ concat ds @ [0]) ci alt (length pre) ca cc found c =
    conf_fold ds ci alt ca cc found c"
  using assms
proof (induction ds arbitrary: pre ca cc found c)
  case Nil
  then show ?case by (subst set_conf_loop.simps) (simp add: arr_get_def nth_append)
next
  case (Cons x xs)
  let ?d = "pre @ concat (x # xs) @ [0]"
  have x: "2 \<le> length x" "length x < 256" "x ! 0 = of_nat (length x)"
    "x ! 1 = 2 \<longrightarrow> 6 \<le> length x" "x ! 1 = 4 \<longrightarrow> 4 \<le> length x" "x ! 1 = 5 \<longrightarrow> 6 \<le> length x"
    using Cons.prems(1) by (simp_all add: walkable_def wf_desc_def)
  have get: "arr_get ?d (length pre + k) = Some (x ! k)" if "k < length x" for k
    using that by (auto simp: arr_get_def nth_append)
  have "0 < length x" using x(1) by linarith
  then have g0: "arr_get ?d (length pre) = Some (of_nat (length x))" using get [of 0] x(3) by simp
  have g1: "arr_get ?d (length pre + 1) = Some (x ! 1)" using get [of 1] x by simp
  have u: "unat (of_nat (length x) :: u8) = length x" using x(2) by (simp add: unat_of_nat)
  have nz: "(of_nat (length x) :: u8) \<noteq> 0" using u x(1) by auto
  have ih: "set_conf_loop ?d ci alt (length pre + length x) ca' cc' f' c' = conf_fold xs ci alt ca' cc' f' c'"
    if "descriptors c' = ?d" for ca' cc' f' c'
    using Cons.IH [of c' "pre @ x" ca' cc' f'] Cons.prems(1) that by simp
  have step: "set_conf_loop ?d ci alt (length pre) ca cc found c = do {
      (alt1, config1, found1, c1) \<leftarrow>
        (if x ! 1 = 2 then do { v \<leftarrow> arr_get ?d (length pre + 5); Some (ca, v, found \<or> v = ci, c) }
         else if x ! 1 = 4 then do { v \<leftarrow> arr_get ?d (length pre + 3); Some (v, cc, found, c) }
         else if x ! 1 = 5 \<and> cc = ci \<and> ca = alt
         then do { (f, c1) \<leftarrow> usbd_set_endpoint (length pre) c; Some (ca, cc, f, c1) }
         else Some (ca, cc, found, c));
      set_conf_loop ?d ci alt (length pre + length x) alt1 config1 found1 c1
    }"
    by (subst set_conf_loop.simps)
      (simp only: g0 g1 option.case bind.simps nz u usb_desc_types if_False refl numeral_eq_iff)
  have ep: "usbd_set_endpoint (length pre) c = do {
      (r, c1) \<leftarrow> core_ep_open (x ! 2) (u16_of (x ! 4) (x ! 5) AND 0x7ff) c; Some (r = 0, c1) }"
    if "x ! 1 = 5"
    using get [of 2] get [of 4] get [of 5] x(6) that Cons.prems(2)
    by (simp add: usbd_set_endpoint_def ep_desc_at_def)
  consider "x ! 1 = 2" | "x ! 1 = 4" | "x ! 1 = 5" "cc = ci" "ca = alt"
    | "x ! 1 \<noteq> 2" "x ! 1 \<noteq> 4" "\<not> (x ! 1 = 5 \<and> cc = ci \<and> ca = alt)" by blast
  then show ?case
  proof cases
    case 1
    then show ?thesis using get [of 5] x(4) ih [OF Cons.prems(2)] unfolding step by simp
  next
    case 2
    then show ?thesis using get [of 3] x(5) ih [OF Cons.prems(2)] unfolding step by simp
  next
    case 3
    show ?thesis
    proof (cases "core_ep_open (x ! 2) (u16_of (x ! 4) (x ! 5) AND 0x7ff) c")
      case None
      then show ?thesis unfolding step using 3 ep by simp
    next
      case (Some rc)
      obtain r c1 where rc: "rc = (r, c1)" by (cases rc)
      have "descriptors c1 = ?d" using ep_open_descriptors Some rc Cons.prems(2) by metis
      then show ?thesis unfolding step using 3 ep Some rc ih by simp
    qed
  next
    case 4
    then show ?thesis unfolding step using ih [OF Cons.prems(2)] by auto
  qed
qed

lemma table_walkable: "list_all walkable cdc_acm_hid_list"
  by (simp add: cdc_acm_hid_list_def walkable_def wf_desc_def wide_string_def)

section \<open>The configuration\<close>

definition open_in :: "nat \<Rightarrow> nat \<Rightarrow> usbd_core \<Rightarrow> usbd_core" where
  "open_in i m c = c\<lparr>sys := (sys c)\<lparr>ep_in := (ep_in (sys c))[i := (ep_in (sys c) ! i)\<lparr>in_mps := m, in_enable := True\<rparr>]\<rparr>\<rparr>"

definition open_out :: "nat \<Rightarrow> usbd_core \<Rightarrow> usbd_core" where
  "open_out m c = c\<lparr>sys := (sys c)\<lparr>ep_out := (ep_out (sys c))\<lparr>out_mps := m, out_enable := True\<rparr>\<rparr>\<rparr>"

text \<open>The device with the four endpoints of the configuration open.\<close>

definition opened :: "usbd_core \<Rightarrow> usbd_core" where
  "opened c = open_in 3 19 (open_in 1 64 (open_out 64 (open_in 2 8 c)))"

lemma open_eqs:
  assumes "length (ep_in (sys c)) = 8"
  shows "core_ep_open 0x82 m c = Some (0, open_in 2 (unat (ucast m :: u8)) c)"
    "core_ep_open 0x81 m c = Some (0, open_in 1 (unat (ucast m :: u8)) c)"
    "core_ep_open 0x83 m c = Some (0, open_in 3 (unat (ucast m :: u8)) c)"
    "core_ep_open 0x01 m c = Some (0, open_out (unat (ucast m :: u8)) c)"
  using assms by (simp_all add: core_ep_open_def usbd_ep_open_def open_in_def open_out_def arr_get_def Let_def
      USB_EP_GET_IDX_def USB_NUM_BIDIR_ENDPOINTS_def)

lemma open_length [simp]:
  "length (ep_in (sys (open_in i m c))) = length (ep_in (sys c))" "ep_in (sys (open_out m c)) = ep_in (sys c)"
  by (simp_all add: open_in_def open_out_def)

lemma set_configuration_eq:
  assumes "core_ok c"
  shows "usbd_set_configuration v 0 c = Some (v = 1, if v = 1 then opened c else c)"
proof -
  have d: "descriptors c = [] @ concat cdc_acm_hid_list @ [0]"
    using core_okD(10) [OF assms] by (simp add: table_list)
  have "usbd_set_configuration v 0 c = conf_fold cdc_acm_hid_list v 0 0xFF 0xFF False c"
    using set_conf_fold [OF table_walkable d, of v 0 "0xFF" "0xFF" False] d
    by (simp add: usbd_set_configuration_def)
  also have "\<dots> = Some (v = 1, if v = 1 then opened c else c)"
    using core_okD(1) [OF assms]
    by (simp add: cdc_acm_hid_list_def wide_string_def u16_of_def open_eqs opened_def)
  finally show ?thesis .
qed

section \<open>Requests without data\<close>

lemma notify_eq [simp]: "usbd_class_event_notify_handler ev c = c"
proof -
  have "fold (\<lambda>i c. if class_interface_handler i = Cdc_acm then cdc_notify_handler ev c else c) is c = c" for "is"
    by (induction "is") (auto simp: cdc_notify_handler_def split: usbd_event_type.splits)
  then show ?thesis by (simp add: usbd_class_event_notify_handler_def)
qed

text \<open>The empty packet that tells the host the request is done.\<close>

definition done_packet :: "usbd_core \<Rightarrow> bool" where
  "done_packet c \<longleftrightarrow> in_ack (ep_in (sys c) ! 0) \<and> packet_of (ep_in (sys c) ! 0) = [] \<and> t_tog c"

lemma send_status:
  assumes "core_ok c" and "ep0_data_buf c = (Req_data, 0)" and "ep0_data_buf_len c = 0" and "wLength st = 0"
    and "t_tog c"
  obtains c' where "ep0_send_data st c = Some c'" "core_ok c'" "done_packet c'" "same_dev c c'"
proof -
  let ?c = "c\<lparr>ep0_data_buf_residue := 0\<rparr>"
  have al: "ptr_addr c (Req_data, 0) AND 3 = 0" using core_okD(8) [OF assms(1)] by (simp add: ptr_addr_def)
  have ok: "core_ok ?c" using assms(1) by simp
  obtain c' where c': "ep0_start_write (Req_data, 0) 0 ?c = Some c'" "core_ok c'" "in_ack (ep_in (sys c') ! 0)"
    "in_xfer_len (ep_in (sys c') ! 0) = 0" "in_actual (ep_in (sys c') ! 0) = 0"
    "packet_of (ep_in (sys c') ! 0) = take (min (unat (0 :: u32)) 64) (ptr_bytes ?c (Req_data, 0))"
    "same_dev ?c c'" "t_tog c' = t_tog ?c" "ep0_data_buf_len c' = ep0_data_buf_len ?c"
  proof (rule write_started [OF ok, of "(Req_data, 0)" 0])
    show "ptr_addr ?c (Req_data, 0) AND 3 = 0" using al by simp
    show "ptr_addr ?c (Req_data, 0) \<noteq> 0" if "(0 :: u32) \<noteq> 0" using that by simp
    show "min (unat (0 :: u32)) 64 \<le> length (ptr_bytes ?c (Req_data, 0))" by simp
  qed (rule that)
  show thesis
  proof (rule that)
    show "ep0_send_data st c = Some c'" unfolding ep0_send_data_def Let_def
      using assms(2-4) al c'(1,9) by simp
    show "core_ok c'" by (rule c'(2))
    show "done_packet c'" using c'(3,6,8) assms(5) by (simp add: done_packet_def)
    show "same_dev c c'" using c'(7) by (simp add: same_dev_def)
  qed
qed

lemma set_configuration_handler:
  assumes "core_ok c" and "bmRequestType st = 0" and "bRequest st = USB_REQUEST_SET_CONFIGURATION"
  shows "usbd_setup_request_handler st c = Some (if unat (wValue st) mod 256 = 1
    then (True, (opened c)\<lparr>configuration := 1, configured := True,
           sys := usbd_configure_done_callback (sys (opened c)), ep0_data_buf_len := 0\<rparr>)
    else (False, c\<lparr>ep0_data_buf_len := 0\<rparr>))"
proof -
  have v: "(ucast (wValue st AND 0xFF) :: u8) = LO_BYTE (wValue st)" by (simp add: LO_BYTE_def)
  have l: "LO_BYTE (wValue st) = 1 \<longleftrightarrow> unat (wValue st) mod 256 = 1"
    unfolding lo_byte [symmetric] by (simp add: word_unat_eq_iff)
  show ?thesis using assms(2,3) set_configuration_eq [OF assms(1), of "LO_BYTE (wValue st)"]
    unfolding l [symmetric]
    by (simp add: usbd_setup_request_handler_def usbd_standard_request_handler_def
        usbd_std_device_req_handler_def request_defs v Let_def)
qed

lemma done_callback_in [simp]: "ep_in (usbd_configure_done_callback s) = ep_in s"
  by (simp add: usbd_configure_done_callback_def usbd_ep_start_read_def)

text \<open>The endpoints of the running device in terms of those before.\<close>

definition configured_sys :: "usb_sys \<Rightarrow> usb_sys" where
  "configured_sys s = usbd_configure_done_callback
     (s\<lparr>ep_in := (ep_in s)[2 := (ep_in s ! 2)\<lparr>in_mps := 8, in_enable := True\<rparr>,
                           1 := (ep_in s ! 1)\<lparr>in_mps := 64, in_enable := True\<rparr>,
                           3 := (ep_in s ! 3)\<lparr>in_mps := 19, in_enable := True\<rparr>],
        ep_out := (ep_out s)\<lparr>out_mps := 64, out_enable := True\<rparr>\<rparr>)"

lemma opened_sys: "usbd_configure_done_callback (sys (opened c)) = configured_sys (sys c)"
  by (simp add: opened_def open_in_def open_out_def configured_sys_def usbd_configure_done_callback_def
      usbd_ep_start_read_def)

lemma opened_ok:
  assumes "core_ok c"
  shows "core_ok (opened c)" "ep0_data_buf (opened c) = ep0_data_buf c" "t_tog (opened c) = t_tog c"
  using assms by (simp_all add: opened_def open_in_def open_out_def core_ok_def area_ok_def)

lemma configured_sys_0:
  "configured_sys (s\<lparr>ep_in := (ep_in s)[0 := e]\<rparr>) =
    (configured_sys s)\<lparr>ep_in := (ep_in (configured_sys s))[0 := e]\<rparr>"
  by (simp add: configured_sys_def usbd_configure_done_callback_def usbd_ep_start_read_def list_update_swap)

lemma set_configuration_irq:
  assumes "core_ok c" and "bmRequestType st = 0" and "bRequest st = USB_REQUEST_SET_CONFIGURATION"
    and "wLength st = 0" and "unat (wValue st) mod 256 = 1"
  obtains c' e where "USBD_IRQHandler (Setup_token st) c = Some c'" "core_ok c'" "configured c'"
    "configuration c' = 1" "done_packet c'" "usb_dev_ad c' = usb_dev_ad c" "dc_setup c' = st"
    "sys c' = (configured_sys (sys c))\<lparr>ep_in := (ep_in (configured_sys (sys c)))[0 := e]\<rparr>"
proof -
  obtain c1 where c1: "ep0_setup_irq st c = respond st c1" "ready_for st c1" "same_rest c c1"
    using setup_irq [OF assms(1)] assms(4) by blast
  have ok: "core_ok c1" and b: "ep0_data_buf c1 = (Req_data, 0)" "t_tog c1" using c1(2) by (simp_all add: ready_for_def)
  let ?c2 = "(opened c1)\<lparr>configuration := 1, configured := True,
    sys := usbd_configure_done_callback (sys (opened c1)), ep0_data_buf_len := 0\<rparr>"
  have ok2: "core_ok ?c2" using opened_ok(1) [OF ok] by (simp add: core_ok_def area_ok_def)
  obtain c3 where c3: "ep0_send_data st ?c2 = Some c3" "core_ok c3" "done_packet c3" "same_dev ?c2 c3"
    by (rule send_status [OF ok2, of st]) (use opened_ok [OF ok] b assms(4) in simp_all)
  obtain e where e: "sys c1 = (sys c)\<lparr>ep_in := (ep_in (sys c))[0 := e]\<rparr>" using c1(3) by (auto simp: same_rest_def)
  obtain e' where e': "sys c3 = (sys ?c2)\<lparr>ep_in := (ep_in (sys ?c2))[0 := e']\<rparr>" using c3(4) by (auto simp: same_dev_def)
  have op: "usb_dev_ad (opened c1) = usb_dev_ad c1" "dc_setup (opened c1) = dc_setup c1"
    by (simp_all add: opened_def open_in_def open_out_def)
  show thesis
  proof (rule that [OF _ c3(2) _ _ c3(3)])
    show "USBD_IRQHandler (Setup_token st) c = Some c3"
      using c1(1) set_configuration_handler [OF ok assms(2,3)] assms(5) c3(1)
      by (simp add: USBD_IRQHandler_def respond_def)
    show "configured c3" "configuration c3 = 1" using c3(4) by (simp_all add: same_dev_def)
    show "usb_dev_ad c3 = usb_dev_ad c" "dc_setup c3 = st"
      using c3(4) c1(2,3) op by (simp_all add: same_dev_def same_rest_def ready_for_def)
    show "sys c3 = (configured_sys (sys c))\<lparr>ep_in := (ep_in (configured_sys (sys c)))[0 := e']\<rparr>"
      using e' by (simp add: opened_sys e configured_sys_0)
  qed
qed


section \<open>The enumeration\<close>

definition closed_out :: usb_out_ep where
  "closed_out = \<lparr>out_mps = 0, out_enable = False, out_res = RES_NAK, out_xfer_off = 0, out_xfer_len = 0,
     out_actual = 0\<rparr>"

definition no_setup :: usb_setup_packet where
  "no_setup = \<lparr>bmRequestType = 0, bRequest = 0, wValue = 0, wIndex = 0, wLength = 0\<rparr>"

text \<open>Memory as it is before the program runs, with any placement of the objects.\<close>

definition power_on :: "(area \<Rightarrow> u32) \<Rightarrow> usbd_core" where
  "power_on place = \<lparr>sys = usb_reset, ep0_out = closed_out, ep0_out_buf = Null,
     spare_out = replicate 6 closed_out, t_tog = False, r_tog = False, usb_dev_ad = 0, dc_address = 0,
     dc_setup = no_setup, core_setup = no_setup, ep0_data_buf = (Null, 0), ep0_data_buf_residue = 0,
     ep0_data_buf_len = 0, zlp_flag = False, req_data = replicate 256 0, descriptors = [],
     configured = False, configuration = 0, intf_offset = 0, usbd_intf_head = [], area_addr = place\<rparr>"

definition place_ok :: "(area \<Rightarrow> u32) \<Rightarrow> bool" where
  "place_ok place \<longleftrightarrow> (\<forall>a. 0 < unat (place a) \<and> unat (place a) + 512 \<le> 2 ^ 32) \<and> place Req_data AND 3 = 0"

definition boot :: "(area \<Rightarrow> u32) \<Rightarrow> usbd_core" where
  "boot place = core_init (replicate 128 0) (replicate 128 0) (power_on place)"

fun run_irqs :: "usb_irq list \<Rightarrow> usbd_core \<Rightarrow> usbd_core option" where
  "run_irqs [] c = Some c"
| "run_irqs (e # es) c = Option.bind (USBD_IRQHandler e c) (run_irqs es)"

definition set_address_request :: "u8 \<Rightarrow> usb_setup_packet" where
  "set_address_request a =
     \<lparr>bmRequestType = 0, bRequest = USB_REQUEST_SET_ADDRESS, wValue = ucast a, wIndex = 0, wLength = 0\<rparr>"

definition set_configuration_request :: usb_setup_packet where
  "set_configuration_request =
     \<lparr>bmRequestType = 0, bRequest = USB_REQUEST_SET_CONFIGURATION, wValue = 1, wIndex = 0, wLength = 0\<rparr>"

lemma boot_sel:
  "descriptors (boot place) = cdc_acm_hid_descriptor" "usbd_intf_head (boot place) = intf_table"
  "area_addr (boot place) = place" "req_data (boot place) = replicate 256 0" "length (spare_out (boot place)) = 6"
  "sys (boot place) = cdc_acm_hid_init (replicate 128 0) (replicate 128 0) usb_reset"
  "usbd_intf_head (boot place) = intf_table" "configuration (boot place) = 0" "ep0_out (boot place) = closed_out"
  by (simp_all add: boot_def core_init_def Let_def usbd_initialize_def usb_dc_init_def usbd_add_interface_def
      usbd_cdc_acm_init_intf_def usbd_hid_init_intf_def usbd_desc_register_def power_on_def zero_intf_def
      intf_table_def HID_JOYSTICK_REPORT_DESC_SIZE_def cdc_acm_hid_init_def usb_reset_def closed_ep_def
      closed_out_def)

lemma boot_reset:
  assumes "place_ok place"
  obtains c where "USBD_IRQHandler Bus_reset (boot place) = Some c" "core_ok c" "usb_dev_ad c = 0"
    "configuration c = 0" "sys c = (sys (boot place))\<lparr>ep_in := (ep_in (sys (boot place)))
      [0 := closed_ep\<lparr>in_mps := 64, in_enable := True\<rparr>]\<rparr>"
proof -
  let ?b = "boot place"
  let ?e = "(ep_in (sys ?b) ! 0)\<lparr>in_mps := 64, in_enable := True\<rparr>"
  let ?c0 = "(?b\<lparr>usb_dev_ad := 0\<rparr>)\<lparr>dc_address := 0, configured := False, configuration := 0\<rparr>"
  let ?c = "(?c0\<lparr>sys := (sys ?b)\<lparr>ep_in := (ep_in (sys ?b))[0 := ?e]\<rparr>\<rparr>)
    \<lparr>ep0_out := closed_out\<lparr>out_mps := 64, out_enable := True, out_res := RES_ACK\<rparr>\<rparr>"
  have l: "length (ep_in (sys ?b)) = 8" "ep_in (sys ?b) ! 0 = closed_ep"
    by (simp_all add: boot_sel cdc_acm_hid_init_def usb_reset_def)
  have a: "usbd_set_address 0 (?b\<lparr>usb_dev_ad := 0\<rparr>) = ?b\<lparr>usb_dev_ad := 0, dc_address := 0\<rparr>"
    by (simp add: usbd_set_address_def)
  have i: "core_ep_open USB_CONTROL_IN_EP0 64 c = Some (0, open_in 0 64 c)" if "length (ep_in (sys c)) = 8" for c
    using that by (simp add: core_ep_open_def usbd_ep_open_def USB_CONTROL_IN_EP0_def USB_EP_GET_IDX_def
        USB_NUM_BIDIR_ENDPOINTS_def arr_get_def open_in_def)
  have o: "core_ep_open USB_CONTROL_OUT_EP0 64 c = Some (0, c\<lparr>ep0_out := (ep0_out c)\<lparr>out_mps := 64, out_enable := True\<rparr>\<rparr>)"
    for c
    by (simp add: core_ep_open_def USB_CONTROL_OUT_EP0_def USB_EP_GET_IDX_def
        USB_NUM_BIDIR_ENDPOINTS_def get_out_def set_out_def)
  have "USBD_IRQHandler Bus_reset ?b = Some ?c"
    by (simp add: USBD_IRQHandler_def bus_reset_irq_def usbd_event_reset_handler_def
        USB_CTRL_EP_MPS_def a i o l set_rx_0 boot_sel(9) open_in_def)
  moreover have "core_ok ?c" using assms l
    by (simp add: core_ok_def area_ok_def boot_sel place_ok_def closed_ep_def)
  ultimately show thesis using l by (intro that [of ?c]) simp_all
qed

lemma set_address_irq:
  assumes "core_ok c"
  obtains c' where "USBD_IRQHandler (Setup_token (set_address_request a)) c = Some c'" "core_ok c'"
    "done_packet c'" "dc_address c' = a" "dc_setup c' = set_address_request a"
    "usb_dev_ad c' = (if a = 0 then usb_dev_ad c AND 0x80 else usb_dev_ad c)"
    "\<exists>e. sys c' = (sys c)\<lparr>ep_in := (ep_in (sys c))[0 := e]\<rparr>"
proof -
  let ?st = "set_address_request a"
  have st: "wLength ?st = 0" "bmRequestType ?st = 0" "bRequest ?st = 5" "wValue ?st = ucast a"
    by (simp_all add: set_address_request_def request_defs)
  obtain c1 where c1: "ep0_setup_irq ?st c = respond ?st c1" "ready_for ?st c1" "same_rest c c1"
    using setup_irq [OF assms] st(1) by blast
  have ok: "core_ok c1" and b: "ep0_data_buf c1 = (Req_data, 0)" "t_tog c1" using c1(2) by (simp_all add: ready_for_def)
  let ?c2 = "(usbd_set_address a c1)\<lparr>ep0_data_buf_len := 0\<rparr>"
  have "(ucast (ucast a :: u16) :: u8) = a" by (rule bit_word_eqI) (simp add: bit_simps)
  then have h: "usbd_setup_request_handler ?st c1 = Some (True, ?c2)"
    by (simp add: usbd_setup_request_handler_def usbd_standard_request_handler_def
        usbd_std_device_req_handler_def request_defs st)
  have ok2: "core_ok ?c2" using ok by (simp add: usbd_set_address_def)
  have f: "ep0_data_buf ?c2 = (Req_data, 0)" "t_tog ?c2" "dc_address ?c2 = a" "sys ?c2 = sys c1"
    "usb_dev_ad ?c2 = (if a = 0 then usb_dev_ad c1 AND 0x80 else usb_dev_ad c1)" "dc_setup ?c2 = dc_setup c1"
    using b by (simp_all add: usbd_set_address_def)
  obtain c3 where c3: "ep0_send_data ?st ?c2 = Some c3" "core_ok c3" "done_packet c3" "same_dev ?c2 c3"
    by (rule send_status [OF ok2 f(1) _ st(1) f(2)]) simp_all
  show thesis
  proof (rule that [OF _ c3(2,3)])
    show "USBD_IRQHandler (Setup_token ?st) c = Some c3"
      using c1(1) h c3(1) by (simp add: USBD_IRQHandler_def respond_def)
    show "dc_address c3 = a" "dc_setup c3 = ?st" using c3(4) f c1(2) by (simp_all add: same_dev_def ready_for_def)
    show "usb_dev_ad c3 = (if a = 0 then usb_dev_ad c AND 0x80 else usb_dev_ad c)"
      using c3(4) f c1(3) by (simp add: same_dev_def same_rest_def)
    show "\<exists>e. sys c3 = (sys c)\<lparr>ep_in := (ep_in (sys c))[0 := e]\<rparr>"
      using c3(4) f(4) c1(3) by (auto simp: same_dev_def same_rest_def)
  qed
qed

text \<open>The host takes the empty packet that ends a request without data.\<close>

lemma take_done:
  assumes "core_ok c" and "bmRequestType (dc_setup c) = 0"
  obtains c' where "USBD_IRQHandler (In_token 0) c = Some c'" "core_ok c'" "configured c' = configured c"
    "usb_dev_ad c' = (if bRequest (dc_setup c) = USB_REQUEST_SET_ADDRESS
       then (usb_dev_ad c AND 0x80) OR dc_address c else usb_dev_ad c)"
    "\<exists>e. sys c' = (sys c)\<lparr>ep_in := (ep_in (sys c))[0 := e]\<rparr>" "in_res (ep_in (sys c') ! 0) = RES_NAK"
    "out_ack (ep0_out c')"
proof -
  note k = core_okD [OF assms(1)]
  let ?c1 = "if bRequest (dc_setup c) = USB_REQUEST_SET_ADDRESS
    then c\<lparr>usb_dev_ad := (usb_dev_ad c AND 0x80) OR dc_address c\<rparr> else c"
  let ?c2 = "set_in 0 ((ep_in (sys c) ! 0)\<lparr>in_res := RES_NAK\<rparr>) ?c1"
  let ?c3 = "?c2\<lparr>ep0_out := (ep0_out ?c2)\<lparr>out_res := RES_ACK\<rparr>\<rparr>"
  have s: "sys ?c1 = sys c" "ep0_out ?c1 = ep0_out c" "configured ?c1 = configured c" "core_ok ?c1"
    using assms(1) by simp_all
  have "USBD_IRQHandler (In_token 0) c = Some ?c3"
    using assms(2) k(1) s set_tx_0 [of ?c1 RES_NAK]
    by (simp add: USBD_IRQHandler_def ep0_in_irq_def set_rx_0 Let_def)
  moreover have "core_ok ?c3" using s k by (intro core_ok_out core_ok_in) simp_all
  ultimately show thesis using k(1) s by (intro that [of ?c3]) auto
qed

lemma usb_inv_0:
  "usb_inv (s\<lparr>ep_in := (ep_in s)[0 := e]\<rparr>) = usb_inv s"
  "cdc_stream (s\<lparr>ep_in := (ep_in s)[0 := e]\<rparr>) = cdc_stream s"
  by (simp_all add: usb_inv_def flight_def out_ok_def cdc_stream_def)

lemma configured_boot:
  "usb_inv (configured_sys (sys (boot place)))" "hid_state (configured_sys (sys (boot place))) = HID_STATE_IDLE"
  "out_ack (ep_out (configured_sys (sys (boot place))))" "in_mps (ep_in (configured_sys (sys (boot place))) ! 3) = 19"
  "cdc_stream (configured_sys (sys (boot place))) = []"
proof -
  have wf: "rb_wf (rt_ringbuffer_init (replicate 128 0) 128)" by (rule init_wf) simp_all
  show "usb_inv (configured_sys (sys (boot place)))" "hid_state (configured_sys (sys (boot place))) = HID_STATE_IDLE"
    "out_ack (ep_out (configured_sys (sys (boot place))))" "in_mps (ep_in (configured_sys (sys (boot place))) ! 3) = 19"
    "cdc_stream (configured_sys (sys (boot place))) = []"
    using wf by (simp_all add: boot_sel(6) configured_sys_def usbd_configure_done_callback_def usbd_ep_start_read_def
      usb_reset_def cdc_acm_hid_init_def closed_ep_def usb_inv_def ep1_ok_def ep_ok_def out_ok_def flight_def
      ends_full_def cdc_stream_def USB_BUFFER_SIZE_def)
qed

text \<open>
  C15: From power-on, wherever the linker puts the objects: after the bus reset, SET_ADDRESS and
  SET_CONFIGURATION the device has the address and is configured, and its endpoints, buffers and
  semaphore are in the state from which the telemetry stream and the joystick are proved correct.
\<close>

theorem enumeration_ready:
  assumes "place_ok place"
  shows "\<exists>c. run_irqs [Bus_reset, Setup_token (set_address_request a), In_token 0,
      Setup_token set_configuration_request, In_token 0] (boot place) = Some c \<and>
    core_ok c \<and> configured c \<and> usb_dev_ad c = a \<and> usb_inv (sys c) \<and> hid_state (sys c) = HID_STATE_IDLE \<and>
    out_ack (ep_out (sys c)) \<and> in_mps (ep_in (sys c) ! 3) = 19 \<and> cdc_stream (sys c) = []"
proof -
  obtain c1 where c1: "USBD_IRQHandler Bus_reset (boot place) = Some c1" "core_ok c1" "usb_dev_ad c1 = 0"
    "sys c1 = (sys (boot place))\<lparr>ep_in := (ep_in (sys (boot place)))[0 := closed_ep\<lparr>in_mps := 64, in_enable := True\<rparr>]\<rparr>"
    using boot_reset [OF assms] by blast
  obtain c2 where c2: "USBD_IRQHandler (Setup_token (set_address_request a)) c1 = Some c2" "core_ok c2"
    "dc_address c2 = a" "dc_setup c2 = set_address_request a"
    "usb_dev_ad c2 = (if a = 0 then usb_dev_ad c1 AND 0x80 else usb_dev_ad c1)"
    "\<exists>e. sys c2 = (sys c1)\<lparr>ep_in := (ep_in (sys c1))[0 := e]\<rparr>"
    using set_address_irq [OF c1(2), of a] by blast
  have a2: "usb_dev_ad c2 = 0" using c2(5) c1(3) by simp
  have t: "bmRequestType (dc_setup c2) = 0" "bRequest (dc_setup c2) = USB_REQUEST_SET_ADDRESS"
    by (simp_all add: c2(4) set_address_request_def)
  obtain c3 where c3: "USBD_IRQHandler (In_token 0) c2 = Some c3" "core_ok c3"
    "usb_dev_ad c3 = (if bRequest (dc_setup c2) = USB_REQUEST_SET_ADDRESS
       then (usb_dev_ad c2 AND 0x80) OR dc_address c2 else usb_dev_ad c2)"
    "\<exists>e. sys c3 = (sys c2)\<lparr>ep_in := (ep_in (sys c2))[0 := e]\<rparr>"
    using take_done [OF c2(2) t(1)] by blast
  have a3: "usb_dev_ad c3 = a" using c3(3) t(2) c2(3) a2 by simp
  let ?st = set_configuration_request
  have st: "bmRequestType ?st = 0" "bRequest ?st = USB_REQUEST_SET_CONFIGURATION" "wLength ?st = 0"
    "unat (wValue ?st) mod 256 = 1"
    by (simp_all add: set_configuration_request_def)
  obtain c4 e4 where c4: "USBD_IRQHandler (Setup_token ?st) c3 = Some c4" "core_ok c4" "configured c4"
    "usb_dev_ad c4 = usb_dev_ad c3" "dc_setup c4 = ?st"
    "sys c4 = (configured_sys (sys c3))\<lparr>ep_in := (ep_in (configured_sys (sys c3)))[0 := e4]\<rparr>"
    using set_configuration_irq [OF c3(2) st] by blast
  have t4: "bmRequestType (dc_setup c4) = 0" "bRequest (dc_setup c4) \<noteq> USB_REQUEST_SET_ADDRESS"
    by (simp_all add: c4(5) set_configuration_request_def request_defs)
  obtain c5 where c5: "USBD_IRQHandler (In_token 0) c4 = Some c5" "core_ok c5" "configured c5 = configured c4"
    "usb_dev_ad c5 = (if bRequest (dc_setup c4) = USB_REQUEST_SET_ADDRESS
       then (usb_dev_ad c4 AND 0x80) OR dc_address c4 else usb_dev_ad c4)"
    "\<exists>e. sys c5 = (sys c4)\<lparr>ep_in := (ep_in (sys c4))[0 := e]\<rparr>"
    using take_done [OF c4(2) t4(1)] by blast
  obtain e where e: "sys c3 = (sys (boot place))\<lparr>ep_in := (ep_in (sys (boot place)))[0 := e]\<rparr>"
    using c3(4) c2(6) c1(4) by auto
  obtain e' where "sys c5 = (configured_sys (sys (boot place)))
      \<lparr>ep_in := (ep_in (configured_sys (sys (boot place))))[0 := e']\<rparr>"
    using c5(5) unfolding c4(6) e configured_sys_0 by auto
  then have "usb_inv (sys c5)" "hid_state (sys c5) = HID_STATE_IDLE" "out_ack (ep_out (sys c5))"
    "in_mps (ep_in (sys c5) ! 3) = 19" "cdc_stream (sys c5) = []"
    using configured_boot [of place] by (simp_all add: usb_inv_0)
  moreover have "usb_dev_ad c5 = a" using c5(4) t4(2) c4(4) a3 by simp
  ultimately show ?thesis
    using c1(1) c2(1) c3(1) c4(1,3) c5(1-3) by simp
qed

section \<open>Sample states\<close>

text \<open>The descriptors lie off a word boundary, as they may.\<close>

definition sample_place :: "area \<Rightarrow> u32" where
  "sample_place a = (if a = Descriptors then 0x00010002 else 0x20003000)"

definition sample_core :: usbd_core where
  "sample_core = the (USBD_IRQHandler Bus_reset (boot sample_place))"

lemma sample_place_ok: "place_ok sample_place"
  by (simp add: place_ok_def sample_place_def)

lemma sample_core_ok: "core_ok sample_core"
  using boot_reset [OF sample_place_ok] unfolding sample_core_def by (metis option.sel)

theorem enumeration_ready_witness:
  "\<exists>c. run_irqs [Bus_reset, Setup_token (set_address_request 5), In_token 0,
      Setup_token set_configuration_request, In_token 0] (boot sample_place) = Some c \<and> usb_dev_ad c = 5"
  using enumeration_ready [OF sample_place_ok, of 5] by blast


definition get_configuration_descriptor :: usb_setup_packet where
  "get_configuration_descriptor =
     \<lparr>bmRequestType = 0x80, bRequest = USB_REQUEST_GET_DESCRIPTOR, wValue = 0x0200, wIndex = 0, wLength = 255\<rparr>"

theorem control_read_delivers_witness:
  "\<exists>ps c'. control_read 6 get_configuration_descriptor sample_core = Some (ps, c') \<and>
    concat (map snd ps) = concat config_descs"
proof -
  let ?st = get_configuration_descriptor
  have st: "bmRequestType ?st = 0x80" "bRequest ?st = USB_REQUEST_GET_DESCRIPTOR" "wLength ?st = 255"
    "unat (wValue ?st) div 256 = 2" "unat (wValue ?st) mod 256 = 0"
    by (simp_all add: get_configuration_descriptor_def)
  have l: "length (concat config_descs) = 100" by (simp add: config_descs_def cdc_acm_hid_list_def wide_string_def)
  have o: "offered 2 0 = Some (concat config_descs)" by (simp add: offered_def)
  show ?thesis
    using control_read_delivers [OF sample_core_ok st(1,2)] st l o by auto
qed

end
