(* ===== verification/UsbSafety.thy ===== *)
theory UsbSafety
  imports UsbConfig
begin

text \<open>
  Memory safety of the control endpoint against any host: the requests that make the device access
  memory outside its objects are exactly characterised, for the setup stage, the data stage of a read
  and the data stage of a write.
\<close>

section \<open>Answers\<close>

text \<open>A state in which a handler may leave the device: the data it offers exists.\<close>

definition answer_ok :: "usbd_core \<Rightarrow> bool" where
  "answer_ok c \<longleftrightarrow> core_ok c \<and> (ep0_data_buf c = (Req_data, 0) \<or>
     unat (ep0_data_buf_len c) \<le> length (ptr_bytes c (ep0_data_buf c)))"

lemma write_any:
  assumes "core_ok c" and "min (unat n) 64 \<le> length (ptr_bytes c p)"
  shows "\<exists>c'. ep0_start_write p n c = Some c' \<and> core_ok c'"
proof (cases "ptr_addr c p AND 3 = 0 \<and> (n \<noteq> 0 \<longrightarrow> ptr_addr c p \<noteq> 0)")
  case True
  then obtain c' where "ep0_start_write p n c = Some c'" "core_ok c'"
    using write_started [OF assms(1) _ _ assms(2)] by blast
  then show ?thesis by blast
next
  case False
  then have "\<exists>r. usbd_ep_start_write USB_CONTROL_IN_EP0 (ptr_addr c p) (ptr_bytes c p) n (sys c) = Some (r, sys c)"
    using core_okD(1,2) [OF assms(1)]
    by (auto simp: usbd_ep_start_write_def USB_CONTROL_IN_EP0_def USB_EP_GET_IDX_def arr_get_def)
  then have "ep0_start_write p n c = Some c" by (auto simp: ep0_start_write_def)
  then show ?thesis using assms(1) by simp
qed

lemma send_any:
  assumes "answer_ok c"
  shows "\<exists>c'. ep0_send_data st c = Some c' \<and> core_ok c'"
proof -
  have ok: "core_ok c" using assms by (simp add: answer_ok_def)
  let ?w = "ucast (wLength st) :: u32"
  let ?n = "min (ep0_data_buf_len c) ?w"
  let ?c = "c\<lparr>ep0_data_buf_residue := ?n\<rparr>"
  have len: "length (req_data c) = 256" using core_okD(7) [OF ok] .
  have bytes: "unat ?n \<le> length (ptr_bytes c (ep0_data_buf c)) \<or>
      ep0_data_buf c = (Req_data, 0) \<and> length (ptr_bytes c (ep0_data_buf c)) = 256"
    using assms len by (auto simp: answer_ok_def ptr_bytes_def area_bytes_def min_def word_le_nat_alt)
  show ?thesis
  proof (cases "ptr_addr c (ep0_data_buf c) AND 3 = 0")
    case True
    have "\<exists>c2. ep0_start_write (ep0_data_buf ?c) ?n ?c = Some c2 \<and> core_ok c2"
      by (rule write_any) (use ok bytes in auto)
    then show ?thesis using True by (auto simp: ep0_send_data_def Let_def)
  next
    case False
    have "ep0_data_buf c \<noteq> (Req_data, 0)" using False core_okD(8) [OF ok] by (auto simp: ptr_addr_def)
    then have b: "unat ?n \<le> length (ptr_bytes c (ep0_data_buf c))" using bytes by blast
    show ?thesis
    proof (cases "unat ?n > 256")
      case True
      then show ?thesis using False ok
        by (auto simp: ep0_send_data_def Let_def CONFIG_USBDEV_REQUEST_BUFFER_LEN_def)
    next
      case small: False
      let ?d = "take (unat ?n) (ptr_bytes c (ep0_data_buf c)) @ drop (unat ?n) (req_data c)"
      let ?c2 = "?c\<lparr>req_data := ?d, ep0_data_buf := (Req_data, 0)\<rparr>"
      have ok2: "core_ok ?c2" using ok b small len by (simp add: core_ok_def area_ok_def)
      have "\<exists>c3. ep0_start_write (ep0_data_buf ?c2) ?n ?c2 = Some c3 \<and> core_ok c3"
        by (rule write_any [OF ok2]) (use b small len in \<open>simp add: ptr_bytes_def area_bytes_def\<close>)
      then show ?thesis using False b small len
        by (auto simp: ep0_send_data_def Let_def CONFIG_USBDEV_REQUEST_BUFFER_LEN_def)
    qed
  qed
qed

lemma store_ok:
  assumes "core_ok c" and "ep0_data_buf c = (Req_data, 0)" and "length bs \<le> 256"
  shows "\<exists>d. store_data bs c = Some (c\<lparr>req_data := d\<rparr>) \<and> length d = 256"
  using assms core_okD(7) [OF assms(1)]
  by (intro exI [of _ "bs @ drop (length bs) (req_data c)"]) (simp add: store_data_def)

section \<open>SET_INTERFACE\<close>

lemma core_ok_ep:
  "core_ok c \<Longrightarrow> 0 < i \<Longrightarrow> core_ok (c\<lparr>sys := (sys c)\<lparr>ep_in := (ep_in (sys c))[i := e]\<rparr>\<rparr>)"
  "core_ok c \<Longrightarrow> core_ok (c\<lparr>sys := (sys c)\<lparr>ep_out := o'\<rparr>\<rparr>)"
  by (simp_all add: core_ok_def area_ok_def)

definition used_ep :: "u8 \<Rightarrow> bool" where
  "used_ep a \<longleftrightarrow> a = 0x81 \<or> a = 0x82 \<or> a = 0x83 \<or> a = 0x01"

lemma open_used:
  assumes "core_ok c" and "used_ep a"
  shows "\<exists>c'. core_ep_open a m c = Some (0, c') \<and> core_ok c' \<and> ep0_data_buf c' = ep0_data_buf c \<and>
    descriptors c' = descriptors c"
  using assms(2) core_ok_ep(1) [OF assms(1)] core_ok_ep(2) [OF assms(1)] unfolding used_ep_def
  by (elim disjE) (simp_all add: open_eqs [OF core_okD(1) [OF assms(1)]] open_in_def open_out_def)

lemma close_used:
  assumes "core_ok c" and "used_ep a"
  shows "\<exists>c'. usbd_ep_close a c = Some (0, c') \<and> core_ok c' \<and> ep0_data_buf c' = ep0_data_buf c \<and>
    descriptors c' = descriptors c"
  using assms(2) core_ok_ep(1) [OF assms(1)] core_ok_ep(2) [OF assms(1)] core_okD(1) [OF assms(1)] unfolding used_ep_def
  by (elim disjE) (simp_all add: usbd_ep_close_def USB_EP_GET_IDX_def Let_def set_in_def get_out_def set_out_def
      arr_get_def)

lemma set_intf_ok:
  assumes "list_all walkable ds" and "\<forall>x \<in> set ds. x ! 1 = 5 \<longrightarrow> used_ep (x ! 2)" and "core_ok c"
    and "descriptors c = pre @ concat ds @ [0]"
  shows "\<exists>r c'. set_intf_loop (pre @ concat ds @ [0]) iface alt (length pre) ca ci ret c = Some (r, c') \<and>
    core_ok c' \<and> ep0_data_buf c' = ep0_data_buf c"
  using assms
proof (induction ds arbitrary: pre ca ci ret c)
  case Nil
  then show ?case by (subst set_intf_loop.simps) (simp add: arr_get_def nth_append)
next
  case (Cons x xs)
  let ?d = "pre @ concat (x # xs) @ [0]"
  have x: "2 \<le> length x" "length x < 256" "x ! 0 = of_nat (length x)"
    "x ! 1 = 4 \<longrightarrow> 4 \<le> length x" "x ! 1 = 5 \<longrightarrow> 6 \<le> length x"
    using Cons.prems(1) by (simp_all add: walkable_def wf_desc_def)
  have get: "arr_get ?d (length pre + k) = Some (x ! k)" if "k < length x" for k
    using that by (auto simp: arr_get_def nth_append)
  have "0 < length x" using x(1) by linarith
  then have g0: "arr_get ?d (length pre) = Some (of_nat (length x))" using get [of 0] x(3) by simp
  have g1: "arr_get ?d (length pre + 1) = Some (x ! 1)" using get [of 1] x by simp
  have u: "unat (of_nat (length x) :: u8) = length x" using x(2) by (simp add: unat_of_nat)
  have nz: "(of_nat (length x) :: u8) \<noteq> 0" using u x(1) by auto
  have ih: "\<exists>r c2. set_intf_loop ?d iface alt (length pre + length x) ca' ci' r' c' = Some (r, c2) \<and>
      core_ok c2 \<and> ep0_data_buf c2 = ep0_data_buf c'"
    if "core_ok c'" "descriptors c' = ?d" for ca' ci' r' c'
    using Cons.IH [of c' "pre @ x" ca' ci' r'] Cons.prems(1,2) that by simp
  have step: "set_intf_loop ?d iface alt (length pre) ca ci ret c = do {
      (alt1, iface1, ret1, c1) \<leftarrow>
        (if x ! 1 = 4 then do { a \<leftarrow> arr_get ?d (length pre + 3); i \<leftarrow> arr_get ?d (length pre + 2);
                                Some (a, i, ret, c) }
         else if x ! 1 = 5 \<and> ci = iface then do {
           (r, c1) \<leftarrow> (if ca \<noteq> alt then usbd_reset_endpoint (length pre) c else usbd_set_endpoint (length pre) c);
           Some (ca, ci, r, c1) }
         else Some (ca, ci, ret, c));
      set_intf_loop ?d iface alt (length pre + length x) alt1 iface1 ret1 c1
    }"
    by (subst set_intf_loop.simps)
      (simp only: g0 g1 option.case bind.simps nz u usb_desc_types if_False refl numeral_eq_iff)
  have ep: "\<exists>r c1. (if ca \<noteq> alt then usbd_reset_endpoint (length pre) c else usbd_set_endpoint (length pre) c) = Some (r, c1) \<and>
      core_ok c1 \<and> ep0_data_buf c1 = ep0_data_buf c \<and> descriptors c1 = descriptors c" if "x ! 1 = 5"
  proof -
    have at: "ep_desc_at (descriptors c) (length pre) = Some (x ! 2, u16_of (x ! 4) (x ! 5))"
      using get [of 2] get [of 4] get [of 5] x(5) that Cons.prems(4) by (simp add: ep_desc_at_def)
    have us: "used_ep (x ! 2)" using Cons.prems(2) that by simp
    show ?thesis
      using open_used [OF Cons.prems(3) us, of "u16_of (x ! 4) (x ! 5) AND 0x7ff"] close_used [OF Cons.prems(3) us] at
      by (auto simp: usbd_reset_endpoint_def usbd_set_endpoint_def)
  qed
  consider "x ! 1 = 4" | "x ! 1 = 5" "ci = iface" | "x ! 1 \<noteq> 4" "\<not> (x ! 1 = 5 \<and> ci = iface)" by blast
  then show ?case
  proof cases
    case 1
    then show ?thesis unfolding step using get [of 3] get [of 2] x(4) ih [OF Cons.prems(3,4)] by simp
  next
    case 2
    obtain r c1 where "(if ca \<noteq> alt then usbd_reset_endpoint (length pre) c else usbd_set_endpoint (length pre) c) = Some (r, c1)"
      "core_ok c1" "ep0_data_buf c1 = ep0_data_buf c" "descriptors c1 = descriptors c" using ep [OF 2(1)] by blast
    then show ?thesis unfolding step using 2 ih [of c1 ca ci r] Cons.prems(4) by simp
  next
    case 3
    then show ?thesis unfolding step using ih [OF Cons.prems(3,4), of ca ci ret] by auto
  qed
qed

lemma set_interface_ok:
  assumes "core_ok c"
  shows "\<exists>r c'. usbd_set_interface iface alt c = Some (r, c') \<and> core_ok c' \<and> ep0_data_buf c' = ep0_data_buf c"
proof -
  have d: "descriptors c = [] @ concat cdc_acm_hid_list @ [0]"
    using core_okD(10) [OF assms] by (simp add: table_list)
  have u: "\<forall>x \<in> set cdc_acm_hid_list. x ! 1 = 5 \<longrightarrow> used_ep (x ! 2)"
    by (simp add: cdc_acm_hid_list_def used_ep_def)
  show ?thesis
    using set_intf_ok [OF table_walkable u assms d, of iface alt "0xFF" "0xFF" False] d
    by (auto simp: usbd_set_interface_def)
qed

section \<open>The handlers\<close>

text \<open>The two requests that reach outside an object.\<close>

definition overruns_line_coding :: "usb_setup_packet \<Rightarrow> bool" where
  "overruns_line_coding st \<longleftrightarrow> bmRequestType st AND 0x60 = 0x20 \<and> bmRequestType st AND 3 = 1 \<and>
     (LO_BYTE (wIndex st) = 0 \<or> LO_BYTE (wIndex st) = 1) \<and> bRequest st = 0x20 \<and> 7 < unat (wLength st)"

definition stalls_unknown :: "usb_setup_packet \<Rightarrow> usbd_core \<Rightarrow> bool" where
  "stalls_unknown st c \<longleftrightarrow> bmRequestType st AND 0x60 = 0 \<and> bmRequestType st AND 3 = 2 \<and>
     bRequest st = 3 \<and> wValue st = 0 \<and> configuration c \<noteq> 0 \<and> 7 < USB_EP_GET_IDX (ucast (wIndex st))"

definition handled :: "(bool \<times> usbd_core) option \<Rightarrow> bool" where
  "handled r \<longleftrightarrow> (case r of None \<Rightarrow> False | Some (ok, c') \<Rightarrow> answer_ok c')"

lemma store_handled:
  assumes "core_ok c" and "ep0_data_buf c = (Req_data, 0)" and "length bs \<le> 256"
  shows "handled (Option.bind (store_data bs c) (\<lambda>c1. Some (b, c1\<lparr>ep0_data_buf_len := n\<rparr>)))"
  using store_ok [OF assms] assms(2) core_ok_req [OF assms(1)]
  by (auto simp: handled_def answer_ok_def)

lemma set_res_ok:
  assumes "core_ok c" and "i < 8"
  shows "\<exists>c'. set_rx r i c = Some c' \<and> core_ok c' \<and> ep0_data_buf c' = ep0_data_buf c"
    "\<exists>c'. set_tx r i c = Some c' \<and> core_ok c' \<and> ep0_data_buf c' = ep0_data_buf c"
proof -
  note k = core_okD [OF assms(1)]
  show "\<exists>c'. set_rx r i c = Some c' \<and> core_ok c' \<and> ep0_data_buf c' = ep0_data_buf c"
    using assms k by (auto simp: set_rx_def get_out_def set_out_def arr_get_def core_ok_def area_ok_def)
  show "\<exists>c'. set_tx r i c = Some c' \<and> core_ok c' \<and> ep0_data_buf c' = ep0_data_buf c"
    using assms k by (cases "i = 0")
      (auto simp: set_tx_def set_in_def arr_get_def core_ok_def area_ok_def)
qed

lemma handled_if:
  "(b \<Longrightarrow> handled x) \<Longrightarrow> (\<not> b \<Longrightarrow> handled y) \<Longrightarrow> handled (if b then x else y)"
  by simp

lemma get_descriptor_handled:
  assumes "core_ok c" and "ep0_data_buf c = (Req_data, 0)"
  shows "handled (map_option (\<lambda>r. case r of None \<Rightarrow> (False, c)
      | Some (p, n) \<Rightarrow> (True, c\<lparr>ep0_data_buf := (Descriptors, p), ep0_data_buf_len := n\<rparr>))
      (usbd_get_descriptor (descriptors c) w))"
proof -
  obtain res where "usbd_get_descriptor cdc_acm_hid_descriptor w = Some res"
    "case res of None \<Rightarrow> True | Some (p, n) \<Rightarrow> p + unat n < length cdc_acm_hid_descriptor \<and> 0 < unat n"
    using get_descriptor_correct [of w] by blast
  then show ?thesis using assms core_okD(10) [OF assms(1)]
    by (cases res) (auto simp: handled_def answer_ok_def ptr_bytes_def area_bytes_def)
qed

lemma set_configuration_handled:
  assumes "core_ok c" and "ep0_data_buf c = (Req_data, 0)"
  shows "handled (do {
        let v = value AND 0xFF;
        (ok, c1) \<leftarrow> usbd_set_configuration (ucast v) 0 c;
        Some (if \<not> ok then (False, c1\<lparr>ep0_data_buf_len := 0\<rparr>)
              else let c2 = c1\<lparr>configuration := ucast v, configured := True\<rparr>;
                       c3 = usbd_class_event_notify_handler USBD_EVENT_CONFIGURED c2
                   in (True, c3\<lparr>sys := usbd_configure_done_callback (sys c3), ep0_data_buf_len := 0\<rparr>))
      })"
proof -
  have "core_ok ((opened c)\<lparr>configuration := 1, configured := True,
      sys := usbd_configure_done_callback (sys (opened c))\<rparr>)"
    using opened_ok(1) [OF assms(1)] by (simp add: core_ok_def area_ok_def)
  then show ?thesis
    using opened_ok [OF assms(1)] assms set_configuration_eq [OF assms(1), of "ucast (value AND 0xFF)"]
    by (simp add: handled_def answer_ok_def Let_def)
qed

lemma device_handled:
  assumes "core_ok c" and "ep0_data_buf c = (Req_data, 0)"
  shows "handled (usbd_std_device_req_handler st c)"
  unfolding usbd_std_device_req_handler_def Let_def
proof (intro handled_if)
  show "handled (store_data [0, 0] c \<bind> (\<lambda>c1. Some (True, c1\<lparr>ep0_data_buf_len := 2\<rparr>)))"
    by (rule store_handled [OF assms]) simp
  show "handled (Some (True, (usbd_set_address (ucast (wValue st)) c)\<lparr>ep0_data_buf_len := 0\<rparr>))"
    using assms by (simp add: handled_def answer_ok_def usbd_set_address_def)
  show "handled (map_option (\<lambda>r. case r of None \<Rightarrow> (False, c)
      | Some (p, n) \<Rightarrow> (True, c\<lparr>ep0_data_buf := (Descriptors, p), ep0_data_buf_len := n\<rparr>))
      (usbd_get_descriptor (descriptors c) (wValue st)))"
    by (rule get_descriptor_handled [OF assms])
  show "handled (Some (True, c\<lparr>ep0_data_buf := (Configuration_byte, 0), ep0_data_buf_len := 1\<rparr>))"
    using assms by (simp add: handled_def answer_ok_def ptr_bytes_def area_bytes_def)
qed ((rule set_configuration_handled [OF assms, unfolded Let_def] | simp add: handled_def answer_ok_def assms)+)

lemma interface_handled:
  assumes "core_ok c" and "ep0_data_buf c = (Req_data, 0)"
  shows "handled (usbd_std_interface_req_handler st c)"
  unfolding usbd_std_interface_req_handler_def Let_def
proof (intro handled_if)
  show "handled (store_data [0, 0] c \<bind> (\<lambda>c1. Some (True, c1\<lparr>ep0_data_buf_len := 2\<rparr>)))"
    "handled (store_data [0] c \<bind> (\<lambda>c1. Some (True, c1\<lparr>ep0_data_buf_len := 1\<rparr>)))"
    by (rule store_handled [OF assms], simp)+
  show "handled (case find (\<lambda>i. intf_num i = LO_BYTE (wIndex st)) (usbd_intf_head c) of
      Some i \<Rightarrow> Some (True, c\<lparr>ep0_data_buf := (hid_report_descriptor i, 0),
        ep0_data_buf_len := hid_report_descriptor_len i\<rparr>)
    | None \<Rightarrow> Some (False, c))"
    using assms core_okD(11) [OF assms(1)]
    by (simp add: intf_table_def handled_def answer_ok_def ptr_bytes_def area_bytes_def hid_joystick_report_desc_def)
  show "handled (usbd_set_interface (ucast (wIndex st)) (ucast (wValue st)) c \<bind>
      (\<lambda>(r, c1). Some (True, c1\<lparr>ep0_data_buf_len := 0\<rparr>)))"
    using set_interface_ok [OF assms(1), of "ucast (wIndex st)" "ucast (wValue st)"] assms(2)
    by (auto simp: handled_def answer_ok_def)
qed (use assms in \<open>simp_all add: handled_def answer_ok_def\<close>)

lemma endpoint_handled:
  assumes "core_ok c" and "ep0_data_buf c = (Req_data, 0)" and "\<not> 7 < USB_EP_GET_IDX (ucast (wIndex st)) \<or>
    bRequest st \<noteq> 3 \<or> wValue st \<noteq> 0 \<or> configuration c = 0"
  shows "handled (usbd_std_endpoint_req_handler st c)"
proof -
  have cl: "handled (usbd_ep_clear_stall ep c \<bind> (\<lambda>(r, c1). Some (True, c1)))" for ep
  proof -
    have r: "handled (map_option (Pair (0 :: int)) (set_rx r i c) \<bind> (\<lambda>(r, c1). Some (True, c1)))"
      "handled (map_option (Pair (0 :: int)) (set_tx r i c) \<bind> (\<lambda>(r, c1). Some (True, c1)))" if "i < 8" for r i
      using set_res_ok [OF assms(1) that, of r] assms(2) by (auto simp: handled_def answer_ok_def)
    show ?thesis using r [of 1] r [of 2] assms(1,2)
      by (simp add: usbd_ep_clear_stall_def) (simp add: handled_def answer_ok_def)
  qed
  have st: "handled (usbd_ep_set_stall ep c \<bind> (\<lambda>c1. Some (True, c1\<lparr>ep0_data_buf_len := 0\<rparr>)))"
    if "\<not> 7 < USB_EP_GET_IDX ep" for ep
  proof -
    have i: "USB_EP_GET_IDX ep < 8" using that by linarith
    obtain c1 where c1: "set_rx RES_STALL (USB_EP_GET_IDX ep) c = Some c1" "core_ok c1" "ep0_data_buf c1 = (Req_data, 0)"
      using set_res_ok(1) [OF assms(1) i] assms(2) by metis
    obtain c2 where "set_tx RES_STALL (USB_EP_GET_IDX ep) c1 = Some c2" "core_ok c2" "ep0_data_buf c2 = (Req_data, 0)"
      using set_res_ok(2) [OF c1(2) i] c1(3) by metis
    then show ?thesis using c1(1) by (simp add: usbd_ep_set_stall_def handled_def answer_ok_def)
  qed
  show ?thesis
    unfolding usbd_std_endpoint_req_handler_def Let_def
  proof (intro handled_if)
    show "handled (store_data [0, 0] c \<bind> (\<lambda>c1. Some (True, c1\<lparr>ep0_data_buf_len := 2\<rparr>)))"
      by (rule store_handled [OF assms(1,2)]) simp
    show "handled (usbd_ep_clear_stall (ucast (wIndex st)) c \<bind> (\<lambda>(r, c1). Some (True, c1)))" by (rule cl)
  next
    assume "\<not> \<not> is_device_configured c" "bRequest st = USB_REQUEST_SET_FEATURE" "wValue st = USB_FEATURE_ENDPOINT_HALT"
    then show "handled (usbd_ep_set_stall (ucast (wIndex st)) c \<bind> (\<lambda>c1. Some (True, c1\<lparr>ep0_data_buf_len := 0\<rparr>)))"
      using assms(3) by (intro st) (simp add: is_device_configured_def request_defs)
  qed (use assms in \<open>simp_all add: handled_def answer_ok_def\<close>)
qed

definition answered :: "(int \<times> usbd_core) option \<Rightarrow> (bool \<times> usbd_core) option" where
  "answered r = map_option (\<lambda>(r, c1). (\<not> r < 0, c1)) r"

lemma store_answered:
  assumes "core_ok c" and "ep0_data_buf c = (Req_data, 0)" and "length bs \<le> 256"
  shows "handled (answered (Option.bind (store_data bs c) (\<lambda>c1. Some (r, c1\<lparr>ep0_data_buf_len := n\<rparr>))))"
  using store_ok [OF assms] assms(2) core_ok_req [OF assms(1)]
  by (auto simp: handled_def answer_ok_def answered_def)

lemma answered_if: "answered (if b then x else y) = (if b then answered x else answered y)"
  by simp

lemma hid_handled:
  assumes "core_ok c" and "ep0_data_buf c = (Req_data, 0)"
  shows "handled (answered (hid_class_interface_request_handler st c))"
  unfolding hid_class_interface_request_handler_def Let_def answered_if
proof (intro handled_if store_answered [OF assms])
qed (use assms in \<open>simp_all add: handled_def answer_ok_def answered_def\<close>)

lemma cdc_handled:
  assumes "core_ok c" and "ep0_data_buf c = (Req_data, 0)"
    and "bRequest st = CDC_REQUEST_SET_LINE_CODING \<Longrightarrow> unat (wLength st) \<le> 7"
  shows "handled (answered (cdc_acm_class_interface_request_handler st c))"
  unfolding cdc_acm_class_interface_request_handler_def Let_def answered_if
proof (intro handled_if)
  show "handled (answered (Option.bind (store_data (line_coding_bytes usbd_cdc_acm_get_line_coding) c)
      (\<lambda>c1. Some (0, c1\<lparr>ep0_data_buf_len := 7\<rparr>))))"
    by (rule store_answered [OF assms(1,2)])
      (simp add: line_coding_bytes_def usbd_cdc_acm_get_line_coding_def u32_bytes_def)
  show "handled (answered (Some (0, c\<lparr>sys := usbd_cdc_acm_set_dtr (LO_BYTE (wIndex st)) (wValue st AND 1 \<noteq> 0) (sys c)\<rparr>)))"
    using assms(1,2) by (simp add: handled_def answered_def answer_ok_def usbd_cdc_acm_set_dtr_def core_ok_def area_ok_def)
next
  assume b: "bRequest st = CDC_REQUEST_SET_LINE_CODING"
  have "unat (wLength st) \<le> 7" by (rule assms(3) [OF b])
  then show "handled (answered (copy_to (replicate 7 0) 0 (ptr_bytes c (ep0_data_buf c)) 0 (unat (wLength st)) \<bind>
      (\<lambda>line_coding. Some (0, c))))"
    using assms(1,2) core_okD(7) [OF assms(1)]
    by (simp add: ptr_bytes_def area_bytes_def handled_def answered_def answer_ok_def)
qed (use assms in \<open>simp_all add: handled_def answer_ok_def answered_def\<close>)

lemma find_intf:
  "core_ok c \<Longrightarrow> find (\<lambda>i. intf_num i = k) (usbd_intf_head c) =
    (if k = 0 then Some (intf_table ! 0) else if k = 1 then Some (intf_table ! 1)
     else if k = 2 then Some (intf_table ! 2) else None)"
  by (simp add: core_okD(11)) (auto simp: intf_table_def)

lemma class_handled:
  assumes "core_ok c" and "ep0_data_buf c = (Req_data, 0)"
    and "bmRequestType st AND 3 = 1 \<Longrightarrow> LO_BYTE (wIndex st) = 0 \<or> LO_BYTE (wIndex st) = 1 \<Longrightarrow>
      bRequest st = 0x20 \<Longrightarrow> unat (wLength st) \<le> 7"
  shows "handled (answered (usbd_class_request_handler st c))"
proof (cases "bmRequestType st AND 3 = 1")
  case True
  have f: "handled (answered (Some (-1, c)))" using assms by (simp add: handled_def answered_def answer_ok_def)
  have h: "class_interface_handler (intf_table ! 0) = Cdc_acm" "class_interface_handler (intf_table ! 1) = Cdc_acm"
    "class_interface_handler (intf_table ! 2) = Hid" by (simp_all add: intf_table_def)
  show ?thesis
    using True assms(3) cdc_handled [OF assms(1,2), of st] hid_handled [OF assms(1,2), of st] f h
    by (simp add: usbd_class_request_handler_def find_intf [OF assms(1)] request_defs class_request_defs)
next
  case False
  then show ?thesis using assms(1,2)
    by (simp add: usbd_class_request_handler_def request_defs handled_def answered_def answer_ok_def)
qed

text \<open>A handler goes wrong exactly on the two requests.\<close>

lemma request_handled:
  assumes "core_ok c" and "ep0_data_buf c = (Req_data, 0)"
    and "\<not> overruns_line_coding st" and "\<not> stalls_unknown st c"
  shows "handled (usbd_setup_request_handler st c)"
proof -
  have c: "handled (answered (usbd_class_request_handler st c))" if "bmRequestType st AND 0x60 = 0x20"
    by (rule class_handled [OF assms(1,2)]) (use assms(3) that in \<open>auto simp: overruns_line_coding_def\<close>)
  have e: "handled (usbd_std_endpoint_req_handler st c)" if "bmRequestType st AND 0x60 = 0" "bmRequestType st AND 3 = 2"
    by (rule endpoint_handled [OF assms(1,2)]) (use assms(4) that in \<open>auto simp: stalls_unknown_def\<close>)
  have f: "handled (Some (False, c))" "handled (answered (Some (-1, c)))"
    using assms by (simp_all add: handled_def answered_def answer_ok_def)
  show ?thesis
    using c e f device_handled [OF assms(1,2), of st] interface_handled [OF assms(1,2), of st]
    by (simp add: usbd_setup_request_handler_def usbd_standard_request_handler_def request_defs
        usbd_vendor_request_handler_def answered_def Let_def)
qed

lemma request_fails:
  assumes "core_ok c" and "ep0_data_buf c = (Req_data, 0)" and "overruns_line_coding st \<or> stalls_unknown st c"
  shows "usbd_setup_request_handler st c = None"
  using assms(3)
proof
  assume o: "overruns_line_coding st"
  then have "class_interface_handler (intf_table ! unat (LO_BYTE (wIndex st))) = Cdc_acm"
    by (auto simp: overruns_line_coding_def intf_table_def)
  moreover have "cdc_acm_class_interface_request_handler st c = None"
    using o by (simp add: overruns_line_coding_def cdc_acm_class_interface_request_handler_def copy_to_def
        class_request_defs)
  ultimately show ?thesis using o
    by (auto simp: overruns_line_coding_def usbd_setup_request_handler_def usbd_class_request_handler_def
        find_intf [OF assms(1)] request_defs)
next
  assume st: "stalls_unknown st c"
  then have "7 < USB_EP_GET_IDX (ucast (wIndex st))" by (simp add: stalls_unknown_def)
  then have "get_out (USB_EP_GET_IDX (ucast (wIndex st))) c = None"
    using core_okD(6) [OF assms(1)] by (auto simp: get_out_def arr_get_def)
  then show ?thesis using st
    by (simp add: stalls_unknown_def usbd_setup_request_handler_def usbd_standard_request_handler_def
        usbd_std_endpoint_req_handler_def is_device_configured_def request_defs usbd_ep_set_stall_def set_rx_def)
qed

section \<open>Properties\<close>

lemma stall_any: "core_ok c \<Longrightarrow> \<exists>c'. usbd_ep_set_stall USB_CONTROL_IN_EP0 c = Some c' \<and> core_ok c'"
  using stall_ep0 by blast


section \<open>A read of an unanswered request\<close>

text \<open>Endpoint 0 is sending \<open>k\<close> bytes of \<open>req_data\<close> from the offset \<open>i\<close> on.\<close>

definition sending_req :: "nat \<Rightarrow> nat \<Rightarrow> usbd_core \<Rightarrow> bool" where
  "sending_req k i c \<longleftrightarrow> core_ok c \<and> in_ack (ep_in (sys c) ! 0) \<and> k < 2 ^ 32 \<and>
     in_xfer_len (ep_in (sys c) ! 0) = of_nat k \<and> in_actual (ep_in (sys c) ! 0) = 0 \<and>
     ep0_data_buf c = (Req_data, i) \<and> ep0_data_buf_residue c = of_nat k \<and>
     drop_bit 7 (bmRequestType (dc_setup c)) = 1"

lemma req_addr:
  assumes "core_ok c" and "i \<le> 256" and "i mod 4 = 0"
  shows "ptr_addr c (Req_data, i) AND 3 = 0" "ptr_addr c (Req_data, i) \<noteq> 0"
proof -
  have p: "0 < unat (area_addr c Req_data)" "unat (area_addr c Req_data) + 512 \<le> 2 ^ 32"
    using core_okD(9) [OF assms(1), of Req_data] by (simp_all add: area_ok_def)
  then have u: "unat (ptr_addr c (Req_data, i)) = unat (area_addr c Req_data) + i"
    using assms(2) by (simp add: ptr_addr_def unat_word_ariths unat_of_nat)
  show "ptr_addr c (Req_data, i) \<noteq> 0" using u p(1) by auto
  have "unat (area_addr c Req_data) mod 4 = 0" using core_okD(8) [OF assms(1)] by (simp add: aligned_iff)
  then show "ptr_addr c (Req_data, i) AND 3 = 0" unfolding aligned_iff u using assms(3) by presburger
qed

lemma req_irq:
  assumes "sending_req k i c" and "k > 64"
  shows "\<exists>c1. ep0_in_irq c = ep0_start_write (Req_data, i + 64) (of_nat (k - 64)) c1 \<and> core_ok c1 \<and>
    ep0_data_buf c1 = (Req_data, i + 64) \<and> ep0_data_buf_residue c1 = of_nat (k - 64) \<and>
    dc_setup c1 = dc_setup c"
proof -
  have s: "core_ok c" "in_xfer_len (ep_in (sys c) ! 0) = of_nat k" "in_actual (ep_in (sys c) ! 0) = 0" "k < 2 ^ 32"
    "ep0_data_buf c = (Req_data, i)" "ep0_data_buf_residue c = of_nat k" "drop_bit 7 (bmRequestType (dc_setup c)) = 1"
    using assms(1) by (simp_all add: sending_req_def)
  have "unat (of_nat m :: u32) = m" if "m < 2 ^ 32" for m using that by (simp add: unat_of_nat)
  then have "unat (of_nat (k - 64) :: u32) = k - 64" using s(4) by (meson diff_le_self le_less_trans)
  then have nz: "(of_nat (k - 64) :: u32) \<noteq> 0" using assms(2) by (metis unat_0 zero_less_diff less_numeral_extra(3))
  have m: "min k 64 = 64" using assms(2) by simp
  have r: "(of_nat k - of_nat 64 :: u32) = of_nat (k - 64)" using assms(2) by (simp add: of_nat_diff)
  let ?x = "set_in 0 ((ep_in (sys c) ! 0)\<lparr>in_res := RES_NAK, in_xfer_len := of_nat (k - 64),
    in_actual := of_nat 64\<rparr>) (c\<lparr>t_tog := \<not> t_tog c\<rparr>)"
  let ?c1 = "?x\<lparr>ep0_data_buf := (Req_data, i + 64), ep0_data_buf_residue := of_nat (k - 64)\<rparr>"
  have x: "ep0_data_buf ?x = (Req_data, i)" "ep0_data_buf_residue ?x = of_nat k" using s by simp_all
  have u: "unat (of_nat 64 :: u32) = 64" by simp
  have "core_ok ?c1" using core_okD [OF s(1)] s(1) by (simp add: core_ok_in)
  moreover have "ep0_in_irq c = ep0_start_write (Req_data, i + 64) (of_nat (k - 64)) ?c1"
    unfolding in_irq_eq [OF s(1,7,2,4,3)] Let_def m ep0_in_complete_def x r u fst_conv snd_conv
    using nz by simp
  moreover have "ep0_data_buf ?c1 = (Req_data, i + 64)" "ep0_data_buf_residue ?c1 = of_nat (k - 64)"
    "dc_setup ?c1 = dc_setup c" by simp_all
  ultimately show ?thesis by blast
qed

lemma req_bytes: "core_ok c \<Longrightarrow> length (ptr_bytes c (Req_data, i)) = 256 - i"
  by (simp add: ptr_bytes_def area_bytes_def core_okD(7))

lemma req_more:
  assumes "sending_req k i c" and "k > 64" and "i + 128 \<le> 256" and "i mod 4 = 0"
  shows "\<exists>c'. ep0_in_irq c = Some c' \<and> sending_req (k - 64) (i + 64) c'"
proof -
  have k: "k < 2 ^ 32" "drop_bit 7 (bmRequestType (dc_setup c)) = 1" using assms(1) by (simp_all add: sending_req_def)
  obtain c1 where c1: "ep0_in_irq c = ep0_start_write (Req_data, i + 64) (of_nat (k - 64)) c1" "core_ok c1"
    "ep0_data_buf c1 = (Req_data, i + 64)" "ep0_data_buf_residue c1 = of_nat (k - 64)" "dc_setup c1 = dc_setup c"
    using req_irq [OF assms(1,2)] by blast
  have i: "i + 64 \<le> 256" "(i + 64) mod 4 = 0" using assms(3,4) by (simp, presburger)
  obtain c2 where c2: "ep0_start_write (Req_data, i + 64) (of_nat (k - 64)) c1 = Some c2" "core_ok c2"
    "in_ack (ep_in (sys c2) ! 0)" "in_xfer_len (ep_in (sys c2) ! 0) = of_nat (k - 64)"
    "in_actual (ep_in (sys c2) ! 0) = 0" "same_dev c1 c2" "ep0_data_buf c2 = ep0_data_buf c1"
    "ep0_data_buf_residue c2 = ep0_data_buf_residue c1"
  proof (rule write_started [OF c1(2) req_addr(1) [OF c1(2) i]])
    show "ptr_addr c1 (Req_data, i + 64) \<noteq> 0" by (rule req_addr(2) [OF c1(2) i])
    show "min (unat (of_nat (k - 64) :: u32)) 64 \<le> length (ptr_bytes c1 (Req_data, i + 64))"
      using assms(3) by (simp add: req_bytes [OF c1(2)])
  qed (rule that)
  have "dc_setup c2 = dc_setup c" using c2(6) c1(5) by (simp add: same_dev_def)
  moreover have "k - 64 < 2 ^ 32" using k(1) by simp
  ultimately have "sending_req (k - 64) (i + 64) c2" using c1(3,4) c2 k(2) by (simp add: sending_req_def del: of_nat_diff)
  then show ?thesis using c1(1) c2(1) by auto
qed

lemma req_overrun:
  assumes "sending_req k 192 c" and "k > 64"
  shows "ep0_in_irq c = None"
proof -
  have k: "k < 2 ^ 32" using assms(1) by (simp add: sending_req_def)
  obtain c1 where c1: "ep0_in_irq c = ep0_start_write (Req_data, 192 + 64) (of_nat (k - 64)) c1" "core_ok c1"
    using req_irq [OF assms] by blast
  have "unat (of_nat m :: u32) = m" if "m < 2 ^ 32" for m using that by (simp add: unat_of_nat)
  then have u: "unat (of_nat (k - 64) :: u32) = k - 64" using k by (meson diff_le_self le_less_trans)
  then have nz: "(of_nat (k - 64) :: u32) \<noteq> 0" using assms(2) by (metis unat_0 zero_less_diff less_numeral_extra(3))
  have cp: "copy_to e 0 (ptr_bytes c1 (Req_data, 256)) 0 (min (k - 64) 64) = None" for e
    using assms(2) by (auto simp: copy_to_def req_bytes [OF c1(2)])
  show ?thesis
    unfolding c1(1) using nz u core_okD(1-3) [OF c1(2)] req_addr [OF c1(2), of 256]
    by (simp add: ep0_start_write_def usbd_ep_start_write_def USB_CONTROL_IN_EP0_def USB_EP_GET_IDX_def
        arr_get_def Let_def cp del: of_nat_diff copy_to_Some)
qed

text \<open>
  A joystick request without an answer (SET_REPORT, SET_IDLE, SET_PROTOCOL) sent as a read of more
  than 256 bytes is accepted, and the fourth packet the host takes makes the device read behind its
  request buffer.
\<close>

theorem unanswered_read_overruns:
  assumes "core_ok c" and "bmRequestType st = 0xA1" and "bRequest st \<in> {0x09, 0x0A, 0x0B}"
    and "LO_BYTE (wIndex st) = 2" and "256 < unat (wLength st)"
  shows "\<exists>ps c'. control_read 3 st c = Some (ps, c') \<and> length ps = 3 \<and> control_read 4 st c = None"
proof -
  have bm: "bmRequestType st AND 0x80 = 0x80" using assms(2) by simp
  obtain c1 where c1: "ep0_setup_irq st c = respond st c1" "ready_for st c1" using setup_irq [OF assms(1)] bm by blast
  have ok: "core_ok c1" and b: "ep0_data_buf c1 = (Req_data, 0)" "ep0_data_buf_len c1 = ucast (wLength st)"
    "dc_setup c1 = st"
    using c1(2) by (simp_all add: ready_for_def)
  let ?k = "unat (wLength st)"
  have w: "?k < 65536" using unsigned_less [of "wLength st", where 'a = nat] by simp
  have h: "usbd_setup_request_handler st c1 = Some (True, c1)"
  proof -
    have "class_interface_handler (intf_table ! 2) = Hid" by (simp add: intf_table_def)
    then have "usbd_class_request_handler st c1 = Some (0, c1)"
      using assms(2-4) by (auto simp: usbd_class_request_handler_def find_intf [OF ok] request_defs
          hid_class_interface_request_handler_def class_request_defs Let_def)
    then show ?thesis using assms(2) by (simp add: usbd_setup_request_handler_def request_defs)
  qed
  have kw: "(of_nat ?k :: u32) = ucast (wLength st)" by simp
  have u: "unat (of_nat ?k :: u32) = ?k" using w by (simp only: unat_of_nat) simp
  let ?c = "c1\<lparr>ep0_data_buf_residue := of_nat ?k\<rparr>"
  have ok2: "core_ok ?c" using ok by simp
  obtain c2 where c2: "ep0_start_write (Req_data, 0) (of_nat ?k) ?c = Some c2" "core_ok c2"
    "in_ack (ep_in (sys c2) ! 0)" "in_xfer_len (ep_in (sys c2) ! 0) = of_nat ?k"
    "in_actual (ep_in (sys c2) ! 0) = 0" "same_dev ?c c2" "ep0_data_buf c2 = ep0_data_buf ?c"
    "ep0_data_buf_residue c2 = ep0_data_buf_residue ?c" "ep0_data_buf_len c2 = ep0_data_buf_len ?c"
  proof (rule write_started [OF ok2])
    show "ptr_addr ?c (Req_data, 0) AND 3 = 0" "ptr_addr ?c (Req_data, 0) \<noteq> 0"
      using req_addr [OF ok2, of 0] by simp_all
    show "min (unat (of_nat ?k :: u32)) 64 \<le> length (ptr_bytes ?c (Req_data, 0))"
      by (simp add: req_bytes [OF ok])
  qed (rule that)
  have s: "sending_req ?k 0 c2"
    using c2 b w assms(2) unfolding sending_req_def by (simp add: same_dev_def dir_in del: of_nat_unat)
  have "ep0_send_data st c1 = Some c2"
    using c2(1,9) b req_addr(1) [OF ok, of 0] unfolding kw by (simp add: ep0_send_data_def Let_def)
  then have su: "USBD_IRQHandler (Setup_token st) c = Some c2"
    using c1(1) h by (simp add: USBD_IRQHandler_def respond_def)
  have k: "64 < ?k" "64 < ?k - 64" "64 < ?k - 64 - 64" "64 < ?k - 64 - 64 - 64" using assms(5) by linarith+
  obtain c3 where c3: "ep0_in_irq c2 = Some c3" "sending_req (?k - 64) 64 c3"
    using req_more [OF s k(1)] by auto
  obtain c4 where c4: "ep0_in_irq c3 = Some c4" "sending_req (?k - 64 - 64) 128 c4"
    using req_more [OF c3(2) k(2)] by auto
  obtain c5 where c5: "ep0_in_irq c4 = Some c5" "sending_req (?k - 64 - 64 - 64) 192 c5"
    using req_more [OF c4(2) k(3)] by auto
  have c6: "ep0_in_irq c5 = None" by (rule req_overrun [OF c5(2) k(4)])
  have ack: "in_ack (ep_in (sys c2) ! 0)" "in_ack (ep_in (sys c3) ! 0)" "in_ack (ep_in (sys c4) ! 0)"
    "in_ack (ep_in (sys c5) ! 0)"
    using s c3(2) c4(2) c5(2) by (simp_all add: sending_req_def)
  have i: "USBD_IRQHandler (In_token 0) d = ep0_in_irq d" for d by (simp add: USBD_IRQHandler_def)
  show ?thesis using c3(1) c4(1) c5(1) c6 ack
    by (simp add: control_read_def su i numeral_eq_Suc)
qed

text \<open>Endpoint 0 receives into \<open>req_data\<close> at the offset \<open>i\<close>; \<open>w\<close> bytes were announced.\<close>

definition receiving :: "nat \<Rightarrow> nat \<Rightarrow> usbd_core \<Rightarrow> bool" where
  "receiving w i c \<longleftrightarrow> core_ok c \<and> ep0_out_buf c = Req_data \<and> out_xfer_off (ep0_out c) = i \<and>
     out_actual (ep0_out c) = 0 \<and> ep0_data_buf c = (Req_data, i) \<and>
     ep0_data_buf_residue c = of_nat w - of_nat i"

lemma start_read_req:
  assumes "core_ok c" and "ep0_data_buf c = (Req_data, i)" and "ep0_data_buf_residue c = of_nat w - of_nat i"
    and "i \<le> 256" and "i mod 4 = 0"
  shows "receiving w i (snd (ep0_start_read (Req_data, i) n c))"
  using assms core_okD(5) [OF assms(1)] ep0_read [OF assms(1) req_addr(1) [OF assms(1,4,5)] req_addr(2) [OF assms(1,4,5)]]
  by (simp add: receiving_def core_ok_out)

lemma receive_more:
  assumes "receiving w i c" and "i + 64 \<le> 256" and "i mod 4 = 0" and "0 < w" and "w < 64" and "length bs = 64"
  shows "\<exists>c'. ep0_out_irq bs c = Some c' \<and> receiving w (i + 64) c'"
proof -
  have r: "core_ok c" "ep0_out_buf c = Req_data" "out_xfer_off (ep0_out c) = i" "out_actual (ep0_out c) = 0"
    "ep0_data_buf c = (Req_data, i)" "ep0_data_buf_residue c = of_nat w - of_nat i"
    using assms(1) by (simp_all add: receiving_def)
  have l: "length (req_data c) = 256" using core_okD(7) [OF r(1)] .
  let ?d = "take i (req_data c) @ bs @ drop (i + 64) (req_data c)"
  let ?e = "(ep0_out c)\<lparr>out_actual := 64, out_xfer_len := out_xfer_len (ep0_out c) - 64\<rparr>"
  let ?c1 = "c\<lparr>r_tog := \<not> r_tog c, req_data := ?d, ep0_out := ?e\<rparr>"
  let ?c2 = "?c1\<lparr>ep0_data_buf := (Req_data, i + 64), ep0_data_buf_residue := of_nat w - of_nat (i + 64)\<rparr>"
  have cp: "copy_to (req_data c) i bs 0 64 = Some ?d" using l assms(2,6) by simp
  have ok: "core_ok ?c2" using r(1) l assms(2,6) core_okD(5) [OF r(1)] by (simp add: core_ok_def area_ok_def)
  have nz: "(of_nat w - of_nat (i + 64) :: u32) \<noteq> 0"
  proof
    assume "(of_nat w - of_nat (i + 64) :: u32) = 0"
    then have "(of_nat w :: u32) = of_nat (i + 64)" by simp
    moreover have "unat (of_nat w :: u32) = w" "unat (of_nat (i + 64) :: u32) = i + 64"
      using assms(2,5) by (simp_all only: unat_of_nat) simp_all
    ultimately have "w = i + 64" by metis
    then show False using assms(5) by simp
  qed
  have res: "(of_nat w - of_nat i - 64 :: u32) = of_nat w - of_nat (i + 64)" by simp
  have "ep0_out_irq bs c = Some (snd (ep0_start_read (Req_data, i + 64) (of_nat w - of_nat (i + 64)) ?c2))"
    using r cp nz assms(6) unfolding res [symmetric]
    by (auto simp: ep0_out_irq_def ep0_out_complete_def Let_def)
  moreover have "receiving w (i + 64) (snd (ep0_start_read (Req_data, i + 64) (of_nat w - of_nat (i + 64)) ?c2))"
    by (rule start_read_req [OF ok]) (use assms(2,3) in \<open>simp_all, presburger\<close>)
  ultimately show ?thesis by blast
qed

lemma receive_overrun:
  assumes "receiving w 256 c" and "length bs = 64"
  shows "ep0_out_irq bs c = None"
proof -
  have "copy_to (req_data c) 256 bs 0 64 = None"
    using assms core_okD(7) by (auto simp: receiving_def copy_to_def)
  then show ?thesis using assms by (simp add: receiving_def ep0_out_irq_def Let_def)
qed

text \<open>
  A write of at most 63 bytes during which the host sends full packets: the remaining count passes
  below zero, and the fifth packet is stored behind the request buffer.
\<close>

theorem long_write_overruns:
  assumes "core_ok c" and "bmRequestType st AND 0x80 = 0" and "0 < unat (wLength st)" and "unat (wLength st) < 64"
    and "length bs = 64"
  shows "\<exists>c4. run_irqs [Setup_token st, Out_token 0 bs, Out_token 0 bs, Out_token 0 bs, Out_token 0 bs] c = Some c4 \<and>
    run_irqs [Out_token 0 bs] c4 = None"
proof -
  have i: "USBD_IRQHandler (Out_token 0 bs) d = ep0_out_irq bs d" for d by (simp add: USBD_IRQHandler_def)
  have w: "0 < unat (wLength st)" "unat (wLength st) < 64" "wLength st \<noteq> 0" using assms(3,4) by auto
  obtain c1 where c1: "ep0_setup_irq st c = usbd_event_ep0_setup_complete_handler st c1" "core_ok c1"
    using setup_token [OF assms(1)] by blast
  let ?c2 = "c1\<lparr>core_setup := st, ep0_data_buf := (Req_data, 0), ep0_data_buf_residue := ucast (wLength st),
     ep0_data_buf_len := ucast (wLength st), zlp_flag := False\<rparr>"
  have "USBD_IRQHandler (Setup_token st) c = Some (snd (ep0_start_read (Req_data, 0) (ucast (wLength st)) ?c2))"
    unfolding USBD_IRQHandler_def using w assms(2)
    by (simp add: c1(1) usbd_event_ep0_setup_complete_handler_def request_defs
        CONFIG_USBDEV_REQUEST_BUFFER_LEN_def Let_def)
  moreover have "receiving (unat (wLength st)) 0 (snd (ep0_start_read (Req_data, 0) (ucast (wLength st)) ?c2))"
    by (rule start_read_req) (use c1(2) in simp_all)
  ultimately obtain c3 where c3: "USBD_IRQHandler (Setup_token st) c = Some c3" "receiving (unat (wLength st)) 0 c3"
    by blast
  obtain c4 where c4: "ep0_out_irq bs c3 = Some c4" "receiving (unat (wLength st)) 64 c4"
    using receive_more [OF c3(2) _ _ w(1,2) assms(5)] by auto
  obtain c5 where c5: "ep0_out_irq bs c4 = Some c5" "receiving (unat (wLength st)) 128 c5"
    using receive_more [OF c4(2) _ _ w(1,2) assms(5)] by auto
  obtain c6 where c6: "ep0_out_irq bs c5 = Some c6" "receiving (unat (wLength st)) 192 c6"
    using receive_more [OF c5(2) _ _ w(1,2) assms(5)] by auto
  obtain c7 where c7: "ep0_out_irq bs c6 = Some c7" "receiving (unat (wLength st)) 256 c7"
    using receive_more [OF c6(2) _ _ w(1,2) assms(5)] by auto
  show ?thesis
    using c3(1) c4(1) c5(1) c6(1) c7(1) receive_overrun [OF c7(2) assms(5)] by (simp add: i)
qed


theorem unanswered_read_overruns_witness:
  "control_read 4 \<lparr>bmRequestType = 0xA1, bRequest = 0x0A, wValue = 0, wIndex = 2, wLength = 300\<rparr>
     sample_core = None"
  using unanswered_read_overruns [OF sample_core_ok,
      of "\<lparr>bmRequestType = 0xA1, bRequest = 0x0A, wValue = 0, wIndex = 2, wLength = 300\<rparr>"]
  by (auto simp: LO_BYTE_def)

theorem long_write_overruns_witness:
  "\<exists>c4. run_irqs [Out_token 0 (replicate 64 0)] c4 = None"
  using long_write_overruns [OF sample_core_ok,
      of "\<lparr>bmRequestType = 0x21, bRequest = 0x20, wValue = 0, wIndex = 0, wLength = 7\<rparr>" "replicate 64 0"]
  by auto

end
