(* ===== verification/Clock.thy ===== *)
theory Clock
  imports Prelude
begin

text \<open>
  The clocks of the controller chip: the system clock (\<open>StdPeriphDriver/CH58x_sys.c\<close>) and the
  tick timer that drives the kernel (\<open>board/board.c\<close>), the 32 kHz clock and the real-time clock
  (\<open>StdPeriphDriver/CH58x_clk.c\<close>), started by \<open>drivers/drv_rtc.c\<close>.

  The registers are records. \<open>rtc_cycle\<close> and \<open>systick_cycle\<close> are what the register headers document
  of the counters: one period of their clock. A status bit that the code polls is a stream of the
  values the successive reads see. The unlocking writes around a protected register have no state.
\<close>

section \<open>System clock\<close>

datatype SYS_CLKTypeDef = CLK_SOURCE_LSI | CLK_SOURCE_LSE
  | CLK_SOURCE_HSE_16MHz | CLK_SOURCE_HSE_8MHz | CLK_SOURCE_HSE_6_4MHz | CLK_SOURCE_HSE_4MHz
  | CLK_SOURCE_HSE_2MHz | CLK_SOURCE_HSE_1MHz
  | CLK_SOURCE_PLL_80MHz | CLK_SOURCE_PLL_60MHz | CLK_SOURCE_PLL_48MHz | CLK_SOURCE_PLL_40MHz
  | CLK_SOURCE_PLL_36_9MHz | CLK_SOURCE_PLL_32MHz | CLK_SOURCE_PLL_30MHz | CLK_SOURCE_PLL_24MHz
  | CLK_SOURCE_PLL_20MHz | CLK_SOURCE_PLL_15MHz

fun clk_code :: "SYS_CLKTypeDef \<Rightarrow> u16" where
  "clk_code CLK_SOURCE_LSI = 0x00"
| "clk_code CLK_SOURCE_LSE = 0x01"
| "clk_code CLK_SOURCE_HSE_16MHz = 0x22"
| "clk_code CLK_SOURCE_HSE_8MHz = 0x24"
| "clk_code CLK_SOURCE_HSE_6_4MHz = 0x25"
| "clk_code CLK_SOURCE_HSE_4MHz = 0x28"
| "clk_code CLK_SOURCE_HSE_2MHz = 0x20 OR 16"
| "clk_code CLK_SOURCE_HSE_1MHz = 0x20 OR 0"
| "clk_code CLK_SOURCE_PLL_80MHz = 0x46"
| "clk_code CLK_SOURCE_PLL_60MHz = 0x48"
| "clk_code CLK_SOURCE_PLL_48MHz = 0x40 OR 10"
| "clk_code CLK_SOURCE_PLL_40MHz = 0x40 OR 12"
| "clk_code CLK_SOURCE_PLL_36_9MHz = 0x40 OR 13"
| "clk_code CLK_SOURCE_PLL_32MHz = 0x40 OR 15"
| "clk_code CLK_SOURCE_PLL_30MHz = 0x40 OR 16"
| "clk_code CLK_SOURCE_PLL_24MHz = 0x40 OR 20"
| "clk_code CLK_SOURCE_PLL_20MHz = 0x40 OR 24"
| "clk_code CLK_SOURCE_PLL_15MHz = 0x40 OR 0"

definition RB_CLK_SYS_MOD :: u16 where "RB_CLK_SYS_MOD = 0xC0"
definition RB_CLK_XT32M_PON :: u8 where "RB_CLK_XT32M_PON = 0x04"
definition RB_CLK_PLL_PON :: u8 where "RB_CLK_PLL_PON = 0x10"

record clk_regs =
  R16_CLK_SYS_CFG :: u16
  R8_HFCK_PWR_CTRL :: u8
  R8_PLL_CONFIG :: u8
  R8_FLASH_CFG :: u8
  R8_CK32K_CONFIG :: u8
  R8_XT32M_TUNE :: u8
  R8_XT32K_TUNE :: u8
  R16_INT32K_TUNE :: u16
  R8_OSC_CAL_CTRL :: u8

text \<open>The waits for the oscillators to settle only pass time.\<close>

definition SetSysClock :: "SYS_CLKTypeDef \<Rightarrow> clk_regs \<Rightarrow> clk_regs" where
  "SetSysClock sc r0 =
     (let r1 = r0\<lparr>R8_PLL_CONFIG := R8_PLL_CONFIG r0 AND NOT (push_bit 5 1)\<rparr>;
          r4 =
            (if clk_code sc AND 0x20 \<noteq> 0 then
               let r2 = (if R8_HFCK_PWR_CTRL r1 AND RB_CLK_XT32M_PON = 0
                         then r1\<lparr>R8_HFCK_PWR_CTRL := R8_HFCK_PWR_CTRL r1 OR RB_CLK_XT32M_PON\<rparr> else r1);
                   r3 = r2\<lparr>R16_CLK_SYS_CFG := push_bit 6 0 OR (clk_code sc AND 0x1f)\<rparr>
               in r3\<lparr>R8_FLASH_CFG := 0x51\<rparr>
             else if clk_code sc AND 0x40 \<noteq> 0 then
               let r2 = (if R8_HFCK_PWR_CTRL r1 AND RB_CLK_PLL_PON = 0
                         then r1\<lparr>R8_HFCK_PWR_CTRL := R8_HFCK_PWR_CTRL r1 OR RB_CLK_PLL_PON\<rparr> else r1);
                   r3 = r2\<lparr>R16_CLK_SYS_CFG := push_bit 6 1 OR (clk_code sc AND 0x1f)\<rparr>
               in if sc = CLK_SOURCE_PLL_80MHz then r3\<lparr>R8_FLASH_CFG := 0x02\<rparr>
                  else r3\<lparr>R8_FLASH_CFG := 0x52\<rparr>
             else r1\<lparr>R16_CLK_SYS_CFG := R16_CLK_SYS_CFG r1 OR RB_CLK_SYS_MOD\<rparr>)
      in r4\<lparr>R8_PLL_CONFIG := R8_PLL_CONFIG r4 OR push_bit 7 1\<rparr>)"

text \<open>The divisor field may be zero, which C does not divide by.\<close>

definition udiv :: "u32 \<Rightarrow> u16 \<Rightarrow> u32 option" where
  "udiv a d = (if d = 0 then None else Some (a div ucast d))"

definition GetSysClock :: "clk_regs \<Rightarrow> u32 option" where
  "GetSysClock r =
     (let rev = R16_CLK_SYS_CFG r AND 0xff
      in if rev AND 0x40 = push_bit 6 0 then udiv 32000000 (rev AND 0x1f)
         else if rev AND RB_CLK_SYS_MOD = push_bit 6 1 then udiv 480000000 (rev AND 0x1f)
         else Some 32000)"

section \<open>Tick timer\<close>

text \<open>
  The counter runs while \<open>STE\<close> is set; when it meets the compare value it raises the interrupt
  flag and, with \<open>STRE\<close>, starts again at zero. The interrupt is taken while the flag and the enable
  bit \<open>STIE\<close> are set.
\<close>

record systick_regs =
  CTLR :: u32
  SR :: u32
  CNT :: "64 word"
  CMP :: "64 word"

definition SysTick_CTLR_STRE :: u32 where "SysTick_CTLR_STRE = push_bit 3 1"
definition SysTick_CTLR_STIE :: u32 where "SysTick_CTLR_STIE = push_bit 1 1"
definition SysTick_CTLR_STE :: u32 where "SysTick_CTLR_STE = push_bit 0 1"

lemmas systick_bits = SysTick_CTLR_STRE_def SysTick_CTLR_STIE_def SysTick_CTLR_STE_def

definition SysTick_Config :: "u32 \<Rightarrow> systick_regs \<Rightarrow> systick_regs" where
  "SysTick_Config ticks s =
     (let s1 = s\<lparr>CTLR := 0\<rparr>; s2 = s1\<lparr>SR := 0\<rparr>; s3 = s2\<lparr>CNT := 0\<rparr>;
          s4 = s3\<lparr>CMP := ucast (ticks - 1)\<rparr>
      in s4\<lparr>CTLR := 0xF\<rparr>)"

definition SYS_GetSysTickCnt :: "systick_regs \<Rightarrow> u32" where
  "SYS_GetSysTickCnt s = ucast (CNT s)"

record board =
  clk :: clk_regs
  systick :: systick_regs
  rt_tick :: u32

text \<open>\<open>rt_hw_board_init\<close>, with the clock source of the board; none if it divides by zero.\<close>

definition board_init :: "SYS_CLKTypeDef \<Rightarrow> board \<Rightarrow> board option" where
  "board_init sc b =
     (let c = SetSysClock sc (clk b)
      in case GetSysClock c of None \<Rightarrow> None
         | Some hz \<Rightarrow> Some (b\<lparr>clk := c, systick := SysTick_Config (hz div of_nat RT_TICK_PER_SECOND) (systick b)\<rparr>))"

definition rt_hw_board_init :: "board \<Rightarrow> board option" where
  "rt_hw_board_init b = board_init CLK_SOURCE_PLL_80MHz b"

definition rx_rt_hw_board_init :: "board \<Rightarrow> board option" where
  "rx_rt_hw_board_init b = board_init CLK_SOURCE_PLL_60MHz b"

definition SysTick_Handler :: "board \<Rightarrow> board" where
  "SysTick_Handler b = b\<lparr>rt_tick := rt_tick b + 1, systick := (systick b)\<lparr>SR := 0\<rparr>\<rparr>"

definition systick_cycle :: "board \<Rightarrow> board" where
  "systick_cycle b =
     (let s = systick b;
          s1 = (if CTLR s AND SysTick_CTLR_STE = 0 then s
                else if CNT s = CMP s
                then s\<lparr>CNT := (if CTLR s AND SysTick_CTLR_STRE \<noteq> 0 then 0 else CNT s + 1), SR := 1\<rparr>
                else s\<lparr>CNT := CNT s + 1\<rparr>);
          b1 = b\<lparr>systick := s1\<rparr>
      in if SR s1 \<noteq> 0 \<and> CTLR s1 AND SysTick_CTLR_STIE \<noteq> 0 then SysTick_Handler b1 else b1)"

section \<open>The 32 kHz clock\<close>

definition RB_CLK_XT32K_PON :: u8 where "RB_CLK_XT32K_PON = 0x01"
definition RB_CLK_INT32K_PON :: u8 where "RB_CLK_INT32K_PON = 0x02"
definition RB_CLK_OSC32K_XT :: u8 where "RB_CLK_OSC32K_XT = 0x04"
definition RB_CLK_OSC32K_FILT :: u8 where "RB_CLK_OSC32K_FILT = 0x08"
definition RB_OSC_CNT_TOTAL :: u8 where "RB_OSC_CNT_TOTAL = 0x07"
definition RB_OSC_CNT_EN :: u8 where "RB_OSC_CNT_EN = 0x20"

lemmas ck32k_bits = RB_CLK_XT32K_PON_def RB_CLK_INT32K_PON_def RB_CLK_OSC32K_XT_def
  RB_CLK_OSC32K_FILT_def RB_OSC_CNT_TOTAL_def RB_OSC_CNT_EN_def

datatype LClk32KTypeDef = Clk32K_LSI | Clk32K_LSE

definition LClk32K_Select :: "LClk32KTypeDef \<Rightarrow> clk_regs \<Rightarrow> clk_regs" where
  "LClk32K_Select hc r =
     (let cfg = R8_CK32K_CONFIG r;
          cfg1 = (if hc = Clk32K_LSI then cfg AND NOT RB_CLK_OSC32K_XT else cfg OR RB_CLK_OSC32K_XT)
      in r\<lparr>R8_CK32K_CONFIG := cfg1\<rparr>)"

text \<open>The four tuning functions replace one field of their register by the code of the choice.\<close>

definition HSECFG_Current :: "u8 \<Rightarrow> clk_regs \<Rightarrow> clk_regs" where
  "HSECFG_Current c r = r\<lparr>R8_XT32M_TUNE := (R8_XT32M_TUNE r AND 0xfc) OR (c AND 0x03)\<rparr>"

definition HSECFG_Capacitance :: "u8 \<Rightarrow> clk_regs \<Rightarrow> clk_regs" where
  "HSECFG_Capacitance c r = r\<lparr>R8_XT32M_TUNE := (R8_XT32M_TUNE r AND 0x8f) OR push_bit 4 c\<rparr>"

definition LSECFG_Current :: "u8 \<Rightarrow> clk_regs \<Rightarrow> clk_regs" where
  "LSECFG_Current c r = r\<lparr>R8_XT32K_TUNE := (R8_XT32K_TUNE r AND 0xfc) OR (c AND 0x03)\<rparr>"

definition LSECFG_Capacitance :: "u8 \<Rightarrow> clk_regs \<Rightarrow> clk_regs" where
  "LSECFG_Capacitance c r = r\<lparr>R8_XT32K_TUNE := (R8_XT32K_TUNE r AND 0x0f) OR push_bit 4 c\<rparr>"

definition CAB_LSIFQ :: int where "CAB_LSIFQ = 32000"

text \<open>
  The calibration of the internal oscillator. \<open>osc k r\<close> is what the capture unit reports in its
  \<open>k\<close>-th measurement with the registers \<open>r\<close>: the count and the number of its overflows. The busy
  waits on the halt bit are the measurement. The results fit the C \<open>int\<close>, whose division
  truncates; none is a division by zero.
\<close>

type_synonym osc_meas = "nat \<Rightarrow> clk_regs \<Rightarrow> u16 \<times> u8"

definition osc_count :: "u16 \<times> u8 \<Rightarrow> int" where
  "osc_count m = uint (fst m AND 0x3FFF) + uint (snd m) * 0x3FFF"

definition coarse_target :: "int \<Rightarrow> int" where
  "coarse_target freq_sys = 2000 * (freq_sys div 1000) div CAB_LSIFQ"

definition coarse_window :: "int \<Rightarrow> int" where
  "coarse_window freq_sys = 37 * (freq_sys div 1000) div CAB_LSIFQ"

text \<open>\<open>((x * 2) / d + 1) / 2\<close>, away from zero for negative values.\<close>

definition half_rounded :: "int \<Rightarrow> int \<Rightarrow> int option" where
  "half_rounded x d = do {
     q \<leftarrow> c_div x d;
     c_div (if x > 0 then q + 1 else q - 1) 2
   }"

definition tune_add :: "int \<Rightarrow> clk_regs \<Rightarrow> clk_regs" where
  "tune_add x r = r\<lparr>R16_INT32K_TUNE := R16_INT32K_TUNE r + word_of_int x\<rparr>"

function coarse_loop :: "osc_meas \<Rightarrow> int \<Rightarrow> nat \<Rightarrow> clk_regs \<Rightarrow> (nat \<times> clk_regs) option" where
  "coarse_loop osc freq_sys retry r =
     (let cnt_offset = osc_count (osc retry r) - coarse_target freq_sys;
          w = coarse_window freq_sys
      in if (cnt_offset > - w \<and> cnt_offset < w) \<or> retry > 2 then Some (retry, r)
         else case half_rounded (cnt_offset * 2) w of None \<Rightarrow> None
              | Some x \<Rightarrow> coarse_loop osc freq_sys (retry + 1) (tune_add x r))"
  by pat_completeness auto
termination
  by (relation "measure (\<lambda>(osc, f, retry, r). 3 - retry)") auto

declare coarse_loop.simps [simp del]

definition fine_offset :: "int \<Rightarrow> nat \<Rightarrow> u16 \<times> u8 \<Rightarrow> int" where
  "fine_offset freq_sys cali_Lv m =
     osc_count m - 4000 * 2 ^ cali_Lv * (freq_sys div 1000000) div CAB_LSIFQ * 1000"

text \<open>The switches before the first measurement, and the count mode of the fine one.\<close>

definition calibration_begin :: "clk_regs \<Rightarrow> clk_regs" where
  "calibration_begin r0 =
     (let r1 = r0\<lparr>R8_CK32K_CONFIG := R8_CK32K_CONFIG r0 OR RB_CLK_OSC32K_FILT\<rparr>;
          r2 = r1\<lparr>R8_CK32K_CONFIG := R8_CK32K_CONFIG r1 AND NOT RB_CLK_OSC32K_FILT\<rparr>;
          r3 = r2\<lparr>R8_XT32K_TUNE := (R8_XT32K_TUNE r2 AND NOT 3) OR 1\<rparr>;
          r4 = r3\<lparr>R8_OSC_CAL_CTRL := (R8_OSC_CAL_CTRL r3 AND NOT RB_OSC_CNT_TOTAL) OR 1\<rparr>
      in r4\<lparr>R8_OSC_CAL_CTRL := R8_OSC_CAL_CTRL r4 OR RB_OSC_CNT_EN\<rparr>)"

definition fine_mode :: "nat \<Rightarrow> clk_regs \<Rightarrow> clk_regs" where
  "fine_mode cali_Lv r =
     r\<lparr>R8_OSC_CAL_CTRL := (R8_OSC_CAL_CTRL r AND NOT RB_OSC_CNT_TOTAL) OR of_nat cali_Lv\<rparr>"

definition Calibration_LSI :: "osc_meas \<Rightarrow> nat \<Rightarrow> clk_regs \<Rightarrow> clk_regs option" where
  "Calibration_LSI osc cali_Lv r0 = do {
     hz \<leftarrow> GetSysClock r0;
     let freq_sys = uint hz;
     (k, r1) \<leftarrow> coarse_loop osc freq_sys 0 (calibration_begin r0);
     let r2 = fine_mode cali_Lv r1;
     let cnt_offset = fine_offset freq_sys cali_Lv (osc (k + 1) r2);
     x \<leftarrow> half_rounded (cnt_offset * (3200 div 2 ^ cali_Lv)) (1366 * (freq_sys div 1000) div CAB_LSIFQ);
     let r3 = tune_add (x * 2 ^ 5) r2;
     Some (r3\<lparr>R8_OSC_CAL_CTRL := R8_OSC_CAL_CTRL r3 AND NOT RB_OSC_CNT_EN\<rparr>)
   }"

definition Level_64 :: nat where "Level_64 = 4"

section \<open>The real-time clock\<close>

definition RB_RTC_TMR_CLR :: u8 where "RB_RTC_TMR_CLR = 0x10"
definition RB_RTC_TRIG_CLR :: u8 where "RB_RTC_TRIG_CLR = 0x20"
definition RB_RTC_TMR_FLAG :: u8 where "RB_RTC_TMR_FLAG = 0x40"
definition RB_RTC_TRIG_FLAG :: u8 where "RB_RTC_TRIG_FLAG = 0x80"
definition RB_RTC_TMR_MODE :: u8 where "RB_RTC_TMR_MODE = 0x07"
definition RB_RTC_TMR_EN :: u8 where "RB_RTC_TMR_EN = 0x10"
definition RB_RTC_TRIG_EN :: u8 where "RB_RTC_TRIG_EN = 0x20"
definition RB_RTC_LOAD_LO :: u8 where "RB_RTC_LOAD_LO = 0x40"
definition RB_RTC_LOAD_HI :: u8 where "RB_RTC_LOAD_HI = 0x80"

lemmas rtc_bits = RB_RTC_TMR_CLR_def RB_RTC_TRIG_CLR_def RB_RTC_TMR_FLAG_def RB_RTC_TRIG_FLAG_def
  RB_RTC_TMR_MODE_def RB_RTC_TMR_EN_def RB_RTC_TRIG_EN_def RB_RTC_LOAD_LO_def RB_RTC_LOAD_HI_def

record rtc_regs =
  R8_RTC_FLAG_CTRL :: u8
  R8_RTC_MODE_CTRL :: u8
  R32_RTC_TRIG :: u32
  R32_RTC_CNT_32K :: u32
  R32_RTC_CNT_DAY :: u32

definition R16_RTC_CNT_32K :: "rtc_regs \<Rightarrow> u16" where
  "R16_RTC_CNT_32K r = ucast (R32_RTC_CNT_32K r)"

definition R16_RTC_CNT_2S :: "rtc_regs \<Rightarrow> u16" where
  "R16_RTC_CNT_2S r = ucast (drop_bit 16 (R32_RTC_CNT_32K r))"

text \<open>
  One period of the 32 kHz clock. A load bit replaces the counting of its register and clears
  itself; the count of a day is \<open>MAX_2_SEC\<close> times \<open>2 ^ 16\<close>. The trigger flag rises when the
  count meets the trigger value.
\<close>

definition DAY_CYCLES :: u32 where "DAY_CYCLES = 0xA8C00000"

definition rtc_cycle :: "rtc_regs \<Rightarrow> rtc_regs" where
  "rtc_cycle r =
     (let m = R8_RTC_MODE_CTRL r;
          last = (R32_RTC_CNT_32K r = DAY_CYCLES - 1);
          cnt = (if m AND RB_RTC_LOAD_LO \<noteq> 0 then R32_RTC_TRIG r
                 else if last then 0 else R32_RTC_CNT_32K r + 1);
          day = (if m AND RB_RTC_LOAD_HI \<noteq> 0 then R32_RTC_TRIG r AND 0x3FFF
                 else if last \<and> m AND RB_RTC_LOAD_LO = 0 then (R32_RTC_CNT_DAY r + 1) AND 0x3FFF
                 else R32_RTC_CNT_DAY r);
          flag = (if m AND RB_RTC_TRIG_EN \<noteq> 0 \<and> cnt = R32_RTC_TRIG r
                  then R8_RTC_FLAG_CTRL r OR RB_RTC_TRIG_FLAG else R8_RTC_FLAG_CTRL r)
      in r\<lparr>R32_RTC_CNT_32K := cnt, R32_RTC_CNT_DAY := day,
           R8_RTC_MODE_CTRL := m AND NOT (RB_RTC_LOAD_LO OR RB_RTC_LOAD_HI),
           R8_RTC_FLAG_CTRL := flag\<rparr>)"

definition write_flag_ctrl :: "u8 \<Rightarrow> rtc_regs \<Rightarrow> rtc_regs" where
  "write_flag_ctrl v r =
     (let f0 = R8_RTC_FLAG_CTRL r;
          f1 = (if v AND RB_RTC_TMR_CLR \<noteq> 0 then f0 AND NOT RB_RTC_TMR_FLAG else f0);
          f2 = (if v AND RB_RTC_TRIG_CLR \<noteq> 0 then f1 AND NOT RB_RTC_TRIG_FLAG else f1)
      in r\<lparr>R8_RTC_FLAG_CTRL := f2\<rparr>)"

subsection \<open>Calendar macros\<close>

definition BEGYEAR :: nat where "BEGYEAR = 2020"

definition IsLeapYear :: "nat \<Rightarrow> bool" where
  "IsLeapYear yr \<longleftrightarrow> yr mod 400 = 0 \<or> (yr mod 100 \<noteq> 0 \<and> yr mod 4 = 0)"

definition YearLength :: "nat \<Rightarrow> nat" where
  "YearLength yr = (if IsLeapYear yr then 366 else 365)"

definition monthLength :: "bool \<Rightarrow> nat \<Rightarrow> nat" where
  "monthLength lpyr mon =
     (if mon = 1 then 28 + of_bool lpyr
      else if mon > 6 then (if odd mon then 31 else 30)
      else (if odd mon then 30 else 31))"

subsection \<open>Setting the clock\<close>

text \<open>The two loops that count the days; \<open>day\<close> is a \<open>uint16_t\<close>.\<close>

function count_years :: "nat \<Rightarrow> nat \<Rightarrow> nat" where
  "count_years year day =
     (if year > BEGYEAR then count_years (year - 1) ((day + YearLength (year - 1)) mod 2 ^ 16) else day)"
  by pat_completeness auto
termination
  by (relation "measure fst") auto

function count_months :: "bool \<Rightarrow> nat \<Rightarrow> nat \<Rightarrow> nat" where
  "count_months leap month day =
     (if month > 1 then count_months leap (month - 1) ((day + monthLength leap (month - 2)) mod 2 ^ 16)
      else day)"
  by pat_completeness auto
termination
  by (relation "measure (\<lambda>(l, m, d). m)") auto

declare count_years.simps [simp del] count_months.simps [simp del]

definition rtc_day :: "nat \<Rightarrow> nat \<Rightarrow> nat \<Rightarrow> u16" where
  "rtc_day y mon d = of_nat (count_months (IsLeapYear y) mon (count_years y 0)) + of_nat d - 1"

definition rtc_count :: "nat \<Rightarrow> nat \<Rightarrow> nat \<Rightarrow> u32" where
  "rtc_count h m s =
     (let sec2 = (of_nat (h mod 24 * 1800 + m * 30 + s div 2) :: u16);
          t32k = (if odd s then 0x8000 else 0 :: u16)
      in push_bit 16 (ucast sec2) OR ucast t32k)"

text \<open>
  \<open>do clk_pin = read; while (clk_pin != read);\<close> on the clock pin: the value and the number of the
  next read. Then the outer loop of \<open>RTC_InitTime\<close>, and the one of \<open>RTC_SetCycle32k\<close>.
\<close>

partial_function (option) stable_read :: "(nat \<Rightarrow> 'v) \<Rightarrow> nat \<Rightarrow> ('v \<times> nat) option" where
  "stable_read read n =
     (if read n = read (n + 1) then Some (read n, n + 2) else stable_read read (n + 2))"

partial_function (option) wait_pin :: "(nat \<Rightarrow> bool) \<Rightarrow> nat \<Rightarrow> nat option" where
  "wait_pin pin n =
     (case stable_read pin n of None \<Rightarrow> None
      | Some (clk_pin, n1) \<Rightarrow> if \<not> clk_pin then wait_pin pin n1 else Some n1)"

partial_function (option) wait_pin_high :: "(nat \<Rightarrow> bool) \<Rightarrow> nat \<Rightarrow> nat option" where
  "wait_pin_high pin n =
     (if pin n \<noteq> pin (n + 1) \<or> \<not> pin n then wait_pin_high pin (n + 2) else Some (n + 2))"

text \<open>
  The loop on the day counter: the processor is much faster than the 32 kHz clock, so at most one
  period ends between two reads; the list tells before which reads one does. None is a loop that
  has not ended after them.
\<close>

fun wait_day :: "bool list \<Rightarrow> rtc_regs \<Rightarrow> rtc_regs option" where
  "wait_day [] r = None"
| "wait_day (edge # es) r =
     (let r1 = (if edge then rtc_cycle r else r)
      in if R32_RTC_TRIG r1 AND 0x3FFF \<noteq> R32_RTC_CNT_DAY r1 AND 0x3FFF then wait_day es r1
         else Some r1)"

definition RTC_InitTime ::
  "(nat \<Rightarrow> bool) \<Rightarrow> bool list \<Rightarrow> nat \<Rightarrow> nat \<Rightarrow> nat \<Rightarrow> nat \<Rightarrow> nat \<Rightarrow> nat \<Rightarrow> rtc_regs \<Rightarrow> rtc_regs option" where
  "RTC_InitTime pin edges y mon d h m s r = do {
     let day = rtc_day y mon d;
     let t = rtc_count h m s;
     n \<leftarrow> wait_pin pin 0;
     let r1 = r\<lparr>R32_RTC_TRIG := ucast day\<rparr>;
     let r2 = r1\<lparr>R8_RTC_MODE_CTRL := R8_RTC_MODE_CTRL r1 OR RB_RTC_LOAD_HI\<rparr>;
     r3 \<leftarrow> wait_day edges r2;
     let r4 = r3\<lparr>R32_RTC_TRIG := t\<rparr>;
     Some (r4\<lparr>R8_RTC_MODE_CTRL := R8_RTC_MODE_CTRL r4 OR RB_RTC_LOAD_LO\<rparr>)
   }"

subsection \<open>Reading the clock\<close>

function get_year :: "nat \<Rightarrow> nat \<Rightarrow> nat \<times> nat" where
  "get_year day py =
     (if day \<ge> YearLength py then get_year (day - YearLength py) ((py + 1) mod 2 ^ 16) else (day, py))"
  by pat_completeness auto
termination
  by (relation "measure fst") (auto simp: YearLength_def)

function get_month :: "bool \<Rightarrow> nat \<Rightarrow> nat \<Rightarrow> nat \<times> nat" where
  "get_month leap day pmon =
     (if day \<ge> monthLength leap pmon
      then get_month leap (day - monthLength leap pmon) ((pmon + 1) mod 2 ^ 16) else (day, pmon))"
  by pat_completeness auto
termination
  by (relation "measure (\<lambda>(l, d, m). d)") (auto simp: monthLength_def)

declare get_year.simps [simp del] get_month.simps [simp del]

record civil =
  py :: nat
  pmon :: nat
  pd :: nat
  ph :: nat
  pm :: nat
  ps :: nat

text \<open>
  The three counters are read one after the other: \<open>r1\<close>, \<open>r2\<close> and \<open>r3\<close> are the clock at those
  moments.
\<close>

definition RTC_GetTime :: "rtc_regs \<Rightarrow> rtc_regs \<Rightarrow> rtc_regs \<Rightarrow> civil" where
  "RTC_GetTime r1 r2 r3 =
     (let day = R32_RTC_CNT_DAY r1 AND 0x3FFF;
          sec2 = R16_RTC_CNT_2S r2;
          t32k = R16_RTC_CNT_32K r3;
          t = unat sec2 * 2 + (if t32k < 0x8000 then 0 else 1);
          (day1, y) = get_year (unat day) BEGYEAR;
          (day2, mon) = get_month (IsLeapYear y) day1 0
      in \<lparr>py = y, pmon = mon + 1, pd = day2 + 1, ph = t div 3600, pm = t mod 3600 div 60, ps = t mod 60\<rparr>)"

subsection \<open>Cycles, modes and flags\<close>

definition RTC_SetCycle32k :: "(nat \<Rightarrow> bool) \<Rightarrow> u32 \<Rightarrow> rtc_regs \<Rightarrow> rtc_regs option" where
  "RTC_SetCycle32k pin cyc r = do {
     n \<leftarrow> wait_pin_high pin 0;
     let r1 = r\<lparr>R32_RTC_TRIG := cyc\<rparr>;
     Some (r1\<lparr>R8_RTC_MODE_CTRL := R8_RTC_MODE_CTRL r1 OR RB_RTC_LOAD_LO\<rparr>)
   }"

text \<open>\<open>cnt k\<close> is the counter at its \<open>k\<close>-th read.\<close>

definition RTC_GetCycle32k :: "(nat \<Rightarrow> u32) \<Rightarrow> u32 option" where
  "RTC_GetCycle32k cnt = map_option fst (stable_read cnt 0)"

definition RTC_TMRFunCfg :: "u8 \<Rightarrow> rtc_regs \<Rightarrow> rtc_regs" where
  "RTC_TMRFunCfg t r =
     (let r1 = r\<lparr>R8_RTC_MODE_CTRL := R8_RTC_MODE_CTRL r AND NOT (RB_RTC_TMR_EN OR RB_RTC_TMR_MODE)\<rparr>
      in r1\<lparr>R8_RTC_MODE_CTRL := R8_RTC_MODE_CTRL r1 OR (RB_RTC_TMR_EN OR t)\<rparr>)"

definition RTC_TRIGFunCfg :: "(nat \<Rightarrow> u32) \<Rightarrow> u32 \<Rightarrow> rtc_regs \<Rightarrow> rtc_regs option" where
  "RTC_TRIGFunCfg cnt cyc r = do {
     c \<leftarrow> RTC_GetCycle32k cnt;
     let t = c + cyc;
     let t1 = (if t > 0xA8C00000 then t - 0xA8C00000 else t);
     let r1 = r\<lparr>R32_RTC_TRIG := t1\<rparr>;
     Some (r1\<lparr>R8_RTC_MODE_CTRL := R8_RTC_MODE_CTRL r1 OR RB_RTC_TRIG_EN\<rparr>)
   }"

datatype RTC_MODETypeDef = RTC_TRIG_MODE | RTC_TMR_MODE
datatype RTC_EVENTTypeDef = RTC_TRIG_EVENT | RTC_TMR_EVENT

definition RTC_ModeFunDisable :: "RTC_MODETypeDef \<Rightarrow> rtc_regs \<Rightarrow> rtc_regs" where
  "RTC_ModeFunDisable m r =
     (let i = (0 :: u8);
          i1 = (if m = RTC_TRIG_MODE then i OR RB_RTC_TRIG_EN
                else if m = RTC_TMR_MODE then i OR RB_RTC_TMR_EN else i)
      in r\<lparr>R8_RTC_MODE_CTRL := R8_RTC_MODE_CTRL r AND NOT i1\<rparr>)"

definition RTC_GetITFlag :: "RTC_EVENTTypeDef \<Rightarrow> rtc_regs \<Rightarrow> u8" where
  "RTC_GetITFlag f r =
     (if f = RTC_TRIG_EVENT then R8_RTC_FLAG_CTRL r AND RB_RTC_TRIG_FLAG
      else R8_RTC_FLAG_CTRL r AND RB_RTC_TMR_FLAG)"

fun RTC_ClearITFlag :: "RTC_EVENTTypeDef \<Rightarrow> rtc_regs \<Rightarrow> rtc_regs" where
  "RTC_ClearITFlag RTC_TRIG_EVENT r = write_flag_ctrl RB_RTC_TRIG_CLR r"
| "RTC_ClearITFlag RTC_TMR_EVENT r = write_flag_ctrl RB_RTC_TMR_CLR r"

section \<open>The driver of the real-time clock\<close>

text \<open>\<open>drivers/drv_rtc.c\<close>, the same file on both boards.\<close>

record rtc_drv =
  regs :: rtc_regs
  RTCTigFlag :: u32

definition RTC_SetTignTime :: "u32 \<Rightarrow> rtc_drv \<Rightarrow> rtc_drv" where
  "RTC_SetTignTime time d =
     (let d1 = d\<lparr>regs := (regs d)\<lparr>R32_RTC_TRIG := time\<rparr>\<rparr> in d1\<lparr>RTCTigFlag := 0\<rparr>)"

definition RTC_IRQHandler :: "rtc_drv \<Rightarrow> rtc_drv" where
  "RTC_IRQHandler d =
     (let d1 = d\<lparr>regs := write_flag_ctrl (RB_RTC_TMR_CLR OR RB_RTC_TRIG_CLR) (regs d)\<rparr>
      in d1\<lparr>RTCTigFlag := 1\<rparr>)"

definition HAL_TimeInit ::
  "osc_meas \<Rightarrow> (nat \<Rightarrow> bool) \<Rightarrow> bool list \<Rightarrow> clk_regs \<Rightarrow> rtc_drv \<Rightarrow> (clk_regs \<times> rtc_drv) option" where
  "HAL_TimeInit osc pin edges c d = do {
     let c1 = c\<lparr>R8_CK32K_CONFIG := R8_CK32K_CONFIG c AND NOT (RB_CLK_OSC32K_XT OR RB_CLK_XT32K_PON)\<rparr>;
     let c2 = c1\<lparr>R8_CK32K_CONFIG := R8_CK32K_CONFIG c1 OR RB_CLK_INT32K_PON\<rparr>;
     c3 \<leftarrow> Calibration_LSI osc Level_64 c2;
     r \<leftarrow> RTC_InitTime pin edges 2020 1 1 0 0 0 (regs d);
     Some (c3, d\<lparr>regs := r\<rparr>)
   }"

end
