(* ===== verification/Hal.thy ===== *)
theory Hal
  imports Adc Clock Params RfLink
begin

text \<open>
  The hardware layer between the radio library and the boards: \<open>Firmware/drivers/HAL.c\<close> and
  \<open>Receiver/drivers/hal.c\<close>, and the part of both \<open>main\<close> functions that brings up the radio. The
  library is binary code: what the boards call of it is recorded, its initialisation is a function
  from the configuration to the status, and whether its version string is the one of the header is
  an input. The temperature callback is in the theory of the converter, which it shares.
\<close>

section \<open>Configuration of the library\<close>

datatype callback = CB_SYS_GetSysTickCnt | CB_HAL_GetInterTempValue | CB_Lib_Calibration_LSI
  | CB_Lib_Read_Flash | CB_Lib_Write_Flash

record bleConfig_t =
  MEMAddr :: u32
  MEMLen :: u16
  SNVAddr :: u32
  SNVBlock :: u16
  SNVNum :: u8
  BufNumber :: u8
  BufMaxLen :: u16
  TxNumEvent :: u8
  RxNumEvent :: u8
  TxPower :: u8
  WakeUpTime :: u8
  SelRTCClock :: u8
  ConnectNumber :: u8
  WindowWidening :: u8
  WaitWindow :: u8
  MacAddr :: "u8 list"
  srandCB :: "callback option"
  sleepCB :: "callback option"
  tsCB :: "callback option"
  rcCB :: "callback option"
  staCB :: "callback option"
  readFlashCB :: "callback option"
  writeFlashCB :: "callback option"

definition FLASH_ROM_MAX_SIZE :: u32 where "FLASH_ROM_MAX_SIZE = 0x070000"
definition BLE_SNV_ADDR :: u32 where "BLE_SNV_ADDR = 0x77E00 - FLASH_ROM_MAX_SIZE"
definition BLE_MEMHEAP_SIZE :: nat where "BLE_MEMHEAP_SIZE = 1024 * 6"
definition BLE_BUFF_MAX_LEN :: u16 where "BLE_BUFF_MAX_LEN = 27"
definition BLE_BUFF_NUM :: u8 where "BLE_BUFF_NUM = 5"
definition BLE_TX_NUM_EVENT :: u8 where "BLE_TX_NUM_EVENT = 1"
definition LL_TX_POWEER_6_DBM :: u8 where "LL_TX_POWEER_6_DBM = 0x3D"
definition CLK_OSC32K :: u8 where "CLK_OSC32K = 1"
definition PERIPHERAL_MAX_CONNECTION :: u8 where "PERIPHERAL_MAX_CONNECTION = 1"
definition CENTRAL_MAX_CONNECTION :: u8 where "CENTRAL_MAX_CONNECTION = 3"
definition BLE_CALIBRATION_PERIOD :: nat where "BLE_CALIBRATION_PERIOD = 120000"

lemmas ble_defs = FLASH_ROM_MAX_SIZE_def BLE_SNV_ADDR_def BLE_MEMHEAP_SIZE_def BLE_BUFF_MAX_LEN_def
  BLE_BUFF_NUM_def BLE_TX_NUM_EVENT_def LL_TX_POWEER_6_DBM_def CLK_OSC32K_def
  PERIPHERAL_MAX_CONNECTION_def CENTRAL_MAX_CONNECTION_def

text \<open>\<open>tmos_memset (&cfg, 0, sizeof (bleConfig_t))\<close>, and the fields both boards set.\<close>

definition ble_zero :: bleConfig_t where
  "ble_zero = \<lparr>MEMAddr = 0, MEMLen = 0, SNVAddr = 0, SNVBlock = 0, SNVNum = 0, BufNumber = 0,
     BufMaxLen = 0, TxNumEvent = 0, RxNumEvent = 0, TxPower = 0, WakeUpTime = 0, SelRTCClock = 0,
     ConnectNumber = 0, WindowWidening = 0, WaitWindow = 0, MacAddr = replicate 6 0, srandCB = None,
     sleepCB = None, tsCB = None, rcCB = None, staCB = None, readFlashCB = None, writeFlashCB = None\<rparr>"

definition ble_fields :: "u32 \<Rightarrow> bleConfig_t" where
  "ble_fields mem_buf = ble_zero\<lparr>MEMAddr := mem_buf, MEMLen := of_nat BLE_MEMHEAP_SIZE,
     BufMaxLen := BLE_BUFF_MAX_LEN, BufNumber := BLE_BUFF_NUM, TxNumEvent := BLE_TX_NUM_EVENT,
     TxPower := LL_TX_POWEER_6_DBM, SNVAddr := BLE_SNV_ADDR,
     readFlashCB := Some CB_Lib_Read_Flash, writeFlashCB := Some CB_Lib_Write_Flash,
     SelRTCClock := CLK_OSC32K,
     ConnectNumber := (PERIPHERAL_MAX_CONNECTION AND 3) OR push_bit 2 CENTRAL_MAX_CONNECTION,
     srandCB := Some CB_SYS_GetSysTickCnt, tsCB := Some CB_HAL_GetInterTempValue,
     rcCB := Some CB_Lib_Calibration_LSI\<rparr>"

text \<open>The endless loops at the end of a failed initialisation.\<close>

datatype halt = Halt_version | Halt_memory | Halt_library u8

definition ble_start :: "(bleConfig_t \<Rightarrow> u8) \<Rightarrow> bleConfig_t \<Rightarrow> halt + bleConfig_t" where
  "ble_start BLE_LibInit cfg =
     (if MEMAddr cfg = 0 \<or> MEMLen cfg < 4 * 1024 then Inl Halt_memory
      else let i = BLE_LibInit cfg in if i \<noteq> 0 then Inl (Halt_library i) else Inr cfg)"

text \<open>The loop that copies the address; \<open>n\<close> bytes are left.\<close>

fun mac_loop :: "u8 list \<Rightarrow> bleConfig_t \<Rightarrow> nat \<Rightarrow> nat \<Rightarrow> bleConfig_t option" where
  "mac_loop mac cfg i 0 = Some cfg"
| "mac_loop mac cfg i (Suc n) = do {
     b \<leftarrow> arr_get mac i;
     a \<leftarrow> arr_set (MacAddr cfg) i b;
     mac_loop mac (cfg\<lparr>MacAddr := a\<rparr>) (i + 1) n
   }"

text \<open>\<open>mac\<close> is what \<open>GetMACAddress\<close> delivers; none is a store outside an array.\<close>

definition CH58X_BLEInit ::
  "bool \<Rightarrow> (bleConfig_t \<Rightarrow> u8) \<Rightarrow> u32 \<Rightarrow> u8 list \<Rightarrow> (halt + bleConfig_t) option" where
  "CH58X_BLEInit same_version BLE_LibInit mem_buf mac =
     (if \<not> same_version then Some (Inl Halt_version)
      else do {
        cfg \<leftarrow> mac_loop mac (ble_fields mem_buf) 0 6;
        Some (ble_start BLE_LibInit cfg)
      })"

text \<open>The receiver also keeps the address and derives its radio channel from the sum of the bytes.\<close>

fun rx_mac_loop ::
  "u8 list \<Rightarrow> bleConfig_t \<Rightarrow> rx_radio_t \<Rightarrow> u16 \<Rightarrow> nat \<Rightarrow> nat \<Rightarrow> (bleConfig_t \<times> rx_radio_t \<times> u16) option" where
  "rx_mac_loop mac cfg rd s i 0 = Some (cfg, rd, s)"
| "rx_mac_loop mac cfg rd s i (Suc n) = do {
     b \<leftarrow> arr_get mac i;
     a \<leftarrow> arr_set (MacAddr cfg) i b;
     m \<leftarrow> arr_set (mac_addr rd) i b;
     rx_mac_loop mac (cfg\<lparr>MacAddr := a\<rparr>) (rd\<lparr>mac_addr := m\<rparr>) (s + ucast b) (i + 1) n
   }"

definition rx_CH58X_BLEInit ::
  "bool \<Rightarrow> (bleConfig_t \<Rightarrow> u8) \<Rightarrow> u32 \<Rightarrow> u8 list \<Rightarrow> rx_radio_t \<Rightarrow> (halt + bleConfig_t \<times> rx_radio_t) option" where
  "rx_CH58X_BLEInit same_version BLE_LibInit mem_buf mac rd =
     (if \<not> same_version then Some (Inl Halt_version)
      else do {
        (cfg, rd1, s) \<leftarrow> rx_mac_loop mac (ble_fields mem_buf) rd 0 0 6;
        let rd2 = rd1\<lparr>nrf_channel := ucast (s mod 32)\<rparr>;
        Some (case ble_start BLE_LibInit cfg of Inl h \<Rightarrow> Inl h | Inr c \<Rightarrow> Inr (c, rd2))
      })"

section \<open>Callbacks of the library\<close>

text \<open>The status of the flash commands is not used: both callbacks return 0.\<close>

definition Lib_Read_Flash :: "'e flash_ops \<Rightarrow> 'e \<Rightarrow> nat \<Rightarrow> nat \<Rightarrow> u32 \<times> u8 list" where
  "Lib_Read_Flash f e addr num = (0, snd (EEPROM_READ f e addr (num * 4)))"

definition Lib_Write_Flash :: "'e flash_ops \<Rightarrow> 'e \<Rightarrow> nat \<Rightarrow> nat \<Rightarrow> u8 list \<Rightarrow> (u32 \<times> 'e) option" where
  "Lib_Write_Flash f e addr num pBuf = do {
     let e1 = EEPROM_ERASE f e addr (num * 4);
     bs \<leftarrow> read_bytes pBuf (num * 4);
     Some (0, snd (EEPROM_WRITE f e1 addr bs))
   }"

section \<open>The task of the hardware layer\<close>

definition HAL_REG_INIT_EVENT :: u16 where "HAL_REG_INIT_EVENT = 0x2000"
definition HAL_TEST_EVENT :: u16 where "HAL_TEST_EVENT = 0x4000"

lemmas hal_event_defs = HAL_REG_INIT_EVENT_def HAL_TEST_EVENT_def SYS_EVENT_MSG_def

definition MS1_TO_SYSTEM_TIME :: "nat \<Rightarrow> nat" where
  "MS1_TO_SYSTEM_TIME x = x * 1000 div 625"

datatype hal_call = TMOS_ProcessEventRegister | TMOS_TimerInit | BLE_RegInit
  | Hal_start_task u16 nat | Hal_msg_deallocate "u8 list" | PRINT string

record hal_sys =
  hal_clk :: clk_regs
  hal_drv :: rtc_drv
  hal_calls :: "hal_call list"

definition hal_log :: "hal_call \<Rightarrow> hal_sys \<Rightarrow> hal_sys" where
  "hal_log c s = s\<lparr>hal_calls := hal_calls s @ [c]\<rparr>"

definition Lib_Calibration_LSI :: "osc_meas \<Rightarrow> hal_sys \<Rightarrow> hal_sys option" where
  "Lib_Calibration_LSI osc s = do {
     c \<leftarrow> Calibration_LSI osc Level_64 (hal_clk s);
     Some (s\<lparr>hal_clk := c\<rparr>)
   }"

definition HAL_ProcessEvent ::
  "osc_meas \<Rightarrow> u8 list option \<Rightarrow> u16 \<Rightarrow> hal_sys \<Rightarrow> (u16 \<times> hal_sys) option" where
  "HAL_ProcessEvent osc msg events s =
     (if events AND SYS_EVENT_MSG \<noteq> 0 then
        Some (events XOR SYS_EVENT_MSG,
              case msg of Some m \<Rightarrow> hal_log (Hal_msg_deallocate m) s | None \<Rightarrow> s)
      else if events AND HAL_REG_INIT_EVENT \<noteq> 0 then do {
        s1 \<leftarrow> Lib_Calibration_LSI osc (hal_log BLE_RegInit s);
        Some (events XOR HAL_REG_INIT_EVENT,
              hal_log (Hal_start_task HAL_REG_INIT_EVENT (MS1_TO_SYSTEM_TIME BLE_CALIBRATION_PERIOD)) s1)
      }
      else if events AND HAL_TEST_EVENT \<noteq> 0 then
        Some (events XOR HAL_TEST_EVENT,
              hal_log (Hal_start_task HAL_TEST_EVENT (MS1_TO_SYSTEM_TIME 1000)) (hal_log (PRINT ''* '') s))
      else Some (0, s))"

definition HAL_Init ::
  "osc_meas \<Rightarrow> (nat \<Rightarrow> bool) \<Rightarrow> bool list \<Rightarrow> hal_sys \<Rightarrow> hal_sys option" where
  "HAL_Init osc pin edges s = do {
     let s1 = hal_log TMOS_ProcessEventRegister s;
     (c, d) \<leftarrow> HAL_TimeInit osc pin edges (hal_clk s1) (hal_drv s1);
     let s2 = hal_log TMOS_TimerInit (s1\<lparr>hal_clk := c, hal_drv := d\<rparr>);
     Some (hal_log (Hal_start_task HAL_REG_INIT_EVENT (MS1_TO_SYSTEM_TIME BLE_CALIBRATION_PERIOD)) s2)
   }"

section \<open>Bringing up the radio\<close>

text \<open>The calls of \<open>main\<close> from the library's initialisation to the one of the radio.\<close>

definition radio_start ::
  "bool \<Rightarrow> (bleConfig_t \<Rightarrow> u8) \<Rightarrow> u32 \<Rightarrow> u8 list \<Rightarrow> osc_meas \<Rightarrow> (nat \<Rightarrow> bool) \<Rightarrow> bool list \<Rightarrow> string \<Rightarrow>
   hal_sys \<times> rf_tx_sys \<Rightarrow> (halt + hal_sys \<times> rf_tx_sys) option" where
  "radio_start same_version BLE_LibInit mem_buf mac osc pin edges printed hs = do {
     r \<leftarrow> CH58X_BLEInit same_version BLE_LibInit mem_buf mac;
     case r of Inl h \<Rightarrow> Some (Inl h)
     | Inr cfg \<Rightarrow> do {
         h \<leftarrow> HAL_Init osc pin edges (fst hs);
         Some (Inr (h, radio_hw_init printed (snd hs)))
       }
   }"

definition rx_radio_start ::
  "bool \<Rightarrow> (bleConfig_t \<Rightarrow> u8) \<Rightarrow> u32 \<Rightarrow> u8 list \<Rightarrow> osc_meas \<Rightarrow> (nat \<Rightarrow> bool) \<Rightarrow> bool list \<Rightarrow> string \<Rightarrow> string \<Rightarrow>
   hal_sys \<times> rf_rx_sys \<Rightarrow> (halt + hal_sys \<times> rf_rx_sys) option" where
  "rx_radio_start same_version BLE_LibInit mem_buf mac osc pin edges printed printed2 hs = do {
     r \<leftarrow> rx_CH58X_BLEInit same_version BLE_LibInit mem_buf mac (rx_radio (snd hs));
     case r of Inl h \<Rightarrow> Some (Inl h)
     | Inr (cfg, rd) \<Rightarrow> do {
         h \<leftarrow> HAL_Init osc pin edges (fst hs);
         s \<leftarrow> rx_radio_hw_init printed printed2 ((snd hs)\<lparr>rx_radio := rd\<rparr>);
         Some (Inr (h, s))
       }
   }"

end
