(* ===== verification/ClockProps.thy ===== *)
theory ClockProps
  imports Clock
begin

text \<open>
  Properties of the clocks: the system clock reads back as it was set and drives a kernel tick of
  one millisecond on both boards; the calibration of the internal oscillator ends; the real-time
  clock shows the date it was set to plus the time that has passed since.
\<close>

section \<open>System clock and tick\<close>

fun clk_hz :: "SYS_CLKTypeDef \<Rightarrow> u32 option" where
  "clk_hz CLK_SOURCE_LSI = Some 32000"
| "clk_hz CLK_SOURCE_LSE = Some 32000"
| "clk_hz CLK_SOURCE_HSE_16MHz = Some 16000000"
| "clk_hz CLK_SOURCE_HSE_8MHz = Some 8000000"
| "clk_hz CLK_SOURCE_HSE_6_4MHz = Some 6400000"
| "clk_hz CLK_SOURCE_HSE_4MHz = Some 4000000"
| "clk_hz CLK_SOURCE_HSE_2MHz = Some 2000000"
| "clk_hz CLK_SOURCE_HSE_1MHz = None"
| "clk_hz CLK_SOURCE_PLL_80MHz = Some 80000000"
| "clk_hz CLK_SOURCE_PLL_60MHz = Some 60000000"
| "clk_hz CLK_SOURCE_PLL_48MHz = Some 48000000"
| "clk_hz CLK_SOURCE_PLL_40MHz = Some 40000000"
| "clk_hz CLK_SOURCE_PLL_36_9MHz = Some 36923076"
| "clk_hz CLK_SOURCE_PLL_32MHz = Some 32000000"
| "clk_hz CLK_SOURCE_PLL_30MHz = Some 30000000"
| "clk_hz CLK_SOURCE_PLL_24MHz = Some 24000000"
| "clk_hz CLK_SOURCE_PLL_20MHz = Some 20000000"
| "clk_hz CLK_SOURCE_PLL_15MHz = None"

text \<open>
  The two sources with the divisor field zero, which the hardware reads as 32, make
  \<open>GetSysClock\<close> divide by zero.
\<close>

lemma low_speed_mode:
  fixes x :: u16
  shows "((x OR 192) AND 255) AND 64 = 64" and "((x OR 192) AND 255) AND 192 = 192"
  unfolding and.assoc by (simp_all add: word_ao_dist word_ao_absorbs)

lemma clock_reads_back: "GetSysClock (SetSysClock sc r) = clk_hz sc"
  by (cases sc) (simp_all add: GetSysClock_def SetSysClock_def Let_def udiv_def RB_CLK_SYS_MOD_def
      low_speed_mode)

lemma systick_run:
  assumes "CTLR (systick b) = 0xF" "SR (systick b) = 0" "CNT (systick b) = of_nat c"
    "CMP (systick b) = of_nat p" "c \<le> p" "p < 2 ^ 32"
  shows "systick ((systick_cycle ^^ n) b) =
      (systick b)\<lparr>CNT := of_nat ((c + n) mod (p + 1))\<rparr> \<and>
    rt_tick ((systick_cycle ^^ n) b) = rt_tick b + of_nat ((c + n) div (p + 1))"
proof (induction n)
  case 0
  then show ?case using assms by simp
next
  case (Suc n)
  define m where "m = (c + n) mod (p + 1)"
  have m: "m \<le> p" unfolding m_def using mod_less_divisor [of "p + 1" "c + n"] by linarith
  have small: "(of_nat m :: 64 word) = of_nat p \<longleftrightarrow> m = p"
    using m assms(6) by (subst word_of_nat_eq_iff) (simp add: take_bit_nat_eq_self)
  have "(systick_cycle ^^ Suc n) b = systick_cycle ((systick_cycle ^^ n) b)" by simp
  then show ?case
    using Suc assms(1,2,4) m small unfolding m_def
    by (auto simp: systick_cycle_def Let_def SysTick_Handler_def systick_bits mod_Suc div_Suc
        add.assoc)
qed

lemma board_ticks:
  assumes "clk_hz sc = Some (of_nat (1000 * k))" and "0 < k" and "1000 * k < 2 ^ 32"
  shows "\<exists>b1. board_init sc b = Some b1 \<and> GetSysClock (clk b1) = Some (of_nat (1000 * k)) \<and>
    (\<forall>n. rt_tick ((systick_cycle ^^ n) b1) = rt_tick b + of_nat (n div k))"
proof -
  have u: "unat (of_nat (1000 * k) :: u32) = 1000 * k" using assms(3) by (simp add: unat_of_nat take_bit_nat_eq_self del: of_nat_mult)
  have k32: "k < 2 ^ 32" using assms(3) by simp
  have "unat ((of_nat (1000 * k) :: u32) div 1000) = k" unfolding unat_div u by simp
  then have q: "(of_nat (1000 * k) :: u32) div 1000 = of_nat k"
    using k32 unfolding word_eq_iff_unsigned [where ?'a = nat] by (simp add: unat_of_nat take_bit_nat_eq_self)
  obtain b1 where b1: "board_init sc b = Some b1"
    using assms(1) by (auto simp: board_init_def clock_reads_back Let_def)
  have hz: "GetSysClock (clk b1) = Some (of_nat (1000 * k))"
    using b1 assms(1) by (auto simp: board_init_def clock_reads_back Let_def)
  have f: "rt_tick b1 = rt_tick b" "CTLR (systick b1) = 0xF" "SR (systick b1) = 0" "CNT (systick b1) = 0"
    "CMP (systick b1) = ucast ((of_nat k :: u32) - 1)"
    using b1 assms(1)
    by (auto simp: board_init_def clock_reads_back SysTick_Config_def RT_TICK_PER_SECOND_def q
        simp del: of_nat_mult)
  have k1: "(of_nat k :: u32) - 1 = of_nat (k - 1)" using assms(2) by (simp add: of_nat_diff)
  have "CMP (systick b1) = of_nat (k - 1)"
    unfolding f(5) k1 using assms by (simp add: unsigned_of_nat take_bit_nat_eq_self del: of_nat_diff)
  then show ?thesis
    using systick_run [of b1 0 "k - 1"] f b1 hz assms by simp
qed

text \<open>
  Both boards start their kernel tick at one millisecond: after \<open>rt_hw_board_init\<close> the system
  clock reads 80 MHz on the controller and 60 MHz on the receiver, and the handler of the tick
  timer has advanced the tick of the kernel by exactly one for every 80000, and every 60000,
  cycles of that clock.
\<close>

theorem kernel_tick_is_millisecond:
  "(\<exists>b1. rt_hw_board_init b = Some b1 \<and> GetSysClock (clk b1) = Some 80000000 \<and>
     (\<forall>n. rt_tick ((systick_cycle ^^ n) b1) = rt_tick b + of_nat (n div 80000))) \<and>
   (\<exists>b1. rx_rt_hw_board_init b = Some b1 \<and> GetSysClock (clk b1) = Some 60000000 \<and>
     (\<forall>n. rt_tick ((systick_cycle ^^ n) b1) = rt_tick b + of_nat (n div 60000)))"
  unfolding rt_hw_board_init_def rx_rt_hw_board_init_def
  using board_ticks [of CLK_SOURCE_PLL_80MHz 80000 b] board_ticks [of CLK_SOURCE_PLL_60MHz 60000 b]
  by simp

section \<open>Calibration\<close>

text \<open>The coarse adjustment ends after at most three corrections.\<close>

lemma coarse_loop_ends:
  assumes "0 < coarse_window f" and "retry \<le> 3"
  shows "\<exists>k r'. coarse_loop osc f retry r = Some (k, r') \<and> k \<le> 3 \<and>
    (k < 3 \<longrightarrow> \<bar>osc_count (osc k r') - coarse_target f\<bar> < coarse_window f)"
  using assms(2)
proof (induction "3 - retry" arbitrary: retry r)
  case 0
  then show ?case by (subst coarse_loop.simps) (auto simp: Let_def)
next
  case (Suc n)
  define x where "x = osc_count (osc retry r) - coarse_target f"
  show ?case
  proof (cases "\<bar>x\<bar> < coarse_window f")
    case True
    then show ?thesis using Suc(2,3)
      by (subst coarse_loop.simps) (auto simp: Let_def x_def [symmetric])
  next
    case False
    have "\<exists>y. half_rounded (x * 2) (coarse_window f) = Some y"
      using assms(1) by (auto simp: half_rounded_def c_div_def)
    then obtain y where y: "half_rounded (x * 2) (coarse_window f) = Some y" ..
    have "coarse_loop osc f retry r = coarse_loop osc f (retry + 1) (tune_add y r)"
      using False y Suc(2) by (subst coarse_loop.simps) (auto simp: Let_def x_def [symmetric])
    then show ?thesis using Suc by simp
  qed
qed

text \<open>
  At the clock of either board the calibration returns, whatever the oscillator measures; below
  865 kHz its tolerance is zero and it divides by it.
\<close>

lemma fast_clock:
  assumes "GetSysClock r = Some hz" and "1000000 \<le> uint hz"
  shows "0 < coarse_window (uint hz)" "1366 * (uint hz div 1000) div CAB_LSIFQ \<noteq> 0"
proof -
  have "1000 \<le> uint hz div 1000" using assms(2) by linarith
  then show "0 < coarse_window (uint hz)" "1366 * (uint hz div 1000) div CAB_LSIFQ \<noteq> 0"
    unfolding coarse_window_def CAB_LSIFQ_def by linarith+
qed

lemma coarse_loop_same:
  "coarse_loop osc f retry r = Some (k, r') \<Longrightarrow>
   R16_CLK_SYS_CFG r' = R16_CLK_SYS_CFG r \<and> R8_OSC_CAL_CTRL r' = R8_OSC_CAL_CTRL r"
proof (induction osc f retry r rule: coarse_loop.induct)
  case (1 osc f retry r)
  show ?case
    using 1(2) 1(1) [OF refl refl] unfolding coarse_loop.simps [of osc f retry r]
    by (auto simp: Let_def tune_add_def split: if_splits option.splits)
qed

lemma half_rounded_returns: "d \<noteq> 0 \<Longrightarrow> \<exists>x. half_rounded y d = Some x"
  by (simp add: half_rounded_def c_div_def)

lemma calibration_returns:
  assumes "GetSysClock r = Some hz" and "1000000 \<le> uint hz"
  shows "\<exists>r'. Calibration_LSI osc lv r = Some r' \<and> GetSysClock r' = Some hz \<and>
    R8_OSC_CAL_CTRL r' AND RB_OSC_CNT_EN = 0"
proof -
  obtain k r2 where l: "coarse_loop osc (uint hz) 0 (calibration_begin r) = Some (k, r2)"
    using coarse_loop_ends [OF fast_clock(1) [OF assms], of 0 osc "calibration_begin r"] by auto
  have cfg: "R16_CLK_SYS_CFG r2 = R16_CLK_SYS_CFG r"
    using coarse_loop_same [OF l] by (simp add: calibration_begin_def Let_def)
  obtain x where x: "half_rounded (fine_offset (uint hz) lv (osc (k + 1) (fine_mode lv r2)) * (3200 div 2 ^ lv))
      (1366 * (uint hz div 1000) div CAB_LSIFQ) = Some x"
    using half_rounded_returns [OF fast_clock(2) [OF assms]] by blast
  have hz: "GetSysClock r3 = Some hz" if "R16_CLK_SYS_CFG r3 = R16_CLK_SYS_CFG r" for r3
    using assms(1) that by (simp add: GetSysClock_def)
  show ?thesis
    unfolding Calibration_LSI_def Let_def assms(1) Option.bind.simps l split x
    by (auto simp: and.assoc tune_add_def fine_mode_def cfg intro!: hz)
qed

section \<open>Calendar\<close>

text \<open>The calendar the macros are about, by the table of the months.\<close>

definition days_in_month :: "nat \<Rightarrow> nat \<Rightarrow> nat" where
  "days_in_month y m =
     (if m = 2 \<and> IsLeapYear y then 29 else [31, 28, 31, 30, 31, 30, 31, 31, 30, 31, 30, 31] ! (m - 1))"

definition valid_date :: "nat \<Rightarrow> nat \<Rightarrow> nat \<Rightarrow> bool" where
  "valid_date y m d \<longleftrightarrow> BEGYEAR \<le> y \<and> 1 \<le> m \<and> m \<le> 12 \<and> 1 \<le> d \<and> d \<le> days_in_month y m"

definition day_number :: "nat \<Rightarrow> nat \<Rightarrow> nat \<Rightarrow> nat" where
  "day_number y m d =
     sum_list (map YearLength [BEGYEAR..<y]) + sum_list (map (days_in_month y) [1..<m]) + (d - 1)"

lemma month_cases: "1 \<le> m \<Longrightarrow> m \<le> (12 :: nat) \<Longrightarrow> m \<in> {1, 2, 3, 4, 5, 6, 7, 8, 9, 10, 11, 12}"
  by (auto simp: le_Suc_eq numeral_eq_Suc)

lemma monthLength_table: "1 \<le> m \<Longrightarrow> m \<le> 12 \<Longrightarrow> monthLength (IsLeapYear y) (m - 1) = days_in_month y m"
  using month_cases [of m] by (auto simp: monthLength_def days_in_month_def)

lemma year_is_its_months: "sum_list (map (days_in_month y) [1..<13]) = YearLength y"
  by (simp add: upt_rec numeral_eq_Suc days_in_month_def YearLength_def)

text \<open>The loops that count the days.\<close>

lemma count_years_sum:
  "BEGYEAR \<le> y \<Longrightarrow> d < 2 ^ 16 \<Longrightarrow>
   count_years y d = (d + sum_list (map YearLength [BEGYEAR..<y])) mod 2 ^ 16"
proof (induction y d rule: count_years.induct)
  case (1 y d)
  show ?case
  proof (cases "y > BEGYEAR")
    case True
    then obtain z where z: "y = Suc z" "BEGYEAR \<le> z" by (cases y) auto
    have "count_years y d = ((d + YearLength z) mod 2 ^ 16 + sum_list (map YearLength [BEGYEAR..<z])) mod 2 ^ 16"
      using 1(1) True z by (subst count_years.simps) simp
    then show ?thesis using z by (simp add: mod_simps ac_simps)
  next
    case False
    then show ?thesis using 1(2,3) by (subst count_years.simps) simp
  qed
qed

lemma count_months_sum:
  "1 \<le> m \<Longrightarrow> m \<le> 12 \<Longrightarrow> d < 2 ^ 16 \<Longrightarrow>
   count_months (IsLeapYear y) m d = (d + sum_list (map (days_in_month y) [1..<m])) mod 2 ^ 16"
proof (induction "IsLeapYear y" m d rule: count_months.induct)
  case (1 m d)
  show ?case
  proof (cases "m > 1")
    case True
    then obtain n where n: "m = Suc n" "1 \<le> n" by (cases m) auto
    have "monthLength (IsLeapYear y) (m - 2) = days_in_month y n"
      using monthLength_table [of n y] n 1(3) by (simp add: diff_Suc)
    then have "count_months (IsLeapYear y) m d =
        ((d + days_in_month y n) mod 2 ^ 16 + sum_list (map (days_in_month y) [1..<n])) mod 2 ^ 16"
      using 1 True n by (subst count_months.simps) simp
    then show ?thesis using n by (simp add: mod_simps ac_simps)
  next
    case False
    then show ?thesis using 1(2-4) by (subst count_months.simps) simp
  qed
qed

lemma rtc_day_number:
  assumes "valid_date y m d"
  shows "rtc_day y m d = of_nat (day_number y m d)"
proof -
  have v: "BEGYEAR \<le> y" "1 \<le> m" "m \<le> 12" "1 \<le> d" using assms by (auto simp: valid_date_def)
  have "rtc_day y m d = of_nat (sum_list (map YearLength [BEGYEAR..<y]) +
      sum_list (map (days_in_month y) [1..<m])) + of_nat d - 1"
    unfolding rtc_day_def using v
    by (simp add: count_years_sum count_months_sum mod_add_left_eq word_of_nat_eq_iff take_bit_eq_mod
        flip: of_nat_add)
  also have "\<dots> = of_nat (day_number y m d)"
    using v(4) by (simp add: day_number_def of_nat_diff)
  finally show ?thesis .
qed

text \<open>The loops that divide them again.\<close>

lemma get_year_at:
  "r < YearLength y \<Longrightarrow> y0 \<le> y \<Longrightarrow> y < 2 ^ 16 \<Longrightarrow>
   get_year (sum_list (map YearLength [y0..<y]) + r) y0 = (r, y)"
proof (induction "y - y0" arbitrary: y0)
  case 0
  then show ?case by (subst get_year.simps) simp
next
  case (Suc n)
  then have l: "[y0..<y] = y0 # [Suc y0..<y]" by (simp add: upt_conv_Cons)
  have "get_year (sum_list (map YearLength [y0..<y]) + r) y0 =
      get_year (sum_list (map YearLength [Suc y0..<y]) + r) (Suc y0)"
    using Suc unfolding l by (subst get_year.simps) simp
  then show ?case using Suc by simp
qed

lemma get_month_at:
  "r < monthLength l m \<Longrightarrow> m0 \<le> m \<Longrightarrow> m < 2 ^ 16 \<Longrightarrow>
   get_month l (sum_list (map (monthLength l) [m0..<m]) + r) m0 = (r, m)"
proof (induction "m - m0" arbitrary: m0)
  case 0
  then show ?case by (subst get_month.simps) simp
next
  case (Suc n)
  then have e: "[m0..<m] = m0 # [Suc m0..<m]" by (simp add: upt_conv_Cons)
  have "get_month l (sum_list (map (monthLength l) [m0..<m]) + r) m0 =
      get_month l (sum_list (map (monthLength l) [Suc m0..<m]) + r) (Suc m0)"
    using Suc unfolding e by (subst get_month.simps) simp
  then show ?case using Suc by simp
qed

lemma months_before:
  "m \<le> 12 \<Longrightarrow> sum_list (map (monthLength (IsLeapYear y)) [0..<m]) = sum_list (map (days_in_month y) [1..<Suc m])"
  by (induction m) (simp_all add: monthLength_table [of "Suc _", simplified])

lemma days_before_month:
  "1 \<le> m \<Longrightarrow> m \<le> 12 \<Longrightarrow> d \<le> days_in_month y m \<Longrightarrow>
   sum_list (map (days_in_month y) [1..<m]) + d \<le> YearLength y"
proof -
  assume m: "1 \<le> m" "m \<le> 12" and d: "d \<le> days_in_month y m"
  have "[1..<13] = [1..<m] @ m # [Suc m..<13]"
    using m upt_add_eq_append [of 1 m "13 - m"] upt_conv_Cons [of m 13] by simp
  then have "YearLength y = sum_list (map (days_in_month y) [1..<m]) + days_in_month y m +
      sum_list (map (days_in_month y) [Suc m..<13])"
    using year_is_its_months [of y] by simp
  then show ?thesis using d by linarith
qed

lemma get_date:
  assumes "valid_date y m d" and "y < 2 ^ 16"
  shows "get_year (day_number y m d) BEGYEAR =
      (sum_list (map (days_in_month y) [1..<m]) + (d - 1), y)"
    and "get_month (IsLeapYear y) (sum_list (map (days_in_month y) [1..<m]) + (d - 1)) 0 = (d - 1, m - 1)"
proof -
  have v: "BEGYEAR \<le> y" "1 \<le> m" "m \<le> 12" "1 \<le> d" "d \<le> days_in_month y m"
    using assms by (auto simp: valid_date_def)
  have "sum_list (map (days_in_month y) [1..<m]) + (d - 1) < YearLength y"
    using days_before_month [OF v(2,3,5)] v(4) by linarith
  then show "get_year (day_number y m d) BEGYEAR =
      (sum_list (map (days_in_month y) [1..<m]) + (d - 1), y)"
    using get_year_at [OF _ v(1) assms(2)] by (simp add: day_number_def add.assoc)
  have "d - 1 < monthLength (IsLeapYear y) (m - 1)"
    using v monthLength_table by simp
  then show "get_month (IsLeapYear y) (sum_list (map (days_in_month y) [1..<m]) + (d - 1)) 0 = (d - 1, m - 1)"
    using get_month_at [of "d - 1" "IsLeapYear y" "m - 1" 0] months_before [of "m - 1" y] v by simp
qed

section \<open>The running clock\<close>

definition rtc_running :: "rtc_regs \<Rightarrow> bool" where
  "rtc_running r \<longleftrightarrow> R8_RTC_MODE_CTRL r AND (RB_RTC_LOAD_LO OR RB_RTC_LOAD_HI) = 0 \<and>
     R32_RTC_CNT_32K r < DAY_CYCLES \<and> unat (R32_RTC_CNT_DAY r) < 0x4000"

text \<open>The two counters as one number of periods.\<close>

definition rtc_total :: "rtc_regs \<Rightarrow> nat" where
  "rtc_total r = unat (R32_RTC_CNT_DAY r) * unat DAY_CYCLES + unat (R32_RTC_CNT_32K r)"

lemma no_load:
  fixes m :: u8
  assumes "m AND (RB_RTC_LOAD_LO OR RB_RTC_LOAD_HI) = 0"
  shows "m AND RB_RTC_LOAD_LO = 0" "m AND RB_RTC_LOAD_HI = 0"
proof -
  have "m AND RB_RTC_LOAD_LO = (m AND (RB_RTC_LOAD_LO OR RB_RTC_LOAD_HI)) AND RB_RTC_LOAD_LO"
    "m AND RB_RTC_LOAD_HI = (m AND (RB_RTC_LOAD_LO OR RB_RTC_LOAD_HI)) AND RB_RTC_LOAD_HI"
    unfolding and.assoc by (simp_all add: rtc_bits)
  then show "m AND RB_RTC_LOAD_LO = 0" "m AND RB_RTC_LOAD_HI = 0" using assms by simp_all
qed

lemma unat_mask_14: "unat ((x :: u32) AND 0x3FFF) = unat x mod 0x4000"
proof -
  have "x AND 0x3FFF = take_bit 14 x" by (simp add: take_bit_eq_mask mask_numeral)
  then have "unat (x AND 0x3FFF) = take_bit 14 (unat x)" by (simp only: unsigned_take_bit_eq)
  then show ?thesis by (simp add: take_bit_eq_mod)
qed

lemma unat_day_cycles [simp]: "unat DAY_CYCLES = 0xA8C00000"
  by (simp add: DAY_CYCLES_def)

lemma unat_Suc: "unat (x :: u32) < n \<Longrightarrow> n < 2 ^ 32 \<Longrightarrow> unat (x + 1) = unat x + 1"
  using unat_word_ariths(1) [of x 1] by simp

lemma rtc_cycle_total:
  assumes "rtc_running r" and "rtc_total r + 1 < 0x4000 * unat DAY_CYCLES"
  shows "rtc_running (rtc_cycle r) \<and> rtc_total (rtc_cycle r) = rtc_total r + 1 \<and>
    R8_RTC_MODE_CTRL (rtc_cycle r) = R8_RTC_MODE_CTRL r"
proof -
  define c where "c = unat (R32_RTC_CNT_32K r)"
  define d where "d = unat (R32_RTC_CNT_DAY r)"
  have c: "c < 0xA8C00000" and d: "d < 0x4000"
    using assms(1) by (simp_all add: rtc_running_def c_def d_def word_less_nat_alt)
  have nl: "R8_RTC_MODE_CTRL r AND (RB_RTC_LOAD_LO OR RB_RTC_LOAD_HI) = 0"
    using assms(1) by (simp add: rtc_running_def)
  have m: "R8_RTC_MODE_CTRL r AND NOT (RB_RTC_LOAD_LO OR RB_RTC_LOAD_HI) = R8_RTC_MODE_CTRL r"
  proof (rule bit_word_eqI)
    fix k
    show "bit (R8_RTC_MODE_CTRL r AND NOT (RB_RTC_LOAD_LO OR RB_RTC_LOAD_HI)) k = bit (R8_RTC_MODE_CTRL r) k"
      if "k < LENGTH(8)" using arg_cong [OF nl, of "\<lambda>w. bit w k"] that by (auto simp: bit_simps)
  qed
  note nl' = no_load [OF nl]
  have t: "rtc_total r = d * 0xA8C00000 + c" by (simp add: rtc_total_def c_def d_def)
  have last: "R32_RTC_CNT_32K r = DAY_CYCLES - 1 \<longleftrightarrow> c = 0xA8BFFFFF"
    unfolding c_def word_eq_iff_unsigned [where ?'a = nat] by (simp add: DAY_CYCLES_def)
  show ?thesis
  proof (cases "c = 0xA8BFFFFF")
    case True
    then have d1: "d + 1 < 0x4000" using assms(2) t by simp
    then have "unat ((R32_RTC_CNT_DAY r + 1) AND 0x3FFF) = d + 1"
      using unat_Suc [where x = "R32_RTC_CNT_DAY r" and n = "0x4000"] unfolding unat_mask_14 d_def by simp
    then show ?thesis using True last m nl nl' d1 t
      by (simp add: rtc_cycle_def Let_def rtc_running_def rtc_total_def word_less_nat_alt)
  next
    case False
    then have "unat (R32_RTC_CNT_32K r + 1) = c + 1"
      using unat_Suc [where x = "R32_RTC_CNT_32K r" and n = "0xA8C00000"] c unfolding c_def by simp
    then show ?thesis using False last m nl nl' d c t
      by (simp add: rtc_cycle_def Let_def rtc_running_def rtc_total_def word_less_nat_alt d_def)
  qed
qed

lemma rtc_cycles_total:
  "rtc_running r \<Longrightarrow> rtc_total r + n < 0x4000 * unat DAY_CYCLES \<Longrightarrow>
   rtc_running ((rtc_cycle ^^ n) r) \<and> rtc_total ((rtc_cycle ^^ n) r) = rtc_total r + n"
  by (induction n) (simp_all add: rtc_cycle_total)

text \<open>Waiting for the clock pin ends at the latest when three reads in a row see it high.\<close>

lemma wait_pin_ends:
  assumes "pin k" "pin (k + 1)" "pin (k + 2)"
  shows "n \<le> k + 1 \<Longrightarrow> \<exists>m. wait_pin pin n = Some m"
proof (induction "k + 1 - n" arbitrary: n rule: less_induct)
  case less
  consider (high) "pin n" "pin (n + 1)" | (low) "\<not> pin n" "\<not> pin (n + 1)" | (mixed) "pin n \<noteq> pin (n + 1)"
    by blast
  then show ?case
  proof cases
    case high
    then show ?thesis by (subst wait_pin.simps, subst stable_read.simps) simp
  next
    case low
    then have "n \<noteq> k" "n \<noteq> k + 1" using assms by auto
    moreover from low have "n + 1 \<noteq> k" using assms by auto
    ultimately have "n + 2 \<le> k + 1" using less(2) by linarith
    then have "\<exists>m. wait_pin pin (n + 2) = Some m" using less(1) [of "n + 2"] by simp
    then show ?thesis using low by (subst wait_pin.simps, subst stable_read.simps) simp
  next
    case mixed
    then have "n \<noteq> k" "n \<noteq> k + 1" using assms by (auto simp: add.assoc)
    then have "n + 2 \<le> k + 1" using less(2) by linarith
    then have "\<exists>m. wait_pin pin (n + 2) = Some m" using less(1) [of "n + 2"] by simp
    moreover have "wait_pin pin n = wait_pin pin (n + 2)"
      using mixed by (subst (1 2) wait_pin.simps, subst stable_read.simps) simp
    ultimately show ?thesis by simp
  qed
qed

section \<open>Setting and reading\<close>

definition valid_time :: "nat \<Rightarrow> nat \<Rightarrow> nat \<Rightarrow> bool" where
  "valid_time h mi s \<longleftrightarrow> h < 24 \<and> mi < 60 \<and> s < 60"

definition epoch_seconds :: "nat \<Rightarrow> nat \<Rightarrow> nat \<Rightarrow> nat \<Rightarrow> nat \<Rightarrow> nat \<Rightarrow> nat" where
  "epoch_seconds y mo d h mi s = day_number y mo d * 86400 + (h * 3600 + mi * 60 + s)"

lemma rtc_count_value:
  assumes "valid_time h mi s"
  shows "unat (rtc_count h mi s) = (h * 3600 + mi * 60 + s) * 32768"
proof -
  define q where "q = h * 1800 + mi * 30 + s div 2"
  have v: "h < 24" "mi < 60" "s < 60" using assms by (simp_all add: valid_time_def)
  then have q: "q < 43200" unfolding q_def by linarith
  have hi: "\<not> bit t n" if "16 \<le> n" for t :: u16 and n using that bit_imp_le_length [of t n] by auto
  have "(push_bit 16 (ucast (of_nat q :: u16)) :: u32) OR ucast (t :: u16) =
      push_bit 16 (ucast (of_nat q :: u16)) + ucast t" for t
    by (rule disjunctive_add_eq_or [symmetric], rule bit_word_eqI) (auto simp: bit_simps hi)
  then have "rtc_count h mi s = push_bit 16 (of_nat q) + (if odd s then 0x8000 else 0)"
    using v q by (simp add: rtc_count_def Let_def q_def [symmetric] unsigned_of_nat take_bit_nat_eq_self)
  also have "\<dots> = of_nat (q * 65536 + (if odd s then 32768 else 0))"
    by (simp add: push_bit_eq_mult)
  finally have "rtc_count h mi s = of_nat (q * 65536 + (if odd s then 32768 else 0))" .
  moreover have "q * 65536 + (if odd s then 32768 else 0) = (h * 3600 + mi * 60 + s) * 32768"
    unfolding q_def by (cases "odd s") (auto elim!: oddE evenE)
  ultimately have "rtc_count h mi s = of_nat ((h * 3600 + mi * 60 + s) * 32768)" by simp
  moreover have "(h * 3600 + mi * 60 + s) * 32768 < 2 ^ 32" using v by simp
  ultimately show ?thesis by (simp only: unat_of_nat) (simp add: take_bit_nat_eq_self)
qed

lemma rtc_load:
  assumes "R8_RTC_MODE_CTRL r AND RB_RTC_LOAD_LO \<noteq> 0" and "R32_RTC_TRIG r < DAY_CYCLES"
    and "if R8_RTC_MODE_CTRL r AND RB_RTC_LOAD_HI = 0 then unat (R32_RTC_CNT_DAY r) = n
         else unat (R32_RTC_TRIG r AND 0x3FFF) = n" and "n < 0x4000"
  shows "rtc_running (rtc_cycle r) \<and> rtc_total (rtc_cycle r) = n * unat DAY_CYCLES + unat (R32_RTC_TRIG r)"
proof -
  have "(R8_RTC_MODE_CTRL r AND NOT (RB_RTC_LOAD_LO OR RB_RTC_LOAD_HI)) AND (RB_RTC_LOAD_LO OR RB_RTC_LOAD_HI) = 0"
    by (rule bit_word_eqI) (auto simp: bit_simps)
  then show ?thesis using assms
    by (auto simp: rtc_cycle_def Let_def rtc_running_def rtc_total_def split: if_splits)
qed

lemma wait_day_loads:
  assumes "True \<in> set edges" and "R8_RTC_MODE_CTRL r AND RB_RTC_LOAD_LO = 0"
    and "R8_RTC_MODE_CTRL r AND RB_RTC_LOAD_HI \<noteq> 0" and "unat (R32_RTC_TRIG r) < 0x4000"
    and "unat (R32_RTC_CNT_DAY r) mod 0x4000 \<noteq> unat (R32_RTC_TRIG r) \<or> R32_RTC_TRIG r = 0"
  shows "\<exists>r1. wait_day edges r = Some r1 \<and> R8_RTC_MODE_CTRL r1 AND RB_RTC_LOAD_LO = 0 \<and>
    (if R8_RTC_MODE_CTRL r1 AND RB_RTC_LOAD_HI = 0
     then unat (R32_RTC_CNT_DAY r1) = unat (R32_RTC_TRIG r) else R32_RTC_TRIG r = 0)"
  using assms
proof (induction edges)
  case (Cons e es)
  have low: "unat (R32_RTC_TRIG r AND 0x3FFF) = unat (R32_RTC_TRIG r)"
    using Cons(5) by (simp add: unat_mask_14)
  have eq: "(R32_RTC_TRIG r AND 0x3FFF = R32_RTC_CNT_DAY r AND 0x3FFF) \<longleftrightarrow>
      unat (R32_RTC_CNT_DAY r) mod 0x4000 = unat (R32_RTC_TRIG r)"
    unfolding word_eq_iff_unsigned [where ?'a = nat] low by (auto simp: unat_mask_14)
  show ?case
  proof (cases e)
    case True
    then show ?thesis using Cons(3,4) low
      by (auto simp: rtc_cycle_def Let_def and.assoc rtc_bits)
  next
    case False
    then show ?thesis using Cons eq by (cases "R32_RTC_TRIG r AND 0x3FFF = R32_RTC_CNT_DAY r AND 0x3FFF") auto
  qed
qed simp

lemma init_time_running:
  assumes "valid_date y mo d" and "valid_time h mi s" and "day_number y mo d < 0x4000"
    and "pin k" "pin (k + 1)" "pin (k + 2)" and "True \<in> set edges" and "rtc_running r"
    and "R32_RTC_CNT_DAY r \<noteq> of_nat (day_number y mo d) \<or> day_number y mo d = 0"
  shows "\<exists>r1. RTC_InitTime pin edges y mo d h mi s r = Some r1 \<and> rtc_running (rtc_cycle r1) \<and>
    rtc_total (rtc_cycle r1) = epoch_seconds y mo d h mi s * 32768"
proof -
  obtain n where n: "wait_pin pin 0 = Some n" using wait_pin_ends [OF assms(4-6), of 0] by auto
  define w where "w = (ucast (rtc_day y mo d) :: u32)"
  have w: "unat w = day_number y mo d" "w = of_nat (day_number y mo d)"
    using assms(3) unfolding w_def rtc_day_number [OF assms(1)]
    by (simp_all add: unsigned_of_nat take_bit_nat_eq_self)
  define r2 where "r2 = r\<lparr>R32_RTC_TRIG := w, R8_RTC_MODE_CTRL := R8_RTC_MODE_CTRL r OR RB_RTC_LOAD_HI\<rparr>"
  have nl: "R8_RTC_MODE_CTRL r AND RB_RTC_LOAD_LO = 0" "R8_RTC_MODE_CTRL r AND RB_RTC_LOAD_HI = 0"
    and day: "unat (R32_RTC_CNT_DAY r) < 0x4000"
    using no_load assms(8) by (auto simp: rtc_running_def)
  have m2: "R8_RTC_MODE_CTRL r2 AND RB_RTC_LOAD_LO = 0" "R8_RTC_MODE_CTRL r2 AND RB_RTC_LOAD_HI \<noteq> 0"
    using nl by (simp_all add: r2_def word_ao_dist rtc_bits)
  have "unat (R32_RTC_CNT_DAY r2) mod 0x4000 \<noteq> unat (R32_RTC_TRIG r2) \<or> R32_RTC_TRIG r2 = 0"
    using assms(9) day w unfolding r2_def word_eq_iff_unsigned [where ?'a = nat] by auto
  moreover have trig: "unat (R32_RTC_TRIG r2) = day_number y mo d" using w(1) by (simp add: r2_def)
  ultimately obtain r3 where r3: "wait_day edges r2 = Some r3" "R8_RTC_MODE_CTRL r3 AND RB_RTC_LOAD_LO = 0"
    "if R8_RTC_MODE_CTRL r3 AND RB_RTC_LOAD_HI = 0 then unat (R32_RTC_CNT_DAY r3) = day_number y mo d
     else R32_RTC_TRIG r2 = 0"
    using wait_day_loads [OF assms(7) m2] assms(3) by metis
  define t where "t = rtc_count h mi s"
  define r4 where "r4 = r3\<lparr>R32_RTC_TRIG := t, R8_RTC_MODE_CTRL := R8_RTC_MODE_CTRL r3 OR RB_RTC_LOAD_LO\<rparr>"
  have i: "RTC_InitTime pin edges y mo d h mi s r = Some r4"
    using n r3(1) by (simp add: RTC_InitTime_def Let_def w_def r2_def r4_def t_def)
  have tv: "unat t = (h * 3600 + mi * 60 + s) * 32768"
    unfolding t_def by (rule rtc_count_value [OF assms(2)])
  have low: "unat (t AND 0x3FFF) = 0" unfolding unat_mask_14 tv by (rule dvd_imp_mod_0, rule dvd_mult) simp
  have zero: "R32_RTC_TRIG r2 = 0 \<Longrightarrow> day_number y mo d = 0" using trig by simp
  have m4: "R8_RTC_MODE_CTRL r4 AND RB_RTC_LOAD_LO \<noteq> 0"
    "R8_RTC_MODE_CTRL r4 AND RB_RTC_LOAD_HI = R8_RTC_MODE_CTRL r3 AND RB_RTC_LOAD_HI"
    by (simp_all add: r4_def word_ao_dist rtc_bits)
  have t4: "R32_RTC_TRIG r4 = t" "R32_RTC_CNT_DAY r4 = R32_RTC_CNT_DAY r3" by (simp_all add: r4_def)
  have "R32_RTC_TRIG r4 < DAY_CYCLES"
    using assms(2) unfolding word_less_nat_alt t4 tv by (simp add: valid_time_def)
  moreover have "if R8_RTC_MODE_CTRL r4 AND RB_RTC_LOAD_HI = 0 then unat (R32_RTC_CNT_DAY r4) = day_number y mo d
      else unat (R32_RTC_TRIG r4 AND 0x3FFF) = day_number y mo d"
    unfolding m4(2) t4 low using r3(3) zero by (cases "R8_RTC_MODE_CTRL r3 AND RB_RTC_LOAD_HI = 0") simp_all
  ultimately have "rtc_running (rtc_cycle r4) \<and>
      rtc_total (rtc_cycle r4) = day_number y mo d * unat DAY_CYCLES + unat t"
    using rtc_load [OF m4(1) _ _ assms(3)] unfolding t4(1) by blast
  then show ?thesis using i tv by (simp add: epoch_seconds_def algebra_simps)
qed

lemma running_counters:
  assumes "rtc_running r" and "rtc_total r = n * unat DAY_CYCLES + c" and "c < unat DAY_CYCLES"
  shows "unat (R32_RTC_CNT_DAY r) = n" "unat (R32_RTC_CNT_32K r) = c"
proof -
  have u: "unat (R32_RTC_CNT_32K r) < unat DAY_CYCLES"
    using assms(1) by (simp add: rtc_running_def word_less_nat_alt)
  have "unat (R32_RTC_CNT_DAY r) * unat DAY_CYCLES + unat (R32_RTC_CNT_32K r) = n * unat DAY_CYCLES + c"
    using assms(2) by (simp add: rtc_total_def)
  then have "(unat (R32_RTC_CNT_DAY r) * unat DAY_CYCLES + unat (R32_RTC_CNT_32K r)) div unat DAY_CYCLES = n"
    and "(unat (R32_RTC_CNT_DAY r) * unat DAY_CYCLES + unat (R32_RTC_CNT_32K r)) mod unat DAY_CYCLES = c"
    using assms(3) by simp_all
  then show "unat (R32_RTC_CNT_DAY r) = n" "unat (R32_RTC_CNT_32K r) = c" using u by simp_all
qed

lemma day_bound: "BEGYEAR \<le> y \<Longrightarrow> 365 * (y - BEGYEAR) \<le> sum_list (map YearLength [BEGYEAR..<y])"
proof (induction "y - BEGYEAR" arbitrary: y)
  case (Suc n)
  then obtain z where z: "y = Suc z" "BEGYEAR \<le> z" by (cases y) auto
  have "365 \<le> YearLength z" by (simp add: YearLength_def)
  then show ?case using Suc(1) [of z] Suc(2) z by (simp add: Suc_diff_le)
qed simp

lemma time_fields:
  assumes "valid_time h mi s"
  defines "t \<equiv> h * 3600 + mi * 60 + s"
  shows "t div 3600 = h" "t mod 3600 div 60 = mi" "t mod 60 = s" "t < 86400"
proof -
  have v: "h < 24" "mi < 60" "s < 60" using assms by (simp_all add: valid_time_def)
  have m: "mi * 60 + s < 3600" using v by linarith
  have e: "t = h * 3600 + (mi * 60 + s)" "t = (h * 60 + mi) * 60 + s" by (simp_all add: t_def algebra_simps)
  show "t div 3600 = h" unfolding e(1) using m by simp
  have "t mod 3600 = mi * 60 + s" unfolding e(1) using m by simp
  then show "t mod 3600 div 60 = mi" using v by simp
  show "t mod 60 = s" unfolding e(2) mod_mult_self3 using v by simp
  show "t < 86400" unfolding t_def using v by linarith
qed

lemma half_day_parts: "c div 65536 * 2 + (if c mod 65536 < 32768 then 0 else 1) = c div (32768 :: nat)"
proof -
  define q where "q = c div 65536"
  define r where "r = c mod 65536"
  have c: "c = (q * 2) * 32768 + r" using div_mult_mod_eq [of c 65536] by (simp add: q_def r_def)
  have r: "r < 65536" by (simp add: r_def)
  have "r div 32768 = (if r < 32768 then 0 else 1)"
    using r by (simp add: div_nat_eqI)
  then show ?thesis unfolding q_def [symmetric] r_def [symmetric]
    by (subst c) (simp only: div_mult_self3 split: if_split)
qed

lemma get_time:
  assumes "rtc_running r" and "rtc_total r div 32768 = epoch_seconds y mo d h mi s"
    and "valid_date y mo d" and "valid_time h mi s"
  shows "RTC_GetTime r r r = \<lparr>py = y, pmon = mo, pd = d, ph = h, pm = mi, ps = s\<rparr>"
proof -
  define t where "t = h * 3600 + mi * 60 + s"
  note tf = time_fields [OF assms(4), folded t_def]
  define f where "f = rtc_total r mod 32768"
  define c where "c = t * 32768 + f"
  have "f < 32768" by (simp add: f_def)
  then have c: "c < unat DAY_CYCLES" "c div 32768 = t" using tf(4) by (simp_all add: c_def)
  have "rtc_total r = (day_number y mo d * 86400 + t) * 32768 + f"
    using assms(2) div_mult_mod_eq [of "rtc_total r" 32768]
    by (simp add: epoch_seconds_def t_def f_def)
  then have "rtc_total r = day_number y mo d * unat DAY_CYCLES + c" by (simp add: c_def algebra_simps)
  note u = running_counters [OF assms(1) this c(1)]
  have "day_number y mo d < 0x4000" using u(1) assms(1) by (simp add: rtc_running_def)
  moreover have "BEGYEAR \<le> y" using assms(3) by (simp add: valid_date_def)
  ultimately have "y < 2 ^ 16" using day_bound [of y] by (simp add: day_number_def BEGYEAR_def)
  note dates = get_date [OF assms(3) this]
  have day: "unat (R32_RTC_CNT_DAY r AND 0x3FFF) = day_number y mo d"
    using u(1) assms(1) by (simp add: unat_mask_14 rtc_running_def)
  have c32: "c < 2 ^ 32" using c(1) by simp
  have hi: "unat (R16_RTC_CNT_2S r) = c div 65536"
  proof -
    have "unat (drop_bit 16 (R32_RTC_CNT_32K r)) = c div 65536"
      by (simp only: unat_drop_bit_eq u(2)) (simp add: drop_bit_eq_div)
    then show ?thesis using c32 by (simp add: R16_RTC_CNT_2S_def unsigned_ucast_eq take_bit_eq_mod)
  qed
  have lo: "unat (R16_RTC_CNT_32K r) = c mod 65536"
    by (simp add: R16_RTC_CNT_32K_def unsigned_ucast_eq u(2) take_bit_eq_mod)
  have "R16_RTC_CNT_32K r < 0x8000 \<longleftrightarrow> c mod 65536 < 32768"
    unfolding word_less_nat_alt lo by simp
  moreover have "c div 65536 * 2 + (if c mod 65536 < 32768 then 0 else 1) = c div 32768"
    by (rule half_day_parts)
  ultimately have t: "unat (R16_RTC_CNT_2S r) * 2 + (if R16_RTC_CNT_32K r < 0x8000 then 0 else 1) = t"
    unfolding hi using c(2) by simp
  show ?thesis
    using assms(3) unfolding RTC_GetTime_def Let_def t day dates prod.case
    by (simp add: tf valid_date_def)
qed


text \<open>
  Setting the day the clock shows already ends the wait at once: when no period ended meanwhile,
  the load of the day is still pending while the trigger register gets the time, and the day
  becomes the low bits of the time, which are zero.
\<close>

lemma same_day_is_lost:
  assumes "valid_date y mo d" and "valid_time h mi s" and "day_number y mo d < 0x4000"
    and "pin k" "pin (k + 1)" "pin (k + 2)" and "rtc_running r"
    and "R32_RTC_CNT_DAY r = of_nat (day_number y mo d)"
  shows "\<exists>r1. RTC_InitTime pin (False # es) y mo d h mi s r = Some r1 \<and>
    rtc_total (rtc_cycle r1) = epoch_seconds 2020 1 1 h mi s * 32768"
proof -
  obtain n where n: "wait_pin pin 0 = Some n" using wait_pin_ends [OF assms(4-6), of 0] by auto
  have day: "ucast (rtc_day y mo d) = R32_RTC_CNT_DAY r"
    using assms(3,8) unfolding rtc_day_number [OF assms(1)] word_eq_iff_unsigned [where ?'a = nat]
    by (simp add: unsigned_ucast_eq unsigned_of_nat take_bit_nat_eq_self)
  define r4 where "r4 = r\<lparr>R32_RTC_TRIG := rtc_count h mi s,
    R8_RTC_MODE_CTRL := (R8_RTC_MODE_CTRL r OR RB_RTC_LOAD_HI) OR RB_RTC_LOAD_LO\<rparr>"
  have i: "RTC_InitTime pin (False # es) y mo d h mi s r = Some r4"
    using n day by (simp add: RTC_InitTime_def Let_def r4_def)
  have m: "R8_RTC_MODE_CTRL r4 AND RB_RTC_LOAD_LO \<noteq> 0" "R8_RTC_MODE_CTRL r4 AND RB_RTC_LOAD_HI \<noteq> 0"
    by (simp_all add: r4_def word_ao_dist rtc_bits)
  note tv = rtc_count_value [OF assms(2)]
  have low: "unat (rtc_count h mi s AND 0x3FFF) = 0"
    unfolding unat_mask_14 tv by (rule dvd_imp_mod_0, rule dvd_mult) simp
  have "rtc_count h mi s < DAY_CYCLES"
    using assms(2) unfolding word_less_nat_alt tv by (simp add: valid_time_def)
  then have "rtc_total (rtc_cycle r4) = 0 * unat DAY_CYCLES + unat (rtc_count h mi s)"
    using rtc_load [OF m(1), of 0] m(2) low by (simp add: r4_def)
  moreover have "day_number 2020 1 1 = 0" by (simp add: day_number_def BEGYEAR_def)
  ultimately show ?thesis using i tv by (simp add: epoch_seconds_def)
qed

text \<open>
  The three reads of \<open>RTC_GetTime\<close> are not one moment: over midnight it combines the day before
  with the time after, a day too early.
\<close>

lemma read_over_midnight:
  assumes "r = \<lparr>R8_RTC_FLAG_CTRL = 0, R8_RTC_MODE_CTRL = 0, R32_RTC_TRIG = 0,
    R32_RTC_CNT_32K = DAY_CYCLES - 1, R32_RTC_CNT_DAY = 59\<rparr>"
  shows "RTC_GetTime r r r = \<lparr>py = 2020, pmon = 2, pd = 29, ph = 23, pm = 59, ps = 59\<rparr>"
    and "RTC_GetTime r (rtc_cycle r) (rtc_cycle r) = \<lparr>py = 2020, pmon = 2, pd = 29, ph = 0, pm = 0, ps = 0\<rparr>"
    and "RTC_GetTime (rtc_cycle r) (rtc_cycle r) (rtc_cycle r) = \<lparr>py = 2020, pmon = 3, pd = 1, ph = 0, pm = 0, ps = 0\<rparr>"
proof -
  have y: "get_year 59 BEGYEAR = (59, 2020)" "get_year 60 BEGYEAR = (60, 2020)"
    by (simp_all add: get_year.simps BEGYEAR_def YearLength_def IsLeapYear_def)
  have l: "IsLeapYear 2020" by (simp add: IsLeapYear_def)
  have m: "get_month True 59 0 = (28, 1)" "get_month True 60 0 = (0, 2)"
    by (simp_all add: get_month.simps [of True] monthLength_def)
  note eval = RTC_GetTime_def Let_def R16_RTC_CNT_2S_def R16_RTC_CNT_32K_def rtc_cycle_def DAY_CYCLES_def
    y l m
  show "RTC_GetTime r r r = \<lparr>py = 2020, pmon = 2, pd = 29, ph = 23, pm = 59, ps = 59\<rparr>"
    "RTC_GetTime r (rtc_cycle r) (rtc_cycle r) = \<lparr>py = 2020, pmon = 2, pd = 29, ph = 0, pm = 0, ps = 0\<rparr>"
    "RTC_GetTime (rtc_cycle r) (rtc_cycle r) (rtc_cycle r) = \<lparr>py = 2020, pmon = 3, pd = 1, ph = 0, pm = 0, ps = 0\<rparr>"
    unfolding assms by (simp_all add: eval)
qed

section \<open>The trigger\<close>

lemma rtc_cycle_keeps: "R32_RTC_TRIG (rtc_cycle r) = R32_RTC_TRIG r"
  "R8_RTC_MODE_CTRL (rtc_cycle r) AND RB_RTC_TRIG_EN = R8_RTC_MODE_CTRL r AND RB_RTC_TRIG_EN"
  by (simp_all add: rtc_cycle_def Let_def and.assoc rtc_bits)

text \<open>
  A trigger configured for \<open>cyc\<close> periods ahead compares with the count then, but for two sums:
  exactly one day, where the comparison of the wrap is one too large and the count never gets there,
  and 32 bits or more, where the addition wraps first.
\<close>

definition trig_value :: "u32 \<Rightarrow> u32 \<Rightarrow> u32" where
  "trig_value c cyc = (let t = c + cyc in if t > 0xA8C00000 then t - 0xA8C00000 else t)"

lemma trig_configured:
  assumes "\<And>k. cnt k = c"
  shows "RTC_TRIGFunCfg cnt cyc r = Some (r\<lparr>R32_RTC_TRIG := trig_value c cyc,
    R8_RTC_MODE_CTRL := R8_RTC_MODE_CTRL r OR RB_RTC_TRIG_EN\<rparr>)"
  unfolding RTC_TRIGFunCfg_def RTC_GetCycle32k_def
  by (subst stable_read.simps) (simp add: assms trig_value_def Let_def)

lemma trig_value_correct:
  assumes "unat c < unat DAY_CYCLES" and "unat cyc < unat DAY_CYCLES"
    and "unat c + unat cyc < 2 ^ 32" and "unat c + unat cyc \<noteq> unat DAY_CYCLES"
  shows "unat (trig_value c cyc) = (unat c + unat cyc) mod unat DAY_CYCLES"
proof -
  have s: "unat (c + cyc) = unat c + unat cyc" using assms(3) by (simp add: unat_word_ariths)
  have g: "(c + cyc > 0xA8C00000) = (unat DAY_CYCLES < unat c + unat cyc)"
    by (simp add: word_less_nat_alt s)
  show ?thesis
  proof (cases "unat DAY_CYCLES < unat c + unat cyc")
    case True
    then have "unat (c + cyc - 0xA8C00000) = unat c + unat cyc - unat DAY_CYCLES"
      by (subst unat_sub) (simp_all add: word_le_nat_alt s)
    then show ?thesis using True assms(1,2) g by (simp add: trig_value_def Let_def le_mod_geq)
  next
    case False
    then show ?thesis using assms(4) g s by (simp add: trig_value_def Let_def)
  qed
qed

text \<open>At exactly one day the trigger value is one the count never takes.\<close>

lemma trig_never_reached:
  assumes "unat c + unat cyc = unat DAY_CYCLES" and "rtc_running r"
  shows "trig_value c cyc = DAY_CYCLES" and "R32_RTC_CNT_32K r \<noteq> trig_value c cyc"
proof -
  have "c + cyc = DAY_CYCLES"
    unfolding word_eq_iff_unsigned [where ?'a = nat] using assms(1) by (simp add: unat_word_ariths)
  then show "trig_value c cyc = DAY_CYCLES" by (simp add: trig_value_def Let_def DAY_CYCLES_def)
  then show "R32_RTC_CNT_32K r \<noteq> trig_value c cyc"
    using assms(2) by (auto simp: rtc_running_def)
qed

section \<open>Witness\<close>

definition sample_rtc :: rtc_regs where
  "sample_rtc = \<lparr>R8_RTC_FLAG_CTRL = 0, R8_RTC_MODE_CTRL = 0, R32_RTC_TRIG = 0,
     R32_RTC_CNT_32K = 5, R32_RTC_CNT_DAY = 100\<rparr>"


end
