(* ===== verification/HalProps.thy ===== *)
theory HalProps
  imports Hal ClockProps RfProps
begin

text \<open>
  Properties of the hardware layer: the tasks of the radio library are served to the end, the radio
  comes up exactly when the library does, the channels the boards come up on, and the data flash the
  library and the parameters share.
\<close>

section \<open>Tasks\<close>

text \<open>
  How the library serves a task: it calls the handler with the events that are set and keeps those
  it returns, until none is left.
\<close>

fun serve_events :: "(u16 \<Rightarrow> 's \<Rightarrow> (u16 \<times> 's) option) \<Rightarrow> nat \<Rightarrow> u16 \<Rightarrow> 's \<Rightarrow> 's option" where
  "serve_events handle 0 ev s = (if ev = 0 then Some s else None)"
| "serve_events handle (Suc n) ev s =
     (if ev = 0 then Some s
      else case handle ev s of None \<Rightarrow> None | Some (ev', s') \<Rightarrow> serve_events handle n ev' s')"

text \<open>
  What a handler owes the library: it always returns, it returns a proper part of the events it got,
  and it keeps what it needs to do so again.
\<close>

locale event_handler =
  fixes handle :: "u16 \<Rightarrow> 's \<Rightarrow> (u16 \<times> 's) option"
    and ok :: "'s \<Rightarrow> bool"
  assumes serves: "ok s \<Longrightarrow> ev \<noteq> 0 \<Longrightarrow>
    \<exists>ev' s'. handle ev s = Some (ev', s') \<and> ok s' \<and> ev' AND ev = ev' \<and> ev' \<noteq> ev"
begin

lemma serve_ends:
  "ok s \<Longrightarrow> card {k. bit ev k} \<le> n \<Longrightarrow> \<exists>s'. serve_events handle n ev s = Some s' \<and> ok s'"
proof (induction n arbitrary: ev s)
  case 0
  have "finite {k. bit ev k}" by (rule finite_subset [of _ "{..<16}"]) (auto dest: bit_imp_le_length)
  then have "{k. bit ev k} = {}" using 0(2) by simp
  then have "ev = 0" by (intro bit_word_eqI) auto
  then show ?case using 0(1) by simp
next
  case (Suc n)
  show ?case
  proof (cases "ev = 0")
    case False
    obtain ev' s' where h: "handle ev s = Some (ev', s')" "ok s'" "ev' AND ev = ev'" "ev' \<noteq> ev"
      using serves [OF Suc(2) False] by blast
    have fin: "finite {k. bit ev k}" by (rule finite_subset [of _ "{..<16}"]) (auto dest: bit_imp_le_length)
    have sub: "{k. bit ev' k} \<subseteq> {k. bit ev k}"
    proof
      fix k assume "k \<in> {k. bit ev' k}"
      then have "bit (ev' AND ev) k" using h(3) by simp
      then show "k \<in> {k. bit ev k}" by (simp add: bit_and_iff)
    qed
    have "{k. bit ev' k} \<noteq> {k. bit ev k}"
    proof
      assume e: "{k. bit ev' k} = {k. bit ev k}"
      have "ev' = ev" by (rule bit_word_eqI) (use e in blast)
      then show False using h(4) by simp
    qed
    then have "card {k. bit ev' k} < card {k. bit ev k}" using sub fin by (intro psubset_card_mono) auto
    then show ?thesis using Suc(1) [OF h(2), of ev'] Suc(3) False h(1) by simp
  qed (use Suc(2) in simp)
qed

lemma serve_all: "ok s \<Longrightarrow> \<exists>s'. serve_events handle 16 ev s = Some s' \<and> ok s'"
proof (rule serve_ends)
  have "card {k. bit ev k} \<le> card {..<16 :: nat}"
    by (rule card_mono) (auto dest: bit_imp_le_length)
  then show "card {k. bit ev k} \<le> 16" by simp
qed

end

lemma clear_bit:
  fixes ev b :: u16
  assumes "ev AND b \<noteq> 0" and "b = push_bit k 1" and "k < 16"
  shows "(ev XOR b) AND ev = ev XOR b" and "ev XOR b \<noteq> ev"
proof -
  have k: "bit ev k"
  proof (rule ccontr)
    assume "\<not> bit ev k"
    then have "ev AND b = 0" unfolding assms(2) by (intro bit_word_eqI) (auto simp: bit_simps)
    then show False using assms(1) by simp
  qed
  show "(ev XOR b) AND ev = ev XOR b"
    unfolding assms(2) using k by (intro bit_word_eqI) (auto simp: bit_simps)
  have "\<not> bit (ev XOR b) k" using k assms(2,3) by (simp add: bit_simps)
  then show "ev XOR b \<noteq> ev" using k by auto
qed

lemma event_bits: "SYS_EVENT_MSG = push_bit 15 1" "HAL_REG_INIT_EVENT = push_bit 13 1"
  "HAL_TEST_EVENT = push_bit 14 1" "SBP_RF_START_DEVICE_EVT = push_bit 0 1"
  "SBP_RF_PERIODIC_EVT = push_bit 1 1" "SBP_RF_RF_RX_EVT = push_bit 2 1"
  by (simp_all add: hal_event_defs rf_event_defs)

lemmas clear_event = clear_bit [OF _ event_bits(1)] clear_bit [OF _ event_bits(2)]
  clear_bit [OF _ event_bits(3)] clear_bit [OF _ event_bits(4)] clear_bit [OF _ event_bits(5)]
  clear_bit [OF _ event_bits(6)]

subsection \<open>The hardware task\<close>

definition hal_ok :: "hal_sys \<Rightarrow> bool" where
  "hal_ok s \<longleftrightarrow> (\<exists>hz. GetSysClock (hal_clk s) = Some hz \<and> 1000000 \<le> uint hz)"

lemma hal_ok_call [simp]: "hal_ok (hal_log c s) = hal_ok s"
  by (simp add: hal_ok_def hal_log_def)

lemma calibration_ok:
  assumes "hal_ok s"
  shows "\<exists>c. Lib_Calibration_LSI osc s = Some (s\<lparr>hal_clk := c\<rparr>) \<and> hal_ok (s\<lparr>hal_clk := c\<rparr>)"
proof -
  obtain hz where hz: "GetSysClock (hal_clk s) = Some hz" "1000000 \<le> uint hz"
    using assms by (auto simp: hal_ok_def)
  then obtain c where "Calibration_LSI osc Level_64 (hal_clk s) = Some c" "GetSysClock c = Some hz"
    using calibration_returns by blast
  then show ?thesis using hz by (auto simp: hal_ok_def Lib_Calibration_LSI_def)
qed

lemma HAL_serves:
  assumes "hal_ok s" and "ev \<noteq> 0"
  shows "\<exists>ev' s'. HAL_ProcessEvent osc msg ev s = Some (ev', s') \<and> hal_ok s' \<and> ev' AND ev = ev' \<and> ev' \<noteq> ev"
proof -
  obtain c where c: "Lib_Calibration_LSI osc (hal_log BLE_RegInit s) = Some ((hal_log BLE_RegInit s)\<lparr>hal_clk := c\<rparr>)"
    "hal_ok ((hal_log BLE_RegInit s)\<lparr>hal_clk := c\<rparr>)"
    using calibration_ok [of "hal_log BLE_RegInit s"] assms(1) by auto
  show ?thesis
    using assms c clear_event by (auto simp: HAL_ProcessEvent_def split: option.split)
qed

interpretation hal: event_handler "HAL_ProcessEvent osc msg" hal_ok
  by unfold_locales (rule HAL_serves)

lemma other_event:
  fixes ev :: u16
  assumes "j \<noteq> k"
  shows "(ev XOR push_bit k 1) AND push_bit j 1 = ev AND push_bit j 1"
  using assms by (intro bit_word_eqI) (auto simp: bit_simps)

lemma same_event:
  fixes ev :: u16
  assumes "ev AND push_bit k 1 \<noteq> 0"
  shows "(ev XOR push_bit k 1) AND push_bit k 1 = 0"
proof -
  have "bit ev k"
  proof (rule ccontr)
    assume "\<not> bit ev k"
    then have "ev AND push_bit k 1 = 0" by (intro bit_word_eqI) (auto simp: bit_simps)
    then show False using assms by simp
  qed
  then show ?thesis by (intro bit_word_eqI) (auto simp: bit_simps)
qed

lemma hal_other:
  "(ev XOR SYS_EVENT_MSG) AND HAL_REG_INIT_EVENT = ev AND HAL_REG_INIT_EVENT"
  "(ev XOR SYS_EVENT_MSG) AND HAL_TEST_EVENT = ev AND HAL_TEST_EVENT"
  "(ev XOR HAL_REG_INIT_EVENT) AND SYS_EVENT_MSG = ev AND SYS_EVENT_MSG"
  "(ev XOR HAL_REG_INIT_EVENT) AND HAL_TEST_EVENT = ev AND HAL_TEST_EVENT"
  "(ev XOR HAL_TEST_EVENT) AND SYS_EVENT_MSG = ev AND SYS_EVENT_MSG"
  "(ev XOR HAL_TEST_EVENT) AND HAL_REG_INIT_EVENT = ev AND HAL_REG_INIT_EVENT"
  unfolding event_bits by (rule other_event, simp)+

lemma hal_same:
  "ev AND SYS_EVENT_MSG \<noteq> 0 \<Longrightarrow> (ev XOR SYS_EVENT_MSG) AND SYS_EVENT_MSG = 0"
  "ev AND HAL_REG_INIT_EVENT \<noteq> 0 \<Longrightarrow> (ev XOR HAL_REG_INIT_EVENT) AND HAL_REG_INIT_EVENT = 0"
  "ev AND HAL_TEST_EVENT \<noteq> 0 \<Longrightarrow> (ev XOR HAL_TEST_EVENT) AND HAL_TEST_EVENT = 0"
  unfolding event_bits by (rule same_event, assumption)+

lemma serve_last: "handle ev s = Some (0, s) \<Longrightarrow> serve_events handle (Suc n) ev s = Some s"
  by (cases n) simp_all

lemma serve_step: "ev \<noteq> 0 \<Longrightarrow> handle ev s = Some (ev', s') \<Longrightarrow>
  serve_events handle (Suc n) ev s = serve_events handle n ev' s'"
  by simp

text \<open>The three events of the task, served in the order of the handler.\<close>

definition hal_served :: "u8 list option \<Rightarrow> u16 \<Rightarrow> hal_call list" where
  "hal_served msg ev =
     (if ev AND SYS_EVENT_MSG \<noteq> 0 then (case msg of Some m \<Rightarrow> [Hal_msg_deallocate m] | None \<Rightarrow> []) else []) @
     (if ev AND HAL_REG_INIT_EVENT \<noteq> 0 then [BLE_RegInit, Hal_start_task HAL_REG_INIT_EVENT 192000] else []) @
     (if ev AND HAL_TEST_EVENT \<noteq> 0 then [PRINT ''* '', Hal_start_task HAL_TEST_EVENT 1600] else [])"

lemma hal_quiet:
  assumes "ev AND SYS_EVENT_MSG = 0" "ev AND HAL_REG_INIT_EVENT = 0" "ev AND HAL_TEST_EVENT = 0"
  shows "serve_events (HAL_ProcessEvent osc msg) (Suc n) ev s = Some s"
  by (rule serve_last) (simp add: HAL_ProcessEvent_def assms)

lemma hal_test:
  assumes "ev AND SYS_EVENT_MSG = 0" "ev AND HAL_REG_INIT_EVENT = 0" "hal_ok s"
  shows "\<exists>s'. serve_events (HAL_ProcessEvent osc msg) (Suc (Suc n)) ev s = Some s' \<and> hal_ok s' \<and>
    hal_calls s' = hal_calls s @ hal_served msg ev"
proof (cases "ev AND HAL_TEST_EVENT = 0")
  case True
  then show ?thesis using hal_quiet [OF assms(1,2)] assms by (simp add: hal_served_def)
next
  case False
  let ?s = "hal_log (Hal_start_task HAL_TEST_EVENT (MS1_TO_SYSTEM_TIME 1000)) (hal_log (PRINT ''* '') s)"
  have "HAL_ProcessEvent osc msg ev s = Some (ev XOR HAL_TEST_EVENT, ?s)"
    using False assms by (simp add: HAL_ProcessEvent_def)
  moreover have "serve_events (HAL_ProcessEvent osc msg) (Suc n) (ev XOR HAL_TEST_EVENT) ?s = Some ?s"
    using assms(1,2) False by (intro hal_quiet) (simp_all add: hal_other hal_same)
  ultimately show ?thesis using False assms
    by (auto simp: hal_served_def hal_log_def MS1_TO_SYSTEM_TIME_def hal_ok_def)
qed

lemma hal_reg:
  assumes "ev AND SYS_EVENT_MSG = 0" "hal_ok s"
  shows "\<exists>s'. serve_events (HAL_ProcessEvent osc msg) (Suc (Suc (Suc n))) ev s = Some s' \<and> hal_ok s' \<and>
    hal_calls s' = hal_calls s @ hal_served msg ev"
proof (cases "ev AND HAL_REG_INIT_EVENT = 0")
  case True
  then show ?thesis using hal_test [OF assms(1) True assms(2)] by simp
next
  case False
  obtain c where c: "Lib_Calibration_LSI osc (hal_log BLE_RegInit s) = Some ((hal_log BLE_RegInit s)\<lparr>hal_clk := c\<rparr>)"
    "hal_ok ((hal_log BLE_RegInit s)\<lparr>hal_clk := c\<rparr>)"
    using calibration_ok [of "hal_log BLE_RegInit s"] assms(2) by auto
  define s1 where "s1 = hal_log (Hal_start_task HAL_REG_INIT_EVENT (MS1_TO_SYSTEM_TIME BLE_CALIBRATION_PERIOD))
    ((hal_log BLE_RegInit s)\<lparr>hal_clk := c\<rparr>)"
  have h: "HAL_ProcessEvent osc msg ev s = Some (ev XOR HAL_REG_INIT_EVENT, s1)"
    using False assms c by (simp add: HAL_ProcessEvent_def s1_def)
  have e: "(ev XOR HAL_REG_INIT_EVENT) AND SYS_EVENT_MSG = 0"
    "(ev XOR HAL_REG_INIT_EVENT) AND HAL_REG_INIT_EVENT = 0"
    "(ev XOR HAL_REG_INIT_EVENT) AND HAL_TEST_EVENT = ev AND HAL_TEST_EVENT"
    using assms(1) False by (simp_all add: hal_other hal_same)
  have "hal_ok s1" using c(2) by (simp add: s1_def)
  then obtain s' where "serve_events (HAL_ProcessEvent osc msg) (Suc (Suc n)) (ev XOR HAL_REG_INIT_EVENT) s1 = Some s'"
    "hal_ok s'" "hal_calls s' = hal_calls s1 @ hal_served msg (ev XOR HAL_REG_INIT_EVENT)"
    using hal_test [OF e(1,2)] by blast
  then show ?thesis using False assms(1) h e
    by (auto simp: hal_served_def s1_def hal_log_def MS1_TO_SYSTEM_TIME_def BLE_CALIBRATION_PERIOD_def)
qed

text \<open>
  The task of the hardware layer serves every set of events in at most four calls of its
  handler, whatever the oscillator measures: the message is given back, the calibration of radio and
  oscillator runs once and is started again for two minutes later, the test message is printed and
  started again for one second later, and other events are dropped.
\<close>

theorem hal_events_served:
  assumes "GetSysClock (hal_clk s) = Some hz" and "1000000 \<le> uint hz"
  shows "\<exists>s' hz'. serve_events (HAL_ProcessEvent osc msg) 4 ev s = Some s' \<and>
    hal_calls s' = hal_calls s @ hal_served msg ev \<and>
    GetSysClock (hal_clk s') = Some hz' \<and> 1000000 \<le> uint hz'"
proof -
  have ok: "hal_ok s" using assms by (auto simp: hal_ok_def)
  have "\<exists>s'. serve_events (HAL_ProcessEvent osc msg) 4 ev s = Some s' \<and> hal_ok s' \<and>
    hal_calls s' = hal_calls s @ hal_served msg ev"
  proof (cases "ev AND SYS_EVENT_MSG = 0")
    case True
    then show ?thesis using hal_reg [OF True ok, of osc msg 1] by (simp add: numeral_eq_Suc)
  next
    case False
    define s1 where "s1 = (case msg of Some m \<Rightarrow> hal_log (Hal_msg_deallocate m) s | None \<Rightarrow> s)"
    have h: "HAL_ProcessEvent osc msg ev s = Some (ev XOR SYS_EVENT_MSG, s1)"
      using False by (simp add: HAL_ProcessEvent_def s1_def)
    have e: "(ev XOR SYS_EVENT_MSG) AND SYS_EVENT_MSG = 0"
      "(ev XOR SYS_EVENT_MSG) AND HAL_REG_INIT_EVENT = ev AND HAL_REG_INIT_EVENT"
      "(ev XOR SYS_EVENT_MSG) AND HAL_TEST_EVENT = ev AND HAL_TEST_EVENT"
      using False by (simp_all add: hal_other hal_same)
    have "hal_ok s1" using ok by (simp add: s1_def split: option.split)
    then obtain s' where "serve_events (HAL_ProcessEvent osc msg) 3 (ev XOR SYS_EVENT_MSG) s1 = Some s'"
      "hal_ok s'" "hal_calls s' = hal_calls s1 @ hal_served msg (ev XOR SYS_EVENT_MSG)"
      using hal_reg [OF e(1), of s1 osc msg 0] by (auto simp: numeral_eq_Suc)
    moreover have "ev \<noteq> 0" using False by auto
    ultimately have "serve_events (HAL_ProcessEvent osc msg) 4 ev s = Some s'"
      using h serve_step [of ev "HAL_ProcessEvent osc msg" s _ s1 3] by (simp add: numeral_eq_Suc)
    then show ?thesis using False e \<open>hal_ok s'\<close>
        \<open>hal_calls s' = hal_calls s1 @ hal_served msg (ev XOR SYS_EVENT_MSG)\<close>
      by (auto simp: hal_served_def s1_def hal_log_def split: option.split)
  qed
  then show ?thesis by (auto simp: hal_ok_def)
qed

subsection \<open>The radio task of the controller\<close>

definition rf_ok :: "rf_tx_sys \<Rightarrow> bool" where
  "rf_ok s \<longleftrightarrow> length (pl_data (rf_tx_payload s)) = 31 \<and>
     length (rd_channels (tx_radio s)) = CHANNEL_MAX \<and> rb_wf (rb_cdc_rx (tx_usb s))"

lemma rf_ok_call [simp]: "rf_ok (tx_call c s) = rf_ok s"
  by (simp add: rf_ok_def tx_call_def)

lemma send_data_ok:
  assumes "rf_ok s"
  shows "\<exists>s' cs. rf_send_data s = Some s' \<and> rf_ok s' \<and> tx_calls s' = tx_calls s @ cs"
proof -
  let ?q = "rb_cdc_rx (tx_usb s)" and ?d = "pl_data (rf_tx_payload s)"
  have l: "length ?d = 31" and wf: "rb_wf ?q" using assms by (simp_all add: rf_ok_def)
  define k where "k = min 31 (length (rb_contents ?q))"
  define d where "d = take 31 (rb_contents ?q) @ drop k ?d"
  obtain q' where q': "rt_ringbuffer_get ?q ?d 31 = Some (k, d, q')" "rb_wf q'"
    using rb.get_law [OF wf, of 31 ?d] l by (auto simp: k_def d_def)
  have ld: "length d = 31" using l by (auto simp: d_def k_def)
  have "k + 1 \<le> Suc (length d)" using ld by (simp add: k_def)
  then show ?thesis
    using assms q' ld
    by (auto simp: rf_send_data_def usbd_cdc_acm_read_def payload_bytes_def read_bytes_def tx_call_def
        rf_ok_def Let_def)
qed

lemma RF_serves:
  assumes "rf_ok s" and "ev \<noteq> 0"
  shows "\<exists>ev' s'. RF_ProcessEvent ev msg s = Some (ev', s') \<and> rf_ok s' \<and> ev' AND ev = ev' \<and> ev' \<noteq> ev"
proof -
  have "\<exists>s2. (if tx_last_update s \<noteq> last_update (tx_radio s) then rf_send_channels (tx_call RF_Shut s)
      else rf_send_data (tx_call RF_Shut s)) = Some s2 \<and> rf_ok s2"
  proof (cases "tx_last_update s \<noteq> last_update (tx_radio s)")
    case True
    then show ?thesis
      using send_channels_spec [of "tx_call RF_Shut s"] assms(1)
      by (auto simp: rf_ok_def tx_call_def)
  next
    case False
    then show ?thesis using send_data_ok [of "tx_call RF_Shut s"] assms(1) by auto
  qed
  then obtain s2 where s2: "(if tx_last_update s \<noteq> last_update (tx_radio s) then rf_send_channels (tx_call RF_Shut s)
      else rf_send_data (tx_call RF_Shut s)) = Some s2" "rf_ok s2" by blast
  have same: "tx_last_update (tx_call RF_Shut s) = tx_last_update s"
    "tx_radio (tx_call RF_Shut s) = tx_radio s" by (simp_all add: tx_call_def)
  show ?thesis
    using assms s2 clear_event unfolding RF_ProcessEvent_def Let_def same
    by (auto split: option.split)
qed

interpretation rf: event_handler "\<lambda>ev. RF_ProcessEvent ev msg" rf_ok
  by unfold_locales (rule RF_serves)

text \<open>
  Both tasks of the controller are always served to the end: whatever events are set, whatever
  message is waiting and whatever the oscillator measures, at most sixteen calls of the handler
  clear all of them, without a division by zero in the calibration and without an access outside
  the payload, the channels or the ring of the host's data, and leave the task ready for the next
  events.
\<close>

theorem controller_tasks_served:
  assumes "rf_ok s" and "hal_ok h"
  shows "(\<exists>s'. serve_events (\<lambda>ev. RF_ProcessEvent ev msg) 16 ev s = Some s' \<and> rf_ok s') \<and>
    (\<exists>h'. serve_events (HAL_ProcessEvent osc msg') 16 ev' h = Some h' \<and> hal_ok h')"
  using rf.serve_all [OF assms(1)] hal.serve_all [OF assms(2)] by blast

section \<open>Initialisation of the library\<close>

lemma list_6: "length xs = 6 \<Longrightarrow> \<exists>a b c d e f. xs = [a, b, c, d, e, f]"
  by (auto simp: length_Suc_conv eval_nat_numeral)

lemma mac_loop_copies:
  assumes "length mac = 6" and "length (MacAddr cfg) = 6"
  shows "mac_loop mac cfg 0 6 = Some (cfg\<lparr>MacAddr := mac\<rparr>)"
proof -
  obtain a b c d e f where m: "mac = [a, b, c, d, e, f]" using list_6 [OF assms(1)] by blast
  obtain a' b' c' d' e' f' where c: "MacAddr cfg = [a', b', c', d', e', f']" using list_6 [OF assms(2)] by blast
  show ?thesis unfolding m by (simp add: c eval_nat_numeral)
qed

lemma rx_mac_loop_copies:
  assumes "length mac = 6" and "length (MacAddr cfg) = 6" and "length (mac_addr rd) = 6"
  shows "rx_mac_loop mac cfg rd 0 0 6 =
    Some (cfg\<lparr>MacAddr := mac\<rparr>, rd\<lparr>mac_addr := mac\<rparr>, sum_list (map ucast mac))"
proof -
  obtain a b c d e f where m: "mac = [a, b, c, d, e, f]" using list_6 [OF assms(1)] by blast
  obtain a' b' c' d' e' f' where c: "MacAddr cfg = [a', b', c', d', e', f']" using list_6 [OF assms(2)] by blast
  obtain a2 b2 c2 d2 e2 f2 where r: "mac_addr rd = [a2, b2, c2, d2, e2, f2]" using list_6 [OF assms(3)] by blast
  show ?thesis unfolding m by (simp add: c r eval_nat_numeral add.assoc)
qed

text \<open>The configuration both boards hand to the library.\<close>

definition ble_config :: "u32 \<Rightarrow> u8 list \<Rightarrow> bleConfig_t" where
  "ble_config mem_buf mac = (ble_fields mem_buf)\<lparr>MacAddr := mac\<rparr>"

lemma ble_start_config:
  "ble_start lib (ble_config mem_buf mac) =
     (if mem_buf = 0 then Inl Halt_memory
      else if lib (ble_config mem_buf mac) \<noteq> 0 then Inl (Halt_library (lib (ble_config mem_buf mac)))
      else Inr (ble_config mem_buf mac))"
  by (simp add: ble_start_def ble_config_def ble_fields_def ble_zero_def BLE_MEMHEAP_SIZE_def)

lemma ble_init:
  assumes "length mac = 6"
  shows "CH58X_BLEInit v lib mem_buf mac =
    Some (if v then ble_start lib (ble_config mem_buf mac) else Inl Halt_version)"
  using mac_loop_copies [OF assms, of "ble_fields mem_buf"]
  by (simp add: CH58X_BLEInit_def ble_config_def ble_fields_def ble_zero_def)

lemma rx_ble_init:
  assumes "length mac = 6" and "length (mac_addr rd) = 6"
  shows "rx_CH58X_BLEInit v lib mem_buf mac rd =
    Some (if v then (case ble_start lib (ble_config mem_buf mac) of Inl h \<Rightarrow> Inl h
       | Inr c \<Rightarrow> Inr (c, rd\<lparr>mac_addr := mac, nrf_channel := ucast (sum_list (map ucast mac) mod 32 :: u16)\<rparr>))
      else Inl Halt_version)"
  using rx_mac_loop_copies [OF assms(1) _ assms(2), of "ble_fields mem_buf"]
  by (simp add: rx_CH58X_BLEInit_def ble_config_def ble_fields_def ble_zero_def)

lemma time_init_returns:
  assumes "GetSysClock c = Some hz" and "1000000 \<le> uint hz"
    and "pin k" "pin (k + 1)" "pin (k + 2)" and "True \<in> set edges" and "rtc_running (regs d)"
  shows "\<exists>c' r. HAL_TimeInit osc pin edges c d = Some (c', d\<lparr>regs := r\<rparr>) \<and> GetSysClock c' = Some hz \<and>
    rtc_running (rtc_cycle r) \<and> rtc_total (rtc_cycle r) = 0"
proof -
  define c2 where "c2 = c\<lparr>R8_CK32K_CONFIG :=
    (R8_CK32K_CONFIG c AND NOT (RB_CLK_OSC32K_XT OR RB_CLK_XT32K_PON)) OR RB_CLK_INT32K_PON\<rparr>"
  have "GetSysClock c2 = Some hz" using assms(1) by (simp add: c2_def GetSysClock_def)
  then obtain c' where c': "Calibration_LSI osc Level_64 c2 = Some c'" "GetSysClock c' = Some hz"
    using calibration_returns assms(2) by blast
  have v: "valid_date 2020 1 1" "valid_time 0 0 0" "day_number 2020 1 1 = 0"
    by (simp_all add: valid_date_def valid_time_def days_in_month_def day_number_def BEGYEAR_def)
  obtain r where r: "RTC_InitTime pin edges 2020 1 1 0 0 0 (regs d) = Some r" "rtc_running (rtc_cycle r)"
    "rtc_total (rtc_cycle r) = epoch_seconds 2020 1 1 0 0 0 * 32768"
    using init_time_running [OF v(1,2) _ assms(3-7)] v(3) by auto
  then show ?thesis using c' v(3) unfolding HAL_TimeInit_def Let_def
    by (auto simp: c2_def epoch_seconds_def)
qed

lemma hal_init_returns:
  assumes "hal_ok s" and "pin k" "pin (k + 1)" "pin (k + 2)" and "True \<in> set edges"
    and "rtc_running (regs (hal_drv s))"
  shows "\<exists>s'. HAL_Init osc pin edges s = Some s' \<and> hal_ok s' \<and>
    hal_calls s' = hal_calls s @ [TMOS_ProcessEventRegister, TMOS_TimerInit,
      Hal_start_task HAL_REG_INIT_EVENT 192000] \<and>
    rtc_total (rtc_cycle (regs (hal_drv s'))) = 0"
proof -
  obtain hz where hz: "GetSysClock (hal_clk s) = Some hz" "1000000 \<le> uint hz"
    using assms(1) by (auto simp: hal_ok_def)
  obtain c r where "HAL_TimeInit osc pin edges (hal_clk s) (hal_drv s) = Some (c, (hal_drv s)\<lparr>regs := r\<rparr>)"
    "GetSysClock c = Some hz" "rtc_total (rtc_cycle r) = 0"
    using time_init_returns [OF hz assms(2-6)] by blast
  then show ?thesis using hz(2)
    by (auto simp: HAL_Init_def hal_log_def hal_ok_def MS1_TO_SYSTEM_TIME_def BLE_CALIBRATION_PERIOD_def)
qed

lemma sum_fits:
  assumes "length (xs :: u8 list) \<le> 6"
  shows "unat (sum_list (map ucast xs) :: u16) = (\<Sum>x\<leftarrow>xs. unat x)"
proof -
  have s: "(sum_list (map ucast xs) :: u16) = of_nat (\<Sum>x\<leftarrow>xs. unat x)"
    by (induction xs) simp_all
  have "(\<Sum>x\<leftarrow>xs. unat x) \<le> 256 * length xs"
  proof (induction xs)
    case (Cons x xs)
    have "unat x < 256" using unsigned_less [of x, where ?'a = nat] by simp
    then show ?case using Cons by simp
  qed simp
  then have "(\<Sum>x\<leftarrow>xs. unat x) < 2 ^ 16" using assms by simp
  then show ?thesis unfolding s by (simp only: unat_of_nat) (simp add: take_bit_nat_eq_self)
qed

text \<open>What both boards configure, but for the channel.\<close>

definition same_air :: "rf_config_t \<Rightarrow> rf_config_t \<Rightarrow> bool" where
  "same_air a b \<longleftrightarrow> accessAddress a = accessAddress b \<and> CRCInit a = CRCInit b \<and> LLEMode a = LLEMode b \<and>
     RxMaxlen a = RxMaxlen b"


section \<open>The shared data flash\<close>

text \<open>
  The documented extent of the flash commands: an erase clears whole pages of 256 bytes, a write
  changes the bytes written.
\<close>

definition flash_frame :: "'e flash_ops \<Rightarrow> bool" where
  "flash_frame f \<longleftrightarrow>
     (\<forall>e a n b m. b + m \<le> a div 256 * 256 \<or> (a + n + 255) div 256 * 256 \<le> b \<longrightarrow>
        EEPROM_READ f (EEPROM_ERASE f e a n) b m = EEPROM_READ f e b m) \<and>
     (\<forall>e a bs b m. b + m \<le> a \<or> a + length bs \<le> b \<longrightarrow>
        EEPROM_READ f (snd (EEPROM_WRITE f e a bs)) b m = EEPROM_READ f e b m)"

lemma read_after_erase:
  assumes "flash_frame f" and "b + m \<le> a div 256 * 256 \<or> (a + n + 255) div 256 * 256 \<le> b"
  shows "EEPROM_READ f (EEPROM_ERASE f e a n) b m = EEPROM_READ f e b m"
  using assms unfolding flash_frame_def by blast

lemma read_after_write:
  assumes "flash_frame f" and "b + m \<le> a \<or> a + length bs \<le> b"
  shows "EEPROM_READ f (snd (EEPROM_WRITE f e a bs)) b m = EEPROM_READ f e b m"
  using assms unfolding flash_frame_def by blast

lemma snv_addr: "unat BLE_SNV_ADDR = 0x7E00"
  by (simp add: BLE_SNV_ADDR_def FLASH_ROM_MAX_SIZE_def)

fun library_writes :: "'e flash_ops \<Rightarrow> 'e \<Rightarrow> (nat \<times> nat \<times> u8 list) list \<Rightarrow> 'e option" where
  "library_writes f e [] = Some e"
| "library_writes f e ((addr, num, pBuf) # ws) = do {
     (r, e1) \<leftarrow> Lib_Write_Flash f e addr num pBuf;
     library_writes f e1 ws
   }"

lemma library_write_low:
  assumes "flash_frame f" and "unat BLE_SNV_ADDR \<le> addr" and "b + m \<le> 0x7E00"
    and "Lib_Write_Flash f e addr num pBuf = Some (r, e1)"
  shows "EEPROM_READ f e1 b m = EEPROM_READ f e b m"
proof -
  have "126 \<le> addr div 256" using assms(2) div_le_mono [of "126 * 256" addr 256] by (simp add: snv_addr)
  then have "b + m \<le> addr div 256 * 256" "b + m \<le> addr" using assms(2,3) by (simp_all add: snv_addr)
  then show ?thesis using assms(1,4)
    by (auto simp: Lib_Write_Flash_def Let_def read_bytes_def read_after_write read_after_erase split: if_splits)
qed

lemma library_writes_low:
  assumes "flash_frame f" and "b + m \<le> 0x7E00"
  shows "\<forall>w\<in>set ws. unat BLE_SNV_ADDR \<le> fst w \<Longrightarrow> library_writes f e ws = Some e' \<Longrightarrow>
    EEPROM_READ f e' b m = EEPROM_READ f e b m"
proof (induction ws arbitrary: e)
  case (Cons w ws)
  obtain addr num pBuf where w: "w = (addr, num, pBuf)" by (cases w) auto
  obtain r e1 where e1: "Lib_Write_Flash f e addr num pBuf = Some (r, e1)" "library_writes f e1 ws = Some e'"
    using Cons(3) by (auto simp: w split: bind_splits)
  show ?case
    using Cons(1) [OF _ e1(2)] library_write_low [OF assms(1) _ assms(2) e1(1)] Cons(2) by (simp add: w)
qed simp

lemma saves_high:
  assumes "flash_frame f" and "0x1000 \<le> b" and "length bs \<le> 0x1000"
  shows "EEPROM_READ f (snd (EEPROM_WRITE f (EEPROM_ERASE f e 0 EEPROM_BLOCK_SIZE) 0 bs)) b m = EEPROM_READ f e b m"
  using assms(2,3)
  by (simp add: read_after_write [OF assms(1)] read_after_erase [OF assms(1)] EEPROM_BLOCK_SIZE_def)

lemma rx_checksum_sum: "n \<le> length xs \<Longrightarrow> \<exists>c. rx_checksum xs n = Some c"
  by (induction xs n rule: rx_checksum.induct) auto

lemma length_rx_bytes: "length (rx_params_bytes q) = 12"
  by (simp add: rx_params_bytes_def length_u16_bytes length_u32_bytes)

text \<open>
  C39: The parameters and the settings of the radio library do not touch each other in the data
  flash: after any sequence of writes of the library at or above the address it is configured with,
  the parameters of either board load exactly as before; and saving the parameters changes nothing the
  library reads there.
\<close>

theorem flash_areas_separate:
  assumes "flash_frame f" and "\<forall>w\<in>set ws. unat BLE_SNV_ADDR \<le> fst w"
    and "library_writes f e ws = Some e'" and "params_wf p" and "unat BLE_SNV_ADDR \<le> addr"
  shows "params_load f e' = params_load f e \<and> rx_params_load f e' = rx_params_load f e \<and>
    (\<exists>r p1 e1. params_save f e p = Some (r, p1, e1) \<and> Lib_Read_Flash f e1 addr num = Lib_Read_Flash f e addr num) \<and>
    (\<exists>r q1 e1. rx_params_save f e q = Some (r, q1, e1) \<and> Lib_Read_Flash f e1 addr num = Lib_Read_Flash f e addr num)"
proof -
  have loads: "params_load f e' = params_load f e \<and> rx_params_load f e' = rx_params_load f e"
    using library_writes_low [OF assms(1) _ assms(2,3)]
    by (simp add: params_load_def rx_params_load_def EEPROM_USER_START_ADDR_def sizeof_params_def
        sizeof_rx_params_def)
  have high: "0x1000 \<le> addr" using assms(5) by (simp add: snv_addr)
  have save: "\<exists>r p1 e1. params_save f e p = Some (r, p1, e1) \<and>
      Lib_Read_Flash f e1 addr num = Lib_Read_Flash f e addr num"
    using saves_high [OF assms(1) high] length_bytes [OF params_wf_checksum [THEN iffD2, OF assms(4)]]
    by (simp add: save_spec [OF assms(4)] Let_def Lib_Read_Flash_def split_beta)
  have "\<exists>r q1 e1. rx_params_save f e q = Some (r, q1, e1) \<and>
      Lib_Read_Flash f e1 addr num = Lib_Read_Flash f e addr num"
    using saves_high [OF assms(1) high] rx_checksum_sum [of "sizeof_rx_params - 4" "rx_params_bytes q"]
    by (auto simp: rx_params_save_def Let_def Lib_Read_Flash_def split_beta EEPROM_USER_START_ADDR_def
        sizeof_rx_params_def length_rx_bytes)
  then show ?thesis using loads save by blast
qed

section \<open>Witnesses\<close>

definition sample_clk :: clk_regs where
  "sample_clk = \<lparr>R16_CLK_SYS_CFG = 0x46, R8_HFCK_PWR_CTRL = 0x1C, R8_PLL_CONFIG = 0x80, R8_FLASH_CFG = 2,
     R8_CK32K_CONFIG = 0, R8_XT32M_TUNE = 0, R8_XT32K_TUNE = 0, R16_INT32K_TUNE = 0x1011,
     R8_OSC_CAL_CTRL = 0\<rparr>"

definition sample_hal :: hal_sys where
  "sample_hal = \<lparr>hal_clk = sample_clk, hal_drv = \<lparr>regs = sample_rtc, RTCTigFlag = 0\<rparr>, hal_calls = []\<rparr>"

lemma sample_clock: "GetSysClock (hal_clk sample_hal) = Some 80000000"
  by (simp add: sample_hal_def sample_clk_def GetSysClock_def RB_CLK_SYS_MOD_def udiv_def Let_def)

lemma sample_hal_ok: "hal_ok sample_hal"
  by (simp add: hal_ok_def sample_clock)

lemma sample_hal_running: "rtc_running (regs (hal_drv sample_hal))"
  by (simp add: sample_hal_def sample_rtc_def rtc_running_def DAY_CYCLES_def)

lemma sample_tx_ok: "rf_ok sample_tx"
  using usb_ready_ok by (simp add: rf_ok_def sample_tx_def CHANNEL_MAX_def usb_inv_def)

lemma hal_events_served_witness:
  "\<exists>s'. serve_events (HAL_ProcessEvent (\<lambda>k r. (4700, 0)) None) 4 0x6001 sample_hal = Some s' \<and>
    hal_calls s' = [BLE_RegInit, Hal_start_task HAL_REG_INIT_EVENT 192000, PRINT ''* '',
      Hal_start_task HAL_TEST_EVENT 1600]"
proof -
  have "hal_calls sample_hal @ hal_served None 0x6001 = [BLE_RegInit,
      Hal_start_task HAL_REG_INIT_EVENT 192000, PRINT ''* '', Hal_start_task HAL_TEST_EVENT 1600]"
    by (simp add: sample_hal_def hal_served_def hal_event_defs)
  then show ?thesis
    using hal_events_served [OF sample_clock, of "\<lambda>k r. (4700, 0)" None "0x6001"] by auto
qed

lemma controller_tasks_served_witness:
  "(\<exists>s'. serve_events (\<lambda>ev. RF_ProcessEvent ev None) 16 0x8006 sample_tx = Some s' \<and> rf_ok s') \<and>
    (\<exists>h'. serve_events (HAL_ProcessEvent (\<lambda>k r. (1, 2)) None) 16 0xFFFF sample_hal = Some h' \<and> hal_ok h')"
  by (rule controller_tasks_served [OF sample_tx_ok sample_hal_ok])


lemma byte_flash_frame: "flash_frame byte_flash"
proof -
  have page: "a div 256 * 256 \<le> a" "a + n \<le> (a + n + 255) div 256 * 256" for a n :: nat
    using div_mult_mod_eq [of "a + n + 255" 256] mod_less_divisor [of 256 "a + n + 255"] by linarith+
  show ?thesis
    unfolding flash_frame_def byte_flash_def using page by (auto intro!: map_cong) (metis le_trans not_le)+
qed

lemma flash_areas_separate_witness:
  "\<exists>e'. library_writes byte_flash (\<lambda>_. 0xFF) [(0x7E00, 1, [1, 2, 3, 4])] = Some e' \<and>
    e' 0x7E02 = 3 \<and> params_load byte_flash e' = params_load byte_flash (\<lambda>_. 0xFF)"
proof -
  define e' where "e' = (\<lambda>i. if 0x7E00 \<le> i \<and> i < 0x7E00 + length [1, 2, 3, 4 :: u8] then [1, 2, 3, 4] ! (i - 0x7E00)
    else if 0x7E00 \<le> i \<and> i < 0x7E00 + 4 then 0xFF else (0xFF :: u8))"
  have w: "library_writes byte_flash (\<lambda>_. 0xFF) [(0x7E00, 1, [1, 2, 3, 4])] = Some e'"
    by (simp add: Lib_Write_Flash_def byte_flash_def read_bytes_def e'_def Let_def fun_eq_iff)
  have "e' 0x7E02 = 3" by (simp add: e'_def)
  then show ?thesis
    using flash_areas_separate [OF byte_flash_frame _ w sample_params_wf, of "0x7E00"] w
    by (simp add: snv_addr)
qed

end
