(* ===== verification/Kernel.thy ===== *)
theory Kernel
  imports Prelude
begin

text \<open>
  The part of the real-time kernel every thread of both boards rests on, in the configuration of
  \<open>rtconfig.h\<close>: one core, 32 priorities, one level of the timer list, no software timers. It is
  the scheduler (\<open>rt-thread/src/scheduler.c\<close>), the timer list (\<open>timer.c\<close>), sleeping threads
  (\<open>thread.c\<close>), the tick (\<open>clock.c\<close>) and the counting semaphores (\<open>ipc.c\<close>).

  Threads are numbered. A doubly linked list of the kernel is the list of the threads whose nodes it
  links; the theory of the linked lists shows that its operations on pointers are these. A thread has
  one node, \<open>tlist\<close>, which is in the ready list of its priority, in the waiting list of a
  semaphore or in none, and one timer. An operation is one step, with the rescheduling it ends with: an
  interrupt between its critical section and that call is not modelled. What a thread does after the call
  that blocked it is the matter of its own model. \<open>None\<close> is a failed assertion or a pointer to no thread.
\<close>

section \<open>Lowest set bit\<close>

definition lowest_bit_row :: "nat \<Rightarrow> nat list" where
  "lowest_bit_row a = [a, 0, 1, 0, 2, 0, 1, 0, 3, 0, 1, 0, 2, 0, 1, 0]"

definition lowest_bit_bitmap :: "nat list" where
  "lowest_bit_bitmap = concat (map lowest_bit_row [0, 4, 5, 4, 6, 4, 5, 4, 7, 4, 5, 4, 6, 4, 5, 4])"

definition rt_ffs :: "u32 \<Rightarrow> nat" where
  "rt_ffs value =
     (if value = 0 then 0
      else if value AND 0xff \<noteq> 0 then lowest_bit_bitmap ! unat (value AND 0xff) + 1
      else if value AND 0xff00 \<noteq> 0 then lowest_bit_bitmap ! unat (drop_bit 8 (value AND 0xff00)) + 9
      else if value AND 0xff0000 \<noteq> 0 then lowest_bit_bitmap ! unat (drop_bit 16 (value AND 0xff0000)) + 17
      else lowest_bit_bitmap ! unat (drop_bit 24 (value AND 0xff000000)) + 25)"

section \<open>State\<close>

datatype thread_stat = THREAD_INIT | THREAD_READY | THREAD_SUSPEND | THREAD_RUNNING

text \<open>\<open>yield_flag\<close> is the bit beside the state; the timer is part of the thread.\<close>

record rt_thread =
  stat :: thread_stat
  yield_flag :: bool
  error :: int
  current_priority :: nat
  init_tick :: u32
  remaining_tick :: u32
  activated :: bool
  timer_time :: u32
  timeout_tick :: u32

record rt_semaphore =
  sem_value :: nat
  suspend_thread :: "nat list"

record kernel =
  threads :: "nat \<Rightarrow> rt_thread"
  priority_table :: "nat \<Rightarrow> nat list"
  priority_group :: u32
  current_thread :: nat
  kernel_tick :: u32
  timer_list :: "nat list"
  sems :: "nat \<Rightarrow> rt_semaphore"

definition RT_TICK_MAX :: u32 where "RT_TICK_MAX = 0xFFFFFFFF"
definition ETIMEOUT :: int where "ETIMEOUT = 2"
definition EINVAL :: int where "EINVAL = 10"
definition EFULL :: int where "EFULL = 3"
definition SEM_VALUE_MAX :: nat where "SEM_VALUE_MAX = 65535"

definition upd_thread :: "nat \<Rightarrow> (rt_thread \<Rightarrow> rt_thread) \<Rightarrow> kernel \<Rightarrow> kernel" where
  "upd_thread t f k = k\<lparr>threads := (threads k)(t := f (threads k t))\<rparr>"

text \<open>\<open>rt_list_remove (&thread->tlist)\<close>.\<close>

definition tlist_remove :: "nat \<Rightarrow> kernel \<Rightarrow> kernel" where
  "tlist_remove t k =
     k\<lparr>priority_table := (\<lambda>p. removeAll t (priority_table k p)),
       sems := (\<lambda>s. (sems k s)\<lparr>suspend_thread := removeAll t (suspend_thread (sems k s))\<rparr>)\<rparr>"

definition number_mask :: "nat \<Rightarrow> u32" where
  "number_mask p = push_bit p 1"

section \<open>Scheduler\<close>

definition rt_schedule_insert_thread :: "nat \<Rightarrow> kernel \<Rightarrow> kernel" where
  "rt_schedule_insert_thread t k =
     (if t = current_thread k then upd_thread t (\<lambda>th. th\<lparr>stat := THREAD_RUNNING\<rparr>) k
      else let k1 = upd_thread t (\<lambda>th. th\<lparr>stat := THREAD_READY\<rparr>) k;
               p = current_priority (threads k t);
               l = priority_table k1 p;
               l1 = (if yield_flag (threads k t) then l @ [t] else t # l);
               k2 = k1\<lparr>priority_table := (priority_table k1)(p := l1)\<rparr>
           in k2\<lparr>priority_group := priority_group k2 OR number_mask p\<rparr>)"

definition rt_schedule_remove_thread :: "nat \<Rightarrow> kernel \<Rightarrow> kernel" where
  "rt_schedule_remove_thread t k =
     (let k1 = tlist_remove t k;
          p = current_priority (threads k t)
      in if priority_table k1 p = []
         then k1\<lparr>priority_group := priority_group k1 AND NOT (number_mask p)\<rparr> else k1)"

definition highest_priority_thread :: "kernel \<Rightarrow> (nat \<times> nat) option" where
  "highest_priority_thread k =
     (let p = rt_ffs (priority_group k) - 1
      in case priority_table k p of [] \<Rightarrow> None | t # ts \<Rightarrow> Some (t, p))"

text \<open>The choice between the first ready thread and the current one.\<close>

definition choose_thread :: "nat \<Rightarrow> nat \<Rightarrow> kernel \<Rightarrow> nat \<times> bool" where
  "choose_thread to_thread p k =
     (let c = threads k (current_thread k)
      in if stat c = THREAD_RUNNING
         then if current_priority c < p then (current_thread k, False)
              else if current_priority c = p \<and> \<not> yield_flag c then (current_thread k, False)
              else (to_thread, True)
         else (to_thread, False))"

definition rt_schedule :: "kernel \<Rightarrow> kernel option" where
  "rt_schedule k =
     (if priority_group k = 0 then Some k
      else case highest_priority_thread k of None \<Rightarrow> None
      | Some (h, p) \<Rightarrow>
          let (to_thread, need_insert) = choose_thread h p k;
              from_thread = current_thread k;
              k1 = (if stat (threads k from_thread) = THREAD_RUNNING
                    then upd_thread from_thread (\<lambda>th. th\<lparr>yield_flag := False\<rparr>) k else k);
              k3 = (if to_thread \<noteq> from_thread
                    then let k2 = k1\<lparr>current_thread := to_thread\<rparr>
                         in if need_insert then rt_schedule_insert_thread from_thread k2 else k2
                    else k1);
              k4 = rt_schedule_remove_thread to_thread k3
          in Some (upd_thread to_thread (\<lambda>th. th\<lparr>stat := THREAD_RUNNING\<rparr>) k4))"

definition rt_thread_yield :: "kernel \<Rightarrow> kernel option" where
  "rt_thread_yield k =
     rt_schedule (upd_thread (current_thread k)
       (\<lambda>th. th\<lparr>remaining_tick := init_tick th, yield_flag := True\<rparr>) k)"

section \<open>Timers\<close>

text \<open>The place of a timer: behind all that end before it or with it, in the arithmetic of the ticks.\<close>

fun timer_insert :: "(nat \<Rightarrow> u32) \<Rightarrow> nat \<Rightarrow> nat list \<Rightarrow> nat list" where
  "timer_insert due t [] = [t]"
| "timer_insert due t (u # us) =
     (if due u - due t = 0 then u # timer_insert due t us
      else if due u - due t < RT_TICK_MAX div 2 then t # u # us
      else u # timer_insert due t us)"

definition timer_remove :: "nat \<Rightarrow> kernel \<Rightarrow> kernel" where
  "timer_remove t k = k\<lparr>timer_list := removeAll t (timer_list k)\<rparr>"

definition rt_timer_start :: "nat \<Rightarrow> kernel \<Rightarrow> kernel" where
  "rt_timer_start t k =
     (let k1 = timer_remove t k;
          k2 = upd_thread t (\<lambda>th. th\<lparr>activated := False\<rparr>) k1;
          k3 = upd_thread t (\<lambda>th. th\<lparr>timeout_tick := kernel_tick k2 + timer_time th\<rparr>) k2;
          k4 = k3\<lparr>timer_list := timer_insert (\<lambda>u. timeout_tick (threads k3 u)) t (timer_list k3)\<rparr>
      in upd_thread t (\<lambda>th. th\<lparr>activated := True\<rparr>) k4)"

definition rt_timer_stop :: "nat \<Rightarrow> kernel \<Rightarrow> kernel" where
  "rt_timer_stop t k =
     (if \<not> activated (threads k t) then k
      else upd_thread t (\<lambda>th. th\<lparr>activated := False\<rparr>) (timer_remove t k))"

text \<open>\<open>rt_timer_control\<close> with \<open>RT_TIMER_CTRL_SET_TIME\<close>, whose assertion bounds the time.\<close>

definition timer_set_time :: "nat \<Rightarrow> u32 \<Rightarrow> kernel \<Rightarrow> kernel option" where
  "timer_set_time t time k =
     (if time < RT_TICK_MAX div 2 then Some (upd_thread t (\<lambda>th. th\<lparr>timer_time := time\<rparr>) k) else None)"

section \<open>Threads\<close>

definition rt_thread_suspend :: "nat \<Rightarrow> kernel \<Rightarrow> kernel option" where
  "rt_thread_suspend t k =
     (if t \<noteq> current_thread k then None
      else if stat (threads k t) \<noteq> THREAD_READY \<and> stat (threads k t) \<noteq> THREAD_RUNNING then Some k
      else let k1 = rt_schedule_remove_thread t k;
               k2 = upd_thread t (\<lambda>th. th\<lparr>stat := THREAD_SUSPEND\<rparr>) k1
           in Some (rt_timer_stop t k2))"

definition rt_thread_resume :: "nat \<Rightarrow> kernel \<Rightarrow> kernel" where
  "rt_thread_resume t k =
     (if stat (threads k t) \<noteq> THREAD_SUSPEND then k
      else rt_schedule_insert_thread t (rt_timer_stop t (tlist_remove t k)))"

text \<open>A thread with its stack and entry, started from a running thread.\<close>

definition rt_thread_startup :: "nat \<Rightarrow> kernel \<Rightarrow> kernel option" where
  "rt_thread_startup t k =
     (if stat (threads k t) \<noteq> THREAD_INIT then None
      else rt_schedule (rt_thread_resume t
        (upd_thread t (\<lambda>th. th\<lparr>stat := THREAD_SUSPEND, yield_flag := False\<rparr>) k)))"

definition thread_timeout :: "nat \<Rightarrow> kernel \<Rightarrow> kernel option" where
  "thread_timeout t k =
     (if stat (threads k t) \<noteq> THREAD_SUSPEND then None
      else let k1 = upd_thread t (\<lambda>th. th\<lparr>error := - ETIMEOUT\<rparr>) k
           in rt_schedule (rt_schedule_insert_thread t (tlist_remove t k1)))"

text \<open>\<open>rt_thread_sleep\<close> up to the switch, with the status if it does not block.\<close>

definition rt_thread_sleep :: "u32 \<Rightarrow> kernel \<Rightarrow> (int \<times> kernel) option" where
  "rt_thread_sleep tick k =
     (if tick = 0 then Some (- EINVAL, k)
      else do {
        let t = current_thread k;
        let k1 = upd_thread t (\<lambda>th. th\<lparr>error := 0\<rparr>) k;
        k2 \<leftarrow> rt_thread_suspend t k1;
        k3 \<leftarrow> timer_set_time t tick k2;
        k4 \<leftarrow> rt_schedule (rt_timer_start t k3);
        Some (0, k4)
      })"

text \<open>What the call returns once the thread runs again.\<close>

definition sleep_result :: "nat \<Rightarrow> kernel \<Rightarrow> int \<times> kernel" where
  "sleep_result t k =
     (if error (threads k t) = - ETIMEOUT then (0, upd_thread t (\<lambda>th. th\<lparr>error := 0\<rparr>) k)
      else (error (threads k t), k))"

definition tick_from_millisecond :: "int \<Rightarrow> u32" where
  "tick_from_millisecond ms =
     (if ms < 0 then - 1
      else of_nat (RT_TICK_PER_SECOND * (nat ms div 1000)) +
           of_nat ((RT_TICK_PER_SECOND * (nat ms mod 1000) + 999) div 1000))"

definition rt_thread_mdelay :: "int \<Rightarrow> kernel \<Rightarrow> (int \<times> kernel) option" where
  "rt_thread_mdelay ms k = rt_thread_sleep (tick_from_millisecond ms) k"

section \<open>Tick\<close>

text \<open>
  The loop of \<open>rt_timer_check\<close>. All timers are those of threads and end once; \<open>n\<close> bounds the
  passes, of which every one removes a timer.
\<close>

fun timer_check_loop :: "nat \<Rightarrow> kernel \<Rightarrow> kernel option" where
  "timer_check_loop n k =
     (case timer_list k of [] \<Rightarrow> Some k
      | t # ts \<Rightarrow>
          if kernel_tick k - timeout_tick (threads k t) < RT_TICK_MAX div 2
          then case n of 0 \<Rightarrow> None
            | Suc m \<Rightarrow>
                (case thread_timeout t (upd_thread t (\<lambda>th. th\<lparr>activated := False\<rparr>) (timer_remove t k)) of
                   None \<Rightarrow> None | Some k1 \<Rightarrow> timer_check_loop m k1)
          else Some k)"

declare timer_check_loop.simps [simp del]

definition rt_timer_check :: "kernel \<Rightarrow> kernel option" where
  "rt_timer_check k = timer_check_loop (length (timer_list k)) k"

definition rt_tick_increase :: "kernel \<Rightarrow> kernel option" where
  "rt_tick_increase k = do {
     let k1 = k\<lparr>kernel_tick := kernel_tick k + 1\<rparr>;
     let t = current_thread k1;
     let k2 = upd_thread t (\<lambda>th. th\<lparr>remaining_tick := remaining_tick th - 1\<rparr>) k1;
     k3 \<leftarrow> (if remaining_tick (threads k2 t) = 0
            then rt_schedule (upd_thread t (\<lambda>th. th\<lparr>remaining_tick := init_tick th, yield_flag := True\<rparr>) k2)
            else Some k2);
     rt_timer_check k3
   }"

section \<open>Counting semaphores\<close>

definition upd_sem :: "nat \<Rightarrow> (rt_semaphore \<Rightarrow> rt_semaphore) \<Rightarrow> kernel \<Rightarrow> kernel" where
  "upd_sem s f k = k\<lparr>sems := (sems k)(s := f (sems k s))\<rparr>"

text \<open>
  What a thread does to wait for an object: all objects of the boards queue their threads in order. The
  object is named as a semaphore is; one of another class has the value 0.
\<close>

definition ipc_list_suspend :: "nat \<Rightarrow> nat \<Rightarrow> kernel \<Rightarrow> kernel option" where
  "ipc_list_suspend s t k =
     map_option (upd_sem s (\<lambda>m. m\<lparr>suspend_thread := suspend_thread m @ [t]\<rparr>)) (rt_thread_suspend t k)"

definition start_wait :: "nat \<Rightarrow> int \<Rightarrow> kernel \<Rightarrow> kernel option" where
  "start_wait t timeout k =
     (if timeout > 0 then map_option (rt_timer_start t) (timer_set_time t (word_of_int timeout) k) else Some k)"

text \<open>
  \<open>rt_sem_take\<close> up to the switch: \<open>Some r\<close> is a call that returns at once with the status \<open>r\<close>,
  \<open>None\<close> one that waits.
\<close>

definition kernel_sem_take :: "nat \<Rightarrow> int \<Rightarrow> kernel \<Rightarrow> (int option \<times> kernel) option" where
  "kernel_sem_take s timeout k =
     (if sem_value (sems k s) > 0
      then Some (Some 0, upd_sem s (\<lambda>m. m\<lparr>sem_value := sem_value m - 1\<rparr>) k)
      else if timeout = 0 then Some (Some (- ETIMEOUT), k)
      else do {
        let t = current_thread k;
        k1 \<leftarrow> ipc_list_suspend s t (upd_thread t (\<lambda>th. th\<lparr>error := 0\<rparr>) k);
        k2 \<leftarrow> start_wait t timeout k1;
        k3 \<leftarrow> rt_schedule k2;
        Some (None, k3)
      })"

definition kernel_sem_release :: "nat \<Rightarrow> kernel \<Rightarrow> (int \<times> kernel) option" where
  "kernel_sem_release s k =
     (case suspend_thread (sems k s) of
        t # ts \<Rightarrow> map_option (\<lambda>k1. (0, k1)) (rt_schedule (rt_thread_resume t k))
      | [] \<Rightarrow> if sem_value (sems k s) < SEM_VALUE_MAX
              then Some (0, upd_sem s (\<lambda>m. m\<lparr>sem_value := sem_value m + 1\<rparr>) k)
              else Some (- EFULL, k))"

end
