(* ===== verification/KernelProps.thy ===== *)
theory KernelProps
  imports Kernel
begin

text \<open>
  Properties of the scheduler: the position of the lowest bit is found, the ready lists and the priority
  group agree, and a rescheduling always ends with the best of the ready threads running, without
  changing the time, the timers or the semaphores.
\<close>

section \<open>Lowest set bit\<close>

lemma bitmap_rows:
  "list_all (\<lambda>(b, t). b mod 2 ^ Suc t = 2 ^ t \<or> b = 0) (zip [0..<256] lowest_bit_bitmap)"
  by code_simp

lemma bitmap_length: "length lowest_bit_bitmap = 256"
  by (simp add: lowest_bit_bitmap_def lowest_bit_row_def)

lemma bitmap_lowest:
  assumes "b < 256" and "b \<noteq> 0"
  shows "bit b (lowest_bit_bitmap ! b)" "j < lowest_bit_bitmap ! b \<Longrightarrow> \<not> bit b j"
proof -
  let ?t = "lowest_bit_bitmap ! b"
  have "(b, ?t) \<in> set (zip [0..<256] lowest_bit_bitmap)"
    using assms(1) by (auto simp: set_zip bitmap_length intro!: exI [of _ b])
  then have m: "b mod 2 ^ Suc ?t = 2 ^ ?t" using bitmap_rows assms(2) by (auto simp: list_all_iff)
  then have t: "take_bit (Suc ?t) b = 2 ^ ?t" by (simp add: take_bit_eq_mod)
  have "bit (take_bit (Suc ?t) b) ?t" unfolding t by (simp add: bit_exp_iff)
  then show "bit b ?t" by (simp add: bit_take_bit_iff)
  show "\<not> bit b j" if "j < ?t"
  proof
    assume "bit b j"
    then have "bit (take_bit (Suc ?t) b) j" using that by (simp add: bit_take_bit_iff)
    then show False using that unfolding t by (simp add: bit_exp_iff)
  qed
qed

text \<open>The position the scheduler reads off the priority group is the lowest bit that is set.\<close>

lemma byte_of_group:
  fixes v :: u32
  shows "v AND 0xff = take_bit 8 v"
    "drop_bit 8 (v AND 0xff00) = take_bit 8 (drop_bit 8 v)"
    "drop_bit 16 (v AND 0xff0000) = take_bit 8 (drop_bit 16 v)"
    "drop_bit 24 (v AND 0xff000000) = take_bit 8 (drop_bit 24 v)"
proof -
  have m: "(0xff :: u32) = mask 8" "(0xff00 :: u32) = push_bit 8 (mask 8)"
    "(0xff0000 :: u32) = push_bit 16 (mask 8)" "(0xff000000 :: u32) = push_bit 24 (mask 8)"
    by (simp_all add: mask_eq_exp_minus_1)
  show "v AND 0xff = take_bit 8 v"
    "drop_bit 8 (v AND 0xff00) = take_bit 8 (drop_bit 8 v)"
    "drop_bit 16 (v AND 0xff0000) = take_bit 8 (drop_bit 16 v)"
    "drop_bit 24 (v AND 0xff000000) = take_bit 8 (drop_bit 24 v)"
    unfolding m by (rule bit_word_eqI, auto simp: bit_simps)+
qed

lemma byte_lowest:
  fixes v :: u32
  assumes "take_bit 8 (drop_bit n v) \<noteq> 0"
  defines "t \<equiv> lowest_bit_bitmap ! unat (take_bit 8 (drop_bit n v))"
  shows "bit v (t + n)" "n \<le> j \<Longrightarrow> j < t + n \<Longrightarrow> \<not> bit v j"
proof -
  let ?b = "unat (take_bit 8 (drop_bit n v))"
  have "?b = take_bit 8 (unat (drop_bit n v))" by (rule unsigned_take_bit_eq)
  then have "?b < 256" by (simp add: take_bit_eq_mod)
  moreover have "?b \<noteq> 0" using assms(1) unat_eq_0 by blast
  ultimately have b: "?b < 256" "?b \<noteq> 0" by simp_all
  have bit: "bit ?b i \<longleftrightarrow> i < 8 \<and> bit v (n + i)" for i
    by (simp add: bit_unsigned_iff bit_take_bit_iff bit_drop_bit_eq)
  show "bit v (t + n)" using bitmap_lowest(1) [OF b] by (simp add: bit t_def add.commute)
  show "\<not> bit v j" if "n \<le> j" "j < t + n"
  proof -
    have "bit ?b t" unfolding t_def by (rule bitmap_lowest(1) [OF b])
    then have "t < 8" by (simp add: bit)
    then show ?thesis
      using bitmap_lowest(2) [OF b, of "j - n"] that by (simp add: bit t_def [symmetric] less_diff_conv)
  qed
qed

lemma ffs_lowest:
  assumes "v \<noteq> 0"
  shows "bit v (rt_ffs v - 1)" "j < rt_ffs v - 1 \<Longrightarrow> \<not> bit v j"
proof -
  have low: "take_bit 8 (drop_bit n v) = 0 \<Longrightarrow> n \<le> j \<Longrightarrow> j < n + 8 \<Longrightarrow> \<not> bit v j" for n j
  proof
    assume z: "take_bit 8 (drop_bit n v) = 0" and j: "n \<le> j" "j < n + 8" and b: "bit v j"
    have "bit (take_bit 8 (drop_bit n v)) (j - n)"
      using j b by (simp add: bit_take_bit_iff bit_drop_bit_eq less_diff_conv)
    then show False using z by simp
  qed
  have byte: "v AND push_bit n (mask 8) = push_bit n (take_bit 8 (drop_bit n v))"
    "drop_bit n (v AND push_bit n (mask 8)) = take_bit 8 (drop_bit n v)" for n
    by (rule bit_word_eqI, auto simp: bit_simps dest: bit_imp_le_length)+
  have nz: "v AND push_bit n (mask 8) = 0 \<longleftrightarrow> take_bit 8 (drop_bit n v) = 0" for n
    using byte [of n] by (metis drop_bit_of_0 push_bit_of_0)
  have m: "(0xff :: u32) = push_bit 0 (mask 8)" "(0xff00 :: u32) = push_bit 8 (mask 8)"
    "(0xff0000 :: u32) = push_bit 16 (mask 8)"
    by (simp_all add: mask_eq_exp_minus_1)
  define tab where "tab n = lowest_bit_bitmap ! unat (take_bit 8 (drop_bit n v))" for n
  have ffs: "rt_ffs v = (if take_bit 8 (drop_bit 0 v) \<noteq> 0 then tab 0 + 1
      else if take_bit 8 (drop_bit 8 v) \<noteq> 0 then tab 8 + 9
      else if take_bit 8 (drop_bit 16 v) \<noteq> 0 then tab 16 + 17 else tab 24 + 25)"
  proof -
    have c: "(v AND 0xff \<noteq> 0) = (take_bit 8 (drop_bit 0 v) \<noteq> 0)"
      "(v AND 0xff00 \<noteq> 0) = (take_bit 8 (drop_bit 8 v) \<noteq> 0)"
      "(v AND 0xff0000 \<noteq> 0) = (take_bit 8 (drop_bit 16 v) \<noteq> 0)"
      unfolding m nz by simp_all
    have "v AND 0xff = take_bit 8 (drop_bit 0 v)" using byte_of_group(1) by simp
    note t = this byte_of_group(2-4)
    show ?thesis unfolding rt_ffs_def c unfolding t tab_def if_not_P [OF assms] ..
  qed
  have last: "take_bit 8 (drop_bit 24 v) \<noteq> 0"
    if "take_bit 8 (drop_bit 0 v) = 0" "take_bit 8 (drop_bit 8 v) = 0" "take_bit 8 (drop_bit 16 v) = 0"
  proof
    assume z: "take_bit 8 (drop_bit 24 v) = 0"
    have "\<not> bit v i" if i: "i < 32" for i
    proof -
      consider "i < 8" | "8 \<le> i" "i < 16" | "16 \<le> i" "i < 24" | "24 \<le> i" "i < 32" using i by linarith
      then show ?thesis using low [of 0 i] low [of 8 i] low [of 16 i] low [of 24 i] z
          \<open>take_bit 8 (drop_bit 0 v) = 0\<close> \<open>take_bit 8 (drop_bit 8 v) = 0\<close> \<open>take_bit 8 (drop_bit 16 v) = 0\<close>
        by cases auto
    qed
    then have "v = 0" by (intro bit_word_eqI) auto
    then show False using assms by simp
  qed
  consider (a) "take_bit 8 (drop_bit 0 v) \<noteq> 0"
    | (b) "take_bit 8 (drop_bit 0 v) = 0" "take_bit 8 (drop_bit 8 v) \<noteq> 0"
    | (c) "take_bit 8 (drop_bit 0 v) = 0" "take_bit 8 (drop_bit 8 v) = 0" "take_bit 8 (drop_bit 16 v) \<noteq> 0"
    | (d) "take_bit 8 (drop_bit 0 v) = 0" "take_bit 8 (drop_bit 8 v) = 0" "take_bit 8 (drop_bit 16 v) = 0"
    by blast
  then have "bit v (rt_ffs v - 1) \<and> (\<forall>j < rt_ffs v - 1. \<not> bit v j)"
  proof cases
    case a
    then show ?thesis using byte_lowest [OF a] by (simp add: ffs tab_def)
  next
    case b
    have "\<not> bit v j" if "j < tab 8 + 8" for j
      using low [OF b(1), of j] byte_lowest(2) [OF b(2), of j] that by (cases "j < 8") (simp_all add: tab_def)
    then show ?thesis using byte_lowest(1) [OF b(2)] b by (simp add: ffs tab_def add.commute)
  next
    case c
    have "\<not> bit v j" if "j < tab 16 + 16" for j
      using low [OF c(1), of j] low [OF c(2), of j] byte_lowest(2) [OF c(3), of j] that
      by (cases "j < 8"; cases "j < 16") (simp_all add: tab_def)
    then show ?thesis using byte_lowest(1) [OF c(3)] c by (simp add: ffs tab_def add.commute)
  next
    case d
    note l = last [OF d]
    have "\<not> bit v j" if "j < tab 24 + 24" for j
      using low [OF d(1), of j] low [OF d(2), of j] low [OF d(3), of j] byte_lowest(2) [OF l, of j] that
      by (cases "j < 8"; cases "j < 16"; cases "j < 24") (simp_all add: tab_def)
    then show ?thesis using byte_lowest(1) [OF l] d by (simp add: ffs tab_def add.commute)
  qed
  then show "bit v (rt_ffs v - 1)" "j < rt_ffs v - 1 \<Longrightarrow> \<not> bit v j" by auto
qed

section \<open>Scheduler\<close>

lemma upd_thread_fields [simp]:
  "priority_table (upd_thread t f k) = priority_table k" "priority_group (upd_thread t f k) = priority_group k"
  "current_thread (upd_thread t f k) = current_thread k" "kernel_tick (upd_thread t f k) = kernel_tick k"
  "timer_list (upd_thread t f k) = timer_list k" "sems (upd_thread t f k) = sems k"
  "threads (upd_thread t f k) u = (if u = t then f (threads k t) else threads k u)"
  by (simp_all add: upd_thread_def)

text \<open>
  The ready lists hold exactly the threads of a set, each once, in the list of its priority, and the
  group has the bits of the lists that are not empty.
\<close>

definition ready_sets :: "nat \<Rightarrow> nat set \<Rightarrow> kernel \<Rightarrow> bool" where
  "ready_sets N R k \<longleftrightarrow> R \<subseteq> {..<N} \<and> (\<forall>t<N. current_priority (threads k t) < 32) \<and>
     (\<forall>p. distinct (priority_table k p)) \<and>
     (\<forall>p t. t \<in> set (priority_table k p) \<longleftrightarrow> t \<in> R \<and> current_priority (threads k t) = p) \<and>
     (\<forall>p. bit (priority_group k) p \<longleftrightarrow> priority_table k p \<noteq> [])"

text \<open>What a rescheduling leaves alone.\<close>

definition same_core :: "kernel \<Rightarrow> kernel \<Rightarrow> bool" where
  "same_core k k' \<longleftrightarrow> kernel_tick k' = kernel_tick k \<and> timer_list k' = timer_list k \<and> sems k' = sems k \<and>
     (\<forall>t. error (threads k' t) = error (threads k t) \<and>
       current_priority (threads k' t) = current_priority (threads k t) \<and>
       init_tick (threads k' t) = init_tick (threads k t) \<and>
       remaining_tick (threads k' t) = remaining_tick (threads k t) \<and>
       activated (threads k' t) = activated (threads k t) \<and>
       timer_time (threads k' t) = timer_time (threads k t) \<and>
       timeout_tick (threads k' t) = timeout_tick (threads k t) \<and>
       (stat (threads k' t) = THREAD_SUSPEND \<longleftrightarrow> stat (threads k t) = THREAD_SUSPEND) \<and>
       (stat (threads k' t) = THREAD_INIT \<longleftrightarrow> stat (threads k t) = THREAD_INIT))"

lemma same_core_refl [simp]: "same_core k k"
  by (simp add: same_core_def)

lemma same_core_trans: "same_core a b \<Longrightarrow> same_core b c \<Longrightarrow> same_core a c"
  by (simp add: same_core_def)

lemma ready_sets_cong:
  assumes "ready_sets N R k" and "priority_table k' = priority_table k" and "priority_group k' = priority_group k"
    and "\<And>t. current_priority (threads k' t) = current_priority (threads k t)"
  shows "ready_sets N R k'"
  using assms by (simp add: ready_sets_def)

lemma bit_number_mask: "bit (number_mask p) q \<longleftrightarrow> p = q \<and> p < 32"
  by (auto simp: number_mask_def bit_simps dest: bit_imp_le_length)

lemma ready_removed:
  assumes r: "ready_sets N R k" and t: "t < N"
  shows "ready_sets N (R - {t}) (rt_schedule_remove_thread t k)"
proof -
  define p where "p = current_priority (threads k t)"
  define tab where "tab q = removeAll t (priority_table k q)" for q
  note r' = r [unfolded ready_sets_def]
  have other: "tab q = priority_table k q" if "q \<noteq> p" for q
    using r' that by (auto simp: tab_def p_def intro!: removeAll_id)
  have "bit (priority_group (rt_schedule_remove_thread t k)) q \<longleftrightarrow> tab q \<noteq> []" for q
  proof (cases "q = p")
    case True
    have "p < 32" using r' t by (simp add: p_def)
    moreover have "tab p \<noteq> [] \<Longrightarrow> priority_table k p \<noteq> []" by (auto simp: tab_def)
    ultimately show ?thesis using r' True
      by (auto simp: rt_schedule_remove_thread_def tlist_remove_def Let_def p_def [symmetric] tab_def
          bit_and_iff bit_not_iff bit_number_mask)
  next
    case False
    then have "\<not> bit (number_mask p) q" by (simp add: bit_number_mask)
    moreover have "q < 32" if "bit (priority_group k) q" using bit_imp_le_length [OF that] by simp
    ultimately show ?thesis using r' False other [OF False]
      by (auto simp: rt_schedule_remove_thread_def tlist_remove_def Let_def p_def [symmetric] tab_def
          bit_and_iff bit_not_iff)
  qed
  moreover have "priority_table (rt_schedule_remove_thread t k) = tab"
    by (auto simp: rt_schedule_remove_thread_def tlist_remove_def Let_def tab_def)
  moreover have "threads (rt_schedule_remove_thread t k) = threads k"
    by (simp add: rt_schedule_remove_thread_def tlist_remove_def Let_def)
  ultimately show ?thesis using r' by (auto simp: ready_sets_def tab_def distinct_removeAll)
qed

lemma removed_fields [simp]:
  "threads (rt_schedule_remove_thread t k) = threads k"
  "current_thread (rt_schedule_remove_thread t k) = current_thread k"
  "kernel_tick (rt_schedule_remove_thread t k) = kernel_tick k"
  "timer_list (rt_schedule_remove_thread t k) = timer_list k"
  "sems (rt_schedule_remove_thread t k) =
     (\<lambda>s. (sems k s)\<lparr>suspend_thread := removeAll t (suspend_thread (sems k s))\<rparr>)"
  by (simp_all add: rt_schedule_remove_thread_def tlist_remove_def Let_def)

lemma ready_inserted:
  assumes r: "ready_sets N R k" and t: "t < N" "t \<notin> R" "t \<noteq> current_thread k"
  shows "ready_sets N (insert t R) (rt_schedule_insert_thread t k)"
proof -
  define p where "p = current_priority (threads k t)"
  note r' = r [unfolded ready_sets_def]
  have p: "p < 32" using r' t(1) by (simp add: p_def)
  define l where "l = (if yield_flag (threads k t) then priority_table k p @ [t] else t # priority_table k p)"
  have l: "set l = insert t (set (priority_table k p))" "distinct l" "l \<noteq> []"
    using r' t(2) by (auto simp: l_def)
  have f: "priority_table (rt_schedule_insert_thread t k) = (priority_table k)(p := l)"
    "priority_group (rt_schedule_insert_thread t k) = priority_group k OR number_mask p"
    "\<And>u. current_priority (threads (rt_schedule_insert_thread t k) u) = current_priority (threads k u)"
    using t(3) by (simp_all add: rt_schedule_insert_thread_def Let_def p_def [symmetric] l_def)
  show ?thesis using r' t l p unfolding ready_sets_def f
    by (auto simp: bit_or_iff bit_number_mask p_def)
qed

lemma inserted_fields [simp]:
  "current_thread (rt_schedule_insert_thread t k) = current_thread k"
  "kernel_tick (rt_schedule_insert_thread t k) = kernel_tick k"
  "timer_list (rt_schedule_insert_thread t k) = timer_list k"
  "sems (rt_schedule_insert_thread t k) = sems k"
  "threads (rt_schedule_insert_thread t k) =
     (threads k)(t := (threads k t)\<lparr>stat := if t = current_thread k then THREAD_RUNNING else THREAD_READY\<rparr>)"
  by (auto simp: rt_schedule_insert_thread_def upd_thread_def Let_def fun_eq_iff)

text \<open>Between the steps of an operation; the running thread may have been suspended.\<close>

definition ready_threads :: "nat \<Rightarrow> kernel \<Rightarrow> nat set" where
  "ready_threads N k = {t. t < N \<and> stat (threads k t) = THREAD_READY}"

definition sched_ok :: "nat \<Rightarrow> kernel \<Rightarrow> bool" where
  "sched_ok N k \<longleftrightarrow> ready_sets N (ready_threads N k) k \<and> current_thread k < N \<and>
     (\<forall>t<N. stat (threads k t) = THREAD_RUNNING \<longrightarrow> t = current_thread k) \<and>
     stat (threads k (current_thread k)) \<in> {THREAD_RUNNING, THREAD_SUSPEND} \<and>
     (\<forall>s. \<forall>t\<in>set (suspend_thread (sems k s)). stat (threads k t) = THREAD_SUSPEND)"

text \<open>The running thread runs, and no ready thread has a higher priority (a smaller number).\<close>

definition best_runs :: "nat \<Rightarrow> kernel \<Rightarrow> bool" where
  "best_runs N k \<longleftrightarrow> stat (threads k (current_thread k)) = THREAD_RUNNING \<and>
     (\<forall>t\<in>ready_threads N k. current_priority (threads k (current_thread k)) \<le> current_priority (threads k t))"

lemma sems_unchanged:
  assumes "\<And>s. t \<notin> set (suspend_thread (f s))"
  shows "(\<lambda>s. (f s :: rt_semaphore)\<lparr>suspend_thread := removeAll t (suspend_thread (f s))\<rparr>) = f"
  using assms by (auto simp: fun_eq_iff)

text \<open>The switch itself: \<open>u\<close> is the thread that runs next.\<close>

lemma switch_ok:
  assumes r: "ready_sets N R k" and u: "u < N" "current_thread k = u"
    and sems: "\<And>s. u \<notin> set (suspend_thread (sems k s))"
    and others: "\<And>t. t < N \<Longrightarrow> t \<noteq> u \<Longrightarrow> (stat (threads k t) = THREAD_READY) = (t \<in> R)"
      "\<And>t. t < N \<Longrightarrow> t \<noteq> u \<Longrightarrow> stat (threads k t) \<noteq> THREAD_RUNNING"
    and waits: "\<forall>s. \<forall>t\<in>set (suspend_thread (sems k s)). stat (threads k t) = THREAD_SUSPEND"
    and best: "\<And>t. t \<in> R - {u} \<Longrightarrow> current_priority (threads k u) \<le> current_priority (threads k t)"
  defines "k' \<equiv> upd_thread u (\<lambda>th. th\<lparr>stat := THREAD_RUNNING\<rparr>) (rt_schedule_remove_thread u k)"
  shows "sched_ok N k' \<and> best_runs N k' \<and> sems k' = sems k"
proof -
  have s: "sems k' = sems k" using sems_unchanged [OF sems] by (simp add: k'_def)
  have rt: "ready_threads N k' = R - {u}"
    using others r unfolding ready_threads_def k'_def ready_sets_def by auto
  have "ready_sets N (R - {u}) k'"
    using ready_sets_cong [OF ready_removed [OF r u(1)], of k'] by (simp add: k'_def)
  moreover have "stat (threads k' t) = THREAD_SUSPEND" if "t \<in> set (suspend_thread (sems k x))" for x t
    using waits sems that unfolding k'_def by auto
  ultimately show ?thesis
    using u others s rt best unfolding sched_ok_def best_runs_def by (auto simp: k'_def)
qed

lemma highest_ready:
  assumes "ready_sets N R k" and "R \<noteq> {}"
  obtains h p where "priority_group k \<noteq> 0" "highest_priority_thread k = Some (h, p)" "h \<in> R"
    "current_priority (threads k h) = p" "\<And>t. t \<in> R \<Longrightarrow> p \<le> current_priority (threads k t)"
proof -
  note r = assms(1) [unfolded ready_sets_def]
  obtain t where t: "t \<in> R" using assms(2) by blast
  then have "priority_table k (current_priority (threads k t)) \<noteq> []" using r by (metis empty_iff empty_set)
  then have "bit (priority_group k) (current_priority (threads k t))" using r by blast
  then have nz: "priority_group k \<noteq> 0" by auto
  define p where "p = rt_ffs (priority_group k) - 1"
  have "priority_table k p \<noteq> []" using ffs_lowest(1) [OF nz] r by (simp add: p_def)
  then obtain h ts where h: "priority_table k p = h # ts" by (cases "priority_table k p") auto
  then have "h \<in> R" "current_priority (threads k h) = p" using r by (metis list.set_intros(1))+
  moreover have "p \<le> current_priority (threads k u)" if "u \<in> R" for u
  proof (rule ccontr)
    assume "\<not> p \<le> current_priority (threads k u)"
    then have "\<not> bit (priority_group k) (current_priority (threads k u))"
      using ffs_lowest(2) [OF nz, of "current_priority (threads k u)"] by (simp add: p_def)
    then have "priority_table k (current_priority (threads k u)) = []" using r by blast
    then show False using r that by (metis empty_iff empty_set)
  qed
  moreover have "highest_priority_thread k = Some (h, p)"
    using h by (simp add: highest_priority_thread_def Let_def p_def)
  ultimately show ?thesis using that nz by blast
qed

lemma schedule_ok:
  assumes ok: "sched_ok N k" and live: "stat (threads k (current_thread k)) = THREAD_RUNNING \<or> ready_threads N k \<noteq> {}"
  shows "\<exists>k'. rt_schedule k = Some k' \<and> sched_ok N k' \<and> best_runs N k' \<and> same_core k k'"
proof (cases "ready_threads N k = {}")
  case True
  have "\<not> bit (priority_group k) p" for p
    using ok True unfolding sched_ok_def ready_sets_def
    by (metis all_not_in_conv empty_iff list.set_intros(1) neq_Nil_conv)
  then have "priority_group k = 0" by (intro bit_word_eqI) auto
  then show ?thesis using ok live True by (simp add: rt_schedule_def best_runs_def)
next
  case False
  define c where "c = current_thread k"
  define R where "R = ready_threads N k"
  have r: "ready_sets N R k" and cN: "c < N" and run: "\<And>t. t < N \<Longrightarrow> stat (threads k t) = THREAD_RUNNING \<Longrightarrow> t = c"
    and cs: "stat (threads k c) \<in> {THREAD_RUNNING, THREAD_SUSPEND}"
    and waits: "\<forall>s. \<forall>t\<in>set (suspend_thread (sems k s)). stat (threads k t) = THREAD_SUSPEND"
    using ok by (auto simp: sched_ok_def c_def R_def)
  obtain h p where h: "priority_group k \<noteq> 0" "highest_priority_thread k = Some (h, p)" "h \<in> R"
    "current_priority (threads k h) = p" "\<And>t. t \<in> R \<Longrightarrow> p \<le> current_priority (threads k t)"
    using highest_ready [OF r] False unfolding R_def by blast
  have hN: "h < N" "stat (threads k h) = THREAD_READY" using h(3) by (simp_all add: R_def ready_threads_def)
  have hc: "h \<noteq> c" using hN cs by auto
  have RN: "t \<in> R \<longleftrightarrow> t < N \<and> stat (threads k t) = THREAD_READY" for t by (simp add: R_def ready_threads_def)
  have cR: "c \<notin> R" using cs by (auto simp: RN)
  define k1 where "k1 = (if stat (threads k c) = THREAD_RUNNING
    then upd_thread c (\<lambda>th. th\<lparr>yield_flag := False\<rparr>) k else k)"
  have k1: "stat (threads k1 t) = stat (threads k t)" "current_priority (threads k1 t) = current_priority (threads k t)"
    "sems k1 = sems k" "current_thread k1 = c" "same_core k k1" "ready_sets N R k1" for t
    using ready_sets_cong [OF r, of k1] by (auto simp: k1_def c_def same_core_def)
  consider (stay) "stat (threads k c) = THREAD_RUNNING" "choose_thread h p k = (c, False)" "current_priority (threads k c) \<le> p"
    | (preempt) "stat (threads k c) = THREAD_RUNNING" "choose_thread h p k = (h, True)" "p \<le> current_priority (threads k c)"
    | (blocked) "stat (threads k c) = THREAD_SUSPEND" "choose_thread h p k = (h, False)"
  proof -
    have "choose_thread h p k =
        (if stat (threads k c) = THREAD_RUNNING
         then if current_priority (threads k c) < p \<or> current_priority (threads k c) = p \<and> \<not> yield_flag (threads k c)
              then (c, False) else (h, True)
         else (h, False))"
      unfolding choose_thread_def Let_def c_def [symmetric] by auto
    then show ?thesis
      using cs that by (cases "current_priority (threads k c) < p \<or>
          current_priority (threads k c) = p \<and> \<not> yield_flag (threads k c)") auto
  qed
  then show ?thesis
  proof cases
    case stay
    define k2 where "k2 = upd_thread c (\<lambda>th. th\<lparr>stat := THREAD_RUNNING\<rparr>) (rt_schedule_remove_thread c k1)"
    have sch: "rt_schedule k = Some k2"
      using h(1,2) stay(1,2) by (simp add: rt_schedule_def Let_def c_def [symmetric] k1_def k2_def)
    have "sched_ok N k2 \<and> best_runs N k2 \<and> sems k2 = sems k1"
      unfolding k2_def
    proof (rule switch_ok [OF k1(6) cN k1(4)])
      show "c \<notin> set (suspend_thread (sems k1 s))" for s using waits stay(1) k1(3) by (metis thread_stat.distinct(11))
    qed (use k1 RN run waits stay h(5) cR in \<open>auto intro: order.trans\<close>)
    then show ?thesis using sch k1 stay(1) by (auto simp: same_core_def k2_def)
  next
    case preempt
    define k2 where "k2 = rt_schedule_insert_thread c (k1\<lparr>current_thread := h\<rparr>)"
    define k3 where "k3 = upd_thread h (\<lambda>th. th\<lparr>stat := THREAD_RUNNING\<rparr>) (rt_schedule_remove_thread h k2)"
    have sch: "rt_schedule k = Some k3"
      using h(1,2) preempt(1,2) hc by (simp add: rt_schedule_def Let_def c_def [symmetric] k1_def k2_def k3_def)
    have "ready_sets N R (k1\<lparr>current_thread := h\<rparr>)" using ready_sets_cong [OF k1(6)] by simp
    then have r2: "ready_sets N (insert c R) k2"
      unfolding k2_def by (rule ready_inserted) (use cN cR hc in auto)
    have k2: "stat (threads k2 t) = (if t = c then THREAD_READY else stat (threads k t))"
      "current_priority (threads k2 t) = current_priority (threads k t)" "sems k2 = sems k" "current_thread k2 = h" for t
      using k1 hc by (auto simp: k2_def)
    have "sched_ok N k3 \<and> best_runs N k3 \<and> sems k3 = sems k2"
      unfolding k3_def
    proof (rule switch_ok [OF r2 hN(1) k2(4)])
      show "h \<notin> set (suspend_thread (sems k2 s))" for s using waits hN(2) k2(3) by (metis thread_stat.distinct(7))
      show "\<forall>s. \<forall>t\<in>set (suspend_thread (sems k2 s)). stat (threads k2 t) = THREAD_SUSPEND"
        using waits preempt(1) unfolding k2(1,3) by fastforce
      show "current_priority (threads k2 h) \<le> current_priority (threads k2 t)" if "t \<in> insert c R - {h}" for t
        using that h(4,5) preempt(3) unfolding k2(2) by auto
      show "(stat (threads k2 t) = THREAD_READY) = (t \<in> insert c R)" if "t < N" for t
        using that RN [of t] by (simp add: k2(1))
      show "stat (threads k2 t) \<noteq> THREAD_RUNNING" if "t < N" for t
        using run [OF that] by (auto simp: k2(1))
    qed
    then show ?thesis using sch k1 k2 preempt(1) hN(2) by (auto simp: same_core_def k3_def k2_def)
  next
    case blocked
    define k2 where "k2 = k\<lparr>current_thread := h\<rparr>"
    define k3 where "k3 = upd_thread h (\<lambda>th. th\<lparr>stat := THREAD_RUNNING\<rparr>) (rt_schedule_remove_thread h k2)"
    have sch: "rt_schedule k = Some k3"
      using h(1,2) blocked hc by (simp add: rt_schedule_def Let_def c_def [symmetric] k2_def k3_def)
    have r2: "ready_sets N R k2" using ready_sets_cong [OF r, of k2] by (simp add: k2_def)
    have "sched_ok N k3 \<and> best_runs N k3 \<and> sems k3 = sems k2"
      unfolding k3_def
    proof (rule switch_ok [OF r2 hN(1)])
      show "h \<notin> set (suspend_thread (sems k2 s))" for s using waits hN(2) by (auto simp: k2_def)
      show "(stat (threads k2 t) = THREAD_READY) = (t \<in> R)" if "t < N" for t
        using that RN [of t] by (simp add: k2_def)
      show "stat (threads k2 t) \<noteq> THREAD_RUNNING" if "t < N" for t
        using run [OF that] blocked(1) by (auto simp: k2_def)
    qed (use waits h(4,5) in \<open>simp_all add: k2_def\<close>)
    then show ?thesis using sch hN(2) by (auto simp: same_core_def k3_def k2_def)
  qed
qed

end
