(* ===== verification/KernelTime.thy ===== *)
theory KernelTime
  imports KernelProps
begin

text \<open>
  Properties of the kernel over time: every call and every tick succeeds and leaves the state consistent
  with the best thread running, a sleeping thread wakes at exactly its tick, and a thread waiting for a
  semaphore gets it in its turn or its time-out.
\<close>

section \<open>The state between calls\<close>

text \<open>
  What is left of a timer, and the timer list: exactly the running timers, each once, ordered by what
  is left, which is between \<open>lo\<close> and half the range of the ticks. Their threads are suspended.
\<close>

definition ticks_left :: "kernel \<Rightarrow> nat \<Rightarrow> nat" where
  "ticks_left k t = unat (timeout_tick (threads k t) - kernel_tick k)"

definition timers_ok :: "nat \<Rightarrow> nat \<Rightarrow> kernel \<Rightarrow> bool" where
  "timers_ok N lo k \<longleftrightarrow> distinct (timer_list k) \<and>
     (\<forall>t. t \<in> set (timer_list k) \<longleftrightarrow> t < N \<and> activated (threads k t)) \<and>
     (\<forall>t\<in>set (timer_list k). stat (threads k t) = THREAD_SUSPEND \<and>
        lo \<le> ticks_left k t \<and> ticks_left k t < 0x7FFFFFFF) \<and>
     sorted (map (ticks_left k) (timer_list k))"

text \<open>A thread waits for one semaphore at most, and only for one that is at zero.\<close>

definition waits_ok :: "nat \<Rightarrow> kernel \<Rightarrow> bool" where
  "waits_ok N k \<longleftrightarrow> (\<forall>s. distinct (suspend_thread (sems k s)) \<and> set (suspend_thread (sems k s)) \<subseteq> {..<N} \<and>
     (sem_value (sems k s) > 0 \<longrightarrow> suspend_thread (sems k s) = []) \<and> sem_value (sems k s) \<le> SEM_VALUE_MAX \<and>
     (\<forall>s'. s' \<noteq> s \<longrightarrow> set (suspend_thread (sems k s)) \<inter> set (suspend_thread (sems k s')) = {}))"

text \<open>The idle thread can always run.\<close>

definition core_ok :: "nat \<Rightarrow> nat \<Rightarrow> nat \<Rightarrow> kernel \<Rightarrow> bool" where
  "core_ok N lo idle k \<longleftrightarrow> sched_ok N k \<and> timers_ok N lo k \<and> waits_ok N k \<and>
     idle < N \<and> stat (threads k idle) \<notin> {THREAD_SUSPEND, THREAD_INIT}"

definition kernel_ok :: "nat \<Rightarrow> nat \<Rightarrow> nat \<Rightarrow> kernel \<Rightarrow> bool" where
  "kernel_ok N lo idle k \<longleftrightarrow> core_ok N lo idle k \<and> best_runs N k"

lemma timers_same:
  assumes "timers_ok N lo k" and "same_core k k'"
  shows "timers_ok N lo k'"
proof -
  have "ticks_left k' = ticks_left k" using assms(2) by (simp add: same_core_def ticks_left_def fun_eq_iff)
  then show ?thesis using assms by (simp add: timers_ok_def same_core_def)
qed

lemma schedule_core:
  assumes "core_ok N lo idle k"
  shows "\<exists>k'. rt_schedule k = Some k' \<and> kernel_ok N lo idle k' \<and> same_core k k'"
proof -
  have s: "sched_ok N k" using assms by (simp add: core_ok_def)
  have "stat (threads k (current_thread k)) = THREAD_RUNNING \<or> ready_threads N k \<noteq> {}"
  proof (rule disjCI)
    assume "\<not> ready_threads N k \<noteq> {}"
    then have "stat (threads k idle) = THREAD_RUNNING"
      using assms by (cases "stat (threads k idle)") (auto simp: core_ok_def ready_threads_def)
    then show "stat (threads k (current_thread k)) = THREAD_RUNNING"
      using assms by (auto simp: core_ok_def sched_ok_def)
  qed
  then obtain k' where k': "rt_schedule k = Some k'" "sched_ok N k'" "best_runs N k'" "same_core k k'"
    using schedule_ok [OF s] by blast
  then have "timers_ok N lo k'" "waits_ok N k'" "idle < N" "stat (threads k' idle) \<notin> {THREAD_SUSPEND, THREAD_INIT}"
    using assms timers_same [of N lo k k'] by (auto simp: core_ok_def waits_ok_def same_core_def)
  then show ?thesis using k' by (simp add: kernel_ok_def core_ok_def)
qed

text \<open>The running thread, which has no timer and waits for nothing, is suspended.\<close>

lemma running_free:
  assumes "core_ok N lo idle k" and "stat (threads k t) \<noteq> THREAD_SUSPEND"
  shows "t < N \<Longrightarrow> \<not> activated (threads k t)" "t \<notin> set (suspend_thread (sems k s))"
    "t \<notin> set (timer_list k)"
  using assms by (auto simp: core_ok_def timers_ok_def sched_ok_def)

lemma suspend_core:
  assumes ok: "kernel_ok N lo idle k" and c: "current_thread k = c" "c \<noteq> idle"
  shows "\<exists>k2. rt_thread_suspend c (upd_thread c (\<lambda>th. th\<lparr>error := 0\<rparr>) k) = Some k2 \<and> core_ok N lo idle k2 \<and>
    current_thread k2 = c \<and> kernel_tick k2 = kernel_tick k \<and> sems k2 = sems k \<and> timer_list k2 = timer_list k \<and>
    threads k2 = (threads k)(c := (threads k c)\<lparr>error := 0, stat := THREAD_SUSPEND\<rparr>)"
proof -
  let ?k1 = "upd_thread c (\<lambda>th. th\<lparr>error := 0\<rparr>) k"
  let ?k2 = "upd_thread c (\<lambda>th. th\<lparr>stat := THREAD_SUSPEND\<rparr>) (rt_schedule_remove_thread c ?k1)"
  have core: "core_ok N lo idle k" and run: "stat (threads k c) = THREAD_RUNNING" and cN: "c < N"
    using ok c by (auto simp: kernel_ok_def best_runs_def core_ok_def sched_ok_def)
  note free = running_free [OF core, of c]
  have na: "\<not> activated (threads k c)" using free run cN by simp
  have k2: "rt_thread_suspend c ?k1 = Some ?k2"
    using c run na by (simp add: rt_thread_suspend_def Let_def rt_timer_stop_def)
  have sems: "sems ?k2 = sems k" using sems_unchanged [of c "sems k"] free(2) run by simp
  have th: "threads ?k2 = (threads k)(c := (threads k c)\<lparr>error := 0, stat := THREAD_SUSPEND\<rparr>)"
    by (auto simp: fun_eq_iff)
  have s: "sched_ok N k" using core by (simp add: core_ok_def)
  have "c \<notin> ready_threads N k" using run by (simp add: ready_threads_def)
  moreover have "ready_threads N ?k2 = ready_threads N k" using run by (auto simp: ready_threads_def)
  moreover have "ready_sets N (ready_threads N k - {c}) ?k2"
    using ready_sets_cong [OF ready_removed [of N "ready_threads N k" ?k1 c], of ?k2]
      ready_sets_cong [of N "ready_threads N k" k ?k1] s cN by (simp add: sched_ok_def)
  ultimately have r: "ready_sets N (ready_threads N ?k2) ?k2" by simp
  have "sched_ok N ?k2" unfolding sched_ok_def
  proof (intro conjI r allI impI ballI)
    have "\<forall>t<N. stat (threads k t) = THREAD_RUNNING \<longrightarrow> t = c" using s c(1) by (simp add: sched_ok_def)
    then show "t = current_thread ?k2" if "t < N" "stat (threads ?k2 t) = THREAD_RUNNING" for t
      using that unfolding th by (cases "t = c") (simp_all add: c(1))
    have "\<forall>s. \<forall>t\<in>set (suspend_thread (sems k s)). stat (threads k t) = THREAD_SUSPEND"
      using s by (simp add: sched_ok_def)
    then show "stat (threads ?k2 t) = THREAD_SUSPEND" if "t \<in> set (suspend_thread (sems ?k2 x))" for x t
      using that unfolding sems th by auto
    show "current_thread ?k2 < N" "stat (threads ?k2 (current_thread ?k2)) \<in> {THREAD_RUNNING, THREAD_SUSPEND}"
      using c cN unfolding th by simp_all
  qed
  moreover have "ticks_left ?k2 = ticks_left k" by (simp add: ticks_left_def fun_eq_iff)
  then have "timers_ok N lo ?k2" using core free(3) run unfolding core_ok_def timers_ok_def th by auto
  ultimately have "core_ok N lo idle ?k2" using core c(2) sems by (simp add: core_ok_def waits_ok_def)
  then show ?thesis using k2 sems th c(1) by auto
qed

section \<open>The order of the timers\<close>

lemma timer_insert_set: "set (timer_insert due t us) = insert t (set us)"
  by (induction due t us rule: timer_insert.induct) auto

lemma timer_insert_distinct: "distinct us \<Longrightarrow> t \<notin> set us \<Longrightarrow> distinct (timer_insert due t us)"
  by (induction due t us rule: timer_insert.induct) (auto simp: timer_insert_set)

lemma due_difference:
  fixes x y now :: u32
  assumes "unat (x - now) < 0x7FFFFFFF" and "unat (y - now) < 0x7FFFFFFF"
  shows "x - y = 0 \<longleftrightarrow> unat (x - now) = unat (y - now)"
    "x - y \<noteq> 0 \<Longrightarrow> x - y < RT_TICK_MAX div 2 \<longleftrightarrow> unat (y - now) < unat (x - now)"
proof -
  have e: "x - y = 0 \<longleftrightarrow> x - now = y - now" by simp
  then show "x - y = 0 \<longleftrightarrow> unat (x - now) = unat (y - now)" by (simp only: word_unat_eq_iff)
  define a b where "a = x - now" and "b = y - now"
  have d: "x - y = a - b" by (simp add: a_def b_def)
  have m: "unat (RT_TICK_MAX div 2) = 0x7FFFFFFF" by (simp add: RT_TICK_MAX_def unat_div)
  have l: "(a - b < RT_TICK_MAX div 2) = (unat (a - b) < 0x7FFFFFFF)" by (simp add: word_less_nat_alt m)
  show "x - y < RT_TICK_MAX div 2 \<longleftrightarrow> unat (y - now) < unat (x - now)" if "x - y \<noteq> 0"
  proof -
    have "a \<noteq> b" using that by (simp add: a_def b_def)
    then have "unat a \<noteq> unat b" by (metis word_unat_eq_iff)
    then show ?thesis unfolding d l using assms unfolding a_def [symmetric] b_def [symmetric]
      by (simp add: unat_sub_if_size word_size) linarith
  qed
qed

lemma timer_insert_sorted:
  assumes "\<forall>u\<in>insert t (set us). unat (due u - now) < 0x7FFFFFFF" and "sorted (map (\<lambda>u. unat (due u - now)) us)"
  shows "sorted (map (\<lambda>u. unat (due u - now)) (timer_insert due t us))"
  using assms
proof (induction due t us rule: timer_insert.induct)
  case (2 due t u us)
  have b: "unat (due u - now) < 0x7FFFFFFF" "unat (due t - now) < 0x7FFFFFFF" using "2.prems"(1) by simp_all
  note d = due_difference [OF b]
  consider (eq) "due u - due t = 0" | (less) "due u - due t \<noteq> 0" "due u - due t < RT_TICK_MAX div 2"
    | (more) "due u - due t \<noteq> 0" "\<not> due u - due t < RT_TICK_MAX div 2" by blast
  then show ?case
  proof cases
    case eq
    then show ?thesis using 2 d(1) by (simp add: timer_insert_set)
  next
    case less
    then show ?thesis using 2 d(2) by fastforce
  next
    case more
    then show ?thesis using 2 d(2) by (fastforce simp: timer_insert_set)
  qed
qed simp

section \<open>Steps of the operations\<close>

lemma sems_removed_fields [simp]:
  "threads (tlist_remove t k) = threads k" "current_thread (tlist_remove t k) = current_thread k"
  "kernel_tick (tlist_remove t k) = kernel_tick k" "timer_list (tlist_remove t k) = timer_list k"
  "priority_group (tlist_remove t k) = priority_group k"
  "sems (tlist_remove t k) = (\<lambda>s. (sems k s)\<lparr>suspend_thread := removeAll t (suspend_thread (sems k s))\<rparr>)"
  by (simp_all add: tlist_remove_def)

text \<open>A thread out of its waiting list that becomes ready.\<close>

lemma wake_core:
  assumes ok: "core_ok N lo idle k" and run: "stat (threads k (current_thread k)) = THREAD_RUNNING"
    and t: "t < N" "stat (threads k t) = THREAD_SUSPEND" "\<not> activated (threads k t)"
  defines "k' \<equiv> rt_schedule_insert_thread t (tlist_remove t k)"
  shows "core_ok N lo idle k'" "stat (threads k' (current_thread k')) = THREAD_RUNNING"
    "threads k' = (threads k)(t := (threads k t)\<lparr>stat := THREAD_READY\<rparr>)" "current_thread k' = current_thread k"
    "kernel_tick k' = kernel_tick k" "timer_list k' = timer_list k"
proof -
  have tc: "t \<noteq> current_thread k" using run t(2) by auto
  show th: "threads k' = (threads k)(t := (threads k t)\<lparr>stat := THREAD_READY\<rparr>)"
    and cur: "current_thread k' = current_thread k"
    and "kernel_tick k' = kernel_tick k" and tl: "timer_list k' = timer_list k"
    using tc by (simp_all add: k'_def)
  show "stat (threads k' (current_thread k')) = THREAD_RUNNING" using run tc by (simp add: th cur)
  have s: "sched_ok N k" using ok by (simp add: core_ok_def)
  then have r: "ready_sets N (ready_threads N k) k" by (simp add: sched_ok_def)
  have nt: "t \<notin> ready_threads N k" using t(2) by (simp add: ready_threads_def)
  then have "priority_table (tlist_remove t k) = priority_table k"
    using r by (auto simp: tlist_remove_def ready_sets_def fun_eq_iff intro!: removeAll_id)
  then have "ready_sets N (insert t (ready_threads N k)) k'"
    unfolding k'_def using ready_sets_cong [OF r, of "tlist_remove t k"] t(1) nt tc
    by (intro ready_inserted) simp_all
  moreover have "insert t (ready_threads N k) = ready_threads N k'"
    using t(1) by (auto simp: ready_threads_def th)
  ultimately have r': "ready_sets N (ready_threads N k') k'" by simp
  have sm: "sems k' s = (sems k s)\<lparr>suspend_thread := removeAll t (suspend_thread (sems k s))\<rparr>" for s
    by (simp add: k'_def)
  have "sched_ok N k'" unfolding sched_ok_def
  proof (intro conjI r' allI impI ballI)
    have "\<forall>u<N. stat (threads k u) = THREAD_RUNNING \<longrightarrow> u = current_thread k" using s by (simp add: sched_ok_def)
    then show "u = current_thread k'" if "u < N" "stat (threads k' u) = THREAD_RUNNING" for u
      using that unfolding th cur by (cases "u = t") simp_all
    have "\<forall>s. \<forall>u\<in>set (suspend_thread (sems k s)). stat (threads k u) = THREAD_SUSPEND"
      using s by (simp add: sched_ok_def)
    then show "stat (threads k' u) = THREAD_SUSPEND" if "u \<in> set (suspend_thread (sems k' x))" for x u
      using that unfolding sm th by auto
    show "current_thread k' < N" "stat (threads k' (current_thread k')) \<in> {THREAD_RUNNING, THREAD_SUSPEND}"
      using s run tc unfolding th cur by (simp_all add: sched_ok_def)
  qed
  moreover have "ticks_left k' = ticks_left k" unfolding k'_def by (simp add: ticks_left_def fun_eq_iff)
  then have "timers_ok N lo k'" using ok t(1,3) unfolding core_ok_def timers_ok_def tl th by auto
  moreover have "waits_ok N k'" using ok unfolding core_ok_def waits_ok_def sm by (auto simp: distinct_removeAll)
  ultimately show "core_ok N lo idle k'" using ok unfolding core_ok_def th by auto
qed

lemma sched_ok_cong:
  assumes "sched_ok N k" and "priority_table k' = priority_table k" and "priority_group k' = priority_group k"
    and "current_thread k' = current_thread k" and "sems k' = sems k"
    and "\<And>t. current_priority (threads k' t) = current_priority (threads k t)"
    and "\<And>t. stat (threads k' t) = stat (threads k t)"
  shows "sched_ok N k'"
proof -
  have "ready_threads N k' = ready_threads N k" using assms(7) by (simp add: ready_threads_def)
  then show ?thesis using assms ready_sets_cong [of N "ready_threads N k" k k'] by (simp add: sched_ok_def)
qed

text \<open>Fields of a thread that the structure does not rest on.\<close>

lemma upd_core:
  assumes "core_ok N lo idle k" and "\<And>th. stat (f th) = stat th"
    and "\<And>th. current_priority (f th) = current_priority th" and "\<And>th. activated (f th) = activated th"
    and "\<And>th. timeout_tick (f th) = timeout_tick th"
  shows "core_ok N lo idle (upd_thread t f k)"
proof -
  let ?k = "upd_thread t f k"
  have "sched_ok N k" using assms by (simp add: core_ok_def)
  then have "sched_ok N ?k" by (rule sched_ok_cong) (simp_all add: assms)
  moreover have tl: "ticks_left ?k = ticks_left k" using assms(5) by (simp add: ticks_left_def fun_eq_iff)
  have "timers_ok N lo ?k" using assms unfolding core_ok_def timers_ok_def tl by simp
  ultimately show ?thesis using assms unfolding core_ok_def waits_ok_def by auto
qed

lemma stop_core:
  assumes "core_ok N lo idle k"
  shows "core_ok N lo idle (upd_thread t (\<lambda>th. th\<lparr>activated := False\<rparr>) (timer_remove t k))"
    (is "core_ok N lo idle ?k")
proof -
  have "sched_ok N k" using assms by (simp add: core_ok_def)
  then have sch: "sched_ok N ?k" by (rule sched_ok_cong) (simp_all add: timer_remove_def)
  have tl: "ticks_left ?k = ticks_left k"
    by (simp add: ticks_left_def timer_remove_def fun_eq_iff)
  have m: "timer_list ?k = removeAll t (timer_list k)" by (simp add: timer_remove_def)
  have "sorted (map (ticks_left k) (removeAll t (timer_list k)))"
    using assms by (simp add: core_ok_def timers_ok_def removeAll_filter_not_eq sorted_filter)
  moreover have "timers_ok N lo k" using assms by (simp add: core_ok_def)
  then have "\<forall>u. u \<in> set (timer_list ?k) \<longleftrightarrow> u < N \<and> activated (threads ?k u)"
    "\<forall>u\<in>set (timer_list ?k). stat (threads ?k u) = THREAD_SUSPEND \<and> lo \<le> ticks_left k u \<and> ticks_left k u < 0x7FFFFFFF"
    "distinct (timer_list ?k)"
    unfolding timers_ok_def m by (simp_all add: timer_remove_def distinct_removeAll)
  ultimately have "timers_ok N lo ?k" unfolding timers_ok_def tl m by simp
  moreover note sch
  moreover have "sems ?k = sems k" "stat (threads ?k idle) = stat (threads k idle)"
    by (simp_all add: timer_remove_def)
  ultimately show ?thesis using assms unfolding core_ok_def waits_ok_def by simp
qed

lemma stop_fields [simp]:
  "threads (rt_timer_stop t k) = (threads k)(t := (threads k t)\<lparr>activated := False\<rparr>)"
  "current_thread (rt_timer_stop t k) = current_thread k" "kernel_tick (rt_timer_stop t k) = kernel_tick k"
  "sems (rt_timer_stop t k) = sems k"
  by (auto simp: rt_timer_stop_def timer_remove_def fun_eq_iff)

lemma start_core:
  assumes ok: "core_ok N lo idle k" and t: "t < N" "stat (threads k t) = THREAD_SUSPEND" "\<not> activated (threads k t)"
    and time: "lo \<le> unat (timer_time (threads k t))" "unat (timer_time (threads k t)) < 0x7FFFFFFF"
  defines "k' \<equiv> rt_timer_start t k"
  shows "core_ok N lo idle k'" "ticks_left k' t = unat (timer_time (threads k t))"
    "threads k' = (threads k)(t := (threads k t)
       \<lparr>activated := True, timeout_tick := kernel_tick k + timer_time (threads k t)\<rparr>)"
    "current_thread k' = current_thread k" "kernel_tick k' = kernel_tick k" "sems k' = sems k"
proof -
  let ?due = "kernel_tick k + timer_time (threads k t)"
  show th: "threads k' = (threads k)(t := (threads k t)\<lparr>activated := True, timeout_tick := ?due\<rparr>)"
    and f: "current_thread k' = current_thread k" "kernel_tick k' = kernel_tick k" "sems k' = sems k"
    by (auto simp: k'_def rt_timer_start_def Let_def timer_remove_def upd_thread_def)
  note tm = ok [unfolded core_ok_def, THEN conjunct2, THEN conjunct1, unfolded timers_ok_def]
  have nt: "t \<notin> set (timer_list k)" using tm t(3) by blast
  show tl: "ticks_left k' t = unat (timer_time (threads k t))" by (simp add: ticks_left_def th f)
  have tlo: "ticks_left k' u = ticks_left k u" if "u \<noteq> t" for u using that by (simp add: ticks_left_def th f)
  define due where "due u = timeout_tick (threads k' u)" for u
  have r: "ticks_left k' = (\<lambda>u. unat (due u - kernel_tick k))" by (simp add: fun_eq_iff ticks_left_def due_def f)
  have "timer_list k' = timer_insert due t (removeAll t (timer_list k))"
    unfolding due_def th k'_def rt_timer_start_def Let_def timer_remove_def
    by (simp add: upd_thread_def) (rule arg_cong [where f = "\<lambda>d. timer_insert d t _"], simp add: fun_eq_iff)
  then have l: "timer_list k' = timer_insert due t (timer_list k)" using nt by simp
  have s: "set (timer_list k') = insert t (set (timer_list k))" by (simp add: l timer_insert_set)
  have b: "lo \<le> ticks_left k' u \<and> ticks_left k' u < 0x7FFFFFFF" if "u \<in> insert t (set (timer_list k))" for u
    using that tm time tl tlo by (cases "u = t") auto
  have e: "map (ticks_left k') (timer_list k) = map (ticks_left k) (timer_list k)" using nt tlo by (metis (no_types, lifting) map_eq_conv)
  have sr: "sorted (map (\<lambda>u. unat (due u - kernel_tick k)) (timer_list k))"
    using tm e unfolding r by presburger
  have "\<forall>u\<in>insert t (set (timer_list k)). unat (due u - kernel_tick k) < 0x7FFFFFFF" using b unfolding r by blast
  then have "sorted (map (ticks_left k') (timer_list k'))" unfolding l r using sr by (rule timer_insert_sorted)
  moreover have "distinct (timer_list k')" using tm nt by (simp add: l timer_insert_distinct)
  ultimately have "timers_ok N lo k'" using tm t b unfolding timers_ok_def s by (auto simp: th)
  moreover have "sched_ok N k" using ok by (simp add: core_ok_def)
  then have "sched_ok N k'"
    by (rule sched_ok_cong) (simp_all add: th f, simp_all add: k'_def rt_timer_start_def Let_def timer_remove_def)
  ultimately show "core_ok N lo idle k'" using ok unfolding core_ok_def waits_ok_def by (auto simp: th f)
qed

lemma enqueue_core:
  assumes ok: "core_ok N lo idle k" and t: "t < N" "stat (threads k t) = THREAD_SUSPEND"
    and free: "\<And>s. t \<notin> set (suspend_thread (sems k s))" and zero: "sem_value (sems k s) = 0"
  shows "core_ok N lo idle (upd_sem s (\<lambda>m. m\<lparr>suspend_thread := suspend_thread m @ [t]\<rparr>) k)"
    (is "core_ok N lo idle ?k")
proof -
  have f: "threads ?k = threads k" "current_thread ?k = current_thread k" "timer_list ?k = timer_list k"
    "kernel_tick ?k = kernel_tick k" "priority_table ?k = priority_table k" "priority_group ?k = priority_group k"
    "sems ?k x = (if x = s then (sems k s)\<lparr>suspend_thread := suspend_thread (sems k s) @ [t]\<rparr> else sems k x)" for x
    by (simp_all add: upd_sem_def)
  have s: "sched_ok N k" and tm: "timers_ok N lo k" and w: "waits_ok N k" using ok by (simp_all add: core_ok_def)
  have rt: "ready_threads N ?k = ready_threads N k" by (simp add: ready_threads_def f)
  have "ready_sets N (ready_threads N k) ?k"
    using ready_sets_cong [of N "ready_threads N k" k ?k] s by (simp add: sched_ok_def f)
  then have "sched_ok N ?k" using s t(2) unfolding sched_ok_def rt f by auto
  moreover have tl: "ticks_left ?k = ticks_left k" by (simp add: ticks_left_def f fun_eq_iff)
  have "timers_ok N lo ?k" using tm unfolding timers_ok_def tl f .
  moreover have "waits_ok N ?k" using w t(1) free zero unfolding waits_ok_def f by auto
  ultimately show ?thesis using ok by (simp add: core_ok_def f)
qed

section \<open>The calls\<close>

text \<open>
  A thread suspended with \<open>d\<close> ticks left on its timer and waiting for the semaphores \<open>W\<close>, and one
  whose timer has ended.
\<close>

definition asleep :: "nat \<Rightarrow> nat \<Rightarrow> nat set \<Rightarrow> kernel \<Rightarrow> bool" where
  "asleep t d W k \<longleftrightarrow> stat (threads k t) = THREAD_SUSPEND \<and> activated (threads k t) \<and> ticks_left k t = d \<and>
     {s. t \<in> set (suspend_thread (sems k s))} = W"

definition timed_out :: "nat \<Rightarrow> kernel \<Rightarrow> bool" where
  "timed_out t k \<longleftrightarrow> stat (threads k t) \<notin> {THREAD_SUSPEND, THREAD_INIT} \<and> error (threads k t) = - ETIMEOUT"

lemma asleep_same: "same_core k k' \<Longrightarrow> asleep t d W k' = asleep t d W k"
  by (simp add: asleep_def same_core_def ticks_left_def)

lemma timed_out_same: "same_core k k' \<Longrightarrow> timed_out t k' = timed_out t k"
  by (simp add: timed_out_def same_core_def)

lemma blocking_time:
  assumes "tick < RT_TICK_MAX div 2"
  shows "unat tick < 0x7FFFFFFF"
proof -
  have "unat (RT_TICK_MAX div 2) = 0x7FFFFFFF" by (simp add: RT_TICK_MAX_def unat_div)
  then show ?thesis using assms by (simp add: word_less_nat_alt)
qed

text \<open>A suspended thread starts its timer.\<close>

lemma arm_core:
  assumes ok: "core_ok N 1 idle k" and t: "t < N" "stat (threads k t) = THREAD_SUSPEND" "\<not> activated (threads k t)"
    and n: "n \<noteq> 0" "n < RT_TICK_MAX div 2"
  defines "k' \<equiv> rt_timer_start t (upd_thread t (\<lambda>th. th\<lparr>timer_time := n\<rparr>) k)"
  shows "core_ok N 1 idle k'" "asleep t (unat n) {s. t \<in> set (suspend_thread (sems k s))} k'"
    "u \<noteq> t \<Longrightarrow> asleep u d W k' = asleep u d W k" "error (threads k' u) = error (threads k u)"
    "kernel_tick k' = kernel_tick k"
proof -
  define k1 where "k1 = upd_thread t (\<lambda>th. th\<lparr>timer_time := n\<rparr>) k"
  have c1: "core_ok N 1 idle k1" unfolding k1_def by (rule upd_core [OF ok]) simp_all
  have t1: "stat (threads k1 t) = THREAD_SUSPEND" "\<not> activated (threads k1 t)" "timer_time (threads k1 t) = n"
    using t by (simp_all add: k1_def)
  have "unat n \<noteq> 0" using n(1) unat_eq_0 by blast
  then have b: "1 \<le> unat (timer_time (threads k1 t))" "unat (timer_time (threads k1 t)) < 0x7FFFFFFF"
    using blocking_time [OF n(2)] by (simp_all add: t1)
  note st = start_core [OF c1 t(1) t1(1,2) b, folded k'_def [folded k1_def]]
  show "core_ok N 1 idle k'" by (rule st(1))
  show "asleep t (unat n) {s. t \<in> set (suspend_thread (sems k s))} k'"
    using st(2) t1 by (simp add: asleep_def st(3,6)) (simp add: k1_def)
  show "asleep u d W k' = asleep u d W k" if "u \<noteq> t"
    using that by (simp add: asleep_def st(3,5,6) ticks_left_def) (simp add: k1_def)
  show "error (threads k' u) = error (threads k u)" "kernel_tick k' = kernel_tick k"
    using st(3,5) by (simp_all add: k1_def)
qed

lemma sleep_ok:
  assumes ok: "kernel_ok N 1 idle k" and c: "current_thread k \<noteq> idle" and tick: "tick \<noteq> 0" "tick < RT_TICK_MAX div 2"
  shows "\<exists>k'. rt_thread_sleep tick k = Some (0, k') \<and> kernel_ok N 1 idle k' \<and>
    asleep (current_thread k) (unat tick) {} k' \<and>
    (\<forall>t d W. t \<noteq> current_thread k \<longrightarrow> asleep t d W k' = asleep t d W k)"
proof -
  let ?c = "current_thread k"
  obtain k2 where k2: "rt_thread_suspend ?c (upd_thread ?c (\<lambda>th. th\<lparr>error := 0\<rparr>) k) = Some k2"
      "core_ok N 1 idle k2" "current_thread k2 = ?c" "kernel_tick k2 = kernel_tick k" "sems k2 = sems k"
      "threads k2 = (threads k)(?c := (threads k ?c)\<lparr>error := 0, stat := THREAD_SUSPEND\<rparr>)"
    using suspend_core [OF ok refl c] by blast
  have core: "core_ok N 1 idle k" and run: "stat (threads k ?c) = THREAD_RUNNING" and cN: "?c < N"
    using ok by (auto simp: kernel_ok_def best_runs_def core_ok_def sched_ok_def)
  note free = running_free [OF core, of ?c]
  have t2: "stat (threads k2 ?c) = THREAD_SUSPEND" "\<not> activated (threads k2 ?c)"
    using free(1) run cN by (simp_all add: k2(6))
  note arm = arm_core [OF k2(2) cN t2 tick]
  obtain k5 where k5: "rt_schedule (rt_timer_start ?c (upd_thread ?c (\<lambda>th. th\<lparr>timer_time := tick\<rparr>) k2)) = Some k5"
      "kernel_ok N 1 idle k5" "same_core (rt_timer_start ?c (upd_thread ?c (\<lambda>th. th\<lparr>timer_time := tick\<rparr>) k2)) k5"
    using schedule_core [OF arm(1)] by blast
  have "rt_thread_sleep tick k = Some (0, k5)"
    using tick k2(1) k5(1) by (simp add: rt_thread_sleep_def timer_set_time_def Let_def)
  moreover have "{s. ?c \<in> set (suspend_thread (sems k2 s))} = {}" using free(2) run by (simp add: k2(5))
  moreover have "asleep t d W k2 = asleep t d W k" if "t \<noteq> ?c" for t d W
    using that by (simp add: asleep_def ticks_left_def k2(4-6))
  ultimately show ?thesis using k5(2) asleep_same [OF k5(3)] arm(2,3) by auto
qed

section \<open>The tick\<close>

text \<open>A timer has ended exactly when nothing is left of it.\<close>

lemma timer_ended:
  assumes "ticks_left k t < 0x7FFFFFFF"
  shows "kernel_tick k - timeout_tick (threads k t) < RT_TICK_MAX div 2 \<longleftrightarrow> ticks_left k t = 0"
proof -
  have m: "unat (RT_TICK_MAX div 2) = 0x7FFFFFFF" by (simp add: RT_TICK_MAX_def unat_div)
  have e: "kernel_tick k - timeout_tick (threads k t) = 0 - (timeout_tick (threads k t) - kernel_tick k)" by simp
  show ?thesis
  proof (cases "timeout_tick (threads k t) - kernel_tick k = 0")
    case True
    then show ?thesis by (simp add: ticks_left_def RT_TICK_MAX_def)
  next
    case False
    then have "unat (timeout_tick (threads k t) - kernel_tick k) \<noteq> 0" using unat_eq_0 by blast
    then have "unat (kernel_tick k - timeout_tick (threads k t)) = 2 ^ 32 - ticks_left k t"
      unfolding e ticks_left_def unat_sub_if_size [of 0] by (simp add: word_size)
    moreover have "ticks_left k t \<noteq> 0" using False unat_eq_0 unfolding ticks_left_def by blast
    ultimately show ?thesis using assms by (simp add: word_less_nat_alt m)
  qed
qed

lemma timeout_ok:
  assumes ok: "kernel_ok N lo idle k" and t: "t < N" "stat (threads k t) = THREAD_SUSPEND" "\<not> activated (threads k t)"
  shows "\<exists>k'. thread_timeout t k = Some k' \<and> kernel_ok N lo idle k' \<and> kernel_tick k' = kernel_tick k \<and>
    timer_list k' = timer_list k \<and> timed_out t k' \<and>
    (\<forall>u. u \<noteq> t \<longrightarrow> timed_out u k' = timed_out u k \<and> (\<forall>d W. asleep u d W k' = asleep u d W k))"
proof -
  define k1 where "k1 = upd_thread t (\<lambda>th. th\<lparr>error := - ETIMEOUT\<rparr>) k"
  define k2 where "k2 = rt_schedule_insert_thread t (tlist_remove t k1)"
  have core: "core_ok N lo idle k" and run: "stat (threads k (current_thread k)) = THREAD_RUNNING"
    using ok by (simp_all add: kernel_ok_def best_runs_def)
  have c1: "core_ok N lo idle k1" unfolding k1_def by (rule upd_core [OF core]) simp_all
  have r1: "stat (threads k1 (current_thread k1)) = THREAD_RUNNING"
    and t1: "stat (threads k1 t) = THREAD_SUSPEND" "\<not> activated (threads k1 t)"
    using run t by (auto simp: k1_def)
  note w = wake_core [OF c1 r1 t(1) t1, folded k2_def]
  obtain k3 where k3: "rt_schedule k2 = Some k3" "kernel_ok N lo idle k3" "same_core k2 k3"
    using schedule_core [OF w(1)] by blast
  have "thread_timeout t k = Some k3" using t(2) k3(1) by (simp add: thread_timeout_def k1_def k2_def)
  moreover have "timed_out t k2" by (simp add: timed_out_def w(3)) (simp add: k1_def)
  moreover have sm: "u \<in> set (suspend_thread (sems k2 s)) \<longleftrightarrow> u \<in> set (suspend_thread (sems k s))" if "u \<noteq> t" for u s
    using that by (simp add: k2_def k1_def)
  have "timed_out u k2 = timed_out u k \<and> asleep u d W k2 = asleep u d W k" if "u \<noteq> t" for u d W
    using that sm by (simp add: timed_out_def asleep_def w(3,5) ticks_left_def) (simp add: k1_def)
  moreover have "kernel_tick k3 = kernel_tick k" "timer_list k3 = timer_list k"
    using k3(3) w(5,6) by (simp_all add: same_core_def k1_def)
  ultimately show ?thesis
    using k3 asleep_same [OF k3(3)] timed_out_same [OF k3(3)] by blast
qed

lemma check_ok:
  assumes "kernel_ok N 0 idle k" and "length (timer_list k) \<le> n"
  shows "\<exists>k'. timer_check_loop n k = Some k' \<and> kernel_ok N 1 idle k' \<and> kernel_tick k' = kernel_tick k \<and>
    (\<forall>u. (timed_out u k \<longrightarrow> timed_out u k') \<and> (\<forall>W. asleep u 0 W k \<longrightarrow> u < N \<longrightarrow> timed_out u k') \<and>
      (\<forall>d W. 0 < d \<longrightarrow> asleep u d W k \<longrightarrow> asleep u d W k'))"
  using assms
proof (induction n arbitrary: k)
  case 0
  then have "timer_list k = []" by simp
  moreover have tm: "timers_ok N 0 k" using 0 by (simp add: kernel_ok_def core_ok_def)
  ultimately have "kernel_ok N 1 idle k" "\<And>u W. asleep u 0 W k \<Longrightarrow> u < N \<Longrightarrow> False"
    using 0 by (auto simp: kernel_ok_def core_ok_def timers_ok_def asleep_def)
  then show ?case using \<open>timer_list k = []\<close> by (auto simp: timer_check_loop.simps)
next
  case (Suc n)
  have tm: "timers_ok N 0 k" using Suc by (simp add: kernel_ok_def core_ok_def)
  show ?case
  proof (cases "timer_list k = [] \<or> ticks_left k (hd (timer_list k)) \<noteq> 0")
    case True
    have "0 < ticks_left k u" if "u \<in> set (timer_list k)" for u
    proof (cases "timer_list k")
      case (Cons t ts)
      then have "0 < ticks_left k t" "sorted (map (ticks_left k) (t # ts))" using True tm by (auto simp: timers_ok_def)
      then show ?thesis using that Cons by fastforce
    qed (use that in simp)
    then have "timers_ok N 1 k" "\<And>u W. asleep u 0 W k \<Longrightarrow> u < N \<Longrightarrow> False"
      using tm by (fastforce simp: timers_ok_def asleep_def)+
    moreover have "timer_check_loop (Suc n) k = Some k"
      using True timer_ended [of k "hd (timer_list k)"] tm
      by (cases "timer_list k") (simp_all add: timer_check_loop.simps timers_ok_def)
    ultimately show ?thesis using Suc.prems(1) by (auto simp: kernel_ok_def core_ok_def)
  next
    case False
    then obtain t ts where l: "timer_list k = t # ts" and z: "ticks_left k t = 0" by (cases "timer_list k") auto
    have t: "t < N" "stat (threads k t) = THREAD_SUSPEND" using tm l by (auto simp: timers_ok_def)
    define k1 where "k1 = upd_thread t (\<lambda>th. th\<lparr>activated := False\<rparr>) (timer_remove t k)"
    have ok1: "kernel_ok N 0 idle k1"
      using Suc.prems(1) stop_core [of N 0 idle k t] unfolding kernel_ok_def k1_def
      by (auto simp: best_runs_def ready_threads_def timer_remove_def)
    have t1: "stat (threads k1 t) = THREAD_SUSPEND" "\<not> activated (threads k1 t)"
      using t by (simp_all add: k1_def timer_remove_def)
    obtain k2 where k2: "thread_timeout t k1 = Some k2" "kernel_ok N 0 idle k2" "kernel_tick k2 = kernel_tick k1"
        "timer_list k2 = timer_list k1" "timed_out t k2"
        "\<forall>u. u \<noteq> t \<longrightarrow> timed_out u k2 = timed_out u k1 \<and> (\<forall>d W. asleep u d W k2 = asleep u d W k1)"
      using timeout_ok [OF ok1 t(1) t1] by blast
    have "timer_list k1 = ts" using l tm by (auto simp: k1_def timer_remove_def timers_ok_def)
    then have "length (timer_list k2) \<le> n" using Suc.prems(2) l k2(4) by simp
    from Suc.IH [OF k2(2) this] obtain k3 where k3: "timer_check_loop n k2 = Some k3" "kernel_ok N 1 idle k3"
        "kernel_tick k3 = kernel_tick k2"
        "\<forall>u. (timed_out u k2 \<longrightarrow> timed_out u k3) \<and> (\<forall>W. asleep u 0 W k2 \<longrightarrow> u < N \<longrightarrow> timed_out u k3) \<and>
          (\<forall>d W. 0 < d \<longrightarrow> asleep u d W k2 \<longrightarrow> asleep u d W k3)" by blast
    have "timer_check_loop (Suc n) k = Some k3"
      using l timer_ended [of k t] z k2(1) k3(1) by (simp add: timer_check_loop.simps [of "Suc n"] k1_def)
    moreover have "kernel_tick k3 = kernel_tick k" using k3(3) k2(3) by (simp add: k1_def timer_remove_def)
    moreover have "timed_out u k1 = timed_out u k" "asleep u d W k1 = asleep u d W k" if "u \<noteq> t" for u d W
      using that by (simp_all add: timed_out_def asleep_def ticks_left_def k1_def timer_remove_def)
    moreover have "asleep t d W k \<Longrightarrow> d = 0" for d W using z by (simp add: asleep_def)
    ultimately show ?thesis using k3 k2(5,6) by (metis less_not_refl)
  qed
qed

lemma ticks_left_step:
  assumes "1 \<le> ticks_left k t"
  shows "ticks_left (k\<lparr>kernel_tick := kernel_tick k + 1\<rparr>) t = ticks_left k t - 1"
proof -
  have e: "timeout_tick (threads k t) - (kernel_tick k + 1) = (timeout_tick (threads k t) - kernel_tick k) - 1" by simp
  have "timeout_tick (threads k t) - kernel_tick k \<noteq> 0" using assms unfolding ticks_left_def by auto
  then have "unat (timeout_tick (threads k t) - (kernel_tick k + 1)) = unat (timeout_tick (threads k t) - kernel_tick k) - 1"
    unfolding e by (rule unat_minus_one)
  then show ?thesis by (simp add: ticks_left_def)
qed

lemma tick_core:
  assumes "core_ok N 1 idle k"
  shows "core_ok N 0 idle (k\<lparr>kernel_tick := kernel_tick k + 1\<rparr>)" (is "core_ok N 0 idle ?k")
proof -
  have "sched_ok N k" and tm: "timers_ok N 1 k" using assms by (simp_all add: core_ok_def)
  then have "sched_ok N ?k" by (elim sched_ok_cong) simp_all
  have l: "ticks_left ?k u = ticks_left k u - 1" "1 \<le> ticks_left k u" "ticks_left k u < 0x7FFFFFFF"
    if "u \<in> set (timer_list k)" for u
    using that tm ticks_left_step [of k u] by (simp_all add: timers_ok_def)
  have "sorted_wrt (\<lambda>u v. ticks_left k u \<le> ticks_left k v) (timer_list k)"
    using tm by (simp add: timers_ok_def sorted_wrt_map)
  then have "sorted_wrt (\<lambda>u v. ticks_left ?k u \<le> ticks_left ?k v) (timer_list k)"
    by (rule sorted_wrt_mono_rel [rotated]) (simp add: l diff_le_mono)
  moreover have "\<forall>u\<in>set (timer_list k). stat (threads k u) = THREAD_SUSPEND \<and> ticks_left ?k u < 0x7FFFFFFF"
    using tm l by (simp add: timers_ok_def less_imp_diff_less)
  ultimately have "timers_ok N 0 ?k" using tm unfolding timers_ok_def sorted_wrt_map by simp
  then show ?thesis using assms \<open>sched_ok N ?k\<close> by (simp add: core_ok_def waits_ok_def)
qed

lemma upd_best:
  assumes "best_runs N k" and "\<And>th. stat (f th) = stat th" and "\<And>th. current_priority (f th) = current_priority th"
  shows "best_runs N (upd_thread t f k)"
  using assms by (auto simp: best_runs_def ready_threads_def)

lemma tick_ok:
  assumes ok: "kernel_ok N 1 idle k"
  shows "\<exists>k'. rt_tick_increase k = Some k' \<and> kernel_ok N 1 idle k' \<and> kernel_tick k' = kernel_tick k + 1 \<and>
    (\<forall>u. (timed_out u k \<longrightarrow> timed_out u k') \<and> (\<forall>W. asleep u 1 W k \<longrightarrow> u < N \<longrightarrow> timed_out u k') \<and>
      (\<forall>d W. 0 < d \<longrightarrow> asleep u (Suc d) W k \<longrightarrow> asleep u d W k'))"
proof -
  define c where "c = current_thread k"
  define k1 where "k1 = k\<lparr>kernel_tick := kernel_tick k + 1\<rparr>"
  define k2 where "k2 = upd_thread c (\<lambda>th. th\<lparr>remaining_tick := remaining_tick th - 1\<rparr>) k1"
  define k3 where "k3 = upd_thread c (\<lambda>th. th\<lparr>remaining_tick := init_tick th, yield_flag := True\<rparr>) k2"
  have core: "core_ok N 1 idle k" and best: "best_runs N k" using ok by (simp_all add: kernel_ok_def)
  have c1: "core_ok N 0 idle k1" unfolding k1_def by (rule tick_core [OF core])
  have c2: "core_ok N 0 idle k2" unfolding k2_def by (rule upd_core [OF c1]) simp_all
  have c3: "core_ok N 0 idle k3" unfolding k3_def by (rule upd_core [OF c2]) simp_all
  have "best_runs N k1" using best by (simp add: best_runs_def ready_threads_def k1_def)
  then have "best_runs N k2" unfolding k2_def by (rule upd_best) simp_all
  then have ok2: "kernel_ok N 0 idle k2" using c2 by (simp add: kernel_ok_def)
  define go where "go = (if remaining_tick (threads k2 c) = 0 then rt_schedule k3 else Some k2)"
  have t2: "timed_out u k2 = timed_out u k1" "timed_out u k3 = timed_out u k1" for u
    by (simp_all add: timed_out_def k2_def k3_def)
  have a2: "asleep u d W k2 = asleep u d W k1" "asleep u d W k3 = asleep u d W k1" for u d W
    by (simp_all add: asleep_def ticks_left_def k2_def k3_def)
  have n2: "kernel_tick k2 = kernel_tick k1" "kernel_tick k3 = kernel_tick k1" by (simp_all add: k2_def k3_def)
  have f: "timed_out u k4 = timed_out u k1 \<and> asleep u d W k4 = asleep u d W k1 \<and> kernel_tick k4 = kernel_tick k1"
    if "same_core k3 k4 \<or> k4 = k2" for k4 u d W
    using that asleep_same [of k3 k4] timed_out_same [of k3 k4] t2 a2 n2 by (metis same_core_def)
  obtain k4 where k4: "go = Some k4" "kernel_ok N 0 idle k4" "same_core k3 k4 \<or> k4 = k2"
    using schedule_core [OF c3] ok2 unfolding go_def by (cases "remaining_tick (threads k2 c) = 0") auto
  note f4 = f [OF k4(3)]
  obtain k5 where k5: "timer_check_loop (length (timer_list k4)) k4 = Some k5" "kernel_ok N 1 idle k5"
      "kernel_tick k5 = kernel_tick k4"
      "\<forall>u. (timed_out u k4 \<longrightarrow> timed_out u k5) \<and> (\<forall>W. asleep u 0 W k4 \<longrightarrow> u < N \<longrightarrow> timed_out u k5) \<and>
        (\<forall>d W. 0 < d \<longrightarrow> asleep u d W k4 \<longrightarrow> asleep u d W k5)"
    using check_ok [OF k4(2) order.refl] by blast
  have "rt_tick_increase k = Option.bind go rt_timer_check"
    by (simp add: rt_tick_increase_def Let_def k1_def k2_def k3_def go_def c_def)
  then have "rt_tick_increase k = Some k5" using k4(1) k5(1) by (simp add: rt_timer_check_def)
  moreover have "kernel_tick k5 = kernel_tick k + 1" using k5(3) f4 by (simp add: k1_def)
  moreover have "timed_out u k1 = timed_out u k" for u by (simp add: timed_out_def k1_def)
  moreover have "asleep u (Suc d) W k \<Longrightarrow> asleep u d W k1" for u d W
    using ticks_left_step [of k u] by (simp add: asleep_def k1_def)
  ultimately show ?thesis using k5(2,4) f4 by (metis One_nat_def)
qed

section \<open>Semaphores\<close>

lemma sem_value_core:
  assumes ok: "kernel_ok N lo idle k" and e: "suspend_thread (sems k s) = []" and v: "v \<le> SEM_VALUE_MAX"
  shows "kernel_ok N lo idle (upd_sem s (\<lambda>m. m\<lparr>sem_value := v\<rparr>) k)" (is "kernel_ok N lo idle ?k")
proof -
  have f: "threads ?k = threads k" "current_thread ?k = current_thread k" "timer_list ?k = timer_list k"
    "kernel_tick ?k = kernel_tick k" "priority_table ?k = priority_table k" "priority_group ?k = priority_group k"
    "suspend_thread (sems ?k x) = suspend_thread (sems k x)"
    "sem_value (sems ?k x) = (if x = s then v else sem_value (sems k x))" for x
    by (simp_all add: upd_sem_def)
  have s: "sched_ok N k" and tm: "timers_ok N lo k" and w: "waits_ok N k" using ok by (simp_all add: kernel_ok_def core_ok_def)
  have rt: "ready_threads N ?k = ready_threads N k" by (simp add: ready_threads_def f)
  have "ready_sets N (ready_threads N k) ?k"
    using ready_sets_cong [of N "ready_threads N k" k ?k] s by (simp add: sched_ok_def f)
  then have "sched_ok N ?k" using s unfolding sched_ok_def rt f by blast
  moreover have tl: "ticks_left ?k = ticks_left k" by (simp add: ticks_left_def f fun_eq_iff)
  have "timers_ok N lo ?k" using tm unfolding timers_ok_def tl f .
  moreover have "waits_ok N ?k" using w e v unfolding waits_ok_def f by auto
  moreover have "best_runs N ?k" using ok by (simp add: kernel_ok_def best_runs_def rt f)
  ultimately show ?thesis using ok by (simp add: kernel_ok_def core_ok_def f)
qed

lemma wait_time:
  assumes "0 < time" and "time < 0x7FFFFFFF"
  shows "unat (word_of_int time :: u32) = nat time" "(word_of_int time :: u32) \<noteq> 0"
    "(word_of_int time :: u32) < RT_TICK_MAX div 2"
proof -
  have "uint (word_of_int time :: u32) = time" using assms by (simp add: uint_word_of_int)
  then show u: "unat (word_of_int time :: u32) = nat time" by (simp only: unat_eq_nat_uint)
  then show "(word_of_int time :: u32) \<noteq> 0" using assms(1) by (metis nat_0_iff not_le unat_0)
  have "unat (RT_TICK_MAX div 2) = 0x7FFFFFFF" by (simp add: RT_TICK_MAX_def unat_div)
  then show "(word_of_int time :: u32) < RT_TICK_MAX div 2" using assms u by (simp add: word_less_nat_alt)
qed

text \<open>The running thread waits for an object.\<close>

lemma block_ok:
  assumes ok: "kernel_ok N 1 idle k" and zero: "sem_value (sems k s) = 0" and ci: "current_thread k \<noteq> idle"
    and time: "timeout < 0x7FFFFFFF"
  defines "c \<equiv> current_thread k"
  shows "\<exists>k3 k4 k5. ipc_list_suspend s c (upd_thread c (\<lambda>th. th\<lparr>error := 0\<rparr>) k) = Some k3 \<and>
    start_wait c timeout k3 = Some k4 \<and> rt_schedule k4 = Some k5 \<and> kernel_ok N 1 idle k5 \<and>
    (\<forall>t d W. t \<noteq> c \<longrightarrow> asleep t d W k5 = asleep t d W k) \<and> (timeout > 0 \<longrightarrow> asleep c (nat timeout) {s} k5) \<and>
    sems k5 = (sems k)(s := (sems k s)\<lparr>suspend_thread := suspend_thread (sems k s) @ [c]\<rparr>)"
proof -
  obtain k2 where k2: "rt_thread_suspend c (upd_thread c (\<lambda>th. th\<lparr>error := 0\<rparr>) k) = Some k2"
      "core_ok N 1 idle k2" "current_thread k2 = c" "kernel_tick k2 = kernel_tick k" "sems k2 = sems k"
      "threads k2 = (threads k)(c := (threads k c)\<lparr>error := 0, stat := THREAD_SUSPEND\<rparr>)"
    using suspend_core [OF ok refl ci] by (auto simp: c_def)
  have core: "core_ok N 1 idle k" and run: "stat (threads k c) = THREAD_RUNNING" and cN: "c < N"
    using ok by (auto simp: kernel_ok_def best_runs_def core_ok_def sched_ok_def c_def)
  note free = running_free [OF core, of c]
  define k3 where "k3 = upd_sem s (\<lambda>m. m\<lparr>suspend_thread := suspend_thread m @ [c]\<rparr>) k2"
  have t2: "stat (threads k2 c) = THREAD_SUSPEND" "\<And>x. c \<notin> set (suspend_thread (sems k2 x))"
    "sem_value (sems k2 s) = 0" using free(2) run zero by (simp_all add: k2(5,6))
  have c3: "core_ok N 1 idle k3" unfolding k3_def by (rule enqueue_core [OF k2(2) cN t2])
  have f3: "threads k3 = threads k2" "kernel_tick k3 = kernel_tick k"
    "sems k3 = (sems k)(s := (sems k s)\<lparr>suspend_thread := suspend_thread (sems k s) @ [c]\<rparr>)"
    by (simp_all add: k3_def upd_sem_def k2)
  have w3: "{x. t \<in> set (suspend_thread (sems k3 x))} =
    {x. t \<in> set (suspend_thread (sems k x))} \<union> (if t = c then {s} else {})" for t
    by (auto simp: f3)
  have a3: "asleep t d W k3 = asleep t d W k" if "t \<noteq> c" for t d W
    using that w3 [of t] by (simp add: asleep_def ticks_left_def f3(1,2) k2(6))
  have t3: "stat (threads k3 c) = THREAD_SUSPEND" "\<not> activated (threads k3 c)"
    using free(1) run cN by (simp_all add: f3(1) k2(6))
  have "{x. c \<in> set (suspend_thread (sems k3 x))} = {s}" using w3 [of c] free(2) run by simp
  note arm = arm_core [OF c3 cN t3 wait_time(2,3), of timeout, OF _ time _ time, unfolded this]
  define k4 where "k4 = (if timeout > 0
    then rt_timer_start c (upd_thread c (\<lambda>th. th\<lparr>timer_time := word_of_int timeout\<rparr>) k3) else k3)"
  have k4: "core_ok N 1 idle k4" "timeout > 0 \<Longrightarrow> asleep c (nat timeout) {s} k4"
    "\<And>t d W. t \<noteq> c \<Longrightarrow> asleep t d W k4 = asleep t d W k" "start_wait c timeout k3 = Some k4" "sems k4 = sems k3"
    using arm wait_time [OF _ time] c3 a3
    by (auto simp: k4_def start_wait_def timer_set_time_def rt_timer_start_def Let_def timer_remove_def)
  obtain k5 where k5: "rt_schedule k4 = Some k5" "kernel_ok N 1 idle k5" "same_core k4 k5"
    using schedule_core [OF k4(1)] by blast
  have "ipc_list_suspend s c (upd_thread c (\<lambda>th. th\<lparr>error := 0\<rparr>) k) = Some k3"
    by (simp add: ipc_list_suspend_def k2(1) k3_def)
  moreover have "sems k5 = sems k3" using k5(3) k4(5) by (simp add: same_core_def)
  ultimately show ?thesis using k4 k5 f3(3) asleep_same [OF k5(3)] by (metis (no_types))
qed

text \<open>The three ways a call to take a semaphore can go.\<close>

lemma take_ok:
  assumes ok: "kernel_ok N 1 idle k" and time: "sem_value (sems k s) = 0 \<Longrightarrow> timeout \<noteq> 0 \<Longrightarrow> current_thread k \<noteq> idle"
    "timeout < 0x7FFFFFFF"
  shows "\<exists>r k'. kernel_sem_take s timeout k = Some (r, k') \<and> kernel_ok N 1 idle k' \<and>
    (\<forall>t d W. t \<noteq> current_thread k \<longrightarrow> asleep t d W k' = asleep t d W k) \<and>
    (r = None \<longrightarrow> timeout > 0 \<longrightarrow> asleep (current_thread k) (nat timeout) {s} k') \<and>
    (r \<noteq> None \<longrightarrow> current_thread k' = current_thread k \<and> threads k' = threads k)"
proof (cases "sem_value (sems k s) > 0")
  case True
  then have e: "suspend_thread (sems k s) = []" "sem_value (sems k s) - 1 \<le> SEM_VALUE_MAX"
    using ok by (auto simp: kernel_ok_def core_ok_def waits_ok_def le_diff_conv intro: le_SucI)
  define k' where "k' = upd_sem s (\<lambda>m. m\<lparr>sem_value := sem_value (sems k s) - 1\<rparr>) k"
  have "kernel_sem_take s timeout k = Some (Some 0, k')"
    using True by (simp add: kernel_sem_take_def k'_def upd_sem_def)
  moreover have "asleep t d W k' = asleep t d W k" for t d W
    by (auto simp: asleep_def ticks_left_def k'_def upd_sem_def)
  ultimately show ?thesis using sem_value_core [OF ok e] by (auto simp: k'_def upd_sem_def)
next
  case zero: False
  show ?thesis
  proof (cases "timeout = 0")
    case True
    then show ?thesis using zero ok by (simp add: kernel_sem_take_def)
  next
    case False
    let ?c = "current_thread k"
    have c: "sem_value (sems k s) = 0" "?c \<noteq> idle" using zero False time(1) by simp_all
    obtain k3 k4 k5 where b: "ipc_list_suspend s ?c (upd_thread ?c (\<lambda>th. th\<lparr>error := 0\<rparr>) k) = Some k3"
        "start_wait ?c timeout k3 = Some k4" "rt_schedule k4 = Some k5" "kernel_ok N 1 idle k5"
        "\<forall>t d W. t \<noteq> ?c \<longrightarrow> asleep t d W k5 = asleep t d W k" "timeout > 0 \<longrightarrow> asleep ?c (nat timeout) {s} k5"
      using block_ok [OF ok c time(2)] by blast
    then have "kernel_sem_take s timeout k = Some (None, k5)"
      using zero False by (simp add: kernel_sem_take_def Let_def)
    then show ?thesis using b(4-6) by simp
  qed
qed

text \<open>A waiting thread is resumed.\<close>

lemma resume_core:
  assumes ok: "core_ok N lo idle k" and run: "stat (threads k (current_thread k)) = THREAD_RUNNING"
    and t: "t < N" "stat (threads k t) = THREAD_SUSPEND"
  defines "k' \<equiv> rt_thread_resume t k"
  shows "core_ok N lo idle k'" "stat (threads k' (current_thread k')) = THREAD_RUNNING"
    "threads k' = (threads k)(t := (threads k t)\<lparr>activated := False, stat := THREAD_READY\<rparr>)"
    "current_thread k' = current_thread k" "kernel_tick k' = kernel_tick k"
    "sems k' = (\<lambda>s. (sems k s)\<lparr>suspend_thread := removeAll t (suspend_thread (sems k s))\<rparr>)"
    "u \<noteq> t \<Longrightarrow> asleep u d W k' = asleep u d W k"
proof -
  define k1 where "k1 = rt_timer_stop t k"
  have c1: "core_ok N lo idle k1" using stop_core [OF ok] ok by (simp add: k1_def rt_timer_stop_def)
  have r1: "stat (threads k1 (current_thread k1)) = THREAD_RUNNING"
    and t1: "stat (threads k1 t) = THREAD_SUSPEND" "\<not> activated (threads k1 t)"
    using run t by (auto simp: k1_def)
  have "rt_timer_stop t (tlist_remove t k) = tlist_remove t k1"
    by (simp add: k1_def rt_timer_stop_def timer_remove_def tlist_remove_def upd_thread_def)
  then have k': "k' = rt_schedule_insert_thread t (tlist_remove t k1)" using t(2) by (simp add: k'_def rt_thread_resume_def)
  note w = wake_core [OF c1 r1 t(1) t1, folded k']
  show "core_ok N lo idle k'" "stat (threads k' (current_thread k')) = THREAD_RUNNING" by (rule w(1), rule w(2))
  show th: "threads k' = (threads k)(t := (threads k t)\<lparr>activated := False, stat := THREAD_READY\<rparr>)"
    by (simp add: w(3)) (simp add: k1_def)
  show "current_thread k' = current_thread k" and n: "kernel_tick k' = kernel_tick k" by (simp_all add: w(4,5)) (simp_all add: k1_def)
  show sm: "sems k' = (\<lambda>s. (sems k s)\<lparr>suspend_thread := removeAll t (suspend_thread (sems k s))\<rparr>)"
    by (simp add: k' k1_def)
  show "asleep u d W k' = asleep u d W k" if "u \<noteq> t" using that by (simp add: asleep_def ticks_left_def th n sm)
qed

lemma first_waiter:
  assumes "core_ok N lo idle k" and "suspend_thread (sems k s) = t # ts"
  shows "t < N" "stat (threads k t) = THREAD_SUSPEND"
    "(\<lambda>x. (sems k x)\<lparr>suspend_thread := removeAll t (suspend_thread (sems k x))\<rparr>) =
       (sems k)(s := (sems k s)\<lparr>suspend_thread := ts\<rparr>)"
proof -
  have sch: "sched_ok N k" and w: "waits_ok N k" using assms(1) by (simp_all add: core_ok_def)
  have i: "t \<in> set (suspend_thread (sems k s))" using assms(2) by simp
  then show "t < N" "stat (threads k t) = THREAD_SUSPEND" using w sch unfolding waits_ok_def sched_ok_def by blast+
  have "removeAll t (suspend_thread (sems k x)) = (if x = s then ts else suspend_thread (sems k x))" for x
  proof (cases "x = s")
    case True
    have "distinct (t # ts)" using w assms(2) by (metis waits_ok_def)
    then show ?thesis using True assms(2) by simp
  next
    case False
    then have "t \<notin> set (suspend_thread (sems k x))" using i w unfolding waits_ok_def by blast
    then show ?thesis using False by simp
  qed
  then show "(\<lambda>x. (sems k x)\<lparr>suspend_thread := removeAll t (suspend_thread (sems k x))\<rparr>) =
       (sems k)(s := (sems k s)\<lparr>suspend_thread := ts\<rparr>)" by (auto simp: fun_eq_iff)
qed

lemma sem_release_first:
  assumes ok: "kernel_ok N 1 idle k" and q: "suspend_thread (sems k s) = t # ts"
  shows "\<exists>k'. kernel_sem_release s k = Some (0, k') \<and> kernel_ok N 1 idle k' \<and>
    sems k' = (sems k)(s := (sems k s)\<lparr>suspend_thread := ts\<rparr>) \<and>
    stat (threads k' t) \<notin> {THREAD_SUSPEND, THREAD_INIT} \<and> error (threads k' t) = error (threads k t) \<and>
    (\<forall>u d W. u \<noteq> t \<longrightarrow> asleep u d W k' = asleep u d W k)"
proof -
  have core: "core_ok N 1 idle k" and run: "stat (threads k (current_thread k)) = THREAD_RUNNING"
    using ok by (simp_all add: kernel_ok_def best_runs_def)
  note w = first_waiter [OF core q]
  note r = resume_core [OF core run w(1,2)]
  obtain k3 where k3: "rt_schedule (rt_thread_resume t k) = Some k3" "kernel_ok N 1 idle k3" "same_core (rt_thread_resume t k) k3"
    using schedule_core [OF r(1)] by blast
  have "sems k3 = (sems k)(s := (sems k s)\<lparr>suspend_thread := ts\<rparr>)"
    using k3(3) by (simp add: same_core_def r(6) w(3))
  moreover have "stat (threads k3 t) \<notin> {THREAD_SUSPEND, THREAD_INIT}" "error (threads k3 t) = error (threads k t)"
    using k3(3) by (simp_all add: same_core_def r(3))
  ultimately show ?thesis using k3 asleep_same [OF k3(3)] r(7) q by (simp add: kernel_sem_release_def)
qed

lemma release_ok:
  assumes ok: "kernel_ok N 1 idle k"
  shows "\<exists>r k'. kernel_sem_release s k = Some (r, k') \<and> kernel_ok N 1 idle k' \<and>
    (\<forall>t d W. s \<notin> W \<longrightarrow> asleep t d W k \<longrightarrow> asleep t d W k')"
proof (cases "suspend_thread (sems k s)")
  case Nil
  define k' where "k' = (if sem_value (sems k s) < SEM_VALUE_MAX
    then upd_sem s (\<lambda>m. m\<lparr>sem_value := sem_value (sems k s) + 1\<rparr>) k else k)"
  have "kernel_ok N 1 idle k'"
    using sem_value_core [OF ok Nil, of "sem_value (sems k s) + 1"] ok by (simp add: k'_def)
  moreover have "asleep t d W k' = asleep t d W k" for t d W
    by (auto simp: asleep_def ticks_left_def k'_def upd_sem_def)
  moreover have "\<exists>r. kernel_sem_release s k = Some (r, k')"
    using Nil by (simp add: kernel_sem_release_def k'_def upd_sem_def)
  ultimately show ?thesis by blast
next
  case (Cons t ts)
  obtain k' where k': "kernel_sem_release s k = Some (0, k')" "kernel_ok N 1 idle k'"
      "\<forall>u d W. u \<noteq> t \<longrightarrow> asleep u d W k' = asleep u d W k"
    using sem_release_first [OF ok Cons] by blast
  moreover have "s \<in> W" if "asleep t d W k" for d W using that Cons by (auto simp: asleep_def)
  ultimately show ?thesis by metis
qed

text \<open>A thread that starts waits for nothing before it is resumed.\<close>

lemma init_core:
  assumes ok: "core_ok N lo idle k" and t: "t < N" "stat (threads k t) = THREAD_INIT"
  shows "core_ok N lo idle (upd_thread t (\<lambda>th. th\<lparr>stat := THREAD_SUSPEND, yield_flag := False\<rparr>) k)"
    (is "core_ok N lo idle ?k")
proof -
  note free = running_free [OF ok, of t]
  have s: "sched_ok N k" and tm: "timers_ok N lo k" using ok by (simp_all add: core_ok_def)
  have th: "threads ?k = (threads k)(t := (threads k t)\<lparr>stat := THREAD_SUSPEND, yield_flag := False\<rparr>)"
    by (auto simp: fun_eq_iff)
  have rt: "ready_threads N ?k = ready_threads N k" using t(2) by (auto simp: ready_threads_def th)
  have r: "ready_sets N (ready_threads N ?k) ?k"
    unfolding rt using ready_sets_cong [of N "ready_threads N k" k ?k] s by (simp add: sched_ok_def)
  have "sched_ok N ?k" unfolding sched_ok_def
  proof (intro conjI r allI impI ballI)
    have "\<forall>u<N. stat (threads k u) = THREAD_RUNNING \<longrightarrow> u = current_thread k" using s by (simp add: sched_ok_def)
    then show "u = current_thread ?k" if "u < N" "stat (threads ?k u) = THREAD_RUNNING" for u
      using that unfolding th by (cases "u = t") simp_all
    have "\<forall>x. \<forall>u\<in>set (suspend_thread (sems k x)). stat (threads k u) = THREAD_SUSPEND"
      using s by (simp add: sched_ok_def)
    then show "stat (threads ?k u) = THREAD_SUSPEND" if "u \<in> set (suspend_thread (sems ?k x))" for x u
      using that unfolding th by auto
    show "current_thread ?k < N" "stat (threads ?k (current_thread ?k)) \<in> {THREAD_RUNNING, THREAD_SUSPEND}"
      using s t(2) unfolding th by (auto simp: sched_ok_def)
  qed
  moreover have tl: "ticks_left ?k = ticks_left k" by (simp add: ticks_left_def fun_eq_iff)
  have "timers_ok N lo ?k" using tm free(1) t unfolding timers_ok_def tl th by auto
  ultimately show ?thesis using ok t(2) unfolding core_ok_def waits_ok_def th by auto
qed

lemma startup_ok:
  assumes ok: "kernel_ok N 1 idle k" and t: "t < N" "stat (threads k t) = THREAD_INIT"
  shows "\<exists>k'. rt_thread_startup t k = Some k' \<and> kernel_ok N 1 idle k' \<and>
    stat (threads k' t) \<notin> {THREAD_SUSPEND, THREAD_INIT} \<and>
    (\<forall>u. u \<noteq> t \<longrightarrow> stat (threads k' u) \<in> {THREAD_READY, THREAD_RUNNING} \<longrightarrow>
       stat (threads k u) \<in> {THREAD_READY, THREAD_RUNNING}) \<and>
    (\<forall>u d W. u \<noteq> t \<longrightarrow> asleep u d W k' = asleep u d W k)"
proof -
  have core: "core_ok N 1 idle k" and run: "stat (threads k (current_thread k)) = THREAD_RUNNING"
    using ok by (simp_all add: kernel_ok_def best_runs_def)
  note free = running_free [OF core, of t]
  define k1 where "k1 = upd_thread t (\<lambda>th. th\<lparr>stat := THREAD_SUSPEND, yield_flag := False\<rparr>) k"
  have c1: "core_ok N 1 idle k1" unfolding k1_def by (rule init_core [OF core t])
  have r1: "stat (threads k1 (current_thread k1)) = THREAD_RUNNING"
    and t1: "stat (threads k1 t) = THREAD_SUSPEND" "\<not> activated (threads k1 t)"
    using run t free(1) by (auto simp: k1_def)
  define k2 where "k2 = rt_schedule_insert_thread t (tlist_remove t k1)"
  note wk = wake_core [OF c1 r1 t(1) t1, folded k2_def]
  have "rt_timer_stop t (tlist_remove t k1) = tlist_remove t k1" using t1(2) by (simp add: rt_timer_stop_def)
  then have k2: "rt_thread_resume t k1 = k2" using t1(1) by (simp add: rt_thread_resume_def k2_def)
  obtain k3 where k3: "rt_schedule k2 = Some k3" "kernel_ok N 1 idle k3" "same_core k2 k3"
    using schedule_core [OF wk(1)] by blast
  have "rt_thread_startup t k = Some k3" using t(2) k2 k3(1) by (simp add: rt_thread_startup_def k1_def)
  moreover have "stat (threads k3 t) \<notin> {THREAD_SUSPEND, THREAD_INIT}"
    using k3(3) by (simp add: same_core_def wk(3))
  moreover have "stat (threads k u) \<in> {THREAD_READY, THREAD_RUNNING}"
    if "u \<noteq> t" "stat (threads k3 u) \<in> {THREAD_READY, THREAD_RUNNING}" for u
  proof -
    have "stat (threads k2 u) = stat (threads k u)" using that(1) by (simp add: wk(3)) (simp add: k1_def)
    moreover have "stat (threads k2 u) \<notin> {THREAD_SUSPEND, THREAD_INIT}"
      using k3(3) that(2) unfolding same_core_def by (metis insertE singletonD thread_stat.distinct)
    ultimately show ?thesis by (cases "stat (threads k u)") simp_all
  qed
  moreover have "asleep u d W k2 = asleep u d W k" if "u \<noteq> t" for u d W
  proof -
    have "u \<in> set (suspend_thread (sems k2 x)) \<longleftrightarrow> u \<in> set (suspend_thread (sems k x))" for x
      using that by (simp add: k2_def k1_def)
    then show ?thesis using that by (simp add: asleep_def ticks_left_def wk(3,5)) (simp add: k1_def)
  qed
  ultimately show ?thesis using k3(2) asleep_same [OF k3(3)] by auto
qed

lemma yield_ok:
  assumes ok: "kernel_ok N 1 idle k"
  shows "\<exists>k'. rt_thread_yield k = Some k' \<and> kernel_ok N 1 idle k' \<and> (\<forall>t d W. asleep t d W k' = asleep t d W k)"
proof -
  define k1 where "k1 = upd_thread (current_thread k) (\<lambda>th. th\<lparr>remaining_tick := init_tick th, yield_flag := True\<rparr>) k"
  have "core_ok N 1 idle k1" unfolding k1_def
    by (rule upd_core) (use ok in \<open>simp_all add: kernel_ok_def\<close>)
  then obtain k2 where k2: "rt_schedule k1 = Some k2" "kernel_ok N 1 idle k2" "same_core k1 k2"
    using schedule_core by blast
  moreover have "asleep t d W k1 = asleep t d W k" for t d W by (simp add: asleep_def ticks_left_def k1_def)
  ultimately show ?thesis using asleep_same [OF k2(3)] by (simp add: rt_thread_yield_def k1_def)
qed

end
