(* ===== verification/KernelRun.thy ===== *)
theory KernelRun
  imports KernelTime
begin

text \<open>
  Whole runs of the kernel: the calls the threads of the boards make and the ticks, in any order. Every
  run is free of failed assertions and always has the best thread running; a sleep lasts exactly its
  ticks, and a wait for a semaphore that is not released exactly its time-out.
\<close>

section \<open>Calls\<close>

datatype kernel_call = Tick | Sleep u32 | Take nat int | Release nat | Yield | Startup nat

fun kernel_step :: "kernel_call \<Rightarrow> kernel \<Rightarrow> kernel option" where
  "kernel_step Tick k = rt_tick_increase k"
| "kernel_step (Sleep n) k = map_option snd (rt_thread_sleep n k)"
| "kernel_step (Take s timeout) k = map_option snd (kernel_sem_take s timeout k)"
| "kernel_step (Release s) k = map_option snd (kernel_sem_release s k)"
| "kernel_step Yield k = rt_thread_yield k"
| "kernel_step (Startup t) k = rt_thread_startup t k"

abbreviation kernel_run :: "kernel_call list \<Rightarrow> kernel \<Rightarrow> kernel option" where
  "kernel_run \<equiv> run_steps kernel_step"

text \<open>
  The idle thread never blocks, a time is below half the range of the ticks, and a thread is started
  once.
\<close>

fun allowed :: "nat \<Rightarrow> nat \<Rightarrow> kernel_call \<Rightarrow> kernel \<Rightarrow> bool" where
  "allowed N idle (Sleep n) k = (current_thread k \<noteq> idle \<and> n < RT_TICK_MAX div 2)"
| "allowed N idle (Take s timeout) k = (timeout < 0x7FFFFFFF \<and>
     (sem_value (sems k s) = 0 \<and> timeout \<noteq> 0 \<longrightarrow> current_thread k \<noteq> idle))"
| "allowed N idle (Startup t) k = (t < N \<and> stat (threads k t) = THREAD_INIT)"
| "allowed N idle _ k = True"

abbreviation allowed_run :: "nat \<Rightarrow> nat \<Rightarrow> kernel_call list \<Rightarrow> kernel \<Rightarrow> bool" where
  "allowed_run N idle \<equiv> guarded_run kernel_step (allowed N idle)"

definition ticks :: "kernel_call list \<Rightarrow> nat" where
  "ticks cs = length (filter (\<lambda>c. c = Tick) cs)"

lemma ticks_simps [simp]:
  "ticks [] = 0" "ticks (Tick # cs) = Suc (ticks cs)" "c \<noteq> Tick \<Longrightarrow> ticks (c # cs) = ticks cs"
  "ticks (cs @ ds) = ticks cs + ticks ds"
  by (simp_all add: ticks_def)

lemma kernel_step_ok:
  assumes "kernel_ok N 1 idle k" and "allowed N idle c k"
  shows "\<exists>k'. kernel_step c k = Some k' \<and> kernel_ok N 1 idle k'"
proof (cases c)
  case (Sleep n)
  then show ?thesis using assms sleep_ok [OF assms(1), of n]
    by (cases "n = 0") (auto simp: rt_thread_sleep_def)
next
  case (Take s timeout)
  then show ?thesis using assms take_ok [OF assms(1), of s timeout] by auto
next
  case (Startup t)
  then show ?thesis using assms startup_ok [OF assms(1), of t] by auto
qed (use assms tick_ok [OF assms(1)] release_ok [OF assms(1)] yield_ok [OF assms(1)] in \<open>auto, force+\<close>)

text \<open>The kernel of a board, with its threads and its idle thread, is a machine that never gets stuck.\<close>

interpretation kern: guarded_machine kernel_step "allowed N idle" "kernel_ok N 1 idle" for N idle
  by unfold_locales (rule kernel_step_ok)

text \<open>A sleeper is not the thread that makes the calls, and nothing but a release of its semaphore wakes it early.\<close>

lemma step_asleep:
  assumes ok: "kernel_ok N 1 idle k" and c: "allowed N idle c k" "c \<noteq> Tick" "\<forall>s\<in>W. c \<noteq> Release s"
    and a: "asleep t d W k" and k': "kernel_step c k = Some k'"
  shows "asleep t d W k'"
proof -
  have run: "t \<noteq> current_thread k" using ok a by (auto simp: kernel_ok_def best_runs_def asleep_def)
  show ?thesis
  proof (cases c)
    case Tick
    then show ?thesis using c(2) by simp
  next
    case (Sleep n)
    then show ?thesis using c(1) run a k' sleep_ok [OF ok, of n]
      by (cases "n = 0") (auto simp: rt_thread_sleep_def)
  next
    case (Take s timeout)
    then show ?thesis using c(1) run a k' take_ok [OF ok, of s timeout] by auto
  next
    case (Release s)
    then have "s \<notin> W" using c(3) by auto
    then show ?thesis using Release a k' release_ok [OF ok, of s] by auto
  next
    case Yield
    then show ?thesis using a k' yield_ok [OF ok] by auto
  next
    case (Startup u)
    then have "u < N" "stat (threads k u) = THREAD_INIT" "t \<noteq> u" using c(1) a by (auto simp: asleep_def)
    then show ?thesis using Startup a k' startup_ok [OF ok, of u] by auto
  qed
qed

lemma run_asleep:
  assumes "kernel_ok N 1 idle k" and "allowed_run N idle cs k" and "\<forall>s\<in>W. Release s \<notin> set cs"
    and "asleep t d W k" and "ticks cs < d"
  shows "\<exists>k'. kernel_run cs k = Some k' \<and> kernel_ok N 1 idle k' \<and> asleep t (d - ticks cs) W k'"
  using assms
proof (induction cs arbitrary: k d)
  case (Cons c cs)
  obtain k1 where k1: "kernel_step c k = Some k1" "kernel_ok N 1 idle k1"
    using kernel_step_ok [OF Cons.prems(1)] Cons.prems(2) by auto
  have al: "allowed_run N idle cs k1" "allowed N idle c k" using Cons.prems(2) k1(1) by simp_all
  show ?case
  proof (cases "c = Tick")
    case True
    then obtain e where d: "d = Suc e" "0 < e" using Cons.prems(5) by (cases d) auto
    then have "asleep t e W k1" using True k1(1) Cons.prems(4) tick_ok [OF Cons.prems(1)] by auto
    then show ?thesis using Cons.IH [OF k1(2) al(1)] Cons.prems(3,5) True d k1(1) by auto
  next
    case False
    then have "asleep t d W k1" using step_asleep [OF Cons.prems(1) al(2) False _ Cons.prems(4) k1(1)] Cons.prems(3) by auto
    then show ?thesis using Cons.IH [OF k1(2) al(1)] Cons.prems(3,5) False k1(1) by auto
  qed
qed simp

text \<open>The last tick wakes it, and it runs at once if no other thread matches its priority.\<close>

lemma last_tick:
  assumes ok: "kernel_ok N 1 idle k" and a: "asleep t 1 W k" and t: "t < N"
  shows "\<exists>k'. rt_tick_increase k = Some k' \<and> kernel_ok N 1 idle k' \<and> timed_out t k' \<and>
    ((\<forall>u<N. u \<noteq> t \<longrightarrow> current_priority (threads k' t) < current_priority (threads k' u)) \<longrightarrow> current_thread k' = t)"
proof -
  obtain k' where k': "rt_tick_increase k = Some k'" "kernel_ok N 1 idle k'" "timed_out t k'"
    using tick_ok [OF ok] a t by blast
  have "current_thread k' = t"
    if p: "\<forall>u<N. u \<noteq> t \<longrightarrow> current_priority (threads k' t) < current_priority (threads k' u)"
  proof (rule ccontr)
    assume n: "current_thread k' \<noteq> t"
    have s: "sched_ok N k'" and b: "best_runs N k'" using k'(2) by (simp_all add: kernel_ok_def core_ok_def)
    have "stat (threads k' t) \<noteq> THREAD_RUNNING" using s t n unfolding sched_ok_def by blast
    then have "stat (threads k' t) = THREAD_READY"
      using k'(3) by (cases "stat (threads k' t)") (simp_all add: timed_out_def)
    then have "current_priority (threads k' (current_thread k')) \<le> current_priority (threads k' t)"
      using b t by (simp add: best_runs_def ready_threads_def)
    moreover have "current_thread k' < N" using s by (simp add: sched_ok_def)
    ultimately show False using p n by (meson not_le)
  qed
  then show ?thesis using k' by blast
qed

section \<open>Priorities\<close>

text \<open>No operation changes the priority of a thread.\<close>

abbreviation prio :: "kernel \<Rightarrow> nat \<Rightarrow> nat" where
  "prio k t \<equiv> current_priority (threads k t)"

lemma prio_schedule: "rt_schedule k = Some k' \<Longrightarrow> prio k' t = prio k t"
  by (auto simp: rt_schedule_def Let_def split: if_splits option.splits prod.splits)

lemma prio_start: "prio (rt_timer_start u k) t = prio k t"
  by (simp add: rt_timer_start_def Let_def timer_remove_def upd_thread_def)

lemma prio_suspend: "rt_thread_suspend u k = Some k' \<Longrightarrow> prio k' t = prio k t"
  by (auto simp: rt_thread_suspend_def Let_def split: if_splits)

lemma prio_timeout: "thread_timeout u k = Some k' \<Longrightarrow> prio k' t = prio k t"
  by (auto simp: thread_timeout_def Let_def dest!: prio_schedule [of _ _ t] split: if_splits)

lemma prio_check: "timer_check_loop n k = Some k' \<Longrightarrow> prio k' t = prio k t"
proof (induction n arbitrary: k)
  case 0
  then show ?case by (auto simp: timer_check_loop.simps [of 0] split: list.splits if_splits)
next
  case (Suc n)
  then show ?case
    by (auto simp: timer_check_loop.simps [of "Suc n"] timer_remove_def dest!: prio_timeout [of _ _ _ t]
        split: list.splits if_splits option.splits)
qed

lemma prio_step:
  assumes "kernel_step c k = Some k'"
  shows "prio k' t = prio k t"
proof (cases c)
  case Tick
  then show ?thesis using assms
    by (auto simp: rt_tick_increase_def rt_timer_check_def Let_def bind_eq_Some_conv
        dest!: prio_schedule [of _ _ t] prio_check [of _ _ _ t] split: if_splits)
next
  case (Sleep n)
  then show ?thesis using assms
    by (auto simp: rt_thread_sleep_def timer_set_time_def Let_def bind_eq_Some_conv prio_start
        dest!: prio_schedule [of _ _ t] prio_suspend [of _ _ _ t] split: if_splits)
next
  case (Take s timeout)
  then show ?thesis using assms
    by (auto simp: kernel_sem_take_def ipc_list_suspend_def start_wait_def timer_set_time_def Let_def bind_eq_Some_conv prio_start upd_sem_def
        dest!: prio_schedule [of _ _ t] prio_suspend [of _ _ _ t] split: if_splits)
next
  case (Release s)
  then show ?thesis using assms
    by (auto simp: kernel_sem_release_def rt_thread_resume_def upd_sem_def
        dest!: prio_schedule [of _ _ t] split: if_splits list.splits)
next
  case Yield
  then show ?thesis using assms by (auto simp: rt_thread_yield_def dest!: prio_schedule [of _ _ t])
next
  case (Startup u)
  then show ?thesis using assms
    by (auto simp: rt_thread_startup_def rt_thread_resume_def dest!: prio_schedule [of _ _ t] split: if_splits)
qed

lemma prio_run: "kernel_run cs k = Some k' \<Longrightarrow> prio k' t = prio k t"
  by (induction cs arbitrary: k) (auto simp: bind_eq_Some_conv dest!: prio_step [of _ _ _ t])

text \<open>Both parts of a wait with a time: before its last tick, and that tick.\<close>

lemma wait_run:
  assumes ok: "kernel_ok N 1 idle k" and a: "asleep t d W k" "t < N"
    and cs: "allowed_run N idle cs k" "\<forall>s\<in>W. Release s \<notin> set cs"
  shows "ticks cs < d \<Longrightarrow> \<exists>k'. kernel_run cs k = Some k' \<and> stat (threads k' t) = THREAD_SUSPEND"
    "Suc (ticks cs) = d \<Longrightarrow> \<exists>k'. kernel_run (cs @ [Tick]) k = Some k' \<and> kernel_ok N 1 idle k' \<and> timed_out t k' \<and>
       ((\<forall>u<N. u \<noteq> t \<longrightarrow> prio k t < prio k u) \<longrightarrow> current_thread k' = t)"
proof -
  show "\<exists>k'. kernel_run cs k = Some k' \<and> stat (threads k' t) = THREAD_SUSPEND" if "ticks cs < d"
    using run_asleep [OF ok cs a(1) that] by (auto simp: asleep_def)
  assume d: "Suc (ticks cs) = d"
  then have "ticks cs < d" by simp
  then obtain k1 where k1: "kernel_run cs k = Some k1" "kernel_ok N 1 idle k1" "asleep t 1 W k1"
    using run_asleep [OF ok cs a(1)] d by fastforce
  obtain k2 where k2: "rt_tick_increase k1 = Some k2" "kernel_ok N 1 idle k2" "timed_out t k2"
      "(\<forall>u<N. u \<noteq> t \<longrightarrow> prio k2 t < prio k2 u) \<longrightarrow> current_thread k2 = t"
    using last_tick [OF k1(2,3) a(2)] by blast
  have r: "kernel_run (cs @ [Tick]) k = Some k2" using k1(1) k2(1) by (simp add: run_steps_append)
  then show "\<exists>k'. kernel_run (cs @ [Tick]) k = Some k' \<and> kernel_ok N 1 idle k' \<and> timed_out t k' \<and>
       ((\<forall>u<N. u \<noteq> t \<longrightarrow> prio k t < prio k u) \<longrightarrow> current_thread k' = t)"
    using k2 prio_run [OF r] by auto
qed

text \<open>A sleep, before its last tick and at it.\<close>

lemma sleep_run:
  assumes "kernel_ok N 1 idle k" and "current_thread k = t" and "n \<noteq> 0"
    and "allowed_run N idle (Sleep n # cs) k"
  shows "(ticks cs < unat n \<longrightarrow>
      (\<exists>k'. kernel_run (Sleep n # cs) k = Some k' \<and> stat (threads k' t) = THREAD_SUSPEND)) \<and>
    (Suc (ticks cs) = unat n \<longrightarrow>
      (\<exists>k'. kernel_run (Sleep n # cs @ [Tick]) k = Some k' \<and> fst (sleep_result t k') = 0 \<and>
         stat (threads k' t) \<notin> {THREAD_SUSPEND, THREAD_INIT} \<and>
         ((\<forall>u<N. u \<noteq> t \<longrightarrow> current_priority (threads k t) < current_priority (threads k u)) \<longrightarrow>
          current_thread k' = t)))"
proof -
  have al: "t \<noteq> idle" "n < RT_TICK_MAX div 2" using assms(2,4) by simp_all
  obtain k0 where k0: "rt_thread_sleep n k = Some (0, k0)" "kernel_ok N 1 idle k0" "asleep t (unat n) {} k0"
    using sleep_ok [OF assms(1) _ assms(3) al(2)] al(1) assms(2) by auto
  have st: "kernel_step (Sleep n) k = Some k0" using k0(1) by simp
  have cs: "allowed_run N idle cs k0" "\<forall>s\<in>{}. Release s \<notin> set cs" using assms(4) k0(1) by simp_all
  have "t < N" using assms(1,2) by (auto simp: kernel_ok_def core_ok_def sched_ok_def)
  note w = wait_run [OF k0(2,3) this cs]
  show ?thesis using w k0(1) prio_step [OF st] by (auto simp: timed_out_def sleep_result_def)
qed

section \<open>Properties\<close>

text \<open>
  C12: From a consistent state no sequence of starts, sleeps, takes, releases, yields and ticks, in any order,
  fails an assertion of the kernel or loses a thread: every call returns, the lists, the priority group
  and the timers stay consistent, and the thread that runs has the best priority of all that can run.
\<close>

theorem kernel_never_fails:
  assumes "kernel_ok N 1 idle k" and "allowed_run N idle cs k"
  shows "\<exists>k'. kernel_run cs k = Some k' \<and> kernel_ok N 1 idle k' \<and>
    stat (threads k' (current_thread k')) = THREAD_RUNNING \<and>
    (\<forall>t<N. stat (threads k' t) = THREAD_READY \<longrightarrow>
       current_priority (threads k' (current_thread k')) \<le> current_priority (threads k' t))"
  using kern.never_stuck [OF assms] by (auto simp: kernel_ok_def best_runs_def ready_threads_def)

text \<open>
  C13: A thread that sleeps \<open>n\<close> ticks, whatever the other threads do and even where the tick counter
  wraps, stays suspended until the \<open>n\<close>-th tick and wakes at that tick with the result 0; if its priority
  is better than that of all other threads, it runs as soon as that tick is handled.
\<close>

theorem sleep_is_exact:
  assumes "kernel_ok N 1 idle k" and "current_thread k = t" and "n \<noteq> 0"
    and "allowed_run N idle (Sleep n # cs) k"
  shows "(ticks cs < unat n \<longrightarrow>
      (\<exists>k'. kernel_run (Sleep n # cs) k = Some k' \<and> stat (threads k' t) = THREAD_SUSPEND)) \<and>
    (Suc (ticks cs) = unat n \<longrightarrow>
      (\<exists>k'. kernel_run (Sleep n # cs @ [Tick]) k = Some k' \<and> fst (sleep_result t k') = 0 \<and>
         stat (threads k' t) \<notin> {THREAD_SUSPEND, THREAD_INIT} \<and>
         ((\<forall>u<N. u \<noteq> t \<longrightarrow> current_priority (threads k t) < current_priority (threads k u)) \<longrightarrow>
          current_thread k' = t)))"
  using assms by (rule sleep_run)

text \<open>
  C34: A thread that takes a semaphore at zero with a time-out of \<open>m\<close> ticks, and no release of that
  semaphore follows, is suspended until the \<open>m\<close>-th tick; at that tick it wakes with the error of a
  time-out and has left the waiting list.
\<close>

theorem wait_is_exact:
  assumes "kernel_ok N 1 idle k" and "current_thread k = t" and "sem_value (sems k s) = 0" and "0 < timeout"
    and "allowed_run N idle (Take s timeout # cs) k" and "Release s \<notin> set cs"
  shows "(ticks cs < nat timeout \<longrightarrow>
      (\<exists>k'. kernel_run (Take s timeout # cs) k = Some k' \<and> stat (threads k' t) = THREAD_SUSPEND)) \<and>
    (Suc (ticks cs) = nat timeout \<longrightarrow>
      (\<exists>k'. kernel_run (Take s timeout # cs @ [Tick]) k = Some k' \<and> error (threads k' t) = - ETIMEOUT \<and>
         stat (threads k' t) \<notin> {THREAD_SUSPEND, THREAD_INIT} \<and> t \<notin> set (suspend_thread (sems k' s))))"
proof -
  have al: "current_thread k \<noteq> idle" "timeout < 0x7FFFFFFF" using assms(3,4,5) by simp_all
  obtain r k0 where k0: "kernel_sem_take s timeout k = Some (r, k0)" "kernel_ok N 1 idle k0"
      "r = None \<longrightarrow> timeout > 0 \<longrightarrow> asleep t (nat timeout) {s} k0"
    using take_ok [OF assms(1) al(1) al(2), of s] assms(2) by blast
  have "r = None" using k0(1) assms(3,4) by (auto simp: kernel_sem_take_def Let_def bind_eq_Some_conv)
  then have a: "asleep t (nat timeout) {s} k0" using k0(3) assms(4) by simp
  have cs: "allowed_run N idle cs k0" "\<forall>x\<in>{s}. Release x \<notin> set cs" using assms(5,6) k0(1) by simp_all
  have "t < N" using assms(1,2) by (auto simp: kernel_ok_def core_ok_def sched_ok_def)
  note w = wait_run [OF k0(2) a this cs]
  have left: "t \<notin> set (suspend_thread (sems k' s))" if "kernel_ok N 1 idle k'" "timed_out t k'" for k'
    using that by (auto simp: kernel_ok_def core_ok_def sched_ok_def timed_out_def)
  show ?thesis using w k0(1) left by (auto simp: timed_out_def)
qed


section \<open>Witnesses\<close>

text \<open>
  The controller after its start: the radio thread runs, the main thread is ready, a display thread waits
  for a semaphore, and the idle thread is number 3; the tick counter is about to wrap.
\<close>

definition started_thread :: "thread_stat \<Rightarrow> nat \<Rightarrow> rt_thread" where
  "started_thread st p = \<lparr>stat = st, yield_flag = False, error = 0, current_priority = p, init_tick = 10,
     remaining_tick = 10, activated = False, timer_time = 0, timeout_tick = 0\<rparr>"

definition started_kernel :: kernel where
  "started_kernel = \<lparr>threads = (\<lambda>t. if t = 0 then started_thread THREAD_RUNNING 3
       else if t = 1 then started_thread THREAD_READY 10 else if t = 2 then started_thread THREAD_SUSPEND 5
       else if t = 3 then started_thread THREAD_READY 31 else started_thread THREAD_INIT 31),
     priority_table = (\<lambda>p. if p = 10 then [1] else if p = 31 then [3] else []),
     priority_group = number_mask 10 OR number_mask 31, current_thread = 0, kernel_tick = 0xFFFFFFFF,
     timer_list = [], sems = (\<lambda>s. \<lparr>sem_value = 0, suspend_thread = if s = 1 then [2] else []\<rparr>)\<rparr>"

lemma started_kernel_ok: "kernel_ok 4 1 3 started_kernel"
proof -
  have lt: "t < 4 \<longleftrightarrow> t = 0 \<or> t = 1 \<or> t = 2 \<or> t = 3" for t :: nat by auto
  have r: "ready_threads 4 started_kernel = {1, 3}"
    unfolding ready_threads_def lt by (auto simp: started_kernel_def started_thread_def)
  have "ready_sets 4 {1, 3} started_kernel"
    unfolding ready_sets_def lt
    by (auto simp: started_kernel_def started_thread_def bit_or_iff bit_number_mask)
  then have "sched_ok 4 started_kernel"
    unfolding sched_ok_def r lt by (auto simp: started_kernel_def started_thread_def)
  moreover have "timers_ok 4 1 started_kernel"
    unfolding timers_ok_def lt by (auto simp: started_kernel_def started_thread_def)
  moreover have "waits_ok 4 started_kernel" by (auto simp: waits_ok_def started_kernel_def SEM_VALUE_MAX_def)
  moreover have "best_runs 4 started_kernel" unfolding best_runs_def r by (simp add: started_kernel_def started_thread_def)
  ultimately show ?thesis by (simp add: kernel_ok_def core_ok_def started_kernel_def started_thread_def)
qed

lemma started_calls:
  "current_thread started_kernel = 0" "sem_value (sems started_kernel s) = 0"
  "suspend_thread (sems started_kernel 1) = [2]"
  "n < RT_TICK_MAX div 2 \<Longrightarrow> allowed_run 4 3 [Sleep n, Tick] started_kernel"
  "timeout < 0x7FFFFFFF \<Longrightarrow> allowed_run 4 3 [Take s timeout, Tick, Release 1] started_kernel"
  by (simp_all add: started_kernel_def split: option.split)

theorem kernel_never_fails_witness:
  "\<exists>k'. kernel_run [Take 0 5, Tick, Release 1] started_kernel = Some k' \<and> kernel_ok 4 1 3 k'"
  using kernel_never_fails [OF started_kernel_ok started_calls(5), of 5 0] by auto

theorem sleep_is_exact_witness:
  "\<exists>k'. kernel_run [Sleep 2, Tick, Tick] started_kernel = Some k' \<and> current_thread k' = 0"
proof -
  have "(2 :: u32) < RT_TICK_MAX div 2" by (simp add: RT_TICK_MAX_def)
  note s = sleep_is_exact [OF started_kernel_ok started_calls(1) _ started_calls(4) [OF this]]
  have "\<forall>u<4. u \<noteq> 0 \<longrightarrow> current_priority (threads started_kernel 0) < current_priority (threads started_kernel u)"
    by (simp add: started_kernel_def started_thread_def)
  then show ?thesis using s by auto
qed

theorem wait_is_exact_witness:
  "\<exists>k'. kernel_run [Take 0 2, Tick, Release 1, Tick] started_kernel = Some k' \<and> error (threads k' 0) = - ETIMEOUT"
  using wait_is_exact [OF started_kernel_ok started_calls(1) started_calls(2) _ started_calls(5), of 2 0] by auto


end
