(* ===== verification/RtList.thy ===== *)
theory RtList
  imports KernelRun
begin

text \<open>
  The doubly linked lists of the kernel (\<open>rtservice.h\<close>) on a store of their two pointers. A list is its
  head and the nodes it links in a ring; the operations on the pointers are those on the sequence of the
  nodes that the theory of the kernel computes with.
\<close>

record rt_list_node =
  next_node :: "nat \<Rightarrow> nat"
  prev_node :: "nat \<Rightarrow> nat"

definition set_next :: "nat \<Rightarrow> nat \<Rightarrow> rt_list_node \<Rightarrow> rt_list_node" where
  "set_next l n m = m\<lparr>next_node := (next_node m)(l := n)\<rparr>"

definition set_prev :: "nat \<Rightarrow> nat \<Rightarrow> rt_list_node \<Rightarrow> rt_list_node" where
  "set_prev l n m = m\<lparr>prev_node := (prev_node m)(l := n)\<rparr>"

definition rt_list_init :: "nat \<Rightarrow> rt_list_node \<Rightarrow> rt_list_node" where
  "rt_list_init l m = set_next l l (set_prev l l m)"

definition rt_list_insert_after :: "nat \<Rightarrow> nat \<Rightarrow> rt_list_node \<Rightarrow> rt_list_node" where
  "rt_list_insert_after l n m =
     (let m1 = set_prev (next_node m l) n m;
          m2 = set_next n (next_node m1 l) m1;
          m3 = set_next l n m2
      in set_prev n l m3)"

definition rt_list_insert_before :: "nat \<Rightarrow> nat \<Rightarrow> rt_list_node \<Rightarrow> rt_list_node" where
  "rt_list_insert_before l n m =
     (let m1 = set_next (prev_node m l) n m;
          m2 = set_prev n (prev_node m1 l) m1;
          m3 = set_prev l n m2
      in set_next n l m3)"

definition rt_list_remove :: "nat \<Rightarrow> rt_list_node \<Rightarrow> rt_list_node" where
  "rt_list_remove n m =
     (let m1 = set_prev (next_node m n) (prev_node m n) m;
          m2 = set_next (prev_node m1 n) (next_node m1 n) m1;
          m3 = set_prev n n m2
      in set_next n n m3)"

definition rt_list_isempty :: "nat \<Rightarrow> rt_list_node \<Rightarrow> bool" where
  "rt_list_isempty l m = (next_node m l = l)"

text \<open>Every node of the ring is linked with the one after it.\<close>

definition linked :: "rt_list_node \<Rightarrow> nat \<Rightarrow> nat \<Rightarrow> bool" where
  "linked m a b \<longleftrightarrow> next_node m a = b \<and> prev_node m b = a"

definition ring :: "rt_list_node \<Rightarrow> nat \<Rightarrow> nat list \<Rightarrow> bool" where
  "ring m h xs \<longleftrightarrow> distinct (h # xs) \<and> successively (linked m) ((h # xs) @ [h])"

lemma set_fields [simp]:
  "next_node (set_next l n m) = (next_node m)(l := n)" "prev_node (set_next l n m) = prev_node m"
  "prev_node (set_prev l n m) = (prev_node m)(l := n)" "next_node (set_prev l n m) = next_node m"
  by (simp_all add: set_next_def set_prev_def)

lemma successively_change:
  assumes "successively P xs" and "\<And>x y. x \<in> set (butlast xs) \<Longrightarrow> y \<in> set (tl xs) \<Longrightarrow> P x y \<Longrightarrow> Q x y"
  shows "successively Q xs"
  using assms
proof (induction xs)
  case (Cons x xs)
  show ?case
  proof (cases xs)
    case (Cons y ys)
    have "successively Q xs"
      using Cons.IH Cons.prems \<open>xs = y # ys\<close> by (auto split: if_splits)
    then show ?thesis using Cons.prems \<open>xs = y # ys\<close> by auto
  qed simp
qed simp

lemma init_ring: "ring (rt_list_init h m) h []"
  by (simp add: ring_def rt_list_init_def linked_def)

lemma isempty_ring: "ring m h xs \<Longrightarrow> rt_list_isempty h m = (xs = [])"
  by (cases xs) (auto simp: ring_def rt_list_isempty_def linked_def)

text \<open>A ring cut between two neighbours.\<close>

lemma ring_cut:
  "ring m h (xs @ ys) \<longleftrightarrow> distinct (h # xs @ ys) \<and> successively (linked m) (h # xs) \<and>
     successively (linked m) (ys @ [h]) \<and> linked m (last (h # xs)) (hd (ys @ [h]))"
proof -
  have "(h # xs @ ys) @ [h] = (h # xs) @ (ys @ [h])" by simp
  then show ?thesis unfolding ring_def by (simp only: successively_append_iff) auto
qed

text \<open>A stretch of links survives a change of the next pointer of its end and the previous one of its start.\<close>

lemma linked_change:
  assumes "successively (linked m) xs" and "\<And>x. x \<in> set (butlast xs) \<Longrightarrow> next_node m' x = next_node m x"
    and "\<And>y. y \<in> set (tl xs) \<Longrightarrow> prev_node m' y = prev_node m y"
  shows "successively (linked m') xs"
  by (rule successively_change [OF assms(1)]) (use assms(2,3) in \<open>simp add: linked_def\<close>)

lemma ends_apart:
  assumes d: "distinct (h # xs @ ys)"
  shows "x \<in> set (butlast (h # xs)) \<Longrightarrow> x \<in> set (h # xs) \<and> x \<noteq> last (h # xs)"
    "x \<in> set (tl (h # xs)) \<Longrightarrow> x \<noteq> hd (ys @ [h])"
    "x \<in> set (butlast (ys @ [h])) \<Longrightarrow> x \<in> set ys \<and> x \<noteq> last (h # xs)"
    "x \<in> set (tl (ys @ [h])) \<Longrightarrow> x \<in> set (h # ys) \<and> x \<noteq> hd (ys @ [h])"
proof -
  show "x \<in> set (tl (h # xs)) \<Longrightarrow> x \<noteq> hd (ys @ [h])" using d by (cases ys) auto
  show "x \<in> set (tl (ys @ [h])) \<Longrightarrow> x \<in> set (h # ys) \<and> x \<noteq> hd (ys @ [h])" using d by (cases ys) auto
  have "last (h # xs) \<in> set (h # xs)" by (rule last_in_set) simp
  then show "x \<in> set (butlast (ys @ [h])) \<Longrightarrow> x \<in> set ys \<and> x \<noteq> last (h # xs)" using d by auto
  have "butlast (h # xs) @ [last (h # xs)] = h # xs" by (rule append_butlast_last_id) simp
  then have "distinct (butlast (h # xs) @ [last (h # xs)])" using d by (metis append_Cons distinct_append)
  then show "x \<in> set (butlast (h # xs)) \<Longrightarrow> x \<in> set (h # xs) \<and> x \<noteq> last (h # xs)"
    by (metis in_set_butlastD distinct_append disjoint_iff list.set_intros(1))
qed

lemma parts_survive:
  assumes d: "distinct (h # xs @ ys)" and q: "successively (linked m) (h # xs)" "successively (linked m) (ys @ [h])"
    and k: "\<And>x. x \<in> set (h # xs @ ys) \<Longrightarrow> x \<noteq> last (h # xs) \<Longrightarrow> next_node m' x = next_node m x"
    "\<And>x. x \<in> set (h # xs @ ys) \<Longrightarrow> x \<noteq> hd (ys @ [h]) \<Longrightarrow> prev_node m' x = prev_node m x"
  shows "successively (linked m') (h # xs)" "successively (linked m') (ys @ [h])"
proof -
  note e = ends_apart [OF d]
  show "successively (linked m') (h # xs)"
  proof (rule linked_change [OF q(1)])
    show "next_node m' x = next_node m x" if "x \<in> set (butlast (h # xs))" for x
      using e(1) [OF that] by (intro k(1)) auto
    show "prev_node m' x = prev_node m x" if "x \<in> set (tl (h # xs))" for x
      using e(2) [OF that] that by (intro k(2)) auto
  qed
  show "successively (linked m') (ys @ [h])"
  proof (rule linked_change [OF q(2)])
    show "next_node m' x = next_node m x" if "x \<in> set (butlast (ys @ [h]))" for x
      using e(3) [OF that] by (intro k(1)) auto
    show "prev_node m' x = prev_node m x" if "x \<in> set (tl (ys @ [h]))" for x
      using e(4) [OF that] by (intro k(2)) auto
  qed
qed

text \<open>A new node between two neighbours, put there from either.\<close>

lemma insert_between:
  assumes r: "ring m h (xs @ ys)" and n: "n \<notin> set (h # xs @ ys)"
  defines "a \<equiv> last (h # xs)" and "b \<equiv> hd (ys @ [h])"
  shows "ring (rt_list_insert_after a n m) h (xs @ n # ys)" "rt_list_insert_before b n m = rt_list_insert_after a n m"
proof -
  have d: "distinct (h # xs @ ys)" using r by (simp add: ring_def)
  have l: "next_node m a = b" "prev_node m b = a" using r by (simp_all add: ring_cut a_def b_def linked_def)
  have "a \<in> set (h # xs)" "b \<in> set (ys @ [h])"
    unfolding a_def b_def by (rule last_in_set, simp, rule hd_in_set, simp)
  then have na: "n \<noteq> a" "n \<noteq> b" using n by auto
  define m' where "m' = rt_list_insert_after a n m"
  have f: "next_node m' x = (if x = n then b else if x = a then n else next_node m x)"
    "prev_node m' x = (if x = n then a else if x = b then n else prev_node m x)" for x
    using na l by (simp_all add: m'_def rt_list_insert_after_def Let_def)
  have "next_node (rt_list_insert_before b n m) x = next_node m' x"
    "prev_node (rt_list_insert_before b n m) x = prev_node m' x" for x
    unfolding f using na l by (simp_all add: rt_list_insert_before_def Let_def)
  then have "rt_list_insert_before b n m = m'"
    by (intro rt_list_node.equality ext) simp_all
  then show "rt_list_insert_before b n m = rt_list_insert_after a n m" by (simp add: m'_def)
  have q: "successively (linked m) (h # xs)" "successively (linked m) (ys @ [h])" using r by (simp_all add: ring_cut)
  have k: "next_node m' x = next_node m x" if "x \<in> set (h # xs @ ys)" "x \<noteq> last (h # xs)" for x
    using that n unfolding f a_def [symmetric] by auto
  have k': "prev_node m' x = prev_node m x" if "x \<in> set (h # xs @ ys)" "x \<noteq> hd (ys @ [h])" for x
    using that n unfolding f b_def [symmetric] by auto
  note p = parts_survive [OF d q k k']
  have "linked m' a n" "linked m' n b" using na by (simp_all add: linked_def f)
  then have "successively (linked m') (n # (ys @ [h]))" "linked m' (last (h # xs)) (hd ((n # ys) @ [h]))"
    using p(2) unfolding successively_Cons a_def b_def by simp_all
  then have "ring m' h (xs @ n # ys)" unfolding ring_cut using p(1) d n by simp
  then show "ring (rt_list_insert_after a n m) h (xs @ n # ys)" by (simp add: m'_def)
qed

lemma remove_between:
  assumes r: "ring m h (xs @ n # ys)"
  shows "ring (rt_list_remove n m) h (xs @ ys)" "next_node (rt_list_remove n m) n = n" "prev_node (rt_list_remove n m) n = n"
proof -
  define a where "a = last (h # xs)"
  define b where "b = hd (ys @ [h])"
  have d: "distinct (h # xs @ ys)" and n: "n \<notin> set (h # xs @ ys)" using r by (auto simp: ring_def)
  have r2: "ring m h ((xs @ [n]) @ ys)" using r by simp
  have l: "next_node m n = b" "prev_node m n = a"
    using r r2 [unfolded ring_cut] by (simp_all add: ring_cut a_def b_def linked_def)
  have "a \<in> set (h # xs)" "b \<in> set (ys @ [h])"
    unfolding a_def b_def by (rule last_in_set, simp, rule hd_in_set, simp)
  then have na: "n \<noteq> a" "n \<noteq> b" using n by auto
  define m' where "m' = rt_list_remove n m"
  have f: "next_node m' x = (if x = n then n else if x = a then b else next_node m x)"
    "prev_node m' x = (if x = n then n else if x = b then a else prev_node m x)" for x
    using na l by (auto simp: m'_def rt_list_remove_def Let_def)
  show "next_node (rt_list_remove n m) n = n" "prev_node (rt_list_remove n m) n = n"
    using f [of n] by (simp_all add: m'_def)
  have q: "successively (linked m) (h # xs)" "successively (linked m) (ys @ [h])"
    using r r2 [unfolded ring_cut] by (simp_all add: ring_cut)
  have k: "next_node m' x = next_node m x" if "x \<in> set (h # xs @ ys)" "x \<noteq> last (h # xs)" for x
    using that n unfolding f a_def [symmetric] by auto
  have k': "prev_node m' x = prev_node m x" if "x \<in> set (h # xs @ ys)" "x \<noteq> hd (ys @ [h])" for x
    using that n unfolding f b_def [symmetric] by auto
  note p = parts_survive [OF d q k k']
  have "linked m' a b" using na f by (simp add: linked_def)
  then show "ring m' h (xs @ ys)" using p d by (simp add: ring_cut a_def b_def)
qed

section \<open>The search of the timer list\<close>

text \<open>
  The loop of \<open>rt_timer_start\<close> that looks for the node to put the timer behind; \<open>fuel\<close> bounds the
  steps, for which the length of the list is enough. A timer is named by its node.
\<close>

fun timer_walk :: "nat \<Rightarrow> (nat \<Rightarrow> u32) \<Rightarrow> nat \<Rightarrow> nat \<Rightarrow> nat \<Rightarrow> rt_list_node \<Rightarrow> nat option" where
  "timer_walk fuel due t h row_head m =
     (if row_head = prev_node m h then Some row_head
      else let p = next_node m row_head in
        if due p - due t \<noteq> 0 \<and> due p - due t < RT_TICK_MAX div 2 then Some row_head
        else case fuel of 0 \<Rightarrow> None | Suc f \<Rightarrow> timer_walk f due t h p m)"

declare timer_walk.simps [simp del]

lemma timer_walk_finds:
  assumes "ring m h (xs @ ys)" and "length ys \<le> fuel"
  shows "\<exists>zs ws. ys = zs @ ws \<and> timer_walk fuel due t h (last (h # xs)) m = Some (last (h # xs @ zs)) \<and>
    timer_insert due t ys = zs @ t # ws"
  using assms
proof (induction ys arbitrary: xs fuel)
  case Nil
  then have "ring m h (xs @ [])" by simp
  then have "prev_node m h = last (h # xs)" unfolding ring_cut by (simp add: linked_def)
  then show ?case by (simp add: timer_walk.simps [of fuel])
next
  case (Cons p ys)
  have l: "next_node m (last (h # xs)) = p" using Cons.prems(1) by (simp add: ring_cut linked_def)
  have "ring m h ((xs @ p # ys) @ [])" using Cons.prems(1) by simp
  then have e: "prev_node m h = last (h # xs @ p # ys)" unfolding ring_cut by (simp add: linked_def)
  have "distinct (h # xs @ p # ys)" using Cons.prems(1) by (simp add: ring_def)
  moreover have "last (h # xs @ p # ys) \<in> set (p # ys)" by (simp add: last_append)
  moreover have "last (h # xs) \<in> set (h # xs)" by (rule last_in_set) simp
  ultimately have ne: "last (h # xs) \<noteq> prev_node m h" unfolding e by auto
  show ?case
  proof (cases "due p - due t \<noteq> 0 \<and> due p - due t < RT_TICK_MAX div 2")
    case True
    then have "timer_walk fuel due t h (last (h # xs)) m = Some (last (h # xs))"
      using ne l by (simp only: timer_walk.simps [of fuel] Let_def if_False if_True not_False_eq_True simp_thms)
    then show ?thesis using True by (intro exI [of _ "[]"] exI [of _ "p # ys"]) simp
  next
    case False
    obtain f where f: "fuel = Suc f" using Cons.prems(2) by (cases fuel) auto
    obtain zs ws where z: "ys = zs @ ws" "timer_walk f due t h (last (h # xs @ [p])) m = Some (last (h # (xs @ [p]) @ zs))"
        "timer_insert due t ys = zs @ t # ws"
      using Cons.IH [of "xs @ [p]" f] Cons.prems f by auto
    have "timer_walk fuel due t h (last (h # xs)) m = timer_walk f due t h p m"
      using ne l False by (simp only: f timer_walk.simps [of "Suc f"] Let_def if_False nat.simps)
    then have "timer_walk fuel due t h (last (h # xs)) m = Some (last (h # xs @ p # zs))" using z(2) by simp
    moreover have "timer_insert due t (p # ys) = (p # zs) @ t # ws" using False z(3) by auto
    ultimately show ?thesis using z(1) by (intro exI [of _ "p # zs"] exI [of _ ws]) simp
  qed
qed

section \<open>Properties\<close>

text \<open>
  The pointer operations of the kernel's lists are the operations on sequences: a node put before the
  head ends up last, one put behind it first, a removed node is gone and linked to itself, and the test
  for an empty list is exact.
\<close>

theorem list_operations_refine:
  assumes "ring m h xs" and "n \<notin> set (h # xs)"
  shows "ring (rt_list_init h m) h [] \<and> rt_list_isempty h m = (xs = []) \<and>
    ring (rt_list_insert_before h n m) h (xs @ [n]) \<and> ring (rt_list_insert_after h n m) h (n # xs) \<and>
    (\<forall>t\<in>set xs. ring (rt_list_remove t m) h (removeAll t xs) \<and> ring (rt_list_remove t m) t [])"
proof -
  have "ring (rt_list_insert_before h n m) h (xs @ [n])" using insert_between [of m h xs "[]" n] assms by simp
  moreover have "ring (rt_list_insert_after h n m) h (n # xs)" using insert_between [of m h "[]" xs n] assms by simp
  moreover have "ring (rt_list_remove t m) h (removeAll t xs) \<and> ring (rt_list_remove t m) t []" if "t \<in> set xs" for t
  proof -
    obtain as bs where x: "xs = as @ t # bs" using split_list [of t xs] \<open>t \<in> set xs\<close> by blast
    then have "t \<notin> set as" "t \<notin> set bs" using assms(1) by (auto simp: ring_def)
    then have "removeAll t xs = as @ bs" using x by simp
    then show ?thesis using remove_between [of m h as t bs] assms(1) x by (simp add: ring_def linked_def)
  qed
  ultimately show ?thesis using init_ring isempty_ring [OF assms(1)] by blast
qed

text \<open>
  C37: The search of the timer list ends within the length of the list, and putting the timer behind the
  node it finds gives the list in which the timer stands where the kernel model inserts it: behind all
  that end before it or with it.
\<close>

theorem timer_list_refines:
  assumes "ring m h us" and "t \<notin> set (h # us)"
  shows "\<exists>a. timer_walk (length us) due t h h m = Some a \<and>
    ring (rt_list_insert_after a t m) h (timer_insert due t us)"
proof -
  obtain zs ws where z: "us = zs @ ws" "timer_walk (length us) due t h h m = Some (last (h # zs))"
      "timer_insert due t us = zs @ t # ws"
    using timer_walk_finds [of m h "[]" us "length us" due t] assms(1) by auto
  then show ?thesis using insert_between(1) [of m h zs ws t] assms by auto
qed

text \<open>Two timers that end at the ticks 5 and 9, and a third at 7.\<close>

definition sample_list :: rt_list_node where
  "sample_list = \<lparr>next_node = (\<lambda>x. if x = 0 then 1 else if x = 1 then 2 else 0),
     prev_node = (\<lambda>x. if x = 0 then 2 else if x = 1 then 0 else 1)\<rparr>"

lemma sample_ring: "ring sample_list 0 [1, 2]" "3 \<notin> set [0, 1, 2 :: nat]"
  by (simp_all add: ring_def linked_def sample_list_def)

theorem list_operations_refine_witness:
  "ring (rt_list_insert_before 0 3 sample_list) 0 [1, 2, 3] \<and> ring (rt_list_remove 1 sample_list) 0 [2]"
  using list_operations_refine [OF sample_ring] by simp

theorem timer_list_refines_witness:
  "\<exists>a. ring (rt_list_insert_after a 3 sample_list) 0 [1, 3, 2]"
proof -
  define due :: "nat \<Rightarrow> u32" where "due u = (if u = 1 then 5 else if u = 2 then 9 else 7)" for u
  have "timer_insert due 3 [1, 2] = [1, 3, 2]" by (simp add: due_def RT_TICK_MAX_def)
  then show ?thesis using timer_list_refines [OF sample_ring, of due] by auto
qed

end
