(* ===== verification/Boards.thy ===== *)
theory Boards
  imports KernelRun
begin

text \<open>
  The start of the two boards on the kernel: the start of the system up to the main thread
  (\<open>rt-thread/src/components.c\<close>, \<open>idle.c\<close>, \<open>scheduler.c\<close>, \<open>timer.c\<close>), the
  initialisation of a thread (\<open>thread.c\<close>), and the threads the applications start with their
  priorities (\<open>applications/threads.h\<close>, the \<open>..._thread_init\<close> functions). Thread 0 is the main
  thread and 1 the idle thread; a static thread not yet initialised is zero memory, whose state reads
  as \<open>THREAD_INIT\<close>.
\<close>

section \<open>Start of the system\<close>

definition zero_thread :: rt_thread where
  "zero_thread = \<lparr>stat = THREAD_INIT, yield_flag = False, error = 0, current_priority = 0, init_tick = 0,
     remaining_tick = 0, activated = False, timer_time = 0, timeout_tick = 0\<rparr>"

text \<open>\<open>NO_THREAD\<close> stands for the null pointer of the current thread before the scheduler starts.\<close>

definition NO_THREAD :: nat where "NO_THREAD = 0xFFFFFFFF"

definition cleared_kernel :: kernel where
  "cleared_kernel = \<lparr>threads = (\<lambda>_. zero_thread), priority_table = (\<lambda>_. []), priority_group = 0,
     current_thread = NO_THREAD, kernel_tick = 0, timer_list = [], sems = (\<lambda>_. \<lparr>sem_value = 0, suspend_thread = []\<rparr>)\<rparr>"

definition rt_thread_init :: "nat \<Rightarrow> nat \<Rightarrow> u32 \<Rightarrow> kernel \<Rightarrow> kernel option" where
  "rt_thread_init t priority tick k =
     (if priority < 32
      then Some (upd_thread t (\<lambda>th. \<lparr>stat = THREAD_INIT, yield_flag = False, error = 0, current_priority = priority,
        init_tick = tick, remaining_tick = tick, activated = False, timer_time = 0, timeout_tick = 0\<rparr>) k)
      else None)"

definition rt_system_timer_init :: "kernel \<Rightarrow> kernel" where
  "rt_system_timer_init k = k\<lparr>timer_list := []\<rparr>"

definition rt_system_scheduler_init :: "kernel \<Rightarrow> kernel" where
  "rt_system_scheduler_init k = k\<lparr>priority_table := (\<lambda>p. if p < 32 then [] else priority_table k p), priority_group := 0\<rparr>"

text \<open>\<open>rt_thread_startup\<close> while no thread runs: it does not reschedule.\<close>

definition first_startup :: "nat \<Rightarrow> kernel \<Rightarrow> kernel option" where
  "first_startup t k =
     (if stat (threads k t) \<noteq> THREAD_INIT then None
      else Some (rt_thread_resume t
        (upd_thread t (\<lambda>th. th\<lparr>stat := THREAD_SUSPEND, yield_flag := False\<rparr>) k)))"

definition rt_system_scheduler_start :: "kernel \<Rightarrow> kernel option" where
  "rt_system_scheduler_start k =
     (case highest_priority_thread k of None \<Rightarrow> None
      | Some (t, p) \<Rightarrow>
          let k1 = rt_schedule_remove_thread t (k\<lparr>current_thread := t\<rparr>)
          in Some (upd_thread t (\<lambda>th. th\<lparr>stat := THREAD_RUNNING, yield_flag := False\<rparr>) k1))"

definition MAIN :: nat where "MAIN = 0"
definition IDLE :: nat where "IDLE = 1"
definition RT_MAIN_THREAD_PRIORITY :: nat where "RT_MAIN_THREAD_PRIORITY = 10"
definition RT_THREAD_PRIORITY_MAX :: nat where "RT_THREAD_PRIORITY_MAX = 32"

definition rt_application_init :: "kernel \<Rightarrow> kernel option" where
  "rt_application_init k = Option.bind (rt_thread_init MAIN RT_MAIN_THREAD_PRIORITY 20 k) (first_startup MAIN)"

definition rt_thread_idle_init :: "kernel \<Rightarrow> kernel option" where
  "rt_thread_idle_init k = Option.bind (rt_thread_init IDLE (RT_THREAD_PRIORITY_MAX - 1) 32 k) (first_startup IDLE)"

definition rtthread_startup :: "kernel \<Rightarrow> kernel option" where
  "rtthread_startup k = do {
     let k1 = rt_system_scheduler_init (rt_system_timer_init k);
     k2 \<leftarrow> rt_application_init k1;
     k3 \<leftarrow> rt_thread_idle_init k2;
     rt_system_scheduler_start k3
   }"

section \<open>Threads of the applications\<close>

text \<open>The functions \<open>led_thread_init\<close>, \<open>radio_thread_init\<close>, \<open>tone_play_thread_init\<close> and \<open>ui_thread_init\<close>.\<close>

definition app_thread_init :: "nat \<Rightarrow> nat \<Rightarrow> kernel \<Rightarrow> kernel option" where
  "app_thread_init t priority k = Option.bind (rt_thread_init t priority 5 k) (rt_thread_startup t)"

definition LED_THREAD_PRIORITY :: nat where "LED_THREAD_PRIORITY = 5"
definition RADIO_THREAD_PRIORITY :: nat where "RADIO_THREAD_PRIORITY = 3"
definition TONE_PLAY_THREAD_PRIORITY :: nat where "TONE_PLAY_THREAD_PRIORITY = 6"
definition UI_THREAD_PRIORITY :: nat where "UI_THREAD_PRIORITY = 5"

text \<open>The threads in the order in which the main functions start them: thread, priority.\<close>

definition controller_threads :: "(nat \<times> nat) list" where
  "controller_threads = [(2, TONE_PLAY_THREAD_PRIORITY), (3, LED_THREAD_PRIORITY), (4, RADIO_THREAD_PRIORITY), (5, UI_THREAD_PRIORITY)]"

definition rx_threads :: "(nat \<times> nat) list" where
  "rx_threads = [(2, LED_THREAD_PRIORITY), (3, RADIO_THREAD_PRIORITY)]"

definition RADIO :: nat where "RADIO = 4"
definition RX_RADIO :: nat where "RX_RADIO = 3"

text \<open>All threads of a board have been started with these priorities.\<close>

definition all_started :: "(nat \<times> nat) list \<Rightarrow> kernel \<Rightarrow> bool" where
  "all_started ts k \<longleftrightarrow> prio k MAIN = RT_MAIN_THREAD_PRIORITY \<and> prio k IDLE = RT_THREAD_PRIORITY_MAX - 1 \<and>
     (\<forall>(t, p)\<in>set ts. prio k t = p)"

lemmas board_defs = MAIN_def IDLE_def RT_MAIN_THREAD_PRIORITY_def RT_THREAD_PRIORITY_MAX_def LED_THREAD_PRIORITY_def
  RADIO_THREAD_PRIORITY_def TONE_PLAY_THREAD_PRIORITY_def UI_THREAD_PRIORITY_def RADIO_def RX_RADIO_def NO_THREAD_def

section \<open>The first state\<close>

lemma first_group: "rt_ffs (number_mask 10 OR number_mask 31) = 11"
  by code_simp

definition first_kernel :: kernel where
  "first_kernel = cleared_kernel\<lparr>threads := (\<lambda>_. zero_thread)
       (0 := zero_thread\<lparr>stat := THREAD_RUNNING, current_priority := 10, init_tick := 20, remaining_tick := 20\<rparr>,
        1 := zero_thread\<lparr>stat := THREAD_READY, current_priority := 31, init_tick := 32, remaining_tick := 32\<rparr>),
     priority_table := (\<lambda>_. [])(31 := [1]), priority_group := number_mask 31, current_thread := 0\<rparr>"

lemma startup_first: "rtthread_startup cleared_kernel = Some first_kernel"
proof -
  have g: "(number_mask 10 OR number_mask 31) AND NOT (number_mask 10) = number_mask 31" by code_simp
  have g': "(number_mask 31 OR number_mask 10) AND NOT (number_mask 10) = number_mask 31" by code_simp
  show ?thesis
    by (simp add: rtthread_startup_def rt_application_init_def rt_thread_idle_init_def rt_thread_init_def
        first_startup_def rt_thread_resume_def rt_timer_stop_def rt_schedule_insert_thread_def tlist_remove_def
        rt_system_scheduler_start_def highest_priority_thread_def rt_schedule_remove_thread_def Let_def
        rt_system_timer_init_def rt_system_scheduler_init_def upd_thread_def cleared_kernel_def first_kernel_def
        zero_thread_def board_defs first_group g g' fun_eq_iff)
qed

lemma first_ok:
  assumes "2 \<le> N"
  shows "kernel_ok N 1 IDLE first_kernel"
proof -
  have r: "ready_threads N first_kernel = {1}"
    using assms by (auto simp: ready_threads_def first_kernel_def zero_thread_def cleared_kernel_def)
  have "ready_sets N {1} first_kernel"
    using assms unfolding ready_sets_def
    by (auto simp: first_kernel_def cleared_kernel_def zero_thread_def bit_number_mask)
  then have "sched_ok N first_kernel"
    using assms unfolding sched_ok_def r by (auto simp: first_kernel_def cleared_kernel_def zero_thread_def)
  moreover have "timers_ok N 1 first_kernel"
    unfolding timers_ok_def by (auto simp: first_kernel_def cleared_kernel_def zero_thread_def)
  moreover have "waits_ok N first_kernel" by (simp add: waits_ok_def first_kernel_def cleared_kernel_def)
  moreover have "best_runs N first_kernel"
    unfolding best_runs_def r by (simp add: first_kernel_def cleared_kernel_def zero_thread_def)
  ultimately show ?thesis
    using assms by (simp add: kernel_ok_def core_ok_def first_kernel_def cleared_kernel_def zero_thread_def board_defs)
qed

section \<open>Starting a thread\<close>

lemma thread_init_ok:
  assumes ok: "kernel_ok N 1 idle k" and t: "t < N" "stat (threads k t) = THREAD_INIT" and p: "p < 32"
    and k': "rt_thread_init t p n k = Some k'"
  shows "kernel_ok N 1 idle k'" "stat (threads k' t) = THREAD_INIT" "prio k' = (prio k)(t := p)"
    "current_thread k' = current_thread k" "u \<noteq> t \<Longrightarrow> threads k' u = threads k u"
proof -
  have k'_eq: "k' = upd_thread t (\<lambda>th. \<lparr>stat = THREAD_INIT, yield_flag = False, error = 0, current_priority = p,
        init_tick = n, remaining_tick = n, activated = False, timer_time = 0, timeout_tick = 0\<rparr>) k"
    using k' p by (simp add: rt_thread_init_def)
  show o: "threads k' u = threads k u" if "u \<noteq> t" for u using that by (simp add: k'_eq)
  show i: "stat (threads k' t) = THREAD_INIT" and c: "current_thread k' = current_thread k"
    and pr: "prio k' = (prio k)(t := p)" by (auto simp: k'_eq)
  have pu: "prio k' u = (if u = t then p else prio k u)" for u by (simp add: k'_eq)
  have f: "priority_table k' = priority_table k" "priority_group k' = priority_group k" "timer_list k' = timer_list k"
    "sems k' = sems k" "kernel_tick k' = kernel_tick k" by (simp_all add: k'_eq)
  have st: "stat (threads k' u) = stat (threads k u)" for u using o i t(2) by (cases "u = t") simp_all
  have core: "core_ok N 1 idle k" and best: "best_runs N k" using ok by (simp_all add: kernel_ok_def)
  have s: "sched_ok N k" and tm: "timers_ok N 1 k" using core by (simp_all add: core_ok_def)
  have rt: "ready_threads N k' = ready_threads N k" by (simp add: ready_threads_def st)
  have nt: "t \<notin> ready_threads N k" "t \<noteq> current_thread k"
    using t best by (auto simp: ready_threads_def best_runs_def)
  have rs: "ready_sets N (ready_threads N k) k" using s by (simp add: sched_ok_def)
  have "\<forall>q u. u \<in> set (priority_table k q) \<longleftrightarrow> u \<in> ready_threads N k \<and> prio k' u = q"
    using rs nt(1) unfolding ready_sets_def by (metis pu)
  moreover have "\<forall>u<N. prio k' u < 32" using rs p unfolding ready_sets_def by (simp add: pu)
  ultimately have "ready_sets N (ready_threads N k) k'" using rs unfolding ready_sets_def f by blast
  then have "sched_ok N k'" using s unfolding sched_ok_def rt f c st by blast
  moreover have nl: "t \<notin> set (timer_list k)" "\<not> activated (threads k t)" using running_free [OF core, of t] t by simp_all
  have na: "activated (threads k' u) = activated (threads k u)" for u using nl(2) by (cases "u = t") (simp_all add: k'_eq)
  have tl: "ticks_left k' u = ticks_left k u" if "u \<in> set (timer_list k)" for u
  proof -
    have "u \<noteq> t" using that nl(1) by auto
    then show ?thesis using o f(5) by (simp add: ticks_left_def)
  qed
  then have "map (ticks_left k') (timer_list k) = map (ticks_left k) (timer_list k)" by simp
  then have "sorted (map (ticks_left k') (timer_list k))" using tm by (metis timers_ok_def)
  then have "timers_ok N 1 k'" using tm tl unfolding timers_ok_def f st na by simp
  moreover have "best_runs N k'" using best nt unfolding best_runs_def rt st c by (auto simp: pu)
  ultimately show "kernel_ok N 1 idle k'" using core by (simp add: kernel_ok_def core_ok_def waits_ok_def f st)
qed

lemma app_thread_ok:
  assumes ok: "kernel_ok N 1 idle k" and t: "t < N" "stat (threads k t) = THREAD_INIT" and p: "p < 32"
  shows "\<exists>k'. app_thread_init t p k = Some k' \<and> kernel_ok N 1 idle k' \<and> prio k' = (prio k)(t := p) \<and>
    (p < prio k (current_thread k) \<longrightarrow> current_thread k' = t)"
proof -
  obtain k1 where k1: "rt_thread_init t p 5 k = Some k1" using p by (simp add: rt_thread_init_def)
  note i = thread_init_ok [OF ok t p k1]
  obtain k2 where k2: "rt_thread_startup t k1 = Some k2" "kernel_ok N 1 idle k2"
      "stat (threads k2 t) \<notin> {THREAD_SUSPEND, THREAD_INIT}"
      "\<forall>u. u \<noteq> t \<longrightarrow> stat (threads k2 u) \<in> {THREAD_READY, THREAD_RUNNING} \<longrightarrow>
         stat (threads k1 u) \<in> {THREAD_READY, THREAD_RUNNING}"
    using startup_ok [OF i(1) t(1) i(2)] by blast
  have "kernel_step (Startup t) k1 = Some k2" using k2(1) by simp
  then have pr: "prio k2 = (prio k)(t := p)" using prio_step [of "Startup t" k1 k2] i(3) by (simp add: fun_eq_iff)
  have "current_thread k2 = t" if less: "p < prio k (current_thread k)"
  proof (rule ccontr)
    assume n: "current_thread k2 \<noteq> t"
    let ?c = "current_thread k2"
    have s2: "sched_ok N k2" "best_runs N k2" and s: "sched_ok N k" "best_runs N k"
      using k2(2) ok by (simp_all add: kernel_ok_def core_ok_def)
    have cN: "?c < N" using s2(1) by (simp add: sched_ok_def)
    have "stat (threads k2 t) \<noteq> THREAD_RUNNING" using s2(1) t(1) n unfolding sched_ok_def by blast
    then have "stat (threads k2 t) = THREAD_READY" using k2(3) by (cases "stat (threads k2 t)") simp_all
    then have "prio k2 ?c \<le> prio k2 t" using s2(2) t(1) by (simp add: best_runs_def ready_threads_def)
    then have le: "prio k2 ?c \<le> p" using fun_cong [OF pr, of t] by simp
    have "stat (threads k2 ?c) = THREAD_RUNNING" using s2(2) by (simp add: best_runs_def)
    then have "stat (threads k ?c) \<in> {THREAD_READY, THREAD_RUNNING}" using k2(4) n i(5) by auto
    then have "prio k (current_thread k) \<le> prio k ?c"
      using s cN by (auto simp: best_runs_def ready_threads_def sched_ok_def)
    then show False using le less n fun_cong [OF pr, of ?c] by simp
  qed
  then show ?thesis using k1 k2(1,2) pr by (auto simp: app_thread_init_def)
qed

section \<open>Properties\<close>

text \<open>
  C36: From cleared memory the start of the system ends with the main thread running in a consistent
  state; from any consistent state each \<open>..._thread_init\<close> of the applications succeeds and keeps it
  consistent, gives the thread its priority, and a thread better than the caller runs at once, before its
  caller goes on.
\<close>

theorem boards_start:
  assumes "2 \<le> N" and "kernel_ok N 1 IDLE k" and "t < N" and "stat (threads k t) = THREAD_INIT"
    and "(t, p) \<in> set controller_threads \<or> (t, p) \<in> set rx_threads"
  shows "(\<exists>k0. rtthread_startup cleared_kernel = Some k0 \<and> kernel_ok N 1 IDLE k0 \<and> current_thread k0 = MAIN) \<and>
    (\<exists>k'. app_thread_init t p k = Some k' \<and> kernel_ok N 1 IDLE k' \<and> current_priority (threads k' t) = p \<and>
       (p < current_priority (threads k (current_thread k)) \<longrightarrow> current_thread k' = t))"
proof -
  have "p < 32" using assms(5) by (auto simp: controller_threads_def rx_threads_def board_defs)
  then obtain k' where k': "app_thread_init t p k = Some k'" "kernel_ok N 1 IDLE k'" "prio k' = (prio k)(t := p)"
      "p < prio k (current_thread k) \<longrightarrow> current_thread k' = t"
    using app_thread_ok [OF assms(2-4)] by blast
  moreover have "prio k' t = p" using fun_cong [OF k'(3), of t] by simp
  moreover have "current_thread first_kernel = MAIN" by (simp add: first_kernel_def board_defs)
  ultimately show ?thesis using startup_first first_ok [OF assms(1)] by blast
qed

text \<open>
  C14: Once the threads of the controller are started, the radio thread keeps its period whatever the
  others and the interrupts do: when it delays \<open>n\<close> ticks, it is suspended before the \<open>n\<close>-th tick and
  running as soon as that tick is handled.
\<close>

theorem radio_thread_on_time:
  assumes "kernel_ok 6 1 IDLE k" and "all_started controller_threads k" and "current_thread k = RADIO"
    and "n \<noteq> 0" and "allowed_run 6 IDLE (Sleep n # cs) k" and "Suc (ticks cs) = unat n"
  shows "\<exists>k1 k2. kernel_run (Sleep n # cs) k = Some k1 \<and> stat (threads k1 RADIO) = THREAD_SUSPEND \<and>
    kernel_run (Sleep n # cs @ [Tick]) k = Some k2 \<and> current_thread k2 = RADIO \<and> fst (sleep_result RADIO k2) = 0"
proof -
  have lt: "u < 6 \<longleftrightarrow> u = 0 \<or> u = 1 \<or> u = 2 \<or> u = 3 \<or> u = 4 \<or> u = 5" for u :: nat by auto
  have p: "\<forall>u<6. u \<noteq> RADIO \<longrightarrow> current_priority (threads k RADIO) < current_priority (threads k u)"
    using assms(2) unfolding lt by (auto simp: all_started_def controller_threads_def board_defs)
  show ?thesis using sleep_run [OF assms(1) assms(3) assms(4) assms(5)] assms(6) p by auto
qed

section \<open>Witnesses\<close>

theorem boards_start_witness:
  "\<exists>k'. app_thread_init 4 3 first_kernel = Some k' \<and> kernel_ok 6 1 IDLE k' \<and> current_thread k' = 4"
proof -
  have "stat (threads first_kernel 4) = THREAD_INIT" by (simp add: first_kernel_def zero_thread_def)
  moreover have "(4, 3) \<in> set controller_threads" by (simp add: controller_threads_def board_defs)
  moreover have "(3 :: nat) < current_priority (threads first_kernel (current_thread first_kernel))"
    by (simp add: first_kernel_def)
  ultimately show ?thesis using boards_start [of 6 first_kernel 4 3] first_ok [of 6] by auto
qed

text \<open>The radio thread runs, the main thread is ready, and the others wait for semaphores of their own.\<close>

definition running_controller :: kernel where
  "running_controller = cleared_kernel\<lparr>threads := (\<lambda>t.
       if t = 0 then started_thread THREAD_READY 10 else if t = 1 then started_thread THREAD_READY 31
       else if t = 2 then started_thread THREAD_SUSPEND 6 else if t = 3 then started_thread THREAD_SUSPEND 5
       else if t = 4 then started_thread THREAD_RUNNING 3 else started_thread THREAD_SUSPEND 5),
     priority_table := (\<lambda>p. if p = 10 then [0] else if p = 31 then [1] else []),
     priority_group := number_mask 10 OR number_mask 31, current_thread := 4,
     sems := (\<lambda>s. \<lparr>sem_value = 0, suspend_thread = if s = 2 \<or> s = 3 \<or> s = 5 then [s] else []\<rparr>)\<rparr>"

lemma running_ok: "kernel_ok 6 1 IDLE running_controller"
proof -
  have lt: "t < 6 \<longleftrightarrow> t = 0 \<or> t = 1 \<or> t = 2 \<or> t = 3 \<or> t = 4 \<or> t = 5" for t :: nat by auto
  have r: "ready_threads 6 running_controller = {0, 1}"
    unfolding ready_threads_def lt by (auto simp: running_controller_def started_thread_def)
  have "ready_sets 6 {0, 1} running_controller"
    unfolding ready_sets_def lt
    by (auto simp: running_controller_def started_thread_def bit_or_iff bit_number_mask)
  then have "sched_ok 6 running_controller"
    unfolding sched_ok_def r lt by (auto simp: running_controller_def started_thread_def)
  moreover have "timers_ok 6 1 running_controller"
    unfolding timers_ok_def lt by (auto simp: running_controller_def started_thread_def cleared_kernel_def)
  moreover have "waits_ok 6 running_controller" by (auto simp: waits_ok_def running_controller_def SEM_VALUE_MAX_def)
  moreover have "best_runs 6 running_controller"
    unfolding best_runs_def r by (simp add: running_controller_def started_thread_def)
  ultimately show ?thesis
    by (simp add: kernel_ok_def core_ok_def running_controller_def started_thread_def board_defs)
qed

theorem radio_thread_on_time_witness:
  "\<exists>k. kernel_run [Sleep 2, Tick, Tick] running_controller = Some k \<and> current_thread k = RADIO"
proof -
  have n: "(2 :: u32) < RT_TICK_MAX div 2" by (simp add: RT_TICK_MAX_def)
  have "all_started controller_threads running_controller"
    by (simp add: all_started_def controller_threads_def board_defs running_controller_def started_thread_def)
  moreover have c: "current_thread running_controller = RADIO" by (simp add: running_controller_def board_defs)
  moreover have "allowed_run 6 IDLE [Sleep 2, Tick] running_controller"
    using n by (simp add: c board_defs split: option.split)
  ultimately show ?thesis
    using radio_thread_on_time [OF running_ok, of 2 "[Tick]"] by auto
qed

end
