(* ===== verification/Spec2Isabelle.thy ===== *)
theory Spec2Isabelle
  imports RingbufferSpec Datalink ButtonList Encoder Params Battery Tone RadioProps Usart UsbProps RfProps Failsafe LcdShapes GuiProps AdcProps I2cProps HidProps UsbSafety HalProps RtList Boards
begin

text \<open>
  Verification development for SkywalkerM4, a radio remote control: the firmware of the controller
  (\<open>src/software/remoter/Firmware\<close>), that of the receiver (\<open>Receiver\<close>), and the parts of the
  RT-Thread kernel, the CherryUSB stack and the CH582 peripheral library they rest on. All paths below
  are under \<open>src/software/remoter\<close>.

  \<^bold>\<open>The program.\<close> On the controller the control loop (\<open>applications/radio_thread.c\<close>) reads the
  sticks, keys and knobs every 20 ms, scales the readings with calibrated ranges into channels, hands
  them to the radio driver (\<open>drivers/drv_radio.c\<close>) and to the USB joystick
  (\<open>usbd_cdc_acm_hid.c\<close>), and shows them on the display (\<open>gui.c\<close>, \<open>drv_lcd.c\<close>). The radio
  sends them to the receiver, which frames them (\<open>applications/datalink.c\<close>) on a serial line to the
  vehicle, parses what comes back on that line into telemetry for the controller, and raises a failsafe
  when packets stop (\<open>Receiver/applications/radio_thread.c\<close>). Both boards keep parameters in the
  data flash. The threads share global records without locks; the radio, the converters, the ports and
  the timers come in as interrupts.

  \<^bold>\<open>The model.\<close> Every theory translates the operations of its files into functions on a record of the
  state they touch; a call, a handler or an iteration of a thread is one function, and what the
  hardware, the other threads or a host do between them is an argument or an event. Machine integers keep
  their width as words, or the wrap-around is written out. \<open>None\<close> is an access outside an object, a
  failed assertion or a loop that does not end, so that a theorem that a call is \<open>Some\<close> is memory
  safety and termination of it.

  \<^item> \<open>Prelude\<close>: integer types, byte arrays, conversions, and the locales \<open>machine\<close> and
    \<open>guarded_machine\<close> for components that are steps over events.
  \<^item> \<open>Ringbuffer\<close>, \<open>RingbufferSpec\<close> (\<open>rt-thread/components/drivers/ipc/ringbuffer.c\<close>): the byte
    buffer on its mirror bits; its locales \<open>byte_fifo\<close> and \<open>byte_fifo_blocks\<close> are the contract its
    clients use, and every run of its operations is that of a bounded queue.
  \<^item> \<open>Kernel\<close>, \<open>KernelProps\<close>, \<open>KernelTime\<close>, \<open>KernelRun\<close> (\<open>rt-thread/src/scheduler.c\<close>,
    \<open>timer.c\<close>, \<open>thread.c\<close>, \<open>clock.c\<close>, \<open>ipc.c\<close>, \<open>kservice.c\<close>): scheduler, sleeping, time-outs
    and semaphores. The invariant \<open>kernel_ok\<close> ties the ready lists, the priority group, the timer list
    and the waiting lists to the states of the threads; every call and tick keeps it, the best ready
    thread runs, and sleeps and time-outs end at exactly their tick. \<open>RtList\<close> (\<open>rtservice.h\<close>)
    shows that the lists of that model are the doubly linked ones. \<open>Boards\<close> is the start of the
    system and of the threads of both boards, and the period of the radio thread.
  \<^item> \<open>Clock\<close>, \<open>ClockProps\<close> (\<open>CH58x_sys.c\<close>, \<open>CH58x_clk.c\<close>, \<open>board/board.c\<close>,
    \<open>drv_rtc.c\<close>): system clock, tick, calibration of the oscillator, real-time clock and calendar.
  \<^item> \<open>Gpio\<close> (\<open>CH58x_gpio.c\<close>, \<open>drv_key.c\<close>, \<open>drv_led.c\<close> of both boards), \<open>Encoder\<close>
    (\<open>drv_encoder.c\<close>), \<open>Adc\<close>, \<open>AdcProps\<close> (\<open>drv_adc.c\<close>, \<open>CH58x_adc.c\<close>), \<open>I2c\<close>,
    \<open>I2cProps\<close> (\<open>drv_i2c.c\<close>), \<open>Tone\<close> (\<open>drv_buzzer.c\<close>, \<open>CH58x_pwm.c\<close>,
    \<open>tone_play_thread.c\<close>), \<open>Usart\<close> (\<open>drv_usart.c\<close> of both boards): the drivers, each with what
    it does to its registers or its bus.
  \<^item> \<open>Button\<close>, \<open>ButtonList\<close> (\<open>button.c\<close>), \<open>Battery\<close> (\<open>battery.c\<close>), \<open>Params\<close>
    (\<open>params.c\<close> of both boards): the services of the control loop.
  \<^item> \<open>Radio\<close>, \<open>RadioScale\<close>, \<open>RadioLoop\<close>, \<open>RadioProps\<close> (\<open>Firmware/applications/radio_thread.c\<close>):
    one iteration of the control loop, its invariant, its scaling, its calibration and what it sends.
  \<^item> \<open>Lcd\<close>, \<open>LcdProps\<close>, \<open>LcdText\<close>, \<open>LcdShapes\<close> (\<open>drv_lcd.c\<close>): the driver as the bytes it
    puts on the bus, and the panel that turns them into pixels. \<open>Gui\<close>, \<open>GuiProps\<close> (\<open>gui.c\<close>,
    \<open>ui_thread.c\<close>): what the screen shows of the channels.
  \<^item> \<open>Datalink\<close> (\<open>datalink.c\<close>), \<open>RfLink\<close>, \<open>RfProps\<close> (\<open>drv_radio.c\<close> of both boards),
    \<open>Hal\<close>, \<open>HalProps\<close> (\<open>HAL.c\<close>, \<open>hal.c\<close>), \<open>Failsafe\<close> (the receiver's \<open>radio_thread.c\<close>, the
    \<open>led_thread.c\<close>): framing, the link, its bring-up and its watch, and the composition of control
    loop, link and frame. The locale \<open>event_handler\<close> is what the event loop of the radio library
    needs of its two tasks.
  \<^item> \<open>Usb\<close>, \<open>UsbProps\<close> (\<open>usbd_cdc_acm_hid.c\<close>, \<open>port/ch32/usb_ch58x_dc_usbfs.c\<close>), \<open>UsbDesc\<close>,
    \<open>HidProps\<close> (the descriptors), \<open>UsbCore\<close>, \<open>UsbCoreProps\<close>, \<open>UsbConfig\<close>, \<open>UsbSafety\<close>
    (\<open>core/usbd_core.c\<close>, \<open>class/cdc/usbd_cdc.c\<close>, \<open>class/hid/usbd_hid.c\<close>): the streams in every
    interleaving, control transfers, enumeration, and memory safety against any host.

  \<^bold>\<open>What the lemmas show.\<close> For each component an invariant or the well-formedness of its state and
  that its operations keep it; what every operation returns on its branches, errors included; where it
  has a contract, the refinement of it (queue, chain of buttons, lines of the display, HID report, linked
  list); that its loops end; and, for data that leaves the board, the round trip. Where the code does
  not do what it means to, the theorem says what it does instead and the manifest lists the finding.

  \<^bold>\<open>Bounds and fuel.\<close> The search of the battery table halves its step, so 8 passes are enough for 101
  entries (proved for every voltage). The search of the timer list needs the length of the list, and the
  check of the timers as many passes as timers. The coarse calibration of the oscillator ends after at
  most three corrections of a converging one. The event loop of the radio library needs at most 16 calls
  for the task of the radio and 4 for the hardware task, one for each event bit. Loops over streams of
  status values or ticks carry no fuel: they are functions of the stream, and the theorems about them
  assume that the hardware answers or the clock goes on.

  \<^bold>\<open>Not modelled.\<close> The binary libraries (radio, flash commands): their documented behaviour is an argument with named
  hypotheses. The register set-up of the USB port (\<open>drv_usbd.c\<close>), the sleep functions, which are
  compiled out, the assembly (start, context switch), pictures and fonts, which are constants and enter
  as arguments. Of the kernel: other objects than threads, timers of threads and semaphores; the events
  of the tone thread are in \<open>Tone\<close>, an interrupt between a call's critical section and its rescheduling
  is left out. The main loops around the binary event loop. All parts of RT-Thread, CherryUSB and the
  peripheral library that the firmware does not call. Electrical and radio behaviour is an environment.
\<close>

end
